(* ===== verification/Prelude.thy ===== *)
theory Prelude
  imports Main "HOL-Library.Monad_Syntax"
begin

section \<open>Prelude\<close>

text \<open>
  What the components share: the collections of rewrite rules the proofs draw on, the
  result type of code that can panic or return an error, association lists standing for
  Go maps (the iteration order of a Go map is unspecified, so a map is an association
  list with distinct keys whose order is the order of one iteration), and the generic
  transition system every concurrent component is an instance of.

  Conventions. A Go \<open>string\<close> is the list of its bytes (\<open>string\<close> of HOL, whose characters
  have eight bits). A \<open>time.Time\<close> is an \<open>int\<close>, the nanoseconds since the zero time, so
  that \<open>IsZero\<close> is \<open>t = 0\<close>; the clock reading of a step is an argument of the step. A
  \<open>time.Duration\<close> is an \<open>int\<close> (nanoseconds). Sequence counters (\<open>int64\<close>) and lengths
  are \<open>int\<close> or \<open>nat\<close>: none of them gets near its bound in a run of the program.
\<close>

named_theorems inv_defs \<open>definitions of the invariants of the components\<close>
named_theorems op_defs \<open>definitions of the operations of the components\<close>

type_synonym time = int
type_synonym duration = int

abbreviation nanosecond :: duration where "nanosecond \<equiv> 1"
abbreviation millisecond :: duration where "millisecond \<equiv> 1000000"
abbreviation second :: duration where "second \<equiv> 1000000000"
abbreviation minute :: duration where "minute \<equiv> 60000000000"
abbreviation hour :: duration where "hour \<equiv> 3600000000000"

subsection \<open>Results\<close>

text \<open>Sequencing of computations that may stop with an error or a panic.\<close>

definition bind_sum :: "'e + 'a \<Rightarrow> ('a \<Rightarrow> 'e + 'b) \<Rightarrow> 'e + 'b" where
  "bind_sum r f = (case r of Inl e \<Rightarrow> Inl e | Inr x \<Rightarrow> f x)"

lemma bind_sum_simps [simp]:
  "bind_sum (Inl e) f = Inl e"
  "bind_sum (Inr x) f = f x"
  by (simp_all add: bind_sum_def)

lemma bind_sum_Inr_iff:
  "bind_sum r f = Inr y \<longleftrightarrow> (\<exists>x. r = Inr x \<and> f x = Inr y)"
  by (cases r) auto

lemma bind_sum_Inl_iff:
  "bind_sum r f = Inl e \<longleftrightarrow> r = Inl e \<or> (\<exists>x. r = Inr x \<and> f x = Inl e)"
  by (cases r) auto

text \<open>A loop that applies a fallible step to each element and stops at the first failure.\<close>

fun fold_sum :: "('a \<Rightarrow> 's \<Rightarrow> 'e + 's) \<Rightarrow> 'a list \<Rightarrow> 's \<Rightarrow> 'e + 's" where
  "fold_sum f [] s = Inr s"
| "fold_sum f (x # xs) s = bind_sum (f x s) (fold_sum f xs)"

lemma fold_sum_append:
  "fold_sum f (xs @ ys) s = bind_sum (fold_sum f xs s) (fold_sum f ys)"
  by (induction xs arbitrary: s) (auto simp: bind_sum_def split: sum.splits)

subsection \<open>Go maps as association lists\<close>

definition alist_get :: "('k \<times> 'v) list \<Rightarrow> 'k \<Rightarrow> 'v option" where
  "alist_get m k = map_of m k"

definition alist_del :: "'k \<Rightarrow> ('k \<times> 'v) list \<Rightarrow> ('k \<times> 'v) list" where
  "alist_del k m = filter (\<lambda>p. fst p \<noteq> k) m"

fun alist_put :: "'k \<Rightarrow> 'v \<Rightarrow> ('k \<times> 'v) list \<Rightarrow> ('k \<times> 'v) list" where
  "alist_put k v [] = [(k, v)]"
| "alist_put k v (p # m) = (if fst p = k then (k, v) # m else p # alist_put k v m)"

definition keys :: "('k \<times> 'v) list \<Rightarrow> 'k list" where
  "keys m = map fst m"

lemma keys_simps [simp]:
  "keys [] = []" "keys (p # m) = fst p # keys m" "keys (m @ m') = keys m @ keys m'"
  by (simp_all add: keys_def)

lemma alist_get_put [simp]: "alist_get (alist_put k v m) = (alist_get m)(k \<mapsto> v)"
  by (induction m) (auto simp: alist_get_def fun_eq_iff)

lemma alist_get_del [simp]: "alist_get (alist_del k m) = (alist_get m)(k := None)"
  by (induction m) (auto simp: alist_get_def alist_del_def fun_eq_iff)

lemma alist_get_Nil [simp]: "alist_get [] k = None"
  by (simp add: alist_get_def)

lemma alist_get_Cons [simp]: "alist_get (p # m) k = (if fst p = k then Some (snd p) else alist_get m k)"
  by (cases p) (simp add: alist_get_def)

lemma set_keys_put [simp]: "set (keys (alist_put k v m)) = insert k (set (keys m))"
  by (induction m) (auto simp: keys_def)

lemma distinct_keys_put [simp]: "distinct (keys m) \<Longrightarrow> distinct (keys (alist_put k v m))"
proof (induction m)
  case Nil
  then show ?case by (simp add: keys_def)
next
  case (Cons p m)
  then show ?case using set_keys_put[of k v m] by (auto simp: keys_def)
qed

lemma set_keys_del [simp]: "set (keys (alist_del k m)) = set (keys m) - {k}"
  by (auto simp: keys_def alist_del_def)

lemma distinct_keys_del [simp]: "distinct (keys m) \<Longrightarrow> distinct (keys (alist_del k m))"
  by (auto simp: keys_def alist_del_def distinct_map_filter)

lemma alist_get_None_iff: "alist_get m k = None \<longleftrightarrow> k \<notin> set (keys m)"
  by (induction m) (auto simp: keys_def)

lemma alist_get_Some_mem: "alist_get m k = Some v \<Longrightarrow> (k, v) \<in> set m"
  by (auto simp: alist_get_def dest: map_of_SomeD)

lemma alist_get_eq_Some:
  "distinct (keys m) \<Longrightarrow> alist_get m k = Some v \<longleftrightarrow> (k, v) \<in> set m"
  by (simp add: alist_get_def keys_def)

lemma alist_del_id: "k \<notin> set (keys m) \<Longrightarrow> alist_del k m = m"
  by (induction m) (auto simp: alist_del_def)

lemma set_alist_del: "set (alist_del k m) = {p \<in> set m. fst p \<noteq> k}"
  by (simp add: alist_del_def)

lemma alist_put_new: "k \<notin> set (keys m) \<Longrightarrow> alist_put k v m = m @ [(k, v)]"
  by (induction m) (auto simp: keys_def)

lemma set_alist_put_subset: "set (alist_put k v m) \<subseteq> insert (k, v) (set m)"
  by (induction m) auto

text \<open>Deleting every entry whose value satisfies a test, as a \<open>for range\<close> with \<open>delete\<close> does.\<close>

definition alist_purge :: "('v \<Rightarrow> bool) \<Rightarrow> ('k \<times> 'v) list \<Rightarrow> ('k \<times> 'v) list" where
  "alist_purge P m = filter (\<lambda>p. \<not> P (snd p)) m"

lemma alist_get_purge:
  "distinct (keys m) \<Longrightarrow>
   alist_get (alist_purge P m) k = (case alist_get m k of Some v \<Rightarrow> if P v then None else Some v | None \<Rightarrow> None)"
proof (induction m)
  case Nil
  then show ?case by (simp add: alist_purge_def)
next
  case (Cons p m)
  then have "alist_get m (fst p) = None" by (simp add: alist_get_None_iff)
  with Cons show ?case by (auto simp: alist_purge_def)
qed

lemma distinct_keys_purge [simp]: "distinct (keys m) \<Longrightarrow> distinct (keys (alist_purge P m))"
  by (auto simp: keys_def alist_purge_def distinct_map_filter)

lemma set_keys_purge: "set (keys (alist_purge P m)) \<subseteq> set (keys m)"
  by (auto simp: keys_def alist_purge_def)

subsection \<open>Transition systems\<close>

text \<open>
  The contract between a component modelled by atomic steps and what is proved of all its
  interleavings: an invariant that holds at the start and that every step keeps holds in
  every reachable state.
\<close>

inductive reach :: "('s \<Rightarrow> bool) \<Rightarrow> ('s \<Rightarrow> 's \<Rightarrow> bool) \<Rightarrow> 's \<Rightarrow> bool" for I R where
  reach_init [intro]: "I s \<Longrightarrow> reach I R s"
| reach_step: "reach I R s \<Longrightarrow> R s t \<Longrightarrow> reach I R t"

locale invariant_system =
  fixes start :: "'s \<Rightarrow> bool"
    and step :: "'s \<Rightarrow> 's \<Rightarrow> bool"
    and inv :: "'s \<Rightarrow> bool"
  assumes inv_start: "start s \<Longrightarrow> inv s"
    and inv_step: "inv s \<Longrightarrow> step s t \<Longrightarrow> inv t"
begin

lemma inv_reach: "reach start step s \<Longrightarrow> inv s"
  by (induction rule: reach.induct) (auto intro: inv_start inv_step)

lemma inv_run: "step\<^sup>*\<^sup>* s t \<Longrightarrow> inv s \<Longrightarrow> inv t"
  by (induction rule: rtranclp_induct) (auto intro: inv_step)

end

text \<open>A quantity that never decreases along a run.\<close>

locale monotone_system = invariant_system start step inv
  for start :: "'s \<Rightarrow> bool" and step :: "'s \<Rightarrow> 's \<Rightarrow> bool" and inv :: "'s \<Rightarrow> bool" +
  fixes meas :: "'s \<Rightarrow> int"
  assumes meas_step: "inv s \<Longrightarrow> step s t \<Longrightarrow> meas s \<le> meas t"
begin

lemma meas_run: "step\<^sup>*\<^sup>* s t \<Longrightarrow> inv s \<Longrightarrow> meas s \<le> meas t"
proof (induction rule: rtranclp_induct)
  case base
  then show ?case by simp
next
  case (step t u)
  then show ?case using inv_run[of s t] meas_step[of t u] by auto
qed

end

lemma reach_trans: "reach I R s \<Longrightarrow> R\<^sup>*\<^sup>* s t \<Longrightarrow> reach I R t"
  by (rotate_tac, induction rule: rtranclp_induct) (auto intro: reach.intros)

end
