(* ===== verification/GoChan.thy ===== *)
theory GoChan
  imports Prelude
begin

section \<open>Go channels\<close>

text \<open>
  Buffered channels of the language: a capacity, the queued values and the closed flag.
  A send on a closed channel and a second close are run-time panics; both are values of
  \<open>panic\<close> here, so that their absence can be proved. Only the non-blocking forms the
  program uses are modelled: \<open>select { case ch <- x: default: }\<close> and \<open>close(ch)\<close>, and the
  receive of a reader.
\<close>

datatype panic = SendOnClosed | CloseOfClosed

record 'a chan =
  chan_cap :: nat
  chan_buf :: "'a list"
  chan_closed :: bool

definition make_chan :: "nat \<Rightarrow> 'a chan" where
  "make_chan n = \<lparr>chan_cap = n, chan_buf = [], chan_closed = False\<rparr>"

definition try_send :: "'a \<Rightarrow> 'a chan \<Rightarrow> panic + 'a chan" where
  "try_send x c =
     (if chan_closed c then Inl SendOnClosed
      else if length (chan_buf c) < chan_cap c then Inr (c\<lparr>chan_buf := chan_buf c @ [x]\<rparr>)
      else Inr c)"

definition close_chan :: "'a chan \<Rightarrow> panic + 'a chan" where
  "close_chan c = (if chan_closed c then Inl CloseOfClosed else Inr (c\<lparr>chan_closed := True\<rparr>))"

definition recv :: "'a chan \<Rightarrow> ('a \<times> 'a chan) option" where
  "recv c = (case chan_buf c of [] \<Rightarrow> None | x # xs \<Rightarrow> Some (x, c\<lparr>chan_buf := xs\<rparr>))"

lemma make_chan_simps [simp]:
  "chan_cap (make_chan n) = n" "chan_buf (make_chan n) = []" "chan_closed (make_chan n) = False"
  by (simp_all add: make_chan_def)

lemma try_send_open: "\<not> chan_closed c \<Longrightarrow> \<exists>c'. try_send x c = Inr c'"
  by (simp add: try_send_def)

lemma try_send_closed: "try_send x c = Inr c' \<Longrightarrow> chan_closed c' = chan_closed c"
  by (auto simp: try_send_def split: if_splits)

lemma try_send_cap: "try_send x c = Inr c' \<Longrightarrow> chan_cap c' = chan_cap c"
  by (auto simp: try_send_def split: if_splits)

lemma try_send_bound:
  "try_send x c = Inr c' \<Longrightarrow> length (chan_buf c) \<le> chan_cap c \<Longrightarrow> length (chan_buf c') \<le> chan_cap c'"
  by (auto simp: try_send_def split: if_splits)

subsection \<open>A store of channels\<close>

text \<open>
  Channels are shared by reference: a subscriber and the session hold the same channel. A
  store is the list of the channels made so far, a reference its index.
\<close>

type_synonym 'a heap = "'a chan list"

definition alloc :: "nat \<Rightarrow> 'a heap \<Rightarrow> nat \<times> 'a heap" where
  "alloc n h = (length h, h @ [make_chan n])"

definition send_at :: "'a \<Rightarrow> nat \<Rightarrow> 'a heap \<Rightarrow> panic + 'a heap" where
  "send_at x r h = bind_sum (try_send x (h ! r)) (\<lambda>c. Inr (h[r := c]))"

definition close_at :: "nat \<Rightarrow> 'a heap \<Rightarrow> panic + 'a heap" where
  "close_at r h = bind_sum (close_chan (h ! r)) (\<lambda>c. Inr (h[r := c]))"

definition send_all :: "'a \<Rightarrow> nat list \<Rightarrow> 'a heap \<Rightarrow> panic + 'a heap" where
  "send_all x rs h = fold_sum (send_at x) rs h"

definition close_all :: "nat list \<Rightarrow> 'a heap \<Rightarrow> panic + 'a heap" where
  "close_all rs h = fold_sum close_at rs h"

definition open_at :: "'a heap \<Rightarrow> nat \<Rightarrow> bool" where
  "open_at h r \<longleftrightarrow> r < length h \<and> \<not> chan_closed (h ! r)"

lemma open_at_upd: "chan_closed c = chan_closed (h ! r) \<Longrightarrow> open_at (h[r := c]) q = open_at h q"
  by (cases "q = r") (auto simp: open_at_def)

lemma send_at_open:
  assumes "open_at h r"
  obtains h' where "send_at x r h = Inr h'" "length h' = length h" "\<And>q. open_at h' q = open_at h q"
proof -
  from assms obtain c where c: "try_send x (h ! r) = Inr c"
    using try_send_open[of "h ! r" x] by (auto simp: open_at_def)
  then have "chan_closed c = chan_closed (h ! r)" by (rule try_send_closed)
  then have "open_at (h[r := c]) q = open_at h q" for q
    by (cases "q = r") (auto simp: open_at_def)
  with c that show thesis by (simp add: send_at_def)
qed

lemma send_all_open:
  assumes "\<forall>r\<in>set rs. open_at h r"
  shows "\<exists>h'. send_all x rs h = Inr h' \<and> length h' = length h \<and> (\<forall>q. open_at h' q = open_at h q)"
  using assms
proof (induction rs arbitrary: h)
  case Nil
  then show ?case by (simp add: send_all_def)
next
  case (Cons r rs)
  then have "open_at h r" by simp
  then obtain h1 where h1: "send_at x r h = Inr h1" "length h1 = length h" "\<And>q. open_at h1 q = open_at h q"
    by (rule send_at_open[where x = x]) blast
  with Cons.prems have "\<forall>r\<in>set rs. open_at h1 r" by simp
  from Cons.IH[OF this] h1 show ?case by (auto simp: send_all_def)
qed

lemma close_at_open:
  assumes "open_at h r"
  shows "\<exists>h'. close_at r h = Inr h' \<and> length h' = length h \<and> (\<forall>q. open_at h' q = (open_at h q \<and> q \<noteq> r))"
  using assms by (auto simp: close_at_def close_chan_def open_at_def nth_list_update)

lemma close_all_open:
  assumes "distinct rs" "\<forall>r\<in>set rs. open_at h r"
  shows "\<exists>h'. close_all rs h = Inr h' \<and> length h' = length h \<and>
           (\<forall>q. open_at h' q = (open_at h q \<and> q \<notin> set rs))"
  using assms
proof (induction rs arbitrary: h)
  case Nil
  then show ?case by (simp add: close_all_def)
next
  case (Cons r rs)
  then have "open_at h r" by simp
  from close_at_open[OF this] obtain h1 where h1: "close_at r h = Inr h1" "length h1 = length h"
    "\<And>q. open_at h1 q = (open_at h q \<and> q \<noteq> r)" by blast
  with Cons.prems have "\<forall>q\<in>set rs. open_at h1 q" "distinct rs" by auto
  from Cons.IH[OF this(2,1)] h1 show ?case by (auto simp: close_all_def)
qed

lemma open_at_alloc:
  "alloc n h = (r, h') \<Longrightarrow> open_at h' q = (open_at h q \<or> q = r)"
  by (auto simp: alloc_def open_at_def nth_append)

lemma length_alloc: "alloc n h = (r, h') \<Longrightarrow> r = length h \<and> length h' = Suc (length h)"
  by (auto simp: alloc_def)

end
