(* ===== verification/GoStrings.thy ===== *)
theory GoStrings
  imports Prelude "HOL-Library.Char_ord"
begin

section \<open>Go strings\<close>

text \<open>
  The part of Go's string type and of the packages \<open>strings\<close>, \<open>unicode\<close> and
  \<open>unicode/utf8\<close> that the daemon uses. A string is its bytes; \<open>for range\<close> over a string
  decodes UTF-8, an invalid byte giving the replacement rune U+FFFD of width one. A rune is
  a \<open>nat\<close>.
\<close>

type_synonym gostring = string
type_synonym rune = nat

definition rune_error :: rune where "rune_error = 65533"

definition cont :: "nat \<Rightarrow> bool" where "cont b \<longleftrightarrow> 128 \<le> b \<and> b \<le> 191"

text \<open>
  The second byte of a sequence is limited by the first one (no over-long forms, no
  surrogates, nothing above U+10FFFF).
\<close>

definition accept2 :: "nat \<Rightarrow> nat \<Rightarrow> bool" where
  "accept2 b0 b1 \<longleftrightarrow>
     (if b0 = 224 then 160 \<le> b1 \<and> b1 \<le> 191
      else if b0 = 237 then 128 \<le> b1 \<and> b1 \<le> 159
      else if b0 = 240 then 144 \<le> b1 \<and> b1 \<le> 191
      else if b0 = 244 then 128 \<le> b1 \<and> b1 \<le> 143
      else cont b1)"

text \<open>One rune and its width in bytes, as \<open>utf8.DecodeRune\<close> on a non-empty string.\<close>

fun decode_rune :: "nat list \<Rightarrow> rune \<times> nat" where
  "decode_rune [] = (rune_error, 0)"
| "decode_rune (b0 # bs) =
     (if b0 < 128 then (b0, 1)
      else if 194 \<le> b0 \<and> b0 \<le> 223 then
        (case bs of b1 # _ \<Rightarrow> if cont b1 then ((b0 - 192) * 64 + (b1 - 128), 2) else (rune_error, 1)
         | [] \<Rightarrow> (rune_error, 1))
      else if 224 \<le> b0 \<and> b0 \<le> 239 then
        (case bs of b1 # b2 # _ \<Rightarrow>
            if accept2 b0 b1 \<and> cont b2
            then ((b0 - 224) * 4096 + (b1 - 128) * 64 + (b2 - 128), 3) else (rune_error, 1)
         | _ \<Rightarrow> (rune_error, 1))
      else if 240 \<le> b0 \<and> b0 \<le> 244 then
        (case bs of b1 # b2 # b3 # _ \<Rightarrow>
            if accept2 b0 b1 \<and> cont b2 \<and> cont b3
            then ((b0 - 240) * 262144 + (b1 - 128) * 4096 + (b2 - 128) * 64 + (b3 - 128), 4)
            else (rune_error, 1)
         | _ \<Rightarrow> (rune_error, 1))
      else (rune_error, 1))"

lemma decode_rune_width:
  "bs \<noteq> [] \<Longrightarrow> 1 \<le> snd (decode_rune bs) \<and> snd (decode_rune bs) \<le> length bs"
  by (cases bs rule: decode_rune.cases) (auto split: list.splits)

declare decode_rune.simps [simp del]

definition bytes_of :: "gostring \<Rightarrow> nat list" where
  "bytes_of s = map of_char s"

lemma decode_bytes_pos:
  assumes "decode_rune (bytes_of (c # cs)) = (r, w)"
  shows "0 < w"
  using decode_rune_width[of "bytes_of (c # cs)"] assms by (auto simp: bytes_of_def)

text \<open>The runes of a string, each with the bytes it was decoded from.\<close>

function rune_segs :: "gostring \<Rightarrow> (rune \<times> gostring) list" where
  "rune_segs [] = []"
| "rune_segs (c # cs) =
     (case decode_rune (bytes_of (c # cs)) of
        (r, w) \<Rightarrow> (r, take w (c # cs)) # rune_segs (drop w (c # cs)))"
  by pat_completeness auto
termination
  by (relation "measure length") (auto dest!: decode_bytes_pos[OF sym])

declare rune_segs.simps(2) [simp del]

lemma rune_segs_concat: "concat (map snd (rune_segs s)) = s"
proof (induction s rule: rune_segs.induct)
  case (2 c cs)
  obtain r w where rw: "decode_rune (bytes_of (c # cs)) = (r, w)" by fastforce
  with 2 have "concat (map snd (rune_segs (drop w (c # cs)))) = drop w (c # cs)" by metis
  with rw show ?case by (simp add: rune_segs.simps(2))
qed simp

text \<open>ASCII text decodes byte by byte.\<close>

definition ascii :: "gostring \<Rightarrow> bool" where
  "ascii s \<longleftrightarrow> (\<forall>c\<in>set s. (of_char c :: nat) < 128)"

lemma ascii_simps [simp]: "ascii []" "ascii (c # s) \<longleftrightarrow> (of_char c :: nat) < 128 \<and> ascii s"
  by (auto simp: ascii_def)

lemma rune_segs_ascii_Cons:
  "(of_char c :: nat) < 128 \<Longrightarrow> rune_segs (c # s) = (of_char c, [c]) # rune_segs s"
  by (simp add: rune_segs.simps(2) bytes_of_def decode_rune.simps)

lemma rune_segs_ascii: "ascii s \<Longrightarrow> rune_segs s = map (\<lambda>c. (of_char c, [c])) s"
  by (induction s) (auto simp: rune_segs_ascii_Cons)

definition runes :: "gostring \<Rightarrow> rune list" where
  "runes s = map fst (rune_segs s)"

text \<open>\<open>string(r)\<close> for a rune: an invalid rune becomes U+FFFD.\<close>

definition valid_rune :: "rune \<Rightarrow> bool" where
  "valid_rune r \<longleftrightarrow> r < 55296 \<or> (57344 \<le> r \<and> r \<le> 1114111)"

definition encode_bytes :: "rune \<Rightarrow> nat list" where
  "encode_bytes r =
     (if \<not> valid_rune r then [239, 191, 189]
      else if r < 128 then [r]
      else if r < 2048 then [192 + r div 64, 128 + r mod 64]
      else if r < 65536 then [224 + r div 4096, 128 + (r div 64) mod 64, 128 + r mod 64]
      else [240 + r div 262144, 128 + (r div 4096) mod 64, 128 + (r div 64) mod 64, 128 + r mod 64])"

definition encode_rune :: "rune \<Rightarrow> gostring" where
  "encode_rune r = map char_of (encode_bytes r)"

definition encode_runes :: "rune list \<Rightarrow> gostring" where
  "encode_runes rs = concat (map encode_rune rs)"

subsection \<open>Predicates and searches\<close>

definition HasPrefix :: "gostring \<Rightarrow> gostring \<Rightarrow> bool" where
  "HasPrefix s p \<longleftrightarrow> take (length p) s = p"

definition HasSuffix :: "gostring \<Rightarrow> gostring \<Rightarrow> bool" where
  "HasSuffix s p \<longleftrightarrow> length p \<le> length s \<and> drop (length s - length p) s = p"

fun Contains :: "gostring \<Rightarrow> gostring \<Rightarrow> bool" where
  "Contains [] sub = (sub = [])"
| "Contains (c # s) sub = (HasPrefix (c # s) sub \<or> Contains s sub)"

definition ContainsAny :: "gostring \<Rightarrow> gostring \<Rightarrow> bool" where
  "ContainsAny s cs \<longleftrightarrow> (\<exists>c\<in>set s. c \<in> set cs)"

text \<open>Position of the first byte of a set, for sets of ASCII characters.\<close>

fun IndexAny :: "gostring \<Rightarrow> gostring \<Rightarrow> nat option" where
  "IndexAny [] cs = None"
| "IndexAny (c # s) cs = (if c \<in> set cs then Some 0 else map_option Suc (IndexAny s cs))"

lemma HasPrefix_iff: "HasPrefix s p \<longleftrightarrow> (\<exists>t. s = p @ t)"
  unfolding HasPrefix_def by (metis append_eq_conv_conj append_take_drop_id)

lemma HasSuffix_iff: "HasSuffix s p \<longleftrightarrow> (\<exists>t. s = t @ p)"
proof
  assume "HasSuffix s p"
  then show "\<exists>t. s = t @ p" unfolding HasSuffix_def by (metis append_take_drop_id)
next
  assume "\<exists>t. s = t @ p"
  then show "HasSuffix s p" by (auto simp: HasSuffix_def)
qed

lemma Contains_iff: "Contains s sub \<longleftrightarrow> (\<exists>a b. s = a @ sub @ b)"
proof (induction s)
  case Nil
  then show ?case by simp
next
  case (Cons c s)
  show ?case
  proof
    assume "Contains (c # s) sub"
    then consider "HasPrefix (c # s) sub" | "Contains s sub" by auto
    then show "\<exists>a b. c # s = a @ sub @ b"
    proof cases
      case 1
      then show ?thesis unfolding HasPrefix_iff by (metis append_Nil)
    next
      case 2
      with Cons show ?thesis by (metis append_Cons)
    qed
  next
    assume "\<exists>a b. c # s = a @ sub @ b"
    then obtain a b where ab: "c # s = a @ sub @ b" by blast
    show "Contains (c # s) sub"
    proof (cases a)
      case Nil
      with ab have "HasPrefix (c # s) sub" unfolding HasPrefix_iff by auto
      then show ?thesis by simp
    next
      case (Cons x a')
      with ab have "\<exists>a b. s = a @ sub @ b" by auto
      with Cons.IH show ?thesis by simp
    qed
  qed
qed

subsection \<open>White space\<close>

definition is_space :: "rune \<Rightarrow> bool" where
  "is_space r \<longleftrightarrow> r \<in> {9, 10, 11, 12, 13, 32, 133, 160, 5760, 8232, 8233, 8239, 8287, 12288}
     \<or> (8192 \<le> r \<and> r \<le> 8202)"

definition unsegs :: "(rune \<times> gostring) list \<Rightarrow> gostring" where
  "unsegs segs = concat (map snd segs)"

definition TrimSpace :: "gostring \<Rightarrow> gostring" where
  "TrimSpace s =
     unsegs (rev (dropWhile (\<lambda>p. is_space (fst p))
        (rev (dropWhile (\<lambda>p. is_space (fst p)) (rune_segs s)))))"

text \<open>\<open>strings.Fields\<close>: the maximal runs of runes that are not white space.\<close>

fun fields_segs :: "gostring \<Rightarrow> (rune \<times> gostring) list \<Rightarrow> gostring list" where
  "fields_segs cur [] = (if cur = [] then [] else [cur])"
| "fields_segs cur (p # ps) =
     (if is_space (fst p) then (if cur = [] then [] else [cur]) @ fields_segs [] ps
      else fields_segs (cur @ snd p) ps)"

definition Fields :: "gostring \<Rightarrow> gostring list" where
  "Fields s = fields_segs [] (rune_segs s)"

text \<open>Trimming a set of ASCII characters (\<open>TrimLeft\<close>, \<open>TrimRight\<close>, \<open>Trim\<close>).\<close>

definition TrimLeft :: "gostring \<Rightarrow> gostring \<Rightarrow> gostring" where
  "TrimLeft s cs = dropWhile (\<lambda>c. c \<in> set cs) s"

definition TrimRight :: "gostring \<Rightarrow> gostring \<Rightarrow> gostring" where
  "TrimRight s cs = rev (dropWhile (\<lambda>c. c \<in> set cs) (rev s))"

definition Trim :: "gostring \<Rightarrow> gostring \<Rightarrow> gostring" where
  "Trim s cs = TrimRight (TrimLeft s cs) cs"

definition TrimPrefix :: "gostring \<Rightarrow> gostring \<Rightarrow> gostring" where
  "TrimPrefix s p = (if HasPrefix s p then drop (length p) s else s)"

definition TrimSuffix :: "gostring \<Rightarrow> gostring \<Rightarrow> gostring" where
  "TrimSuffix s p = (if HasSuffix s p then take (length s - length p) s else s)"

subsection \<open>Splitting, joining, replacing\<close>

fun Join :: "gostring list \<Rightarrow> gostring \<Rightarrow> gostring" where
  "Join [] sep = []"
| "Join [s] sep = s"
| "Join (s # t # ss) sep = s @ sep @ Join (t # ss) sep"

text \<open>The text before the first occurrence of a non-empty separator, and the rest after it.\<close>

fun cut_at :: "gostring \<Rightarrow> gostring \<Rightarrow> (gostring \<times> gostring) option" where
  "cut_at sep [] = None"
| "cut_at sep (c # s) =
     (if HasPrefix (c # s) sep then Some ([], drop (length sep) (c # s))
      else map_option (\<lambda>(a, b). (c # a, b)) (cut_at sep s))"

lemma cut_at_Some: "cut_at sep s = Some (a, b) \<Longrightarrow> s = a @ sep @ b"
proof (induction s arbitrary: a)
  case Nil
  then show ?case by simp
next
  case (Cons c s)
  show ?case
  proof (cases "HasPrefix (c # s) sep")
    case True
    with Cons.prems have "a = []" "b = drop (length sep) (c # s)" by auto
    with True show ?thesis unfolding HasPrefix_def by (metis append_Nil append_take_drop_id)
  next
    case False
    with Cons.prems obtain a' where "cut_at sep s = Some (a', b)" "a = c # a'" by auto
    with Cons.IH show ?thesis by auto
  qed
qed

text \<open>\<open>strings.SplitN(s, sep, 2)\<close> for a non-empty separator.\<close>

definition SplitN2 :: "gostring \<Rightarrow> gostring \<Rightarrow> gostring list" where
  "SplitN2 s sep = (case cut_at sep s of None \<Rightarrow> [s] | Some (a, b) \<Rightarrow> [a, b])"

text \<open>\<open>strings.Split\<close> for a separator of one byte.\<close>

fun split_byte :: "char \<Rightarrow> gostring \<Rightarrow> gostring list" where
  "split_byte d [] = [[]]"
| "split_byte d (c # s) =
     (if c = d then [] # split_byte d s
      else (case split_byte d s of [] \<Rightarrow> [[c]] | f # fs \<Rightarrow> (c # f) # fs))"

text \<open>\<open>strings.ReplaceAll\<close> of one byte by a string.\<close>

definition replace_byte :: "char \<Rightarrow> gostring \<Rightarrow> gostring \<Rightarrow> gostring" where
  "replace_byte d r s = concat (map (\<lambda>c. if c = d then r else [c]) s)"

subsection \<open>Letter case\<close>

text \<open>
  \<open>strings.ToLower\<close> maps rune by rune. The tables of \<open>unicode.ToLower\<close> above U+007F are an
  argument \<open>u\<close>.
\<close>

definition lower_rune :: "(rune \<Rightarrow> rune) \<Rightarrow> rune \<Rightarrow> rune" where
  "lower_rune u r = (if 65 \<le> r \<and> r \<le> 90 then r + 32 else if r < 128 then r else u r)"

definition ToLower :: "(rune \<Rightarrow> rune) \<Rightarrow> gostring \<Rightarrow> gostring" where
  "ToLower u s = concat (map (\<lambda>p. encode_rune (lower_rune u (fst p))) (rune_segs s))"

lemma fold_lower_byte: "of_char (char_of (n::nat) :: char) = n mod 256"
  by simp

definition lower_byte :: "char \<Rightarrow> char" where
  "lower_byte c = (let b = of_char c :: nat in if 65 \<le> b \<and> b \<le> 90 then char_of (b + 32) else c)"

lemma encode_rune_ascii: "r < 128 \<Longrightarrow> encode_rune r = [char_of r]"
  by (simp add: encode_rune_def encode_bytes_def valid_rune_def)

lemma ToLower_ascii: "ascii s \<Longrightarrow> ToLower u s = map lower_byte s"
  unfolding ToLower_def
  by (simp add: rune_segs_ascii, induction s)
     (auto simp: lower_rune_def encode_rune_ascii lower_byte_def Let_def)

text \<open>The decimal form of an integer, \<open>strconv.Itoa\<close>.\<close>

fun digits :: "nat \<Rightarrow> gostring" where
  "digits n = (if n < 10 then [char_of (48 + n)] else digits (n div 10) @ [char_of (48 + n mod 10)])"

declare digits.simps [simp del]

definition Itoa :: "int \<Rightarrow> gostring" where
  "Itoa i = (if i < 0 then CHR ''-'' # digits (nat (- i)) else digits (nat i))"

subsection \<open>Encoding and decoding\<close>

lemma decode_rune_valid: "valid_rune (fst (decode_rune bs))"
proof (cases bs rule: decode_rune.cases)
  case (2 b0 bs')
  have e: "valid_rune rune_error" by (simp add: valid_rune_def rune_error_def)
  have two: "valid_rune ((b0 - 192) * 64 + (b1 - 128))" if "b0 \<le> 223" "cont b1" for b1
  proof -
    have "(b0 - 192) * 64 \<le> 31 * 64" using that by (intro mult_le_mono1) simp
    moreover have "b1 - 128 \<le> 63" using that by (auto simp: cont_def)
    ultimately show ?thesis by (simp add: valid_rune_def)
  qed
  have three: "valid_rune ((b0 - 224) * 4096 + (b1 - 128) * 64 + (b2 - 128))"
    if b0: "224 \<le> b0" "b0 \<le> 239" and a: "accept2 b0 b1" and c: "cont b2" for b1 b2
  proof -
    have b2: "b2 - 128 \<le> 63" using c by (auto simp: cont_def)
    have b1: "b1 \<le> 191" using a by (auto simp: accept2_def cont_def split: if_splits)
    consider "b0 \<le> 236" | "b0 = 237" | "238 \<le> b0" by linarith
    then show ?thesis
    proof cases
      case 1
      then have "(b0 - 224) * 4096 \<le> 12 * 4096" by (intro mult_le_mono1) simp
      with b1 b2 have "(b0 - 224) * 4096 + (b1 - 128) * 64 + (b2 - 128) < 55296" by linarith
      then show ?thesis by (simp add: valid_rune_def)
    next
      case 2
      with a have "b1 \<le> 159" by (simp add: accept2_def)
      with 2 b2 have "(b0 - 224) * 4096 + (b1 - 128) * 64 + (b2 - 128) < 55296" by linarith
      then show ?thesis by (simp add: valid_rune_def)
    next
      case 3
      with b0 have "14 * 4096 \<le> (b0 - 224) * 4096" "(b0 - 224) * 4096 \<le> 15 * 4096"
        by (intro mult_le_mono1; simp)+
      with b1 b2 show ?thesis by (simp add: valid_rune_def)
    qed
  qed
  have four: "valid_rune ((b0 - 240) * 262144 + (b1 - 128) * 4096 + (b2 - 128) * 64 + (b3 - 128))"
    if b0: "240 \<le> b0" "b0 \<le> 244" and a: "accept2 b0 b1" and c: "cont b2" "cont b3" for b1 b2 b3
  proof -
    have b23: "b2 - 128 \<le> 63" "b3 - 128 \<le> 63" using c by (auto simp: cont_def)
    consider "b0 = 240" | "b0 = 241" | "b0 = 242" | "b0 = 243" | "b0 = 244" using b0 by linarith
    then show ?thesis
      using a b23 by cases (auto simp: accept2_def cont_def valid_rune_def)
  qed
  have one: "valid_rune b0" if "b0 < 128" using that by (simp add: valid_rune_def)
  consider "b0 < 128" | "128 \<le> b0" "b0 < 194" | "194 \<le> b0" "b0 \<le> 223" | "224 \<le> b0" "b0 \<le> 239"
    | "240 \<le> b0" "b0 \<le> 244" | "244 < b0" by linarith
  then show ?thesis
  proof cases
    case 3
    then show ?thesis using e two 2 by (simp add: decode_rune.simps split: list.splits)
  next
    case 4
    then show ?thesis using e three 2 by (simp add: decode_rune.simps split: list.splits)
  next
    case 5
    then show ?thesis using e four 2 by (simp add: decode_rune.simps split: list.splits)
  qed (use e one 2 in \<open>simp_all add: decode_rune.simps\<close>)
qed (simp add: decode_rune.simps valid_rune_def rune_error_def)

lemma encode_bytes_lt: "b \<in> set (encode_bytes r) \<Longrightarrow> b < 256"
proof -
  assume b: "b \<in> set (encode_bytes r)"
  have "r div 64 < 32" if "r < 2048" using that by (simp add: less_mult_imp_div_less)
  moreover have "r div 4096 < 16" if "r < 65536" using that by (simp add: less_mult_imp_div_less)
  moreover have "r div 262144 < 5" if "valid_rune r"
    using that by (auto simp: valid_rune_def intro!: less_mult_imp_div_less)
  moreover have "x mod 64 < 64" for x :: nat by simp
  ultimately show ?thesis
    using b unfolding encode_bytes_def by (auto split: if_splits)
qed

lemma decode_encode:
  assumes "valid_rune r"
  shows "decode_rune (encode_bytes r @ rest) = (r, length (encode_bytes r))"
proof -
  have m: "r mod 64 \<le> 63" "(r div 64) mod 64 \<le> 63" "(r div 4096) mod 64 \<le> 63"
    using mod_less_divisor[of 64] by (simp_all add: less_Suc_eq_le [symmetric])
  consider "r < 128" | "128 \<le> r" "r < 2048" | "2048 \<le> r" "r < 65536" | "65536 \<le> r" by linarith
  then show ?thesis
  proof cases
    case 1
    with assms show ?thesis by (simp add: encode_bytes_def decode_rune.simps)
  next
    case 2
    then have d: "2 \<le> r div 64" "r div 64 \<le> 31" by linarith+
    have "encode_bytes r = [192 + r div 64, 128 + r mod 64]" using 2 assms by (simp add: encode_bytes_def)
    then show ?thesis using d m(1) by (simp add: decode_rune.simps cont_def)
  next
    case 3
    have q: "r div 64 div 64 = r div 4096" by (simp add: div_mult2_eq [symmetric])
    have d: "r div 4096 \<le> 15" using 3 less_mult_imp_div_less[of r 16 4096] by simp
    have e1: "64 * (r div 64) + r mod 64 = r" "64 * (r div 4096) + r div 64 mod 64 = r div 64"
      using mult_div_mod_eq[of 64 "r div 64"] q by simp_all
    then have e: "r div 4096 * 4096 + r div 64 mod 64 * 64 + r mod 64 = r" by linarith
    have a: "accept2 (224 + r div 4096) (128 + r div 64 mod 64)"
    proof -
      have "32 \<le> r div 64 mod 64" if "r div 4096 = 0" using that 3 e by linarith
      moreover have "r div 64 mod 64 \<le> 31" if "r div 4096 = 13"
        using that assms e m unfolding valid_rune_def by linarith
      ultimately show ?thesis using d m(2) by (auto simp: accept2_def cont_def)
    qed
    have "encode_bytes r = [224 + r div 4096, 128 + (r div 64) mod 64, 128 + r mod 64]"
      using 3 assms by (simp add: encode_bytes_def)
    then show ?thesis using d m a e by (simp add: decode_rune.simps cont_def)
  next
    case 4
    have q: "r div 64 div 64 = r div 4096" "r div 4096 div 64 = r div 262144" by (simp_all add: div_mult2_eq [symmetric])
    have d: "r div 262144 \<le> 4" using assms less_mult_imp_div_less[of r 5 262144] by (auto simp: valid_rune_def)
    have e1: "64 * (r div 64) + r mod 64 = r" "64 * (r div 4096) + r div 64 mod 64 = r div 64"
      "64 * (r div 262144) + r div 4096 mod 64 = r div 4096"
      using mult_div_mod_eq[of 64 "r div 64"] mult_div_mod_eq[of 64 "r div 4096"] q by simp_all
    then have e: "r div 262144 * 262144 + r div 4096 mod 64 * 4096 + r div 64 mod 64 * 64 + r mod 64 = r" by linarith
    have a: "accept2 (240 + r div 262144) (128 + r div 4096 mod 64)"
    proof -
      have "16 \<le> r div 4096 mod 64" if "r div 262144 = 0" using that 4 e m by linarith
      moreover have "r div 4096 mod 64 \<le> 15" if "r div 262144 = 4"
        using that assms e m unfolding valid_rune_def by linarith
      ultimately show ?thesis using d m(3) by (auto simp: accept2_def cont_def)
    qed
    have "encode_bytes r = [240 + r div 262144, 128 + (r div 4096) mod 64, 128 + (r div 64) mod 64, 128 + r mod 64]"
      using 4 assms by (simp add: encode_bytes_def)
    then show ?thesis using d m a e by (simp add: decode_rune.simps cont_def)
  qed
qed

lemma encode_bytes_nonempty [simp]: "encode_bytes r \<noteq> []"
  by (simp add: encode_bytes_def)

lemma bytes_of_encode: "bytes_of (encode_rune r) = encode_bytes r"
  unfolding bytes_of_def encode_rune_def by (simp add: map_idI encode_bytes_lt)

lemma rune_segs_encode:
  "valid_rune r \<Longrightarrow> rune_segs (encode_rune r @ s) = (r, encode_rune r) # rune_segs s"
proof -
  assume "valid_rune r"
  then have d: "decode_rune (bytes_of (encode_rune r @ s)) = (r, length (encode_rune r))"
    using decode_encode[of r "bytes_of s"] bytes_of_encode[of r] by (simp add: bytes_of_def encode_rune_def)
  have "encode_rune r @ s \<noteq> []" by (simp add: encode_rune_def)
  then obtain c cs where c: "encode_rune r @ s = c # cs" by (cases "encode_rune r @ s") auto
  have "rune_segs (c # cs) = (r, take (length (encode_rune r)) (c # cs)) # rune_segs (drop (length (encode_rune r)) (c # cs))"
    using d unfolding c by (simp add: rune_segs.simps(2))
  then show ?thesis unfolding c [symmetric] by simp
qed

text \<open>Encoding valid runes and decoding them again gives the runes back.\<close>

lemma runes_encode_runes: "\<forall>r\<in>set rs. valid_rune r \<Longrightarrow> runes (encode_runes rs) = rs"
  by (induction rs) (auto simp: runes_def encode_runes_def rune_segs_encode)

lemma runes_valid: "r \<in> set (runes s) \<Longrightarrow> valid_rune r"
proof (induction s rule: rune_segs.induct)
  case (2 c cs)
  obtain q w where qw: "decode_rune (bytes_of (c # cs)) = (q, w)" by fastforce
  have "r = q \<or> r \<in> set (runes (drop w (c # cs)))"
    using "2.prems" qw by (auto simp: runes_def rune_segs.simps(2))
  then show ?case using "2.IH"[OF qw[symmetric]] decode_rune_valid[of "bytes_of (c # cs)"] qw by auto
qed (simp add: runes_def)

subsection \<open>Laws\<close>

lemma unsegs_rune_segs [simp]: "unsegs (rune_segs s) = s"
  by (simp add: unsegs_def rune_segs_concat)

lemma TrimSpace_ascii:
  assumes "ascii s"
  shows "TrimSpace s =
     rev (dropWhile (\<lambda>c. is_space (of_char c)) (rev (dropWhile (\<lambda>c. is_space (of_char c)) s)))"
proof -
  have "unsegs (map (\<lambda>c. (of_char c, [c])) xs) = xs" for xs
    by (induction xs) (auto simp: unsegs_def)
  then show ?thesis
    using assms by (simp add: TrimSpace_def rune_segs_ascii dropWhile_map rev_map o_def)
qed

lemma TrimSpace_Nil [simp]: "TrimSpace [] = []"
  by (simp add: TrimSpace_def unsegs_def)

lemma length_unsegs_dropWhile: "length (unsegs (dropWhile P xs)) \<le> length (unsegs xs)"
  by (induction xs) (auto simp: unsegs_def)

lemma length_unsegs_rev: "length (unsegs (rev xs)) = length (unsegs xs)"
  by (induction xs) (simp_all add: unsegs_def)

lemma length_TrimSpace: "length (TrimSpace s) \<le> length s"
  unfolding TrimSpace_def
  by (metis length_unsegs_dropWhile length_unsegs_rev le_trans unsegs_rune_segs)

lemma TrimRight_id: "s = [] \<or> last s \<notin> set cs \<Longrightarrow> TrimRight s cs = s"
proof (cases s rule: rev_cases)
  case (snoc ys y)
  moreover assume "s = [] \<or> last s \<notin> set cs"
  ultimately show ?thesis by (simp add: TrimRight_def)
qed (simp add: TrimRight_def)

lemma TrimRight_last: "TrimRight s cs \<noteq> [] \<Longrightarrow> last (TrimRight s cs) \<notin> set cs"
  unfolding TrimRight_def
  using hd_dropWhile[of "\<lambda>c. c \<in> set cs" "rev s"] by (auto simp: last_rev)

lemma TrimRight_idem: "TrimRight (TrimRight s cs) cs = TrimRight s cs"
  by (rule TrimRight_id) (use TrimRight_last in blast)

lemma set_TrimRight: "set (TrimRight s cs) \<subseteq> set s"
  unfolding TrimRight_def by (auto dest: set_dropWhileD)

lemma set_TrimLeft: "set (TrimLeft s cs) \<subseteq> set s"
  unfolding TrimLeft_def by (auto dest: set_dropWhileD)

lemma set_Trim: "set (Trim s cs) \<subseteq> set s"
  unfolding Trim_def using set_TrimRight set_TrimLeft by blast

lemma length_TrimRight: "length (TrimRight s cs) \<le> length s"
  unfolding TrimRight_def by (metis length_dropWhile_le length_rev)

lemma length_Trim: "length (Trim s cs) \<le> length s"
  unfolding Trim_def by (metis TrimLeft_def length_TrimRight length_dropWhile_le le_trans)

subsection \<open>Trimming twice\<close>

text \<open>The runes of a part of a string that ends where a rune ends.\<close>

lemma decode_rune_1: "decode_rune [b0] = (if b0 < 128 then (b0, 1) else (rune_error, 1))"
  by (simp add: decode_rune.simps(2))

lemma decode_rune_2: "decode_rune [b0, b1] =
  (if b0 < 128 then (b0, 1) else if 194 \<le> b0 \<and> b0 \<le> 223 \<and> cont b1 then ((b0 - 192) * 64 + (b1 - 128), 2) else (rune_error, 1))"
  by (simp add: decode_rune.simps(2))

lemma decode_rune_3: "decode_rune [b0, b1, b2] =
  (if b0 < 128 then (b0, 1) else if 194 \<le> b0 \<and> b0 \<le> 223 \<and> cont b1 then ((b0 - 192) * 64 + (b1 - 128), 2)
   else if 224 \<le> b0 \<and> b0 \<le> 239 \<and> accept2 b0 b1 \<and> cont b2
   then ((b0 - 224) * 4096 + (b1 - 128) * 64 + (b2 - 128), 3) else (rune_error, 1))"
  by (simp add: decode_rune.simps(2))

lemma decode_rune_4: "decode_rune (b0 # b1 # b2 # b3 # cs) =
  (if b0 < 128 then (b0, 1) else if 194 \<le> b0 \<and> b0 \<le> 223 \<and> cont b1 then ((b0 - 192) * 64 + (b1 - 128), 2)
   else if 224 \<le> b0 \<and> b0 \<le> 239 \<and> accept2 b0 b1 \<and> cont b2
   then ((b0 - 224) * 4096 + (b1 - 128) * 64 + (b2 - 128), 3)
   else if 240 \<le> b0 \<and> b0 \<le> 244 \<and> accept2 b0 b1 \<and> cont b2 \<and> cont b3
   then ((b0 - 240) * 262144 + (b1 - 128) * 4096 + (b2 - 128) * 64 + (b3 - 128), 4) else (rune_error, 1))"
  by (simp add: decode_rune.simps(2))

lemma decode_rune_take:
  assumes "snd (decode_rune bs) \<le> n" "0 < n"
  shows "decode_rune (take n bs) = decode_rune bs"
proof -
  consider "length bs \<le> n" | "n = 1" "1 < length bs" | "n = 2" "2 < length bs" | "n = 3" "3 < length bs" | "4 \<le> n" "n < length bs"
    using assms(2) by linarith
  then show ?thesis
  proof cases
    case 2
    then obtain b0 b1 bs1 where bs: "bs = b0 # b1 # bs1" by (cases bs; cases "tl bs") auto
    then have "bs = [b0, b1] \<or> (\<exists>b2. bs = [b0, b1, b2]) \<or> (\<exists>b2 b3 cs. bs = b0 # b1 # b2 # b3 # cs)"
      by (cases bs1; cases "tl bs1") auto
    then show ?thesis using assms(1) 2 by (auto simp: decode_rune_1 decode_rune_2 decode_rune_3 decode_rune_4 split: if_splits)
  next
    case 3
    then obtain b0 b1 b2 bs1 where bs: "bs = b0 # b1 # b2 # bs1" by (cases bs; cases "tl bs"; cases "tl (tl bs)") auto
    then have "bs = [b0, b1, b2] \<or> (\<exists>b3 cs. bs = b0 # b1 # b2 # b3 # cs)" by (cases bs1) auto
    then show ?thesis using assms(1) 3 by (auto simp: decode_rune_2 decode_rune_3 decode_rune_4 take_Cons' split: if_splits)
  next
    case 4
    then obtain b0 b1 b2 b3 cs where bs: "bs = b0 # b1 # b2 # b3 # cs"
      by (cases bs; cases "tl bs"; cases "tl (tl bs)"; cases "tl (tl (tl bs))") auto
    then show ?thesis using assms(1) 4 by (auto simp: decode_rune_3 decode_rune_4 take_Cons' split: if_splits)
  next
    case 5
    then obtain b0 b1 b2 b3 cs where bs: "bs = b0 # b1 # b2 # b3 # cs"
      by (cases bs; cases "tl bs"; cases "tl (tl bs)"; cases "tl (tl (tl bs))") auto
    then have "\<exists>ds. take n bs = b0 # b1 # b2 # b3 # ds" using 5 by (auto simp: take_Cons')
    then show ?thesis by (auto simp: bs decode_rune_4)
  qed simp
qed

lemma rune_segs_suffix: "rune_segs s = xs @ ys \<Longrightarrow> rune_segs (unsegs ys) = ys"
proof (induction xs arbitrary: s)
  case Nil
  then show ?case using unsegs_rune_segs[of s] by simp
next
  case (Cons x xs)
  then show ?case by (cases s) (auto simp: rune_segs.simps(2) split: prod.splits)
qed

lemma rune_segs_prefix: "rune_segs s = xs @ ys \<Longrightarrow> rune_segs (unsegs xs) = xs"
proof (induction xs arbitrary: s)
  case Nil
  then show ?case by (simp add: unsegs_def)
next
  case (Cons x xs)
  then obtain c cs where s: "s = c # cs" by (cases s) auto
  obtain r w where rw: "decode_rune (bytes_of (c # cs)) = (r, w)" by fastforce
  have w: "0 < w" "w \<le> length (c # cs)" using decode_rune_width[of "bytes_of (c # cs)"] rw by (auto simp: bytes_of_def)
  have seg: "x = (r, take w (c # cs))" "rune_segs (drop w (c # cs)) = xs @ ys"
    using Cons.prems s rw by (auto simp: rune_segs.simps(2))
  have ih: "rune_segs (unsegs xs) = xs" using Cons.IH[OF seg(2)] .
  have "drop w (c # cs) = unsegs xs @ unsegs ys" using seg(2) unsegs_rune_segs[of "drop w (c # cs)"] by (simp add: unsegs_def)
  then have split: "c # cs = (take w (c # cs) @ unsegs xs) @ unsegs ys" by (metis append.assoc append_take_drop_id)
  let ?p = "take w (c # cs) @ unsegs xs"
  have p: "?p = take (length ?p) (c # cs)" by (metis append_eq_conv_conj split)
  have n: "w \<le> length ?p" using w by simp
  have "bytes_of ?p = take (length ?p) (bytes_of (c # cs))"
    unfolding bytes_of_def take_map using p by (rule arg_cong)
  then have "decode_rune (bytes_of ?p) = (r, w)"
    using decode_rune_take[of "bytes_of (c # cs)" "length ?p"] rw w(1) n by (simp del: length_append)
  moreover obtain d ds where "?p = d # ds" using w by (cases ?p) auto
  ultimately have "rune_segs ?p = (r, take w ?p) # rune_segs (drop w ?p)" by (simp add: rune_segs.simps(2))
  then show ?case using seg(1) ih w by (simp add: unsegs_def)
qed

lemma dropWhile_hd: "xs = [] \<or> \<not> P (hd xs) \<Longrightarrow> dropWhile P xs = xs"
  by (cases xs) auto

lemma TrimSpace_idem [simp]: "TrimSpace (TrimSpace s) = TrimSpace s"
proof -
  define P where "P = (\<lambda>p :: rune \<times> gostring. is_space (fst p))"
  define a where "a = dropWhile P (rune_segs s)"
  define t where "t = rev (takeWhile P (rev a))"
  define b where "b = rev (dropWhile P (rev a))"
  have ab: "a = b @ t" unfolding t_def b_def by (simp flip: rev_append)
  have "rune_segs s = takeWhile P (rune_segs s) @ a" by (simp add: a_def)
  then have "rune_segs (unsegs a) = a" by (rule rune_segs_suffix)
  then have b: "rune_segs (unsegs b) = b" using ab by (intro rune_segs_prefix[of _ b t]) simp
  have "a = [] \<or> \<not> P (hd a)" unfolding a_def using hd_dropWhile[of P] by auto
  then have "b = [] \<or> \<not> P (hd b)" using ab by (cases b) auto
  then have d: "dropWhile P b = b" by (rule dropWhile_hd)
  have e: "dropWhile P (rev b) = rev b" by (simp add: b_def dropWhile_idem)
  have "TrimSpace x = unsegs (rev (dropWhile P (rev (dropWhile P (rune_segs x)))))" for x
    by (simp add: TrimSpace_def P_def)
  then show ?thesis using b d e by (simp add: a_def[symmetric] b_def[symmetric])
qed

end
