(* ===== verification/Terminal.thy ===== *)
theory Terminal
  imports GoChan GoStrings
begin

section \<open>Terminal sessions: shared types and output cleaning\<close>

text \<open>
  The types every terminal session shares (\<open>daemon/internal/terminal/session.go\<close>, first
  part) and the removal of terminal escape sequences
  (\<open>daemon/internal/terminal/clean.go\<close>).
\<close>

subsection \<open>Statuses and events\<close>

text \<open>The Go types are strings: callers may pass values other than the named constants.\<close>

type_synonym SessionStatus = gostring
type_synonym TurnStatus = gostring
type_synonym EventKind = gostring

definition SessionStarting :: SessionStatus where "SessionStarting = ''starting''"
definition SessionLive :: SessionStatus where "SessionLive = ''live''"
definition SessionExited :: SessionStatus where "SessionExited = ''exited''"
definition SessionError :: SessionStatus where "SessionError = ''error''"

definition TurnIdle :: TurnStatus where "TurnIdle = ''idle''"
definition TurnSubmitted :: TurnStatus where "TurnSubmitted = ''submitted''"
definition TurnStreaming :: TurnStatus where "TurnStreaming = ''streaming''"
definition TurnAwaitingInput :: TurnStatus where "TurnAwaitingInput = ''awaiting_input''"

definition EventSessionStarted :: EventKind where "EventSessionStarted = ''session_started''"
definition EventSessionReady :: EventKind where "EventSessionReady = ''session_ready''"
definition EventUserInput :: EventKind where "EventUserInput = ''user_input''"
definition EventTextDelta :: EventKind where "EventTextDelta = ''text_delta''"
definition EventMessageAdded :: EventKind where "EventMessageAdded = ''message_added''"
definition EventPromptReady :: EventKind where "EventPromptReady = ''prompt_ready''"
definition EventSessionExited :: EventKind where "EventSessionExited = ''session_exited''"
definition EventError :: EventKind where "EventError = ''error''"
definition EventAgentError :: EventKind where "EventAgentError = ''agent_error''"

lemmas session_consts = SessionStarting_def SessionLive_def SessionExited_def SessionError_def
lemmas turn_consts = TurnIdle_def TurnSubmitted_def TurnStreaming_def TurnAwaitingInput_def
lemmas event_consts = EventSessionStarted_def EventSessionReady_def EventUserInput_def EventTextDelta_def
  EventMessageAdded_def EventPromptReady_def EventSessionExited_def EventError_def EventAgentError_def

record LaunchConfig =
  lc_Command :: gostring
  lc_Args :: "gostring list"
  lc_Cwd :: gostring
  lc_Env :: "gostring list"
  lc_Cols :: nat
  lc_Rows :: nat
  lc_ReadyDelay :: duration
  lc_PromptDelay :: duration
  lc_StartupTimeout :: duration

record Event =
  ev_Seq :: int
  ev_Kind :: EventKind
  ev_SessionStatus :: SessionStatus
  ev_TurnStatus :: TurnStatus
  ev_Payload :: gostring
  ev_Error :: gostring
  ev_Timestamp :: time

text \<open>The errors of the session operations (the texts of the Go errors).\<close>

datatype term_error = ErrTextRequired | ErrNotLive | ErrSessionNotFound | ErrSessionExists

subsection \<open>Escape sequences\<close>

text \<open>
  \<open>ansiRE\<close> has three alternatives, tried in order at each position: an operating system
  command (\<open>ESC ]\<close>, any characters but BEL, then BEL or \<open>ESC \\<close>), a control sequence
  (\<open>ESC [\<close>, parameter bytes, intermediate bytes, a final byte) and a short escape. The
  middle of the first one is greedy: when a BEL follows it extends to the first BEL, and
  otherwise to the last \<open>ESC \\<close> of the text. Each function gives the length of the match.
\<close>

abbreviation ESC :: char where "ESC \<equiv> CHR 0x1B"
abbreviation BEL :: char where "BEL \<equiv> CHR 0x07"

definition in_range :: "nat \<Rightarrow> nat \<Rightarrow> char \<Rightarrow> bool" where
  "in_range lo hi c \<longleftrightarrow> lo \<le> of_char c \<and> (of_char c :: nat) \<le> hi"

text \<open>The end of the last \<open>ESC \\<close>, counted from the start of the text.\<close>

fun last_st :: "gostring \<Rightarrow> nat option" where
  "last_st [] = None"
| "last_st (c # s) =
     (case last_st s of
        Some n \<Rightarrow> Some (Suc n)
      | None \<Rightarrow> if c = ESC \<and> HasPrefix s [CHR 0x5C] then Some 2 else None)"

definition osc_body :: "gostring \<Rightarrow> nat option" where
  "osc_body s =
     (if BEL \<in> set s then Some (Suc (length (takeWhile (\<lambda>c. c \<noteq> BEL) s))) else last_st s)"

definition match_osc :: "gostring \<Rightarrow> nat option" where
  "match_osc s = (if HasPrefix s [ESC, CHR '']''] then map_option (\<lambda>n. n + 2) (osc_body (drop 2 s)) else None)"

definition span_len :: "(char \<Rightarrow> bool) \<Rightarrow> gostring \<Rightarrow> nat" where
  "span_len P s = length (takeWhile P s)"

definition match_csi :: "gostring \<Rightarrow> nat option" where
  "match_csi s =
     (if HasPrefix s [ESC, CHR ''['']
      then let a = 2 + span_len (in_range 48 63) (drop 2 s);
               b = a + span_len (in_range 32 47) (drop a s)
           in case drop b s of c # _ \<Rightarrow> if in_range 64 126 c then Some (b + 1) else None | [] \<Rightarrow> None
      else None)"

definition match_esc :: "gostring \<Rightarrow> nat option" where
  "match_esc s =
     (if HasPrefix s [ESC]
      then let a = 1 + span_len (in_range 32 47) (drop 1 s)
           in case drop a s of c # _ \<Rightarrow> if in_range 48 126 c then Some (a + 1) else None | [] \<Rightarrow> None
      else None)"

definition match_ansi :: "gostring \<Rightarrow> nat option" where
  "match_ansi s =
     (case match_osc s of Some n \<Rightarrow> Some n
      | None \<Rightarrow> (case match_csi s of Some n \<Rightarrow> Some n | None \<Rightarrow> match_esc s))"

lemma match_ansi_pos: "match_ansi s = Some n \<Longrightarrow> 0 < n"
  by (auto simp: match_ansi_def match_osc_def match_csi_def match_esc_def Let_def
      split: option.splits if_splits list.splits)

text \<open>\<open>ansiRE.ReplaceAllString(value, "")\<close>.\<close>

function strip_ansi :: "gostring \<Rightarrow> gostring" where
  "strip_ansi [] = []"
| "strip_ansi (c # cs) =
     (case match_ansi (c # cs) of
        Some n \<Rightarrow> strip_ansi (drop n (c # cs))
      | None \<Rightarrow> c # strip_ansi cs)"
  by pat_completeness auto
termination
  by (relation "measure length") (auto dest: match_ansi_pos)

declare strip_ansi.simps(2) [simp del]

lemma match_ansi_no_esc: "c \<noteq> ESC \<Longrightarrow> match_ansi (c # s) = None"
  by (simp add: match_ansi_def match_osc_def match_csi_def match_esc_def HasPrefix_def)

lemma strip_ansi_no_esc: "ESC \<notin> set s \<Longrightarrow> strip_ansi s = s"
proof (induction s)
  case (Cons c s)
  then have "match_ansi (c # s) = None" by (intro match_ansi_no_esc) auto
  with Cons show ?case by (simp add: strip_ansi.simps(2))
qed simp

subsection \<open>Line ends and control characters\<close>

text \<open>The loop of \<open>CleanOutput\<close>; the output runes are built in reverse.\<close>

fun clean_step :: "rune list \<Rightarrow> rune \<Rightarrow> rune list" where
  "clean_step out r =
     (if r = 13 then (if out = [] \<or> hd out \<noteq> 10 then 10 # out else out)
      else if r = 10 \<or> r = 9 then r # out
      else if r < 32 \<or> r = 127 \<or> (128 \<le> r \<and> r \<le> 159) then out
      else r # out)"

definition clean_runes :: "rune list \<Rightarrow> rune list" where
  "clean_runes rs = rev (foldl clean_step [] rs)"

definition CleanOutput :: "gostring \<Rightarrow> gostring" where
  "CleanOutput value = encode_runes (clean_runes (runes (strip_ansi value)))"

text \<open>The runes that may appear in cleaned output.\<close>

definition printable :: "rune \<Rightarrow> bool" where
  "printable r \<longleftrightarrow> r = 9 \<or> r = 10 \<or> (32 \<le> r \<and> r \<noteq> 127 \<and> \<not> (128 \<le> r \<and> r \<le> 159))"

lemma foldl_clean_step_set:
  "set (foldl clean_step out rs) \<subseteq> set out \<union> (set rs \<inter> {r. printable r}) \<union> {10}"
proof (induction rs arbitrary: out)
  case (Cons r rs)
  have "set (clean_step out r) \<subseteq> set out \<union> ({r} \<inter> {r. printable r}) \<union> {10}"
    by (auto simp: printable_def)
  then show ?case using Cons.IH[of "clean_step out r"] by auto
qed auto

lemma clean_runes_printable: "r \<in> set (clean_runes rs) \<Longrightarrow> printable r"
  using foldl_clean_step_set[of "[]" rs] by (auto simp: clean_runes_def printable_def)

lemma clean_runes_subset: "set (clean_runes rs) \<subseteq> set rs \<union> {10}"
  using foldl_clean_step_set[of "[]" rs] by (auto simp: clean_runes_def)

lemma foldl_clean_step_id:
  "\<forall>r\<in>set rs. printable r \<Longrightarrow> foldl clean_step out rs = rev rs @ out"
  by (induction rs arbitrary: out) (auto simp: printable_def)

lemma clean_runes_id: "\<forall>r\<in>set rs. printable r \<Longrightarrow> clean_runes rs = rs"
  by (simp add: clean_runes_def foldl_clean_step_id)

lemma clean_runes_valid: "\<forall>r\<in>set (clean_runes (runes s)). valid_rune r"
  using clean_runes_subset[of "runes s"] runes_valid by (fastforce simp: valid_rune_def)

lemma runes_CleanOutput: "runes (CleanOutput s) = clean_runes (runes (strip_ansi s))"
  unfolding CleanOutput_def by (rule runes_encode_runes[OF clean_runes_valid])

lemma encode_bytes_esc: "27 \<in> set (encode_bytes r) \<Longrightarrow> r = 27"
  by (auto simp: encode_bytes_def split: if_splits)

lemma encode_runes_no_esc: "\<forall>r\<in>set rs. printable r \<Longrightarrow> ESC \<notin> set (encode_runes rs)"
proof
  assume p: "\<forall>r\<in>set rs. printable r" and "ESC \<in> set (encode_runes rs)"
  then obtain r where r: "r \<in> set rs" "ESC \<in> set (encode_rune r)" by (auto simp: encode_runes_def)
  then obtain b where b: "b \<in> set (encode_bytes r)" "(char_of b :: char) = ESC" by (auto simp: encode_rune_def)
  have "(of_char (char_of b :: char) :: nat) = 27" unfolding b(2) by simp
  then have "b = 27" using encode_bytes_lt[OF b(1)] by simp
  with b(1) have "r = 27" using encode_bytes_esc by blast
  with p r show False by (auto simp: printable_def)
qed

text \<open>
  Cleaned output is printable: every rune of \<open>CleanOutput\<close> is a tab, a newline or a
  printable rune, so no escape, carriage return or control character reaches the browser,
  and cleaning again changes nothing.
\<close>

theorem clean_output_printable_idempotent:
  "list_all printable (runes (CleanOutput s)) \<and> CleanOutput (CleanOutput s) = CleanOutput s"
proof -
  let ?t = "CleanOutput s"
  have p: "\<forall>r\<in>set (runes ?t). printable r"
    by (auto simp: runes_CleanOutput dest: clean_runes_printable)
  have "ESC \<notin> set ?t"
    unfolding CleanOutput_def by (rule encode_runes_no_esc) (auto dest: clean_runes_printable)
  then have "CleanOutput ?t = encode_runes (runes ?t)"
    using p by (simp add: CleanOutput_def[of ?t] strip_ansi_no_esc clean_runes_id)
  also have "\<dots> = ?t" by (simp add: runes_CleanOutput) (simp add: CleanOutput_def)
  finally show ?thesis using p by (simp add: list_all_iff)
qed

definition osc_st_title :: gostring where
  "osc_st_title = [ESC, CHR '']'', CHR ''0'', CHR '';'', CHR ''a'', ESC, CHR 0x5C]"

definition osc_bel_title :: gostring where
  "osc_bel_title = [ESC, CHR '']'', CHR ''0'', CHR '';'', CHR ''b'', BEL]"

text \<open>
  The first alternative of the expression is too greedy: visible text between two
  operating system commands disappears with them. Here a window title closed by
  \<open>ESC \\<close>, the text \<open>hello\<close> and a second title closed by BEL clean to nothing, while
  each title alone leaves the text in place.
\<close>

theorem clean_output_swallows_text:
  "CleanOutput (osc_st_title @ ''hello'' @ osc_bel_title) = '''' \<and>
   CleanOutput (osc_st_title @ ''hello'') = ''hello'' \<and> CleanOutput (''hello'' @ osc_bel_title) = ''hello''"
  by (simp add: CleanOutput_def osc_st_title_def osc_bel_title_def strip_ansi.simps match_ansi_def match_osc_def
      match_csi_def match_esc_def osc_body_def HasPrefix_def in_range_def span_len_def runes_def rune_segs_ascii
      clean_runes_def encode_runes_def encode_rune_ascii char_of_def bit_iff_odd)

text \<open>
  A carriage return starts a line of its own unless a newline came before it, so the line
  end CR LF of a pseudo terminal becomes two newlines, while LF CR becomes one.
\<close>

lemma clean_runes_crlf:
  assumes "\<forall>r\<in>set xs. printable r" "xs \<noteq> []" "last xs \<noteq> 10"
  shows "clean_runes (xs @ [13, 10]) = xs @ [10, 10]"
  using assms
  by (cases xs rule: rev_cases) (auto simp: clean_runes_def foldl_clean_step_id printable_def)

lemma clean_runes_lfcr: "\<forall>r\<in>set xs. printable r \<Longrightarrow> clean_runes (xs @ [10, 13]) = xs @ [10]"
  by (simp add: clean_runes_def foldl_clean_step_id)

end
