(* ===== verification/Registry.thy ===== *)
theory Registry
  imports Terminal
begin

section \<open>Registries of channels\<close>

text \<open>
  Both kinds of terminal session keep their subscribers in a map from a subscription id to
  a channel, and close a channel only after taking it out of the map. \<open>reg_ok\<close> is the
  invariant of that discipline: the channels in the map and the channels taken out and not
  closed yet are distinct and open, and the ids in use are below the next id. \<open>queues_ok\<close>
  is the order of the events queued on the channels.
\<close>

definition reg_ok :: "'a heap \<Rightarrow> (nat \<times> nat) list \<Rightarrow> nat \<Rightarrow> nat list \<Rightarrow> bool" where
  "reg_ok h m n pend \<longleftrightarrow>
     distinct (keys m) \<and> (\<forall>k\<in>set (keys m). k < n) \<and> distinct (map snd m @ pend) \<and>
     (\<forall>r\<in>set (map snd m @ pend). open_at h r)"

lemma reg_okI:
  assumes "distinct (keys m)" "\<And>k. k \<in> set (keys m) \<Longrightarrow> k < n" "distinct (map snd m @ pend)"
    and "\<And>r. r \<in> set (map snd m @ pend) \<Longrightarrow> open_at h r"
  shows "reg_ok h m n pend"
  using assms by (auto simp: reg_ok_def)

lemma reg_ok_empty [simp]: "reg_ok h [] n []"
  by (simp add: reg_ok_def)

lemma reg_ok_open: "reg_ok h m n pend \<Longrightarrow> r \<in> set (map snd m) \<Longrightarrow> open_at h r"
  by (simp add: reg_ok_def)

lemma reg_ok_pend_open: "reg_ok h m n pend \<Longrightarrow> r \<in> set pend \<Longrightarrow> open_at h r"
  by (simp add: reg_ok_def)

lemma reg_ok_mono:
  assumes "reg_ok h m n pend" "\<And>q. open_at h q \<Longrightarrow> open_at h' q"
  shows "reg_ok h' m n pend"
  using assms unfolding reg_ok_def by blast

lemma reg_ok_add:
  assumes ok: "reg_ok h m n pend" and a: "alloc c h = (r, h')"
  shows "reg_ok h' (alist_put n r m) (n + 1) pend"
proof (rule reg_okI)
  have r: "r = length h" using length_alloc[OF a] by simp
  have old: "q \<noteq> r" if "q \<in> set (map snd m @ pend)" for q
    using ok that r by (auto simp: reg_ok_def open_at_def)
  have new: "n \<notin> set (keys m)" using ok by (auto simp: reg_ok_def)
  then have m: "alist_put n r m = m @ [(n, r)]" by (rule alist_put_new)
  show "distinct (keys (alist_put n r m))" using ok by (simp add: reg_ok_def)
  show "k < n + 1" if "k \<in> set (keys (alist_put n r m))" for k
    using ok that by (auto simp: reg_ok_def intro: less_SucI)
  show "distinct (map snd (alist_put n r m) @ pend)" using ok old by (auto simp: reg_ok_def m)
  show "open_at h' q" if "q \<in> set (map snd (alist_put n r m) @ pend)" for q
    using ok that by (auto simp: reg_ok_def m open_at_alloc[OF a])
qed

lemma distinct_map_del:
  "distinct (map snd m @ pend) \<Longrightarrow> alist_get m k = Some r \<Longrightarrow> distinct (keys m) \<Longrightarrow>
   distinct (map snd (alist_del k m) @ r # pend) \<and> set (map snd (alist_del k m) @ r # pend) \<subseteq> set (map snd m @ pend)"
proof (induction m)
  case (Cons p m)
  show ?case
  proof (cases "fst p = k")
    case True
    with Cons.prems(3) have "k \<notin> set (keys m)" by simp
    then have "alist_del k (p # m) = m" using True alist_del_id[of k m] by (simp add: alist_del_def)
    moreover have "r = snd p" using True Cons.prems(2) by simp
    ultimately show ?thesis using Cons.prems(1) by auto
  next
    case False
    then have d: "alist_del k (p # m) = p # alist_del k m" by (simp add: alist_del_def)
    have ih: "distinct (map snd (alist_del k m) @ r # pend)"
      "set (map snd (alist_del k m) @ r # pend) \<subseteq> set (map snd m @ pend)"
      using Cons False by auto
    moreover have "snd p \<notin> set (map snd m @ pend)" using Cons.prems(1) by simp
    ultimately show ?thesis unfolding d by auto
  qed
qed simp

lemma reg_ok_take:
  assumes ok: "reg_ok h m n pend" and r: "alist_get m k = Some r"
  shows "reg_ok h (alist_del k m) n (r # pend)"
proof -
  have d: "distinct (map snd (alist_del k m) @ r # pend)" "set (map snd (alist_del k m) @ r # pend) \<subseteq> set (map snd m @ pend)"
    using distinct_map_del[OF _ r, of pend] ok by (auto simp: reg_ok_def)
  show ?thesis
  proof (rule reg_okI)
    show "open_at h q" if "q \<in> set (map snd (alist_del k m) @ r # pend)" for q
      using ok subsetD[OF d(2) that] unfolding reg_ok_def by blast
  qed (use ok d(1) in \<open>auto simp: reg_ok_def\<close>)
qed

lemma reg_ok_del_None:
  assumes "reg_ok h m n pend" "alist_get m k = None"
  shows "reg_ok h (alist_del k m) n pend"
proof -
  have "alist_del k m = m" using assms(2) by (simp add: alist_get_None_iff alist_del_id)
  with assms(1) show ?thesis by simp
qed

lemma reg_ok_detach: "reg_ok h m n pend \<Longrightarrow> reg_ok h [] n (map snd m @ pend)"
  by (simp add: reg_ok_def)

lemma reg_ok_close:
  assumes "reg_ok h m n pend" "r \<in> set pend" "close_at r h = Inr h'"
  shows "reg_ok h' m n (remove1 r pend)"
proof -
  have "open_at h r" using assms(1,2) by (rule reg_ok_pend_open)
  then have o: "open_at h' q = (open_at h q \<and> q \<noteq> r)" for q
    using close_at_open assms(3) by fastforce
  have "distinct pend" "r \<notin> set (map snd m)" using assms(1,2) by (auto simp: reg_ok_def)
  then show ?thesis
    using assms(1) by (auto simp: reg_ok_def o dest: set_remove1_subset[THEN subsetD] intro: distinct_remove1)
qed

text \<open>A channel made closed (for a subscriber of a dead session) changes nothing.\<close>

lemma reg_ok_dead:
  assumes ok: "reg_ok h m n pend" and a: "alloc c h = (r, h1)"
  shows "\<exists>h2. close_at r h1 = Inr h2 \<and> reg_ok h2 m n pend \<and> set h2 \<subseteq> set h \<union> {c. chan_buf c = []}"
proof -
  have r: "r = length h" "h1 = h @ [make_chan c]" using a by (auto simp: alloc_def)
  have c2: "close_at r h1 = Inr (h @ [(make_chan c)\<lparr>chan_closed := True\<rparr>])"
    by (simp add: close_at_def close_chan_def r)
  moreover have "open_at (h @ [(make_chan c)\<lparr>chan_closed := True\<rparr>]) q" if "open_at h q" for q
    using that by (auto simp: open_at_def nth_append)
  then have "reg_ok (h @ [(make_chan c)\<lparr>chan_closed := True\<rparr>]) m n pend" by (rule reg_ok_mono[OF ok])
  ultimately show ?thesis by auto
qed

lemma reg_ok_send:
  assumes "reg_ok h m n pend"
  shows "\<exists>h'. send_all x (map snd m) h = Inr h' \<and> reg_ok h' m n pend"
proof -
  have "\<forall>r\<in>set (map snd m). open_at h r" using assms by (auto simp: reg_ok_def)
  from send_all_open[OF this, of x] obtain h' where "send_all x (map snd m) h = Inr h'" "\<forall>q. open_at h' q = open_at h q"
    by blast
  with reg_ok_mono[OF assms, of h'] show ?thesis by auto
qed

subsection \<open>Events in order\<close>

text \<open>The events queued on a channel have increasing sequence numbers, none above the session's.\<close>

definition queue_ok :: "int \<Rightarrow> Event chan \<Rightarrow> bool" where
  "queue_ok n c \<longleftrightarrow> sorted_wrt (<) (map ev_Seq (chan_buf c)) \<and> (\<forall>e\<in>set (chan_buf c). ev_Seq e \<le> n)"

lemma queue_ok_empty [simp]: "chan_buf c = [] \<Longrightarrow> queue_ok n c"
  by (simp add: queue_ok_def)

lemma queue_ok_mono: "queue_ok n c \<Longrightarrow> n \<le> n' \<Longrightarrow> queue_ok n' c"
  by (auto simp: queue_ok_def)

lemma queue_ok_send:
  "queue_ok n c \<Longrightarrow> try_send e c = Inr c' \<Longrightarrow> n < ev_Seq e \<Longrightarrow> queue_ok (ev_Seq e) c'"
  by (force simp: queue_ok_def try_send_def sorted_wrt_append split: if_splits)

lemma queue_ok_recv: "queue_ok n c \<Longrightarrow> recv c = Some (e, c') \<Longrightarrow> queue_ok n c'"
  by (auto simp: queue_ok_def recv_def split: list.splits)

lemma queue_ok_closed [simp]: "queue_ok n (c\<lparr>chan_closed := b\<rparr>) = queue_ok n c"
  by (simp add: queue_ok_def)

definition queues_ok :: "int \<Rightarrow> Event heap \<Rightarrow> bool" where
  "queues_ok n h \<longleftrightarrow> (\<forall>c\<in>set h. queue_ok n c)"

lemma queues_ok_mono: "queues_ok n h \<Longrightarrow> n \<le> n' \<Longrightarrow> queues_ok n' h"
  by (auto simp: queues_ok_def intro: queue_ok_mono)

lemma queues_ok_upd: "queues_ok n h \<Longrightarrow> queue_ok n c \<Longrightarrow> queues_ok n (h[r := c])"
  unfolding queues_ok_def using set_update_subset_insert[of h r c] by blast

text \<open>
  A broadcast to distinct channels queues the new event behind older ones; the channels
  served before are the ones that already hold the new number.
\<close>

lemma send_all_queues:
  assumes "distinct rs" "\<forall>c\<in>set h. queue_ok (ev_Seq e) c"
    and "\<forall>r\<in>set rs. r < length h \<longrightarrow> queue_ok n (h ! r)" "n < ev_Seq e" "send_all e rs h = Inr h'"
    and "\<forall>r\<in>set rs. r < length h"
  shows "queues_ok (ev_Seq e) h'"
  using assms
proof (induction rs arbitrary: h)
  case Nil
  then show ?case by (simp add: send_all_def queues_ok_def)
next
  case (Cons r rs)
  from Cons.prems(5) obtain c where c: "try_send e (h ! r) = Inr c" and rest: "send_all e rs (h[r := c]) = Inr h'"
    by (auto simp: send_all_def send_at_def bind_sum_Inr_iff)
  have r: "r < length h" using Cons.prems(6) by simp
  have qc: "queue_ok (ev_Seq e) c"
    using queue_ok_send[OF _ c Cons.prems(4)] Cons.prems(3) r by simp
  show ?case
  proof (rule Cons.IH[OF _ _ _ Cons.prems(4) rest])
    show "distinct rs" using Cons.prems(1) by simp
    show "\<forall>c\<in>set (h[r := c]). queue_ok (ev_Seq e) c"
      using Cons.prems(2) qc set_update_subset_insert[of h r c] by blast
    show "\<forall>q\<in>set rs. q < length (h[r := c]) \<longrightarrow> queue_ok n (h[r := c] ! q)"
    proof (intro ballI impI)
      fix q assume q: "q \<in> set rs" "q < length (h[r := c])"
      then have "q \<noteq> r" using Cons.prems(1) by auto
      with q show "queue_ok n (h[r := c] ! q)" using Cons.prems(3) by simp
    qed
    show "\<forall>q\<in>set rs. q < length (h[r := c])" using Cons.prems(6) by simp
  qed
qed

lemma reg_ok_broadcast:
  assumes "reg_ok h m k pend" "queues_ok n h" "n < ev_Seq e"
  shows "\<exists>h'. send_all e (map snd m) h = Inr h' \<and> reg_ok h' m k pend \<and> queues_ok (ev_Seq e) h'"
proof -
  obtain h' where h': "send_all e (map snd m) h = Inr h'" "reg_ok h' m k pend"
    using reg_ok_send[OF assms(1)] by blast
  have "queues_ok (ev_Seq e) h'"
  proof (rule send_all_queues[OF _ _ _ assms(3) h'(1)])
    show "distinct (map snd m)" using assms(1) by (simp add: reg_ok_def)
    show "\<forall>c\<in>set h. queue_ok (ev_Seq e) c"
      using assms(2,3) by (auto simp: queues_ok_def intro: queue_ok_mono)
    show "\<forall>r\<in>set (map snd m). r < length h \<longrightarrow> queue_ok n (h ! r)" using assms(2) by (auto simp: queues_ok_def)
    show "\<forall>r\<in>set (map snd m). r < length h" using assms(1) by (auto simp: reg_ok_def open_at_def)
  qed
  with h' show ?thesis by blast
qed

end
