(* ===== verification/External.thy ===== *)
theory External
  imports Registry
begin

section \<open>External sessions\<close>

text \<open>
  \<open>daemon/internal/terminal/external.go\<close>: a terminal session whose process lives outside
  the daemon (the Claude wrapper, or an SDK driver). Every method takes the session's lock
  for one or more critical sections; each critical section is one definition here and one
  step of the transition system at the end, so that the steps of different goroutines
  interleave as the code allows. Channels are shared by reference with their subscribers,
  so the session carries two stores of channels.
\<close>

subsection \<open>State\<close>

record ExitIntent =
  ei_Clean :: bool
  ei_UserInitiated :: bool
  ei_ExitCode :: int
  ei_TerminatedBy :: gostring
  ei_ReportedFromPID :: int
  ei_At :: time

record ExternalSession =
  x_events :: "Event chan"
  x_subscribers :: "(nat \<times> nat) list"
  x_nextSubID :: nat
  x_inputs :: "(nat \<times> nat) list"
  x_nextInputID :: nat
  x_done :: bool
  x_seq :: int
  x_sessionStatus :: SessionStatus
  x_turnStatus :: TurnStatus
  x_stopped :: bool
  x_eventsClosed :: bool
  x_claudeSessionID :: gostring
  x_priorSessionIDs :: "gostring list"
  x_cwd :: gostring
  x_claudePID :: int
  x_driver :: gostring
  x_rebindListener :: bool
  x_exitIntent :: "ExitIntent option"
  x_lastActivity :: time
  x_evheap :: "Event heap"
  x_inheap :: "gostring heap"

definition not_live :: "ExternalSession \<Rightarrow> bool" where
  "not_live s \<longleftrightarrow> x_stopped s \<or> x_sessionStatus s = SessionExited \<or> x_sessionStatus s = SessionError"

subsection \<open>Emit and close\<close>

text \<open>
  The critical section of \<open>Emit\<close>: the result says whether the event is a terminal one, so
  that the caller closes the session after releasing the lock.
\<close>

definition make_event ::
  "EventKind \<Rightarrow> gostring \<Rightarrow> gostring \<Rightarrow> time \<Rightarrow> ExternalSession \<Rightarrow> Event" where
  "make_event kind payload err now s =
     \<lparr>ev_Seq = x_seq s, ev_Kind = kind, ev_SessionStatus = x_sessionStatus s, ev_TurnStatus = x_turnStatus s,
      ev_Payload = payload, ev_Error = err, ev_Timestamp = now\<rparr>"

definition emit_prepare :: "SessionStatus \<Rightarrow> TurnStatus \<Rightarrow> time \<Rightarrow> ExternalSession \<Rightarrow> ExternalSession" where
  "emit_prepare ss ts now s =
     s\<lparr>x_lastActivity := now, x_seq := x_seq s + 1,
       x_sessionStatus := (if ss \<noteq> [] then ss else x_sessionStatus s),
       x_turnStatus := (if ts \<noteq> [] then ts else x_turnStatus s)\<rparr>"

definition is_terminal_kind :: "EventKind \<Rightarrow> bool" where
  "is_terminal_kind kind \<longleftrightarrow> kind = EventSessionExited \<or> kind = EventError"

definition emit_locked ::
  "EventKind \<Rightarrow> SessionStatus \<Rightarrow> TurnStatus \<Rightarrow> gostring \<Rightarrow> gostring \<Rightarrow> time \<Rightarrow> ExternalSession \<Rightarrow>
   panic + (bool \<times> ExternalSession)" where
  "emit_locked kind ss ts payload err now s =
     (if x_eventsClosed s then Inr (False, s)
      else let s1 = emit_prepare ss ts now s; event = make_event kind payload err now s1 in
        bind_sum (try_send event (x_events s1)) (\<lambda>evs.
        bind_sum (send_all event (map snd (x_subscribers s1)) (x_evheap s1)) (\<lambda>h.
        Inr (is_terminal_kind kind, s1\<lparr>x_events := evs, x_evheap := h\<rparr>))))"

text \<open>
  The critical section of \<open>close\<close>: it detaches the channels of all subscribers and closes
  \<open>done\<close> and \<open>events\<close>; the detached channels are closed after the lock is released.
\<close>

definition close_locked :: "ExternalSession \<Rightarrow> panic + ((nat list \<times> nat list) \<times> ExternalSession)" where
  "close_locked s =
     (if x_eventsClosed s then Inr (([], []), s)
      else if x_done s then Inl CloseOfClosed
      else bind_sum (close_chan (x_events s)) (\<lambda>evs.
        Inr ((map snd (x_subscribers s), map snd (x_inputs s)),
             s\<lparr>x_stopped := True, x_eventsClosed := True, x_subscribers := [], x_inputs := [],
               x_done := True, x_events := evs\<rparr>)))"

definition close_ev :: "nat \<Rightarrow> ExternalSession \<Rightarrow> panic + ExternalSession" where
  "close_ev r s = bind_sum (close_at r (x_evheap s)) (\<lambda>h. Inr (s\<lparr>x_evheap := h\<rparr>))"

definition close_in :: "nat \<Rightarrow> ExternalSession \<Rightarrow> panic + ExternalSession" where
  "close_in r s = bind_sum (close_at r (x_inheap s)) (\<lambda>h. Inr (s\<lparr>x_inheap := h\<rparr>))"

definition ext_close :: "ExternalSession \<Rightarrow> panic + ExternalSession" where
  "ext_close s =
     bind_sum (close_locked s) (\<lambda>((evs, ins), s1).
     bind_sum (fold_sum close_ev evs s1) (fold_sum close_in ins))"

definition Emit ::
  "EventKind \<Rightarrow> SessionStatus \<Rightarrow> TurnStatus \<Rightarrow> gostring \<Rightarrow> gostring \<Rightarrow> time \<Rightarrow> ExternalSession \<Rightarrow>
   panic + ExternalSession" where
  "Emit kind ss ts payload err now s =
     bind_sum (emit_locked kind ss ts payload err now s) (\<lambda>(terminal, s1).
     if terminal then ext_close s1 else Inr s1)"

definition ext_Stop :: "time \<Rightarrow> ExternalSession \<Rightarrow> panic + ExternalSession" where
  "ext_Stop now s =
     bind_sum (Emit EventSessionExited SessionExited TurnIdle [] [] now s) ext_close"

text \<open>\<open>make(chan Event, 128)\<close>; two events are emitted before anyone else sees the session.\<close>

definition blank_session :: "time \<Rightarrow> ExternalSession" where
  "blank_session now =
     \<lparr>x_events = make_chan 128, x_subscribers = [], x_nextSubID = 0, x_inputs = [], x_nextInputID = 0,
      x_done = False, x_seq = 0, x_sessionStatus = SessionLive, x_turnStatus = TurnAwaitingInput,
      x_stopped = False, x_eventsClosed = False, x_claudeSessionID = [], x_priorSessionIDs = [], x_cwd = [],
      x_claudePID = 0, x_driver = [], x_rebindListener = False, x_exitIntent = None, x_lastActivity = now,
      x_evheap = [], x_inheap = []\<rparr>"

definition NewExternalSession :: "time \<Rightarrow> panic + ExternalSession" where
  "NewExternalSession now =
     bind_sum (Emit EventSessionStarted SessionLive TurnAwaitingInput [] [] now (blank_session now))
       (Emit EventSessionReady SessionLive TurnAwaitingInput [] [] now)"

subsection \<open>Subscriptions\<close>

text \<open>
  \<open>Subscribe\<close> returns the reference of the channel and the sub its cancel function uses
  (\<open>None\<close> for the cancel function that does nothing). On a dead session the new channel is
  closed at once and not registered.
\<close>

definition buffer_or :: "nat \<Rightarrow> int \<Rightarrow> nat" where
  "buffer_or dflt buffer = (if buffer \<le> 0 then dflt else nat buffer)"

definition ext_Subscribe :: "int \<Rightarrow> ExternalSession \<Rightarrow> panic + ((nat \<times> nat option) \<times> ExternalSession)" where
  "ext_Subscribe buffer s =
     (case alloc (buffer_or 128 buffer) (x_evheap s) of (r, h) \<Rightarrow>
       if not_live s then bind_sum (close_ev r (s\<lparr>x_evheap := h\<rparr>)) (\<lambda>s1. Inr ((r, None), s1))
       else let sub = x_nextSubID s in
         Inr ((r, Some sub), s\<lparr>x_evheap := h, x_nextSubID := sub + 1, x_subscribers := alist_put sub r (x_subscribers s)\<rparr>))"

definition ext_SubscribeInput :: "int \<Rightarrow> ExternalSession \<Rightarrow> panic + ((nat \<times> nat option) \<times> ExternalSession)" where
  "ext_SubscribeInput buffer s =
     (case alloc (buffer_or 32 buffer) (x_inheap s) of (r, h) \<Rightarrow>
       if not_live s then bind_sum (close_in r (s\<lparr>x_inheap := h\<rparr>)) (\<lambda>s1. Inr ((r, None), s1))
       else let sub = x_nextInputID s in
         Inr ((r, Some sub), s\<lparr>x_inheap := h, x_nextInputID := sub + 1, x_inputs := alist_put sub r (x_inputs s)\<rparr>))"

text \<open>
  The critical section of a cancel function: it takes the channel out of the map; the
  channel it returns is closed after the lock is released.
\<close>

definition unsubscribe_locked :: "nat \<Rightarrow> ExternalSession \<Rightarrow> nat option \<times> ExternalSession" where
  "unsubscribe_locked sub s =
     (alist_get (x_subscribers s) sub, s\<lparr>x_subscribers := alist_del sub (x_subscribers s)\<rparr>)"

definition unsubscribe_input_locked :: "nat \<Rightarrow> ExternalSession \<Rightarrow> nat option \<times> ExternalSession" where
  "unsubscribe_input_locked sub s =
     (alist_get (x_inputs s) sub, s\<lparr>x_inputs := alist_del sub (x_inputs s)\<rparr>)"

definition ext_unsubscribe :: "nat \<Rightarrow> ExternalSession \<Rightarrow> panic + ExternalSession" where
  "ext_unsubscribe sub s =
     (case unsubscribe_locked sub s of (None, s1) \<Rightarrow> Inr s1 | (Some r, s1) \<Rightarrow> close_ev r s1)"

definition ext_unsubscribe_input :: "nat \<Rightarrow> ExternalSession \<Rightarrow> panic + ExternalSession" where
  "ext_unsubscribe_input sub s =
     (case unsubscribe_input_locked sub s of (None, s1) \<Rightarrow> Inr s1 | (Some r, s1) \<Rightarrow> close_in r s1)"

definition InputSubscriberCount :: "ExternalSession \<Rightarrow> nat" where
  "InputSubscriberCount s = length (x_inputs s)"

subsection \<open>Input\<close>

text \<open>The characters a slash command name may have after its first letter.\<close>

definition lower_letter :: "rune \<Rightarrow> bool" where
  "lower_letter r \<longleftrightarrow> 97 \<le> r \<and> r \<le> 122"

definition command_rune :: "rune \<Rightarrow> bool" where
  "command_rune r \<longleftrightarrow> lower_letter r \<or> (48 \<le> r \<and> r \<le> 57) \<or> r = 45 \<or> r = 95 \<or> r = 58"

definition isSlashCommandInput :: "gostring \<Rightarrow> bool" where
  "isSlashCommandInput text =
     (let t = TrimSpace text in
      if \<not> HasPrefix t ''/'' then False
      else let first = (case IndexAny t [CHR '' '', CHR 0x09] of Some i \<Rightarrow> take i t | None \<Rightarrow> t) in
        if length first < 2 then False
        else case runes (drop 1 first) of
               [] \<Rightarrow> True
             | r # rs \<Rightarrow> lower_letter r \<and> list_all command_rune rs)"

text \<open>The first critical section of \<open>SendInput\<close>, after the checks on the text.\<close>

definition trimmed_input :: "gostring \<Rightarrow> gostring" where
  "trimmed_input text = TrimRight text [CHR 0x0D, CHR 0x0A]"

definition send_input_begin :: "gostring \<Rightarrow> time \<Rightarrow> ExternalSession \<Rightarrow> term_error + ExternalSession" where
  "send_input_begin text now s =
     (if TrimSpace text = [] then Inl ErrTextRequired
      else if not_live s then Inl ErrNotLive
      else Inr (s\<lparr>x_lastActivity := now, x_turnStatus := TurnSubmitted\<rparr>))"

definition deliver_input :: "gostring \<Rightarrow> ExternalSession \<Rightarrow> panic + ExternalSession" where
  "deliver_input text s =
     (if x_eventsClosed s then Inr s
      else bind_sum (send_all (text @ [CHR 0x0D]) (map snd (x_inputs s)) (x_inheap s)) (\<lambda>h.
        Inr (s\<lparr>x_inheap := h\<rparr>)))"

definition ext_SendInput :: "gostring \<Rightarrow> time \<Rightarrow> ExternalSession \<Rightarrow> panic + (term_error option \<times> ExternalSession)" where
  "ext_SendInput text0 now s =
     (let text = trimmed_input text0 in
      case send_input_begin text now s of
        Inl e \<Rightarrow> Inr (Some e, s)
      | Inr s1 \<Rightarrow>
          bind_sum (if isSlashCommandInput text then Inr s1
                    else Emit EventUserInput SessionLive TurnSubmitted text [] now s1) (\<lambda>s2.
          bind_sum (deliver_input text s2) (\<lambda>s3. Inr (None, s3))))"

definition ext_SendRaw :: "gostring \<Rightarrow> time \<Rightarrow> ExternalSession \<Rightarrow> panic + (term_error option \<times> ExternalSession)" where
  "ext_SendRaw text now s =
     (if text = [] then Inr (None, s)
      else if not_live s then Inr (Some ErrNotLive, s)
      else bind_sum (send_all text (map snd (x_inputs s)) (x_inheap s)) (\<lambda>h.
        Inr (None, s\<lparr>x_lastActivity := now, x_inheap := h\<rparr>)))"

definition ext_Resize :: "nat \<Rightarrow> nat \<Rightarrow> ExternalSession \<Rightarrow> term_error option" where
  "ext_Resize cols rows s = None"

subsection \<open>Metadata\<close>

definition SeedSeq :: "int \<Rightarrow> ExternalSession \<Rightarrow> ExternalSession" where
  "SeedSeq n s = (if n > x_seq s then s\<lparr>x_seq := n\<rparr> else s)"

text \<open>
  \<open>BindSessionMetadata\<close> returns \<open>(prev, changed)\<close> and, when a listener is registered and
  the sid changed, the arguments the listener is called with.
\<close>

definition BindSessionMetadata ::
  "gostring \<Rightarrow> gostring \<Rightarrow> time \<Rightarrow> ExternalSession \<Rightarrow> (gostring \<times> bool \<times> (gostring \<times> gostring) option) \<times> ExternalSession" where
  "BindSessionMetadata sid cwd now s =
     (let s1 = (if sid \<noteq> [] \<or> cwd \<noteq> [] then s\<lparr>x_lastActivity := now\<rparr> else s);
          changed = (sid \<noteq> [] \<and> sid \<noteq> x_claudeSessionID s1);
          prev = (if changed then x_claudeSessionID s1 else []);
          s2 = (if changed then
                  s1\<lparr>x_priorSessionIDs := (if prev \<noteq> [] then x_priorSessionIDs s1 @ [prev] else x_priorSessionIDs s1),
                     x_claudeSessionID := sid\<rparr>
                else s1);
          s3 = (if cwd \<noteq> [] \<and> x_cwd s2 = [] then s2\<lparr>x_cwd := cwd\<rparr> else s2)
      in ((prev, changed, if changed \<and> x_rebindListener s then Some (prev, x_claudeSessionID s3) else None), s3))"

definition SetRebindListener :: "ExternalSession \<Rightarrow> ExternalSession" where
  "SetRebindListener s = s\<lparr>x_rebindListener := True\<rparr>"

definition RecordExitIntent :: "ExitIntent \<Rightarrow> ExternalSession \<Rightarrow> ExternalSession" where
  "RecordExitIntent intent s = s\<lparr>x_exitIntent := Some intent\<rparr>"

definition LastExitIntent :: "ExternalSession \<Rightarrow> ExitIntent option" where
  "LastExitIntent s = x_exitIntent s"

definition BindPID :: "int \<Rightarrow> ExternalSession \<Rightarrow> ExternalSession" where
  "BindPID pid s = (if pid \<le> 0 then s else s\<lparr>x_claudePID := pid\<rparr>)"

definition Touch :: "time \<Rightarrow> ExternalSession \<Rightarrow> ExternalSession" where
  "Touch now s = (if not_live s then s else s\<lparr>x_lastActivity := now\<rparr>)"

definition SetDriver :: "gostring \<Rightarrow> ExternalSession \<Rightarrow> ExternalSession" where
  "SetDriver driver s = s\<lparr>x_driver := driver\<rparr>"

text \<open>The getters of the source (\<open>Status\<close>, \<open>Seq\<close>, \<open>ClaudeSessionID\<close>, \<dots>) read one field each.\<close>

definition ext_Status :: "ExternalSession \<Rightarrow> SessionStatus \<times> TurnStatus" where
  "ext_Status s = (x_sessionStatus s, x_turnStatus s)"

definition PriorSessionIDs :: "ExternalSession \<Rightarrow> gostring list" where
  "PriorSessionIDs s = x_priorSessionIDs s"

subsection \<open>All interleavings of the critical sections\<close>

text \<open>
  A session with the channels that goroutines have detached and not closed yet. A step is
  one critical section of any method, the close of one detached channel, or a receive by
  the owner of a channel. The steps are offered in every state, also those the callers
  would not take there, so what holds of every reachable state holds of every schedule.
\<close>

record xsys =
  xs :: ExternalSession
  ev_pending :: "nat list"
  in_pending :: "nat list"

inductive xstep :: "xsys \<Rightarrow> xsys \<Rightarrow> bool" where
  x_emit: "emit_locked kind ss ts payload err now (xs s) = Inr (b, t) \<Longrightarrow> xstep s (s\<lparr>xs := t\<rparr>)"
| x_close: "close_locked (xs s) = Inr ((evs, ins), t) \<Longrightarrow>
     xstep s \<lparr>xs = t, ev_pending = evs @ ev_pending s, in_pending = ins @ in_pending s\<rparr>"
| x_close_ev: "r \<in> set (ev_pending s) \<Longrightarrow> close_ev r (xs s) = Inr t \<Longrightarrow>
     xstep s (s\<lparr>xs := t, ev_pending := remove1 r (ev_pending s)\<rparr>)"
| x_close_in: "r \<in> set (in_pending s) \<Longrightarrow> close_in r (xs s) = Inr t \<Longrightarrow>
     xstep s (s\<lparr>xs := t, in_pending := remove1 r (in_pending s)\<rparr>)"
| x_subscribe: "ext_Subscribe buffer (xs s) = Inr (res, t) \<Longrightarrow> xstep s (s\<lparr>xs := t\<rparr>)"
| x_subscribe_input: "ext_SubscribeInput buffer (xs s) = Inr (res, t) \<Longrightarrow> xstep s (s\<lparr>xs := t\<rparr>)"
| x_unsubscribe: "unsubscribe_locked k (xs s) = (ro, t) \<Longrightarrow>
     xstep s (s\<lparr>xs := t, ev_pending := (case ro of None \<Rightarrow> ev_pending s | Some r \<Rightarrow> r # ev_pending s)\<rparr>)"
| x_unsubscribe_input: "unsubscribe_input_locked k (xs s) = (ro, t) \<Longrightarrow>
     xstep s (s\<lparr>xs := t, in_pending := (case ro of None \<Rightarrow> in_pending s | Some r \<Rightarrow> r # in_pending s)\<rparr>)"
| x_send_begin: "send_input_begin text now (xs s) = Inr t \<Longrightarrow> xstep s (s\<lparr>xs := t\<rparr>)"
| x_deliver: "deliver_input text (xs s) = Inr t \<Longrightarrow> xstep s (s\<lparr>xs := t\<rparr>)"
| x_send_raw: "ext_SendRaw text now (xs s) = Inr (e, t) \<Longrightarrow> xstep s (s\<lparr>xs := t\<rparr>)"
| x_bind: "BindSessionMetadata sid cwd now (xs s) = (res, t) \<Longrightarrow> xstep s (s\<lparr>xs := t\<rparr>)"
| x_meta: "t \<in> {SeedSeq n (xs s), SetRebindListener (xs s), RecordExitIntent i (xs s), BindPID pid (xs s),
       Touch now (xs s), SetDriver d (xs s)} \<Longrightarrow> xstep s (s\<lparr>xs := t\<rparr>)"
| x_recv_events: "recv (x_events (xs s)) = Some (e, c) \<Longrightarrow> xstep s (s\<lparr>xs := (xs s)\<lparr>x_events := c\<rparr>\<rparr>)"
| x_recv: "r < length (x_evheap (xs s)) \<Longrightarrow> recv (x_evheap (xs s) ! r) = Some (e, c) \<Longrightarrow>
     xstep s (s\<lparr>xs := (xs s)\<lparr>x_evheap := (x_evheap (xs s))[r := c]\<rparr>\<rparr>)"
| x_recv_input: "r < length (x_inheap (xs s)) \<Longrightarrow> recv (x_inheap (xs s) ! r) = Some (txt, c) \<Longrightarrow>
     xstep s (s\<lparr>xs := (xs s)\<lparr>x_inheap := (x_inheap (xs s))[r := c]\<rparr>\<rparr>)"

inductive_cases xstepE: "xstep s t"

text \<open>
  The invariant: both registries are in order, the closed flags agree, a closed session has
  no subscriber left, and every queue of events is in order.
\<close>

definition closed_ok :: "ExternalSession \<Rightarrow> bool" where
  "closed_ok s \<longleftrightarrow> x_done s = x_eventsClosed s \<and> chan_closed (x_events s) = x_eventsClosed s \<and>
     x_stopped s = x_eventsClosed s \<and> (x_eventsClosed s \<longrightarrow> x_subscribers s = [] \<and> x_inputs s = [])"

definition xinv :: "xsys \<Rightarrow> bool" where
  "xinv s \<longleftrightarrow>
     reg_ok (x_evheap (xs s)) (x_subscribers (xs s)) (x_nextSubID (xs s)) (ev_pending s) \<and>
     reg_ok (x_inheap (xs s)) (x_inputs (xs s)) (x_nextInputID (xs s)) (in_pending s) \<and>
     closed_ok (xs s) \<and>
     queue_ok (x_seq (xs s)) (x_events (xs s)) \<and> queues_ok (x_seq (xs s)) (x_evheap (xs s))"

lemma xinvD:
  assumes "xinv s"
  shows "reg_ok (x_evheap (xs s)) (x_subscribers (xs s)) (x_nextSubID (xs s)) (ev_pending s)"
    and "reg_ok (x_inheap (xs s)) (x_inputs (xs s)) (x_nextInputID (xs s)) (in_pending s)"
    and "closed_ok (xs s)" and "queue_ok (x_seq (xs s)) (x_events (xs s))"
    and "queues_ok (x_seq (xs s)) (x_evheap (xs s))"
  using assms by (auto simp: xinv_def)

lemma xinv_blank: "xinv \<lparr>xs = blank_session now, ev_pending = [], in_pending = []\<rparr>"
  by (simp add: xinv_def blank_session_def closed_ok_def queues_ok_def)

text \<open>Each critical section succeeds in a state of the invariant.\<close>

lemma emit_locked_total:
  assumes "xinv s"
  shows "\<exists>b t. emit_locked kind ss ts payload err now (xs s) = Inr (b, t) \<and> xinv (s\<lparr>xs := t\<rparr>) \<and>
     x_seq t = (if x_eventsClosed (xs s) then x_seq (xs s) else x_seq (xs s) + 1)"
proof (cases "x_eventsClosed (xs s)")
  case True
  with assms show ?thesis by (auto simp: emit_locked_def)
next
  case False
  note i = xinvD[OF assms]
  let ?s1 = "emit_prepare ss ts now (xs s)"
  let ?e = "make_event kind payload err now ?s1"
  have e: "x_seq (xs s) < ev_Seq ?e" "ev_Seq ?e = x_seq (xs s) + 1"
    by (simp_all add: make_event_def emit_prepare_def)
  have "\<not> chan_closed (x_events (xs s))" using i(3) False by (simp add: closed_ok_def)
  from try_send_open[OF this, of ?e] obtain c where c: "try_send ?e (x_events (xs s)) = Inr c" by (elim exE)
  obtain h where h: "send_all ?e (map snd (x_subscribers (xs s))) (x_evheap (xs s)) = Inr h"
    "reg_ok h (x_subscribers (xs s)) (x_nextSubID (xs s)) (ev_pending s)" "queues_ok (ev_Seq ?e) h"
    using reg_ok_broadcast[OF i(1) i(5) e(1)] by blast
  have qc: "queue_ok (ev_Seq ?e) c" using queue_ok_send[OF i(4) c e(1)] .
  have cc: "chan_closed c = chan_closed (x_events (xs s))" by (rule try_send_closed[OF c])
  let ?t = "?s1\<lparr>x_events := c, x_evheap := h\<rparr>"
  have "emit_locked kind ss ts payload err now (xs s) = Inr (is_terminal_kind kind, ?t)"
    using False c h(1) by (simp add: emit_locked_def emit_prepare_def Let_def)
  moreover have "xinv (s\<lparr>xs := ?t\<rparr>)"
    using i h qc cc e False by (simp add: xinv_def emit_prepare_def closed_ok_def)
  ultimately show ?thesis using False by (simp add: emit_prepare_def)
qed

lemma close_locked_total:
  assumes "xinv s"
  shows "\<exists>evs ins t. close_locked (xs s) = Inr ((evs, ins), t) \<and>
    xinv \<lparr>xs = t, ev_pending = evs @ ev_pending s, in_pending = ins @ in_pending s\<rparr> \<and> x_eventsClosed t \<and>
    x_seq t = x_seq (xs s)"
proof (cases "x_eventsClosed (xs s)")
  case True
  then have "close_locked (xs s) = Inr (([], []), xs s)" by (simp add: close_locked_def)
  with True assms show ?thesis by (cases s) (simp add: xinv_def)
next
  case False
  note i = xinvD[OF assms]
  from False i(3) have "\<not> x_done (xs s)" "\<not> chan_closed (x_events (xs s))" by (simp_all add: closed_ok_def)
  then show ?thesis
    using False i reg_ok_detach[OF i(1)] reg_ok_detach[OF i(2)]
    by (simp add: close_locked_def close_chan_def xinv_def closed_ok_def)
qed

lemma close_ev_total:
  assumes "xinv s" "r \<in> set (ev_pending s)"
  shows "\<exists>t. close_ev r (xs s) = Inr t \<and> xinv (s\<lparr>xs := t, ev_pending := remove1 r (ev_pending s)\<rparr>) \<and>
    x_seq t = x_seq (xs s)"
proof -
  note i = xinvD[OF assms(1)]
  from close_at_open[OF reg_ok_pend_open[OF i(1) assms(2)]]
  obtain h where h: "close_at r (x_evheap (xs s)) = Inr h" by (elim exE conjE)
  then have "h = (x_evheap (xs s))[r := (x_evheap (xs s) ! r)\<lparr>chan_closed := True\<rparr>]"
    by (auto simp: close_at_def close_chan_def split: if_splits)
  moreover have "r < length (x_evheap (xs s))" using reg_ok_pend_open[OF i(1) assms(2)] by (simp add: open_at_def)
  then have "queue_ok (x_seq (xs s)) ((x_evheap (xs s) ! r)\<lparr>chan_closed := True\<rparr>)"
    using i(5) by (simp add: queues_ok_def)
  ultimately have "queues_ok (x_seq (xs s)) h" using queues_ok_upd[OF i(5)] by (simp only:)
  with h reg_ok_close[OF i(1) assms(2) h] i show ?thesis
    by (simp add: close_ev_def xinv_def closed_ok_def)
qed

lemma close_in_total:
  assumes "xinv s" "r \<in> set (in_pending s)"
  shows "\<exists>t. close_in r (xs s) = Inr t \<and> xinv (s\<lparr>xs := t, in_pending := remove1 r (in_pending s)\<rparr>) \<and>
    x_seq t = x_seq (xs s)"
proof -
  note i = xinvD[OF assms(1)]
  from close_at_open[OF reg_ok_pend_open[OF i(2) assms(2)]]
  obtain h where h: "close_at r (x_inheap (xs s)) = Inr h" by (elim exE conjE)
  with reg_ok_close[OF i(2) assms(2) h] i show ?thesis
    by (simp add: close_in_def xinv_def closed_ok_def)
qed

lemma ext_Subscribe_total:
  assumes "xinv s"
  shows "\<exists>res t. ext_Subscribe buffer (xs s) = Inr (res, t) \<and> xinv (s\<lparr>xs := t\<rparr>) \<and> x_seq t = x_seq (xs s)"
proof -
  note i = xinvD[OF assms]
  obtain r h where a: "alloc (buffer_or 128 buffer) (x_evheap (xs s)) = (r, h)" by fastforce
  then have h: "h = x_evheap (xs s) @ [make_chan (buffer_or 128 buffer)]" by (simp add: alloc_def)
  show ?thesis
  proof (cases "not_live (xs s)")
    case True
    obtain h2 where h2: "close_at r h = Inr h2"
      "reg_ok h2 (x_subscribers (xs s)) (x_nextSubID (xs s)) (ev_pending s)"
      "set h2 \<subseteq> set (x_evheap (xs s)) \<union> {c. chan_buf c = []}"
      using reg_ok_dead[OF i(1) a] by blast
    have "queues_ok (x_seq (xs s)) h2"
      using h2(3) i(5) queue_ok_empty unfolding queues_ok_def by blast
    with h2 True a i show ?thesis
      by (simp add: ext_Subscribe_def close_ev_def xinv_def closed_ok_def)
  next
    case False
    have "queues_ok (x_seq (xs s)) h" using i(5) by (simp add: queues_ok_def h)
    moreover have "\<not> x_eventsClosed (xs s)" using False i(3) by (simp add: closed_ok_def not_live_def)
    ultimately show ?thesis
      using False a i reg_ok_add[OF i(1) a] by (simp add: ext_Subscribe_def xinv_def closed_ok_def Let_def)
  qed
qed

lemma ext_SubscribeInput_total:
  assumes "xinv s"
  shows "\<exists>res t. ext_SubscribeInput buffer (xs s) = Inr (res, t) \<and> xinv (s\<lparr>xs := t\<rparr>) \<and> x_seq t = x_seq (xs s)"
proof -
  note i = xinvD[OF assms]
  obtain r h where a: "alloc (buffer_or 32 buffer) (x_inheap (xs s)) = (r, h)" by fastforce
  show ?thesis
  proof (cases "not_live (xs s)")
    case True
    obtain h2 where "close_at r h = Inr h2"
      "reg_ok h2 (x_inputs (xs s)) (x_nextInputID (xs s)) (in_pending s)"
      using reg_ok_dead[OF i(2) a] by blast
    with True a i show ?thesis
      by (simp add: ext_SubscribeInput_def close_in_def xinv_def closed_ok_def)
  next
    case False
    then have "\<not> x_eventsClosed (xs s)" using i(3) by (simp add: closed_ok_def not_live_def)
    then show ?thesis
      using False a i reg_ok_add[OF i(2) a] by (simp add: ext_SubscribeInput_def xinv_def closed_ok_def Let_def)
  qed
qed

lemma deliver_input_total:
  assumes "xinv s"
  shows "\<exists>t. deliver_input text (xs s) = Inr t \<and> xinv (s\<lparr>xs := t\<rparr>) \<and> x_seq t = x_seq (xs s)"
proof -
  note i = xinvD[OF assms]
  obtain h where h: "send_all (text @ [CHR 0x0D]) (map snd (x_inputs (xs s))) (x_inheap (xs s)) = Inr h"
    "reg_ok h (x_inputs (xs s)) (x_nextInputID (xs s)) (in_pending s)"
    using reg_ok_send[OF i(2)] by blast
  then show ?thesis
    using assms i by (cases "x_eventsClosed (xs s)") (auto simp: deliver_input_def xinv_def closed_ok_def)
qed

lemma ext_SendRaw_total:
  assumes "xinv s"
  shows "\<exists>e t. ext_SendRaw text now (xs s) = Inr (e, t) \<and> xinv (s\<lparr>xs := t\<rparr>) \<and> x_seq t = x_seq (xs s)"
proof -
  note i = xinvD[OF assms]
  obtain h where h: "send_all text (map snd (x_inputs (xs s))) (x_inheap (xs s)) = Inr h"
    "reg_ok h (x_inputs (xs s)) (x_nextInputID (xs s)) (in_pending s)"
    using reg_ok_send[OF i(2)] by blast
  then show ?thesis using assms i by (simp add: ext_SendRaw_def xinv_def closed_ok_def)
qed

text \<open>Steps that touch neither the channels nor the registries.\<close>

definition same_channels :: "ExternalSession \<Rightarrow> ExternalSession \<Rightarrow> bool" where
  "same_channels s t \<longleftrightarrow>
     x_events t = x_events s \<and> x_subscribers t = x_subscribers s \<and> x_nextSubID t = x_nextSubID s \<and>
     x_inputs t = x_inputs s \<and> x_nextInputID t = x_nextInputID s \<and> x_done t = x_done s \<and>
     x_stopped t = x_stopped s \<and> x_eventsClosed t = x_eventsClosed s \<and> x_evheap t = x_evheap s \<and>
     x_inheap t = x_inheap s \<and> x_seq s \<le> x_seq t"

lemma same_channels_xinv: "same_channels (xs s) t \<Longrightarrow> xinv s \<Longrightarrow> xinv (s\<lparr>xs := t\<rparr>)"
  by (auto simp: same_channels_def xinv_def closed_ok_def intro: queue_ok_mono queues_ok_mono)

lemma same_channels_meta:
  "t \<in> {SeedSeq n s, SetRebindListener s, RecordExitIntent i s, BindPID pid s, Touch now s, SetDriver d s} \<Longrightarrow>
   same_channels s t"
  by (auto simp: same_channels_def SeedSeq_def SetRebindListener_def RecordExitIntent_def BindPID_def Touch_def
      SetDriver_def split: if_splits)

lemma same_channels_bind: "BindSessionMetadata sid cwd now s = (res, t) \<Longrightarrow> same_channels s t"
  by (cases "sid = []"; cases "cwd = []"; cases "sid = x_claudeSessionID s"; cases "x_cwd s = []")
    (auto simp: same_channels_def BindSessionMetadata_def Let_def)

lemma same_channels_begin: "send_input_begin text now s = Inr t \<Longrightarrow> same_channels s t"
  by (auto simp: same_channels_def send_input_begin_def split: if_splits)

lemma recv_xinv:
  assumes "xinv s" "recv (x_evheap (xs s) ! r) = Some (e, c)" "r < length (x_evheap (xs s))"
  shows "xinv (s\<lparr>xs := (xs s)\<lparr>x_evheap := (x_evheap (xs s))[r := c]\<rparr>\<rparr>)"
proof -
  note i = xinvD[OF assms(1)]
  have c: "chan_closed c = chan_closed (x_evheap (xs s) ! r)" using assms(2) by (auto simp: recv_def split: list.splits)
  then have "reg_ok ((x_evheap (xs s))[r := c]) (x_subscribers (xs s)) (x_nextSubID (xs s)) (ev_pending s)"
    by (intro reg_ok_mono[OF i(1)]) (simp add: open_at_upd)
  moreover have "queue_ok (x_seq (xs s)) c"
    using queue_ok_recv[OF _ assms(2)] i(5) assms(3) by (simp add: queues_ok_def)
  then have "queues_ok (x_seq (xs s)) ((x_evheap (xs s))[r := c])" by (rule queues_ok_upd[OF i(5)])
  ultimately show ?thesis using i by (simp add: xinv_def closed_ok_def)
qed

lemma recv_input_xinv:
  assumes "xinv s" "recv (x_inheap (xs s) ! r) = Some (e, c)"
  shows "xinv (s\<lparr>xs := (xs s)\<lparr>x_inheap := (x_inheap (xs s))[r := c]\<rparr>\<rparr>)"
proof -
  note i = xinvD[OF assms(1)]
  have c: "chan_closed c = chan_closed (x_inheap (xs s) ! r)" using assms(2) by (auto simp: recv_def split: list.splits)
  then have "reg_ok ((x_inheap (xs s))[r := c]) (x_inputs (xs s)) (x_nextInputID (xs s)) (in_pending s)"
    by (intro reg_ok_mono[OF i(2)]) (simp add: open_at_upd)
  then show ?thesis using i by (simp add: xinv_def closed_ok_def)
qed

text \<open>Both facts about a step at once: the invariant is kept, and the sequence number never falls.\<close>

lemma xstep_inv_seq: "xinv s \<Longrightarrow> xstep s t \<Longrightarrow> xinv t \<and> x_seq (xs s) \<le> x_seq (xs t)"
proof (erule xstepE, goal_cases)
  case (1 kind ss ts payload err now b u)
  then show ?case using emit_locked_total[OF 1(1), of kind ss ts payload err now] by auto
next
  case (2 evs ins u)
  then show ?case using close_locked_total[OF 2(1)] by auto
next
  case (3 r u)
  then show ?case using close_ev_total[OF 3(1,3)] by auto
next
  case (4 r u)
  then show ?case using close_in_total[OF 4(1,3)] by auto
next
  case (5 buffer res u)
  then show ?case using ext_Subscribe_total[OF 5(1), of buffer] by auto
next
  case (6 buffer res u)
  then show ?case using ext_SubscribeInput_total[OF 6(1), of buffer] by auto
next
  case (7 k ro u)
  note i = xinvD[OF 7(1)]
  show ?case
    using 7 i reg_ok_take[OF i(1), of k] reg_ok_del_None[OF i(1), of k]
    by (auto simp: unsubscribe_locked_def xinv_def closed_ok_def alist_del_def split: option.splits)
next
  case (8 k ro u)
  note i = xinvD[OF 8(1)]
  show ?case
    using 8 i reg_ok_take[OF i(2), of k] reg_ok_del_None[OF i(2), of k]
    by (auto simp: unsubscribe_input_locked_def xinv_def closed_ok_def alist_del_def split: option.splits)
next
  case (9 inp now u)
  then show ?case using same_channels_begin[OF 9(3)] same_channels_xinv by (auto simp: same_channels_def)
next
  case (10 inp u)
  then show ?case using deliver_input_total[OF 10(1), of inp] by auto
next
  case (11 inp now e u)
  then show ?case using ext_SendRaw_total[OF 11(1), of inp now] by auto
next
  case (12 sid cwd now res u)
  then show ?case using same_channels_bind[OF 12(3)] same_channels_xinv by (auto simp: same_channels_def)
next
  case (13 u n i pid now d)
  then have "same_channels (xs s) u" by (intro same_channels_meta) auto
  then show ?case using 13 same_channels_xinv by (simp add: same_channels_def)
next
  case (14 e c)
  then have "chan_closed c = chan_closed (x_events (xs s))" by (auto simp: recv_def split: list.splits)
  with 14 queue_ok_recv[OF _ 14(3)] show ?case by (simp add: xinv_def closed_ok_def)
next
  case (15 r e c)
  then show ?case using recv_xinv[OF 15(1,4,3)] by simp
next
  case (16 r inp c)
  then show ?case using recv_input_xinv[OF 16(1,4)] by simp
qed

subsection \<open>Whole methods are runs of the steps\<close>

lemma close_evs_run:
  assumes "xinv s" "ev_pending s = evs @ rest"
  shows "\<exists>t. fold_sum close_ev evs (xs s) = Inr t \<and> xstep\<^sup>*\<^sup>* s (s\<lparr>xs := t, ev_pending := rest\<rparr>)"
  using assms
proof (induction evs arbitrary: s)
  case Nil
  then have "s\<lparr>xs := xs s, ev_pending := rest\<rparr> = s" by simp
  then show ?case by auto
next
  case (Cons r evs)
  have r: "r \<in> set (ev_pending s)" using Cons.prems(2) by simp
  from close_ev_total[OF Cons.prems(1) r] obtain u where u: "close_ev r (xs s) = Inr u"
    "xinv (s\<lparr>xs := u, ev_pending := remove1 r (ev_pending s)\<rparr>)" by blast
  let ?s = "s\<lparr>xs := u, ev_pending := evs @ rest\<rparr>"
  have e: "remove1 r (ev_pending s) = evs @ rest" using Cons.prems(2) by simp
  then obtain t where t: "fold_sum close_ev evs u = Inr t" "xstep\<^sup>*\<^sup>* ?s (?s\<lparr>xs := t, ev_pending := rest\<rparr>)"
    using Cons.IH[of ?s] u(2) by auto
  have "xstep s ?s" using x_close_ev[OF r u(1)] e by simp
  with t u(1) show ?case by (auto intro: converse_rtranclp_into_rtranclp)
qed

lemma close_ins_run:
  assumes "xinv s" "in_pending s = ins @ rest"
  shows "\<exists>t. fold_sum close_in ins (xs s) = Inr t \<and> xstep\<^sup>*\<^sup>* s (s\<lparr>xs := t, in_pending := rest\<rparr>)"
  using assms
proof (induction ins arbitrary: s)
  case Nil
  then have "s\<lparr>xs := xs s, in_pending := rest\<rparr> = s" by simp
  then show ?case by auto
next
  case (Cons r ins)
  have r: "r \<in> set (in_pending s)" using Cons.prems(2) by simp
  from close_in_total[OF Cons.prems(1) r] obtain u where u: "close_in r (xs s) = Inr u"
    "xinv (s\<lparr>xs := u, in_pending := remove1 r (in_pending s)\<rparr>)" by blast
  let ?s = "s\<lparr>xs := u, in_pending := ins @ rest\<rparr>"
  have e: "remove1 r (in_pending s) = ins @ rest" using Cons.prems(2) by simp
  then obtain t where t: "fold_sum close_in ins u = Inr t" "xstep\<^sup>*\<^sup>* ?s (?s\<lparr>xs := t, in_pending := rest\<rparr>)"
    using Cons.IH[of ?s] u(2) by auto
  have "xstep s ?s" using x_close_in[OF r u(1)] e by simp
  with t u(1) show ?case by (auto intro: converse_rtranclp_into_rtranclp)
qed

lemma xrun_inv: "xstep\<^sup>*\<^sup>* s t \<Longrightarrow> xinv s \<Longrightarrow> xinv t"
  by (induction rule: rtranclp_induct) (auto dest: xstep_inv_seq)

lemma close_ev_frame:
  "close_ev r s = Inr t \<Longrightarrow> x_eventsClosed t = x_eventsClosed s \<and> x_subscribers t = x_subscribers s \<and>
     x_inputs t = x_inputs s \<and> x_stopped t = x_stopped s \<and> x_seq t = x_seq s \<and> x_sessionStatus t = x_sessionStatus s"
  by (auto simp: close_ev_def bind_sum_Inr_iff)

lemma close_in_frame:
  "close_in r s = Inr t \<Longrightarrow> x_eventsClosed t = x_eventsClosed s \<and> x_subscribers t = x_subscribers s \<and>
     x_inputs t = x_inputs s \<and> x_stopped t = x_stopped s \<and> x_seq t = x_seq s \<and> x_sessionStatus t = x_sessionStatus s"
  by (auto simp: close_in_def bind_sum_Inr_iff)

lemma fold_sum_frame:
  assumes "fold_sum f rs s = Inr t" "\<And>r s t. f r s = Inr t \<Longrightarrow> P s = P t"
  shows "P s = P t"
  using assms(1)
proof (induction rs arbitrary: s)
  case (Cons r rs)
  then obtain u where "f r s = Inr u" "fold_sum f rs u = Inr t" by (auto simp: bind_sum_Inr_iff)
  with Cons.IH assms(2) show ?case by metis
qed simp

lemma ext_close_run:
  assumes "xinv s"
  shows "\<exists>t. ext_close (xs s) = Inr t \<and> xstep\<^sup>*\<^sup>* s (s\<lparr>xs := t\<rparr>) \<and> x_eventsClosed t"
proof -
  from close_locked_total[OF assms] obtain evs ins u where u: "close_locked (xs s) = Inr ((evs, ins), u)"
    "xinv \<lparr>xs = u, ev_pending = evs @ ev_pending s, in_pending = ins @ in_pending s\<rparr>" "x_eventsClosed u" by blast
  let ?s1 = "\<lparr>xs = u, ev_pending = evs @ ev_pending s, in_pending = ins @ in_pending s\<rparr>"
  have s1: "xstep s ?s1" by (rule x_close[OF u(1)])
  from close_evs_run[OF u(2), of evs "ev_pending s"] obtain v where v: "fold_sum close_ev evs u = Inr v"
    "xstep\<^sup>*\<^sup>* ?s1 (?s1\<lparr>xs := v, ev_pending := ev_pending s\<rparr>)" by auto
  let ?s2 = "?s1\<lparr>xs := v, ev_pending := ev_pending s\<rparr>"
  have "xinv ?s2" using xrun_inv[OF v(2) u(2)] .
  from close_ins_run[OF this, of ins "in_pending s"] obtain t where t: "fold_sum close_in ins v = Inr t"
    "xstep\<^sup>*\<^sup>* ?s2 (?s2\<lparr>xs := t, in_pending := in_pending s\<rparr>)" by auto
  have "?s2\<lparr>xs := t, in_pending := in_pending s\<rparr> = s\<lparr>xs := t\<rparr>" by (cases s) simp
  with t(2) v(2) s1 have "xstep\<^sup>*\<^sup>* s (s\<lparr>xs := t\<rparr>)"
    by (metis converse_rtranclp_into_rtranclp rtranclp_trans)
  moreover have "x_eventsClosed t"
    using u(3) fold_sum_frame[OF v(1), of x_eventsClosed] fold_sum_frame[OF t(1), of x_eventsClosed]
      close_ev_frame close_in_frame by metis
  moreover have "ext_close (xs s) = Inr t" using u(1) v(1) t(1) by (simp add: ext_close_def)
  ultimately show ?thesis by blast
qed

lemma Emit_run:
  assumes "xinv s"
  shows "\<exists>t. Emit kind ss ts payload err now (xs s) = Inr t \<and> xstep\<^sup>*\<^sup>* s (s\<lparr>xs := t\<rparr>) \<and>
    (is_terminal_kind kind \<longrightarrow> x_eventsClosed t)"
proof -
  from emit_locked_total[OF assms] obtain b u where u: "emit_locked kind ss ts payload err now (xs s) = Inr (b, u)"
    "xinv (s\<lparr>xs := u\<rparr>)" by blast
  have s1: "xstep s (s\<lparr>xs := u\<rparr>)" by (rule x_emit[OF u(1)])
  have b: "is_terminal_kind kind \<Longrightarrow> b \<or> x_eventsClosed u"
    using u(1) by (auto simp: emit_locked_def Let_def bind_sum_Inr_iff split: if_splits)
  show ?thesis
  proof (cases b)
    case True
    from ext_close_run[OF u(2)] obtain t where t: "ext_close u = Inr t" "xstep\<^sup>*\<^sup>* (s\<lparr>xs := u\<rparr>) (s\<lparr>xs := t\<rparr>)"
      "x_eventsClosed t" by auto
    with s1 True u(1) show ?thesis by (auto simp: Emit_def intro: converse_rtranclp_into_rtranclp)
  next
    case False
    with s1 u(1) b show ?thesis by (auto simp: Emit_def)
  qed
qed

definition xstart :: "xsys \<Rightarrow> bool" where
  "xstart s \<longleftrightarrow> (\<exists>now t. NewExternalSession now = Inr t \<and> s = \<lparr>xs = t, ev_pending = [], in_pending = []\<rparr>)"

definition xreachable :: "xsys \<Rightarrow> bool" where
  "xreachable = reach xstart xstep"

lemma NewExternalSession_inv:
  assumes "NewExternalSession now = Inr t"
  shows "xinv \<lparr>xs = t, ev_pending = [], in_pending = []\<rparr>"
proof -
  let ?s0 = "\<lparr>xs = blank_session now, ev_pending = [], in_pending = []\<rparr>"
  from Emit_run[OF xinv_blank, of EventSessionStarted SessionLive TurnAwaitingInput "[]" "[]" now now]
  obtain u where u: "Emit EventSessionStarted SessionLive TurnAwaitingInput [] [] now (blank_session now) = Inr u"
    "xstep\<^sup>*\<^sup>* ?s0 (?s0\<lparr>xs := u\<rparr>)" by auto
  have i: "xinv \<lparr>xs = u, ev_pending = [], in_pending = []\<rparr>" using xrun_inv[OF u(2) xinv_blank] by simp
  from Emit_run[OF i, of EventSessionReady SessionLive TurnAwaitingInput "[]" "[]" now] u(1) assms
  have "xstep\<^sup>*\<^sup>* \<lparr>xs = u, ev_pending = [], in_pending = []\<rparr> \<lparr>xs = t, ev_pending = [], in_pending = []\<rparr>"
    by (auto simp: NewExternalSession_def)
  then show ?thesis by (rule xrun_inv[OF _ i])
qed

interpretation ext: monotone_system xstart xstep xinv "\<lambda>s. x_seq (xs s)"
  by unfold_locales (auto simp: xstart_def dest: NewExternalSession_inv xstep_inv_seq)

lemmas xreachable_inv = ext.inv_reach[folded xreachable_def]

lemma xreachable_run: "xreachable s \<Longrightarrow> xstep\<^sup>*\<^sup>* s t \<Longrightarrow> xreachable t"
  unfolding xreachable_def by (rule reach_trans)

subsection \<open>Properties\<close>

text \<open>
  C11. No schedule crashes the daemon: in every reachable state of a session, whatever the
  order in which emits, closes, subscriptions, cancellations and inputs of different
  goroutines were interleaved, each critical section runs without a send on a closed
  channel or a second close, and so does the close of each detached channel.
\<close>

theorem external_session_never_panics:
  assumes "xreachable s"
  shows "(\<exists>r. emit_locked kind ss ts payload err now (xs s) = Inr r) \<and> (\<exists>r. close_locked (xs s) = Inr r) \<and>
    (\<exists>r. deliver_input inp (xs s) = Inr r) \<and> (\<exists>r. ext_SendRaw inp now (xs s) = Inr r) \<and>
    (\<exists>r. ext_Subscribe buffer (xs s) = Inr r) \<and> (\<exists>r. ext_SubscribeInput buffer (xs s) = Inr r) \<and>
    (\<forall>c\<in>set (ev_pending s). \<exists>r. close_ev c (xs s) = Inr r) \<and>
    (\<forall>c\<in>set (in_pending s). \<exists>r. close_in c (xs s) = Inr r)"
proof -
  note i = xreachable_inv[OF assms]
  show ?thesis
    using emit_locked_total[OF i, of kind ss ts payload err now] close_locked_total[OF i]
      deliver_input_total[OF i, of inp] ext_SendRaw_total[OF i, of inp now] ext_Subscribe_total[OF i, of buffer]
      ext_SubscribeInput_total[OF i, of buffer] close_ev_total[OF i] close_in_total[OF i]
    by (intro conjI ballI) (elim exE conjE, blast)+
qed

text \<open>
  C13. Events arrive in order: in every reachable state the events queued on the main
  channel and on every subscriber's channel have strictly increasing sequence numbers, none
  above the session's counter, which never falls along any run.
\<close>

theorem external_events_in_order:
  assumes "xreachable s" "xstep\<^sup>*\<^sup>* s t"
  shows "x_seq (xs s) \<le> x_seq (xs t) \<and>
    (\<forall>c\<in>set (x_events (xs t) # x_evheap (xs t)).
       sorted_wrt (<) (map ev_Seq (chan_buf c)) \<and> (\<forall>e\<in>set (chan_buf c). ev_Seq e \<le> x_seq (xs t)))"
proof -
  have "xinv t" using xreachable_inv[OF xreachable_run[OF assms]] .
  then show ?thesis
    using ext.meas_run[OF assms(2) xreachable_inv[OF assms(1)]]
    by (auto simp: xinv_def queues_ok_def queue_ok_def)
qed

lemma stopped_session:
  assumes "xinv s" "x_eventsClosed (xs s)"
  shows "x_stopped (xs s)" "x_subscribers (xs s) = []" "x_inputs (xs s) = []" "not_live (xs s)"
  using assms by (auto simp: xinv_def closed_ok_def not_live_def)

text \<open>
  \<open>Stop\<close> is final and complete: in every reachable state it succeeds, afterwards the
  session has no subscriber and no input reader, later events are dropped, input is refused
  and a late subscriber gets a channel that is already closed.
\<close>

theorem external_stop_final:
  assumes "xreachable s"
  shows "\<exists>t. ext_Stop now (xs s) = Inr t \<and> xstep\<^sup>*\<^sup>* s (s\<lparr>xs := t\<rparr>) \<and>
    x_subscribers t = [] \<and> x_inputs t = [] \<and>
    Emit kind ss ts payload err now' t = Inr t \<and>
    ext_SendRaw (c # cs) now' t = Inr (Some ErrNotLive, t) \<and>
    (\<exists>r u. ext_Subscribe buffer t = Inr ((r, None), u) \<and> chan_closed (x_evheap u ! r))"
proof -
  note i = xreachable_inv[OF assms]
  from Emit_run[OF i, of EventSessionExited SessionExited TurnIdle "[]" "[]" now]
  obtain u where u: "Emit EventSessionExited SessionExited TurnIdle [] [] now (xs s) = Inr u"
    "xstep\<^sup>*\<^sup>* s (s\<lparr>xs := u\<rparr>)" by blast
  have iu: "xinv (s\<lparr>xs := u\<rparr>)" by (rule xrun_inv[OF u(2) i])
  from ext_close_run[OF iu] obtain t where t: "ext_close u = Inr t" "xstep\<^sup>*\<^sup>* (s\<lparr>xs := u\<rparr>) (s\<lparr>xs := t\<rparr>)"
    "x_eventsClosed t" by auto
  have it: "xinv (s\<lparr>xs := t\<rparr>)" by (rule xrun_inv[OF t(2) iu])
  note st = stopped_session[OF it, simplified, OF t(3)]
  have "ext_Stop now (xs s) = Inr t" using u(1) t(1) by (simp add: ext_Stop_def)
  moreover have "xstep\<^sup>*\<^sup>* s (s\<lparr>xs := t\<rparr>)" using u(2) t(2) by (rule rtranclp_trans)
  moreover have "Emit kind ss ts payload err now' t = Inr t" using t(3) by (simp add: Emit_def emit_locked_def)
  moreover have "ext_SendRaw (c # cs) now' t = Inr (Some ErrNotLive, t)" using st(4) by (simp add: ext_SendRaw_def)
  moreover have "\<exists>r v. ext_Subscribe buffer t = Inr ((r, None), v) \<and> chan_closed (x_evheap v ! r)"
    using st(4) by (simp add: ext_Subscribe_def alloc_def close_ev_def close_at_def close_chan_def)
  ultimately show ?thesis using st(2,3) by blast
qed

end
