(* ===== verification/ExternalProps.thy ===== *)
theory ExternalProps
  imports External
begin

section \<open>External sessions: functional behaviour and witnesses\<close>

text \<open>
  The history of session ids a terminal was bound to, the numbering of events across a
  re-creation, retryable errors, and slash commands; then concrete runs that show the
  hypotheses of the properties of External.thy can hold.
\<close>

subsection \<open>The history of session ids\<close>

text \<open>
  The abstract view: every id the terminal was bound to, in order, the current one last.
  Binding appends an id unless it is empty or already the current one.
\<close>

definition sid_history :: "ExternalSession \<Rightarrow> gostring list" where
  "sid_history s = x_priorSessionIDs s @ (if x_claudeSessionID s = [] then [] else [x_claudeSessionID s])"

definition append_sid :: "gostring \<Rightarrow> gostring list \<Rightarrow> gostring list" where
  "append_sid sid h = (if sid = [] \<or> (h \<noteq> [] \<and> last h = sid) then h else h @ [sid])"

definition bound_ok :: "ExternalSession \<Rightarrow> bool" where
  "bound_ok s \<longleftrightarrow> (x_claudeSessionID s = [] \<longrightarrow> x_priorSessionIDs s = []) \<and> [] \<notin> set (x_priorSessionIDs s)"

lemma bind_current:
  "BindSessionMetadata sid cwd now s = (res, t) \<Longrightarrow>
   x_claudeSessionID t = (if sid = [] then x_claudeSessionID s else sid)"
  by (cases "sid = []"; cases "cwd = []"; cases "sid = x_claudeSessionID s"; cases "x_cwd s = []")
    (auto simp: BindSessionMetadata_def Let_def)

lemma bind_prior:
  "BindSessionMetadata sid cwd now s = (res, t) \<Longrightarrow>
   x_priorSessionIDs t = (if sid \<noteq> [] \<and> sid \<noteq> x_claudeSessionID s \<and> x_claudeSessionID s \<noteq> []
     then x_priorSessionIDs s @ [x_claudeSessionID s] else x_priorSessionIDs s)"
  by (cases "sid = []"; cases "cwd = []"; cases "sid = x_claudeSessionID s"; cases "x_cwd s = []")
    (auto simp: BindSessionMetadata_def Let_def)

lemma bind_result:
  "BindSessionMetadata sid cwd now s = ((prev, changed, call), t) \<Longrightarrow>
   changed = (sid \<noteq> [] \<and> sid \<noteq> x_claudeSessionID s) \<and> prev = (if changed then x_claudeSessionID s else []) \<and>
   call = (if changed \<and> x_rebindListener s then Some (prev, sid) else None)"
  by (cases "sid = []"; cases "cwd = []"; cases "sid = x_claudeSessionID s"; cases "x_cwd s = []")
    (auto simp: BindSessionMetadata_def Let_def)

lemma bind_bound_ok: "BindSessionMetadata sid cwd now s = (res, t) \<Longrightarrow> bound_ok s \<Longrightarrow> bound_ok t"
  by (auto simp: bound_ok_def bind_current bind_prior split: if_splits)

fun bind_all :: "(gostring \<times> gostring \<times> time) list \<Rightarrow> ExternalSession \<Rightarrow> ExternalSession" where
  "bind_all [] s = s"
| "bind_all ((sid, cwd, now) # bs) s = bind_all bs (snd (BindSessionMetadata sid cwd now s))"

text \<open>
  C27. Session ids are never lost: after any sequence of metadata reports the prior ids
  followed by the current one are exactly the reported non-empty ids without immediate
  repetitions, in order, so every id the terminal ever had can be told from an unknown one.
\<close>

theorem bind_keeps_sid_history:
  assumes "bound_ok s"
  shows "sid_history (bind_all bs s) = fold (\<lambda>(sid, cwd, now). append_sid sid) bs (sid_history s)"
  using assms
proof (induction bs arbitrary: s)
  case Nil
  then show ?case by simp
next
  case (Cons b bs)
  obtain sid cwd now where b: "b = (sid, cwd, now)" by (metis prod_cases3)
  obtain res t where t: "BindSessionMetadata sid cwd now s = (res, t)" by fastforce
  have "sid_history t = append_sid sid (sid_history s)"
    using Cons.prems by (auto simp: sid_history_def append_sid_def bind_current[OF t] bind_prior[OF t] bound_ok_def)
  moreover have "bound_ok t" using bind_bound_ok[OF t Cons.prems] .
  ultimately show ?case using Cons.IH[of t] by (simp add: b t)
qed

subsection \<open>Event numbers across a re-creation\<close>

text \<open>
  Seeding keeps turns apart: after \<open>SeedSeq n\<close> the next event of an open session has a
  number above \<open>n\<close> and above every earlier number of the session, so a re-created session
  never reuses the number of a stored turn.
\<close>

theorem seed_seq_next_event_above:
  assumes "xinv s" "\<not> x_eventsClosed (xs s)"
  shows "\<exists>b t. emit_locked kind ss ts payload err now (SeedSeq n (xs s)) = Inr (b, t) \<and>
     n < x_seq t \<and> x_seq (xs s) < x_seq t \<and> x_seq t = max n (x_seq (xs s)) + 1"
proof -
  have sc: "same_channels (xs s) (SeedSeq n (xs s))"
    by (rule same_channels_meta[of _ n _ undefined 0 0 "[]"]) simp
  have i: "xinv (s\<lparr>xs := SeedSeq n (xs s)\<rparr>)" by (rule same_channels_xinv[OF sc assms(1)])
  have "\<not> x_eventsClosed (SeedSeq n (xs s))" using sc assms(2) by (simp add: same_channels_def)
  then show ?thesis
    using emit_locked_total[OF i, of kind ss ts payload err now] by (auto simp: SeedSeq_def)
qed

text \<open>
  A failed agent turn does not end the session: an event of kind \<open>agent_error\<close> (or any
  kind but \<open>session_exited\<close> and \<open>error\<close>) with a live status leaves an open session open and
  live, its subscribers and input readers in place; the two terminal kinds close it.
\<close>

theorem only_terminal_kinds_close:
  assumes "xinv s" "\<not> x_eventsClosed (xs s)"
  shows "\<exists>t. Emit kind SessionLive ts payload err now (xs s) = Inr t \<and>
     x_eventsClosed t = (kind = EventSessionExited \<or> kind = EventError) \<and>
     (\<not> x_eventsClosed t \<longrightarrow> x_sessionStatus t = SessionLive \<and> \<not> not_live t \<and>
        x_subscribers t = x_subscribers (xs s) \<and> x_inputs t = x_inputs (xs s))"
proof -
  obtain t where t: "Emit kind SessionLive ts payload err now (xs s) = Inr t"
    "is_terminal_kind kind \<longrightarrow> x_eventsClosed t"
    using Emit_run[OF assms(1), of kind SessionLive ts payload err now] by blast
  have st: "\<not> x_stopped (xs s)" using assms by (simp add: xinv_def closed_ok_def)
  show ?thesis
  proof (cases "is_terminal_kind kind")
    case True
    with t show ?thesis by (auto simp: is_terminal_kind_def)
  next
    case False
    have "\<not> x_eventsClosed t \<and> x_sessionStatus t = SessionLive \<and> \<not> not_live t \<and>
        x_subscribers t = x_subscribers (xs s) \<and> x_inputs t = x_inputs (xs s)"
      using t(1) False assms(2) st
      by (auto simp: Emit_def emit_locked_def emit_prepare_def Let_def bind_sum_Inr_iff not_live_def session_consts)
    with t(1) False show ?thesis by (auto simp: is_terminal_kind_def)
  qed
qed

subsection \<open>Slash commands\<close>

text \<open>The shape of a control command: a slash, a lower-case letter, command characters.\<close>

lemma slash_command_shape:
  assumes "isSlashCommandInput text"
  shows "\<exists>r rs rest. TrimSpace text = CHR ''/'' # rest \<and> lower_letter r \<and> list_all command_rune rs \<and>
     runes (case IndexAny (TrimSpace text) [CHR '' '', CHR 0x09] of Some i \<Rightarrow> take (i - 1) rest | None \<Rightarrow> rest) = r # rs"
proof -
  let ?t = "TrimSpace text"
  let ?first = "case IndexAny ?t [CHR '' '', CHR 0x09] of Some i \<Rightarrow> take i ?t | None \<Rightarrow> ?t"
  from assms have p: "HasPrefix ?t ''/''" and l: "2 \<le> length ?first"
    by (auto simp: isSlashCommandInput_def Let_def not_less split: if_splits)
  from p obtain rest where rest: "?t = CHR ''/'' # rest" by (auto simp: HasPrefix_iff)
  have d: "drop 1 ?first = (case IndexAny ?t [CHR '' '', CHR 0x09] of Some i \<Rightarrow> take (i - 1) rest | None \<Rightarrow> rest)"
    unfolding rest by (auto simp: take_Cons' split: option.splits)
  have "runes (drop 1 ?first) \<noteq> []"
  proof -
    obtain c cs where "drop 1 ?first = c # cs" using l by (cases "drop 1 ?first") auto
    then show ?thesis by (simp add: runes_def rune_segs.simps(2) split: prod.split)
  qed
  then obtain r rs where r: "runes (drop 1 ?first) = r # rs" by (cases "runes (drop 1 ?first)") auto
  with assms p l have "lower_letter r \<and> list_all command_rune rs"
    by (simp add: isSlashCommandInput_def Let_def not_less [symmetric])
  with rest r d show ?thesis by (intro exI conjI; (assumption | simp)?)
qed

text \<open>
  Control commands do not become chat bubbles, other input does: accepted input reaches
  the input channels in both cases, and the session's counter grows, by the one
  \<open>user_input\<close> event, exactly when the text is not a slash command.
\<close>

theorem send_input_event_unless_slash:
  assumes "xinv s" "\<not> not_live (xs s)" "TrimSpace (trimmed_input text) \<noteq> []"
  shows "\<exists>t. ext_SendInput text now (xs s) = Inr (None, t) \<and> x_turnStatus t = TurnSubmitted \<and>
     x_lastActivity t = now \<and>
     x_seq t = (if isSlashCommandInput (trimmed_input text) then x_seq (xs s) else x_seq (xs s) + 1)"
proof -
  let ?txt = "trimmed_input text"
  let ?s1 = "(xs s)\<lparr>x_lastActivity := now, x_turnStatus := TurnSubmitted\<rparr>"
  have b: "send_input_begin ?txt now (xs s) = Inr ?s1" using assms by (simp add: send_input_begin_def)
  have i1: "xinv (s\<lparr>xs := ?s1\<rparr>)" using same_channels_xinv[OF same_channels_begin[OF b] assms(1)] .
  have open1: "\<not> x_eventsClosed (xs s)" using assms(1,2) by (auto simp: xinv_def closed_ok_def not_live_def)
  have deliver: "\<exists>t. deliver_input ?txt u = Inr t \<and> x_seq t = x_seq u \<and> x_turnStatus t = x_turnStatus u \<and>
      x_lastActivity t = x_lastActivity u" if u: "xinv (s\<lparr>xs := u\<rparr>)" for u
  proof -
    obtain t where "deliver_input ?txt u = Inr t" using deliver_input_total[OF u, of ?txt] by auto
    then show ?thesis by (auto simp: deliver_input_def bind_sum_Inr_iff split: if_splits)
  qed
  show ?thesis
  proof (cases "isSlashCommandInput ?txt")
    case True
    then show ?thesis using b deliver[OF i1] by (auto simp: ext_SendInput_def Let_def)
  next
    case False
    obtain u where u: "Emit EventUserInput SessionLive TurnSubmitted ?txt [] now ?s1 = Inr u"
      "xstep\<^sup>*\<^sup>* (s\<lparr>xs := ?s1\<rparr>) (s\<lparr>xs := u\<rparr>)"
      using Emit_run[OF i1, of EventUserInput SessionLive TurnSubmitted ?txt "[]" now] by auto
    have iu: "xinv (s\<lparr>xs := u\<rparr>)" by (rule xrun_inv[OF u(2) i1])
    have "x_seq u = x_seq (xs s) + 1 \<and> x_turnStatus u = TurnSubmitted \<and> x_lastActivity u = now"
      using u(1) open1
      by (auto simp: Emit_def emit_locked_def emit_prepare_def Let_def bind_sum_Inr_iff is_terminal_kind_def
          event_consts turn_consts)
    with False u(1) b deliver[OF iu] show ?thesis by (auto simp: ext_SendInput_def Let_def)
  qed
qed

subsection \<open>Witnesses\<close>

text \<open>A new session, the same with one subscriber, and with that subscriber's channel detached.\<close>

definition ex_event :: "int \<Rightarrow> EventKind \<Rightarrow> Event" where
  "ex_event n kind = \<lparr>ev_Seq = n, ev_Kind = kind, ev_SessionStatus = SessionLive,
     ev_TurnStatus = TurnAwaitingInput, ev_Payload = [], ev_Error = [], ev_Timestamp = 1\<rparr>"

definition ex_new :: ExternalSession where
  "ex_new = (blank_session 1)\<lparr>x_seq := 2,
     x_events := \<lparr>chan_cap = 128, chan_buf = [ex_event 1 EventSessionStarted, ex_event 2 EventSessionReady],
       chan_closed = False\<rparr>\<rparr>"

definition ex_subscribed :: ExternalSession where
  "ex_subscribed = ex_new\<lparr>x_evheap := [make_chan 4], x_nextSubID := 1, x_subscribers := [(0, 0)]\<rparr>"

definition ex_sys_of :: "ExternalSession \<Rightarrow> nat list \<Rightarrow> xsys" where
  "ex_sys_of t p = \<lparr>xs = t, ev_pending = p, in_pending = []\<rparr>"

lemma ex_new_eq: "NewExternalSession 1 = Inr ex_new"
  by (simp add: NewExternalSession_def Emit_def emit_locked_def emit_prepare_def make_event_def blank_session_def
      try_send_def send_all_def is_terminal_kind_def Let_def session_consts turn_consts event_consts ex_new_def
      ex_event_def make_chan_def)

lemma ex_new_reachable: "xreachable (ex_sys_of ex_new [])"
  unfolding xreachable_def by (rule reach_init) (auto simp: xstart_def ex_sys_of_def intro!: exI ex_new_eq)

lemma ex_subscribe: "ext_Subscribe 4 ex_new = Inr ((0, Some 0), ex_subscribed)"
  by (simp add: ext_Subscribe_def alloc_def buffer_or_def not_live_def ex_new_def blank_session_def session_consts
      ex_subscribed_def)

lemma ex_subscribed_step: "xstep (ex_sys_of ex_new []) (ex_sys_of ex_subscribed [])"
  using x_subscribe[of 4 "ex_sys_of ex_new []" "(0, Some 0)" ex_subscribed] ex_subscribe by (simp add: ex_sys_of_def)

lemma ex_subscribed_run: "xstep\<^sup>*\<^sup>* (ex_sys_of ex_new []) (ex_sys_of ex_subscribed [])"
  using ex_subscribed_step by (rule r_into_rtranclp[where r = xstep])

lemma ex_subscribed_reachable: "xreachable (ex_sys_of ex_subscribed [])"
  using xreachable_run[OF ex_new_reachable] ex_subscribed_step by blast

definition ex_detached :: ExternalSession where
  "ex_detached = ex_subscribed\<lparr>x_subscribers := []\<rparr>"

lemma ex_detached_reachable: "xreachable (ex_sys_of ex_detached [0])"
proof -
  have "xstep (ex_sys_of ex_subscribed []) (ex_sys_of ex_detached [0])"
    using x_unsubscribe[of 0 "ex_sys_of ex_subscribed []" "Some 0" ex_detached]
    by (simp add: unsubscribe_locked_def ex_sys_of_def ex_subscribed_def ex_detached_def alist_del_def)
  then show ?thesis using xreachable_run[OF ex_subscribed_reachable] by blast
qed

lemmas ex_subscribed_inv = xreachable_inv[OF ex_subscribed_reachable]

lemma ex_subscribed_open: "\<not> x_eventsClosed (xs (ex_sys_of ex_subscribed []))" "\<not> not_live (xs (ex_sys_of ex_subscribed []))"
  by (simp_all add: ex_sys_of_def ex_subscribed_def ex_new_def blank_session_def not_live_def session_consts)

theorem external_session_never_panics_witness:
  "(\<exists>r. emit_locked EventError SessionError TurnIdle [] ''boom'' 5 ex_detached = Inr r) \<and> (\<exists>r. close_ev 0 ex_detached = Inr r)"
  using external_session_never_panics[OF ex_detached_reachable, where kind = EventError and ss = SessionError and
      ts = TurnIdle and payload = "[]" and err = "''boom''" and now = 5]
  by (simp add: ex_sys_of_def)

theorem external_events_in_order_witness:
  "x_seq ex_new \<le> x_seq ex_subscribed \<and>
   sorted_wrt (<) (map ev_Seq (chan_buf (x_events ex_subscribed))) \<and> chan_buf (x_events ex_subscribed) \<noteq> []"
  using external_events_in_order[OF ex_new_reachable ex_subscribed_run]
  by (simp add: ex_sys_of_def) (simp add: ex_subscribed_def ex_new_def)

theorem external_stop_final_witness:
  "\<exists>t. ext_Stop 9 ex_subscribed = Inr t \<and> x_subscribers t = [] \<and>
     ext_SendRaw ''x'' 10 t = Inr (Some ErrNotLive, t)"
  using external_stop_final[OF ex_subscribed_reachable, of 9 EventTextDelta SessionLive TurnIdle "[]" "[]" 10 "CHR ''x''" "[]" 0]
  by (auto simp: ex_sys_of_def)

theorem bind_keeps_sid_history_witness:
  "sid_history (bind_all [(''a'', [], 1), (''b'', [], 2), (''b'', [], 3), (''a'', [], 4)] ex_new) = [''a'', ''b'', ''a'']"
proof -
  have "bound_ok ex_new" by (simp add: bound_ok_def ex_new_def blank_session_def)
  from bind_keeps_sid_history[OF this, of "[(''a'', [], 1), (''b'', [], 2), (''b'', [], 3), (''a'', [], 4)]"] show ?thesis
    by (simp add: append_sid_def sid_history_def ex_new_def blank_session_def)
qed

theorem seed_seq_next_event_above_witness:
  "\<exists>b t. emit_locked EventTextDelta SessionLive TurnStreaming ''x'' [] 7 (SeedSeq 41 ex_subscribed) = Inr (b, t) \<and> x_seq t = 42"
  using seed_seq_next_event_above[OF ex_subscribed_inv ex_subscribed_open(1), of EventTextDelta SessionLive TurnStreaming "''x''" "[]" 7 41]
  by (auto simp: ex_sys_of_def ex_subscribed_def ex_new_def)

theorem only_terminal_kinds_close_witness:
  "\<exists>t. Emit EventAgentError SessionLive TurnAwaitingInput [] ''429'' 7 ex_subscribed = Inr t \<and> \<not> not_live t \<and>
     x_subscribers t = [(0, 0)]"
  using only_terminal_kinds_close[OF ex_subscribed_inv ex_subscribed_open(1), of EventAgentError TurnAwaitingInput "[]" "''429''" 7]
  by (auto simp: event_consts ex_sys_of_def) (simp add: ex_subscribed_def)

theorem send_input_event_unless_slash_witness:
  "(\<exists>t. ext_SendInput ''/model haiku'' 7 ex_subscribed = Inr (None, t) \<and> x_seq t = 2) \<and>
   (\<exists>t. ext_SendInput ''hello'' 7 ex_subscribed = Inr (None, t) \<and> x_seq t = 3)"
proof -
  have t: "TrimSpace ''/model haiku'' = ''/model haiku''" "TrimSpace ''hello'' = ''hello''"
    by (simp_all add: TrimSpace_ascii is_space_def)
  have r: "trimmed_input ''/model haiku'' = ''/model haiku''" "trimmed_input ''hello'' = ''hello''"
    by (simp_all add: trimmed_input_def TrimRight_def)
  have sl: "isSlashCommandInput ''/model haiku''" "\<not> isSlashCommandInput ''hello''"
    by (simp_all add: isSlashCommandInput_def t HasPrefix_def runes_def rune_segs_ascii lower_letter_def command_rune_def)
  show ?thesis
    using send_input_event_unless_slash[OF ex_subscribed_inv ex_subscribed_open(2), of "''/model haiku''" 7]
      send_input_event_unless_slash[OF ex_subscribed_inv ex_subscribed_open(2), of "''hello''" 7] sl
    unfolding r t by (auto simp: ex_sys_of_def) (auto simp: ex_subscribed_def ex_new_def)
qed

end
