(* ===== verification/TermSession.thy ===== *)
theory TermSession
  imports Registry
begin

section \<open>Sessions on a pseudo terminal\<close>

text \<open>
  \<open>daemon/internal/terminal/session.go\<close>: a process on a pseudo terminal owned by the
  daemon. Four goroutines run beside the callers: the reader of the terminal, the
  prompt-ready timer, the start-up timer and the waiter for the process. Critical sections
  are single definitions, as in External.thy. What is written to the terminal is appended
  to \<open>s_written\<close>; the process, the terminal device and the clock are outside the model and
  appear as arguments (the text read, the exit error, the time).
\<close>

subsection \<open>State\<close>

record Session =
  s_cfg :: LaunchConfig
  s_events :: "Event chan"
  s_subscribers :: "(nat \<times> nat) list"
  s_nextSubID :: nat
  s_done :: bool
  s_seq :: int
  s_sessionStatus :: SessionStatus
  s_turnStatus :: TurnStatus
  s_readySent :: bool
  s_stopped :: bool
  s_eventsClosed :: bool
  s_activity :: "unit chan"
  s_rawInput :: gostring
  s_written :: gostring
  s_heap :: "Event heap"

definition sess_not_live :: "Session \<Rightarrow> bool" where
  "sess_not_live s \<longleftrightarrow> s_stopped s \<or> s_sessionStatus s = SessionExited \<or> s_sessionStatus s = SessionError"

text \<open>\<open>normalizeConfig\<close>; the working directory of the process is an argument.\<close>

definition normalizeConfig :: "gostring \<Rightarrow> LaunchConfig \<Rightarrow> LaunchConfig" where
  "normalizeConfig getwd cfg0 =
     (let cfg1 = (if lc_Cwd cfg0 = [] then cfg0\<lparr>lc_Cwd := getwd\<rparr> else cfg0);
          cfg2 = (if lc_Cols cfg1 = 0 then cfg1\<lparr>lc_Cols := 120\<rparr> else cfg1);
          cfg3 = (if lc_Rows cfg2 = 0 then cfg2\<lparr>lc_Rows := 40\<rparr> else cfg2);
          cfg4 = (if lc_ReadyDelay cfg3 \<le> 0 then cfg3\<lparr>lc_ReadyDelay := 750 * millisecond\<rparr> else cfg3);
          cfg5 = (if lc_PromptDelay cfg4 \<le> 0 then cfg4\<lparr>lc_PromptDelay := 1500 * millisecond\<rparr> else cfg4)
      in if lc_StartupTimeout cfg5 \<le> 0 then cfg5\<lparr>lc_StartupTimeout := 10 * second\<rparr> else cfg5)"

subsection \<open>Emitting\<close>

definition sess_event ::
  "EventKind \<Rightarrow> SessionStatus \<Rightarrow> TurnStatus \<Rightarrow> gostring \<Rightarrow> gostring \<Rightarrow> time \<Rightarrow> int \<Rightarrow> Event" where
  "sess_event kind ss ts payload err now n =
     \<lparr>ev_Seq = n, ev_Kind = kind, ev_SessionStatus = ss, ev_TurnStatus = ts,
      ev_Payload = payload, ev_Error = err, ev_Timestamp = now\<rparr>"

text \<open>
  The \<open>select\<close> of \<open>emit\<close> with the cases send, \<open>done\<close> and default. A send on a closed channel is
  always ready, and \<open>select\<close> picks any of the ready cases, so a closed channel is a panic here
  whatever \<open>done\<close> says. With \<open>done\<close> closed and the channel open the event is dropped.
\<close>

definition select_send :: "'a \<Rightarrow> bool \<Rightarrow> 'a chan \<Rightarrow> panic + 'a chan" where
  "select_send x closing c =
     (if chan_closed c then Inl SendOnClosed else if closing then Inr c else try_send x c)"

definition select_send_all :: "'a \<Rightarrow> bool \<Rightarrow> nat list \<Rightarrow> 'a heap \<Rightarrow> panic + 'a heap" where
  "select_send_all x closing rs h =
     fold_sum (\<lambda>r h. bind_sum (select_send x closing (h ! r)) (\<lambda>c. Inr (h[r := c]))) rs h"

lemma select_send_open [simp]: "select_send x False c = try_send x c"
  by (simp add: select_send_def try_send_def)

lemma select_send_all_open [simp]: "select_send_all x False rs h = send_all x rs h"
  by (simp add: select_send_all_def send_all_def send_at_def[abs_def])

text \<open>Unlike an external session, \<open>emit\<close> copies the statuses into the event only.\<close>

definition sess_emit ::
  "EventKind \<Rightarrow> SessionStatus \<Rightarrow> TurnStatus \<Rightarrow> gostring \<Rightarrow> gostring \<Rightarrow> time \<Rightarrow> Session \<Rightarrow> panic + Session" where
  "sess_emit kind ss ts payload err now s =
     (if s_eventsClosed s then Inr s
      else let s1 = s\<lparr>s_seq := s_seq s + 1\<rparr>;
               event = sess_event kind ss ts payload err now (s_seq s1) in
        bind_sum (select_send event (s_done s1) (s_events s1)) (\<lambda>evs.
        bind_sum (select_send_all event (s_done s1) (map snd (s_subscribers s1)) (s_heap s1)) (\<lambda>h.
        Inr (s1\<lparr>s_events := evs, s_heap := h\<rparr>))))"

definition markStreaming :: "Session \<Rightarrow> Session" where
  "markStreaming s = s\<lparr>s_sessionStatus := SessionLive, s_turnStatus := TurnStreaming\<rparr>"

definition markReady :: "Session \<Rightarrow> Session" where
  "markReady s =
     (let s1 = (if \<not> s_readySent s then s\<lparr>s_readySent := True\<rparr> else s) in
      s1\<lparr>s_sessionStatus := SessionLive, s_turnStatus := TurnAwaitingInput\<rparr>)"

definition notifyActivity :: "Session \<Rightarrow> panic + Session" where
  "notifyActivity s = bind_sum (try_send () (s_activity s)) (\<lambda>c. Inr (s\<lparr>s_activity := c\<rparr>))"

text \<open>The state \<open>Start\<close> builds once the process runs; the first event is emitted before the goroutines start.\<close>

definition fresh_session :: "LaunchConfig \<Rightarrow> Session" where
  "fresh_session cfg =
     \<lparr>s_cfg = cfg, s_events = make_chan 128, s_subscribers = [], s_nextSubID = 0, s_done = False, s_seq = 0,
      s_sessionStatus = SessionStarting, s_turnStatus = TurnIdle, s_readySent = False, s_stopped = False,
      s_eventsClosed = False, s_activity = make_chan 1, s_rawInput = [], s_written = [], s_heap = []\<rparr>"

datatype start_error = ErrCommandRequired | ErrCwdInvalid | ErrNotDirectory | ErrStart gostring

text \<open>
  \<open>Start\<close>: \<open>stat\<close> tells whether a path exists and is a directory, \<open>launch\<close> whether the
  process could be started on a terminal of the configured size.
\<close>

definition Start ::
  "gostring \<Rightarrow> (gostring \<Rightarrow> bool option) \<Rightarrow> (LaunchConfig \<Rightarrow> gostring option) \<Rightarrow> time \<Rightarrow> LaunchConfig \<Rightarrow>
   panic + (start_error + Session)" where
  "Start getwd stat launch now cfg0 =
     (let cfg = normalizeConfig getwd cfg0 in
      if lc_Command cfg = [] then Inr (Inl ErrCommandRequired)
      else if lc_Cwd cfg \<noteq> [] \<and> stat (lc_Cwd cfg) = None then Inr (Inl ErrCwdInvalid)
      else if lc_Cwd cfg \<noteq> [] \<and> stat (lc_Cwd cfg) = Some False then Inr (Inl ErrNotDirectory)
      else case launch cfg of
             Some e \<Rightarrow> Inr (Inl (ErrStart e))
           | None \<Rightarrow> bind_sum (sess_emit EventSessionStarted SessionLive TurnIdle [] [] now (fresh_session cfg))
               (\<lambda>s. Inr (Inr s)))"

definition sess_Status :: "Session \<Rightarrow> SessionStatus \<times> TurnStatus" where
  "sess_Status s = (s_sessionStatus s, s_turnStatus s)"

subsection \<open>Subscriptions\<close>

definition close_sub :: "nat \<Rightarrow> Session \<Rightarrow> panic + Session" where
  "close_sub r s = bind_sum (close_at r (s_heap s)) (\<lambda>h. Inr (s\<lparr>s_heap := h\<rparr>))"

definition sess_Subscribe :: "int \<Rightarrow> Session \<Rightarrow> panic + ((nat \<times> nat option) \<times> Session)" where
  "sess_Subscribe buffer s =
     (case alloc (if buffer \<le> 0 then 128 else nat buffer) (s_heap s) of (r, h) \<Rightarrow>
       if sess_not_live s then bind_sum (close_sub r (s\<lparr>s_heap := h\<rparr>)) (\<lambda>s1. Inr ((r, None), s1))
       else let k = s_nextSubID s in
         Inr ((r, Some k), s\<lparr>s_heap := h, s_nextSubID := k + 1, s_subscribers := alist_put k r (s_subscribers s)\<rparr>))"

definition sess_unsubscribe_locked :: "nat \<Rightarrow> Session \<Rightarrow> nat option \<times> Session" where
  "sess_unsubscribe_locked k s =
     (alist_get (s_subscribers s) k, s\<lparr>s_subscribers := alist_del k (s_subscribers s)\<rparr>)"

definition detachSubscribersLocked :: "Session \<Rightarrow> nat list \<times> Session" where
  "detachSubscribersLocked s = (map snd (s_subscribers s), s\<lparr>s_subscribers := []\<rparr>)"

subsection \<open>Input\<close>

definition sess_input_begin :: "gostring \<Rightarrow> Session \<Rightarrow> term_error + Session" where
  "sess_input_begin text s =
     (if TrimSpace text = [] then Inl ErrTextRequired
      else if sess_not_live s then Inl ErrNotLive
      else Inr (s\<lparr>s_turnStatus := TurnSubmitted\<rparr>))"

definition pty_write :: "gostring \<Rightarrow> Session \<Rightarrow> Session" where
  "pty_write text s = s\<lparr>s_written := s_written s @ text\<rparr>"

definition sess_SendInput :: "gostring \<Rightarrow> time \<Rightarrow> Session \<Rightarrow> panic + (term_error option \<times> Session)" where
  "sess_SendInput text0 now s =
     (let text = TrimRight text0 [CHR 0x0D, CHR 0x0A] in
      case sess_input_begin text s of
        Inl e \<Rightarrow> Inr (Some e, s)
      | Inr s1 \<Rightarrow>
          bind_sum (sess_emit EventUserInput SessionLive TurnSubmitted text [] now s1) (\<lambda>s2.
          Inr (None, pty_write (text @ [CHR 0x0D]) s2)))"

text \<open>
  The line editor of \<open>SendRaw\<close>: a carriage return or newline submits the trimmed line, a
  backspace or delete removes the last byte, other control characters are ignored. The
  state is the line being typed and the lines submitted so far.
\<close>

fun raw_step :: "gostring \<times> gostring list \<Rightarrow> rune \<Rightarrow> gostring \<times> gostring list" where
  "raw_step (raw, submitted) r =
     (if r = 13 \<or> r = 10 then
        (let line = TrimSpace raw in ([], if line \<noteq> [] then submitted @ [line] else submitted))
      else if r = 8 \<or> r = 127 then (if length raw > 0 then take (length raw - 1) raw else raw, submitted)
      else if 32 \<le> r then (raw @ encode_rune r, submitted)
      else (raw, submitted))"

definition raw_edit :: "gostring \<Rightarrow> gostring \<Rightarrow> gostring \<times> gostring list" where
  "raw_edit raw text = foldl raw_step (raw, []) (runes text)"

definition sess_SendRaw :: "gostring \<Rightarrow> time \<Rightarrow> Session \<Rightarrow> panic + (term_error option \<times> Session)" where
  "sess_SendRaw text now s =
     (if text = [] then Inr (None, s)
      else if sess_not_live s then Inr (Some ErrNotLive, s)
      else case raw_edit (s_rawInput s) text of (raw, submitted) \<Rightarrow>
        bind_sum (fold_sum (\<lambda>line. sess_emit EventUserInput SessionLive TurnSubmitted line [] now) submitted
            (pty_write text (s\<lparr>s_turnStatus := TurnSubmitted, s_rawInput := raw\<rparr>)))
          (\<lambda>s1. Inr (None, s1)))"

text \<open>\<open>Resize\<close>: \<open>Inr (Some size)\<close> is the call that sets the size of the terminal.\<close>

definition sess_Resize :: "nat \<Rightarrow> nat \<Rightarrow> Session \<Rightarrow> term_error + (nat \<times> nat) option" where
  "sess_Resize cols rows s =
     (if cols = 0 \<or> rows = 0 then Inr None
      else if sess_not_live s then Inl ErrNotLive
      else Inr (Some (cols, rows)))"

definition sess_Stop :: "Session \<Rightarrow> Session" where
  "sess_Stop s = (if s_stopped s then s else s\<lparr>s_stopped := True\<rparr>)"

subsection \<open>The goroutines\<close>

text \<open>U+276F, the prompt character.\<close>

definition prompt_char :: gostring where
  "prompt_char = [CHR 0xE2, CHR 0x9D, CHR 0xAF]"

definition looksPromptReady :: "gostring \<Rightarrow> bool" where
  "looksPromptReady text =
     (let compact = Join (Fields text) '' '' in
      Contains compact prompt_char \<and> (Contains compact ''? for shortcuts'' \<or> Contains compact ''esc to interrupt''))"

text \<open>One chunk of terminal output, as the body of \<open>readLoop\<close> handles it.\<close>

definition readLoop_chunk :: "gostring \<Rightarrow> time \<Rightarrow> Session \<Rightarrow> panic + Session" where
  "readLoop_chunk buf now s =
     (let text = CleanOutput buf in
      if TrimSpace text = [] then Inr s
      else bind_sum (sess_emit EventTextDelta SessionLive TurnStreaming text [] now (markStreaming s)) (\<lambda>s1.
           bind_sum (notifyActivity s1) (\<lambda>s2.
           if looksPromptReady text
           then sess_emit EventPromptReady SessionLive TurnAwaitingInput [] [] now (markReady s2)
           else Inr s2)))"

text \<open>
  The state of \<open>promptReadyLoop\<close>: whether the timer has been armed by activity since it
  last fired. A timer event without activity is ignored.
\<close>

datatype prompt_input = Activity | TimerFired

definition promptReady_step :: "prompt_input \<Rightarrow> time \<Rightarrow> bool \<Rightarrow> Session \<Rightarrow> panic + (bool \<times> Session)" where
  "promptReady_step i now active s =
     (case i of
        Activity \<Rightarrow> Inr (True, s)
      | TimerFired \<Rightarrow>
          if \<not> active then Inr (active, s)
          else bind_sum (sess_emit EventPromptReady SessionLive TurnAwaitingInput [] [] now (markReady s)) (\<lambda>s1.
               Inr (False, s1)))"

definition startupReady :: "time \<Rightarrow> Session \<Rightarrow> panic + Session" where
  "startupReady now s = sess_emit EventSessionReady SessionLive TurnAwaitingInput [] [] now (markReady s)"

text \<open>
  \<open>waitLoop\<close> after the process has ended with the error text \<open>err\<close> (none for a clean exit):
  the status change, the last event, and the closing of \<open>done\<close>, \<open>events\<close> and the
  subscribers' channels.
\<close>

definition wait_exit :: "Session \<Rightarrow> bool \<times> Session" where
  "wait_exit s = (s_stopped s, s\<lparr>s_sessionStatus := SessionExited, s_turnStatus := TurnIdle\<rparr>)"

definition wait_emit :: "gostring option \<Rightarrow> bool \<Rightarrow> time \<Rightarrow> Session \<Rightarrow> panic + Session" where
  "wait_emit err stopped now s =
     (case err of
        Some e \<Rightarrow> if \<not> stopped then sess_emit EventError SessionError TurnIdle [] e now s
                  else sess_emit EventSessionExited SessionExited TurnIdle [] [] now s
      | None \<Rightarrow> sess_emit EventSessionExited SessionExited TurnIdle [] [] now s)"

definition wait_close :: "Session \<Rightarrow> panic + (nat list \<times> Session)" where
  "wait_close s =
     (if s_eventsClosed s then Inr ([], s)
      else case detachSubscribersLocked (s\<lparr>s_eventsClosed := True\<rparr>) of (subs, s1) \<Rightarrow>
        if s_done s1 then Inl CloseOfClosed
        else bind_sum (close_chan (s_events s1)) (\<lambda>evs.
          Inr (subs, s1\<lparr>s_done := True, s_events := evs\<rparr>)))"

definition waitLoop :: "gostring option \<Rightarrow> time \<Rightarrow> Session \<Rightarrow> panic + Session" where
  "waitLoop err now s =
     (case wait_exit s of (stopped, s1) \<Rightarrow>
       bind_sum (wait_emit err stopped now s1) (\<lambda>s2.
       bind_sum (wait_close s2) (\<lambda>(subs, s3). fold_sum close_sub subs s3)))"

subsection \<open>All interleavings of the critical sections\<close>

record ssys =
  ss :: Session
  sub_pending :: "nat list"

inductive sstep :: "ssys \<Rightarrow> ssys \<Rightarrow> bool" where
  s_emit: "sess_emit kind st tn payload err now (ss s) = Inr t \<Longrightarrow> sstep s (s\<lparr>ss := t\<rparr>)"
| s_mark: "t \<in> {markStreaming (ss s), markReady (ss s), snd (wait_exit (ss s)), sess_Stop (ss s),
       pty_write txt' (ss s)} \<Longrightarrow> sstep s (s\<lparr>ss := t\<rparr>)"
| s_notify: "notifyActivity (ss s) = Inr t \<Longrightarrow> sstep s (s\<lparr>ss := t\<rparr>)"
| s_drain: "recv (s_activity (ss s)) = Some (u, c) \<Longrightarrow> sstep s (s\<lparr>ss := (ss s)\<lparr>s_activity := c\<rparr>\<rparr>)"
| s_input: "sess_input_begin txt' (ss s) = Inr t \<Longrightarrow> sstep s (s\<lparr>ss := t\<rparr>)"
| s_edit: "\<not> sess_not_live (ss s) \<Longrightarrow>
     sstep s (s\<lparr>ss := (ss s)\<lparr>s_turnStatus := TurnSubmitted, s_rawInput := fst (raw_edit (s_rawInput (ss s)) txt')\<rparr>\<rparr>)"
| s_close: "wait_close (ss s) = Inr (subs, t) \<Longrightarrow> sstep s \<lparr>ss = t, sub_pending = subs @ sub_pending s\<rparr>"
| s_close_sub: "r \<in> set (sub_pending s) \<Longrightarrow> close_sub r (ss s) = Inr t \<Longrightarrow>
     sstep s \<lparr>ss = t, sub_pending = remove1 r (sub_pending s)\<rparr>"
| s_subscribe: "sess_Subscribe buffer (ss s) = Inr (res, t) \<Longrightarrow> sstep s (s\<lparr>ss := t\<rparr>)"
| s_unsubscribe: "sess_unsubscribe_locked k (ss s) = (ro, t) \<Longrightarrow>
     sstep s \<lparr>ss = t, sub_pending = (case ro of None \<Rightarrow> sub_pending s | Some r \<Rightarrow> r # sub_pending s)\<rparr>"
| s_recv_events: "recv (s_events (ss s)) = Some (e, c) \<Longrightarrow> sstep s (s\<lparr>ss := (ss s)\<lparr>s_events := c\<rparr>\<rparr>)"
| s_recv: "r < length (s_heap (ss s)) \<Longrightarrow> recv (s_heap (ss s) ! r) = Some (e, c) \<Longrightarrow>
     sstep s (s\<lparr>ss := (ss s)\<lparr>s_heap := (s_heap (ss s))[r := c]\<rparr>\<rparr>)"

inductive_cases sstepE: "sstep s t"

definition sinv :: "ssys \<Rightarrow> bool" where
  "sinv s \<longleftrightarrow>
     reg_ok (s_heap (ss s)) (s_subscribers (ss s)) (s_nextSubID (ss s)) (sub_pending s) \<and>
     s_done (ss s) = s_eventsClosed (ss s) \<and> chan_closed (s_events (ss s)) = s_eventsClosed (ss s) \<and>
     \<not> chan_closed (s_activity (ss s)) \<and>
     queue_ok (s_seq (ss s)) (s_events (ss s)) \<and> queues_ok (s_seq (ss s)) (s_heap (ss s))"

lemma sinvD:
  assumes "sinv s"
  shows "reg_ok (s_heap (ss s)) (s_subscribers (ss s)) (s_nextSubID (ss s)) (sub_pending s)"
    and "s_done (ss s) = s_eventsClosed (ss s)" and "chan_closed (s_events (ss s)) = s_eventsClosed (ss s)"
    and "\<not> chan_closed (s_activity (ss s))"
    and "queue_ok (s_seq (ss s)) (s_events (ss s))" and "queues_ok (s_seq (ss s)) (s_heap (ss s))"
  using assms by (auto simp: sinv_def)

lemma sess_emit_total:
  assumes "sinv s"
  shows "\<exists>t. sess_emit kind st tn payload err now (ss s) = Inr t \<and> sinv (s\<lparr>ss := t\<rparr>) \<and> s_seq (ss s) \<le> s_seq t"
proof (cases "s_eventsClosed (ss s)")
  case True
  with assms show ?thesis by (auto simp: sess_emit_def)
next
  case False
  note i = sinvD[OF assms]
  let ?e = "sess_event kind st tn payload err now (s_seq (ss s) + 1)"
  have e: "s_seq (ss s) < ev_Seq ?e" "ev_Seq ?e = s_seq (ss s) + 1" by (simp_all add: sess_event_def)
  have "\<not> chan_closed (s_events (ss s))" using i(3) False by simp
  from try_send_open[OF this, of ?e] obtain c where c: "try_send ?e (s_events (ss s)) = Inr c" by (elim exE)
  from reg_ok_broadcast[OF i(1) i(6) e(1)] obtain h where
    h: "send_all ?e (map snd (s_subscribers (ss s))) (s_heap (ss s)) = Inr h"
    "reg_ok h (s_subscribers (ss s)) (s_nextSubID (ss s)) (sub_pending s)" "queues_ok (ev_Seq ?e) h" by (elim exE conjE)
  have qc: "queue_ok (ev_Seq ?e) c" using queue_ok_send[OF i(5) c e(1)] .
  have cc: "chan_closed c = chan_closed (s_events (ss s))" by (rule try_send_closed[OF c])
  let ?t = "(ss s)\<lparr>s_seq := s_seq (ss s) + 1, s_events := c, s_heap := h\<rparr>"
  have "sess_emit kind st tn payload err now (ss s) = Inr ?t"
    using False c h(1) i(2) by (simp add: sess_emit_def Let_def)
  moreover have "sinv (s\<lparr>ss := ?t\<rparr>)" using i h qc cc e by (simp add: sinv_def)
  ultimately show ?thesis by simp
qed

lemma wait_close_total:
  assumes "sinv s"
  shows "\<exists>subs t. wait_close (ss s) = Inr (subs, t) \<and> sinv \<lparr>ss = t, sub_pending = subs @ sub_pending s\<rparr> \<and>
    s_seq t = s_seq (ss s)"
proof (cases "s_eventsClosed (ss s)")
  case True
  then have "wait_close (ss s) = Inr ([], ss s)" by (simp add: wait_close_def)
  with assms show ?thesis by (cases s) (simp add: sinv_def)
next
  case False
  note i = sinvD[OF assms]
  show ?thesis
    using False i reg_ok_detach[OF i(1)]
    by (simp add: wait_close_def detachSubscribersLocked_def close_chan_def sinv_def)
qed

lemma close_sub_total:
  assumes "sinv s" "r \<in> set (sub_pending s)"
  shows "\<exists>t. close_sub r (ss s) = Inr t \<and> sinv \<lparr>ss = t, sub_pending = remove1 r (sub_pending s)\<rparr> \<and>
    s_seq t = s_seq (ss s)"
proof -
  note i = sinvD[OF assms(1)]
  note o = reg_ok_pend_open[OF i(1) assms(2)]
  from close_at_open[OF o] obtain h where h: "close_at r (s_heap (ss s)) = Inr h" by (elim exE conjE)
  then have "h = (s_heap (ss s))[r := (s_heap (ss s) ! r)\<lparr>chan_closed := True\<rparr>]"
    by (auto simp: close_at_def close_chan_def split: if_splits)
  moreover have "queue_ok (s_seq (ss s)) ((s_heap (ss s) ! r)\<lparr>chan_closed := True\<rparr>)"
    using i(6) o by (simp add: queues_ok_def open_at_def)
  ultimately have "queues_ok (s_seq (ss s)) h" using queues_ok_upd[OF i(6)] by (simp only:)
  with h reg_ok_close[OF i(1) assms(2) h] i show ?thesis by (simp add: close_sub_def sinv_def)
qed

lemma sess_Subscribe_total:
  assumes "sinv s"
  shows "\<exists>res t. sess_Subscribe buffer (ss s) = Inr (res, t) \<and> sinv (s\<lparr>ss := t\<rparr>) \<and> s_seq t = s_seq (ss s)"
proof -
  note i = sinvD[OF assms]
  obtain r h where a: "alloc (if buffer \<le> 0 then 128 else nat buffer) (s_heap (ss s)) = (r, h)" by fastforce
  then have h: "h = s_heap (ss s) @ [make_chan (if buffer \<le> 0 then 128 else nat buffer)]"
    by (simp add: alloc_def split: if_splits)
  show ?thesis
  proof (cases "sess_not_live (ss s)")
    case True
    from reg_ok_dead[OF i(1) a] obtain h2 where h2: "close_at r h = Inr h2"
      "reg_ok h2 (s_subscribers (ss s)) (s_nextSubID (ss s)) (sub_pending s)"
      "set h2 \<subseteq> set (s_heap (ss s)) \<union> {c. chan_buf c = []}" by (elim exE conjE)
    have "queues_ok (s_seq (ss s)) h2" using h2(3) i(6) queue_ok_empty unfolding queues_ok_def by blast
    with h2 True a i show ?thesis by (simp add: sess_Subscribe_def close_sub_def sinv_def)
  next
    case False
    have "queues_ok (s_seq (ss s)) h" using i(6) by (simp add: queues_ok_def h)
    then show ?thesis
      using False a i reg_ok_add[OF i(1) a] by (simp add: sess_Subscribe_def sinv_def Let_def)
  qed
qed

lemma sinv_other:
  assumes "sinv s" "s_heap t = s_heap (ss s)" "s_subscribers t = s_subscribers (ss s)"
    "s_nextSubID t = s_nextSubID (ss s)" "s_done t = s_done (ss s)" "s_eventsClosed t = s_eventsClosed (ss s)"
    "s_events t = s_events (ss s)" "s_seq t = s_seq (ss s)" "\<not> chan_closed (s_activity t)"
  shows "sinv (s\<lparr>ss := t\<rparr>)"
  using assms by (simp add: sinv_def)

lemma notifyActivity_total:
  assumes "sinv s"
  shows "\<exists>t. notifyActivity (ss s) = Inr t \<and> sinv (s\<lparr>ss := t\<rparr>) \<and> s_seq t = s_seq (ss s)"
proof -
  note i = sinvD[OF assms]
  from try_send_open[OF i(4), of "()"] obtain c where c: "try_send () (s_activity (ss s)) = Inr c" by (elim exE)
  have "\<not> chan_closed c" using try_send_closed[OF c] i(4) by simp
  then show ?thesis using c assms by (simp add: notifyActivity_def sinv_other)
qed

lemma recv_closed: "recv c = Some (x, c') \<Longrightarrow> chan_closed c' = chan_closed c"
  by (auto simp: recv_def split: list.splits)

lemma sstep_inv_seq: "sinv s \<Longrightarrow> sstep s t \<Longrightarrow> sinv t \<and> s_seq (ss s) \<le> s_seq (ss t)"
proof (erule sstepE, goal_cases)
  case (1 kind st tn payload err now u)
  then show ?case using sess_emit_total[OF 1(1), of kind st tn payload err now] by auto
next
  case (2 u inp)
  have "sinv (s\<lparr>ss := u\<rparr>) \<and> s_seq u = s_seq (ss s)"
    using 2(1,3) sinvD(4)[OF 2(1)]
    by (auto simp: markStreaming_def markReady_def wait_exit_def sess_Stop_def pty_write_def Let_def
        split: if_splits intro!: sinv_other[OF 2(1)])
  then show ?case using 2(2) by simp
next
  case (3 u)
  then show ?case using notifyActivity_total[OF 3(1)] by auto
next
  case (4 c)
  then show ?case using recv_closed[OF 4(3)] sinvD(4)[OF 4(1)] sinv_other[OF 4(1)] by simp
next
  case (5 inp u)
  then show ?case
    using sinvD(4)[OF 5(1)] by (auto simp: sess_input_begin_def split: if_splits intro!: sinv_other[OF 5(1)])
next
  case (6 inp)
  then show ?case using sinvD(4)[OF 6(1)] sinv_other[OF 6(1)] by simp
next
  case (7 subs u)
  then show ?case using wait_close_total[OF 7(1)] by auto
next
  case (8 r u)
  then show ?case using close_sub_total[OF 8(1,3)] by auto
next
  case (9 buffer res u)
  then show ?case using sess_Subscribe_total[OF 9(1), of buffer] by auto
next
  case (10 k ro u)
  note i = sinvD[OF 10(1)]
  show ?case
    using 10 i reg_ok_take[OF i(1), of k] reg_ok_del_None[OF i(1), of k]
    by (auto simp: sess_unsubscribe_locked_def sinv_def alist_del_def split: option.splits)
next
  case (11 e c)
  then show ?case using recv_closed[OF 11(3)] queue_ok_recv[OF _ 11(3)] by (simp add: sinv_def)
next
  case (12 r e c)
  note i = sinvD[OF 12(1)]
  have "reg_ok ((s_heap (ss s))[r := c]) (s_subscribers (ss s)) (s_nextSubID (ss s)) (sub_pending s)"
    by (intro reg_ok_mono[OF i(1)]) (simp add: open_at_upd recv_closed[OF 12(4)])
  moreover have "queue_ok (s_seq (ss s)) c" using queue_ok_recv[OF _ 12(4)] i(6) 12(3) by (simp add: queues_ok_def)
  then have "queues_ok (s_seq (ss s)) ((s_heap (ss s))[r := c])" by (rule queues_ok_upd[OF i(6)])
  ultimately show ?case using 12(2) i by (simp add: sinv_def)
qed

definition sstart :: "ssys \<Rightarrow> bool" where
  "sstart s \<longleftrightarrow> (\<exists>getwd stat launch now cfg t. Start getwd stat launch now cfg = Inr (Inr t) \<and>
     s = \<lparr>ss = t, sub_pending = []\<rparr>)"

definition sreachable :: "ssys \<Rightarrow> bool" where
  "sreachable = reach sstart sstep"

lemma sinv_fresh: "sinv \<lparr>ss = fresh_session cfg, sub_pending = []\<rparr>"
  by (simp add: sinv_def fresh_session_def queues_ok_def)

lemma sinv_start: "sstart s \<Longrightarrow> sinv s"
proof -
  assume "sstart s"
  then obtain now cfg t where t: "sess_emit EventSessionStarted SessionLive TurnIdle [] [] now (fresh_session cfg) = Inr t"
    and s: "s = \<lparr>ss = t, sub_pending = []\<rparr>"
    by (auto simp: sstart_def Start_def Let_def bind_sum_Inr_iff split: if_splits option.splits)
  show ?thesis
    using sess_emit_total[OF sinv_fresh, of EventSessionStarted SessionLive TurnIdle "[]" "[]" now cfg] t s by auto
qed

interpretation sess: monotone_system sstart sstep sinv "\<lambda>s. s_seq (ss s)"
  by unfold_locales (auto simp: sinv_start dest: sstep_inv_seq)

lemmas sreachable_inv = sess.inv_reach[folded sreachable_def]

lemma sreachable_step: "sreachable s \<Longrightarrow> sstep s t \<Longrightarrow> sreachable t"
  unfolding sreachable_def by (rule reach_step)


subsection \<open>Properties\<close>

text \<open>
  C29. No schedule of the reader, the timers, the waiter and the callers makes a session on
  a pseudo terminal send on a closed channel or close a channel twice.
\<close>

theorem session_never_panics:
  assumes "sreachable s"
  shows "(\<exists>r. sess_emit kind st tn payload err now (ss s) = Inr r) \<and> (\<exists>r. wait_close (ss s) = Inr r) \<and>
    (\<exists>r. notifyActivity (ss s) = Inr r) \<and> (\<exists>r. sess_Subscribe buffer (ss s) = Inr r) \<and>
    (\<forall>c\<in>set (sub_pending s). \<exists>r. close_sub c (ss s) = Inr r)"
proof -
  note i = sreachable_inv[OF assms]
  show ?thesis
    using sess_emit_total[OF i, of kind st tn payload err now] wait_close_total[OF i] notifyActivity_total[OF i]
      sess_Subscribe_total[OF i, of buffer] close_sub_total[OF i]
    by (intro conjI ballI) (elim exE conjE, blast)+
qed

text \<open>
  A late ready or output mark revives a dead session: after the process has exited and
  the waiter has closed the event channels, one more \<open>markReady\<close> (or \<open>markStreaming\<close>) of
  another goroutine makes \<open>Status\<close> report a live session again; a subscriber that comes then
  is registered on an open channel although every later event is dropped.
\<close>

theorem late_mark_revives_exited_session:
  assumes "sinv s" "s_eventsClosed (ss s)" "\<not> s_stopped (ss s)" "t = markReady (ss s) \<or> t = markStreaming (ss s)"
  shows "sstep s (s\<lparr>ss := t\<rparr>) \<and> fst (sess_Status t) = SessionLive \<and>
    (\<exists>r k u. sess_Subscribe buffer t = Inr ((r, Some k), u) \<and> open_at (s_heap u) r \<and>
       (\<forall>kind st tn payload err now. sess_emit kind st tn payload err now u = Inr u))"
proof -
  have 1: "sstep s (s\<lparr>ss := t\<rparr>)" using assms(4) by (intro s_mark) auto
  have 2: "s_sessionStatus t = SessionLive \<and> s_eventsClosed t \<and> \<not> s_stopped t \<and> s_heap t = s_heap (ss s)"
    using assms(2,3,4) by (auto simp: markReady_def markStreaming_def Let_def split: if_splits)
  then have "\<not> sess_not_live t" using assms(4) by (auto simp: sess_not_live_def markReady_def markStreaming_def Let_def session_consts split: if_splits)
  then show ?thesis using 1 2
    by (simp add: sess_Status_def sess_Subscribe_def alloc_def Let_def sess_emit_def open_at_def nth_append)
qed

lemma encode_append: "encode_runes (xs @ [x]) = encode_runes xs @ encode_rune x"
  by (simp add: encode_runes_def)

text \<open>What the keys typed on one line leave in the buffer.\<close>

lemma raw_edit_plain:
  "\<forall>r\<in>set rs. 32 \<le> r \<and> r \<noteq> 127 \<Longrightarrow> foldl raw_step (raw, subs) rs = (raw @ encode_runes rs, subs)"
proof (induction rs arbitrary: raw)
  case (Cons r rs)
  have "encode_runes (r # rs) = encode_rune r @ encode_runes rs" by (simp add: encode_runes_def)
  with Cons show ?case by simp
qed (simp add: encode_runes_def)

text \<open>
  The line editor submits what was typed: printable keys followed by a carriage return
  submit their trimmed text, unless it is blank, and leave an empty line behind.
\<close>

theorem raw_line_submitted:
  assumes "\<forall>r\<in>set rs. valid_rune r \<and> 32 \<le> r \<and> r \<noteq> 127"
  shows "raw_edit [] (encode_runes (rs @ [13])) =
     ([], if TrimSpace (encode_runes rs) = [] then [] else [TrimSpace (encode_runes rs)])"
proof -
  have "runes (encode_runes (rs @ [13])) = rs @ [13]"
    using assms by (intro runes_encode_runes) (auto simp: valid_rune_def)
  moreover have "foldl raw_step ([], []) rs = (encode_runes rs, [])"
    using raw_edit_plain[of rs "[]" "[]"] assms by simp
  ultimately show ?thesis by (simp add: raw_edit_def Let_def)
qed

text \<open>
  A backspace removes one byte, not one character: after typing a character of two
  bytes and a backspace the line still holds the first byte, which is not valid UTF-8, and
  the carriage return submits it.
\<close>

theorem backspace_splits_character:
  assumes "valid_rune r" "128 \<le> r" "r < 2048"
  shows "\<exists>b. raw_edit [] (encode_runes [r, 127]) = ([b], []) \<and> [b] \<noteq> [] \<and> runes [b] = [rune_error]"
proof -
  have rr: "runes (encode_runes [r, 127]) = [r, 127]"
    using assms by (intro runes_encode_runes) (auto simp: valid_rune_def)
  have e: "encode_rune r = [char_of (192 + r div 64), char_of (128 + r mod 64)]"
    using assms by (simp add: encode_rune_def encode_bytes_def)
  have d: "2 \<le> r div 64" "r div 64 \<le> 31" using assms(2,3) by linarith+
  let ?b = "char_of (192 + r div 64) :: char"
  have b: "(of_char ?b :: nat) = 192 + r div 64" using d by simp
  have "runes [?b] = [rune_error]"
    using b d by (simp add: runes_def rune_segs.simps(2) bytes_of_def decode_rune.simps)
  moreover have "raw_edit [] (encode_runes [r, 127]) = ([?b], [])"
    using assms(2) by (simp add: raw_edit_def rr e)
  ultimately show ?thesis by blast
qed

definition exit_event :: "gostring option \<Rightarrow> Session \<Rightarrow> time \<Rightarrow> Event" where
  "exit_event err s now =
     (case err of
        Some e \<Rightarrow> if s_stopped s then sess_event EventSessionExited SessionExited TurnIdle [] [] now (s_seq s + 1)
                  else sess_event EventError SessionError TurnIdle [] e now (s_seq s + 1)
      | None \<Rightarrow> sess_event EventSessionExited SessionExited TurnIdle [] [] now (s_seq s + 1))"

lemma wait_emit_alt:
  "wait_emit err stopped now s =
     (if err = None \<or> stopped then sess_emit EventSessionExited SessionExited TurnIdle [] [] now s
      else sess_emit EventError SessionError TurnIdle [] (the err) now s)"
  by (auto simp: wait_emit_def split: option.splits)

lemma close_subs_total:
  assumes "sinv s" "sub_pending s = subs"
  shows "\<exists>t. fold_sum close_sub subs (ss s) = Inr t \<and> s_events t = s_events (ss s) \<and> s_done t = s_done (ss s) \<and>
    s_subscribers t = s_subscribers (ss s)"
  using assms
proof (induction subs arbitrary: s)
  case Nil
  then show ?case by simp
next
  case (Cons r subs)
  from close_sub_total[OF Cons.prems(1), of r] Cons.prems(2) obtain u where u: "close_sub r (ss s) = Inr u"
    "sinv \<lparr>ss = u, sub_pending = subs\<rparr>" by auto
  from Cons.IH[OF u(2)] u(1) show ?case by (auto simp: close_sub_def bind_sum_Inr_iff)
qed

text \<open>
  Process exit is reported once and exactly: when the process of a session that nobody
  stopped ends with an error, \<open>waitLoop\<close> succeeds and the last event on the main channel (if
  it had room) is an \<open>error\<close> event with that text; a clean exit or a stopped session gives
  \<open>session_exited\<close>; either way \<open>done\<close> and \<open>events\<close> are closed and no subscriber is left.
\<close>

theorem exit_reported:
  assumes "sinv s" "sub_pending s = []" "\<not> s_eventsClosed (ss s)"
    "length (chan_buf (s_events (ss s))) < chan_cap (s_events (ss s))"
  shows "\<exists>t. waitLoop err now (ss s) = Inr t \<and> last (chan_buf (s_events t)) = exit_event err (ss s) now \<and>
    chan_closed (s_events t) \<and> s_done t \<and> s_subscribers t = []"
proof -
  let ?u = "snd (wait_exit (ss s))"
  have iu: "sinv (s\<lparr>ss := ?u\<rparr>)"
    using sinvD(4)[OF assms(1)] by (intro sinv_other[OF assms(1)]) (simp_all add: wait_exit_def)
  have "\<exists>v. wait_emit err (s_stopped (ss s)) now ?u = Inr v \<and> sinv (s\<lparr>ss := v\<rparr>) \<and>
      last (chan_buf (s_events v)) = exit_event err (ss s) now \<and> \<not> s_eventsClosed v"
  proof -
    obtain kind st etxt where k: "wait_emit err (s_stopped (ss s)) now ?u = sess_emit kind st TurnIdle [] etxt now ?u"
      and e: "exit_event err (ss s) now = sess_event kind st TurnIdle [] etxt now (s_seq ?u + 1)"
      by (cases err; cases "s_stopped (ss s)") (auto simp: wait_emit_alt exit_event_def wait_exit_def)
    obtain v where v: "sess_emit kind st TurnIdle [] etxt now ?u = Inr v" "sinv (s\<lparr>ss := v\<rparr>)"
      using sess_emit_total[OF iu, of kind st TurnIdle "[]" etxt now] by auto
    have o: "\<not> s_eventsClosed ?u" "\<not> s_done ?u" "\<not> chan_closed (s_events ?u)" "s_events ?u = s_events (ss s)"
      using assms(3) sinvD(2,3)[OF assms(1)] by (simp_all add: wait_exit_def)
    have "last (chan_buf (s_events v)) = exit_event err (ss s) now \<and> \<not> s_eventsClosed v"
      using v(1) o assms(4) e
      by (auto simp: sess_emit_def Let_def bind_sum_Inr_iff try_send_def)
    with v k show ?thesis by auto
  qed
  then obtain v where v: "wait_emit err (s_stopped (ss s)) now ?u = Inr v" "sinv (s\<lparr>ss := v\<rparr>)"
      "last (chan_buf (s_events v)) = exit_event err (ss s) now" "\<not> s_eventsClosed v" by blast
  obtain subs w where w: "wait_close v = Inr (subs, w)" "sinv \<lparr>ss = w, sub_pending = subs\<rparr>"
    using wait_close_total[OF v(2)] assms(2) by auto
  have c: "chan_buf (s_events w) = chan_buf (s_events v)" "chan_closed (s_events w)" "s_done w" "s_subscribers w = []"
    using w(1) v(4)
    by (auto simp: wait_close_def detachSubscribersLocked_def close_chan_def bind_sum_Inr_iff split: if_splits)
  obtain t where t: "fold_sum close_sub subs w = Inr t" "s_events t = s_events w" "s_done t = s_done w"
    "s_subscribers t = s_subscribers w" using close_subs_total[OF w(2)] by auto
  have "waitLoop err now (ss s) = Inr t"
    using v(1) w(1) t(1) by (simp add: waitLoop_def wait_exit_def)
  with t c v(3) show ?thesis by auto
qed

subsection \<open>Witnesses\<close>

definition ex_cfg :: LaunchConfig where
  "ex_cfg = \<lparr>lc_Command = ''claude'', lc_Args = [], lc_Cwd = ''/w'', lc_Env = [], lc_Cols = 80, lc_Rows = 24,
     lc_ReadyDelay = 1, lc_PromptDelay = 1, lc_StartupTimeout = 1\<rparr>"

definition ex_started :: Session where
  "ex_started = (fresh_session ex_cfg)\<lparr>s_seq := 1, s_events := \<lparr>chan_cap = 128,
     chan_buf = [sess_event EventSessionStarted SessionLive TurnIdle [] [] 3 1], chan_closed = False\<rparr>\<rparr>"

lemma ex_start: "Start [] (\<lambda>p. Some True) (\<lambda>c. None) 3 ex_cfg = Inr (Inr ex_started)"
  by (simp add: Start_def normalizeConfig_def ex_cfg_def Let_def sess_emit_def fresh_session_def try_send_def
      make_chan_def send_all_def ex_started_def)

definition ex_ssys :: "Session \<Rightarrow> ssys" where
  "ex_ssys t = \<lparr>ss = t, sub_pending = []\<rparr>"

lemma ex_started_reachable: "sreachable (ex_ssys ex_started)"
  unfolding sreachable_def
  by (rule reach_init) (auto simp: sstart_def ex_ssys_def intro!: exI ex_start)

lemmas ex_started_inv = sreachable_inv[OF ex_started_reachable]

definition ex_exited :: Session where
  "ex_exited = ex_started\<lparr>s_eventsClosed := True, s_done := True,
     s_events := (s_events ex_started)\<lparr>chan_closed := True\<rparr>\<rparr>"

lemma ex_exited_inv: "sinv (ex_ssys ex_exited)"
proof -
  have "wait_close ex_started = Inr ([], ex_exited)"
    by (simp add: wait_close_def ex_started_def ex_exited_def fresh_session_def detachSubscribersLocked_def close_chan_def)
  then have "sstep (ex_ssys ex_started) (ex_ssys ex_exited)"
    using s_close[of "ex_ssys ex_started" "[]" ex_exited] by (simp add: ex_ssys_def)
  then show ?thesis using sstep_inv_seq[OF ex_started_inv] by simp
qed

theorem session_never_panics_witness:
  "(\<exists>r. sess_emit EventTextDelta SessionLive TurnStreaming ''x'' [] 4 ex_started = Inr r) \<and> (\<exists>r. wait_close ex_started = Inr r)"
  using session_never_panics[OF ex_started_reachable, where kind = EventTextDelta and st = SessionLive and
      tn = TurnStreaming and payload = "''x''" and err = "[]" and now = 4] by (simp add: ex_ssys_def)

theorem late_mark_revives_exited_session_witness:
  "fst (sess_Status (markReady ex_exited)) = SessionLive \<and>
   (\<exists>r k u. sess_Subscribe 1 (markReady ex_exited) = Inr ((r, Some k), u) \<and> open_at (s_heap u) r)"
  using late_mark_revives_exited_session[OF ex_exited_inv, of "markReady ex_exited" 1]
  by (fastforce simp: ex_ssys_def ex_exited_def ex_started_def fresh_session_def)

theorem raw_line_submitted_witness:
  "raw_edit [] (encode_runes ([32, 104, 233] @ [13])) = ([], [TrimSpace (encode_runes [32, 104, 233])]) \<or>
   TrimSpace (encode_runes [32, 104, 233]) = []"
  using raw_line_submitted[of "[32, 104, 233]"] by (auto simp: valid_rune_def)

theorem backspace_splits_character_witness:
  "\<exists>b. raw_edit [] (encode_runes [233, 127]) = ([b], []) \<and> runes [b] = [rune_error]"
  using backspace_splits_character[of 233] by (auto simp: valid_rune_def)

theorem exit_reported_witness:
  "\<exists>t. waitLoop (Some ''exit status 1'') 9 ex_started = Inr t \<and>
     last (chan_buf (s_events t)) = sess_event EventError SessionError TurnIdle [] ''exit status 1'' 9 2"
  using exit_reported[OF ex_started_inv, of "Some ''exit status 1''" 9]
  by (auto simp: ex_ssys_def) (auto simp: ex_started_def fresh_session_def exit_event_def)

end
