(* ===== verification/SessionHandle.thy ===== *)
theory SessionHandle
  imports ExternalProps TermSession
begin

section \<open>The session interface\<close>

text \<open>
  The interface \<open>SessionHandle\<close> of \<open>daemon/internal/terminal/manager.go\<close> as a locale, and
  the proof that both kinds of session implement it. What the manager relies on in a \<open>SessionHandle\<close>: no method panics in a good state, all
  keep the state good, and a stopped session refuses input and does not change.
\<close>

locale session_handle =
  fixes ok :: "'s \<Rightarrow> bool"
    and dead :: "'s \<Rightarrow> bool"
    and send_input :: "gostring \<Rightarrow> time \<Rightarrow> 's \<Rightarrow> panic + (term_error option \<times> 's)"
    and send_raw :: "gostring \<Rightarrow> time \<Rightarrow> 's \<Rightarrow> panic + (term_error option \<times> 's)"
    and stop :: "time \<Rightarrow> 's \<Rightarrow> panic + 's"
  assumes input_total: "ok s \<Longrightarrow> \<exists>e t. send_input inp now s = Inr (e, t) \<and> ok t"
    and raw_total: "ok s \<Longrightarrow> \<exists>e t. send_raw inp now s = Inr (e, t) \<and> ok t"
    and stop_total: "ok s \<Longrightarrow> \<exists>t. stop now s = Inr t \<and> ok t \<and> dead t"
    and dead_input: "dead s \<Longrightarrow> \<exists>e. send_input inp now s = Inr (Some e, s)"
    and dead_raw: "dead s \<Longrightarrow> inp \<noteq> [] \<Longrightarrow> send_raw inp now s = Inr (Some ErrNotLive, s)"
begin

text \<open>Any sequence of inputs to a session: \<open>(raw, text, time)\<close>.\<close>

fun run_inputs :: "(bool \<times> gostring \<times> time) list \<Rightarrow> 's \<Rightarrow> panic + (term_error option list \<times> 's)" where
  "run_inputs [] s = Inr ([], s)"
| "run_inputs ((raw, inp, now) # cs) s =
     bind_sum (if raw then send_raw inp now s else send_input inp now s) (\<lambda>(e, t).
     bind_sum (run_inputs cs t) (\<lambda>(es, u). Inr (e # es, u)))"

lemma run_inputs_total: "ok s \<Longrightarrow> \<exists>es t. run_inputs cs s = Inr (es, t) \<and> ok t \<and> length es = length cs"
proof (induction cs arbitrary: s)
  case (Cons c cs)
  obtain raw inp now where c: "c = (raw, inp, now)" by (metis prod_cases3)
  obtain e t where t: "(if raw then send_raw inp now s else send_input inp now s) = Inr (e, t)" "ok t"
    using input_total[OF Cons.prems, of inp now] raw_total[OF Cons.prems, of inp now] by (cases raw) auto
  from Cons.IH[OF t(2)] t(1) show ?case by (auto simp: c)
qed simp

lemma run_inputs_dead:
  assumes "dead s" "\<forall>(raw, inp, now)\<in>set cs. inp \<noteq> []"
  shows "\<exists>es. run_inputs cs s = Inr (es, s) \<and> None \<notin> set es"
  using assms
proof (induction cs)
  case (Cons c cs)
  obtain raw inp now where c: "c = (raw, inp, now)" by (metis prod_cases3)
  then have "inp \<noteq> []" using Cons.prems(2) by auto
  then obtain e where e: "(if raw then send_raw inp now s else send_input inp now s) = Inr (Some e, s)"
    using dead_input[OF Cons.prems(1), of inp now] dead_raw[OF Cons.prems(1), of inp now] by (cases raw) auto
  obtain es where es: "run_inputs cs s = Inr (es, s)" "None \<notin> set es" using Cons.IH Cons.prems by auto
  from e es show ?case by (simp add: c)
qed simp

lemma stop_then_refuse:
  assumes "ok s" "\<forall>(raw, inp, now)\<in>set cs. inp \<noteq> []"
  shows "\<exists>t es. stop now s = Inr t \<and> run_inputs cs t = Inr (es, t) \<and> None \<notin> set es"
  using stop_total[OF assms(1), of now] run_inputs_dead[OF _ assms(2)] by blast

end

subsection \<open>The two kinds of session implement the interface\<close>

definition sess_ok :: "Session \<Rightarrow> bool" where
  "sess_ok s \<longleftrightarrow> sinv \<lparr>ss = s, sub_pending = []\<rparr>"

definition sess_stop :: "time \<Rightarrow> Session \<Rightarrow> panic + Session" where
  "sess_stop now s = Inr (sess_Stop s)"

lemma sess_okI:
  assumes "sess_ok s" "s_heap t = s_heap s" "s_subscribers t = s_subscribers s" "s_nextSubID t = s_nextSubID s"
    "s_done t = s_done s" "s_eventsClosed t = s_eventsClosed s" "s_events t = s_events s" "s_seq t = s_seq s"
    "s_activity t = s_activity s"
  shows "sess_ok t"
  using assms by (simp add: sess_ok_def sinv_def)

lemma sess_ok_emit: "sess_ok s \<Longrightarrow> \<exists>t. sess_emit kind st tn payload err now s = Inr t \<and> sess_ok t"
  using sess_emit_total[of "\<lparr>ss = s, sub_pending = []\<rparr>" kind st tn payload err now] by (auto simp: sess_ok_def)

lemma sess_ok_emits:
  "sess_ok s \<Longrightarrow> \<exists>t. fold_sum (\<lambda>l. sess_emit kind st tn l err now) ls s = Inr t \<and> sess_ok t"
proof (induction ls arbitrary: s)
  case (Cons l ls)
  obtain u where "sess_emit kind st tn l err now s = Inr u" "sess_ok u" using sess_ok_emit[OF Cons.prems] by blast
  with Cons.IH[of u] show ?case by simp
qed simp

lemma sess_ok_write: "sess_ok s \<Longrightarrow> sess_ok (pty_write x s)"
  by (erule sess_okI) (simp_all add: pty_write_def)

lemma sess_input_total: "sess_ok s \<Longrightarrow> \<exists>e t. sess_SendInput inp now s = Inr (e, t) \<and> sess_ok t"
proof (cases "sess_input_begin (TrimRight inp [CHR 0x0D, CHR 0x0A]) s")
  case (Inr u)
  assume s: "sess_ok s"
  have u: "sess_ok u" using Inr by (intro sess_okI[OF s]) (auto simp: sess_input_begin_def split: if_splits)
  obtain t where "sess_emit EventUserInput SessionLive TurnSubmitted (TrimRight inp [CHR 0x0D, CHR 0x0A]) [] now u = Inr t"
    "sess_ok t" using sess_ok_emit[OF u] by blast
  with Inr show ?thesis by (auto simp: sess_SendInput_def Let_def intro: sess_ok_write)
qed (auto simp: sess_SendInput_def)

lemma sess_raw_total: "sess_ok s \<Longrightarrow> \<exists>e t. sess_SendRaw inp now s = Inr (e, t) \<and> sess_ok t"
proof -
  assume s: "sess_ok s"
  obtain raw subs where e: "raw_edit (s_rawInput s) inp = (raw, subs)" by fastforce
  let ?u = "pty_write inp (s\<lparr>s_turnStatus := TurnSubmitted, s_rawInput := raw\<rparr>)"
  have "sess_ok ?u" by (intro sess_ok_write sess_okI[OF s]) simp_all
  from sess_ok_emits[OF this, of EventUserInput SessionLive TurnSubmitted "[]" now subs] s e show ?thesis
    by (auto simp: sess_SendRaw_def)
qed

interpretation pty: session_handle sess_ok sess_not_live sess_SendInput sess_SendRaw sess_stop
proof (unfold_locales, goal_cases)
  case (1 s inp now) then show ?case by (rule sess_input_total)
next
  case (2 s inp now) then show ?case by (rule sess_raw_total)
next
  case (3 s now)
  then have "sess_ok (sess_Stop s)" by (rule sess_okI) (simp_all add: sess_Stop_def)
  then show ?case by (auto simp: sess_stop_def sess_not_live_def sess_Stop_def)
next
  case (4 s inp now) then show ?case by (auto simp: sess_SendInput_def sess_input_begin_def Let_def)
next
  case (5 s inp now) then show ?case by (simp add: sess_SendRaw_def)
qed

definition ext_ok :: "ExternalSession \<Rightarrow> bool" where
  "ext_ok s \<longleftrightarrow> xinv \<lparr>xs = s, ev_pending = [], in_pending = []\<rparr>"

lemma ext_ok_run: "ext_ok s \<Longrightarrow> xstep\<^sup>*\<^sup>* \<lparr>xs = s, ev_pending = [], in_pending = []\<rparr> \<lparr>xs = t, ev_pending = [], in_pending = []\<rparr> \<Longrightarrow> ext_ok t"
  unfolding ext_ok_def by (rule xrun_inv)

lemma ext_ok_emit:
  "ext_ok s \<Longrightarrow> \<exists>t. Emit kind st tn payload err now s = Inr t \<and> ext_ok t \<and> (is_terminal_kind kind \<longrightarrow> x_eventsClosed t)"
  using Emit_run[of "\<lparr>xs = s, ev_pending = [], in_pending = []\<rparr>" kind st tn payload err now] ext_ok_run[of s]
  by (auto simp: ext_ok_def)

lemma ext_ok_same: "ext_ok s \<Longrightarrow> same_channels s t \<Longrightarrow> ext_ok t"
  using same_channels_xinv[of "\<lparr>xs = s, ev_pending = [], in_pending = []\<rparr>" t] by (simp add: ext_ok_def)

lemma ext_ok_stop: "ext_ok s \<Longrightarrow> \<exists>t. ext_Stop now s = Inr t \<and> ext_ok t \<and> x_eventsClosed t"
proof -
  assume s: "ext_ok s"
  from ext_ok_emit[OF s, of EventSessionExited SessionExited TurnIdle "[]" "[]" now] obtain u where
    u: "Emit EventSessionExited SessionExited TurnIdle [] [] now s = Inr u" "ext_ok u" by blast
  from ext_close_run[of "\<lparr>xs = u, ev_pending = [], in_pending = []\<rparr>"] u(2) ext_ok_run[OF u(2)] u(1) show ?thesis
    by (auto simp: ext_Stop_def ext_ok_def)
qed

lemma ext_ok_closed: "ext_ok s \<Longrightarrow> x_eventsClosed s = x_stopped s \<and> x_done s = x_stopped s"
  by (auto simp: ext_ok_def xinv_def closed_ok_def)

lemma ext_input_total: "ext_ok s \<Longrightarrow> \<exists>e t. ext_SendInput inp now s = Inr (e, t) \<and> ext_ok t"
proof (cases "send_input_begin (trimmed_input inp) now s")
  case (Inr u)
  assume s: "ext_ok s"
  have u: "ext_ok u" using ext_ok_same[OF s same_channels_begin[OF Inr]] .
  obtain v where v: "(if isSlashCommandInput (trimmed_input inp) then Inr u
      else Emit EventUserInput SessionLive TurnSubmitted (trimmed_input inp) [] now u) = Inr v" "ext_ok v"
    using u ext_ok_emit[OF u, of EventUserInput SessionLive TurnSubmitted "trimmed_input inp" "[]" now]
    by (cases "isSlashCommandInput (trimmed_input inp)") auto
  obtain t where "deliver_input (trimmed_input inp) v = Inr t" "ext_ok t"
    using deliver_input_total[of "\<lparr>xs = v, ev_pending = [], in_pending = []\<rparr>" "trimmed_input inp"] v(2)
    by (auto simp: ext_ok_def)
  with Inr v(1) show ?thesis by (auto simp: ext_SendInput_def Let_def)
qed (auto simp: ext_SendInput_def)

interpretation exth: session_handle ext_ok not_live ext_SendInput ext_SendRaw ext_Stop
proof (unfold_locales, goal_cases)
  case (1 s inp now) then show ?case by (rule ext_input_total)
next
  case (2 s inp now) then show ?case
    using ext_SendRaw_total[of "\<lparr>xs = s, ev_pending = [], in_pending = []\<rparr>" inp now] by (auto simp: ext_ok_def)
next
  case (3 s now) then show ?case using ext_ok_stop[OF 3, of now] ext_ok_closed by (auto simp: not_live_def)
next
  case (4 s inp now) then show ?case by (auto simp: ext_SendInput_def send_input_begin_def Let_def)
next
  case (5 s inp now) then show ?case by (simp add: ext_SendRaw_def)
qed

end
