(* ===== verification/Manager.thy ===== *)
theory Manager
  imports SessionHandle
begin

section \<open>The terminal manager\<close>

text \<open>
  \<open>daemon/internal/terminal/manager.go\<close>: the table of sessions by terminal id and the
  index from Claude session ids, current and former, to external sessions. Sessions are Go
  pointers, so the manager's state holds two stores and a handle is an index into one of
  them. \<open>Manager.mu\<close> makes every definition below that changes \<open>sessions\<close> or \<open>sidIndex\<close>
  atomic; the rebind listener and the clean-up goroutines run on their own.
\<close>

subsection \<open>State and operations\<close>

datatype handle = HSession nat | HExternal nat

record managedSession =
  ms_session :: handle
  ms_external :: "nat option"
  ms_createdAt :: time

record Manager =
  m_sessions :: "(gostring \<times> managedSession) list"
  m_sidIndex :: "(gostring \<times> nat) list"
  m_ptys :: "Session list"
  m_exts :: "ExternalSession list"

record Summary =
  sum_ID :: gostring
  sum_SessionStatus :: SessionStatus
  sum_TurnStatus :: TurnStatus
  sum_CreatedAt :: time
  sum_ClaudeSessionID :: gostring
  sum_Cwd :: gostring
  sum_Driver :: gostring
  sum_LastActivity :: time

definition NewManager :: Manager where
  "NewManager = \<lparr>m_sessions = [], m_sidIndex = [], m_ptys = [], m_exts = []\<rparr>"

text \<open>
  \<open>CreateWithID\<close>, given what \<open>Start\<close> returned: the table entry is written without a check
  for an earlier session of the same id. The goroutine it starts runs \<open>forget_session\<close> when
  the process is gone.
\<close>

definition CreateWithID ::
  "gostring \<Rightarrow> start_error + Session \<Rightarrow> time \<Rightarrow> Manager \<Rightarrow> (start_error + (gostring \<times> nat)) \<times> Manager" where
  "CreateWithID tid started now m =
     (case started of
        Inl e \<Rightarrow> (Inl e, m)
      | Inr s \<Rightarrow> let r = length (m_ptys m) in
          (Inr (tid, r),
           m\<lparr>m_ptys := m_ptys m @ [s],
             m_sessions := alist_put tid \<lparr>ms_session = HSession r, ms_external = None, ms_createdAt = now\<rparr> (m_sessions m)\<rparr>))"

definition forget_session :: "gostring \<Rightarrow> Manager \<Rightarrow> Manager" where
  "forget_session tid m = m\<lparr>m_sessions := alist_del tid (m_sessions m)\<rparr>"

text \<open>\<open>rnd\<close> is the text of the random bytes; \<open>now1\<close> and \<open>now2\<close> are two readings of the clock.\<close>

definition RegisterExternal ::
  "gostring \<Rightarrow> gostring \<Rightarrow> time \<Rightarrow> time \<Rightarrow> Manager \<Rightarrow> panic + ((term_error + (gostring \<times> nat)) \<times> Manager)" where
  "RegisterExternal id0 rnd now1 now2 m =
     (let tid = (if id0 = [] then ''ts_'' @ rnd else id0) in
      bind_sum (NewExternalSession now1) (\<lambda>session.
        if alist_get (m_sessions m) tid \<noteq> None then Inr (Inl ErrSessionExists, m)
        else let r = length (m_exts m) in
          Inr (Inr (tid, r),
             m\<lparr>m_exts := m_exts m @ [SetRebindListener session],
               m_sessions := alist_put tid \<lparr>ms_session = HExternal r, ms_external = Some r, ms_createdAt = now2\<rparr> (m_sessions m)\<rparr>)))"

text \<open>The listener \<open>RegisterExternal\<close> installs, called with the former and the new session id.\<close>

definition rebind_listener :: "gostring \<Rightarrow> gostring \<Rightarrow> nat \<Rightarrow> Manager \<Rightarrow> Manager" where
  "rebind_listener prev current r m =
     (let i1 = (if current \<noteq> [] then alist_put current r (m_sidIndex m) else m_sidIndex m);
          i2 = (if prev \<noteq> [] then alist_put prev r i1 else i1)
      in m\<lparr>m_sidIndex := i2\<rparr>)"

text \<open>The goroutine of \<open>RegisterExternal\<close>, once \<open>Wait\<close> has returned.\<close>

definition external_cleanup :: "gostring \<Rightarrow> nat \<Rightarrow> Manager \<Rightarrow> Manager" where
  "external_cleanup tid r m =
     m\<lparr>m_sessions := alist_del tid (m_sessions m), m_sidIndex := alist_purge (\<lambda>e. e = r) (m_sidIndex m)\<rparr>"

definition Get :: "gostring \<Rightarrow> Manager \<Rightarrow> handle option" where
  "Get tid m = map_option ms_session (alist_get (m_sessions m) tid)"

definition GetExternal :: "gostring \<Rightarrow> Manager \<Rightarrow> nat option" where
  "GetExternal tid m = (case alist_get (m_sessions m) tid of Some ms \<Rightarrow> ms_external ms | None \<Rightarrow> None)"

definition live_status :: "ExternalSession \<Rightarrow> bool" where
  "live_status s \<longleftrightarrow> x_sessionStatus s = SessionLive \<or> x_sessionStatus s = SessionStarting"

definition FindExternalBySessionID :: "gostring \<Rightarrow> Manager \<Rightarrow> nat option" where
  "FindExternalBySessionID sid m =
     (if sid = [] then None
      else case alist_get (m_sidIndex m) sid of
             None \<Rightarrow> None
           | Some r \<Rightarrow>
               if x_claudeSessionID (m_exts m ! r) \<noteq> sid then None
               else if live_status (m_exts m ! r) then Some r else None)"

record InjectLookup =
  il_Ext :: "nat option"
  il_Drifted :: bool
  il_CurrentSID :: gostring

definition no_lookup :: InjectLookup where
  "no_lookup = \<lparr>il_Ext = None, il_Drifted = False, il_CurrentSID = []\<rparr>"

definition LookupExternalForInject :: "gostring \<Rightarrow> Manager \<Rightarrow> InjectLookup" where
  "LookupExternalForInject sid m =
     (if sid = [] then no_lookup
      else case alist_get (m_sidIndex m) sid of
             None \<Rightarrow> no_lookup
           | Some r \<Rightarrow>
               if \<not> live_status (m_exts m ! r) then no_lookup
               else let current = x_claudeSessionID (m_exts m ! r) in
                 if current = sid then \<lparr>il_Ext = Some r, il_Drifted = False, il_CurrentSID = current\<rparr>
                 else \<lparr>il_Ext = Some r, il_Drifted = True, il_CurrentSID = current\<rparr>)"

definition handle_status :: "handle \<Rightarrow> Manager \<Rightarrow> SessionStatus \<times> TurnStatus" where
  "handle_status h m = (case h of HSession r \<Rightarrow> sess_Status (m_ptys m ! r) | HExternal r \<Rightarrow> ext_Status (m_exts m ! r))"

definition summary_of :: "gostring \<Rightarrow> managedSession \<Rightarrow> Manager \<Rightarrow> Summary" where
  "summary_of tid ms m =
     (let (ss, ts) = handle_status (ms_session ms) m;
          base = \<lparr>sum_ID = tid, sum_SessionStatus = ss, sum_TurnStatus = ts, sum_CreatedAt = ms_createdAt ms,
                  sum_ClaudeSessionID = [], sum_Cwd = [], sum_Driver = [], sum_LastActivity = 0\<rparr>
      in case ms_external ms of
           None \<Rightarrow> base
         | Some r \<Rightarrow> let e = m_exts m ! r in
             base\<lparr>sum_ClaudeSessionID := x_claudeSessionID e, sum_Cwd := x_cwd e, sum_Driver := x_driver e,
                  sum_LastActivity := x_lastActivity e\<rparr>)"

definition ListSessions :: "Manager \<Rightarrow> Summary list" where
  "ListSessions m = map (\<lambda>(tid, ms). summary_of tid ms m) (m_sessions m)"

subsection \<open>Reaping stale external sessions\<close>

definition is_stale :: "duration \<Rightarrow> time \<Rightarrow> ExternalSession \<Rightarrow> bool" where
  "is_stale maxIdle now e \<longleftrightarrow>
     \<not> (x_driver e \<noteq> [] \<and> x_driver e \<noteq> ''pty'') \<and> live_status e \<and>
     \<not> (x_lastActivity e = 0 \<or> now - x_lastActivity e \<le> maxIdle)"

fun reap_victims :: "duration \<Rightarrow> time \<Rightarrow> ExternalSession list \<Rightarrow> (gostring \<times> managedSession) list \<Rightarrow> (gostring \<times> time \<times> nat) list" where
  "reap_victims maxIdle now es [] = []"
| "reap_victims maxIdle now es ((tid, ms) # rest) =
     (case ms_external ms of
        None \<Rightarrow> reap_victims maxIdle now es rest
      | Some r \<Rightarrow>
          if is_stale maxIdle now (es ! r) then (tid, ms_createdAt ms, r) # reap_victims maxIdle now es rest
          else reap_victims maxIdle now es rest)"

text \<open>The locked part of the second loop: the entry goes only if it still is the victim's.\<close>

definition reap_forget :: "gostring \<Rightarrow> nat \<Rightarrow> Manager \<Rightarrow> Manager" where
  "reap_forget tid r m =
     m\<lparr>m_sessions := (case alist_get (m_sessions m) tid of
           Some ms \<Rightarrow> if ms_external ms = Some r then alist_del tid (m_sessions m) else m_sessions m
         | None \<Rightarrow> m_sessions m),
       m_sidIndex := alist_purge (\<lambda>e. e = r) (m_sidIndex m)\<rparr>"

definition ext_summary :: "gostring \<Rightarrow> time \<Rightarrow> ExternalSession \<Rightarrow> Summary" where
  "ext_summary tid createdAt e =
     (let (ss, ts) = ext_Status e in
      \<lparr>sum_ID = tid, sum_SessionStatus = ss, sum_TurnStatus = ts, sum_CreatedAt = createdAt,
       sum_ClaudeSessionID = x_claudeSessionID e, sum_Cwd = x_cwd e, sum_Driver = x_driver e,
       sum_LastActivity = x_lastActivity e\<rparr>)"

definition reap_one :: "time \<Rightarrow> gostring \<times> time \<times> nat \<Rightarrow> Summary list \<times> Manager \<Rightarrow> panic + (Summary list \<times> Manager)" where
  "reap_one now v acc =
     (case (v, acc) of ((tid, createdAt, r), (out, m)) \<Rightarrow>
       bind_sum (ext_Stop now (m_exts m ! r)) (\<lambda>e.
       Inr (out @ [ext_summary tid createdAt (m_exts m ! r)],
            reap_forget tid r (m\<lparr>m_exts := (m_exts m)[r := e]\<rparr>))))"

definition ReapStalePTYExternal :: "duration \<Rightarrow> time \<Rightarrow> time \<Rightarrow> Manager \<Rightarrow> panic + (Summary list \<times> Manager)" where
  "ReapStalePTYExternal maxIdle now clock m =
     (if maxIdle \<le> 0 then Inr ([], m)
      else fold_sum (reap_one clock) (reap_victims maxIdle now (m_exts m) (m_sessions m)) ([], m))"

subsection \<open>Calls by terminal id\<close>

text \<open>The state after a method of a session returned, stored where the handle points.\<close>

definition on_handle ::
  "handle \<Rightarrow> (Session \<Rightarrow> panic + ('a \<times> Session)) \<Rightarrow> (ExternalSession \<Rightarrow> panic + ('a \<times> ExternalSession)) \<Rightarrow>
   Manager \<Rightarrow> panic + ('a \<times> Manager)" where
  "on_handle h f g m =
     (case h of
        HSession r \<Rightarrow> bind_sum (f (m_ptys m ! r)) (\<lambda>(x, s). Inr (x, m\<lparr>m_ptys := (m_ptys m)[r := s]\<rparr>))
      | HExternal r \<Rightarrow> bind_sum (g (m_exts m ! r)) (\<lambda>(x, s). Inr (x, m\<lparr>m_exts := (m_exts m)[r := s]\<rparr>)))"

definition mgr_SendInput :: "gostring \<Rightarrow> gostring \<Rightarrow> time \<Rightarrow> Manager \<Rightarrow> panic + (term_error option \<times> Manager)" where
  "mgr_SendInput tid inp now m =
     (case Get tid m of
        None \<Rightarrow> Inr (Some ErrSessionNotFound, m)
      | Some h \<Rightarrow> on_handle h (sess_SendInput inp now) (ext_SendInput inp now) m)"

definition mgr_SendRaw :: "gostring \<Rightarrow> gostring \<Rightarrow> time \<Rightarrow> Manager \<Rightarrow> panic + (term_error option \<times> Manager)" where
  "mgr_SendRaw tid inp now m =
     (case Get tid m of
        None \<Rightarrow> Inr (Some ErrSessionNotFound, m)
      | Some h \<Rightarrow> on_handle h (sess_SendRaw inp now) (ext_SendRaw inp now) m)"

definition mgr_Resize :: "gostring \<Rightarrow> nat \<Rightarrow> nat \<Rightarrow> Manager \<Rightarrow> term_error + (nat \<times> nat) option" where
  "mgr_Resize tid cols rows m =
     (case Get tid m of
        None \<Rightarrow> Inl ErrSessionNotFound
      | Some (HSession r) \<Rightarrow> sess_Resize cols rows (m_ptys m ! r)
      | Some (HExternal r) \<Rightarrow> (case ext_Resize cols rows (m_exts m ! r) of None \<Rightarrow> Inr None | Some e \<Rightarrow> Inl e))"

definition mgr_Stop :: "gostring \<Rightarrow> time \<Rightarrow> Manager \<Rightarrow> panic + Manager" where
  "mgr_Stop tid now m =
     (case Get tid m of
        None \<Rightarrow> Inr m
      | Some h \<Rightarrow> bind_sum (on_handle h (\<lambda>s. bind_sum (sess_stop now s) (\<lambda>t. Inr ((), t)))
            (\<lambda>s. bind_sum (ext_Stop now s) (\<lambda>t. Inr ((), t))) m) (\<lambda>(_, m1). Inr m1))"

end
