(* ===== verification/ManagerProps.thy ===== *)
theory ManagerProps
  imports Manager
begin

section \<open>The terminal manager: invariants and properties\<close>

text \<open>
  The manager with the goroutines in flight as a transition system: the calls of the rebind
  listener that have left a session's lock and not taken the manager's yet, and the
  clean-up goroutines. Then the soundness of the look-up by session id, what reaping
  removes, and two ways in which an entry of a live session is lost.
\<close>

subsection \<open>Every step of the manager\<close>

record msys =
  mg :: Manager
  calls :: "(gostring \<times> gostring \<times> nat) list"
  waits :: "(gostring \<times> nat) list"

definition same_sids :: "ExternalSession \<Rightarrow> ExternalSession \<Rightarrow> bool" where
  "same_sids s t \<longleftrightarrow> x_claudeSessionID t = x_claudeSessionID s \<and> x_priorSessionIDs t = x_priorSessionIDs s"

inductive mstep :: "msys \<Rightarrow> msys \<Rightarrow> bool" where
  m_register: "RegisterExternal i rnd now1 now2 (mg s) = Inr (Inr (tid, r), m) \<Longrightarrow>
     mstep s (s\<lparr>mg := m, waits := (tid, r) # waits s\<rparr>)"
| m_create: "CreateWithID i started now (mg s) = (res, m) \<Longrightarrow> mstep s (s\<lparr>mg := m\<rparr>)"
| m_forget: "mstep s (s\<lparr>mg := forget_session tid (mg s)\<rparr>)"
| m_bind: "r < length (m_exts (mg s)) \<Longrightarrow>
     BindSessionMetadata sid cwd now (m_exts (mg s) ! r) = ((prev, changed, call), t) \<Longrightarrow>
     mstep s (s\<lparr>mg := (mg s)\<lparr>m_exts := (m_exts (mg s))[r := t]\<rparr>,
       calls := (case call of None \<Rightarrow> calls s | Some (p, c) \<Rightarrow> (p, c, r) # calls s)\<rparr>)"
| m_listener: "(p, c, r) \<in> set (calls s) \<Longrightarrow>
     mstep s (s\<lparr>mg := rebind_listener p c r (mg s), calls := remove1 (p, c, r) (calls s)\<rparr>)"
| m_ext: "r < length (m_exts (mg s)) \<Longrightarrow> same_sids (m_exts (mg s) ! r) t \<Longrightarrow>
     mstep s (s\<lparr>mg := (mg s)\<lparr>m_exts := (m_exts (mg s))[r := t]\<rparr>\<rparr>)"
| m_pty: "mstep s (s\<lparr>mg := (mg s)\<lparr>m_ptys := (m_ptys (mg s))[r := t']\<rparr>\<rparr>)"
| m_cleanup: "(tid, r) \<in> set (waits s) \<Longrightarrow> x_done (m_exts (mg s) ! r) \<Longrightarrow>
     mstep s (s\<lparr>mg := external_cleanup tid r (mg s), waits := remove1 (tid, r) (waits s)\<rparr>)"
| m_reap: "mstep s (s\<lparr>mg := reap_forget tid r (mg s)\<rparr>)"

inductive_cases mstepE: "mstep s t"

definition mstart :: "msys \<Rightarrow> bool" where
  "mstart s \<longleftrightarrow> s = \<lparr>mg = NewManager, calls = [], waits = []\<rparr>"

definition mreachable :: "msys \<Rightarrow> bool" where
  "mreachable = reach mstart mstep"

text \<open>
  The invariant: whatever the index or a pending listener call says a session was bound to,
  the session was; external entries of the table point into the store, and to the same
  session through both fields.
\<close>

definition owned :: "Manager \<Rightarrow> gostring \<Rightarrow> nat \<Rightarrow> bool" where
  "owned m sid r \<longleftrightarrow> r < length (m_exts m) \<and> sid \<in> set (sid_history (m_exts m ! r))"

definition entry_ok :: "Manager \<Rightarrow> managedSession \<Rightarrow> bool" where
  "entry_ok m ms \<longleftrightarrow>
     (case ms_session ms of
        HSession r \<Rightarrow> r < length (m_ptys m) \<and> ms_external ms = None
      | HExternal r \<Rightarrow> r < length (m_exts m) \<and> ms_external ms = Some r)"

definition minv :: "msys \<Rightarrow> bool" where
  "minv s \<longleftrightarrow>
     distinct (keys (m_sidIndex (mg s))) \<and>
     (\<forall>(sid, r)\<in>set (m_sidIndex (mg s)). owned (mg s) sid r) \<and>
     (\<forall>(p, c, r)\<in>set (calls s). (p \<noteq> [] \<longrightarrow> owned (mg s) p r) \<and> (c \<noteq> [] \<longrightarrow> owned (mg s) c r)) \<and>
     distinct (keys (m_sessions (mg s))) \<and> (\<forall>(tid, ms)\<in>set (m_sessions (mg s)). entry_ok (mg s) ms)"

lemma minvD:
  assumes "minv s"
  shows "distinct (keys (m_sidIndex (mg s)))"
    and "(sid, r) \<in> set (m_sidIndex (mg s)) \<Longrightarrow> owned (mg s) sid r"
    and "(p, c, r) \<in> set (calls s) \<Longrightarrow> p \<noteq> [] \<Longrightarrow> owned (mg s) p r"
    and "(p, c, r) \<in> set (calls s) \<Longrightarrow> c \<noteq> [] \<Longrightarrow> owned (mg s) c r"
    and "distinct (keys (m_sessions (mg s)))" and "(tid, ms) \<in> set (m_sessions (mg s)) \<Longrightarrow> entry_ok (mg s) ms"
  using assms by (auto simp: minv_def)

text \<open>What the stores may do without harm: grow, and let histories grow.\<close>

definition grows :: "Manager \<Rightarrow> Manager \<Rightarrow> bool" where
  "grows m m' \<longleftrightarrow> length (m_ptys m) \<le> length (m_ptys m') \<and> length (m_exts m) \<le> length (m_exts m') \<and>
     (\<forall>r<length (m_exts m). set (sid_history (m_exts m ! r)) \<subseteq> set (sid_history (m_exts m' ! r)))"

lemma grows_refl [simp]: "m_ptys m' = m_ptys m \<Longrightarrow> m_exts m' = m_exts m \<Longrightarrow> grows m m'"
  by (simp add: grows_def)

lemma grows_owned: "grows m m' \<Longrightarrow> owned m sid r \<Longrightarrow> owned m' sid r"
  by (auto simp: grows_def owned_def)

lemma grows_entry: "grows m m' \<Longrightarrow> entry_ok m ms \<Longrightarrow> entry_ok m' ms"
  by (auto simp: grows_def entry_ok_def split: handle.splits)

lemma minvI:
  assumes i: "minv s" and m: "mg t = m" and g: "grows (mg s) m"
    and di: "distinct (keys (m_sidIndex m))" and ds: "distinct (keys (m_sessions m))"
    and idx: "\<And>sid r. (sid, r) \<in> set (m_sidIndex m) \<Longrightarrow> (sid, r) \<in> set (m_sidIndex (mg s)) \<or> owned m sid r"
    and ses: "\<And>tid ms. (tid, ms) \<in> set (m_sessions m) \<Longrightarrow> (tid, ms) \<in> set (m_sessions (mg s)) \<or> entry_ok m ms"
    and cal: "\<And>p c r. (p, c, r) \<in> set (calls t) \<Longrightarrow>
      (p, c, r) \<in> set (calls s) \<or> (p \<noteq> [] \<longrightarrow> owned m p r) \<and> (c \<noteq> [] \<longrightarrow> owned m c r)"
  shows "minv t"
  unfolding minv_def m
proof (intro conjI ballI, goal_cases)
  case (2 x)
  moreover obtain sid r where "x = (sid, r)" by fastforce
  ultimately have x: "x = (sid, r)" "(sid, r) \<in> set (m_sidIndex m)" by simp_all
  have "owned m sid r" using idx[OF x(2)] minvD(2)[OF i, of sid r] grows_owned[OF g, of sid r] by auto
  with x(1) show ?case by simp
next
  case (3 x)
  moreover obtain p c r where "x = (p, c, r)" by (metis prod_cases3)
  ultimately have x: "x = (p, c, r)" "(p, c, r) \<in> set (calls t)" by simp_all
  have "(p \<noteq> [] \<longrightarrow> owned m p r) \<and> (c \<noteq> [] \<longrightarrow> owned m c r)"
    using cal[OF x(2)] minvD(3,4)[OF i, of p c r] grows_owned[OF g, of _ r] by auto
  with x(1) show ?case by simp
next
  case (5 x)
  moreover obtain tid ms where "x = (tid, ms)" by fastforce
  ultimately have x: "x = (tid, ms)" "(tid, ms) \<in> set (m_sessions m)" by simp_all
  have "entry_ok m ms" using ses[OF x(2)] minvD(6)[OF i, of tid ms] grows_entry[OF g, of ms] by auto
  with x(1) show ?case by simp
qed (use di ds in simp_all)

lemma set_alist_put: "(k', v') \<in> set (alist_put k v m) \<Longrightarrow> (k', v') \<in> set m \<or> k' = k \<and> v' = v"
  using set_alist_put_subset[of k v m] by auto

lemma set_purge: "x \<in> set (alist_purge P m) \<Longrightarrow> x \<in> set m"
  by (simp add: alist_purge_def)

lemma set_del: "x \<in> set (alist_del k m) \<Longrightarrow> x \<in> set m"
  by (simp add: alist_del_def)

lemma bind_history:
  assumes "BindSessionMetadata sid cwd now s = ((prev, changed, call), t)"
  shows "set (sid_history s) \<subseteq> set (sid_history t)"
    and "call = Some (p, c) \<Longrightarrow> (p \<noteq> [] \<longrightarrow> p \<in> set (sid_history t)) \<and> c \<in> set (sid_history t)"
  using bind_current[OF assms] bind_prior[OF assms] bind_result[OF assms]
  by (auto simp: sid_history_def split: if_splits)

lemma grows_upd:
  "r < length (m_exts m) \<Longrightarrow> set (sid_history (m_exts m ! r)) \<subseteq> set (sid_history t) \<Longrightarrow>
   grows m (m\<lparr>m_exts := (m_exts m)[r := t]\<rparr>)"
  by (auto simp: grows_def nth_list_update)

lemma register_shape:
  assumes "RegisterExternal i rnd now1 now2 m0 = Inr (Inr (tid, r), m)"
  shows "\<exists>x. r = length (m_exts m0) \<and> alist_get (m_sessions m0) tid = None \<and>
    m = m0\<lparr>m_exts := m_exts m0 @ [x],
       m_sessions := alist_put tid \<lparr>ms_session = HExternal r, ms_external = Some r, ms_createdAt = now2\<rparr> (m_sessions m0)\<rparr> \<and>
    (\<exists>y. NewExternalSession now1 = Inr y \<and> x = SetRebindListener y) \<and> tid = (if i = [] then ''ts_'' @ rnd else i)"
  using assms by (auto simp: RegisterExternal_def Let_def bind_sum_Inr_iff split: if_splits)

lemma mstep_inv: "minv s \<Longrightarrow> mstep s t \<Longrightarrow> minv t"
proof (erule mstepE, goal_cases)
  case (1 i rnd now1 now2 tid r m)
  from register_shape[OF 1(3)] obtain x where r: "r = length (m_exts (mg s))"
    and m: "m = (mg s)\<lparr>m_exts := m_exts (mg s) @ [x],
       m_sessions := alist_put tid \<lparr>ms_session = HExternal r, ms_external = Some r, ms_createdAt = now2\<rparr> (m_sessions (mg s))\<rparr>"
    by (elim exE conjE)
  have g: "grows (mg s) m" by (auto simp: m grows_def nth_append)
  show ?case unfolding 1(2)
    using minvD(1,5)[OF 1(1)]
    by (intro minvI[OF 1(1) _ g]) (auto simp: m r entry_ok_def dest!: set_alist_put)
next
  case (2 i started now res m)
  have g: "grows (mg s) m" using 2(3) by (auto simp: CreateWithID_def Let_def grows_def split: sum.splits)
  show ?case unfolding 2(2)
    using minvD(1,5)[OF 2(1)] 2(3)
    by (intro minvI[OF 2(1) _ g]) (auto simp: CreateWithID_def Let_def entry_ok_def split: sum.splits dest!: set_alist_put)
next
  case (3 tid)
  show ?case unfolding 3(2)
    using minvD(1,5)[OF 3(1)] by (intro minvI[OF 3(1) refl]) (auto simp: forget_session_def dest: set_del)
next
  case (4 r sid cwd now prev changed call u)
  have g: "grows (mg s) ((mg s)\<lparr>m_exts := (m_exts (mg s))[r := u]\<rparr>)"
    using grows_upd[OF 4(3)] bind_history(1)[OF 4(4)] by blast
  show ?case unfolding 4(2)
    using minvD(1,5)[OF 4(1)] 4(3) bind_history(2)[OF 4(4)]
    by (intro minvI[OF 4(1) _ g]) (auto simp: owned_def split: option.splits)
next
  case (5 p c r)
  have g: "grows (mg s) (rebind_listener p c r (mg s))" by (simp add: rebind_listener_def Let_def)
  have o: "p \<noteq> [] \<Longrightarrow> owned (rebind_listener p c r (mg s)) p r" "c \<noteq> [] \<Longrightarrow> owned (rebind_listener p c r (mg s)) c r"
    using grows_owned[OF g] minvD(3,4)[OF 5(1,3)] by auto
  show ?case unfolding 5(2)
  proof (rule minvI[OF 5(1) _ g])
    show "distinct (keys (m_sidIndex (rebind_listener p c r (mg s))))"
      using minvD(1)[OF 5(1)] by (simp add: rebind_listener_def Let_def)
    show "distinct (keys (m_sessions (rebind_listener p c r (mg s))))"
      using minvD(5)[OF 5(1)] by (simp add: rebind_listener_def Let_def)
    show "(sid, q) \<in> set (m_sidIndex (mg s)) \<or> owned (rebind_listener p c r (mg s)) sid q"
      if "(sid, q) \<in> set (m_sidIndex (rebind_listener p c r (mg s)))" for sid q
      using that o by (auto simp: rebind_listener_def Let_def split: if_splits dest!: set_alist_put)
  qed (auto simp: rebind_listener_def Let_def dest: set_remove1_subset[THEN subsetD])
next
  case (6 r u)
  have g: "grows (mg s) ((mg s)\<lparr>m_exts := (m_exts (mg s))[r := u]\<rparr>)"
    using 6(4) by (intro grows_upd[OF 6(3)]) (simp add: same_sids_def sid_history_def)
  show ?case unfolding 6(2) using minvD(1,5)[OF 6(1)] by (intro minvI[OF 6(1) _ g]) auto
next
  case (7 r u)
  have g: "grows (mg s) ((mg s)\<lparr>m_ptys := (m_ptys (mg s))[r := u]\<rparr>)" by (simp add: grows_def)
  show ?case unfolding 7(2) using minvD(1,5)[OF 7(1)] by (intro minvI[OF 7(1) _ g]) auto
next
  case (8 tid r)
  show ?case unfolding 8(2)
    using minvD(1,5)[OF 8(1)]
    by (intro minvI[OF 8(1) refl]) (auto simp: external_cleanup_def dest: set_del set_purge)
next
  case (9 tid r)
  show ?case unfolding 9(2)
    using minvD(1,5)[OF 9(1)]
    by (intro minvI[OF 9(1) refl]) (auto simp: reap_forget_def dest: set_del set_purge split: option.splits if_splits)
qed

interpretation mgr: invariant_system mstart mstep minv
proof (unfold_locales, goal_cases)
  case (1 s)
  then show ?case by (simp add: mstart_def minv_def NewManager_def)
next
  case (2 s t)
  then show ?case by (rule mstep_inv)
qed

lemmas mreachable_inv = mgr.inv_reach[folded mreachable_def]

lemma mreachable_step: "mreachable s \<Longrightarrow> mstep s t \<Longrightarrow> mreachable t"
  unfolding mreachable_def by (rule reach_step)

lemma mreachable_start: "mreachable \<lparr>mg = NewManager, calls = [], waits = []\<rparr>"
  unfolding mreachable_def by (rule reach_init) (simp add: mstart_def)

text \<open>
  C7. A message is never routed to a session that was not bound to its id: in every
  reachable state, whatever rebinds, stops and clean-ups are in flight, a look-up for
  injection either finds nothing or a live session whose history of ids contains the asked
  one; \<open>Drifted\<close> says whether the id is a former one, \<open>CurrentSID\<close> is the session's id now;
  and \<open>FindExternalBySessionID\<close> finds exactly the undrifted results.
\<close>

theorem lookup_never_misroutes:
  assumes "mreachable s" "LookupExternalForInject sid (mg s) = l"
  shows "(case il_Ext l of
       None \<Rightarrow> l = no_lookup
     | Some r \<Rightarrow> r < length (m_exts (mg s)) \<and> live_status (m_exts (mg s) ! r) \<and>
         sid \<in> set (sid_history (m_exts (mg s) ! r)) \<and>
         il_CurrentSID l = x_claudeSessionID (m_exts (mg s) ! r) \<and> il_Drifted l = (il_CurrentSID l \<noteq> sid)) \<and>
     FindExternalBySessionID sid (mg s) = (if il_Drifted l then None else il_Ext l)"
proof (cases "sid = [] \<or> alist_get (m_sidIndex (mg s)) sid = None")
  case True
  with assms(2) show ?thesis
    by (auto simp: LookupExternalForInject_def FindExternalBySessionID_def no_lookup_def split: option.splits if_splits)
next
  case False
  then obtain r where r: "alist_get (m_sidIndex (mg s)) sid = Some r" and n: "sid \<noteq> []" by auto
  have "owned (mg s) sid r" using minvD(2)[OF mreachable_inv[OF assms(1)] alist_get_Some_mem[OF r]] .
  then show ?thesis using assms(2) r n
    by (auto simp: LookupExternalForInject_def FindExternalBySessionID_def no_lookup_def owned_def Let_def)
qed

subsection \<open>Entries of live sessions that are lost\<close>

lemma bind_status: "BindSessionMetadata sid cwd now s = (res, t) \<Longrightarrow> x_sessionStatus t = x_sessionStatus s"
  by (cases "sid = []"; cases "cwd = []"; cases "sid = x_claudeSessionID s"; cases "x_cwd s = []")
    (auto simp: BindSessionMetadata_def Let_def)

lemma Emit_live_status:
  "Emit kind SessionLive tn payload err now s = Inr t \<Longrightarrow> \<not> is_terminal_kind kind \<Longrightarrow> x_sessionStatus s = SessionLive \<Longrightarrow>
   x_sessionStatus t = SessionLive"
  by (auto simp: Emit_def emit_locked_def emit_prepare_def Let_def bind_sum_Inr_iff split: if_splits)

lemma NewExternalSession_live: "NewExternalSession now = Inr t \<Longrightarrow> live_status t"
proof -
  assume "NewExternalSession now = Inr t"
  then obtain u where u: "Emit EventSessionStarted SessionLive TurnAwaitingInput [] [] now (blank_session now) = Inr u"
    "Emit EventSessionReady SessionLive TurnAwaitingInput [] [] now u = Inr t"
    by (auto simp: NewExternalSession_def bind_sum_Inr_iff)
  have k: "\<not> is_terminal_kind EventSessionStarted" "\<not> is_terminal_kind EventSessionReady"
    by (simp_all add: is_terminal_kind_def event_consts)
  have "x_sessionStatus u = SessionLive" using Emit_live_status[OF u(1) k(1)] by (simp add: blank_session_def)
  then show ?thesis using Emit_live_status[OF u(2) k(2)] by (simp add: live_status_def)
qed

text \<open>
  C30. Rebinding one session hides another: when a live session \<open>b\<close> is bound to an id and
  found by it, and a session \<open>a\<close> that was bound to the same id before moves on to another
  id, the listener of \<open>a\<close> claims the old id for \<open>a\<close> although its current owner is \<open>b\<close>;
  afterwards the id is reported as drifted to \<open>a\<close> and \<open>b\<close> is not found by its own id.
\<close>

theorem rebind_hides_live_owner:
  assumes "a < length (m_exts m)" "b < length (m_exts m)" "a \<noteq> b"
    "x_claudeSessionID (m_exts m ! a) = sid" "FindExternalBySessionID sid m = Some b"
    "new \<noteq> []" "new \<noteq> sid" "x_rebindListener (m_exts m ! a)" "live_status (m_exts m ! a)"
    "BindSessionMetadata new cwd now (m_exts m ! a) = ((prev, changed, call), t)"
  shows "call = Some (sid, new) \<and>
    (let m' = rebind_listener sid new a (m\<lparr>m_exts := (m_exts m)[a := t]\<rparr>) in
      x_claudeSessionID (m_exts m' ! b) = sid \<and> live_status (m_exts m' ! b) \<and>
      FindExternalBySessionID sid m' = None \<and>
      LookupExternalForInject sid m' = \<lparr>il_Ext = Some a, il_Drifted = True, il_CurrentSID = new\<rparr>)"
proof -
  have sid: "sid \<noteq> []" and b: "x_claudeSessionID (m_exts m ! b) = sid" "live_status (m_exts m ! b)"
    using assms(5) by (auto simp: FindExternalBySessionID_def split: if_splits option.splits)
  have t: "x_claudeSessionID t = new" using bind_current[OF assms(10)] assms(6) by simp
  have live: "live_status t" using assms(9) bind_status[OF assms(10)] by (simp add: live_status_def)
  have "call = Some (sid, new)" using bind_result[OF assms(10)] assms(4,6,7,8) by auto
  moreover have "alist_get (m_sidIndex (rebind_listener sid new a (m\<lparr>m_exts := (m_exts m)[a := t]\<rparr>))) sid = Some a"
    using sid by (simp add: rebind_listener_def Let_def)
  ultimately show ?thesis
    using sid b t live assms(1,3,6,7)
    by (simp add: Let_def FindExternalBySessionID_def LookupExternalForInject_def)
      (simp add: rebind_listener_def Let_def)
qed

text \<open>
  The clean-up goroutine of a dead session removes whatever has its terminal id now:
  when a stale session was reaped and its wrapper registered again under the same id before
  the goroutine of the old session took the lock, the goroutine deletes the entry of the new
  session, which lives on and can no longer be found, stopped or sent input by id.
\<close>

theorem cleanup_removes_successor:
  assumes "alist_get (m_sessions m) tid = Some ms" "ms_external ms = Some r" "tid \<noteq> []"
    "RegisterExternal tid rnd now1 now2 (reap_forget tid r m) = Inr res"
  shows "\<exists>r' m'. res = (Inr (tid, r'), m') \<and> GetExternal tid m' = Some r' \<and> live_status (m_exts m' ! r') \<and>
    GetExternal tid (external_cleanup tid r m') = None \<and>
    live_status (m_exts (external_cleanup tid r m') ! r') \<and>
    mgr_SendInput tid inp now (external_cleanup tid r m') = Inr (Some ErrSessionNotFound, external_cleanup tid r m')"
proof -
  have gone: "alist_get (m_sessions (reap_forget tid r m)) tid = None" using assms(1,2) by (simp add: reap_forget_def)
  obtain r' m' where res: "res = (Inr (tid, r'), m')"
    using assms(3,4) gone by (cases res) (auto simp: RegisterExternal_def Let_def bind_sum_Inr_iff)
  from register_shape[OF assms(4)[unfolded res]] obtain y where r': "r' = length (m_exts (reap_forget tid r m))"
    and m': "m' = (reap_forget tid r m)\<lparr>m_exts := m_exts (reap_forget tid r m) @ [SetRebindListener y],
       m_sessions := alist_put tid \<lparr>ms_session = HExternal r', ms_external = Some r', ms_createdAt = now2\<rparr>
         (m_sessions (reap_forget tid r m))\<rparr>" and y: "NewExternalSession now1 = Inr y" by auto
  have "live_status (SetRebindListener y)"
    using NewExternalSession_live[OF y] by (simp add: live_status_def SetRebindListener_def)
  then have "live_status (m_exts m' ! r')" by (simp add: m' r')
  then show ?thesis
    by (simp add: res) (simp add: m' GetExternal_def external_cleanup_def mgr_SendInput_def Get_def)
qed

subsection \<open>Reaping\<close>

definition mg_ok :: "Manager \<Rightarrow> bool" where
  "mg_ok m \<longleftrightarrow> distinct (keys (m_sidIndex m)) \<and> distinct (keys (m_sessions m)) \<and>
     (\<forall>(tid, ms)\<in>set (m_sessions m). entry_ok m ms) \<and>
     (\<forall>s\<in>set (m_ptys m). sess_ok s) \<and> (\<forall>s\<in>set (m_exts m). ext_ok s)"

lemma reap_victims_mem:
  "(tid, c, r) \<in> set (reap_victims maxIdle now es ses) \<longleftrightarrow>
     (\<exists>ms. (tid, ms) \<in> set ses \<and> ms_external ms = Some r \<and> ms_createdAt ms = c \<and> is_stale maxIdle now (es ! r))"
  by (induction maxIdle now es ses rule: reap_victims.induct) (auto split: option.splits)

text \<open>
  What the second loop does with a list of victims: it stops them, and forgets their table
  entries and every index entry that leads to one of them.
\<close>

lemma reap_loop:
  assumes "\<forall>s\<in>set (m_exts m). ext_ok s" "\<forall>(tid, c, r)\<in>set vs. r < length (m_exts m)"
    "distinct (keys (m_sidIndex m))" "distinct (keys (m_sessions m))"
  shows "\<exists>m' out'. fold_sum (reap_one now) vs (out, m) = Inr (out @ out', m') \<and> map sum_ID out' = map fst vs \<and>
    m_ptys m' = m_ptys m \<and> length (m_exts m') = length (m_exts m) \<and> (\<forall>s\<in>set (m_exts m'). ext_ok s) \<and>
    (\<forall>q. q \<notin> (snd o snd) ` set vs \<longrightarrow> m_exts m' ! q = m_exts m ! q) \<and>
    (\<forall>q<length (m_exts m). q \<in> (snd o snd) ` set vs \<or> x_eventsClosed (m_exts m ! q) \<longrightarrow> x_eventsClosed (m_exts m' ! q)) \<and>
    (\<forall>k. alist_get (m_sidIndex m') k = (case alist_get (m_sidIndex m) k of
        Some q \<Rightarrow> if q \<in> (snd o snd) ` set vs then None else Some q | None \<Rightarrow> None)) \<and>
    (\<forall>k. alist_get (m_sessions m') k = (case alist_get (m_sessions m) k of
        Some ms \<Rightarrow> if \<exists>c r. (k, c, r) \<in> set vs \<and> ms_external ms = Some r then None else Some ms | None \<Rightarrow> None))"
  using assms
proof (induction vs arbitrary: m out)
  case Nil
  then show ?case by (auto split: option.splits)
next
  case (Cons v vs)
  obtain tid c r where v: "v = (tid, c, r)" by (metis prod_cases3)
  have r: "r < length (m_exts m)" using Cons.prems(2) v by simp
  obtain e where e: "ext_Stop now (m_exts m ! r) = Inr e" "ext_ok e" "x_eventsClosed e"
    using ext_ok_stop[of "m_exts m ! r" now] Cons.prems(1) r by auto
  let ?m1 = "reap_forget tid r (m\<lparr>m_exts := (m_exts m)[r := e]\<rparr>)"
  have m1: "m_exts ?m1 = (m_exts m)[r := e]" "m_ptys ?m1 = m_ptys m"
    "m_sidIndex ?m1 = alist_purge (\<lambda>e. e = r) (m_sidIndex m)"
    "\<And>k. alist_get (m_sessions ?m1) k = (if k = tid \<and> (\<exists>ms. alist_get (m_sessions m) k = Some ms \<and> ms_external ms = Some r)
        then None else alist_get (m_sessions m) k)"
    "distinct (keys (m_sessions ?m1))"
    using Cons.prems(4) by (auto simp: reap_forget_def split: option.splits)
  have ok1: "\<forall>s\<in>set (m_exts ?m1). ext_ok s"
    using Cons.prems(1) e(2) set_update_subset_insert[of "m_exts m" r e] by (auto simp: m1)
  from Cons.IH[of ?m1 "out @ [ext_summary tid c (m_exts m ! r)]"] obtain m' out' where
    f: "fold_sum (reap_one now) vs (out @ [ext_summary tid c (m_exts m ! r)], ?m1) =
        Inr ((out @ [ext_summary tid c (m_exts m ! r)]) @ out', m')" "map sum_ID out' = map fst vs"
    "m_ptys m' = m_ptys ?m1" "length (m_exts m') = length (m_exts ?m1)" "\<forall>s\<in>set (m_exts m'). ext_ok s"
    "\<forall>q. q \<notin> (snd o snd) ` set vs \<longrightarrow> m_exts m' ! q = m_exts ?m1 ! q"
    "\<forall>q<length (m_exts ?m1). q \<in> (snd o snd) ` set vs \<or> x_eventsClosed (m_exts ?m1 ! q) \<longrightarrow> x_eventsClosed (m_exts m' ! q)"
    "\<forall>k. alist_get (m_sidIndex m') k = (case alist_get (m_sidIndex ?m1) k of
        Some q \<Rightarrow> if q \<in> (snd o snd) ` set vs then None else Some q | None \<Rightarrow> None)"
    "\<forall>k. alist_get (m_sessions m') k = (case alist_get (m_sessions ?m1) k of
        Some ms \<Rightarrow> if \<exists>c r. (k, c, r) \<in> set vs \<and> ms_external ms = Some r then None else Some ms | None \<Rightarrow> None)"
    using ok1 Cons.prems(2,3) m1(5) by (simp add: m1(1,3)) blast
  have "fold_sum (reap_one now) (v # vs) (out, m) = Inr (out @ ext_summary tid c (m_exts m ! r) # out', m')"
    using f(1) e(1) by (simp add: v reap_one_def)
  moreover have "map sum_ID (ext_summary tid c (m_exts m ! r) # out') = map fst (v # vs)"
    using f(2) by (simp add: v ext_summary_def ext_Status_def)
  moreover have "m_ptys m' = m_ptys m" "length (m_exts m') = length (m_exts m)" using f(3,4) by (simp_all add: m1(1,2))
  moreover have "\<forall>q. q \<notin> (snd o snd) ` set (v # vs) \<longrightarrow> m_exts m' ! q = m_exts m ! q" using f(6) by (simp add: v m1(1))
  moreover have "\<forall>q<length (m_exts m). q \<in> (snd o snd) ` set (v # vs) \<or> x_eventsClosed (m_exts m ! q) \<longrightarrow> x_eventsClosed (m_exts m' ! q)"
  proof (intro allI impI)
    fix q assume q: "q < length (m_exts m)" "q \<in> (snd o snd) ` set (v # vs) \<or> x_eventsClosed (m_exts m ! q)"
    then show "x_eventsClosed (m_exts m' ! q)"
      using f(7)[rule_format, of q] e(3) by (cases "q = r") (auto simp: v m1(1))
  qed
  moreover have "\<forall>k. alist_get (m_sidIndex m') k = (case alist_get (m_sidIndex m) k of
        Some q \<Rightarrow> if q \<in> (snd o snd) ` set (v # vs) then None else Some q | None \<Rightarrow> None)"
    using f(8) by (auto simp: v m1(3) alist_get_purge[OF Cons.prems(3)] split: option.splits)
  moreover have "\<forall>k. alist_get (m_sessions m') k = (case alist_get (m_sessions m) k of
        Some ms \<Rightarrow> if \<exists>c r. (k, c, r) \<in> set (v # vs) \<and> ms_external ms = Some r then None else Some ms | None \<Rightarrow> None)"
  proof
    fix k
    show "alist_get (m_sessions m') k = (case alist_get (m_sessions m) k of
        Some ms \<Rightarrow> if \<exists>c r. (k, c, r) \<in> set (v # vs) \<and> ms_external ms = Some r then None else Some ms | None \<Rightarrow> None)"
    proof (cases "alist_get (m_sessions m) k")
      case None
      then show ?thesis using f(9)[rule_format, of k] by (simp add: m1(4))
    next
      case (Some ms)
      then show ?thesis using f(9)[rule_format, of k] by (cases "k = tid \<and> ms_external ms = Some r") (auto simp: m1(4) v)
    qed
  qed
  ultimately show ?case using f(5) by blast
qed

text \<open>A session that is abandoned, stated without reference to the code's conditions.\<close>

definition abandoned :: "duration \<Rightarrow> time \<Rightarrow> ExternalSession \<Rightarrow> bool" where
  "abandoned maxIdle now e \<longleftrightarrow>
     x_driver e \<in> {[], ''pty''} \<and> x_sessionStatus e \<in> {SessionLive, SessionStarting} \<and>
     x_lastActivity e \<noteq> 0 \<and> x_lastActivity e + maxIdle < now"

lemma is_stale_abandoned: "is_stale maxIdle now e \<longleftrightarrow> abandoned maxIdle now e"
  by (auto simp: is_stale_def abandoned_def live_status_def)

definition entry_abandoned :: "duration \<Rightarrow> time \<Rightarrow> Manager \<Rightarrow> managedSession \<Rightarrow> bool" where
  "entry_abandoned maxIdle now m ms =
     (case ms_external ms of Some r \<Rightarrow> abandoned maxIdle now (m_exts m ! r) | None \<Rightarrow> False)"

lemma reap_victims_ids:
  "map fst (reap_victims maxIdle now (m_exts m) ses) = map fst (filter (\<lambda>(_, ms). entry_abandoned maxIdle now m ms) ses)"
proof (induction ses)
  case (Cons e ses)
  obtain tid ms where "e = (tid, ms)" by fastforce
  with Cons.IH show ?case by (cases "ms_external ms") (simp_all add: entry_abandoned_def is_stale_abandoned)
qed simp

lemma reap_victims_range:
  assumes "\<And>tid ms. (tid, ms) \<in> set ses \<Longrightarrow> entry_ok m ms"
  shows "\<forall>(tid, c, r)\<in>set (reap_victims maxIdle now es ses). r < length (m_exts m)"
proof (clarify)
  fix tid c r assume "(tid, c, r) \<in> set (reap_victims maxIdle now es ses)"
  then obtain ms where "(tid, ms) \<in> set ses" "ms_external ms = Some r" by (auto simp: reap_victims_mem)
  with assms[of tid ms] show "r < length (m_exts m)" by (auto simp: entry_ok_def split: handle.splits)
qed

lemma reap_victims_get:
  assumes "distinct (keys (m_sessions m))"
  shows "(\<exists>c. (tid, c, r) \<in> set (reap_victims maxIdle now (m_exts m) (m_sessions m))) \<longleftrightarrow>
    GetExternal tid m = Some r \<and> abandoned maxIdle now (m_exts m ! r)"
  by (auto simp: reap_victims_mem GetExternal_def is_stale_abandoned alist_get_eq_Some[OF assms, symmetric] split: option.splits)

text \<open>
  Reaping removes the stale sessions and nothing else. With a positive idle limit it
  succeeds and returns the ids of the stale external sessions: PTY-driven (or of no stated
  driver), live or starting, with a known last activity older than the limit. Their entries
  are gone from the table and from the index, they are stopped, and every other session and
  every other entry is as before; a session driven by the SDK is never reaped.
\<close>

theorem reap_exactly_stale:
  assumes "mg_ok m" "0 < maxIdle"
  shows "\<exists>out m'. ReapStalePTYExternal maxIdle now clock m = Inr (out, m') \<and>
    map sum_ID out = map fst (filter (\<lambda>(_, ms). entry_abandoned maxIdle now m ms) (m_sessions m)) \<and>
    (\<forall>tid. alist_get (m_sessions m') tid =
       (case alist_get (m_sessions m) tid of
          Some ms \<Rightarrow> if entry_abandoned maxIdle now m ms then None else Some ms
        | None \<Rightarrow> None)) \<and>
    (\<forall>r<length (m_exts m). (\<exists>tid. GetExternal tid m = Some r) \<longrightarrow>
       (if abandoned maxIdle now (m_exts m ! r)
        then not_live (m_exts m' ! r) \<and> (\<forall>sid. FindExternalBySessionID sid m' \<noteq> Some r)
        else m_exts m' ! r = m_exts m ! r))"
proof -
  let ?vs = "reap_victims maxIdle now (m_exts m) (m_sessions m)"
  have d: "distinct (keys (m_sidIndex m))" "distinct (keys (m_sessions m))"
    and e: "\<And>tid ms. (tid, ms) \<in> set (m_sessions m) \<Longrightarrow> entry_ok m ms"
    and x: "\<forall>s\<in>set (m_exts m). ext_ok s" using assms(1) by (auto simp: mg_ok_def)
  have range: "\<forall>(tid, c, r)\<in>set ?vs. r < length (m_exts m)" using e by (rule reap_victims_range)
  note vic = reap_victims_get[OF d(2), of _ _ maxIdle now]
  have refs: "r \<in> (snd o snd) ` set ?vs \<longleftrightarrow> (\<exists>tid. GetExternal tid m = Some r) \<and> abandoned maxIdle now (m_exts m ! r)" for r
    using vic by (force simp: image_iff)
  from reap_loop[OF x range d, of clock "[]"] obtain m' out' where
    f: "fold_sum (reap_one clock) ?vs ([], m) = Inr (out', m')" "map sum_ID out' = map fst ?vs"
    "\<forall>s\<in>set (m_exts m'). ext_ok s" "length (m_exts m') = length (m_exts m)"
    "\<forall>q. q \<notin> (snd o snd) ` set ?vs \<longrightarrow> m_exts m' ! q = m_exts m ! q"
    "\<forall>q<length (m_exts m). q \<in> (snd o snd) ` set ?vs \<or> x_eventsClosed (m_exts m ! q) \<longrightarrow> x_eventsClosed (m_exts m' ! q)"
    "\<forall>k. alist_get (m_sidIndex m') k = (case alist_get (m_sidIndex m) k of
        Some q \<Rightarrow> if q \<in> (snd o snd) ` set ?vs then None else Some q | None \<Rightarrow> None)"
    "\<forall>k. alist_get (m_sessions m') k = (case alist_get (m_sessions m) k of
        Some ms \<Rightarrow> if \<exists>c r. (k, c, r) \<in> set ?vs \<and> ms_external ms = Some r then None else Some ms | None \<Rightarrow> None)"
    by (simp only: append_Nil) (elim exE conjE, blast)
  have tab: "alist_get (m_sessions m') tid = (case alist_get (m_sessions m) tid of
          Some ms \<Rightarrow> if entry_abandoned maxIdle now m ms then None else Some ms | None \<Rightarrow> None)" for tid
    using f(8)[rule_format, of tid] vic[of tid] by (auto simp: GetExternal_def entry_abandoned_def split: option.splits)
  have stop: "if abandoned maxIdle now (m_exts m ! r)
        then not_live (m_exts m' ! r) \<and> (\<forall>sid. FindExternalBySessionID sid m' \<noteq> Some r)
        else m_exts m' ! r = m_exts m ! r"
    if r: "r < length (m_exts m)" and t: "\<exists>tid. GetExternal tid m = Some r" for r
  proof (cases "abandoned maxIdle now (m_exts m ! r)")
    case True
    then have v: "r \<in> (snd o snd) ` set ?vs" using refs t by blast
    have "x_stopped (m_exts m' ! r)" using f(3,4,6) v r ext_ok_closed by force
    moreover have "alist_get (m_sidIndex m') sid \<noteq> Some r" for sid
      using f(7)[rule_format, of sid] v by (auto split: option.splits if_splits)
    ultimately show ?thesis using True by (auto simp: not_live_def FindExternalBySessionID_def split: option.splits if_splits)
  next
    case False
    then show ?thesis using f(5) refs by auto
  qed
  have "ReapStalePTYExternal maxIdle now clock m = Inr (out', m')"
    using f(1) assms(2) by (simp add: ReapStalePTYExternal_def)
  with f(2) tab stop show ?thesis unfolding reap_victims_ids by blast
qed

subsection \<open>Calls by terminal id\<close>

lemma mg_okD:
  assumes "mg_ok m"
  shows "Get tid m = Some (HSession r) \<Longrightarrow> r < length (m_ptys m) \<and> sess_ok (m_ptys m ! r)"
    and "Get tid m = Some (HExternal r) \<Longrightarrow> r < length (m_exts m) \<and> ext_ok (m_exts m ! r)"
  using assms by (auto simp: mg_ok_def Get_def entry_ok_def dest!: alist_get_Some_mem)

lemma mg_ok_pty: "mg_ok m \<Longrightarrow> sess_ok s \<Longrightarrow> mg_ok (m\<lparr>m_ptys := (m_ptys m)[r := s]\<rparr>)"
  using set_update_subset_insert[of "m_ptys m" r s] by (auto simp: mg_ok_def entry_ok_def split: handle.splits)

lemma mg_ok_ext: "mg_ok m \<Longrightarrow> ext_ok s \<Longrightarrow> mg_ok (m\<lparr>m_exts := (m_exts m)[r := s]\<rparr>)"
  using set_update_subset_insert[of "m_exts m" r s] by (auto simp: mg_ok_def entry_ok_def split: handle.splits)

lemma on_handle_total:
  assumes "mg_ok m" "Get tid m = Some h"
    and "\<And>s. sess_ok s \<Longrightarrow> \<exists>x t. f s = Inr (x, t) \<and> sess_ok t" "\<And>s. ext_ok s \<Longrightarrow> \<exists>x t. g s = Inr (x, t) \<and> ext_ok t"
  shows "\<exists>x m'. on_handle h f g m = Inr (x, m') \<and> mg_ok m'"
proof (cases h)
  case (HSession r)
  with assms(2) mg_okD(1)[OF assms(1)] have "sess_ok (m_ptys m ! r)" by auto
  from assms(3)[OF this] mg_ok_pty[OF assms(1)] show ?thesis by (auto simp: HSession on_handle_def)
next
  case (HExternal r)
  with assms(2) mg_okD(2)[OF assms(1)] have "ext_ok (m_exts m ! r)" by auto
  from assms(4)[OF this] mg_ok_ext[OF assms(1)] show ?thesis by (auto simp: HExternal on_handle_def)
qed

datatype mgr_call = CallInput gostring gostring | CallRaw gostring gostring | CallStop gostring

definition mgr_call_step :: "mgr_call \<times> time \<Rightarrow> Manager \<Rightarrow> panic + Manager" where
  "mgr_call_step c m =
     (case c of
        (CallInput tid inp, now) \<Rightarrow> bind_sum (mgr_SendInput tid inp now m) (\<lambda>(_, m1). Inr m1)
      | (CallRaw tid inp, now) \<Rightarrow> bind_sum (mgr_SendRaw tid inp now m) (\<lambda>(_, m1). Inr m1)
      | (CallStop tid, now) \<Rightarrow> mgr_Stop tid now m)"

lemma mgr_call_total: "mg_ok m \<Longrightarrow> \<exists>m'. mgr_call_step c m = Inr m' \<and> mg_ok m'"
proof (cases c)
  case (Pair k now)
  assume m: "mg_ok m"
  show ?thesis
  proof (cases k)
    case (CallInput tid inp)
    then show ?thesis
      using m on_handle_total[OF m, of tid _ "sess_SendInput inp now" "ext_SendInput inp now"] sess_input_total ext_input_total
      by (cases "Get tid m") (fastforce simp: Pair mgr_call_step_def mgr_SendInput_def)+
  next
    case (CallRaw tid inp)
    then show ?thesis
      using m on_handle_total[OF m, of tid _ "sess_SendRaw inp now" "ext_SendRaw inp now"] sess_raw_total exth.raw_total
      by (cases "Get tid m") (fastforce simp: Pair mgr_call_step_def mgr_SendRaw_def)+
  next
    case (CallStop tid)
    have s: "\<exists>x t. bind_sum (sess_stop now s) (\<lambda>t. Inr ((), t)) = Inr (x, t) \<and> sess_ok t" if "sess_ok s" for s
      using pty.stop_total[OF that, of now] by auto
    have e: "\<exists>x t. bind_sum (ext_Stop now s) (\<lambda>t. Inr ((), t)) = Inr (x, t) \<and> ext_ok t" if "ext_ok s" for s
      using exth.stop_total[OF that, of now] by auto
    show ?thesis
    proof (cases "Get tid m")
      case None
      then show ?thesis using m by (simp add: Pair CallStop mgr_call_step_def mgr_Stop_def)
    next
      case (Some h)
      from on_handle_total[OF m Some, of "\<lambda>s. bind_sum (sess_stop now s) (\<lambda>t. Inr ((), t))"
          "\<lambda>s. bind_sum (ext_Stop now s) (\<lambda>t. Inr ((), t))"] s e obtain x m' where
        "on_handle h (\<lambda>s. bind_sum (sess_stop now s) (\<lambda>t. Inr ((), t))) (\<lambda>s. bind_sum (ext_Stop now s) (\<lambda>t. Inr ((), t))) m =
          Inr (x, m')" "mg_ok m'" by blast
      then show ?thesis using Some by (simp add: Pair CallStop mgr_call_step_def mgr_Stop_def)
    qed
  qed
qed

text \<open>
  Stopping by terminal id is final for its input, for both kinds of session: any
  sequence of calls on any ids ends without a panic, and after \<open>Stop\<close> on an id every line
  and every raw text sent to that id is refused with an error and changes nothing.
\<close>

theorem stopped_terminal_refuses_input:
  assumes "mg_ok m" "inp \<noteq> []"
  shows "\<exists>m1 m2. fold_sum mgr_call_step cs m = Inr m1 \<and> mgr_Stop tid now m1 = Inr m2 \<and>
    (\<exists>e. mgr_SendInput tid inp now' m2 = Inr (Some e, m2)) \<and> (\<exists>e. mgr_SendRaw tid inp now' m2 = Inr (Some e, m2))"
proof -
  have "\<exists>m1. fold_sum mgr_call_step cs m = Inr m1 \<and> mg_ok m1" using assms(1)
  proof (induction cs arbitrary: m)
    case (Cons c cs)
    then obtain m' where "mgr_call_step c m = Inr m'" "mg_ok m'" using mgr_call_total by blast
    with Cons.IH[of m'] show ?case by simp
  qed simp
  then obtain m1 where m1: "fold_sum mgr_call_step cs m = Inr m1" "mg_ok m1" by blast
  have "\<exists>m2. mgr_Stop tid now m1 = Inr m2 \<and>
    (\<exists>e. mgr_SendInput tid inp now' m2 = Inr (Some e, m2)) \<and> (\<exists>e. mgr_SendRaw tid inp now' m2 = Inr (Some e, m2))"
  proof (cases "Get tid m1")
    case None
    then show ?thesis by (simp add: mgr_Stop_def mgr_SendInput_def mgr_SendRaw_def)
  next
    case (Some h)
    show ?thesis
    proof (cases h)
      case (HSession r)
      note r = mg_okD(1)[OF m1(2), of tid r]
      obtain t where t: "sess_stop now (m_ptys m1 ! r) = Inr t" "sess_not_live t"
        using pty.stop_total[of "m_ptys m1 ! r" now] r Some HSession by auto
      let ?m2 = "m1\<lparr>m_ptys := (m_ptys m1)[r := t]\<rparr>"
      have g: "Get tid ?m2 = Some (HSession r)" "m_ptys ?m2 ! r = t" using Some HSession r by (simp_all add: Get_def)
      have "mgr_Stop tid now m1 = Inr ?m2" using Some HSession t(1) by (simp add: mgr_Stop_def on_handle_def)
      moreover obtain e where "sess_SendInput inp now' t = Inr (Some e, t)" using pty.dead_input[OF t(2)] by blast
      then have "mgr_SendInput tid inp now' ?m2 = Inr (Some e, ?m2)" using g by (simp add: mgr_SendInput_def on_handle_def)
      moreover have "mgr_SendRaw tid inp now' ?m2 = Inr (Some ErrNotLive, ?m2)"
        using g pty.dead_raw[OF t(2) assms(2)] by (simp add: mgr_SendRaw_def on_handle_def)
      ultimately show ?thesis by blast
    next
      case (HExternal r)
      note r = mg_okD(2)[OF m1(2), of tid r]
      obtain t where t: "ext_Stop now (m_exts m1 ! r) = Inr t" "not_live t"
        using exth.stop_total[of "m_exts m1 ! r" now] r Some HExternal by auto
      let ?m2 = "m1\<lparr>m_exts := (m_exts m1)[r := t]\<rparr>"
      have g: "Get tid ?m2 = Some (HExternal r)" "m_exts ?m2 ! r = t" using Some HExternal r by (simp_all add: Get_def)
      have "mgr_Stop tid now m1 = Inr ?m2" using Some HExternal t(1) by (simp add: mgr_Stop_def on_handle_def)
      moreover obtain e where "ext_SendInput inp now' t = Inr (Some e, t)" using exth.dead_input[OF t(2)] by blast
      then have "mgr_SendInput tid inp now' ?m2 = Inr (Some e, ?m2)" using g by (simp add: mgr_SendInput_def on_handle_def)
      moreover have "mgr_SendRaw tid inp now' ?m2 = Inr (Some ErrNotLive, ?m2)"
        using g exth.dead_raw[OF t(2) assms(2)] by (simp add: mgr_SendRaw_def on_handle_def)
      ultimately show ?thesis by blast
    qed
  qed
  with m1(1) show ?thesis by blast
qed

subsection \<open>Witnesses\<close>

definition ex_bound :: "gostring \<Rightarrow> time \<Rightarrow> ExternalSession" where
  "ex_bound sid t = (blank_session t)\<lparr>x_claudeSessionID := sid, x_rebindListener := True\<rparr>"

definition ex_entry :: "nat \<Rightarrow> managedSession" where
  "ex_entry r = \<lparr>ms_session = HExternal r, ms_external = Some r, ms_createdAt = 1\<rparr>"

text \<open>Two live sessions that were both bound to \<open>s\<close>, the second one last.\<close>

definition ex_mgr :: Manager where
  "ex_mgr = \<lparr>m_sessions = [(''t1'', ex_entry 0), (''t2'', ex_entry 1)], m_sidIndex = [(''s'', 1)],
     m_ptys = [], m_exts = [ex_bound ''s'' 10, ex_bound ''s'' 500]\<rparr>"

lemma ex_bound_ok: "ext_ok (ex_bound sid t)"
  using xinv_blank[of t] by (simp add: ext_ok_def ex_bound_def xinv_def closed_ok_def)

lemma ex_mgr_ok: "mg_ok ex_mgr"
  by (simp add: mg_ok_def ex_mgr_def ex_entry_def entry_ok_def ex_bound_ok)

definition ex_msys :: msys where
  "ex_msys = \<lparr>mg = \<lparr>m_sessions = [(''t1'', \<lparr>ms_session = HExternal 0, ms_external = Some 0, ms_createdAt = 2\<rparr>)],
       m_sidIndex = [], m_ptys = [], m_exts = [SetRebindListener ex_new]\<rparr>, calls = [], waits = [(''t1'', 0)]\<rparr>"

lemma ex_msys_reachable: "mreachable ex_msys"
proof -
  have "RegisterExternal ''t1'' [] 1 2 NewManager = Inr (Inr (''t1'', 0), mg ex_msys)"
    by (simp add: RegisterExternal_def ex_new_eq NewManager_def ex_msys_def Let_def)
  then show ?thesis
    using mreachable_step[OF mreachable_start m_register[of "''t1''" "[]" 1 2 "\<lparr>mg = NewManager, calls = [], waits = []\<rparr>" "''t1''" 0]]
    by (simp add: ex_msys_def)
qed

text \<open>Two rebinds, each followed by its listener call.\<close>

definition ex_rebound :: ExternalSession where
  "ex_rebound = snd (BindSessionMetadata ''s1'' [] 5 (SetRebindListener ex_new))"

definition ex_moved :: msys where
  "ex_moved = ex_msys\<lparr>mg := (mg ex_msys)\<lparr>m_exts := [ex_rebound], m_sidIndex := [(''s1'', 0)]\<rparr>\<rparr>"

lemma ex_moved_reachable: "mreachable ex_moved"
proof -
  have b: "BindSessionMetadata ''s1'' [] 5 (SetRebindListener ex_new) = (([], True, Some ([], ''s1'')), ex_rebound)"
    by (simp add: ex_rebound_def) (simp add: BindSessionMetadata_def SetRebindListener_def ex_new_def blank_session_def)
  have 1: "mreachable (ex_msys\<lparr>mg := (mg ex_msys)\<lparr>m_exts := [ex_rebound]\<rparr>, calls := [([], ''s1'', 0)]\<rparr>)"
    using mreachable_step[OF ex_msys_reachable m_bind[of 0 ex_msys "''s1''" "[]" 5]] b by (simp add: ex_msys_def)
  show ?thesis
    using mreachable_step[OF 1 m_listener[of "[]" "''s1''" 0]]
    by (simp add: ex_moved_def ex_msys_def rebind_listener_def)
qed

theorem lookup_never_misroutes_witness:
  "il_Ext (LookupExternalForInject ''s1'' (mg ex_moved)) = Some 0 \<and>
   FindExternalBySessionID ''s1'' (mg ex_moved) = Some 0 \<and> ''s1'' \<in> set (sid_history (m_exts (mg ex_moved) ! 0))"
proof -
  have l: "LookupExternalForInject ''s1'' (mg ex_moved) = \<lparr>il_Ext = Some 0, il_Drifted = False, il_CurrentSID = ''s1''\<rparr>"
    by (simp add: LookupExternalForInject_def ex_moved_def ex_msys_def ex_rebound_def BindSessionMetadata_def
        SetRebindListener_def ex_new_def blank_session_def live_status_def session_consts)
  show ?thesis using lookup_never_misroutes[OF ex_moved_reachable l] unfolding l by (simp del: One_nat_def) (elim conjE, simp only:)
qed

theorem rebind_hides_live_owner_witness:
  "\<exists>t. FindExternalBySessionID ''s'' ex_mgr = Some 1 \<and>
    FindExternalBySessionID ''s'' (rebind_listener ''s'' ''n'' 0 (ex_mgr\<lparr>m_exts := (m_exts ex_mgr)[0 := t]\<rparr>)) = None"
proof -
  obtain prev changed call t where b: "BindSessionMetadata ''n'' [] 9 (m_exts ex_mgr ! 0) = ((prev, changed, call), t)"
    by (metis prod_cases3 surj_pair)
  have f: "FindExternalBySessionID ''s'' ex_mgr = Some 1"
    by (simp add: FindExternalBySessionID_def ex_mgr_def ex_bound_def blank_session_def live_status_def session_consts)
  have "FindExternalBySessionID ''s'' (rebind_listener ''s'' ''n'' 0 (ex_mgr\<lparr>m_exts := (m_exts ex_mgr)[0 := t]\<rparr>)) = None"
    using rebind_hides_live_owner[of 0 ex_mgr 1 "''s''" "''n''" "[]" 9 prev changed call t] b f
    by (simp add: Let_def) (simp add: ex_mgr_def ex_bound_def blank_session_def live_status_def session_consts)
  with f show ?thesis by blast
qed

theorem cleanup_removes_successor_witness:
  "\<exists>r' m'. RegisterExternal ''t1'' [] 1 7 (reap_forget ''t1'' 0 ex_mgr) = Inr (Inr (''t1'', r'), m') \<and>
     live_status (m_exts m' ! r') \<and> GetExternal ''t1'' (external_cleanup ''t1'' 0 m') = None"
proof -
  have g: "alist_get (m_sessions ex_mgr) ''t1'' = Some (ex_entry 0)" "ms_external (ex_entry 0) = Some 0"
    by (simp_all add: ex_mgr_def ex_entry_def)
  obtain res where r: "RegisterExternal ''t1'' [] 1 7 (reap_forget ''t1'' 0 ex_mgr) = Inr res"
    by (cases "RegisterExternal ''t1'' [] 1 7 (reap_forget ''t1'' 0 ex_mgr)")
      (auto simp: RegisterExternal_def ex_new_eq Let_def split: if_splits)
  from cleanup_removes_successor[OF g _ r, of "''x''" 9] r show ?thesis by auto
qed

theorem reap_exactly_stale_witness:
  "\<exists>out m'. ReapStalePTYExternal 100 520 521 ex_mgr = Inr (out, m') \<and> map sum_ID out = [''t1''] \<and>
     alist_get (m_sessions m') ''t1'' = None \<and> alist_get (m_sessions m') ''t2'' = Some (ex_entry 1)"
proof -
  have v: "entry_abandoned 100 520 ex_mgr (ex_entry 0)" "\<not> entry_abandoned 100 520 ex_mgr (ex_entry 1)"
    by (simp_all add: entry_abandoned_def ex_entry_def ex_mgr_def abandoned_def ex_bound_def blank_session_def session_consts)
  have g: "alist_get (m_sessions ex_mgr) ''t1'' = Some (ex_entry 0)" "alist_get (m_sessions ex_mgr) ''t2'' = Some (ex_entry 1)"
    "map fst (filter (\<lambda>(_, ms). entry_abandoned 100 520 ex_mgr ms) (m_sessions ex_mgr)) = [''t1'']"
    using v by (simp_all add: ex_mgr_def)
  from reap_exactly_stale[OF ex_mgr_ok, of 100 520 521] show ?thesis using v g by auto
qed

theorem stopped_terminal_refuses_input_witness:
  "\<exists>m2. mgr_Stop ''t2'' 7 ex_mgr = Inr m2 \<and> (\<exists>e. mgr_SendRaw ''t2'' ''x'' 8 m2 = Inr (Some e, m2))"
  using stopped_terminal_refuses_input[OF ex_mgr_ok, of "''x''" "[]" "''t2''" 7 8] by auto

end
