(* ===== verification/Batcher.thy ===== *)
theory Batcher
  imports GoStrings
begin

section \<open>The terminal event batcher\<close>

text \<open>
  \<open>daemon/internal/control/terminal_batcher.go\<close>: output of a terminal is collected into
  batches before it goes to the remote side, and every batch is kept in a ring of bounded
  size and age from which a late subscriber is served. A critical section is one definition;
  \<open>send\<close> appends to \<open>b_sent\<close>. The timer of a batch only calls \<open>FlushTerminal\<close>, which may
  happen at any moment, so a timer is not part of the state. The maps whose missing entries
  read as zero values are functions. The methods do nothing on a nil receiver; the receiver
  here is not nil.
\<close>

subsection \<open>State\<close>

record TerminalEvent =
  te_RequestID :: gostring
  te_TerminalSessionID :: gostring
  te_Seq :: int
  te_SeqStart :: int
  te_SeqEnd :: int
  te_Kind :: gostring
  te_SessionStatus :: gostring
  te_TurnStatus :: gostring
  te_Payload :: gostring
  te_Error :: gostring
  te_Timestamp :: time
  te_Truncated :: bool
  te_SessionID :: gostring
  te_Agent :: gostring
  te_Cwd :: gostring
  te_Driver :: gostring

definition empty_event :: TerminalEvent where
  "empty_event =
     \<lparr>te_RequestID = [], te_TerminalSessionID = [], te_Seq = 0, te_SeqStart = 0, te_SeqEnd = 0, te_Kind = [],
      te_SessionStatus = [], te_TurnStatus = [], te_Payload = [], te_Error = [], te_Timestamp = 0,
      te_Truncated = False, te_SessionID = [], te_Agent = [], te_Cwd = [], te_Driver = []\<rparr>"

record terminalEventBatch =
  tb_event :: TerminalEvent
  tb_bytes :: int
  tb_firstSeq :: int
  tb_lastSeq :: int

record terminalRingEntry =
  re_at :: time
  re_bytes :: int
  re_payload :: gostring
  re_seqStart :: int
  re_seqEnd :: int

record terminalEventBatcher =
  b_send :: bool
  b_shouldSend :: "(TerminalEvent \<Rightarrow> bool) option"
  b_flushEvery :: duration
  b_maxBytes :: int
  b_ringMaxBytes :: int
  b_ringMaxAge :: duration
  b_pending :: "(gostring \<times> terminalEventBatch) list"
  b_rings :: "gostring \<Rightarrow> terminalRingEntry list"
  b_ringTruncated :: "gostring \<Rightarrow> bool"
  b_deliveredSeq :: "gostring \<Rightarrow> int"
  b_closed :: bool
  b_sent :: "TerminalEvent list"

definition newTerminalEventBatcher :: "bool \<Rightarrow> duration \<Rightarrow> int \<Rightarrow> int \<Rightarrow> duration \<Rightarrow> terminalEventBatcher" where
  "newTerminalEventBatcher send flushEvery maxBytes ringMaxBytes ringMaxAge =
     \<lparr>b_send = send, b_shouldSend = None,
      b_flushEvery = (if flushEvery \<le> 0 then 200 * millisecond else flushEvery),
      b_maxBytes = (if maxBytes \<le> 0 then 16 * 1024 else maxBytes),
      b_ringMaxBytes = (if ringMaxBytes \<le> 0 then 1024 * 1024 else ringMaxBytes),
      b_ringMaxAge = (if ringMaxAge \<le> 0 then 5 * minute else ringMaxAge),
      b_pending = [], b_rings = (\<lambda>_. []), b_ringTruncated = (\<lambda>_. False), b_deliveredSeq = (\<lambda>_. 0),
      b_closed = False, b_sent = []\<rparr>"

definition SetShouldSend :: "(TerminalEvent \<Rightarrow> bool) option \<Rightarrow> terminalEventBatcher \<Rightarrow> terminalEventBatcher" where
  "SetShouldSend fn b = b\<lparr>b_shouldSend := fn\<rparr>"

subsection \<open>The ring\<close>

text \<open>
  The loop of \<open>recordRingLocked\<close>, from the newest entry to the oldest: the start of what is
  kept and whether something is dropped. \<open>i\<close> entries are still to be looked at.
\<close>

fun ring_start :: "terminalRingEntry list \<Rightarrow> time \<Rightarrow> int \<Rightarrow> nat \<Rightarrow> int \<Rightarrow> nat \<times> bool" where
  "ring_start ring cutoff maxBytes 0 acc = (0, False)"
| "ring_start ring cutoff maxBytes (Suc i) acc =
     (if re_at (ring ! i) < cutoff then (i + 1, True)
      else let acc' = acc + re_bytes (ring ! i) in
        if acc' > maxBytes then (i + 1, True) else ring_start ring cutoff maxBytes i acc')"

definition recordRingLocked ::
  "gostring \<Rightarrow> TerminalEvent \<Rightarrow> int \<Rightarrow> time \<Rightarrow> time \<Rightarrow> terminalEventBatcher \<Rightarrow> bool \<times> terminalEventBatcher" where
  "recordRingLocked key evt bytes at0 now b =
     (let at = (if at0 = 0 then now else at0);
          ring = b_rings b key @ [\<lparr>re_at = at, re_bytes = bytes, re_payload = te_Payload evt,
                    re_seqStart = te_SeqStart evt, re_seqEnd = te_SeqEnd evt\<rparr>];
          (start, truncated) = ring_start ring (at - b_ringMaxAge b) (b_ringMaxBytes b) (length ring) 0;
          ring' = (if start > 0 then drop start ring else ring)
      in (truncated,
          b\<lparr>b_rings := (b_rings b)(key := ring'),
            b_ringTruncated := (if truncated then (b_ringTruncated b)(key := True) else b_ringTruncated b)\<rparr>))"

definition sealed_event :: "terminalEventBatch \<Rightarrow> TerminalEvent" where
  "sealed_event entry =
     (let e1 = (if tb_firstSeq entry > 0 then (tb_event entry)\<lparr>te_SeqStart := tb_firstSeq entry\<rparr> else tb_event entry)
      in if tb_lastSeq entry > 0 then e1\<lparr>te_SeqEnd := tb_lastSeq entry\<rparr> else e1)"

definition takeLocked :: "gostring \<Rightarrow> time \<Rightarrow> terminalEventBatcher \<Rightarrow> TerminalEvent list \<times> terminalEventBatcher" where
  "takeLocked key now b =
     (case alist_get (b_pending b) key of
        None \<Rightarrow> ([], b)
      | Some entry \<Rightarrow>
          let evt = sealed_event entry;
              (truncated, b1) = recordRingLocked key evt (tb_bytes entry) (te_Timestamp evt) now
                 (b\<lparr>b_pending := alist_del key (b_pending b)\<rparr>)
          in ([evt\<lparr>te_Truncated := truncated\<rparr>], b1))"

subsection \<open>Delivery\<close>

definition MarkDelivered :: "TerminalEvent \<Rightarrow> terminalEventBatcher \<Rightarrow> terminalEventBatcher" where
  "MarkDelivered evt b =
     (if te_TerminalSessionID evt = [] \<or> te_Kind evt \<noteq> ''text_delta'' then b
      else let lastSeq = (if te_SeqEnd evt = 0 then te_Seq evt else te_SeqEnd evt) in
        if lastSeq = 0 then b
        else if lastSeq > b_deliveredSeq b (te_TerminalSessionID evt)
             then b\<lparr>b_deliveredSeq := (b_deliveredSeq b)(te_TerminalSessionID evt := lastSeq)\<rparr>
             else b)"

definition emit :: "TerminalEvent \<Rightarrow> terminalEventBatcher \<Rightarrow> terminalEventBatcher" where
  "emit evt b =
     (if \<not> b_send b then b
      else if (case b_shouldSend b of Some f \<Rightarrow> \<not> f evt | None \<Rightarrow> False) then b
      else MarkDelivered evt (b\<lparr>b_sent := b_sent b @ [evt]\<rparr>))"

definition emit_all :: "TerminalEvent list \<Rightarrow> terminalEventBatcher \<Rightarrow> terminalEventBatcher" where
  "emit_all evts b = fold emit evts b"

definition FlushTerminal :: "gostring \<Rightarrow> time \<Rightarrow> terminalEventBatcher \<Rightarrow> terminalEventBatcher" where
  "FlushTerminal tid now b =
     (if tid = [] then b
      else if b_closed b then b
      else case takeLocked tid now b of (toSend, b1) \<Rightarrow> emit_all toSend b1)"

definition new_batch :: "TerminalEvent \<Rightarrow> terminalEventBatch" where
  "new_batch evt = \<lparr>tb_event = evt, tb_bytes = int (length (te_Payload evt)), tb_firstSeq = te_Seq evt, tb_lastSeq = te_Seq evt\<rparr>"

definition extend_batch :: "TerminalEvent \<Rightarrow> terminalEventBatch \<Rightarrow> terminalEventBatch" where
  "extend_batch evt entry =
     \<lparr>tb_event = (tb_event entry)\<lparr>te_Payload := te_Payload (tb_event entry) @ te_Payload evt, te_Seq := te_Seq evt,
        te_SessionStatus := te_SessionStatus evt, te_TurnStatus := te_TurnStatus evt, te_Timestamp := te_Timestamp evt\<rparr>,
      tb_bytes = tb_bytes entry + int (length (te_Payload evt)),
      tb_firstSeq = (if tb_firstSeq entry = 0 \<or> (te_Seq evt > 0 \<and> te_Seq evt < tb_firstSeq entry)
                     then te_Seq evt else tb_firstSeq entry),
      tb_lastSeq = (if te_Seq evt > tb_lastSeq entry then te_Seq evt else tb_lastSeq entry)\<rparr>"

text \<open>The critical section of \<open>Add\<close>, for an open batcher.\<close>

definition add_locked :: "TerminalEvent \<Rightarrow> time \<Rightarrow> terminalEventBatcher \<Rightarrow> TerminalEvent list \<times> terminalEventBatcher" where
  "add_locked evt now b =
     (let key = te_TerminalSessionID evt;
          entry = (case alist_get (b_pending b) key of None \<Rightarrow> new_batch evt | Some e \<Rightarrow> extend_batch evt e);
          b1 = b\<lparr>b_pending := alist_put key entry (b_pending b)\<rparr>
      in if tb_bytes entry \<ge> b_maxBytes b then takeLocked key now b1 else ([], b1))"

definition Add :: "TerminalEvent \<Rightarrow> time \<Rightarrow> terminalEventBatcher \<Rightarrow> terminalEventBatcher" where
  "Add evt now b =
     (if te_Kind evt \<noteq> ''text_delta'' \<or> te_Payload evt = [] then emit evt (FlushTerminal (te_TerminalSessionID evt) now b)
      else if te_TerminalSessionID evt = [] then emit evt b
      else if b_closed b then b
      else case add_locked evt now b of (toSend, b1) \<Rightarrow> emit_all toSend b1)"

definition DropTerminal :: "gostring \<Rightarrow> time \<Rightarrow> terminalEventBatcher \<Rightarrow> terminalEventBatcher" where
  "DropTerminal tid now b = (if tid = [] then b else snd (takeLocked tid now b))"

subsection \<open>Snapshots\<close>

text \<open>The loop over the copied ring: payload, first and last sequence number, latest time.\<close>

definition snapshot_step ::
  "bool \<Rightarrow> int \<Rightarrow> terminalRingEntry \<Rightarrow> gostring \<times> int \<times> int \<times> time \<Rightarrow> gostring \<times> int \<times> int \<times> time" where
  "snapshot_step undeliveredOnly delivered entry acc =
     (case acc of (payload, firstSeq, lastSeq, timestamp) \<Rightarrow>
       if undeliveredOnly \<and> re_seqEnd entry > 0 \<and> re_seqEnd entry \<le> delivered then acc
       else (payload @ re_payload entry,
             if firstSeq = 0 \<or> (re_seqStart entry > 0 \<and> re_seqStart entry < firstSeq) then re_seqStart entry else firstSeq,
             if re_seqEnd entry > lastSeq then re_seqEnd entry else lastSeq,
             if re_at entry > timestamp then re_at entry else timestamp))"

definition snapshotTerminal ::
  "gostring \<Rightarrow> bool \<Rightarrow> time \<Rightarrow> time \<Rightarrow> terminalEventBatcher \<Rightarrow> (TerminalEvent \<times> bool) \<times> terminalEventBatcher" where
  "snapshotTerminal tid undeliveredOnly now clock b =
     (if tid = [] then ((empty_event, False), b)
      else if b_closed b then ((empty_event, False), b)
      else let b1 = snd (takeLocked tid now b); ring = b_rings b1 tid in
        if ring = [] then ((empty_event, False), b1)
        else case fold (snapshot_step undeliveredOnly (b_deliveredSeq b1 tid)) ring ([], 0, 0, 0) of
          (payload, firstSeq, lastSeq, timestamp) \<Rightarrow>
            let evt = empty_event\<lparr>te_TerminalSessionID := tid, te_Kind := ''text_delta'', te_Payload := payload,
                  te_SeqStart := firstSeq, te_SeqEnd := lastSeq,
                  te_Timestamp := (if timestamp = 0 then clock else timestamp),
                  te_Truncated := b_ringTruncated b1 tid\<rparr>
            in ((evt, te_Payload evt \<noteq> []), b1))"

definition SnapshotTerminal where
  "SnapshotTerminal tid now clock b = snapshotTerminal tid False now clock b"

definition SnapshotUndeliveredTerminal where
  "SnapshotUndeliveredTerminal tid now clock b = snapshotTerminal tid True now clock b"

fun take_all :: "gostring list \<Rightarrow> time \<Rightarrow> terminalEventBatcher \<Rightarrow> TerminalEvent list \<times> terminalEventBatcher" where
  "take_all [] now b = ([], b)"
| "take_all (k # ks) now b =
     (case takeLocked k now b of (e1, b1) \<Rightarrow> case take_all ks now b1 of (e2, b2) \<Rightarrow> (e1 @ e2, b2))"

definition Close :: "time \<Rightarrow> terminalEventBatcher \<Rightarrow> terminalEventBatcher" where
  "Close now b =
     (if b_closed b then b
      else case take_all (keys (b_pending b)) now (b\<lparr>b_closed := True\<rparr>) of (toSend, b1) \<Rightarrow> emit_all toSend b1)"

end
