(* ===== verification/BatcherProps.thy ===== *)
theory BatcherProps
  imports Batcher
begin

section \<open>The terminal event batcher: properties\<close>

subsection \<open>The ring\<close>

definition ring_bytes :: "terminalRingEntry list \<Rightarrow> int" where
  "ring_bytes ring = sum_list (map re_bytes ring)"

lemma ring_bytes_simps [simp]:
  "ring_bytes [] = 0" "ring_bytes (e # r) = re_bytes e + ring_bytes r" "ring_bytes (r @ r') = ring_bytes r + ring_bytes r'"
  by (simp_all add: ring_bytes_def)

lemma drop_nth: "i < length xs \<Longrightarrow> drop i xs = xs ! i # drop (Suc i) xs"
  by (simp add: Cons_nth_drop_Suc)

lemma ring_start_spec:
  assumes "ring_start ring cutoff m i acc = (n, tr)" "i \<le> length ring" "acc = ring_bytes (drop i ring)" "acc \<le> m"
    and "\<forall>e\<in>set (drop i ring). cutoff \<le> re_at e"
  shows "n \<le> i \<and> tr = (n > 0) \<and> ring_bytes (drop n ring) \<le> m \<and> (\<forall>e\<in>set (drop n ring). cutoff \<le> re_at e) \<and>
    (n > 0 \<longrightarrow> re_at (ring ! (n - 1)) < cutoff \<or> m < ring_bytes (drop (n - 1) ring))"
  using assms
proof (induction i arbitrary: acc)
  case 0
  then show ?case by auto
next
  case (Suc i)
  have d: "drop i ring = ring ! i # drop (Suc i) ring" using Suc.prems(2) by (intro drop_nth) simp
  show ?case
  proof (cases "re_at (ring ! i) < cutoff \<or> m < acc + re_bytes (ring ! i)")
    case True
    then have "n = Suc i" "tr" using Suc.prems(1) by (auto simp: Let_def split: if_splits)
    then show ?thesis using True Suc.prems(3-5) d by auto
  next
    case False
    then have "ring_start ring cutoff m i (acc + re_bytes (ring ! i)) = (n, tr)" using Suc.prems(1) by (auto simp: Let_def split: if_splits)
    from Suc.IH[OF this] Suc.prems False d show ?thesis by auto
  qed
qed

definition new_entry :: "TerminalEvent \<Rightarrow> int \<Rightarrow> time \<Rightarrow> terminalRingEntry" where
  "new_entry evt bytes at = \<lparr>re_at = at, re_bytes = bytes, re_payload = te_Payload evt,
     re_seqStart = te_SeqStart evt, re_seqEnd = te_SeqEnd evt\<rparr>"

text \<open>
  The ring keeps the longest suffix that fits: sealing a batch appends it and keeps the
  last entries that are within the age limit and together within the size limit, and no
  fewer: if anything is dropped, the newest dropped entry was too old or did not fit. The
  result tells whether something was dropped, and the terminal is marked truncated then.
\<close>

theorem ring_keeps_longest_suffix:
  assumes "0 \<le> b_ringMaxBytes b"
  shows "\<exists>n tr b'. recordRingLocked key evt bytes at now b = (tr, b') \<and>
    (let full = b_rings b key @ [new_entry evt bytes (if at = 0 then now else at)];
         cutoff = (if at = 0 then now else at) - b_ringMaxAge b in
      b_rings b' = (b_rings b)(key := drop n full) \<and> tr = (n > 0) \<and> n \<le> length full \<and>
      ring_bytes (drop n full) \<le> b_ringMaxBytes b \<and> (\<forall>e\<in>set (drop n full). cutoff \<le> re_at e) \<and>
      (n > 0 \<longrightarrow> re_at (full ! (n - 1)) < cutoff \<or> b_ringMaxBytes b < ring_bytes (drop (n - 1) full)) \<and>
      b_ringTruncated b' key = (b_ringTruncated b key \<or> tr))"
proof -
  let ?at = "if at = 0 then now else at"
  let ?full = "b_rings b key @ [new_entry evt bytes ?at]"
  obtain n tr where r: "ring_start ?full (?at - b_ringMaxAge b) (b_ringMaxBytes b) (length ?full) 0 = (n, tr)" by fastforce
  from ring_start_spec[OF this] assms have s: "n \<le> length ?full" "tr = (n > 0)"
    "ring_bytes (drop n ?full) \<le> b_ringMaxBytes b" "\<forall>e\<in>set (drop n ?full). ?at - b_ringMaxAge b \<le> re_at e"
    "n > 0 \<longrightarrow> re_at (?full ! (n - 1)) < ?at - b_ringMaxAge b \<or> b_ringMaxBytes b < ring_bytes (drop (n - 1) ?full)"
    by auto
  have "\<exists>b'. recordRingLocked key evt bytes at now b = (tr, b') \<and> b_rings b' = (b_rings b)(key := drop n ?full) \<and>
      b_ringTruncated b' key = (b_ringTruncated b key \<or> tr)"
    using r s(2) by (cases n) (auto simp: recordRingLocked_def new_entry_def Let_def)
  with s show ?thesis unfolding Let_def by blast
qed

subsection \<open>The invariant\<close>

definition batch_ok :: "int \<Rightarrow> gostring \<Rightarrow> terminalEventBatch \<Rightarrow> bool" where
  "batch_ok m key e \<longleftrightarrow>
     key \<noteq> [] \<and> te_TerminalSessionID (tb_event e) = key \<and> te_Kind (tb_event e) = ''text_delta'' \<and>
     te_Payload (tb_event e) \<noteq> [] \<and> tb_bytes e = int (length (te_Payload (tb_event e))) \<and> tb_bytes e < m"

definition binv :: "terminalEventBatcher \<Rightarrow> bool" where
  "binv b \<longleftrightarrow> 0 < b_maxBytes b \<and> 0 < b_ringMaxBytes b \<and> distinct (keys (b_pending b)) \<and>
     (\<forall>(k, e)\<in>set (b_pending b). batch_ok (b_maxBytes b) k e) \<and>
     (\<forall>k. ring_bytes (b_rings b k) \<le> b_ringMaxBytes b \<and>
        (\<forall>e\<in>set (b_rings b k). re_bytes e = int (length (re_payload e))))"

lemma binvD:
  assumes "binv b"
  shows "0 < b_maxBytes b" "0 < b_ringMaxBytes b" "distinct (keys (b_pending b))"
    and "(k, e) \<in> set (b_pending b) \<Longrightarrow> batch_ok (b_maxBytes b) k e"
    and "ring_bytes (b_rings b k) \<le> b_ringMaxBytes b"
    and "x \<in> set (b_rings b k) \<Longrightarrow> re_bytes x = int (length (re_payload x))"
  using assms by (auto simp: binv_def)

lemma recordRing_frame:
  assumes "recordRingLocked key evt bytes at now b = (tr, b')"
  shows "b_maxBytes b' = b_maxBytes b" "b_ringMaxBytes b' = b_ringMaxBytes b" "b_pending b' = b_pending b"
    "b_sent b' = b_sent b" "b_closed b' = b_closed b" "b_send b' = b_send b" "b_shouldSend b' = b_shouldSend b"
    "b_deliveredSeq b' = b_deliveredSeq b"
  using assms by (auto simp: recordRingLocked_def Let_def split: prod.splits)

lemma sealed_event_simps [simp]:
  "te_Payload (sealed_event e) = te_Payload (tb_event e)"
  "te_TerminalSessionID (sealed_event e) = te_TerminalSessionID (tb_event e)"
  "te_Kind (sealed_event e) = te_Kind (tb_event e)"
  "te_Timestamp (sealed_event e) = te_Timestamp (tb_event e)"
  "te_SeqEnd (sealed_event e) = (if tb_lastSeq e > 0 then tb_lastSeq e else te_SeqEnd (tb_event e))"
  by (simp_all add: sealed_event_def Let_def)

text \<open>What \<open>takeLocked\<close> does to the state and which events it returns.\<close>

lemma takeLocked_None: "alist_get (b_pending b) key = None \<Longrightarrow> takeLocked key now b = ([], b)"
  by (simp add: takeLocked_def)

lemma takeLocked_Some:
  assumes "alist_get (b_pending b) key = Some e"
  shows "\<exists>tr b1. takeLocked key now b = ([(sealed_event e)\<lparr>te_Truncated := tr\<rparr>], b1) \<and>
    recordRingLocked key (sealed_event e) (tb_bytes e) (te_Timestamp (tb_event e)) now
      (b\<lparr>b_pending := alist_del key (b_pending b)\<rparr>) = (tr, b1)"
  using assms by (auto simp: takeLocked_def Let_def split: prod.splits)

lemma recordRing_ring:
  assumes "recordRingLocked key evt bytes at now b = (tr, b')" "0 \<le> b_ringMaxBytes b"
  shows "\<exists>n. b_rings b' = (b_rings b)(key := drop n (b_rings b key @ [new_entry evt bytes (if at = 0 then now else at)])) \<and>
    ring_bytes (b_rings b' key) \<le> b_ringMaxBytes b"
proof -
  let ?full = "b_rings b key @ [new_entry evt bytes (if at = 0 then now else at)]"
  obtain n tr' where r: "ring_start ?full ((if at = 0 then now else at) - b_ringMaxAge b) (b_ringMaxBytes b) (length ?full) 0 = (n, tr')"
    by fastforce
  with assms(1) have "b_rings b' = (b_rings b)(key := drop n ?full)"
    by (cases n) (auto simp: recordRingLocked_def new_entry_def Let_def)
  moreover have "ring_bytes (drop n ?full) \<le> b_ringMaxBytes b" using ring_start_spec[OF r] assms(2) by auto
  ultimately show ?thesis by (intro exI[of _ n]) simp
qed

lemma binv_record:
  assumes "binv b" "recordRingLocked key evt (int (length (te_Payload evt))) at now b = (tr, b')"
  shows "binv b'"
proof -
  note f = recordRing_frame[OF assms(2)]
  from recordRing_ring[OF assms(2)] binvD(2)[OF assms(1)] obtain n where
    n: "b_rings b' = (b_rings b)(key := drop n (b_rings b key @ [new_entry evt (int (length (te_Payload evt))) (if at = 0 then now else at)]))"
    "ring_bytes (b_rings b' key) \<le> b_ringMaxBytes b" by auto
  have "\<forall>e\<in>set (b_rings b' k). re_bytes e = int (length (re_payload e))" for k
    using binvD(6)[OF assms(1), of _ k] by (auto simp: n(1) new_entry_def dest: in_set_dropD)
  moreover have "ring_bytes (b_rings b' k) \<le> b_ringMaxBytes b" for k
    using n binvD(5)[OF assms(1), of k] by (cases "k = key") auto
  ultimately show ?thesis using assms(1) by (simp add: binv_def f)
qed

lemma take_binv:
  assumes "0 < b_maxBytes b \<and> 0 < b_ringMaxBytes b \<and> distinct (keys (b_pending b))"
    and "\<And>k e. (k, e) \<in> set (b_pending b) \<Longrightarrow> k \<noteq> key \<Longrightarrow> batch_ok (b_maxBytes b) k e"
    and "\<And>k. ring_bytes (b_rings b k) \<le> b_ringMaxBytes b \<and> (\<forall>e\<in>set (b_rings b k). re_bytes e = int (length (re_payload e)))"
    and "alist_get (b_pending b) key = Some e" "tb_bytes e = int (length (te_Payload (tb_event e)))"
  shows "binv (snd (takeLocked key now b))"
proof -
  from takeLocked_Some[OF assms(4), of now] obtain tr b1 where
    t: "takeLocked key now b = ([(sealed_event e)\<lparr>te_Truncated := tr\<rparr>], b1)"
    "recordRingLocked key (sealed_event e) (tb_bytes e) (te_Timestamp (tb_event e)) now
      (b\<lparr>b_pending := alist_del key (b_pending b)\<rparr>) = (tr, b1)" by blast
  have "binv (b\<lparr>b_pending := alist_del key (b_pending b)\<rparr>)" using assms(1-3) by (auto simp: binv_def set_alist_del)
  from binv_record[OF this, of key "sealed_event e"] t assms(5) show ?thesis by simp
qed

lemma binv_take: "binv b \<Longrightarrow> binv (snd (takeLocked key now b))"
proof (cases "alist_get (b_pending b) key")
  case (Some e)
  assume b: "binv b"
  have "batch_ok (b_maxBytes b) key e" using binvD(4)[OF b alist_get_Some_mem[OF Some]] .
  then show ?thesis using b by (intro take_binv[OF _ _ _ Some]) (auto simp: binv_def batch_ok_def)
qed (simp add: takeLocked_None)

lemma emit_frame [simp]:
  "b_pending (emit e b) = b_pending b" "b_rings (emit e b) = b_rings b" "b_maxBytes (emit e b) = b_maxBytes b"
  "b_ringMaxBytes (emit e b) = b_ringMaxBytes b" "b_closed (emit e b) = b_closed b" "b_send (emit e b) = b_send b"
  "b_shouldSend (emit e b) = b_shouldSend b"
  by (auto simp: emit_def MarkDelivered_def Let_def)

lemma mark_frame [simp]:
  "b_pending (MarkDelivered e b) = b_pending b" "b_rings (MarkDelivered e b) = b_rings b"
  "b_maxBytes (MarkDelivered e b) = b_maxBytes b" "b_ringMaxBytes (MarkDelivered e b) = b_ringMaxBytes b"
  "b_closed (MarkDelivered e b) = b_closed b" "b_send (MarkDelivered e b) = b_send b"
  "b_shouldSend (MarkDelivered e b) = b_shouldSend b" "b_sent (MarkDelivered e b) = b_sent b"
  by (auto simp: MarkDelivered_def Let_def)

lemma emit_all_frame [simp]:
  "b_pending (emit_all es b) = b_pending b" "b_rings (emit_all es b) = b_rings b" "b_maxBytes (emit_all es b) = b_maxBytes b"
  "b_ringMaxBytes (emit_all es b) = b_ringMaxBytes b" "b_closed (emit_all es b) = b_closed b" "b_send (emit_all es b) = b_send b"
  "b_shouldSend (emit_all es b) = b_shouldSend b"
  by (induction es arbitrary: b) (simp_all add: emit_all_def)

lemma binv_cong:
  "b_pending b' = b_pending b \<Longrightarrow> b_rings b' = b_rings b \<Longrightarrow> b_maxBytes b' = b_maxBytes b \<Longrightarrow>
   b_ringMaxBytes b' = b_ringMaxBytes b \<Longrightarrow> binv b' = binv b"
  by (simp add: binv_def)

lemma binv_emit_all [simp]: "binv (emit_all es b) = binv b" "binv (emit e b) = binv b" "binv (MarkDelivered e b) = binv b"
  by (intro binv_cong; simp)+

lemma binv_flush: "binv b \<Longrightarrow> binv (FlushTerminal tid now b)"
  using binv_take[of b tid now] by (auto simp: FlushTerminal_def split: prod.splits)

definition next_batch :: "TerminalEvent \<Rightarrow> terminalEventBatcher \<Rightarrow> terminalEventBatch" where
  "next_batch evt b = (case alist_get (b_pending b) (te_TerminalSessionID evt) of
     None \<Rightarrow> new_batch evt | Some e \<Rightarrow> extend_batch evt e)"

lemma next_batch_ok:
  assumes "binv b" "te_Payload evt \<noteq> []" "te_Kind evt = ''text_delta''" "te_TerminalSessionID evt \<noteq> []"
  shows "batch_ok (tb_bytes (next_batch evt b) + 1) (te_TerminalSessionID evt) (next_batch evt b)"
proof (cases "alist_get (b_pending b) (te_TerminalSessionID evt)")
  case None
  then show ?thesis using assms(2-4) by (simp add: next_batch_def new_batch_def batch_ok_def)
next
  case (Some e)
  then have "batch_ok (b_maxBytes b) (te_TerminalSessionID evt) e" using binvD(4)[OF assms(1) alist_get_Some_mem[OF Some]] by simp
  then show ?thesis using assms(2-4) Some by (simp add: next_batch_def extend_batch_def batch_ok_def)
qed

lemma binv_add_locked:
  assumes "binv b" "te_Payload evt \<noteq> []" "te_Kind evt = ''text_delta''" "te_TerminalSessionID evt \<noteq> []"
  shows "binv (snd (add_locked evt now b))"
proof -
  let ?k = "te_TerminalSessionID evt" let ?e = "next_batch evt b"
  let ?b1 = "b\<lparr>b_pending := alist_put ?k ?e (b_pending b)\<rparr>"
  have a: "add_locked evt now b = (if tb_bytes ?e \<ge> b_maxBytes b then takeLocked ?k now ?b1 else ([], ?b1))"
    by (simp add: add_locked_def next_batch_def Let_def)
  have ok: "batch_ok (tb_bytes ?e + 1) ?k ?e" by (rule next_batch_ok[OF assms])
  have old: "batch_ok (b_maxBytes b) k e" if "(k, e) \<in> set (alist_put ?k ?e (b_pending b))" "(k, e) \<noteq> (?k, ?e)" for k e
    using that binvD(4)[OF assms(1)] set_alist_put_subset[of ?k ?e "b_pending b"] by auto
  have uniq: "e = ?e" if "(?k, e) \<in> set (alist_put ?k ?e (b_pending b))" for e
    using that binvD(3)[OF assms(1)] alist_get_eq_Some[of "alist_put ?k ?e (b_pending b)" ?k e] by simp
  show ?thesis
  proof (cases "tb_bytes ?e \<ge> b_maxBytes b")
    case True
    have "binv (snd (takeLocked ?k now ?b1))"
    proof (rule take_binv)
      show "batch_ok (b_maxBytes ?b1) k e" if "(k, e) \<in> set (b_pending ?b1)" "k \<noteq> ?k" for k e
        using old[of k e] that by auto
    qed (use assms(1) ok in \<open>auto simp: binv_def batch_ok_def\<close>)
    with True a show ?thesis by simp
  next
    case False
    have "batch_ok (b_maxBytes b) k e" if "(k, e) \<in> set (alist_put ?k ?e (b_pending b))" for k e
      using old[OF that] ok False by (cases "(k, e) = (?k, ?e)") (auto simp: batch_ok_def)
    with False a assms(1) show ?thesis by (auto simp: binv_def)
  qed
qed

lemma binv_Add: "binv b \<Longrightarrow> binv (Add evt now b)"
  using binv_flush[of b "te_TerminalSessionID evt" now] binv_add_locked[of b evt now]
  by (auto simp: Add_def split: prod.splits)

lemma binv_snapshot: "binv b \<Longrightarrow> binv (snd (snapshotTerminal tid u now clock b))"
  using binv_take[of b tid now] by (auto simp: snapshotTerminal_def Let_def split: prod.splits)

lemma binv_take_all: "binv b \<Longrightarrow> binv (snd (take_all ks now b))"
proof (induction ks arbitrary: b)
  case (Cons k ks)
  have "binv (snd (takeLocked k now b))" using binv_take[OF Cons.prems] .
  from Cons.IH[OF this] show ?case by (auto split: prod.splits)
qed simp

lemma binv_Close: "binv b \<Longrightarrow> binv (Close now b)"
  using binv_take_all[of "b\<lparr>b_closed := True\<rparr>" "keys (b_pending b)" now]
  by (auto simp: Close_def binv_def[of "b\<lparr>b_closed := True\<rparr>"] binv_def[of b] split: prod.splits)

subsection \<open>Runs\<close>

datatype batcher_op =
    OpAdd TerminalEvent | OpFlush gostring | OpDrop gostring | OpMark TerminalEvent
  | OpSnapshot gostring bool | OpShouldSend "(TerminalEvent \<Rightarrow> bool) option" | OpClose

definition batcher_step :: "batcher_op \<times> time \<Rightarrow> terminalEventBatcher \<Rightarrow> terminalEventBatcher" where
  "batcher_step op b =
     (case op of
        (OpAdd evt, now) \<Rightarrow> Add evt now b
      | (OpFlush tid, now) \<Rightarrow> FlushTerminal tid now b
      | (OpDrop tid, now) \<Rightarrow> DropTerminal tid now b
      | (OpMark evt, now) \<Rightarrow> MarkDelivered evt b
      | (OpSnapshot tid u, now) \<Rightarrow> snd (snapshotTerminal tid u now now b)
      | (OpShouldSend f, now) \<Rightarrow> SetShouldSend f b
      | (OpClose, now) \<Rightarrow> Close now b)"

lemma binv_step: "binv b \<Longrightarrow> binv (batcher_step op b)"
  by (cases op; cases "fst op")
    (auto simp: batcher_step_def SetShouldSend_def DropTerminal_def binv_Add binv_flush binv_snapshot binv_Close binv_take
      binv_cong[of "b\<lparr>b_shouldSend := f\<rparr>" b for f])

lemma binv_new: "binv (newTerminalEventBatcher send every m rm age)"
  by (simp add: newTerminalEventBatcher_def binv_def)

interpretation batcher: invariant_system
  "\<lambda>b. \<exists>send every m rm age. b = newTerminalEventBatcher send every m rm age" "\<lambda>b c. \<exists>op. c = batcher_step op b" binv
  by unfold_locales (auto simp: binv_new binv_step)

lemma run_reach:
  "reach I (\<lambda>b c. \<exists>op. c = batcher_step op b) b \<Longrightarrow> reach I (\<lambda>b c. \<exists>op. c = batcher_step op b) (fold batcher_step ops b)"
proof (induction ops arbitrary: b)
  case (Cons op ops)
  then have "reach I (\<lambda>b c. \<exists>op. c = batcher_step op b) (batcher_step op b)" by (blast intro: reach_step)
  from Cons.IH[OF this] show ?case by simp
qed simp

lemma limits_step: "b_ringMaxBytes (batcher_step op b) = b_ringMaxBytes b \<and> b_maxBytes (batcher_step op b) = b_maxBytes b"
proof -
  have t: "b_ringMaxBytes (snd (takeLocked k now b)) = b_ringMaxBytes b \<and> b_maxBytes (snd (takeLocked k now b)) = b_maxBytes b" for k now b
    using takeLocked_None[of b k now] takeLocked_Some[of b k _ now] recordRing_frame(1,2)
    by (cases "alist_get (b_pending b) k") fastforce+
  have ta: "b_ringMaxBytes (snd (take_all ks now b)) = b_ringMaxBytes b \<and> b_maxBytes (snd (take_all ks now b)) = b_maxBytes b" for ks now b
  proof (induction ks arbitrary: b)
    case (Cons k ks)
    then show ?case using t[of k now b] by (auto split: prod.splits) (metis snd_conv)+
  qed simp
  have al: "b_ringMaxBytes (snd (add_locked evt now b)) = b_ringMaxBytes b \<and> b_maxBytes (snd (add_locked evt now b)) = b_maxBytes b" for evt now
    using t by (simp add: add_locked_def Let_def)
  have f: "b_ringMaxBytes (FlushTerminal k now b) = b_ringMaxBytes b \<and> b_maxBytes (FlushTerminal k now b) = b_maxBytes b" for k now b
    using t[of k now b] by (auto simp: FlushTerminal_def split: prod.splits)
  show ?thesis
  proof (cases op)
    case (Pair o1 now)
    show ?thesis
      using t[of _ now b] ta[of "keys (b_pending b)" now "b\<lparr>b_closed := True\<rparr>"] al[of _ now] f[of _ now b]
      by (cases o1) (auto simp: Pair batcher_step_def Add_def DropTerminal_def snapshotTerminal_def SetShouldSend_def
          Close_def Let_def case_prod_beta)
  qed
qed

definition pending_text :: "gostring \<Rightarrow> terminalEventBatcher \<Rightarrow> gostring" where
  "pending_text t b = (case alist_get (b_pending b) t of None \<Rightarrow> [] | Some e \<Rightarrow> te_Payload (tb_event e))"

text \<open>
  C31. Memory is bounded: after any sequence of operations on a new batcher (events of any
  kind, timers, drops, snapshots, delivery marks, changes of the filter, close), the output
  waiting for a terminal is shorter than the batch limit and the ring of a terminal holds
  no more bytes of payload than its limit.
\<close>

theorem batcher_memory_bounded:
  "let b0 = newTerminalEventBatcher send every m rm age; b = fold batcher_step ops b0 in
     int (length (pending_text k b)) < b_maxBytes b0 \<and>
     int (length (concat (map re_payload (b_rings b k)))) \<le> b_ringMaxBytes b0"
proof -
  let ?new = "newTerminalEventBatcher send every m rm age" let ?c = "fold batcher_step ops ?new"
  have i: "binv ?c" by (rule batcher.inv_reach[OF run_reach]) (blast intro: reach_init)
  have l: "b_ringMaxBytes (fold batcher_step ops b) = b_ringMaxBytes b \<and> b_maxBytes (fold batcher_step ops b) = b_maxBytes b" for b
    by (induction ops arbitrary: b) (simp_all add: limits_step)
  have c: "int (length (concat (map re_payload r))) = ring_bytes r" if "\<forall>e\<in>set r. re_bytes e = int (length (re_payload e))" for r
    using that by (induction r) auto
  have "int (length (concat (map re_payload (b_rings ?c k)))) \<le> b_ringMaxBytes ?c" for k
    using c[of "b_rings ?c k"] binvD(5,6)[OF i] by auto
  moreover have "int (length (te_Payload (tb_event e))) < b_maxBytes ?c" if "alist_get (b_pending ?c) k = Some e" for k e
    using binvD(4)[OF i alist_get_Some_mem[OF that]] by (simp add: batch_ok_def)
  moreover have "0 < b_maxBytes ?new" by (simp add: newTerminalEventBatcher_def)
  ultimately show ?thesis using l[of ?new] by (simp add: Let_def pending_text_def split: option.splits)
qed

subsection \<open>No output is lost or reordered\<close>

definition text_for :: "gostring \<Rightarrow> TerminalEvent list \<Rightarrow> gostring" where
  "text_for t es = concat (map te_Payload (filter (\<lambda>e. te_TerminalSessionID e = t) es))"

lemma text_for_simps [simp]:
  "text_for t [] = []" "text_for t (e # es) = (if te_TerminalSessionID e = t then te_Payload e else []) @ text_for t es"
  "text_for t (es @ es') = text_for t es @ text_for t es'"
  by (simp_all add: text_for_def)

definition forwards :: "terminalEventBatcher \<Rightarrow> bool" where
  "forwards b \<longleftrightarrow> b_send b \<and> (case b_shouldSend b of Some f \<Rightarrow> All f | None \<Rightarrow> True)"

lemma emit_sent: "forwards b \<Longrightarrow> b_sent (emit e b) = b_sent b @ [e]"
  by (auto simp: emit_def forwards_def split: option.splits)

lemma emit_all_sent: "forwards b \<Longrightarrow> b_sent (emit_all es b) = b_sent b @ es"
proof (induction es arbitrary: b)
  case (Cons e es)
  have "forwards (emit e b)" using Cons.prems by (simp add: forwards_def)
  from Cons.IH[OF this] emit_sent[OF Cons.prems] show ?case by (simp add: emit_all_def)
qed (simp add: emit_all_def)

lemma pending_emit [simp]: "pending_text t (emit_all es b) = pending_text t b" "pending_text t (emit e b) = pending_text t b"
  "pending_text t (MarkDelivered e b) = pending_text t b"
  by (simp_all add: pending_text_def)

lemma forwards_emit [simp]: "forwards (emit_all es b) = forwards b" "forwards (emit e b) = forwards b"
  "forwards (MarkDelivered e b) = forwards b"
  by (simp_all add: forwards_def)

lemma pending_Nil: "binv b \<Longrightarrow> pending_text [] b = []"
  using binvD(4)[of b "[]"] by (auto simp: pending_text_def batch_ok_def split: option.splits dest!: alist_get_Some_mem)

text \<open>A batch of its own terminal is taken out whole; the other batches stay.\<close>

lemma take_text:
  assumes "\<And>e. alist_get (b_pending b) k = Some e \<Longrightarrow> te_TerminalSessionID (tb_event e) = k" "takeLocked k now b = (es, b')"
  shows "text_for t es = (if t = k then pending_text t b else [])"
    and "pending_text t b' = (if t = k then [] else pending_text t b)"
    and "b_sent b' = b_sent b" "b_closed b' = b_closed b" "forwards b' = forwards b"
    and "alist_get (b_pending b') t = (if t = k then None else alist_get (b_pending b) t)"
proof -
  have "text_for t es = (if t = k then pending_text t b else []) \<and>
    pending_text t b' = (if t = k then [] else pending_text t b) \<and> b_sent b' = b_sent b \<and> b_closed b' = b_closed b \<and>
    forwards b' = forwards b \<and> alist_get (b_pending b') t = (if t = k then None else alist_get (b_pending b) t)"
  proof (cases "alist_get (b_pending b) k")
    case None
    then show ?thesis using assms(2) by (auto simp: takeLocked_None pending_text_def)
  next
    case (Some e)
    from takeLocked_Some[OF Some, of now] assms(2) obtain tr where
      t: "es = [(sealed_event e)\<lparr>te_Truncated := tr\<rparr>]"
      "recordRingLocked k (sealed_event e) (tb_bytes e) (te_Timestamp (tb_event e)) now
        (b\<lparr>b_pending := alist_del k (b_pending b)\<rparr>) = (tr, b')" by auto
    note f = recordRing_frame[OF t(2)]
    have p: "alist_get (b_pending b') t = (if t = k then None else alist_get (b_pending b) t)" by (simp add: f)
    then have "pending_text t b' = (if t = k then [] else pending_text t b)" by (simp add: pending_text_def)
    then show ?thesis using p assms(1)[OF Some] Some by (auto simp: t(1) f forwards_def pending_text_def)
  qed
  then show "text_for t es = (if t = k then pending_text t b else [])"
    "pending_text t b' = (if t = k then [] else pending_text t b)" "b_sent b' = b_sent b" "b_closed b' = b_closed b"
    "forwards b' = forwards b" "alist_get (b_pending b') t = (if t = k then None else alist_get (b_pending b) t)" by auto
qed

lemma binv_tid: "binv b \<Longrightarrow> alist_get (b_pending b) k = Some e \<Longrightarrow> te_TerminalSessionID (tb_event e) = k"
  using binvD(4)[of b k e] by (auto simp: batch_ok_def dest!: alist_get_Some_mem)

lemma flush_text:
  assumes "binv b" "forwards b" "\<not> b_closed b"
  shows "text_for t (b_sent (FlushTerminal k now b)) = text_for t (b_sent b) @ (if t = k then pending_text t b else [])"
    and "pending_text t (FlushTerminal k now b) = (if t = k then [] else pending_text t b)"
    and "forwards (FlushTerminal k now b)" "\<not> b_closed (FlushTerminal k now b)"
proof -
  obtain es b' where t: "takeLocked k now b = (es, b')" by fastforce
  note tt = take_text[OF binv_tid[OF assms(1)] t]
  have f: "FlushTerminal k now b = (if k = [] then b else emit_all es b')" using assms(3) t by (simp add: FlushTerminal_def)
  have "forwards b'" using tt(5) assms(2) by simp
  then show "text_for t (b_sent (FlushTerminal k now b)) = text_for t (b_sent b) @ (if t = k then pending_text t b else [])"
    "pending_text t (FlushTerminal k now b) = (if t = k then [] else pending_text t b)"
    "forwards (FlushTerminal k now b)" "\<not> b_closed (FlushTerminal k now b)"
    using tt assms(2,3) pending_Nil[OF assms(1)] by (auto simp: f emit_all_sent)
qed

lemma add_text:
  assumes "binv b" "forwards b" "\<not> b_closed b"
  shows "text_for t (b_sent (Add evt now b)) @ pending_text t (Add evt now b) =
      text_for t (b_sent b) @ pending_text t b @ (if te_TerminalSessionID evt = t then te_Payload evt else [])"
    and "forwards (Add evt now b)" "\<not> b_closed (Add evt now b)"
proof -
  let ?k = "te_TerminalSessionID evt"
  have "text_for t (b_sent (Add evt now b)) @ pending_text t (Add evt now b) =
      text_for t (b_sent b) @ pending_text t b @ (if ?k = t then te_Payload evt else []) \<and>
      forwards (Add evt now b) \<and> \<not> b_closed (Add evt now b)"
  proof (cases "te_Kind evt \<noteq> ''text_delta'' \<or> te_Payload evt = []")
    case True
    then show ?thesis using flush_text[OF assms] by (simp add: Add_def emit_sent)
  next
    case delta: False
    show ?thesis
    proof (cases "?k = []")
      case True
      then show ?thesis using delta assms pending_Nil[OF assms(1)] by (auto simp: Add_def emit_sent)
    next
      case False
      let ?b1 = "b\<lparr>b_pending := alist_put ?k (next_batch evt b) (b_pending b)\<rparr>"
      have tid: "te_TerminalSessionID (tb_event (next_batch evt b)) = ?k"
        using next_batch_ok[OF assms(1), of evt] delta False by (simp add: batch_ok_def)
      have p1: "pending_text t ?b1 = pending_text t b @ (if ?k = t then te_Payload evt else [])"
        by (auto simp: pending_text_def next_batch_def new_batch_def extend_batch_def split: option.splits)
      have f1: "forwards ?b1" using assms(2) by (simp add: forwards_def)
      have a: "Add evt now b = (if tb_bytes (next_batch evt b) \<ge> b_maxBytes b
          then emit_all (fst (takeLocked ?k now ?b1)) (snd (takeLocked ?k now ?b1)) else ?b1)"
        using delta False assms(3)
        by (simp add: Add_def add_locked_def next_batch_def Let_def emit_all_def case_prod_beta)
      obtain es b' where tk: "takeLocked ?k now ?b1 = (es, b')" by fastforce
      have own: "te_TerminalSessionID (tb_event e) = ?k" if "alist_get (b_pending ?b1) ?k = Some e" for e
        using that tid by simp
      note tt = take_text[OF own tk]
      have "forwards b'" using tt(5) f1 by simp
      moreover have "b_sent b' = b_sent b" "b_closed b' = b_closed b" using tt(3,4) by simp_all
      moreover have "text_for t es = (if t = ?k then pending_text t ?b1 else [])"
        "pending_text t b' = (if t = ?k then [] else pending_text t ?b1)" using tt(1,2) by simp_all
      ultimately show ?thesis
        unfolding a tk using p1 f1 assms(3) by (auto simp: emit_all_sent)
    qed
  qed
  then show "text_for t (b_sent (Add evt now b)) @ pending_text t (Add evt now b) =
      text_for t (b_sent b) @ pending_text t b @ (if ?k = t then te_Payload evt else [])"
    "forwards (Add evt now b)" "\<not> b_closed (Add evt now b)" by auto
qed

lemma take_all_text:
  assumes "distinct ks" "\<And>k e. alist_get (b_pending b) k = Some e \<Longrightarrow> te_TerminalSessionID (tb_event e) = k"
    and "take_all ks now b = (es, b')"
  shows "text_for t es = (if t \<in> set ks then pending_text t b else []) \<and> b_sent b' = b_sent b \<and> forwards b' = forwards b"
  using assms
proof (induction ks arbitrary: b es)
  case (Cons k ks)
  obtain e1 b1 where 1: "takeLocked k now b = (e1, b1)" by fastforce
  obtain e2 where 2: "take_all ks now b1 = (e2, b')" "es = e1 @ e2" using Cons.prems(3) 1 by (auto split: prod.splits)
  note tt = take_text[OF Cons.prems(2) 1]
  have "te_TerminalSessionID (tb_event e) = q" if "alist_get (b_pending b1) q = Some e" for q e
    using that tt(6)[of q] Cons.prems(2) by (auto split: if_splits)
  from Cons.IH[OF _ this 2(1)] Cons.prems(1) tt(1,2)[of t] tt(3,5) show ?case by (auto simp: 2(2))
qed simp

definition added_text :: "gostring \<Rightarrow> batcher_op \<times> time \<Rightarrow> gostring" where
  "added_text t op = (case fst op of OpAdd evt \<Rightarrow> if te_TerminalSessionID evt = t then te_Payload evt else [] | _ \<Rightarrow> [])"

definition streaming_op :: "batcher_op \<times> time \<Rightarrow> bool" where
  "streaming_op op = (case fst op of OpAdd _ \<Rightarrow> True | OpFlush _ \<Rightarrow> True | OpMark _ \<Rightarrow> True | _ \<Rightarrow> False)"

lemma step_text:
  assumes "binv b" "forwards b" "\<not> b_closed b" "streaming_op op"
  shows "text_for t (b_sent (batcher_step op b)) @ pending_text t (batcher_step op b) =
      text_for t (b_sent b) @ pending_text t b @ added_text t op"
    and "forwards (batcher_step op b)" "\<not> b_closed (batcher_step op b)"
proof -
  obtain o1 now where op: "op = (o1, now)" by fastforce
  have "text_for t (b_sent (batcher_step op b)) @ pending_text t (batcher_step op b) =
      text_for t (b_sent b) @ pending_text t b @ added_text t op \<and> forwards (batcher_step op b) \<and> \<not> b_closed (batcher_step op b)"
    using assms(4) add_text(1)[OF assms(1-3), of t _ now] add_text(2,3)[OF assms(1-3), of _ now]
      flush_text(1,2)[OF assms(1-3), of t _ now] flush_text(3,4)[OF assms(1-3), of _ now] assms(2,3)
    by (cases o1) (auto simp: op batcher_step_def added_text_def streaming_op_def)
  then show "text_for t (b_sent (batcher_step op b)) @ pending_text t (batcher_step op b) =
      text_for t (b_sent b) @ pending_text t b @ added_text t op" "forwards (batcher_step op b)"
    "\<not> b_closed (batcher_step op b)" by auto
qed

lemma run_text:
  assumes "binv b" "forwards b" "\<not> b_closed b" "list_all streaming_op ops"
  shows "text_for t (b_sent (fold batcher_step ops b)) @ pending_text t (fold batcher_step ops b) =
      text_for t (b_sent b) @ pending_text t b @ concat (map (added_text t) ops) \<and>
    binv (fold batcher_step ops b) \<and> forwards (fold batcher_step ops b) \<and> \<not> b_closed (fold batcher_step ops b)"
  using assms
proof (induction ops arbitrary: b)
  case (Cons op ops)
  have op: "streaming_op op" "list_all streaming_op ops" using Cons.prems(4) by simp_all
  note st = step_text[OF Cons.prems(1-3) op(1)]
  from Cons.IH[OF binv_step[OF Cons.prems(1)] st(2,3) op(2)] st(1)[of t] show ?case
    by (simp flip: append_assoc)
qed simp


subsection \<open>Snapshots\<close>

definition undelivered :: "int \<Rightarrow> terminalRingEntry \<Rightarrow> bool" where
  "undelivered d e \<longleftrightarrow> \<not> (re_seqEnd e > 0 \<and> re_seqEnd e \<le> d)"

lemma snapshot_fold:
  "fold (snapshot_step True d) ring (p, f, l, ts) = (p', f', l', ts') \<Longrightarrow>
     p' = p @ concat (map re_payload (filter (undelivered d) ring)) \<and> l \<le> l' \<and>
     (\<forall>e\<in>set ring. undelivered d e \<longrightarrow> re_seqEnd e \<le> l')"
proof (induction ring arbitrary: p f l ts)
  case (Cons e ring)
  show ?case
  proof (cases "undelivered d e")
    case True
    then obtain f1 l1 t1 where s: "snapshot_step True d e (p, f, l, ts) = (p @ re_payload e, f1, l1, t1)" "l \<le> l1" "re_seqEnd e \<le> l1"
      by (auto simp: snapshot_step_def undelivered_def)
    then have "fold (snapshot_step True d) ring (p @ re_payload e, f1, l1, t1) = (p', f', l', ts')" using Cons.prems by simp
    from Cons.IH[OF this] s True show ?thesis by auto
  next
    case False
    then have "snapshot_step True d e (p, f, l, ts) = (p, f, l, ts)" by (auto simp: snapshot_step_def undelivered_def)
    then have "fold (snapshot_step True d) ring (p, f, l, ts) = (p', f', l', ts')" using Cons.prems by simp
    from Cons.IH[OF this] False show ?thesis by auto
  qed
qed simp

lemma take_none_after:
  assumes "binv b"
  shows "alist_get (b_pending (snd (takeLocked k now b))) k = None" "b_closed (snd (takeLocked k now b)) = b_closed b"
proof -
  obtain es b' where t: "takeLocked k now b = (es, b')" by fastforce
  note tt = take_text[OF binv_tid[OF assms] t]
  show "alist_get (b_pending (snd (takeLocked k now b))) k = None" "b_closed (snd (takeLocked k now b)) = b_closed b"
    using tt(4,6) by (simp_all add: t)
qed

lemma snapshot_all_delivered:
  assumes "alist_get (b_pending b) tid = None" "\<not> b_closed b"
    "\<forall>e\<in>set (b_rings b tid). 0 < re_seqEnd e \<and> re_seqEnd e \<le> b_deliveredSeq b tid"
  shows "snd (fst (SnapshotUndeliveredTerminal tid now clock b)) = False"
proof -
  obtain pl f l ts where fo: "fold (snapshot_step True (b_deliveredSeq b tid)) (b_rings b tid) ([], 0, 0, 0) = (pl, f, l, ts)"
    by (metis prod_cases4)
  have "filter (undelivered (b_deliveredSeq b tid)) (b_rings b tid) = []"
    using assms(3) by (auto simp: filter_empty_conv undelivered_def)
  then have "pl = []" using snapshot_fold[OF fo] by simp
  then show ?thesis using fo takeLocked_None[OF assms(1), of now] assms(2)
    by (simp add: SnapshotUndeliveredTerminal_def snapshotTerminal_def Let_def)
qed

text \<open>
  A late subscriber gets each byte once: the snapshot of undelivered output is the
  payload of the ring entries beyond the delivered mark, in order, with what was waiting
  sealed in first; once it is marked delivered, the next snapshot is empty (entries with
  sequence numbers, as all session events have).
\<close>

theorem snapshot_undelivered_once:
  assumes "binv b" "\<not> b_closed b" "SnapshotUndeliveredTerminal tid now clock b = ((evt, ok), b1)"
    and "\<forall>e\<in>set (b_rings b1 tid). 0 < re_seqEnd e" "tid \<noteq> []"
  shows "pending_text tid b1 = [] \<and> ok = (te_Payload evt \<noteq> []) \<and>
    te_Payload evt = concat (map re_payload (filter (undelivered (b_deliveredSeq b1 tid)) (b_rings b1 tid))) \<and>
    (ok \<longrightarrow> snd (fst (SnapshotUndeliveredTerminal tid now' clock' (MarkDelivered evt b1))) = False)"
proof -
  let ?t = "snd (takeLocked tid now b)"
  have b1: "b1 = ?t" using assms(2,3,5) by (auto simp: SnapshotUndeliveredTerminal_def snapshotTerminal_def Let_def split: if_splits prod.splits)
  have n: "alist_get (b_pending b1) tid = None" "b_closed b1 = b_closed b" using take_none_after[OF assms(1)] by (simp_all add: b1)
  have p: "pending_text tid b1 = []" using n(1) by (simp add: pending_text_def)
  let ?d = "b_deliveredSeq b1 tid" let ?r = "b_rings b1 tid"
  obtain pl f l ts where fo: "fold (snapshot_step True ?d) ?r ([], 0, 0, 0) = (pl, f, l, ts)" by (metis prod_cases4)
  note sf = snapshot_fold[OF fo]
  show ?thesis
  proof (cases "?r = []")
    case True
    then have "evt = empty_event" "\<not> ok" using assms(2,3,5) b1 by (auto simp: SnapshotUndeliveredTerminal_def snapshotTerminal_def Let_def)
    then show ?thesis using p True by (simp add: empty_event_def)
  next
    case False
    then have e: "te_Payload evt = pl" "te_SeqEnd evt = l" "te_TerminalSessionID evt = tid" "te_Kind evt = ''text_delta''"
      "te_Seq evt = 0" "ok = (pl \<noteq> [])"
      using assms(2,3,5) fo b1 by (auto simp: SnapshotUndeliveredTerminal_def snapshotTerminal_def Let_def empty_event_def)
    have "snd (fst (SnapshotUndeliveredTerminal tid now' clock' (MarkDelivered evt b1))) = False" if ok: ok
    proof -
      let ?m = "MarkDelivered evt b1"
      obtain x where x: "x \<in> set ?r" "undelivered ?d x" using ok e(6) sf filter_empty_conv[of "undelivered ?d" ?r] by (cases "filter (undelivered ?d) ?r = []") auto
      then have l: "0 < l" using sf assms(4) by fastforce
      have d: "re_seqEnd y \<le> b_deliveredSeq ?m tid" if "y \<in> set ?r" for y
        using that sf e l assms(4,5) by (auto simp: MarkDelivered_def Let_def undelivered_def)
      show ?thesis using d n assms(2,4) by (intro snapshot_all_delivered) auto
    qed
    with p e sf show ?thesis by simp
  qed
qed

subsection \<open>A gap in the delivery mark\<close>

definition delta :: "gostring \<Rightarrow> int \<Rightarrow> gostring \<Rightarrow> time \<Rightarrow> TerminalEvent" where
  "delta tid n payload ts = empty_event\<lparr>te_TerminalSessionID := tid, te_Seq := n, te_Kind := ''text_delta'',
     te_Payload := payload, te_Timestamp := ts\<rparr>"

lemma delta_simps [simp]:
  "te_TerminalSessionID (delta tid n p ts) = tid" "te_Seq (delta tid n p ts) = n" "te_Kind (delta tid n p ts) = ''text_delta''"
  "te_Payload (delta tid n p ts) = p" "te_Timestamp (delta tid n p ts) = ts"
  by (simp_all add: delta_def)

text \<open>One batch of one event, sealed.\<close>

definition sealed :: "gostring \<Rightarrow> int \<Rightarrow> gostring \<Rightarrow> time \<Rightarrow> TerminalEvent" where
  "sealed tid n p ts = (delta tid n p ts)\<lparr>te_SeqStart := n, te_SeqEnd := n\<rparr>"

lemma sealed_simps [simp]:
  "te_TerminalSessionID (sealed tid n p ts) = tid" "te_Kind (sealed tid n p ts) = ''text_delta''"
  "te_Payload (sealed tid n p ts) = p" "te_SeqEnd (sealed tid n p ts) = n" "te_SeqStart (sealed tid n p ts) = n"
  "te_Timestamp (sealed tid n p ts) = ts" "(sealed tid n p ts)\<lparr>te_Truncated := False\<rparr> = sealed tid n p ts"
  by (simp_all add: sealed_def delta_def empty_event_def)

lemma record_fits:
  assumes "at \<noteq> 0" "0 \<le> b_ringMaxAge b" "0 \<le> bytes" "bytes + ring_bytes (b_rings b key) \<le> b_ringMaxBytes b"
    "b_rings b key = [] \<or> (\<exists>e. b_rings b key = [e] \<and> at - b_ringMaxAge b \<le> re_at e \<and> 0 \<le> re_bytes e)"
  shows "recordRingLocked key evt bytes at now b =
    (False, b\<lparr>b_rings := (b_rings b)(key := b_rings b key @ [new_entry evt bytes at])\<rparr>)"
  using assms by (auto simp: recordRingLocked_def new_entry_def Let_def)

text \<open>An event that fits, followed by a flush: one sealed batch, forwarded if the filter lets it pass.\<close>

lemma add_flush:
  assumes "tid \<noteq> []" "p \<noteq> []" "0 < n" "ts \<noteq> 0" "\<not> b_closed b" "alist_get (b_pending b) tid = None"
    "int (length p) < b_maxBytes b" "0 \<le> b_ringMaxAge b" "int (length p) + ring_bytes (b_rings b tid) \<le> b_ringMaxBytes b"
    "b_rings b tid = [] \<or> (\<exists>e. b_rings b tid = [e] \<and> ts - b_ringMaxAge b \<le> re_at e \<and> 0 \<le> re_bytes e)"
  shows "FlushTerminal tid now (Add (delta tid n p ts) now b) =
    emit (sealed tid n p ts)
      (b\<lparr>b_pending := b_pending b,
         b_rings := (b_rings b)(tid := b_rings b tid @ [new_entry (sealed tid n p ts) (int (length p)) ts])\<rparr>)"
proof -
  let ?b1 = "b\<lparr>b_pending := alist_put tid (new_batch (delta tid n p ts)) (b_pending b)\<rparr>"
  have 1: "Add (delta tid n p ts) now b = ?b1"
    using assms by (simp add: Add_def add_locked_def Let_def new_batch_def emit_all_def)
  have d: "alist_del tid (alist_put tid x (b_pending b)) = b_pending b" for x
    using alist_del_id[of tid "b_pending b"] assms(6) by (simp add: alist_put_new alist_get_None_iff alist_del_def)
  have sl: "sealed_event (new_batch (delta tid n p ts)) = sealed tid n p ts"
    using assms(3) by (simp add: sealed_event_def new_batch_def sealed_def)
  have r: "recordRingLocked tid (sealed tid n p ts) (int (length p)) ts now b =
    (False, b\<lparr>b_rings := (b_rings b)(tid := b_rings b tid @ [new_entry (sealed tid n p ts) (int (length p)) ts])\<rparr>)"
    using assms by (intro record_fits) auto
  have "takeLocked tid now ?b1 = ([sealed tid n p ts],
      b\<lparr>b_rings := (b_rings b)(tid := b_rings b tid @ [new_entry (sealed tid n p ts) (int (length p)) ts])\<rparr>)"
    using r d by (simp add: takeLocked_def sl Let_def) (simp add: new_batch_def)
  then show ?thesis using assms(1,5) 1 by (simp add: FlushTerminal_def emit_all_def)
qed

text \<open>
  The delivery mark is a high-water mark, not a record of what was sent: output that was
  held back while nobody watched a terminal is lost to the first watcher if, between the
  moment the watcher is counted and the snapshot, the flush timer forwards newer output. The
  older batch is still in the ring and was never sent, yet the snapshot is empty.
\<close>

theorem held_back_output_skipped:
  assumes "tid \<noteq> []" "p1 \<noteq> []" "p2 \<noteq> []" "0 < n1" "n1 < n2" "ts \<noteq> 0"
    "length p1 < 16384" "length p2 < 16384"
  shows "let unwatched = SetShouldSend (Some (\<lambda>e. te_Kind e \<noteq> ''text_delta'')) (newTerminalEventBatcher True 0 0 0 0);
       b1 = FlushTerminal tid now (Add (delta tid n1 p1 ts) now unwatched);
       b2 = SetShouldSend (Some (\<lambda>e. True)) b1;
       b3 = FlushTerminal tid now (Add (delta tid n2 p2 ts) now b2)
     in b_sent b3 = [sealed tid n2 p2 ts] \<and> (\<exists>e\<in>set (b_rings b3 tid). re_payload e = p1) \<and>
        snd (fst (SnapshotUndeliveredTerminal tid now now b3)) = False"
proof -
  let ?u = "SetShouldSend (Some (\<lambda>e. te_Kind e \<noteq> ''text_delta'')) (newTerminalEventBatcher True 0 0 0 0)"
  let ?e1 = "new_entry (sealed tid n1 p1 ts) (int (length p1)) ts"
  let ?e2 = "new_entry (sealed tid n2 p2 ts) (int (length p2)) ts"
  have u: "b_pending ?u = []" "b_rings ?u = (\<lambda>_. [])" "\<not> b_closed ?u" "b_maxBytes ?u = 16384" "b_ringMaxBytes ?u = 1048576"
    "b_ringMaxAge ?u = 5 * minute" "b_sent ?u = []" "b_send ?u" "b_deliveredSeq ?u = (\<lambda>_. 0)" "b_ringTruncated ?u = (\<lambda>_. False)"
    by (simp_all add: SetShouldSend_def newTerminalEventBatcher_def)
  have "FlushTerminal tid now (Add (delta tid n1 p1 ts) now ?u) =
      emit (sealed tid n1 p1 ts) (?u\<lparr>b_pending := b_pending ?u,
         b_rings := (b_rings ?u)(tid := b_rings ?u tid @ [?e1])\<rparr>)"
    by (rule add_flush) (use assms u in simp_all)
  then have 1: "FlushTerminal tid now (Add (delta tid n1 p1 ts) now ?u) = ?u\<lparr>b_rings := (\<lambda>_. [])(tid := [?e1])\<rparr>"
    by (simp add: emit_def u) (simp add: SetShouldSend_def newTerminalEventBatcher_def)
  let ?b2 = "SetShouldSend (Some (\<lambda>e. True)) (?u\<lparr>b_rings := (\<lambda>_. [])(tid := [?e1])\<rparr>)"
  have v: "b_pending ?b2 = []" "b_rings ?b2 = (\<lambda>_. [])(tid := [?e1])" "\<not> b_closed ?b2" "b_maxBytes ?b2 = 16384"
    "b_ringMaxBytes ?b2 = 1048576" "b_ringMaxAge ?b2 = 5 * minute" "b_sent ?b2 = []" "b_send ?b2"
    "b_shouldSend ?b2 = Some (\<lambda>e. True)" "b_deliveredSeq ?b2 = (\<lambda>_. 0)"
    by (simp_all add: SetShouldSend_def newTerminalEventBatcher_def)
  have 2: "FlushTerminal tid now (Add (delta tid n2 p2 ts) now ?b2) =
      emit (sealed tid n2 p2 ts) (?b2\<lparr>b_pending := b_pending ?b2,
         b_rings := (b_rings ?b2)(tid := b_rings ?b2 tid @ [?e2])\<rparr>)"
    by (rule add_flush) (use assms v in \<open>simp_all add: new_entry_def\<close>)
  let ?b3 = "emit (sealed tid n2 p2 ts) (?b2\<lparr>b_pending := b_pending ?b2, b_rings := (b_rings ?b2)(tid := b_rings ?b2 tid @ [?e2])\<rparr>)"
  have w: "b_sent ?b3 = [sealed tid n2 p2 ts]" "b_rings ?b3 tid = [?e1, ?e2]" "b_deliveredSeq ?b3 tid = n2"
    "b_pending ?b3 = []" "\<not> b_closed ?b3"
    using assms v by (simp_all add: emit_def MarkDelivered_def Let_def)
  have s: "re_seqEnd ?e1 = n1" "re_seqEnd ?e2 = n2" "re_payload ?e1 = p1" by (simp_all add: new_entry_def)
  have "snd (fst (SnapshotUndeliveredTerminal tid now now ?b3)) = False"
    using assms(4,5) s by (intro snapshot_all_delivered) (simp_all only: w alist_get_Nil, auto)
  moreover have "\<exists>e\<in>set (b_rings ?b3 tid). re_payload e = p1" using s by (simp only: w(2)) auto
  ultimately show ?thesis unfolding Let_def 1 2 using w(1) by blast
qed

subsection \<open>Witnesses\<close>

definition ex_batcher :: terminalEventBatcher where
  "ex_batcher = (newTerminalEventBatcher True 0 0 0 0)\<lparr>b_rings := (\<lambda>_. [])(''t'' :=
     [new_entry (sealed ''t'' 1 ''ab'' 5) 2 5, new_entry (sealed ''t'' 2 ''cd'' 6) 2 6]), b_deliveredSeq := (\<lambda>_. 0)(''t'' := 1)\<rparr>"

theorem ring_keeps_longest_suffix_witness:
  "\<exists>n tr b'. recordRingLocked ''t'' (sealed ''t'' 3 ''ef'' 7) 2 7 7 (ex_batcher\<lparr>b_ringMaxBytes := 5\<rparr>) = (tr, b') \<and>
     tr = (n > 0) \<and> b_rings b' ''t'' = drop n (b_rings ex_batcher ''t'' @ [new_entry (sealed ''t'' 3 ''ef'' 7) 2 7])"
  using ring_keeps_longest_suffix[of "ex_batcher\<lparr>b_ringMaxBytes := 5\<rparr>" "''t''" "sealed ''t'' 3 ''ef'' 7" 2 7 7]
  by (auto simp: Let_def)


theorem snapshot_undelivered_once_witness:
  "\<exists>evt b1. SnapshotUndeliveredTerminal ''t'' 8 8 ex_batcher = ((evt, True), b1) \<and> te_Payload evt = ''cd'' \<and>
     snd (fst (SnapshotUndeliveredTerminal ''t'' 9 9 (MarkDelivered evt b1))) = False"
proof -
  have i: "binv ex_batcher" and c: "\<not> b_closed ex_batcher"
    by (simp_all add: ex_batcher_def binv_def newTerminalEventBatcher_def new_entry_def)
  have s: "\<exists>evt. SnapshotUndeliveredTerminal ''t'' 8 8 ex_batcher = ((evt, True), ex_batcher) \<and> te_Payload evt = ''cd''"
    by (simp add: SnapshotUndeliveredTerminal_def snapshotTerminal_def takeLocked_def ex_batcher_def
        newTerminalEventBatcher_def snapshot_step_def new_entry_def Let_def)
  then obtain evt where e: "SnapshotUndeliveredTerminal ''t'' 8 8 ex_batcher = ((evt, True), ex_batcher)" "te_Payload evt = ''cd''"
    by blast
  have "\<forall>e\<in>set (b_rings ex_batcher ''t''). 0 < re_seqEnd e" by (simp add: ex_batcher_def new_entry_def)
  from snapshot_undelivered_once[OF i c e(1) this, of 9 9] e show ?thesis by auto
qed

theorem held_back_output_skipped_witness:
  "\<exists>b3. b_sent b3 = [sealed ''t'' 2 ''new'' 5] \<and> (\<exists>e\<in>set (b_rings b3 ''t''). re_payload e = ''old'') \<and>
     snd (fst (SnapshotUndeliveredTerminal ''t'' 6 6 b3)) = False"
  using held_back_output_skipped[of "''t''" "''old''" "''new''" 1 2 5 6] by (simp add: Let_def) blast

end
