(* ===== verification/AnsiChunks.thy ===== *)
theory AnsiChunks
  imports AnsiStrip
begin

section \<open>Stripping in chunks: independence of where the reads end\<close>

subsection \<open>What the output contains\<close>

definition visible :: "char \<Rightarrow> bool" where
  "visible c \<longleftrightarrow> (of_char c :: nat) \<ge> 32 \<and> c \<noteq> CHR 0x7F \<or> c = LF \<or> c = CHR 0x09"

lemma in_range_simps: "in_range lo hi c \<longleftrightarrow> lo \<le> of_char c \<and> (of_char c :: nat) \<le> hi"
  by (simp add: in_range_def)

lemma visible_consts [simp]: "visible LF" "visible (CHR '' '')"
  by (simp_all add: visible_def)

text \<open>The cases of one step of the pass.\<close>

lemma intro_not_bracket: "string_intro n \<Longrightarrow> n \<noteq> CHR ''[''"
  by (auto simp: string_intro_def)

lemma core_esc:
  "stripANSICore [ESC] = []"
  "drop (csi_len t) t = [] \<Longrightarrow> stripANSICore (ESC # CHR ''['' # t) = []"
  "drop (csi_len t) t = f # r \<Longrightarrow> final_byte f \<Longrightarrow>
     stripANSICore (ESC # CHR ''['' # t) = (if f = CHR ''G'' \<or> f = CHR ''C'' then '' '' else []) @ stripANSICore r"
  "drop (csi_len t) t = f # r \<Longrightarrow> \<not> final_byte f \<Longrightarrow> stripANSICore (ESC # CHR ''['' # t) = stripANSICore (f # r)"
  "string_intro n \<Longrightarrow> stripANSICore (ESC # n # t) = stripANSICore (drop (string_scan t) t)"
  "n \<noteq> CHR ''['' \<Longrightarrow> \<not> string_intro n \<Longrightarrow> stripANSICore (ESC # n # t) = stripANSICore t"
  by (simp_all add: stripANSICore.simps(2)[of ESC] intro_not_bracket)

lemma core_cr: "stripANSICore (CR # s) = LF # stripANSICore (if s \<noteq> [] \<and> hd s = LF then tl s else s)"
  by (simp add: stripANSICore.simps(2)[of CR])

definition kept :: "char \<Rightarrow> gostring" where
  "kept c = (if visible c then [c] else [])"

lemma core_byte: "c \<noteq> ESC \<Longrightarrow> c \<noteq> CR \<Longrightarrow> stripANSICore (c # s) = kept c @ stripANSICore s"
  by (auto simp: stripANSICore.simps(2)[of c] kept_def visible_def)

lemma strip_visible: "\<forall>c\<in>set (stripANSICore b). visible c"
proof (induction b rule: measure_induct_rule[where f = length])
  case (less b)
  show ?case
  proof (cases b)
    case (Cons ch s)
    consider "ch = CR" | "ch \<noteq> ESC" "ch \<noteq> CR" | "ch = ESC" "s = []" | t where "ch = ESC" "s = CHR ''['' # t"
      | n t where "ch = ESC" "s = n # t" "string_intro n" | n t where "ch = ESC" "s = n # t" "n \<noteq> CHR ''[''" "\<not> string_intro n"
      by (cases s) auto
    then show ?thesis
    proof cases
      case 1
      show ?thesis using less[of s] less[of "tl s"] by (cases s) (auto simp: Cons 1 core_cr)
    next
      case 2
      then show ?thesis using less[of s] by (auto simp: Cons core_byte kept_def)
    next
      case 3
      then show ?thesis by (simp add: Cons core_esc)
    next
      case (4 t)
      show ?thesis
      proof (cases "drop (csi_len t) t")
        case Nil
        then show ?thesis by (simp add: Cons 4 core_esc)
      next
        case (Cons f r)
        then have l: "length (f # r) \<le> length t" by (rule drop_Cons_length)
        show ?thesis
          using less[of r] less[of "f # r"] l Cons \<open>b = ch # s\<close> 4
          by (cases "final_byte f") (auto simp: core_esc(3,4)[OF Cons])
      qed
    next
      case (5 n t)
      then show ?thesis using less[of "drop (string_scan t) t"] by (simp add: Cons core_esc)
    next
      case (6 n t)
      then show ?thesis using less[of t] by (simp add: Cons core_esc)
    qed
  qed simp
qed

lemma utf8_tail_spec:
  "utf8_tail b i m = h \<Longrightarrow> 1 \<le> i \<Longrightarrow> \<forall>j. 1 \<le> j \<and> j < i \<longrightarrow> j \<le> length b \<and> 128 \<le> (of_char (b ! (length b - j)) :: nat) \<Longrightarrow>
   h \<le> 3 \<and> (\<forall>j. 1 \<le> j \<and> j \<le> h \<longrightarrow> j \<le> length b \<and> 128 \<le> (of_char (b ! (length b - j)) :: nat))"
proof (induction b i m rule: utf8_tail.induct)
  case (1 b i)
  then show ?case by simp
next
  case (2 b i m)
  let ?c = "of_char (b ! (length b - i)) :: nat"
  consider "i > length b \<or> ?c < 128" | "i \<le> length b" "192 \<le> ?c" | "i \<le> length b" "128 \<le> ?c" "?c < 192" by linarith
  then show ?case
  proof cases
    case 1
    then have "h = 0" using "2.prems"(1) by (auto simp: Let_def)
    then show ?thesis by simp
  next
    case 2
    have le: "utf8LeadLen ?c \<le> 4" by (simp add: utf8LeadLen_def)
    have "h = (if utf8LeadLen ?c = 0 then 0 else if i < utf8LeadLen ?c then i else 0)"
      using "2.prems"(1) 2 by (simp add: Let_def split: if_splits)
    then have "h = 0 \<or> h = i \<and> i \<le> 3" using le by (auto split: if_splits)
    moreover have "j \<le> length b \<and> 128 \<le> (of_char (b ! (length b - j)) :: nat)" if "1 \<le> j" "j \<le> i" for j
      using that "2.prems"(3) 2 by (cases "j = i") auto
    ultimately show ?thesis by auto
  next
    case 3
    have u: "utf8_tail b (i + 1) m = h" using "2.prems"(1) 3 by (simp add: Let_def)
    have p: "\<forall>j. 1 \<le> j \<and> j < i + 1 \<longrightarrow> j \<le> length b \<and> 128 \<le> (of_char (b ! (length b - j)) :: nat)"
      using "2.prems"(3) 3 by (metis less_Suc_eq Suc_eq_plus1)
    show ?thesis by (rule "2.IH"[OF _ refl _ _ u _ p]) (use 3 in simp_all)
  qed
qed

lemma tail_escape_bound: "tail_escape b lo k = Some h \<Longrightarrow> k \<le> length b \<Longrightarrow> h \<le> length b - lo \<and> 0 < h"
  by (induction b lo k rule: tail_escape.induct) (auto split: if_splits)

lemma incompleteTailLen_bound: "incompleteTailLen b \<le> length b \<and> incompleteTailLen b \<le> ansiCarryLimit"
proof (cases "tail_escape b (length b - ansiCarryLimit) (length b)")
  case None
  have "utf8_tail b 1 4 \<le> 3 \<and> (\<forall>j. 1 \<le> j \<and> j \<le> utf8_tail b 1 4 \<longrightarrow>
      j \<le> length b \<and> 128 \<le> (of_char (b ! (length b - j)) :: nat))" by (rule utf8_tail_spec) auto
  then have "incompleteUTF8TailLen b \<le> 3 \<and> incompleteUTF8TailLen b \<le> length b"
    unfolding incompleteUTF8TailLen_def by (metis le0 le_refl not_less_eq_eq One_nat_def)
  then show ?thesis using None by (auto simp: incompleteTailLen_def Let_def ansiCarryLimit_def Suc_le_eq)
next
  case (Some h)
  then show ?thesis using tail_escape_bound[OF Some] by (auto simp: incompleteTailLen_def Let_def)
qed

text \<open>
  What is forwarded is text: whatever the terminal sends and however it is split into
  reads, the stripped output has no escape character, no control character but newline and
  tab, and no delete; and never more than \<open>ansiCarryLimit\<close> bytes are held back.
\<close>

theorem stripped_chunk_is_text:
  assumes "stripANSIChunk pending chunk = (out, tail)"
  shows "(\<forall>c\<in>set out. c \<noteq> ESC \<and> c \<noteq> CHR 0x7F \<and> (32 \<le> (of_char c :: nat) \<or> c = LF \<or> c = CHR 0x09)) \<and>
    length tail \<le> ansiCarryLimit \<and> (\<exists>x. pending @ chunk = x @ tail)"
proof -
  let ?c = "pending @ chunk"
  have c: "(if length pending > 0 then pending @ chunk else chunk) = ?c" by simp
  have o: "out = stripANSICore (take (length ?c - incompleteTailLen ?c) ?c)"
    and t: "tail = drop (length ?c - incompleteTailLen ?c) ?c"
    using assms unfolding stripANSIChunk_def c Let_def by (auto split: if_splits)
  have "length tail = incompleteTailLen ?c" using incompleteTailLen_bound[of ?c] unfolding t length_drop by linarith
  then have "length tail \<le> ansiCarryLimit" using incompleteTailLen_bound[of ?c] by simp
  moreover have "\<forall>c\<in>set out. visible c" using strip_visible by (simp add: o)
  moreover have "?c = take (length ?c - incompleteTailLen ?c) ?c @ tail" unfolding t by (simp only: append_take_drop_id)
  moreover have visible_out: "c \<noteq> ESC \<and> c \<noteq> CHR 0x7F \<and> (32 \<le> (of_char c :: nat) \<or> c = LF \<or> c = CHR 0x09)" if "visible c" for c
    using that by (auto simp: visible_def)
  ultimately show ?thesis using visible_out by blast
qed

subsection \<open>Well-formed terminal output\<close>

text \<open>
  The units of terminal output: a plain byte, a carriage return alone or with its newline,
  a control sequence, a string sequence ended by BEL or by \<open>ESC \\<close>, an escape of two bytes.
\<close>

datatype tok = TByte char | TCR | TCRLF | TCsi gostring gostring char | TStr char gostring bool | TTwo char

fun tok_bytes :: "tok \<Rightarrow> gostring" where
  "tok_bytes (TByte c) = [c]"
| "tok_bytes TCR = [CR]"
| "tok_bytes TCRLF = [CR, LF]"
| "tok_bytes (TCsi ps ns f) = ESC # CHR ''['' # ps @ ns @ [f]"
| "tok_bytes (TStr i body bel) = ESC # i # body @ (if bel then [BEL] else [ESC, BACKSLASH])"
| "tok_bytes (TTwo c) = [ESC, c]"

fun tok_ok :: "tok \<Rightarrow> bool" where
  "tok_ok (TByte c) = (c \<noteq> ESC \<and> c \<noteq> CR)"
| "tok_ok TCR = True"
| "tok_ok TCRLF = True"
| "tok_ok (TCsi ps ns f) = (list_all param_byte ps \<and> list_all inter_byte ns \<and> final_byte f)"
| "tok_ok (TStr i body bel) = (string_intro i \<and> list_all (\<lambda>c. c \<noteq> ESC \<and> c \<noteq> BEL) body)"
| "tok_ok (TTwo c) = (in_range 32 126 c \<and> c \<noteq> CHR ''['' \<and> \<not> string_intro c)"

fun tok_text :: "tok \<Rightarrow> gostring" where
  "tok_text (TByte c) = kept c"
| "tok_text TCR = [LF]"
| "tok_text TCRLF = [LF]"
| "tok_text (TCsi ps ns f) = (if f = CHR ''G'' \<or> f = CHR ''C'' then '' '' else [])"
| "tok_text (TStr i body bel) = []"
| "tok_text (TTwo c) = []"

definition render :: "tok list \<Rightarrow> gostring" where
  "render ts = concat (map tok_bytes ts)"

text \<open>A lone carriage return is not followed by a newline; sequences fit into the carry limit.\<close>

fun cr_alone :: "tok list \<Rightarrow> bool" where
  "cr_alone (TCR # TByte c # ts) = (c \<noteq> LF \<and> cr_alone (TByte c # ts))"
| "cr_alone (t # ts) = cr_alone ts"
| "cr_alone [] = True"

definition stream_ok :: "tok list \<Rightarrow> bool" where
  "stream_ok ts \<longleftrightarrow> (\<forall>t\<in>set ts. tok_ok t \<and> length (tok_bytes t) \<le> ansiCarryLimit) \<and> cr_alone ts"

lemma render_simps [simp]:
  "render [] = []" "render (t # ts) = tok_bytes t @ render ts" "render (ts @ us) = render ts @ render us"
  by (simp_all add: render_def)

lemma tok_bytes_ne [simp]: "tok_bytes t \<noteq> []"
  by (cases t) auto

lemma cr_alone_Cons: "cr_alone (t # ts) \<longleftrightarrow> cr_alone ts \<and> \<not> (t = TCR \<and> ts \<noteq> [] \<and> hd ts = TByte LF)"
  by (cases t; cases ts) (auto split: tok.splits; cases "hd ts"; auto)+

lemma cr_alone_append: "cr_alone (ts @ us) \<Longrightarrow> cr_alone ts \<and> cr_alone us"
  by (induction ts) (auto simp: cr_alone_Cons)

lemma stream_append: "stream_ok (ts @ us) \<Longrightarrow> stream_ok ts \<and> stream_ok us"
  by (auto simp: stream_ok_def dest: cr_alone_append)

lemma stream_mem: "stream_ok ts \<Longrightarrow> t \<in> set ts \<Longrightarrow> tok_ok t \<and> length (tok_bytes t) \<le> ansiCarryLimit"
  by (simp add: stream_ok_def)

lemma hd_tok_LF: "tok_ok t \<Longrightarrow> hd (tok_bytes t) = LF \<Longrightarrow> t = TByte LF"
  by (cases t) auto

lemma span_len_exact: "list_all P xs \<Longrightarrow> (ys = [] \<or> \<not> P (hd ys)) \<Longrightarrow> span_len P (xs @ ys) = length xs"
  by (induction xs) (cases ys; auto simp: span_len_def)+

lemma byte_classes: "inter_byte c \<Longrightarrow> \<not> param_byte c" "final_byte c \<Longrightarrow> \<not> param_byte c \<and> \<not> inter_byte c"
  by (auto simp: inter_byte_def param_byte_def final_byte_def in_range_def)

lemma csi_len_exact:
  assumes "list_all param_byte ps" "list_all inter_byte ns" "ys = [] \<or> final_byte (hd ys)"
  shows "csi_len (ps @ ns @ ys) = length ps + length ns"
proof -
  have "span_len param_byte (ps @ ns @ ys) = length ps"
    using assms by (intro span_len_exact) (cases ns; auto simp: byte_classes)+
  moreover have "span_len inter_byte (ns @ ys) = length ns"
    using assms by (intro span_len_exact) (auto simp: byte_classes)
  ultimately show ?thesis by (simp add: csi_len_def Let_def)
qed

lemma string_scan_body:
  "list_all (\<lambda>c. c \<noteq> ESC \<and> c \<noteq> BEL) body \<Longrightarrow> string_scan (body @ x) = length body + string_scan x"
  "list_all (\<lambda>c. c \<noteq> ESC \<and> c \<noteq> BEL) body \<Longrightarrow> string_complete (body @ x) = string_complete x"
  by (induction body) auto

lemma core_tok:
  assumes "tok_ok t" "t = TCR \<Longrightarrow> x = [] \<or> hd x \<noteq> LF"
  shows "stripANSICore (tok_bytes t @ x) = tok_text t @ stripANSICore x"
proof (cases t)
  case (TByte c)
  then show ?thesis using assms(1) by (simp add: core_byte)
next
  case TCR
  then show ?thesis using assms(2) by (auto simp: core_cr)
next
  case TCRLF
  then show ?thesis by (simp add: core_cr)
next
  case (TCsi ps ns f)
  have "csi_len (ps @ ns @ f # x) = length ps + length ns" using assms(1) TCsi csi_len_exact[of ps ns "f # x"] by simp
  then have "drop (csi_len (ps @ ns @ f # x)) (ps @ ns @ f # x) = f # x" by simp
  from core_esc(3)[OF this] show ?thesis using assms(1) TCsi by simp
next
  case (TStr i body bel)
  have "drop (string_scan (body @ (if bel then [BEL] else [ESC, BACKSLASH]) @ x))
      (body @ (if bel then [BEL] else [ESC, BACKSLASH]) @ x) = x"
    using assms(1) TStr by (cases bel) (simp_all add: string_scan_body(1))
  then show ?thesis using assms(1) TStr core_esc(5)[of i "body @ (if bel then [BEL] else [ESC, BACKSLASH]) @ x"] by simp
next
  case (TTwo c)
  then show ?thesis using assms(1) by (simp add: core_esc)
qed

definition texts :: "tok list \<Rightarrow> gostring" where
  "texts ts = concat (map tok_text ts)"

lemma core_render:
  assumes "stream_ok ts" "ts \<noteq> [] \<Longrightarrow> last ts = TCR \<Longrightarrow> x = [] \<or> hd x \<noteq> LF"
  shows "stripANSICore (render ts @ x) = texts ts @ stripANSICore x"
  using assms
proof (induction ts)
  case (Cons t ts)
  have s: "stream_ok ts" "tok_ok t" using Cons.prems(1) stream_append[of "[t]" ts] by (auto simp: stream_ok_def)
  have "render ts @ x = [] \<or> hd (render ts @ x) \<noteq> LF" if "t = TCR"
  proof (cases ts)
    case Nil
    then show ?thesis using Cons.prems(2) that by simp
  next
    case (Cons u us)
    have "cr_alone (TCR # u # us)" using Cons.prems(1) that \<open>ts = u # us\<close> by (simp add: stream_ok_def)
    then have "u \<noteq> TByte LF" by (auto simp: cr_alone_Cons)
    moreover have "tok_ok u" using s(1) Cons by (simp add: stream_ok_def)
    ultimately have "hd (tok_bytes u) \<noteq> LF" using hd_tok_LF by blast
    then show ?thesis using Cons by simp
  qed
  from core_tok[OF s(2) this] Cons.IH[OF s(1)] Cons.prems(2) show ?case by (simp add: texts_def split: if_splits)
qed (simp add: texts_def)

lemma core_split:
  assumes "stream_ok (ts @ us)"
  shows "stripANSICore (render (ts @ us)) = stripANSICore (render ts) @ stripANSICore (render us)"
proof -
  have s: "stream_ok ts" using stream_append[OF assms] by simp
  have "render us = [] \<or> hd (render us) \<noteq> LF" if l: "ts \<noteq> []" "last ts = TCR"
  proof (cases us)
    case (Cons u us')
    have "cr_alone ((butlast ts @ [TCR]) @ us)" using assms l by (metis stream_ok_def append_butlast_last_id)
    then have "cr_alone (TCR # u # us')" using cr_alone_append[of "butlast ts" "TCR # us"] Cons by simp
    then have "u \<noteq> TByte LF" by (auto simp: cr_alone_Cons)
    moreover have "tok_ok u" using assms Cons by (simp add: stream_ok_def)
    ultimately have "hd (tok_bytes u) \<noteq> LF" using hd_tok_LF by blast
    then show ?thesis using Cons by simp
  qed simp
  then show ?thesis using core_render[OF s, of "render us"] core_render[OF s, of "[]"] by simp
qed

subsection \<open>Where the reads end\<close>

lemma tail_escape_none: "ESC \<notin> set (take k b) \<Longrightarrow> k \<le> length b \<Longrightarrow> tail_escape b lo k = None"
proof (induction k)
  case (Suc k)
  have "b ! k \<noteq> ESC" using Suc.prems by (auto simp: take_Suc_conv_app_nth)
  moreover have "ESC \<notin> set (take k b)" using Suc.prems by (simp add: take_Suc_conv_app_nth)
  ultimately show ?case using Suc by simp
qed simp

lemma tail_escape_last:
  assumes "ESC \<notin> set v"
  shows "tail_escape (u @ ESC # v) lo (length (u @ ESC # v)) =
    (if length u < lo then None else if escapeIncomplete (ESC # v) then Some (Suc (length v)) else None)"
proof -
  have "tail_escape (u @ ESC # v) lo (length u + Suc j) =
      (if length u < lo then None else if escapeIncomplete (ESC # v) then Some (Suc (length v)) else None)" if "j \<le> length v" for j
    using that
  proof (induction j)
    case 0
    then show ?case by (simp add: nth_append)
  next
    case (Suc j)
    let ?b = "u @ ESC # v"
    have "v ! j \<in> set v" using Suc.prems by (intro nth_mem) simp
    then have "v ! j \<noteq> ESC" using assms by metis
    then have "?b ! (length u + Suc j) \<noteq> ESC" by (simp add: nth_append)
    then have "tail_escape ?b lo (Suc (length u + Suc j)) =
        (if length u + Suc j < lo then None else tail_escape ?b lo (length u + Suc j))"
      unfolding tail_escape.simps(2)[of ?b lo "length u + Suc j"] by (simp only: if_False if_True not_False_eq_True)
    with Suc.IH Suc.prems show ?case by (simp del: tail_escape.simps)
  qed
  from this[of "length v"] show ?thesis by simp
qed

definition is_escape :: "tok \<Rightarrow> bool" where
  "is_escape t = (case t of TByte _ \<Rightarrow> False | TCR \<Rightarrow> False | TCRLF \<Rightarrow> False | _ \<Rightarrow> True)"

text \<open>The part of a sequence after its last escape character is complete, whatever follows it.\<close>

lemma no_esc_classes: "param_byte c \<Longrightarrow> c \<noteq> ESC" "inter_byte c \<Longrightarrow> c \<noteq> ESC" "final_byte c \<Longrightarrow> c \<noteq> ESC"
  "string_intro c \<Longrightarrow> c \<noteq> ESC" "in_range 32 126 c \<Longrightarrow> c \<noteq> ESC"
  by (auto simp: param_byte_def inter_byte_def final_byte_def in_range_def string_intro_def)

lemma list_all_no_esc: "list_all P xs \<Longrightarrow> (\<And>c. P c \<Longrightarrow> c \<noteq> ESC) \<Longrightarrow> ESC \<notin> set xs"
  by (auto simp: list_all_iff)

lemma escape_complete:
  assumes "tok_ok t" "is_escape t"
  shows "\<exists>u v. tok_bytes t = u @ ESC # v \<and> ESC \<notin> set v \<and> (\<forall>y. \<not> escapeIncomplete (ESC # v @ y))"
proof (cases t)
  case (TCsi ps ns f)
  have "drop (csi_len (ps @ ns @ f # y)) (ps @ ns @ f # y) = f # y" for y
    using assms(1) TCsi csi_len_exact[of ps ns "f # y"] by simp
  then have "\<not> escapeIncomplete (ESC # (CHR ''['' # ps @ ns @ [f]) @ y)" for y
    using assms(1) TCsi by (simp add: escapeIncomplete_def)
  moreover have "ESC \<notin> set (CHR ''['' # ps @ ns @ [f])"
    using assms(1) TCsi list_all_no_esc[of param_byte ps] list_all_no_esc[of inter_byte ns] no_esc_classes by auto
  ultimately show ?thesis using TCsi by (intro exI[of _ "[]"] exI[of _ "CHR ''['' # ps @ ns @ [f]"]) simp
next
  case (TStr i body bel)
  show ?thesis
  proof (cases bel)
    case True
    have "\<not> escapeIncomplete (ESC # (i # body @ [BEL]) @ y)" for y
      using assms(1) TStr by (simp add: escapeIncomplete_def string_scan_body(2) intro_not_bracket)
    moreover have "ESC \<notin> set (i # body @ [BEL])"
      using assms(1) TStr list_all_no_esc[of "\<lambda>c. c \<noteq> ESC \<and> c \<noteq> BEL" body] no_esc_classes(4)[of i] by auto
    ultimately show ?thesis using TStr True by (intro exI[of _ "[]"] exI[of _ "i # body @ [BEL]"]) simp
  next
    case False
    have "\<not> escapeIncomplete (ESC # [BACKSLASH] @ y)" for y by (simp add: escapeIncomplete_def string_intro_def)
    then show ?thesis using TStr False by (intro exI[of _ "ESC # i # body"] exI[of _ "[BACKSLASH]"]) simp
  qed
next
  case (TTwo c)
  have "\<not> escapeIncomplete (ESC # [c] @ y)" for y using assms(1) TTwo by (simp add: escapeIncomplete_def)
  moreover have "c \<noteq> ESC" using assms(1) TTwo no_esc_classes(5)[of c] by simp
  ultimately show ?thesis using TTwo by (intro exI[of _ "[]"] exI[of _ "[c]"]) simp
qed (use assms(2) in \<open>simp_all add: is_escape_def\<close>)

lemma non_escape_bytes: "tok_ok t \<Longrightarrow> \<not> is_escape t \<Longrightarrow> ESC \<notin> set (tok_bytes t)"
  by (cases t) (auto simp: is_escape_def)

lemma tail_escape_complete:
  "\<forall>t\<in>set ts. tok_ok t \<Longrightarrow> ESC \<notin> set y \<Longrightarrow> tail_escape (render ts @ y) lo (length (render ts @ y)) = None"
proof (induction ts arbitrary: y rule: rev_induct)
  case Nil
  then show ?case using tail_escape_none[of "length y" y lo] by simp
next
  case (snoc t ts)
  show ?case
  proof (cases "is_escape t")
    case True
    from escape_complete[OF _ True] snoc.prems(1) obtain u v where
      t: "tok_bytes t = u @ ESC # v" "ESC \<notin> set v" "\<not> escapeIncomplete (ESC # v @ y)" by auto
    show ?thesis using tail_escape_last[of "v @ y" "render ts @ u" lo] t snoc.prems(2) by simp
  next
    case False
    then have "ESC \<notin> set (tok_bytes t @ y)" using non_escape_bytes[of t] snoc.prems by auto
    from snoc.IH[OF _ this] snoc.prems(1) show ?thesis by simp
  qed
qed

text \<open>A proper part of a sequence is incomplete.\<close>

lemma take_app: "m < length (xs @ ys) \<Longrightarrow> take m (xs @ ys) = (if m \<le> length xs then take m xs else xs @ take (m - length xs) ys)"
  by auto

lemma list_all_take: "list_all P xs \<Longrightarrow> list_all P (take m xs)"
  by (auto simp: list_all_iff dest: in_set_takeD)

lemma csi_prefix_incomplete:
  assumes "list_all param_byte ps" "list_all inter_byte ns" "m \<le> length (ps @ ns)"
  shows "escapeIncomplete (ESC # CHR ''['' # take m (ps @ ns)) \<and> ESC \<notin> set (take m (ps @ ns))"
proof -
  have e: "take m (ps @ ns) = take m ps @ take (m - length ps) ns @ []" by simp
  have "csi_len (take m (ps @ ns)) = length (take m ps) + length (take (m - length ps) ns)"
    unfolding e using assms by (intro csi_len_exact list_all_take) auto
  then have "drop (csi_len (take m (ps @ ns))) (take m (ps @ ns)) = []" using assms(3) by auto
  moreover have "ESC \<notin> set (ps @ ns)"
    using assms list_all_no_esc[of param_byte ps] list_all_no_esc[of inter_byte ns] no_esc_classes by auto
  then have "ESC \<notin> set (take m (ps @ ns))" using in_set_takeD by metis
  ultimately show ?thesis by (simp add: escapeIncomplete_def)
qed

lemma str_prefix_incomplete:
  assumes "string_intro i" "list_all (\<lambda>c. c \<noteq> ESC \<and> c \<noteq> BEL) body"
  shows "escapeIncomplete (ESC # i # take m body) \<and> ESC \<notin> set (i # take m body)"
proof -
  have l: "list_all (\<lambda>c. c \<noteq> ESC \<and> c \<noteq> BEL) (take m body)" using assms(2) by (rule list_all_take)
  then have "\<not> string_complete (take m body)" using string_scan_body(2)[OF l, of "[]"] by simp
  then show ?thesis
    using assms(1) list_all_no_esc[OF l] no_esc_classes(4)[of i] intro_not_bracket[of i]
    by (auto simp: escapeIncomplete_def)
qed

text \<open>
  The shapes a proper part of a sequence can have: one escape character at its start and
  incomplete, or the escape character of the terminator at its end.
\<close>

lemma partial_escape:
  assumes "tok_ok t" "is_escape t" "0 < m" "m < length (tok_bytes t)"
  shows "(\<exists>v. take m (tok_bytes t) = ESC # v \<and> ESC \<notin> set v \<and> escapeIncomplete (ESC # v)) \<or>
    (\<exists>i body. t = TStr i body False \<and> m = length (tok_bytes t) - 1)"
proof (cases "m = 1")
  case True
  then have "take m (tok_bytes t) = [ESC]" using assms(2) by (cases t) (auto simp: is_escape_def)
  then show ?thesis by (intro disjI1 exI[of _ "[]"]) (simp add: escapeIncomplete_def)
next
  case False
  then obtain k where m: "m = Suc (Suc k)" using assms(3) by (metis One_nat_def Suc_pred not0_implies_Suc less_numeral_extra(3))
  show ?thesis
  proof (cases t)
    case (TCsi ps ns f)
    then have k: "k \<le> length (ps @ ns)" using assms(4) m by simp
    have "take m (tok_bytes t) = ESC # CHR ''['' # take k (ps @ ns)" using TCsi m k by simp
    with csi_prefix_incomplete[OF _ _ k] assms(1) TCsi show ?thesis by (intro disjI1 exI[of _ "CHR ''['' # take k (ps @ ns)"]) auto
  next
    case (TStr i body bel)
    show ?thesis
    proof (cases "k \<le> length body")
      case True
      then have "take m (tok_bytes t) = ESC # i # take k body" using TStr m by simp
      with str_prefix_incomplete[of i body k] assms(1) TStr show ?thesis by (intro disjI1 exI[of _ "i # take k body"]) auto
    next
      case False
      then have "\<not> bel \<and> m = length (tok_bytes t) - 1" using assms(4) m TStr by (auto split: if_splits)
      then show ?thesis using TStr by auto
    qed
  next
    case (TTwo c)
    then show ?thesis using assms(4) m by simp
  qed (use assms(2) in \<open>simp_all add: is_escape_def\<close>)
qed

text \<open>The unit in which the read \<open>c\<close> ends.\<close>

lemma end_of_read:
  assumes "c @ rest = render ts" "c \<noteq> []"
  shows "\<exists>ts1 t ts2 m. ts = ts1 @ t # ts2 \<and> 0 < m \<and> m \<le> length (tok_bytes t) \<and>
    c = render ts1 @ take m (tok_bytes t) \<and> rest = drop m (tok_bytes t) @ render ts2"
  using assms
proof (induction ts arbitrary: c)
  case (Cons t ts)
  show ?case
  proof (cases "length c \<le> length (tok_bytes t)")
    case True
    have "c = take (length c) (c @ rest)" "rest = drop (length c) (c @ rest)" by simp_all
    then have "c = take (length c) (tok_bytes t)" "rest = drop (length c) (tok_bytes t) @ render ts"
      using Cons.prems(1) True by simp_all
    then show ?thesis using True Cons.prems(2)
      by (intro exI[of _ "[]"] exI[of _ t] exI[of _ ts] exI[of _ "length c"]) simp
  next
    case False
    have c: "c = tok_bytes t @ drop (length (tok_bytes t)) c"
      using Cons.prems(1) False by (metis append_eq_append_conv_if append_take_drop_id nat_le_linear render_simps(2) take_all_iff)
    then have "drop (length (tok_bytes t)) c @ rest = render ts" using Cons.prems(1)
      by (metis append_assoc render_simps(2) same_append_eq)
    moreover have "drop (length (tok_bytes t)) c \<noteq> []" using False by simp
    ultimately obtain ts1 u ts2 m where "ts = ts1 @ u # ts2" "0 < m" "m \<le> length (tok_bytes u)"
      "drop (length (tok_bytes t)) c = render ts1 @ take m (tok_bytes u)" "rest = drop m (tok_bytes u) @ render ts2"
      using Cons.IH by blast
    then show ?thesis using c by (intro exI[of _ "t # ts1"] exI[of _ u] exI[of _ ts2] exI[of _ m]) simp
  qed
qed simp

lemma utf8_low: "b \<noteq> [] \<Longrightarrow> (of_char (last b) :: nat) < 128 \<Longrightarrow> incompleteUTF8TailLen b = 0"
proof -
  assume b: "b \<noteq> []" "(of_char (last b) :: nat) < 128"
  have "utf8_tail b 1 (Suc 3) = 0"
    unfolding utf8_tail.simps(2) Let_def using b(2)[unfolded last_conv_nth[OF b(1)]] by (simp only: if_True if_cancel)
  then show "incompleteUTF8TailLen b = 0" by (simp add: incompleteUTF8TailLen_def)
qed

lemma last_high_byte: "tok_ok t \<Longrightarrow> 128 \<le> (of_char (last (tok_bytes t)) :: nat) \<Longrightarrow> \<exists>c. t = TByte c"
  by (cases t) (auto simp: final_byte_def in_range_def split: if_splits)

text \<open>A run of bytes above ASCII at the end consists of whole units.\<close>

lemma high_run:
  "\<forall>t\<in>set ts. tok_ok t \<Longrightarrow>
   \<forall>j. 1 \<le> j \<and> j \<le> h \<longrightarrow> j \<le> length (render ts) \<and> 128 \<le> (of_char (render ts ! (length (render ts) - j)) :: nat) \<Longrightarrow>
   \<exists>us1 us2. ts = us1 @ us2 \<and> take (length (render ts) - h) (render ts) = render us1"
proof (induction h arbitrary: ts)
  case 0
  then show ?case by (intro exI[of _ ts] exI[of _ "[]"]) simp
next
  case (Suc h)
  have ne: "ts \<noteq> []" using Suc.prems(2)[rule_format, of 1] by auto
  then obtain vs t where ts: "ts = vs @ [t]" by (metis append_butlast_last_id)
  have "128 \<le> (of_char (last (render ts)) :: nat)"
    using Suc.prems(2)[rule_format, of 1] ne by (simp add: ts last_conv_nth)
  then have "128 \<le> (of_char (last (tok_bytes t)) :: nat)" by (simp add: ts)
  then obtain c where t: "t = TByte c" using last_high_byte[of t] Suc.prems(1) by (auto simp: ts)
  have "\<forall>j. 1 \<le> j \<and> j \<le> h \<longrightarrow> j \<le> length (render vs) \<and> 128 \<le> (of_char (render vs ! (length (render vs) - j)) :: nat)"
  proof (intro allI impI)
    fix j assume j: "1 \<le> j \<and> j \<le> h"
    have "Suc j \<le> length (render ts) \<and> 128 \<le> (of_char (render ts ! (length (render ts) - Suc j)) :: nat)"
      using Suc.prems(2)[rule_format, of "Suc j"] j by simp
    then show "j \<le> length (render vs) \<and> 128 \<le> (of_char (render vs ! (length (render vs) - j)) :: nat)"
      using j by (auto simp: ts t nth_append split: if_splits)
  qed
  from Suc.IH[OF _ this] Suc.prems(1) obtain us1 us2 where
    "vs = us1 @ us2" "take (length (render vs) - h) (render vs) = render us1" by (auto simp: ts)
  then show ?case by (intro exI[of _ us1] exI[of _ "us2 @ [t]"]) (simp add: ts t)
qed

subsection \<open>Independence\<close>

text \<open>
  One read of a well-formed stream: what is stripped now and what the held-back bytes give
  with the rest of the stream is what the whole gives; the held-back bytes and the rest are
  well-formed again.
\<close>

definition good_cut :: "gostring \<Rightarrow> gostring \<Rightarrow> nat \<Rightarrow> bool" where
  "good_cut c rest p \<longleftrightarrow> (\<exists>us. stream_ok us \<and> drop p c @ rest = render us \<and>
     stripANSICore (c @ rest) = stripANSICore (take p c) @ stripANSICore (drop p c @ rest))"

lemma cut_at_unit:
  assumes "stream_ok (ts1 @ ts2)" "c @ rest = render (ts1 @ ts2)" "p = length (render ts1)" "p \<le> length c"
  shows "good_cut c rest p"
proof -
  have "take p (c @ rest) = render ts1" "drop p (c @ rest) = render ts2" using assms(2,3) by simp_all
  then have "take p c = render ts1" "drop p c @ rest = render ts2" using assms(4) by simp_all
  then show ?thesis
    using core_split[OF assms(1)] stream_append[OF assms(1)] assms(2) unfolding good_cut_def by (metis)
qed

lemma cut_in_terminator:
  assumes "stream_ok (ts1 @ TStr i body False # ts2)" "c = render ts1 @ ESC # i # body @ [ESC]" "rest = BACKSLASH # render ts2"
  shows "good_cut c rest (length c - 1)"
proof -
  let ?t = "TStr i body False"
  have ok: "tok_ok ?t" "stream_ok ts1" "stream_ok (?t # ts2)" "stream_ok ts2"
    using assms(1) stream_append[of ts1 "?t # ts2"] stream_append[of "[?t]" ts2] by (auto simp: stream_ok_def)
  have "stream_ok (TTwo BACKSLASH # ts2)"
    using ok(4) by (auto simp: stream_ok_def cr_alone_Cons ansiCarryLimit_def in_range_def string_intro_def)
  moreover have "drop (length c - 1) c @ rest = render (TTwo BACKSLASH # ts2)" using assms(2,3) by simp
  moreover have "stripANSICore (take (length c - 1) c) = stripANSICore (render ts1)"
  proof -
    have "string_scan body = length body" using string_scan_body(1)[of body "[]"] ok(1) by simp
    then have "stripANSICore (ESC # i # body) = []" using ok(1) core_esc(5)[of i body] by simp
    moreover have "stripANSICore (render ts1 @ ESC # i # body) = texts ts1 @ stripANSICore (ESC # i # body)"
      using core_render[OF ok(2), of "ESC # i # body"] by simp
    ultimately show ?thesis using core_render[OF ok(2), of "[]"] assms(2) by simp
  qed
  moreover have "stripANSICore (ESC # BACKSLASH # render ts2) = stripANSICore (render ts2)"
    by (rule core_esc(6)) (simp_all add: string_intro_def)
  moreover have "stripANSICore (c @ rest) = stripANSICore (render ts1) @ stripANSICore (render ts2)"
    using core_split[OF assms(1)] core_tok[OF ok(1), of "render ts2"] assms(2,3) by simp
  ultimately show ?thesis unfolding good_cut_def by (intro exI[of _ "TTwo BACKSLASH # ts2"]) simp
qed

lemma read_good_cut:
  assumes "stream_ok ts" "c @ rest = render ts"
  shows "good_cut c rest (length c - incompleteTailLen c)"
proof (cases "c = []")
  case True
  then show ?thesis using assms cut_at_unit[of "[]" ts c rest 0] by (simp add: incompleteTailLen_def)
next
  case False
  from end_of_read[OF assms(2) False] obtain ts1 t ts2 m where ts: "ts = ts1 @ t # ts2" and m: "0 < m" "m \<le> length (tok_bytes t)"
    and c: "c = render ts1 @ take m (tok_bytes t)" and rest: "rest = drop m (tok_bytes t) @ render ts2" by blast
  have ok: "\<forall>t\<in>set ts1. tok_ok t" "tok_ok t" "length (tok_bytes t) \<le> ansiCarryLimit" using assms(1) by (auto simp: ts stream_ok_def)
  have n: "length c > 0" using False by simp
  define lo where "lo = length c - ansiCarryLimit"
  have tl: "incompleteTailLen c = (case tail_escape c lo (length c) of Some h \<Rightarrow> h
      | None \<Rightarrow> if c ! (length c - 1) = CR then 1 else incompleteUTF8TailLen c)"
    using n by (simp add: incompleteTailLen_def lo_def Let_def)
  have split1: "stream_ok (ts1 @ t # ts2)" "c @ rest = render (ts1 @ t # ts2)" using assms by (simp_all add: ts)
  show ?thesis
  proof (cases "is_escape t \<and> m < length (tok_bytes t)")
    case True
    from partial_escape[OF ok(2) _ m(1)] True
    consider v where "take m (tok_bytes t) = ESC # v" "ESC \<notin> set v" "escapeIncomplete (ESC # v)"
      | i body where "t = TStr i body False" "m = length (tok_bytes t) - 1" by blast
    then show ?thesis
    proof cases
      case (1 v)
      have "m < ansiCarryLimit" using True ok(3) by simp
      then have "\<not> length (render ts1) < lo" using c m(2) by (simp add: lo_def)
      then have "tail_escape c lo (length c) = Some (Suc (length v))"
        using tail_escape_last[OF 1(2), of "render ts1" lo] 1 c by simp
      moreover have "length c - Suc (length v) = length (render ts1)" using c 1(1) by simp
      ultimately show ?thesis using cut_at_unit[OF split1 refl] tl c by simp
    next
      case (2 i body)
      have c': "c = render ts1 @ ESC # i # body @ [ESC]" "rest = BACKSLASH # render ts2" using c rest 2 by simp_all
      have "tail_escape c lo (length c) = Some 1"
        using tail_escape_last[of "[]" "render ts1 @ ESC # i # body" lo] c'
        by (simp add: escapeIncomplete_def lo_def ansiCarryLimit_def)
      then show ?thesis using cut_in_terminator[OF _ c'] split1(1) 2(1) tl by simp
    qed
  next
    case False
    have none: "tail_escape c lo (length c) = None"
    proof (cases "is_escape t")
      case True
      then have "c = render (ts1 @ [t])" using False m c by simp
      then show ?thesis using tail_escape_complete[of "ts1 @ [t]" "[]" lo] ok by simp
    next
      case False
      then have "ESC \<notin> set (take m (tok_bytes t))" using non_escape_bytes[OF ok(2) False] in_set_takeD by metis
      from tail_escape_complete[OF ok(1) this, of lo] show ?thesis by (simp only: c[symmetric])
    qed
    show ?thesis
    proof (cases "c ! (length c - 1) = CR")
      case True
      have m1: "m = 1" "hd (tok_bytes t) = CR"
      proof -
        have "last c = CR" using True n by (simp add: last_conv_nth)
        then have l: "last (take m (tok_bytes t)) = CR" using m c by (simp add: last_append)
        have "m = 1 \<and> hd (tok_bytes t) = CR"
        proof (cases t)
          case TCRLF
          then show ?thesis using l m by (cases m; cases "m - 1") auto
        next
          case TCR
          then show ?thesis using m by auto
        next
          case (TByte x)
          then show ?thesis using l m ok(2) by (cases m) auto
        next
          case (TCsi ps ns f)
          then show ?thesis using l False m ok(2) by (auto simp: is_escape_def final_byte_def in_range_def)
        next
          case (TStr i body bel)
          then show ?thesis using l False m ok(2) by (auto simp: is_escape_def split: if_splits)
        next
          case (TTwo x)
          then show ?thesis using l False m ok(2) by (auto simp: is_escape_def in_range_def)
        qed
        then show "m = 1" "hd (tok_bytes t) = CR" by auto
      qed
      then have "length c - 1 = length (render ts1)" using c m by simp
      then show ?thesis using cut_at_unit[OF split1 refl] tl none True c by simp
    next
      case False
      have full: "m = length (tok_bytes t)"
      proof (rule ccontr)
        assume "m \<noteq> length (tok_bytes t)"
        then have mm: "m < length (tok_bytes t)" "\<not> is_escape t" using m \<open>\<not> (is_escape t \<and> m < length (tok_bytes t))\<close> by auto
        then have "t = TCRLF" "m = 1" using m by (cases t; auto simp: is_escape_def)+
        then show False using c False by (simp add: nth_append)
      qed
      have cr: "c = render (ts1 @ [t])" using c full by simp
      let ?h = "incompleteUTF8TailLen c"
      have "\<forall>j. 1 \<le> j \<and> j \<le> ?h \<longrightarrow> j \<le> length c \<and> 128 \<le> (of_char (c ! (length c - j)) :: nat)"
        using utf8_tail_spec[of c 1 4 ?h] by (auto simp: incompleteUTF8TailLen_def)
      moreover have "\<forall>u\<in>set (ts1 @ [t]). tok_ok u" using ok by simp
      ultimately obtain us1 us2 where us: "ts1 @ [t] = us1 @ us2" "take (length c - ?h) c = render us1"
        using high_run[of "ts1 @ [t]" ?h, folded cr] by blast
      have "length (render us1) = length c - ?h" using us(2) by (metis length_take min.absorb2 diff_le_self)
      then have l: "length c - ?h = length (render us1)" "length c - ?h \<le> length c" by simp_all
      have e: "ts1 @ t # ts2 = us1 @ us2 @ ts2" using us(1) by (metis append_Cons append_Nil append_assoc)
      have "good_cut c rest (length c - ?h)"
        by (rule cut_at_unit[OF _ _ l]) (use split1 in \<open>simp_all only: e\<close>)
      then show ?thesis using tl none False by simp
    qed
  qed
qed

lemma chunk_step:
  "stripANSIChunk pending c = (let n = length (pending @ c) - incompleteTailLen (pending @ c) in
     (stripANSICore (take n (pending @ c)), drop n (pending @ c)))"
proof -
  have "(if length pending > 0 then pending @ c else c) = pending @ c" by simp
  then show ?thesis unfolding stripANSIChunk_def Let_def by auto
qed

lemma strip_chunks_split:
  "stream_ok ts \<Longrightarrow> pending @ concat cs = render ts \<Longrightarrow> strip_chunks pending cs = (out, tail) \<Longrightarrow>
   out @ stripANSICore tail = stripANSICore (pending @ concat cs)"
proof (induction cs arbitrary: ts pending out)
  case Nil
  then show ?case by simp
next
  case (Cons c cs)
  let ?x = "pending @ c" let ?n = "length ?x - incompleteTailLen ?x"
  obtain out' where o: "strip_chunks (drop ?n ?x) cs = (out', tail)" "out = stripANSICore (take ?n ?x) @ out'"
    using Cons.prems(3) by (auto simp: chunk_step Let_def split: prod.splits)
  from read_good_cut[OF Cons.prems(1), of ?x "concat cs"] Cons.prems(2) obtain us where
    us: "stream_ok us" "drop ?n ?x @ concat cs = render us"
    "stripANSICore (?x @ concat cs) = stripANSICore (take ?n ?x) @ stripANSICore (drop ?n ?x @ concat cs)"
    unfolding good_cut_def by auto
  from Cons.IH[OF us(1,2) o(1)] us(3) o(2) show ?case by simp
qed

text \<open>
  C4. Where the reads end does not matter: for terminal output made of complete escape
  sequences no longer than the carry limit, text, and carriage returns, any division into
  reads gives the same text as stripping the whole output at once, once the bytes still held
  back are stripped too.
\<close>

theorem chunking_is_invariant:
  assumes "stream_ok ts" "concat chunks = render ts"
  shows "\<exists>out tail. strip_chunks [] chunks = (out, tail) \<and> out @ stripANSICore tail = stripANSICore (render ts)"
proof -
  obtain out tail where s: "strip_chunks [] chunks = (out, tail)" by fastforce
  from strip_chunks_split[OF assms(1) _ s] assms(2) s show ?thesis by auto
qed

text \<open>
  Beyond the carry limit the division does matter: a string sequence (a window title)
  whose first 128 bytes and more arrive in one read and its end in the next shows the end of
  the title as text, which stripping the whole does not.
\<close>

theorem long_title_leaks:
  assumes "list_all (\<lambda>c. c \<noteq> ESC \<and> c \<noteq> BEL \<and> c \<noteq> CR \<and> visible c \<and> (of_char c :: nat) < 128) (body @ ending @ after)"
    "ansiCarryLimit \<le> length body" "ending \<noteq> []"
  shows "strip_chunks [] [ESC # CHR '']'' # body, ending @ BEL # after] = (ending @ after, []) \<and>
    stripANSICore (concat [ESC # CHR '']'' # body, ending @ BEL # after]) = after"
proof -
  have la: "list_all (\<lambda>c. c \<noteq> ESC \<and> c \<noteq> BEL) xs" if "set xs \<subseteq> set (body @ ending @ after)" for xs
    using assms(1) that by (auto simp: list_all_iff)
  have plain: "stripANSICore (xs @ ys) = xs @ stripANSICore ys" if "set xs \<subseteq> set (body @ ending @ after)" for xs ys
    using that assms(1)
  proof (induction xs)
    case (Cons x xs)
    then have "x \<noteq> ESC" "x \<noteq> CR" "visible x" by (auto simp: list_all_iff)
    with Cons show ?case by (simp add: core_byte kept_def)
  qed simp
  have aft: "stripANSICore after = after" using plain[of after "[]"] by auto
  have bel: "stripANSICore (BEL # ys) = stripANSICore ys" for ys
    using core_byte[of BEL ys] by (simp add: kept_def visible_def)
  have i: "string_intro (CHR '']'')" by (simp add: string_intro_def)
  have whole: "stripANSICore (ESC # CHR '']'' # body @ ending @ BEL # after) = after"
  proof -
    have "string_scan ((body @ ending) @ BEL # after) = length (body @ ending) + 1"
      using string_scan_body(1)[of "body @ ending" "BEL # after"] la[of "body @ ending"] by auto
    then have "drop (string_scan (body @ ending @ BEL # after)) (body @ ending @ BEL # after) = after" by simp
    then show ?thesis using core_esc(5)[OF i, of "body @ ending @ BEL # after"] aft by simp
  qed
  let ?c1 = "ESC # CHR '']'' # body" let ?c2 = "ending @ BEL # after"
  have lastlow: "(of_char (last xs) :: nat) < 128 \<and> last xs \<noteq> CR" if "xs \<noteq> []" "set xs \<subseteq> set (body @ ending @ after)" for xs
    using subsetD[OF that(2) last_in_set[OF that(1)]] assms(1)[unfolded list_all_iff] by metis
  have h1: "incompleteTailLen ?c1 = 0"
  proof -
    have b: "body \<noteq> []" using assms(2) by (auto simp: ansiCarryLimit_def)
    have "tail_escape ?c1 (length ?c1 - ansiCarryLimit) (length ?c1) = None"
    proof -
      have "list_all (\<lambda>c. c \<noteq> ESC \<and> c \<noteq> BEL) body" by (rule la) auto
      then have "ESC \<notin> set body" by (auto simp: list_all_iff)
      then have "ESC \<notin> set (CHR '']'' # body)" by simp
      from tail_escape_last[OF this, of "[]" "length ?c1 - ansiCarryLimit"] assms(2) show ?thesis
        by (simp add: ansiCarryLimit_def)
    qed
    moreover have "?c1 ! (length ?c1 - 1) \<noteq> CR" using lastlow[of body] b by (simp add: last_conv_nth nth_Cons')
    ultimately show ?thesis using utf8_low[of ?c1] lastlow[of body] b by (simp add: incompleteTailLen_def Let_def)
  qed
  have h2: "incompleteTailLen ?c2 = 0"
  proof -
    have "list_all (\<lambda>c. c \<noteq> ESC \<and> c \<noteq> BEL) (ending @ after)" by (rule la) auto
    then have "ESC \<notin> set ?c2" by (auto simp: list_all_iff)
    then have "tail_escape ?c2 (length ?c2 - ansiCarryLimit) (length ?c2) = None" by (intro tail_escape_none) simp_all
    moreover have l: "(of_char (last ?c2) :: nat) < 128 \<and> last ?c2 \<noteq> CR" using lastlow[of after] by (cases "after = []") auto
    then have "?c2 ! (length ?c2 - 1) \<noteq> CR" by (simp add: last_conv_nth)
    ultimately show ?thesis using utf8_low[of ?c2] l by (simp add: incompleteTailLen_def Let_def)
  qed
  have "stripANSICore ?c1 = []"
    using core_esc(5)[OF i, of body] string_scan_body(1)[of body "[]"] la[of body] by simp
  moreover have "stripANSICore ?c2 = ending @ after" using plain[of ending "BEL # after"] aft bel[of after] by (simp add: subset_iff)
  ultimately have "strip_chunks [] [?c1, ?c2] = (ending @ after, [])" using h1 h2 by (simp add: chunk_step)
  with whole show ?thesis by simp
qed

subsection \<open>Witnesses\<close>

definition ex_stream :: "tok list" where
  "ex_stream = [TByte CHR ''D'', TByte CHR ''o'', TCsi ''5'' [] CHR ''G'', TByte CHR ''y'', TStr CHR '']'' ''0;t'' False, TCRLF]"

definition ex_reads :: "gostring list" where
  "ex_reads = [''Do'' @ [ESC, CHR ''['', CHR ''5''], [CHR ''G'', CHR ''y'', ESC] @ '']0;t'' @ [ESC], [BACKSLASH, CR], [LF]]"

lemma ex_stream_ok: "stream_ok ex_stream"
  by (simp add: stream_ok_def ex_stream_def ansiCarryLimit_def param_byte_def final_byte_def in_range_def string_intro_def)

lemma ex_stream_text: "stripANSICore (render ex_stream) = ''Do y'' @ [LF]"
  using core_render[OF ex_stream_ok, of "[]"] by (simp add: ex_stream_def texts_def kept_def visible_def)

theorem stripped_chunk_is_text_witness:
  "\<exists>out tail. stripANSIChunk [] ''ab'' = (out, tail) \<and> length tail \<le> ansiCarryLimit"
proof -
  obtain out tail where s: "stripANSIChunk [] ''ab'' = (out, tail)" by fastforce
  from stripped_chunk_is_text[OF s] s show ?thesis by auto
qed

theorem chunking_is_invariant_witness:
  "\<exists>out tail. strip_chunks [] ex_reads = (out, tail) \<and> out @ stripANSICore tail = ''Do y'' @ [LF]"
proof -
  have "concat ex_reads = render ex_stream" by (simp add: ex_reads_def ex_stream_def)
  from chunking_is_invariant[OF ex_stream_ok this] ex_stream_text show ?thesis by simp
qed

theorem long_title_leaks_witness:
  "strip_chunks [] [ESC # CHR '']'' # replicate 128 CHR ''a'', ''bc'' @ BEL # ''text''] = (''bc'' @ ''text'', [])"
  using long_title_leaks[of "replicate 128 CHR ''a''" "''bc''" "''text''"]
  by (simp add: visible_def ansiCarryLimit_def list_all_iff)

end
