(* ===== verification/GoJson.thy ===== *)
theory GoJson
  imports GoStrings "HOL-Library.List_Lexorder"
begin

section \<open>JSON as encoding/json reads and writes it\<close>

text \<open>
  The part of \<open>encoding/json\<close> the daemon uses. A parsed document is a tree whose array
  elements and object members also carry the text they were read from, since a
  \<open>json.RawMessage\<close> field keeps that text. Numbers keep their literal. Decoding into a
  struct is a fold over the members of the object: a member is matched with a field by its
  name, exactly or up to the simple case folding of the package; a value of the wrong type
  leaves the field unchanged and makes the call report an error at the end; \<open>null\<close> leaves
  a plain field unchanged. What \<open>strconv\<close> makes of a number that is not a small integer is
  an argument where the code reads a number into an interface value and prints it again.
\<close>

abbreviation DQ :: char where "DQ \<equiv> CHR 0x22"
abbreviation BS :: char where "BS \<equiv> CHR 0x5C"

datatype json =
    JNull
  | JBool bool
  | JNum gostring
  | JStr gostring
  | JArr "(gostring \<times> json) list"
  | JObj "(gostring \<times> gostring \<times> json) list"

subsection \<open>Lexical structure\<close>

definition json_space :: "char \<Rightarrow> bool" where
  "json_space c \<longleftrightarrow> c = CHR '' '' \<or> c = CHR 0x09 \<or> c = CHR 0x0A \<or> c = CHR 0x0D"

definition skip_ws :: "gostring \<Rightarrow> gostring" where "skip_ws s = dropWhile json_space s"

definition is_digit :: "char \<Rightarrow> bool" where
  "is_digit c \<longleftrightarrow> (let b = of_char c :: nat in 48 \<le> b \<and> b \<le> 57)"

definition hex_val :: "char \<Rightarrow> nat option" where
  "hex_val c =
     (let b = of_char c :: nat in
      if 48 \<le> b \<and> b \<le> 57 then Some (b - 48)
      else if 97 \<le> b \<and> b \<le> 102 then Some (b - 87)
      else if 65 \<le> b \<and> b \<le> 70 then Some (b - 55)
      else None)"

text \<open>Four hexadecimal digits at the start of a string.\<close>

fun hex4 :: "gostring \<Rightarrow> nat option" where
  "hex4 (a # b # c # d # s) =
     (case (hex_val a, hex_val b, hex_val c, hex_val d) of
        (Some w, Some x, Some y, Some z) \<Rightarrow> Some (w * 4096 + x * 256 + y * 16 + z)
      | _ \<Rightarrow> None)"
| "hex4 _ = None"

definition simple_escape :: "char \<Rightarrow> char option" where
  "simple_escape e =
     (if e = DQ \<or> e = BS \<or> e = CHR ''/'' then Some e
      else if e = CHR ''b'' then Some (CHR 0x08)
      else if e = CHR ''f'' then Some (CHR 0x0C)
      else if e = CHR ''n'' then Some (CHR 0x0A)
      else if e = CHR ''r'' then Some (CHR 0x0D)
      else if e = CHR ''t'' then Some (CHR 0x09)
      else None)"

text \<open>The body of a string literal up to its closing quote, checked, and what follows.\<close>

fun scan_literal :: "gostring \<Rightarrow> (gostring \<times> gostring) option" where
  "scan_literal [] = None"
| "scan_literal (c # s) =
     (if c = DQ then Some ([], s)
      else if c = BS then
        (case s of
           [] \<Rightarrow> None
         | e # t \<Rightarrow>
             if e = CHR ''u'' then
               (if hex4 t = None then None
                else map_option (\<lambda>(l, r). (c # e # take 4 t @ l, r)) (scan_literal (drop 4 t)))
             else if simple_escape e = None then None
             else map_option (\<lambda>(l, r). (c # e # l, r)) (scan_literal t))
      else if (of_char c :: nat) < 32 then None
      else map_option (\<lambda>(l, r). (c # l, r)) (scan_literal s))"

text \<open>
  \<open>unquote\<close>: the string a literal stands for. A lone surrogate and an invalid byte become
  U+FFFD.
\<close>

definition surrogate :: "nat \<Rightarrow> bool" where "surrogate r \<longleftrightarrow> 0xD800 \<le> r \<and> r < 0xE000"

definition surrogate_pair :: "nat \<Rightarrow> nat \<Rightarrow> bool" where
  "surrogate_pair r1 r2 \<longleftrightarrow> 0xD800 \<le> r1 \<and> r1 < 0xDC00 \<and> 0xDC00 \<le> r2 \<and> r2 < 0xE000"

definition combine_surrogates :: "nat \<Rightarrow> nat \<Rightarrow> rune" where
  "combine_surrogates r1 r2 = (r1 - 0xD800) * 1024 + (r2 - 0xDC00) + 0x10000"

text \<open>\<open>getu4\<close>: the value of a \<open>\uXXXX\<close> escape at the start.\<close>

definition getu4 :: "gostring \<Rightarrow> nat option" where
  "getu4 s = (case s of b # u # t \<Rightarrow> if b = BS \<and> u = CHR ''u'' then hex4 t else None | _ \<Rightarrow> None)"

function unquote :: "gostring \<Rightarrow> gostring" where
  "unquote [] = []"
| "unquote (c # s) =
     (if c = BS then
        (case getu4 (c # s) of
           Some r \<Rightarrow>
             let rest = drop 5 s in
             if surrogate r then
               (case getu4 rest of
                  Some r2 \<Rightarrow>
                    if surrogate_pair r r2
                    then encode_rune (combine_surrogates r r2) @ unquote (drop 6 rest)
                    else encode_rune rune_error @ unquote rest
                | None \<Rightarrow> encode_rune rune_error @ unquote rest)
             else encode_rune r @ unquote rest
         | None \<Rightarrow>
             (case s of
                [] \<Rightarrow> []
              | e # t \<Rightarrow> (case simple_escape e of Some x \<Rightarrow> x # unquote t | None \<Rightarrow> [])))
      else if (of_char c :: nat) < 128 then c # unquote s
      else (case decode_rune (bytes_of (c # s)) of
              (r, w) \<Rightarrow> encode_rune r @ unquote (drop w (c # s))))"
  by pat_completeness auto
termination
  by (relation "measure length") (auto dest!: decode_bytes_pos[OF sym])

declare unquote.simps(2) [simp del]

text \<open>A number literal and what follows.\<close>

definition digits_of :: "gostring \<Rightarrow> (gostring \<times> gostring)" where
  "digits_of s = (takeWhile is_digit s, dropWhile is_digit s)"

definition lex_int :: "gostring \<Rightarrow> (gostring \<times> gostring) option" where
  "lex_int s =
     (case s of
        [] \<Rightarrow> None
      | c # t \<Rightarrow> if c = CHR ''0'' then Some ([c], t)
                 else if is_digit c then Some (digits_of s) else None)"

definition lex_frac :: "gostring \<Rightarrow> (gostring \<times> gostring) option" where
  "lex_frac s =
     (case s of
        [] \<Rightarrow> Some ([], [])
      | c # t \<Rightarrow> if c = CHR ''.'' then
                   (case digits_of t of (d, r) \<Rightarrow> if d = [] then None else Some (c # d, r))
                 else Some ([], s))"

definition lex_exp :: "gostring \<Rightarrow> (gostring \<times> gostring) option" where
  "lex_exp s =
     (case s of
        [] \<Rightarrow> Some ([], [])
      | c # t \<Rightarrow> if c = CHR ''e'' \<or> c = CHR ''E'' then
                   (let sgn = (if t \<noteq> [] \<and> (hd t = CHR ''+'' \<or> hd t = CHR ''-'') then [hd t] else []) in
                    case digits_of (drop (length sgn) t) of
                      (d, r) \<Rightarrow> if d = [] then None else Some (c # sgn @ d, r))
                 else Some ([], s))"

definition lex_number :: "gostring \<Rightarrow> (gostring \<times> gostring) option" where
  "lex_number s =
     (let sgn = (if s \<noteq> [] \<and> hd s = CHR ''-'' then ''-'' else []) in
      case lex_int (drop (length sgn) s) of None \<Rightarrow> None | Some (i, s1) \<Rightarrow>
      case lex_frac s1 of None \<Rightarrow> None | Some (f, s2) \<Rightarrow>
      case lex_exp s2 of None \<Rightarrow> None | Some (e, s3) \<Rightarrow> Some (sgn @ i @ f @ e, s3))"

subsection \<open>Parsing\<close>

text \<open>
  The recursion is bounded by a fuel; twice the length of the text is enough, since every
  call but the one from an array to its element reads a byte first.
\<close>

definition consumed :: "gostring \<Rightarrow> gostring \<Rightarrow> gostring" where
  "consumed s rest = take (length s - length rest) s"

definition keyword :: "gostring \<Rightarrow> json \<Rightarrow> gostring \<Rightarrow> (json \<times> gostring) option" where
  "keyword w v s = (if HasPrefix s w then Some (v, drop (length w) s) else None)"

fun parse_value :: "nat \<Rightarrow> gostring \<Rightarrow> (json \<times> gostring) option"
  and parse_elems :: "nat \<Rightarrow> gostring \<Rightarrow> ((gostring \<times> json) list \<times> gostring) option"
  and parse_members :: "nat \<Rightarrow> gostring \<Rightarrow> ((gostring \<times> gostring \<times> json) list \<times> gostring) option" where
  "parse_value 0 s = None"
| "parse_value (Suc n) s =
     (case s of
        [] \<Rightarrow> None
      | c # t \<Rightarrow>
          if c = CHR ''{'' then
            (let u = skip_ws t in
             if u \<noteq> [] \<and> hd u = CHR ''}'' then Some (JObj [], tl u)
             else map_option (\<lambda>(ms, r). (JObj ms, r)) (parse_members n u))
          else if c = CHR ''['' then
            (let u = skip_ws t in
             if u \<noteq> [] \<and> hd u = CHR '']'' then Some (JArr [], tl u)
             else map_option (\<lambda>(es, r). (JArr es, r)) (parse_elems n u))
          else if c = DQ then map_option (\<lambda>(l, r). (JStr (unquote l), r)) (scan_literal t)
          else if c = CHR ''t'' then keyword ''true'' (JBool True) s
          else if c = CHR ''f'' then keyword ''false'' (JBool False) s
          else if c = CHR ''n'' then keyword ''null'' JNull s
          else map_option (\<lambda>(l, r). (JNum l, r)) (lex_number s))"
| "parse_elems 0 s = None"
| "parse_elems (Suc n) s =
     (case parse_value n s of
        None \<Rightarrow> None
      | Some (v, r) \<Rightarrow>
          let u = skip_ws r in
          if u = [] then None
          else if hd u = CHR '']'' then Some ([(consumed s r, v)], tl u)
          else if hd u = CHR '','' then
            map_option (\<lambda>(es, r'). ((consumed s r, v) # es, r')) (parse_elems n (skip_ws (tl u)))
          else None)"
| "parse_members 0 s = None"
| "parse_members (Suc n) s =
     (if s = [] \<or> hd s \<noteq> DQ then None
      else case scan_literal (tl s) of
        None \<Rightarrow> None
      | Some (k, r0) \<Rightarrow>
          let u0 = skip_ws r0 in
          if u0 = [] \<or> hd u0 \<noteq> CHR '':'' then None
          else let s1 = skip_ws (tl u0) in
            (case parse_value n s1 of
               None \<Rightarrow> None
             | Some (v, r) \<Rightarrow>
                 let u = skip_ws r in
                 if u = [] then None
                 else if hd u = CHR ''}'' then Some ([(unquote k, consumed s1 r, v)], tl u)
                 else if hd u = CHR '','' then
                   map_option (\<lambda>(ms, r'). ((unquote k, consumed s1 r, v) # ms, r')) (parse_members n (skip_ws (tl u)))
                 else None))"

declare parse_value.simps(2) [simp del] parse_elems.simps(2) [simp del] parse_members.simps(2) [simp del]

text \<open>The scanner refuses documents nested deeper than this.\<close>

definition maxNestingDepth :: nat where "maxNestingDepth = 10000"

fun json_depth :: "json \<Rightarrow> nat" where
  "json_depth (JArr es) = 1 + foldr max (map (\<lambda>(raw, v). json_depth v) es) 0"
| "json_depth (JObj ms) = 1 + foldr max (map (\<lambda>(k, raw, v). json_depth v) ms) 0"
| "json_depth _ = 0"

definition parse_json :: "gostring \<Rightarrow> json option" where
  "parse_json text0 =
     (let s = skip_ws text0 in
      case parse_value (2 * length s + 2) s of
        None \<Rightarrow> None
      | Some (v, r) \<Rightarrow> if skip_ws r = [] \<and> json_depth v \<le> maxNestingDepth then Some v else None)"

text \<open>\<open>json.Valid\<close>.\<close>

definition json_valid :: "gostring \<Rightarrow> bool" where
  "json_valid s \<longleftrightarrow> parse_json s \<noteq> None"

subsection \<open>Decoding into Go values\<close>

text \<open>
  \<open>foldName\<close> maps every rune to the least rune of its simple-folding orbit. Field names
  are ASCII, so only the runes with an ASCII member in their orbit matter: the letters and
  the two signs U+017F (long s) and U+212A (Kelvin).
\<close>

definition fold_name_rune :: "rune \<Rightarrow> rune" where
  "fold_name_rune r =
     (if 97 \<le> r \<and> r \<le> 122 then r - 32 else if r = 0x17F then 83 else if r = 0x212A then 75 else r)"

definition fold_name :: "gostring \<Rightarrow> rune list" where
  "fold_name s = map fold_name_rune (runes s)"

text \<open>A decoder takes the text and the value and updates its target; \<open>True\<close> reports a type error.\<close>

type_synonym 'r decoder = "gostring \<Rightarrow> json \<Rightarrow> 'r \<Rightarrow> 'r \<times> bool"

definition str_field :: "(gostring \<Rightarrow> 'r \<Rightarrow> 'r) \<Rightarrow> 'r decoder" where
  "str_field upd raw v r = (case v of JStr s \<Rightarrow> (upd s r, False) | JNull \<Rightarrow> (r, False) | _ \<Rightarrow> (r, True))"

definition bool_field :: "(bool \<Rightarrow> 'r \<Rightarrow> 'r) \<Rightarrow> 'r decoder" where
  "bool_field upd raw v r = (case v of JBool b \<Rightarrow> (upd b r, False) | JNull \<Rightarrow> (r, False) | _ \<Rightarrow> (r, True))"

definition raw_field :: "(gostring \<Rightarrow> 'r \<Rightarrow> 'r) \<Rightarrow> 'r decoder" where
  "raw_field upd raw v r = (upd raw r, False)"

text \<open>A number into an \<open>int\<close>: an integer literal within 64 bits.\<close>

definition nat_of_digits :: "gostring \<Rightarrow> nat" where
  "nat_of_digits ds = foldl (\<lambda>n c. n * 10 + (of_char c - 48)) 0 ds"

definition int_literal :: "gostring \<Rightarrow> int option" where
  "int_literal lit =
     (let sgn = (lit \<noteq> [] \<and> hd lit = CHR ''-''); ds = (if sgn then tl lit else lit) in
      if ds = [] \<or> \<not> list_all is_digit ds then None
      else Some (if sgn then - int (nat_of_digits ds) else int (nat_of_digits ds)))"

definition int_field :: "(int \<Rightarrow> 'r \<Rightarrow> 'r) \<Rightarrow> 'r decoder" where
  "int_field upd raw v r =
     (case v of
        JNum lit \<Rightarrow>
          (case int_literal lit of
             Some i \<Rightarrow> if - (2 ^ 63) \<le> i \<and> i < 2 ^ 63 then (upd i r, False) else (r, True)
           | None \<Rightarrow> (r, True))
      | JNull \<Rightarrow> (r, False)
      | _ \<Rightarrow> (r, True))"

text \<open>The members of an object, matched with the fields of a struct.\<close>

definition find_field :: "(gostring \<times> 'r decoder) list \<Rightarrow> gostring \<Rightarrow> 'r decoder option" where
  "find_field fs k =
     (case map_of fs k of
        Some d \<Rightarrow> Some d
      | None \<Rightarrow> map_of (map (\<lambda>(f, d). (fold_name f, d)) fs) (fold_name k))"

fun dec_members :: "(gostring \<times> 'r decoder) list \<Rightarrow> (gostring \<times> gostring \<times> json) list \<Rightarrow> 'r \<Rightarrow> 'r \<times> bool" where
  "dec_members fs [] r = (r, False)"
| "dec_members fs ((k, raw, v) # ms) r =
     (case find_field fs k of
        None \<Rightarrow> dec_members fs ms r
      | Some d \<Rightarrow> (case d raw v r of (r1, e1) \<Rightarrow> case dec_members fs ms r1 of (r2, e2) \<Rightarrow> (r2, e1 \<or> e2)))"

definition dec_struct :: "(gostring \<times> 'r decoder) list \<Rightarrow> json \<Rightarrow> 'r \<Rightarrow> 'r \<times> bool" where
  "dec_struct fs v r = (case v of JObj ms \<Rightarrow> dec_members fs ms r | JNull \<Rightarrow> (r, False) | _ \<Rightarrow> (r, True))"

text \<open>A field that is a struct, and one that is a pointer to a struct.\<close>

definition struct_field :: "(gostring \<times> 'a decoder) list \<Rightarrow> ('r \<Rightarrow> 'a) \<Rightarrow> ('a \<Rightarrow> 'r \<Rightarrow> 'r) \<Rightarrow> 'r decoder" where
  "struct_field fs get upd raw v r = (case dec_struct fs v (get r) of (a, e) \<Rightarrow> (upd a r, e))"

definition ptr_field :: "(gostring \<times> 'a decoder) list \<Rightarrow> 'a \<Rightarrow> ('r \<Rightarrow> 'a option) \<Rightarrow> ('a option \<Rightarrow> 'r \<Rightarrow> 'r) \<Rightarrow> 'r decoder" where
  "ptr_field fs zero get upd raw v r =
     (case v of
        JNull \<Rightarrow> (upd None r, False)
      | _ \<Rightarrow> (case dec_struct fs v (case get r of Some a \<Rightarrow> a | None \<Rightarrow> zero) of (a, e) \<Rightarrow> (upd (Some a) r, e)))"

text \<open>\<open>json.Unmarshal\<close> into a struct: the value filled so far, and whether an error is returned.\<close>

definition unmarshal_struct :: "(gostring \<times> 'r decoder) list \<Rightarrow> 'r \<Rightarrow> gostring \<Rightarrow> 'r \<times> bool" where
  "unmarshal_struct fs zero raw =
     (case parse_json raw of None \<Rightarrow> (zero, True) | Some v \<Rightarrow> dec_struct fs v zero)"

text \<open>\<open>json.Unmarshal\<close> into a string.\<close>

definition unmarshal_string :: "gostring \<Rightarrow> gostring \<times> bool" where
  "unmarshal_string raw = (case parse_json raw of None \<Rightarrow> ([], True) | Some v \<Rightarrow> str_field (\<lambda>s _. s) raw v [])"

text \<open>\<open>json.Unmarshal\<close> into a nil slice of structs; \<open>None\<close> is an error.\<close>

definition unmarshal_slice :: "(gostring \<times> 'r decoder) list \<Rightarrow> 'r \<Rightarrow> gostring \<Rightarrow> 'r list option" where
  "unmarshal_slice fs zero raw =
     (case parse_json raw of
        Some JNull \<Rightarrow> Some []
      | Some (JArr es) \<Rightarrow>
          (let ds = map (\<lambda>(_, v). dec_struct fs v zero) es in
           if list_ex snd ds then None else Some (map fst ds))
      | _ \<Rightarrow> None)"

subsection \<open>Marshalling\<close>

datatype gval =
    GNull
  | GBool bool
  | GInt int
  | GNumText gostring
  | GStr gostring
  | GRaw gostring
  | GArr "gval list"
  | GObj "(gostring \<times> gval) list"

definition hex_digit :: "nat \<Rightarrow> char" where
  "hex_digit n = (if n < 10 then char_of (48 + n) else char_of (87 + n))"

definition u_escape :: "nat \<Rightarrow> gostring" where
  "u_escape b = BS # ''u00'' @ [hex_digit (b div 16), hex_digit (b mod 16)]"

definition escape_byte :: "char \<Rightarrow> gostring" where
  "escape_byte c =
     (let b = of_char c :: nat in
      if c = DQ \<or> c = BS then [BS, c]
      else if b = 8 then BS # ''b'' else if b = 12 then BS # ''f'' else if b = 10 then BS # ''n''
      else if b = 13 then BS # ''r'' else if b = 9 then BS # ''t''
      else if b < 32 \<or> c = CHR ''<'' \<or> c = CHR ''>'' \<or> c = CHR ''&'' then u_escape b
      else [c])"

definition escape_seg :: "rune \<times> gostring \<Rightarrow> gostring" where
  "escape_seg p =
     (case p of (r, bs) \<Rightarrow>
        if r < 128 then concat (map escape_byte bs)
        else if r = rune_error \<and> length bs = 1 then BS # ''ufffd''
        else if r = 0x2028 then BS # ''u2028''
        else if r = 0x2029 then BS # ''u2029''
        else bs)"

definition quote_json :: "gostring \<Rightarrow> gostring" where
  "quote_json s = DQ # concat (map escape_seg (rune_segs s)) @ [DQ]"

text \<open>
  \<open>compact\<close> of a raw message inside a marshalled value: white space outside strings goes,
  and the characters that are special in HTML or JavaScript are escaped.
\<close>

fun compact_raw :: "bool \<Rightarrow> gostring \<Rightarrow> gostring" where
  "compact_raw q [] = []"
| "compact_raw q (c # s) =
     (if c = CHR ''<'' \<or> c = CHR ''>'' \<or> c = CHR ''&'' then u_escape (of_char c) @ compact_raw q s
      else if HasPrefix (c # s) [CHR 0xE2, CHR 0x80, CHR 0xA8] then BS # ''u2028'' @ compact_raw q (drop 2 s)
      else if HasPrefix (c # s) [CHR 0xE2, CHR 0x80, CHR 0xA9] then BS # ''u2029'' @ compact_raw q (drop 2 s)
      else if q then
        (if c = DQ then c # compact_raw False s
         else if c = BS \<and> s \<noteq> [] then c # hd s # compact_raw q (tl s)
         else c # compact_raw q s)
      else if json_space c then compact_raw q s
      else c # compact_raw (c = DQ) s)"

fun marshal :: "gval \<Rightarrow> gostring" where
  "marshal GNull = ''null''"
| "marshal (GBool b) = (if b then ''true'' else ''false'')"
| "marshal (GInt i) = Itoa i"
| "marshal (GNumText t) = t"
| "marshal (GStr s) = quote_json s"
| "marshal (GRaw r) = (if r = [] then ''null'' else compact_raw False r)"
| "marshal (GArr vs) = ''['' @ Join (map marshal vs) '','' @ '']''"
| "marshal (GObj ms) = ''{'' @ Join (map (\<lambda>(k, v). quote_json k @ '':'' @ marshal v) ms) '','' @ ''}''"

text \<open>A Go map is printed with its keys in order.\<close>

definition go_map :: "(gostring \<times> gval) list \<Rightarrow> gval" where
  "go_map ms = GObj (sort_key fst ms)"

text \<open>A struct: the fields in order, without the empty ones that are marked \<open>omitempty\<close>.\<close>

definition omit_str :: "gostring \<Rightarrow> gostring \<Rightarrow> (gostring \<times> gval) list" where
  "omit_str k s = (if s = [] then [] else [(k, GStr s)])"

definition omit_raw :: "gostring \<Rightarrow> gostring \<Rightarrow> (gostring \<times> gval) list" where
  "omit_raw k s = (if s = [] then [] else [(k, GRaw s)])"

definition omit_bool :: "gostring \<Rightarrow> bool \<Rightarrow> (gostring \<times> gval) list" where
  "omit_bool k b = (if b then [(k, GBool True)] else [])"

text \<open>
  A value read into an interface and printed again: objects become maps (the last of two
  equal keys wins), and numbers pass through \<open>float64\<close>. \<open>num\<close> is what \<open>strconv\<close> makes of a
  literal that is not an integer of at most fifteen digits, \<open>None\<close> when it is out of range;
  such an integer prints as it is. Reading a number out of range is an error, but the rest of
  the document is read nevertheless and the number stays \<open>nil\<close>.
\<close>

definition small_int_literal :: "gostring \<Rightarrow> bool" where
  "small_int_literal lit \<longleftrightarrow> lit \<noteq> [] \<and> list_all is_digit (if hd lit = CHR ''-'' then tl lit else lit) \<and> length lit \<le> 15"

definition number_value :: "(gostring \<Rightarrow> gostring option) \<Rightarrow> gostring \<Rightarrow> gostring option" where
  "number_value num lit = (if small_int_literal lit then Some lit else num lit)"

fun any_value :: "(gostring \<Rightarrow> gostring option) \<Rightarrow> json \<Rightarrow> gval" where
  "any_value num JNull = GNull"
| "any_value num (JBool b) = GBool b"
| "any_value num (JNum lit) = (case number_value num lit of Some t \<Rightarrow> GNumText t | None \<Rightarrow> GNull)"
| "any_value num (JStr s) = GStr s"
| "any_value num (JArr es) = GArr (map (\<lambda>(raw, v). any_value num v) es)"
| "any_value num (JObj ms) =
     go_map (fold (\<lambda>(k, v) m. alist_put k v m) (map (\<lambda>(k, raw, v). (k, any_value num v)) ms) [])"

text \<open>A document holds a number that does not fit into a \<open>float64\<close>.\<close>

fun number_error :: "(gostring \<Rightarrow> gostring option) \<Rightarrow> json \<Rightarrow> bool" where
  "number_error num (JNum lit) = (number_value num lit = None)"
| "number_error num (JArr es) = list_ex (\<lambda>(raw, v). number_error num v) es"
| "number_error num (JObj ms) = list_ex (\<lambda>(k, raw, v). number_error num v) ms"
| "number_error num _ = False"

end
