(* ===== verification/ClaudeRecords.thy ===== *)
theory ClaudeRecords
  imports GoJson Terminal
begin

section \<open>Claude session files\<close>

text \<open>
  \<open>daemon/internal/agent/claude/reader.go\<close>: the project store on disk, the records of a
  session file and what they tell about the model in use. The store is an argument: the
  entries of a directory in the order \<open>os.ReadDir\<close> gives them (by name), a file with its
  content, or \<open>None\<close> where it cannot be read.
\<close>

subsection \<open>Lines\<close>

text \<open>
  \<open>bufio.Scanner\<close> with \<open>ScanLines\<close> and a buffer of sixteen megabytes: the lines without their
  ends, and whether the scan stopped at a line that does not fit.
\<close>

definition maxLine :: nat where "maxLine = 16 * 1024 * 1024"

definition drop_cr :: "gostring \<Rightarrow> gostring" where
  "drop_cr l = (if l \<noteq> [] \<and> last l = CHR 0x0D then butlast l else l)"

definition raw_lines :: "gostring \<Rightarrow> gostring list" where
  "raw_lines content =
     (let ls = split_byte (CHR 0x0A) content in if last ls = [] then butlast ls else ls)"

definition scan_lines :: "gostring \<Rightarrow> gostring list \<times> bool" where
  "scan_lines content =
     (let ls = raw_lines content; ok = takeWhile (\<lambda>l. length l < maxLine) ls
      in (map drop_cr ok, length ok < length ls))"

definition isASCIISpace :: "char \<Rightarrow> bool" where
  "isASCIISpace c \<longleftrightarrow> c = CHR '' '' \<or> c = CHR 0x09 \<or> c = CHR 0x0D \<or> c = CHR 0x0A"

definition trimASCIISpace :: "gostring \<Rightarrow> gostring" where
  "trimASCIISpace b = rev (dropWhile isASCIISpace (rev (dropWhile isASCIISpace b)))"

subsection \<open>Records\<close>

record Record =
  rec_Type :: gostring
  rec_UUID :: gostring
  rec_ParentUUID :: gostring
  rec_SessionID :: gostring
  rec_Cwd :: gostring
  rec_Timestamp :: gostring
  rec_IsSidechain :: bool
  rec_Message :: gostring
  rec_Subtype :: gostring
  rec_Content :: gostring
  rec_Attachment :: gostring
  rec_ToolUseResult :: gostring
  rec_Raw :: gostring

definition empty_record :: Record where
  "empty_record =
     \<lparr>rec_Type = [], rec_UUID = [], rec_ParentUUID = [], rec_SessionID = [], rec_Cwd = [], rec_Timestamp = [],
      rec_IsSidechain = False, rec_Message = [], rec_Subtype = [], rec_Content = [], rec_Attachment = [],
      rec_ToolUseResult = [], rec_Raw = []\<rparr>"

definition record_fields :: "(gostring \<times> Record decoder) list" where
  "record_fields =
     [(''type'', str_field (\<lambda>s. rec_Type_update (\<lambda>_. s))),
      (''uuid'', str_field (\<lambda>s. rec_UUID_update (\<lambda>_. s))),
      (''parentUuid'', str_field (\<lambda>s. rec_ParentUUID_update (\<lambda>_. s))),
      (''sessionId'', str_field (\<lambda>s. rec_SessionID_update (\<lambda>_. s))),
      (''cwd'', str_field (\<lambda>s. rec_Cwd_update (\<lambda>_. s))),
      (''timestamp'', str_field (\<lambda>s. rec_Timestamp_update (\<lambda>_. s))),
      (''isSidechain'', bool_field (\<lambda>b. rec_IsSidechain_update (\<lambda>_. b))),
      (''message'', raw_field (\<lambda>s. rec_Message_update (\<lambda>_. s))),
      (''subtype'', str_field (\<lambda>s. rec_Subtype_update (\<lambda>_. s))),
      (''content'', raw_field (\<lambda>s. rec_Content_update (\<lambda>_. s))),
      (''attachment'', raw_field (\<lambda>s. rec_Attachment_update (\<lambda>_. s))),
      (''toolUseResult'', raw_field (\<lambda>s. rec_ToolUseResult_update (\<lambda>_. s)))]"

definition parse_record :: "gostring \<Rightarrow> Record option" where
  "parse_record line =
     (case unmarshal_struct record_fields empty_record line of
        (r, err) \<Rightarrow> if err then None else Some (r\<lparr>rec_Raw := line\<rparr>))"

text \<open>
  What \<open>ParseRecords\<close> yields: a record, or \<open>None\<close> for an error (a line that does not decode,
  a file that cannot be opened, a line that is too long).
\<close>

definition ParseRecords :: "gostring option \<Rightarrow> Record option list" where
  "ParseRecords file =
     (case file of
        None \<Rightarrow> [None]
      | Some content \<Rightarrow>
          (case scan_lines content of
             (lines, too_long) \<Rightarrow>
               map parse_record (filter (\<lambda>l. l \<noteq> []) (map trimASCIISpace lines)) @
               (if too_long then [None] else [])))"

definition good_records :: "Record option list \<Rightarrow> Record list" where
  "good_records rs = List.map_filter (\<lambda>r. r) rs"

subsection \<open>The project store\<close>

record dir_entry =
  de_Name :: gostring
  de_IsDir :: bool
  de_File :: "gostring option"

record SessionFile =
  sf_ID :: gostring
  sf_File :: "gostring option"

record ClaudeProject =
  cp_Cwd :: gostring
  cp_DirName :: gostring
  cp_Sessions :: "SessionFile list"

definition cwdFromDirName :: "gostring \<Rightarrow> gostring" where
  "cwdFromDirName dirName = ''/'' @ replace_byte (CHR ''-'') ''/'' (TrimPrefix dirName ''-'')"

definition listSessionFiles :: "dir_entry list \<Rightarrow> SessionFile list" where
  "listSessionFiles entries =
     sort_key sf_ID
       (map (\<lambda>e. \<lparr>sf_ID = TrimSuffix (de_Name e) ''.jsonl'', sf_File = de_File e\<rparr>)
         (filter (\<lambda>e. \<not> de_IsDir e \<and> HasSuffix (de_Name e) ''.jsonl'') entries))"

fun first_cwd :: "Record list \<Rightarrow> gostring option" where
  "first_cwd [] = None"
| "first_cwd (r # rs) = (if TrimSpace (rec_Cwd r) \<noteq> [] then Some (rec_Cwd r) else first_cwd rs)"

fun inferProjectCwd :: "SessionFile list \<Rightarrow> gostring \<Rightarrow> gostring" where
  "inferProjectCwd [] fallback = fallback"
| "inferProjectCwd (s # ss) fallback =
     (case first_cwd (good_records (ParseRecords (sf_File s))) of
        Some cwd \<Rightarrow> cwd
      | None \<Rightarrow> inferProjectCwd ss fallback)"

text \<open>
  The store is \<open>None\<close> when the home directory does not exist (a directory that cannot be read
  for another reason is an error of the call, outside the model); a project directory
  comes with its entries, \<open>None\<close> when it cannot be read.
\<close>

type_synonym project_store = "(gostring \<times> bool \<times> dir_entry list option) list option"

definition project_of :: "gostring \<times> bool \<times> dir_entry list option \<Rightarrow> ClaudeProject option" where
  "project_of p =
     (case p of (name, isDir, entries) \<Rightarrow>
        if \<not> isDir \<or> HasPrefix name ''.'' then None
        else case entries of
          None \<Rightarrow> None
        | Some es \<Rightarrow>
            let sessions = listSessionFiles es in
            if sessions = [] then None
            else Some \<lparr>cp_Cwd = inferProjectCwd sessions (cwdFromDirName name), cp_DirName = name, cp_Sessions = sessions\<rparr>)"

definition ListProjects :: "project_store \<Rightarrow> ClaudeProject list" where
  "ListProjects store =
     (case store of None \<Rightarrow> [] | Some dirs \<Rightarrow> sort_key cp_DirName (List.map_filter project_of dirs))"

definition FindSession :: "project_store \<Rightarrow> gostring \<Rightarrow> SessionFile option" where
  "FindSession store sessionID =
     find (\<lambda>s. sf_ID s = sessionID) (concat (map cp_Sessions (ListProjects store)))"

subsection \<open>Removing the matches of an escape expression\<close>

text \<open>
  The expressions \<open>ESC [ p* i* f\<close> of the package, for classes of parameter, intermediate
  and final bytes that are disjoint, so that the greedy match is the only one.
\<close>

definition match_esc_re :: "(char \<Rightarrow> bool) \<Rightarrow> (char \<Rightarrow> bool) \<Rightarrow> (char \<Rightarrow> bool) \<Rightarrow> gostring \<Rightarrow> nat option" where
  "match_esc_re p i f s =
     (if HasPrefix s [ESC, CHR ''['']
      then let a = 2 + span_len p (drop 2 s); b = a + span_len i (drop a s)
           in case drop b s of c # _ \<Rightarrow> if f c then Some (b + 1) else None | [] \<Rightarrow> None
      else None)"

lemma match_esc_re_pos: "match_esc_re p i f s = Some n \<Longrightarrow> 0 < n"
  by (auto simp: match_esc_re_def Let_def split: if_splits list.splits)

function strip_esc_re :: "(char \<Rightarrow> bool) \<Rightarrow> (char \<Rightarrow> bool) \<Rightarrow> (char \<Rightarrow> bool) \<Rightarrow> gostring \<Rightarrow> gostring" where
  "strip_esc_re p i f [] = []"
| "strip_esc_re p i f (c # s) =
     (case match_esc_re p i f (c # s) of
        Some n \<Rightarrow> strip_esc_re p i f (drop n (c # s))
      | None \<Rightarrow> c # strip_esc_re p i f s)"
  by pat_completeness auto
termination
  by (relation "measure (\<lambda>(_, _, _, s). length s)") (auto dest: match_esc_re_pos)

declare strip_esc_re.simps(2) [simp del]

definition ansi_escape_strip :: "gostring \<Rightarrow> gostring" where
  "ansi_escape_strip =
     strip_esc_re (\<lambda>c. is_digit c \<or> c = CHR '';'') (\<lambda>_. False) (\<lambda>c. in_range 65 90 c \<or> in_range 97 122 c)"

subsection \<open>The model in use\<close>

definition str_member :: "gostring \<Rightarrow> gostring \<Rightarrow> gostring option" where
  "str_member name raw =
     (case unmarshal_struct [(name, str_field (\<lambda>s _. s))] [] raw of (s, err) \<Rightarrow> if err then None else Some s)"

text \<open>
  \<open>modelCommandTargetFromMessage\<close>. The first replacement of the code maps the escape
  character to itself (its pattern is the Go escape \<open>"\u001b"\<close>), so it is not there. The
  content is read into an interface value: only a string counts.
\<close>

definition content_any :: "gostring \<Rightarrow> json" where
  "content_any raw = (case unmarshal_struct [(''content'', \<lambda>_ v _. (v, False))] JNull raw of (v, err) \<Rightarrow> if err then JNull else v)"

definition set_model_mark :: gostring where "set_model_mark = ''Set model to''"

fun cut_suffixes :: "gostring list \<Rightarrow> gostring \<Rightarrow> gostring" where
  "cut_suffixes [] rest = rest"
| "cut_suffixes (x # xs) rest = (case cut_at x rest of Some (a, _) \<Rightarrow> a | None \<Rightarrow> cut_suffixes xs rest)"

definition modelCommandTargetFromMessage :: "gostring \<Rightarrow> gostring" where
  "modelCommandTargetFromMessage raw =
     (case content_any raw of
        JStr content \<Rightarrow>
          if \<not> Contains content set_model_mark then []
          else (case cut_at set_model_mark (ansi_escape_strip content) of
                  None \<Rightarrow> []
                | Some (_, after) \<Rightarrow>
                    let rest = cut_suffixes ['' for this session'', '' and saved as your default for new sessions''] (TrimSpace after)
                    in TrimSpace (TrimSuffix (TrimPrefix rest ''<local-command-stdout>'') ''</local-command-stdout>''))
      | _ \<Rightarrow> [])"

definition LatestModel :: "gostring option \<Rightarrow> gostring" where
  "LatestModel file =
     fold (\<lambda>r latest.
         if rec_Type r \<noteq> ''assistant'' \<or> rec_Message r = [] then latest
         else case str_member ''model'' (rec_Message r) of
           Some m \<Rightarrow> if m \<noteq> [] then m else latest
         | None \<Rightarrow> latest)
       (good_records (ParseRecords file)) []"

definition current_model_step :: "Record \<Rightarrow> gostring \<Rightarrow> gostring" where
  "current_model_step r latest =
     (if rec_Message r = [] then latest
      else if rec_Type r = ''assistant'' then
        (case str_member ''model'' (rec_Message r) of
           Some m \<Rightarrow> if TrimSpace m \<noteq> [] then TrimSpace m else latest
         | None \<Rightarrow> latest)
      else if rec_Type r = ''user'' then
        (let target = modelCommandTargetFromMessage (rec_Message r) in if target \<noteq> [] then target else latest)
      else latest)"

definition LatestCurrentModel :: "gostring option \<Rightarrow> gostring" where
  "LatestCurrentModel file = fold current_model_step (good_records (ParseRecords file)) []"

record ModelCommandObservation =
  mco_Count :: nat
  mco_LatestTarget :: gostring

definition command_targets :: "gostring option \<Rightarrow> gostring list" where
  "command_targets file =
     map (\<lambda>r. modelCommandTargetFromMessage (rec_Message r))
       (filter (\<lambda>r. rec_Type r = ''user'' \<and> rec_Message r \<noteq> []) (good_records (ParseRecords file)))"

definition LatestModelCommandTarget :: "gostring option \<Rightarrow> ModelCommandObservation" where
  "LatestModelCommandTarget file =
     fold (\<lambda>t obs. if t = [] then obs else \<lparr>mco_Count = mco_Count obs + 1, mco_LatestTarget = t\<rparr>)
       (command_targets file) \<lparr>mco_Count = 0, mco_LatestTarget = []\<rparr>"

definition CountModelCommandTarget :: "gostring option \<Rightarrow> gostring \<Rightarrow> nat" where
  "CountModelCommandTarget file target0 =
     (let target = TrimSpace target0 in
      if target = [] then 0 else length (filter (\<lambda>t. t = target) (command_targets file)))"

end
