(* ===== verification/ClaudeBlocks.thy ===== *)
theory ClaudeBlocks
  imports ClaudeRecords
begin

section \<open>Blocks of a Claude session\<close>

text \<open>
  \<open>daemon/internal/agent/claude/blocks.go\<close> and the block type of
  \<open>daemon/internal/agent/agent.go\<close>: the records of a session file become the flat list of
  blocks that the browser shows. \<open>num\<close> is what reading a number literal into an interface
  value and printing it again makes of a literal that is not a small integer.
\<close>

datatype BlockKind =
  BlockUserMessage | BlockAssistantText | BlockToolCall | BlockToolResult | BlockThinking
  | BlockAttachment | BlockMeta | BlockImage

record Block =
  bl_Kind :: BlockKind
  bl_Timestamp :: gostring
  bl_UUID :: gostring
  bl_Text :: gostring
  bl_AttachmentType :: gostring
  bl_MetaType :: gostring
  bl_Tool :: gostring
  bl_ID :: gostring
  bl_Input :: gostring
  bl_Result :: gostring
  bl_IsError :: bool
  bl_HasResult :: bool
  bl_ParentToolUseID :: gostring
  bl_IsSidechain :: bool
  bl_InputTokens :: int
  bl_OutputTokens :: int
  bl_CacheCreationTokens :: int
  bl_CacheReadTokens :: int
  bl_ImageMediaType :: gostring
  bl_ImageData :: gostring
  bl_ImageURL :: gostring
  bl_EditFilePath :: gostring
  bl_EditPatch :: gostring
  bl_EditUserModified :: bool

definition blank_block :: "BlockKind \<Rightarrow> gostring \<Rightarrow> gostring \<Rightarrow> Block" where
  "blank_block k ts uuid =
     \<lparr>bl_Kind = k, bl_Timestamp = ts, bl_UUID = uuid, bl_Text = [], bl_AttachmentType = [], bl_MetaType = [],
      bl_Tool = [], bl_ID = [], bl_Input = [], bl_Result = [], bl_IsError = False, bl_HasResult = False,
      bl_ParentToolUseID = [], bl_IsSidechain = False, bl_InputTokens = 0, bl_OutputTokens = 0,
      bl_CacheCreationTokens = 0, bl_CacheReadTokens = 0, bl_ImageMediaType = [], bl_ImageData = [],
      bl_ImageURL = [], bl_EditFilePath = [], bl_EditPatch = [], bl_EditUserModified = False\<rparr>"

record SessionBlocks =
  sb_SessionID :: gostring
  sb_Cwd :: gostring
  sb_Agent :: gostring
  sb_Blocks :: "Block list"

subsection \<open>Decoded shapes\<close>

record usageEnvelope =
  us_Input :: int
  us_Output :: int
  us_CacheCreation :: int
  us_CacheRead :: int

definition usage_fields :: "(gostring \<times> usageEnvelope decoder) list" where
  "usage_fields =
     [(''input_tokens'', int_field (\<lambda>i. us_Input_update (\<lambda>_. i))),
      (''output_tokens'', int_field (\<lambda>i. us_Output_update (\<lambda>_. i))),
      (''cache_creation_input_tokens'', int_field (\<lambda>i. us_CacheCreation_update (\<lambda>_. i))),
      (''cache_read_input_tokens'', int_field (\<lambda>i. us_CacheRead_update (\<lambda>_. i)))]"

definition empty_usage :: usageEnvelope where
  "empty_usage = \<lparr>us_Input = 0, us_Output = 0, us_CacheCreation = 0, us_CacheRead = 0\<rparr>"

record messageEnvelope =
  me_Role :: gostring
  me_Content :: gostring
  me_Usage :: "usageEnvelope option"

definition message_fields :: "(gostring \<times> messageEnvelope decoder) list" where
  "message_fields =
     [(''role'', str_field (\<lambda>s. me_Role_update (\<lambda>_. s))),
      (''content'', raw_field (\<lambda>s. me_Content_update (\<lambda>_. s))),
      (''usage'', ptr_field usage_fields empty_usage me_Usage (\<lambda>u. me_Usage_update (\<lambda>_. u)))]"

definition empty_message :: messageEnvelope where
  "empty_message = \<lparr>me_Role = [], me_Content = [], me_Usage = None\<rparr>"

record imageSource =
  is_Type :: gostring
  is_MediaType :: gostring
  is_Data :: gostring
  is_URL :: gostring

definition source_fields :: "(gostring \<times> imageSource decoder) list" where
  "source_fields =
     [(''type'', str_field (\<lambda>s. is_Type_update (\<lambda>_. s))),
      (''media_type'', str_field (\<lambda>s. is_MediaType_update (\<lambda>_. s))),
      (''data'', str_field (\<lambda>s. is_Data_update (\<lambda>_. s))),
      (''url'', str_field (\<lambda>s. is_URL_update (\<lambda>_. s)))]"

record contentBlock =
  cb_Type :: gostring
  cb_Text :: gostring
  cb_Thinking :: gostring
  cb_ID :: gostring
  cb_Name :: gostring
  cb_Input :: gostring
  cb_ToolUseID :: gostring
  cb_Content :: gostring
  cb_IsError :: bool
  cb_Source :: "imageSource option"

definition content_fields :: "(gostring \<times> contentBlock decoder) list" where
  "content_fields =
     [(''type'', str_field (\<lambda>s. cb_Type_update (\<lambda>_. s))),
      (''text'', str_field (\<lambda>s. cb_Text_update (\<lambda>_. s))),
      (''thinking'', str_field (\<lambda>s. cb_Thinking_update (\<lambda>_. s))),
      (''id'', str_field (\<lambda>s. cb_ID_update (\<lambda>_. s))),
      (''name'', str_field (\<lambda>s. cb_Name_update (\<lambda>_. s))),
      (''input'', raw_field (\<lambda>s. cb_Input_update (\<lambda>_. s))),
      (''tool_use_id'', str_field (\<lambda>s. cb_ToolUseID_update (\<lambda>_. s))),
      (''content'', raw_field (\<lambda>s. cb_Content_update (\<lambda>_. s))),
      (''is_error'', bool_field (\<lambda>b. cb_IsError_update (\<lambda>_. b))),
      (''source'', ptr_field source_fields \<lparr>is_Type = [], is_MediaType = [], is_Data = [], is_URL = []\<rparr> cb_Source
                    (\<lambda>x. cb_Source_update (\<lambda>_. x)))]"

definition empty_content :: contentBlock where
  "empty_content =
     \<lparr>cb_Type = [], cb_Text = [], cb_Thinking = [], cb_ID = [], cb_Name = [], cb_Input = [], cb_ToolUseID = [],
      cb_Content = [], cb_IsError = False, cb_Source = None\<rparr>"

text \<open>\<open>json.Marshal\<close> of a content block.\<close>

definition content_value :: "contentBlock \<Rightarrow> gval" where
  "content_value p =
     GObj ([(''type'', GStr (cb_Type p))] @ omit_str ''text'' (cb_Text p) @ omit_str ''thinking'' (cb_Thinking p) @
       omit_str ''id'' (cb_ID p) @ omit_str ''name'' (cb_Name p) @ omit_raw ''input'' (cb_Input p) @
       omit_str ''tool_use_id'' (cb_ToolUseID p) @ omit_raw ''content'' (cb_Content p) @
       omit_bool ''is_error'' (cb_IsError p) @
       (case cb_Source p of
          None \<Rightarrow> []
        | Some s \<Rightarrow> [(''source'', GObj ([(''type'', GStr (is_Type s))] @ omit_str ''media_type'' (is_MediaType s) @
                        omit_str ''data'' (is_Data s) @ omit_str ''url'' (is_URL s)))]))"

subsection \<open>Shape tests and text helpers\<close>

fun first_non_space :: "gostring \<Rightarrow> char option" where
  "first_non_space [] = None"
| "first_non_space (c # s) = (if json_space c then first_non_space s else Some c)"

definition isJSONString :: "gostring \<Rightarrow> bool" where
  "isJSONString b \<longleftrightarrow> first_non_space b = Some DQ"

definition isJSONArray :: "gostring \<Rightarrow> bool" where
  "isJSONArray b \<longleftrightarrow> first_non_space b = Some (CHR ''['')"

definition defaultIfEmpty :: "gostring \<Rightarrow> gostring \<Rightarrow> gostring" where
  "defaultIfEmpty s fallback = (if s = [] then fallback else s)"

definition stripTerminalEscapes :: "gostring \<Rightarrow> gostring" where
  "stripTerminalEscapes s =
     (if ESC \<notin> set s then s
      else strip_esc_re (\<lambda>c. is_digit c \<or> c = CHR '';'' \<or> c = CHR '':'' \<or> c = CHR ''?'') (in_range 32 47) (in_range 64 126) s)"

definition reminder_open :: gostring where "reminder_open = ''<system-reminder>''"
definition reminder_close :: gostring where "reminder_close = ''</system-reminder>''"

text \<open>
  The expression of \<open>stripSystemReminders\<close> is lazy: a match starts at the first opening tag
  and ends at the first closing tag after it, with the newline that follows. Without a
  closing tag after the first opening tag there is none after a later one.
\<close>

lemma cut_at_length: "cut_at sep s = Some (a, b) \<Longrightarrow> length a + length sep + length b = length s"
  by (drule cut_at_Some) simp

lemma reminder_shorter:
  assumes "cut_at reminder_open s = Some (a, rest)" "cut_at reminder_close rest = Some (x, b)"
  shows "length (TrimPrefix b p) < length s"
  using cut_at_length[OF assms(1)] cut_at_length[OF assms(2)] by (simp add: reminder_open_def TrimPrefix_def) linarith

function stripSystemReminders :: "gostring \<Rightarrow> gostring" where
  "stripSystemReminders s =
     (case cut_at reminder_open s of
        None \<Rightarrow> s
      | Some (a, rest) \<Rightarrow>
          (case cut_at reminder_close rest of
             None \<Rightarrow> s
           | Some (_, b) \<Rightarrow> a @ stripSystemReminders (TrimPrefix b [CHR 0x0A])))"
  by pat_completeness auto
termination
  by (relation "measure length") (auto dest: reminder_shorter)

declare stripSystemReminders.simps [simp del]

definition indent_of :: "nat \<Rightarrow> gostring" where "indent_of d = CHR 0x0A # replicate (2 * d) (CHR '' '')"

text \<open>\<open>json.MarshalIndent\<close> with an indent of two spaces, for values without raw messages.\<close>

fun marshal_indent :: "nat \<Rightarrow> gval \<Rightarrow> gostring" where
  "marshal_indent d (GArr vs) =
     (if vs = [] then ''[]''
      else ''['' @ indent_of (d + 1) @ Join (map (marshal_indent (d + 1)) vs) ('','' @ indent_of (d + 1)) @ indent_of d @ '']'')"
| "marshal_indent d (GObj ms) =
     (if ms = [] then ''{}''
      else ''{'' @ indent_of (d + 1) @
        Join (map (\<lambda>(k, v). quote_json k @ '': '' @ marshal_indent (d + 1) v) ms) ('','' @ indent_of (d + 1)) @ indent_of d @ ''}'')"
| "marshal_indent d v = marshal v"

definition prettyJSON :: "(gostring \<Rightarrow> gostring option) \<Rightarrow> gostring \<Rightarrow> gostring" where
  "prettyJSON num raw =
     (if raw = [] then []
      else case parse_json raw of
        None \<Rightarrow> raw
      | Some v \<Rightarrow> if number_error num v then raw else marshal_indent 0 (any_value num v))"

text \<open>\<open>json.Unmarshal\<close> into a map: the members, or \<open>None\<close> when the text is not an object.\<close>

definition object_members :: "gostring \<Rightarrow> (gostring \<times> gostring \<times> json) list option" where
  "object_members raw =
     (case parse_json raw of Some (JObj ms) \<Rightarrow> Some ms | Some JNull \<Rightarrow> Some [] | _ \<Rightarrow> None)"

definition member :: "gostring \<Rightarrow> (gostring \<times> gostring \<times> json) list \<Rightarrow> (gostring \<times> json) option" where
  "member k ms = map_of (rev ms) k"

definition extractStringField :: "(gostring \<Rightarrow> gostring option) \<Rightarrow> gostring \<Rightarrow> gostring \<Rightarrow> gostring" where
  "extractStringField num raw field =
     (if raw = [] then []
      else case object_members raw of
        None \<Rightarrow> prettyJSON num raw
      | Some ms \<Rightarrow>
          if list_ex (\<lambda>(k, r, v). number_error num v) ms then prettyJSON num raw
          else (case member field ms of Some (_, JStr value) \<Rightarrow> value | _ \<Rightarrow> prettyJSON num raw))"

definition extractNestedPrettyJSON :: "(gostring \<Rightarrow> gostring option) \<Rightarrow> gostring \<Rightarrow> gostring \<Rightarrow> gostring" where
  "extractNestedPrettyJSON num raw field =
     (if raw = [] then []
      else case object_members raw of
        None \<Rightarrow> prettyJSON num raw
      | Some ms \<Rightarrow> (case member field ms of Some (nested, _) \<Rightarrow> prettyJSON num nested | None \<Rightarrow> prettyJSON num raw))"

record queue_payload =
  qp_Operation :: gostring
  qp_Content :: gostring

definition formatQueueOperation :: "(gostring \<Rightarrow> gostring option) \<Rightarrow> gostring \<Rightarrow> gostring" where
  "formatQueueOperation num raw =
     (case unmarshal_struct
         [(''operation'', str_field (\<lambda>s. qp_Operation_update (\<lambda>_. s))), (''content'', str_field (\<lambda>s. qp_Content_update (\<lambda>_. s)))]
         \<lparr>qp_Operation = [], qp_Content = []\<rparr> raw of
        (p, err) \<Rightarrow>
          if \<not> err \<and> qp_Operation p \<noteq> [] \<and> qp_Content p \<noteq> [] then qp_Operation p @ '': '' @ qp_Content p
          else if \<not> err \<and> qp_Content p \<noteq> [] then qp_Content p
          else if \<not> err \<and> qp_Operation p \<noteq> [] then qp_Operation p
          else prettyJSON num raw)"

definition formatMetaText :: "(gostring \<Rightarrow> gostring option) \<Rightarrow> Record \<Rightarrow> gostring" where
  "formatMetaText num r =
     (if rec_Type r = ''queue-operation'' then formatQueueOperation num (rec_Raw r)
      else if rec_Type r = ''last-prompt'' then extractStringField num (rec_Raw r) ''lastPrompt''
      else if rec_Type r = ''permission-mode'' then extractStringField num (rec_Raw r) ''permissionMode''
      else if rec_Type r = ''file-history-snapshot'' then extractNestedPrettyJSON num (rec_Raw r) ''snapshot''
      else prettyJSON num (rec_Raw r))"

definition formatAttachmentText :: "(gostring \<Rightarrow> gostring option) \<Rightarrow> gostring \<Rightarrow> gostring \<Rightarrow> gostring \<Rightarrow> gostring" where
  "formatAttachmentText num attachmentType content raw =
     (if isJSONString content \<and> \<not> snd (unmarshal_string content) then fst (unmarshal_string content)
      else if \<not> isJSONString content \<and> isJSONArray content then (if content = ''[]'' then [] else prettyJSON num content)
      else if \<not> isJSONString content \<and> content \<noteq> [] then prettyJSON num content
      else if attachmentType = ''task_reminder'' then []
      else prettyJSON num raw)"

subsection \<open>Tool results\<close>

definition maxEditPatchBytes :: nat where "maxEditPatchBytes = 131072"

record edit_result =
  er_FilePath :: gostring
  er_Patch :: gostring
  er_UserModified :: bool

definition editPatchFromResult :: "gostring \<Rightarrow> (gostring \<times> gostring \<times> bool) option" where
  "editPatchFromResult raw =
     (if raw = [] then None
      else case unmarshal_struct
          [(''filePath'', str_field (\<lambda>s. er_FilePath_update (\<lambda>_. s))),
           (''structuredPatch'', raw_field (\<lambda>s. er_Patch_update (\<lambda>_. s))),
           (''userModified'', bool_field (\<lambda>b. er_UserModified_update (\<lambda>_. b)))]
          \<lparr>er_FilePath = [], er_Patch = [], er_UserModified = False\<rparr> raw of
        (r, err) \<Rightarrow>
          if err \<or> er_FilePath r = [] \<or> er_Patch r = [] then None
          else Some (er_FilePath r, if length (er_Patch r) > maxEditPatchBytes then [] else er_Patch r, er_UserModified r))"

definition part_text :: "contentBlock \<Rightarrow> gostring" where
  "part_text s = (if cb_Type s = ''text'' \<and> cb_Text s \<noteq> [] then cb_Text s else marshal (content_value s))"

definition join_parts :: "gostring list \<Rightarrow> gostring" where
  "join_parts ts = foldl (\<lambda>buf t. (if buf \<noteq> [] then buf @ [CHR 0x0A] else buf) @ t) [] ts"

definition flattenToolResultContent :: "gostring \<Rightarrow> gostring" where
  "flattenToolResultContent raw =
     (if raw = [] then []
      else if isJSONString raw \<and> \<not> snd (unmarshal_string raw) then fst (unmarshal_string raw)
      else if isJSONArray raw then
        (case unmarshal_slice content_fields empty_content raw of
           Some subs \<Rightarrow> join_parts (map part_text subs)
         | None \<Rightarrow> raw)
      else raw)"

subsection \<open>The blocks of a message\<close>

definition blockForImage :: "Record \<Rightarrow> contentBlock \<Rightarrow> Block option" where
  "blockForImage r p =
     (case cb_Source p of
        None \<Rightarrow> None
      | Some s \<Rightarrow>
          if is_Data s = [] \<and> is_URL s = [] then None
          else Some ((blank_block BlockImage (rec_Timestamp r) (rec_UUID r))
            \<lparr>bl_ImageMediaType := is_MediaType s, bl_ImageData := is_Data s, bl_ImageURL := is_URL s\<rparr>))"

definition text_block :: "BlockKind \<Rightarrow> Record \<Rightarrow> gostring \<Rightarrow> Block" where
  "text_block k r t = (blank_block k (rec_Timestamp r) (rec_UUID r))\<lparr>bl_Text := t\<rparr>"

definition tool_result_block :: "Record \<Rightarrow> contentBlock \<Rightarrow> Block" where
  "tool_result_block r p =
     (let b = (blank_block BlockToolResult (rec_Timestamp r) (rec_UUID r))
            \<lparr>bl_ID := cb_ToolUseID p,
              bl_Result := stripTerminalEscapes (stripSystemReminders (flattenToolResultContent (cb_Content p))),
              bl_IsError := cb_IsError p, bl_HasResult := True\<rparr>
      in case editPatchFromResult (rec_ToolUseResult r) of
           Some (fp, patch, userMod) \<Rightarrow> b\<lparr>bl_EditFilePath := fp, bl_EditPatch := patch, bl_EditUserModified := userMod\<rparr>
         | None \<Rightarrow> b)"

definition user_part :: "Record \<Rightarrow> contentBlock \<Rightarrow> Block list" where
  "user_part r p =
     (if cb_Type p = ''text'' then
        (if cb_Text p = [] then [] else [text_block BlockUserMessage r (stripTerminalEscapes (cb_Text p))])
      else if cb_Type p = ''image'' then (case blockForImage r p of Some b \<Rightarrow> [b] | None \<Rightarrow> [])
      else if cb_Type p = ''tool_result'' then [tool_result_block r p]
      else [])"

definition tool_call_block :: "Record \<Rightarrow> contentBlock \<Rightarrow> Block" where
  "tool_call_block r p =
     (blank_block BlockToolCall (rec_Timestamp r) (rec_UUID r))
       \<lparr>bl_Tool := defaultIfEmpty (cb_Name p) ''Unknown'', bl_ID := cb_ID p, bl_Input := cb_Input p\<rparr>"

text \<open>One part of an assistant message: text parts that follow each other are merged.\<close>

definition assistant_part :: "Record \<Rightarrow> contentBlock \<Rightarrow> Block list \<Rightarrow> Block list" where
  "assistant_part r p out =
     (if cb_Type p = ''text'' then
        (if cb_Text p = [] then out
         else if out \<noteq> [] \<and> bl_Kind (last out) = BlockAssistantText then
           butlast out @ [(last out)\<lparr>bl_Text := bl_Text (last out) @ [CHR 0x0A, CHR 0x0A] @ stripTerminalEscapes (cb_Text p)\<rparr>]
         else out @ [text_block BlockAssistantText r (stripTerminalEscapes (cb_Text p))])
      else if cb_Type p = ''tool_use'' then out @ [tool_call_block r p]
      else if cb_Type p = ''thinking'' then
        (if cb_Thinking p = [] then out else out @ [text_block BlockThinking r (cb_Thinking p)])
      else if cb_Type p = ''image'' then out @ (case blockForImage r p of Some b \<Rightarrow> [b] | None \<Rightarrow> [])
      else out)"

definition blocksForMessage :: "Record \<Rightarrow> messageEnvelope \<Rightarrow> Block list" where
  "blocksForMessage r msg =
     (if isJSONString (me_Content msg) then
        (case unmarshal_string (me_Content msg) of
           (s, err) \<Rightarrow>
             if err \<or> s = [] then []
             else if rec_Type r = ''user'' then [text_block BlockUserMessage r (stripTerminalEscapes s)]
             else [text_block BlockAssistantText r (stripTerminalEscapes s)])
      else case unmarshal_slice content_fields empty_content (me_Content msg) of
        None \<Rightarrow> []
      | Some parts \<Rightarrow>
          if rec_Type r = ''user'' then concat (map (user_part r) parts)
          else fold (assistant_part r) parts [])"

subsection \<open>Attachments and meta records\<close>

record attachmentEnvelope =
  ae_Type :: gostring
  ae_Content :: gostring

definition blockForAttachment :: "(gostring \<Rightarrow> gostring option) \<Rightarrow> Record \<Rightarrow> Block option" where
  "blockForAttachment num r =
     (if rec_Attachment r = [] then None
      else case unmarshal_struct
          [(''type'', str_field (\<lambda>s. ae_Type_update (\<lambda>_. s))), (''content'', raw_field (\<lambda>s. ae_Content_update (\<lambda>_. s)))]
          \<lparr>ae_Type = [], ae_Content = []\<rparr> (rec_Attachment r) of
        (a, err) \<Rightarrow>
          if err then None
          else Some ((blank_block BlockAttachment (rec_Timestamp r) (rec_UUID r))
            \<lparr>bl_AttachmentType := defaultIfEmpty (ae_Type a) ''attachment'',
              bl_Text := formatAttachmentText num (ae_Type a) (ae_Content a) (rec_Attachment r)\<rparr>))"

definition isRawMetaRecord :: "gostring \<Rightarrow> bool" where
  "isRawMetaRecord t \<longleftrightarrow>
     t \<in> {''queue-operation'', ''last-prompt'', ''permission-mode'', ''file-history-snapshot'', ''system''}"

definition blockForMeta :: "(gostring \<Rightarrow> gostring option) \<Rightarrow> Record \<Rightarrow> Block" where
  "blockForMeta num r =
     (blank_block BlockMeta (rec_Timestamp r) (rec_UUID r))\<lparr>bl_MetaType := rec_Type r, bl_Text := formatMetaText num r\<rparr>"

subsection \<open>The session\<close>

text \<open>\<open>resolveSidechainParent\<close>: at most \<open>n\<close> hops up the conversation tree.\<close>

fun resolve_parent :: "nat \<Rightarrow> gostring \<Rightarrow> (gostring \<rightharpoonup> gostring) \<Rightarrow> (gostring \<rightharpoonup> gostring) \<Rightarrow> gostring" where
  "resolve_parent 0 cur toolUse parent = []"
| "resolve_parent (Suc n) cur toolUse parent =
     (if cur = [] then []
      else case toolUse cur of
        Some tid \<Rightarrow> tid
      | None \<Rightarrow> resolve_parent n (case parent cur of Some q \<Rightarrow> q | None \<Rightarrow> []) toolUse parent)"

definition resolveSidechainParent :: "gostring \<Rightarrow> (gostring \<rightharpoonup> gostring) \<Rightarrow> (gostring \<rightharpoonup> gostring) \<Rightarrow> gostring" where
  "resolveSidechainParent start toolUse parent = resolve_parent 64 start toolUse parent"

record extract_state =
  es_Out :: SessionBlocks
  es_ToolUse :: "gostring \<rightharpoonup> gostring"
  es_Parent :: "gostring \<rightharpoonup> gostring"

text \<open>The first tool call with an id, under the id of its record.\<close>

definition note_tool_use :: "Record \<Rightarrow> Block list \<Rightarrow> (gostring \<rightharpoonup> gostring) \<Rightarrow> (gostring \<rightharpoonup> gostring)" where
  "note_tool_use r blocks m =
     (if rec_IsSidechain r \<or> rec_UUID r = [] then m
      else case find (\<lambda>b. bl_Kind b = BlockToolCall \<and> bl_ID b \<noteq> []) blocks of
        None \<Rightarrow> m
      | Some b \<Rightarrow> if m (rec_UUID r) = None then m(rec_UUID r \<mapsto> bl_ID b) else m)"

definition tag_sidechain :: "gostring \<Rightarrow> Block \<Rightarrow> Block" where
  "tag_sidechain parent b =
     (let b1 = b\<lparr>bl_IsSidechain := True\<rparr> in if parent \<noteq> [] then b1\<lparr>bl_ParentToolUseID := parent\<rparr> else b1)"

definition attach_usage :: "usageEnvelope option \<Rightarrow> Block list \<Rightarrow> Block list" where
  "attach_usage u blocks =
     (case u of
        None \<Rightarrow> blocks
      | Some us \<Rightarrow>
          if blocks = [] then blocks
          else butlast blocks @ [(last blocks)\<lparr>bl_InputTokens := us_Input us, bl_OutputTokens := us_Output us,
                 bl_CacheCreationTokens := us_CacheCreation us, bl_CacheReadTokens := us_CacheRead us\<rparr>])"

definition add_blocks :: "Block list \<Rightarrow> extract_state \<Rightarrow> extract_state" where
  "add_blocks bs s = s\<lparr>es_Out := (es_Out s)\<lparr>sb_Blocks := sb_Blocks (es_Out s) @ bs\<rparr>\<rparr>"

definition note_metadata :: "Record \<Rightarrow> extract_state \<Rightarrow> extract_state" where
  "note_metadata r s =
     (let o1 = es_Out s;
          o2 = (if rec_SessionID r \<noteq> [] \<and> sb_SessionID o1 = [] then o1\<lparr>sb_SessionID := rec_SessionID r\<rparr> else o1);
          o3 = (if rec_Cwd r \<noteq> [] \<and> sb_Cwd o2 = [] then o2\<lparr>sb_Cwd := rec_Cwd r\<rparr> else o2)
      in s\<lparr>es_Out := o3,
           es_Parent := (if rec_UUID r \<noteq> [] then (es_Parent s)(rec_UUID r \<mapsto> rec_ParentUUID r) else es_Parent s)\<rparr>)"

definition message_step :: "Record \<Rightarrow> extract_state \<Rightarrow> extract_state" where
  "message_step r s =
     (case unmarshal_struct message_fields empty_message (rec_Message r) of
        (msg, err) \<Rightarrow>
          if err then s
          else let blocks = blocksForMessage r msg in
            if blocks = [] then s
            else let tool = note_tool_use r blocks (es_ToolUse s);
                     tagged = (if rec_IsSidechain r
                               then map (tag_sidechain (resolveSidechainParent (rec_ParentUUID r) tool (es_Parent s))) blocks
                               else blocks)
              in add_blocks (attach_usage (me_Usage msg) tagged) (s\<lparr>es_ToolUse := tool\<rparr>))"

definition extract_step :: "(gostring \<Rightarrow> gostring option) \<Rightarrow> Record \<Rightarrow> extract_state \<Rightarrow> extract_state" where
  "extract_step num r s0 =
     (let s = note_metadata r s0 in
      if rec_Type r = ''attachment'' then
        (if rec_IsSidechain r then s
         else case blockForAttachment num r of Some b \<Rightarrow> add_blocks [b] s | None \<Rightarrow> s)
      else if isRawMetaRecord (rec_Type r) then (if rec_IsSidechain r then s else add_blocks [blockForMeta num r] s)
      else if rec_Type r \<noteq> ''user'' \<and> rec_Type r \<noteq> ''assistant'' then s
      else if rec_Message r = [] then s
      else message_step r s)"

definition extract_init :: extract_state where
  "extract_init =
     \<lparr>es_Out = \<lparr>sb_SessionID = [], sb_Cwd = [], sb_Agent = ''claude-code'', sb_Blocks = []\<rparr>,
      es_ToolUse = Map.empty, es_Parent = Map.empty\<rparr>"

definition extract_records :: "(gostring \<Rightarrow> gostring option) \<Rightarrow> Record list \<Rightarrow> extract_state" where
  "extract_records num rs = fold (extract_step num) rs extract_init"

definition ExtractBlocks :: "(gostring \<Rightarrow> gostring option) \<Rightarrow> gostring option \<Rightarrow> SessionBlocks" where
  "ExtractBlocks num file = es_Out (extract_records num (good_records (ParseRecords file)))"

definition first_user_text :: "Record \<Rightarrow> gostring option" where
  "first_user_text r =
     (if rec_IsSidechain r \<or> rec_Type r \<noteq> ''user'' \<or> rec_Message r = [] then None
      else case unmarshal_struct message_fields empty_message (rec_Message r) of
        (msg, err) \<Rightarrow>
          if err then None
          else map_option bl_Text (find (\<lambda>b. bl_Kind b = BlockUserMessage \<and> bl_Text b \<noteq> []) (blocksForMessage r msg)))"

definition ExtractFirstUserMessage :: "gostring option \<Rightarrow> gostring" where
  "ExtractFirstUserMessage file =
     (case List.map_filter first_user_text (good_records (ParseRecords file)) of [] \<Rightarrow> [] | t # _ \<Rightarrow> t)"

end
