(* ===== verification/ClaudeProps.thy ===== *)
theory ClaudeProps
  imports ClaudeBlocks
begin

section \<open>What the extraction of Claude blocks guarantees\<close>

text \<open>
  The blocks have the fields of their kind, a sidechain block hangs under the nearest tool
  call of its ancestors, and the blocks of a file that grows only grow.
\<close>

subsection \<open>The parent of a sidechain\<close>

fun ancestor :: "(gostring \<rightharpoonup> gostring) \<Rightarrow> nat \<Rightarrow> gostring \<Rightarrow> gostring" where
  "ancestor parent 0 c = c"
| "ancestor parent (Suc k) c = ancestor parent k (case parent c of Some q \<Rightarrow> q | None \<Rightarrow> [])"

text \<open>Where the walk stops: at a record that made a tool call, or above the root.\<close>

definition walk_stops :: "(gostring \<rightharpoonup> gostring) \<Rightarrow> gostring \<Rightarrow> bool" where
  "walk_stops toolUse c \<longleftrightarrow> c = [] \<or> toolUse c \<noteq> None"

lemma find_map: "find P (map f xs) = map_option f (find (P \<circ> f) xs)"
  by (induction xs) auto

lemma resolve_parent_find:
  "resolve_parent n cur toolUse parent =
     (case find (\<lambda>k. ancestor parent k cur = [] \<or> toolUse (ancestor parent k cur) \<noteq> None) [0..<n] of
        None \<Rightarrow> []
      | Some k \<Rightarrow> if ancestor parent k cur = [] then [] else the (toolUse (ancestor parent k cur)))"
proof (induction n arbitrary: cur)
  case (Suc n)
  have u: "[0..<Suc n] = 0 # map Suc [0..<n]" by (simp add: map_Suc_upt upt_conv_Cons)
  show ?case
    unfolding u using Suc.IH[of "case parent cur of Some q \<Rightarrow> q | None \<Rightarrow> []"]
    by (simp add: find_map o_def split: option.split)
qed simp

text \<open>
  C26. The walk up the conversation tree ends, also when the parent links form a cycle, and
  gives the tool call of the nearest record that made one, the record itself included, among
  the first 64 records up the chain; nothing when the chain ends before it or is longer.
\<close>

theorem sidechain_parent_nearest:
  "resolveSidechainParent start toolUse parent =
     (case find (\<lambda>k. walk_stops toolUse (ancestor parent k start)) [0..<64] of
        None \<Rightarrow> []
      | Some k \<Rightarrow> if ancestor parent k start = [] then [] else the (toolUse (ancestor parent k start)))"
  unfolding resolveSidechainParent_def walk_stops_def by (rule resolve_parent_find)

subsection \<open>Blocks have the fields of their kind\<close>

definition block_wf :: "Block \<Rightarrow> bool" where
  "block_wf b \<longleftrightarrow>
     (case bl_Kind b of
        BlockToolCall \<Rightarrow> bl_Tool b \<noteq> []
      | BlockImage \<Rightarrow> bl_ImageData b \<noteq> [] \<or> bl_ImageURL b \<noteq> []
      | BlockThinking \<Rightarrow> bl_Text b \<noteq> []
      | BlockMeta \<Rightarrow> isRawMetaRecord (bl_MetaType b) \<and> \<not> bl_IsSidechain b
      | BlockAttachment \<Rightarrow> bl_AttachmentType b \<noteq> [] \<and> \<not> bl_IsSidechain b
      | _ \<Rightarrow> True) \<and>
     (bl_HasResult b \<longleftrightarrow> bl_Kind b = BlockToolResult) \<and>
     (bl_Kind b \<noteq> BlockToolCall \<longrightarrow> bl_Tool b = [] \<and> bl_Input b = []) \<and>
     (bl_Kind b \<noteq> BlockToolResult \<longrightarrow> bl_Result b = [] \<and> \<not> bl_IsError b \<and> bl_EditFilePath b = []) \<and>
     (bl_EditFilePath b = [] \<longrightarrow> bl_EditPatch b = [] \<and> \<not> bl_EditUserModified b) \<and>
     length (bl_EditPatch b) \<le> 131072 \<and>
     (bl_Kind b \<notin> {BlockToolCall, BlockToolResult} \<longrightarrow> bl_ID b = []) \<and>
     (bl_Kind b \<in> {BlockToolCall, BlockToolResult, BlockImage} \<longrightarrow> bl_Text b = []) \<and>
     (bl_Kind b \<noteq> BlockImage \<longrightarrow> bl_ImageMediaType b = [] \<and> bl_ImageData b = [] \<and> bl_ImageURL b = []) \<and>
     (bl_Kind b \<noteq> BlockMeta \<longrightarrow> bl_MetaType b = []) \<and>
     (bl_Kind b \<noteq> BlockAttachment \<longrightarrow> bl_AttachmentType b = []) \<and>
     (bl_Kind b \<in> {BlockMeta, BlockAttachment} \<longrightarrow> bl_InputTokens b = 0 \<and> bl_OutputTokens b = 0 \<and>
        bl_CacheCreationTokens b = 0 \<and> bl_CacheReadTokens b = 0) \<and>
     (bl_ParentToolUseID b \<noteq> [] \<longrightarrow> bl_IsSidechain b)"

lemmas block_defs = block_wf_def blank_block_def text_block_def tool_result_block_def tool_call_block_def
  blockForImage_def defaultIfEmpty_def Let_def

lemma text_block_wf: "k \<in> {BlockUserMessage, BlockAssistantText} \<or> k = BlockThinking \<and> t \<noteq> [] \<Longrightarrow> block_wf (text_block k r t)"
  by (auto simp: block_defs)

lemma image_wf: "blockForImage r p = Some b \<Longrightarrow> block_wf b \<and> bl_Kind b = BlockImage"
  by (auto simp: block_defs split: option.splits if_splits)

lemma edit_patch_bounds: "editPatchFromResult raw = Some (fp, patch, um) \<Longrightarrow> fp \<noteq> [] \<and> length patch \<le> 131072"
  by (auto simp: editPatchFromResult_def maxEditPatchBytes_def split: if_splits prod.splits)

lemma tool_result_wf: "block_wf (tool_result_block r p)" "bl_Kind (tool_result_block r p) = BlockToolResult"
  using edit_patch_bounds[of "rec_ToolUseResult r"] by (auto simp: block_defs split: option.splits)

lemma tool_call_wf: "block_wf (tool_call_block r p)" "bl_Kind (tool_call_block r p) = BlockToolCall"
  by (auto simp: block_defs)

text \<open>The kinds a message produces.\<close>

definition message_kind :: "BlockKind \<Rightarrow> bool" where
  "message_kind k \<longleftrightarrow> k \<noteq> BlockMeta \<and> k \<noteq> BlockAttachment"

definition message_block :: "Block \<Rightarrow> bool" where
  "message_block b \<longleftrightarrow> block_wf b \<and> message_kind (bl_Kind b)"

lemma text_block_kind [simp]: "bl_Kind (text_block k r t) = k"
  by (simp add: text_block_def blank_block_def)

lemma message_blockI:
  "k \<in> {BlockUserMessage, BlockAssistantText} \<or> k = BlockThinking \<and> t \<noteq> [] \<Longrightarrow> message_block (text_block k r t)"
  "message_block (tool_result_block r p)" "message_block (tool_call_block r p)"
  "blockForImage r p = Some b \<Longrightarrow> message_block b"
  using text_block_wf[of k t r] tool_result_wf[of r p] tool_call_wf[of r p] image_wf[of r p b]
  by (auto simp: message_block_def message_kind_def)

lemma user_part_wf: "b \<in> set (user_part r p) \<Longrightarrow> message_block b"
  by (auto simp: user_part_def message_blockI split: if_splits option.splits)

lemma merge_text_wf: "message_block b \<Longrightarrow> bl_Kind b = BlockAssistantText \<Longrightarrow> message_block (b\<lparr>bl_Text := t\<rparr>)"
  by (simp add: message_block_def block_wf_def)

lemma assistant_part_wf:
  assumes "list_all message_block out"
  shows "list_all message_block (assistant_part r p out)"
proof -
  have "list_all message_block (butlast out)"
    using assms by (auto simp: list_all_iff dest: in_set_butlastD)
  moreover have "out \<noteq> [] \<Longrightarrow> message_block (last out)"
    using assms by (simp add: list_all_iff)
  ultimately show ?thesis
    using assms by (auto simp: assistant_part_def message_blockI merge_text_wf split: option.splits)
qed

lemma assistant_parts_wf: "list_all message_block out \<Longrightarrow> list_all message_block (fold (assistant_part r) ps out)"
  by (induction ps arbitrary: out) (auto intro: assistant_part_wf)

lemma blocksForMessage_wf: "list_all message_block (blocksForMessage r msg)"
proof -
  have "list_all message_block (concat (map (user_part r) ps))" for ps
    by (auto simp: list_all_iff intro: user_part_wf)
  then show ?thesis
    by (auto simp: blocksForMessage_def message_blockI assistant_parts_wf split: prod.splits option.splits)
qed

lemma tag_sidechain_wf: "message_block b \<Longrightarrow> message_block (tag_sidechain q b)"
  by (auto simp: message_block_def message_kind_def block_wf_def tag_sidechain_def Let_def split: BlockKind.splits)

lemma attach_usage_wf:
  assumes "list_all message_block bs"
  shows "list_all message_block (attach_usage u bs)"
proof -
  have k: "message_block (b\<lparr>bl_InputTokens := i, bl_OutputTokens := j, bl_CacheCreationTokens := k, bl_CacheReadTokens := l\<rparr>) = message_block b"
    for b i j k l by (cases "bl_Kind b") (simp_all add: message_block_def message_kind_def block_wf_def)
  show ?thesis
    using assms k by (cases bs rule: rev_cases) (auto simp: attach_usage_def split: option.splits)
qed

lemma attachment_wf: "blockForAttachment num r = Some b \<Longrightarrow> block_wf b"
  by (auto simp: blockForAttachment_def block_wf_def blank_block_def defaultIfEmpty_def split: if_splits prod.splits)

lemma meta_wf: "isRawMetaRecord (rec_Type r) \<Longrightarrow> block_wf (blockForMeta num r)"
  by (simp add: blockForMeta_def block_wf_def blank_block_def)

abbreviation out_blocks :: "extract_state \<Rightarrow> Block list" where
  "out_blocks s \<equiv> sb_Blocks (es_Out s)"

text \<open>A step appends well-formed blocks.\<close>

lemma note_metadata_blocks [simp]: "out_blocks (note_metadata r s) = out_blocks s"
  by (simp add: note_metadata_def Let_def)

lemma add_blocks_out [simp]: "out_blocks (add_blocks bs s) = out_blocks s @ bs"
  by (simp add: add_blocks_def)

lemma message_step_appends: "\<exists>bs. out_blocks (message_step r s) = out_blocks s @ bs \<and> list_all block_wf bs"
proof -
  obtain msg err where u: "unmarshal_struct message_fields empty_message (rec_Message r) = (msg, err)" by fastforce
  let ?bs = "blocksForMessage r msg"
  let ?q = "resolveSidechainParent (rec_ParentUUID r) (note_tool_use r ?bs (es_ToolUse s)) (es_Parent s)"
  have "list_all message_block ?bs" by (rule blocksForMessage_wf)
  moreover then have "list_all message_block (map (tag_sidechain ?q) ?bs)"
    by (auto simp: list_all_iff intro: tag_sidechain_wf)
  ultimately have "list_all message_block (attach_usage (me_Usage msg) (if rec_IsSidechain r then map (tag_sidechain ?q) ?bs else ?bs))"
    by (auto intro: attach_usage_wf)
  then have "list_all block_wf (attach_usage (me_Usage msg) (if rec_IsSidechain r then map (tag_sidechain ?q) ?bs else ?bs))"
    by (auto simp: list_all_iff message_block_def)
  then show ?thesis by (cases "err \<or> ?bs = []") (auto simp: message_step_def u Let_def)
qed

lemma extract_step_appends: "\<exists>bs. out_blocks (extract_step num r s) = out_blocks s @ bs \<and> list_all block_wf bs"
  using message_step_appends[of r "note_metadata r s"] attachment_wf[of num r] meta_wf[of r num]
  by (auto simp: extract_step_def Let_def split: option.splits)

lemma extract_fold_appends: "\<exists>bs. out_blocks (fold (extract_step num) rs s) = out_blocks s @ bs \<and> list_all block_wf bs"
proof (induction rs arbitrary: s)
  case (Cons r rs)
  obtain b1 where b1: "out_blocks (extract_step num r s) = out_blocks s @ b1" "list_all block_wf b1"
    using extract_step_appends by blast
  obtain b2 where b2: "out_blocks (fold (extract_step num) rs (extract_step num r s)) = out_blocks (extract_step num r s) @ b2"
    "list_all block_wf b2" using Cons.IH by blast
  show ?case using b1 b2 by (intro exI[of _ "b1 @ b2"]) simp
qed simp

text \<open>
  C32. Every block the extraction produces has the fields of its kind and no others. A tool call
  names its tool, an image has data or an address, a thinking block has text, a meta block has
  one of the meta types, an attachment its type; a tool result, and only a tool result, is marked
  as having a result. The tool and input of a call, the result, error flag and edit of a
  result, the text, the parts of an image, the two types and the token counts are empty in the
  kinds they do not belong to; an edit patch has at most 128 KiB and comes with its file; and
  only a block of a sidechain hangs under a tool call.
\<close>

theorem extracted_blocks_wf: "list_all block_wf (sb_Blocks (ExtractBlocks num file))"
  using extract_fold_appends[of num "good_records (ParseRecords file)" extract_init]
  by (auto simp: ExtractBlocks_def extract_records_def extract_init_def)

subsection \<open>Files that grow\<close>

lemma split_byte_not_Nil [simp]: "split_byte d s \<noteq> []"
  by (cases s) (auto split: list.splits)

lemma split_line_append: "split_byte d (a @ d # b) = split_byte d a @ split_byte d b"
  by (induction a) (auto split: list.splits)

lemma split_byte_end: "split_byte d (a @ [d]) = split_byte d a @ [[]]"
  using split_line_append[of d a "[]"] by simp

text \<open>Content that ends with a line end, or is empty.\<close>

definition whole_lines :: "gostring \<Rightarrow> bool" where
  "whole_lines content \<longleftrightarrow> content = [] \<or> last content = CHR 0x0A"

lemma raw_lines_append: "whole_lines c1 \<Longrightarrow> raw_lines (c1 @ c2) = raw_lines c1 @ raw_lines c2"
proof (cases c1 rule: rev_cases)
  case (snoc a x)
  moreover assume "whole_lines c1"
  ultimately have "c1 = a @ [CHR 0x0A]" by (auto simp: whole_lines_def)
  then show ?thesis
    using split_line_append[of "CHR 0x0A" a c2] split_byte_end[of "CHR 0x0A" a]
    by (simp add: raw_lines_def Let_def butlast_append)
qed (simp add: raw_lines_def)

definition lines_fit :: "gostring \<Rightarrow> bool" where
  "lines_fit content \<longleftrightarrow> list_all (\<lambda>l. length l < maxLine) (raw_lines content)"

lemma scan_lines_append:
  assumes "whole_lines c1" "lines_fit c1"
  shows "scan_lines (c1 @ c2) = (fst (scan_lines c1) @ fst (scan_lines c2), snd (scan_lines c2))"
  using assms raw_lines_append[of c1 c2]
  by (simp add: scan_lines_def lines_fit_def Let_def list_all_iff takeWhile_append2 takeWhile_eq_all_conv[THEN iffD2])

lemma ParseRecords_append:
  assumes "whole_lines c1" "lines_fit c1"
  shows "ParseRecords (Some (c1 @ c2)) = ParseRecords (Some c1) @ ParseRecords (Some c2)"
proof -
  have "snd (scan_lines c1) = False"
    using assms(2) by (simp add: scan_lines_def lines_fit_def Let_def list_all_iff takeWhile_eq_all_conv[THEN iffD2])
  then show ?thesis
    using scan_lines_append[OF assms, of c2] by (cases "scan_lines c1"; cases "scan_lines c2") (simp add: ParseRecords_def)
qed

lemma good_records_append: "good_records (xs @ ys) = good_records xs @ good_records ys"
  by (simp add: good_records_def List.map_filter_def)

text \<open>
  C10. Extraction only appends: when a session file grows by further content after a whole
  line, the blocks extracted before are an unchanged prefix of the blocks extracted now, so
  what was sent to the browser stays valid and block positions are stable.
\<close>

theorem extraction_append_only:
  assumes "whole_lines c1" "lines_fit c1"
  shows "\<exists>new. sb_Blocks (ExtractBlocks num (Some (c1 @ c2))) = sb_Blocks (ExtractBlocks num (Some c1)) @ new"
  using extract_fold_appends[of num "good_records (ParseRecords (Some c2))"
      "extract_records num (good_records (ParseRecords (Some c1)))"]
  by (auto simp: ExtractBlocks_def extract_records_def ParseRecords_append[OF assms] good_records_append)

definition ex_line :: gostring where
  "ex_line = ''{\"type\":\"user\",\"uuid\":\"u\",\"message\":{\"content\":\"hi\"}}'' @ [CHR 0x0A]"

theorem extraction_append_only_witness:
  "\<exists>new. sb_Blocks (ExtractBlocks (\<lambda>_. None) (Some (ex_line @ ex_line))) =
     sb_Blocks (ExtractBlocks (\<lambda>_. None) (Some ex_line)) @ new"
  by (rule extraction_append_only) (simp_all add: whole_lines_def lines_fit_def raw_lines_def ex_line_def maxLine_def)

end
