(* ===== verification/CodexBlocks.thy ===== *)
theory CodexBlocks
  imports ClaudeBlocks
begin

section \<open>Codex sessions\<close>

text \<open>
  \<open>daemon/internal/agent/codex/reader.go\<close> and \<open>blocks.go\<close>: rollout files, their records
  and the blocks made of them (the file is read twice, once for the outputs; the model reads the
  same content both times). The block type, the test for JSON strings and arrays and the
  default of an empty name are those of the Claude reader, which the code repeats. A file
  that cannot be opened is \<open>None\<close>.
\<close>

subsection \<open>Rollout files\<close>

text \<open>
  The name of a rollout is \<open>rollout-\<close>, a time stamp of nineteen characters, a dash and a
  UUID of thirty-six, then \<open>.jsonl\<close>.
\<close>

definition hex_lower :: "char \<Rightarrow> bool" where
  "hex_lower c \<longleftrightarrow> is_digit c \<or> in_range 97 102 c"

definition matches_shape :: "(char \<Rightarrow> bool) \<Rightarrow> gostring \<Rightarrow> gostring \<Rightarrow> bool" where
  "matches_shape cls shape s \<longleftrightarrow>
     length s = length shape \<and> list_all2 (\<lambda>k c. if k = CHR ''x'' then cls c else c = k) shape s"

definition ts_shape :: gostring where "ts_shape = ''xxxx-xx-xxTxx-xx-xx''"
definition sid_shape :: gostring where "sid_shape = ''xxxxxxxx-xxxx-xxxx-xxxx-xxxxxxxxxxxx''"

definition rollout_name :: "gostring \<Rightarrow> (gostring \<times> gostring) option" where
  "rollout_name name =
     (if HasPrefix name ''rollout-'' \<and> HasSuffix name ''.jsonl'' \<and> length name = 70 \<and> name ! 27 = CHR ''-''
      then let ts = take 19 (drop 8 name); sid = take 36 (drop 28 name)
           in if matches_shape is_digit ts_shape ts \<and> matches_shape hex_lower sid_shape sid then Some (ts, sid) else None
      else None)"

record CodexFile =
  cf_SessionID :: gostring
  cf_Timestamp :: gostring
  cf_Path :: gostring
  cf_Cwd :: gostring
  cf_Archived :: bool

record codex_head =
  ch_Type :: gostring
  ch_Cwd :: gostring

definition head_fields :: "(gostring \<times> codex_head decoder) list" where
  "head_fields =
     [(''type'', str_field (\<lambda>s. ch_Type_update (\<lambda>_. s))),
      (''payload'', struct_field [(''cwd'', str_field (\<lambda>s _. s))] ch_Cwd (\<lambda>s. ch_Cwd_update (\<lambda>_. s)))]"

definition readCwd :: "gostring option \<Rightarrow> gostring" where
  "readCwd file =
     (case file of
        None \<Rightarrow> []
      | Some content \<Rightarrow>
          (case filter (\<lambda>l. l \<noteq> []) (fst (scan_lines content)) of
             [] \<Rightarrow> []
           | line # _ \<Rightarrow>
               (case unmarshal_struct head_fields \<lparr>ch_Type = [], ch_Cwd = []\<rparr> line of
                  (h, err) \<Rightarrow> if err then [] else if ch_Type h \<noteq> ''session_meta'' then [] else ch_Cwd h)))"

text \<open>
  \<open>ListSessions\<close> over the files of the two trees, in the order of the walk (live files
  first): the path, the base name, the content (\<open>None\<close> when it cannot be opened) and
  whether the file can be examined. The order of equal time stamps is not specified by the
  code's sort.
\<close>

record codex_entry =
  ce_Path :: gostring
  ce_Name :: gostring
  ce_Content :: "gostring option"
  ce_StatOK :: bool
  ce_Archived :: bool

definition visit_rollout :: "codex_entry \<Rightarrow> (gostring \<times> CodexFile) list \<Rightarrow> (gostring \<times> CodexFile) list" where
  "visit_rollout e seen =
     (case rollout_name (ce_Name e) of
        None \<Rightarrow> seen
      | Some (ts, sid) \<Rightarrow>
          if (case alist_get seen sid of Some x \<Rightarrow> \<not> cf_Archived x | None \<Rightarrow> False) then seen
          else let cwd = readCwd (ce_Content e) in
            if cwd = [] \<and> \<not> ce_StatOK e then seen
            else alist_put sid \<lparr>cf_SessionID = sid, cf_Timestamp = ts, cf_Path = ce_Path e, cf_Cwd = cwd,
                   cf_Archived = ce_Archived e\<rparr> seen)"

definition codex_ListSessions :: "codex_entry list \<Rightarrow> codex_entry list \<Rightarrow> CodexFile list" where
  "codex_ListSessions live archived =
     rev (sort_key cf_Timestamp (rev (map snd (fold visit_rollout (live @ archived) []))))"

definition codex_ListProjects :: "codex_entry list \<Rightarrow> codex_entry list \<Rightarrow> (gostring \<times> CodexFile list) list" where
  "codex_ListProjects live archived =
     (let sessions = codex_ListSessions live archived in
      map (\<lambda>cwd. (cwd, filter (\<lambda>s. cf_Cwd s = cwd) sessions)) (sort (remdups (map cf_Cwd sessions))))"

definition codex_FindSession :: "codex_entry list \<Rightarrow> codex_entry list \<Rightarrow> gostring \<Rightarrow> CodexFile option" where
  "codex_FindSession live archived sid = find (\<lambda>s. cf_SessionID s = sid) (codex_ListSessions live archived)"

subsection \<open>Records\<close>

record CodexRecord =
  cr_Type :: gostring
  cr_Timestamp :: gostring
  cr_Payload :: gostring
  cr_Raw :: gostring

definition codex_record_fields :: "(gostring \<times> CodexRecord decoder) list" where
  "codex_record_fields =
     [(''type'', str_field (\<lambda>s. cr_Type_update (\<lambda>_. s))),
      (''timestamp'', str_field (\<lambda>s. cr_Timestamp_update (\<lambda>_. s))),
      (''payload'', raw_field (\<lambda>s. cr_Payload_update (\<lambda>_. s)))]"

definition parse_codex_record :: "gostring \<Rightarrow> CodexRecord option" where
  "parse_codex_record line =
     (case unmarshal_struct codex_record_fields \<lparr>cr_Type = [], cr_Timestamp = [], cr_Payload = [], cr_Raw = []\<rparr> line of
        (r, err) \<Rightarrow> if err then None else Some (r\<lparr>cr_Raw := line\<rparr>))"

definition codex_ParseRecords :: "gostring option \<Rightarrow> CodexRecord option list" where
  "codex_ParseRecords file =
     (case file of
        None \<Rightarrow> [None]
      | Some content \<Rightarrow>
          (case scan_lines content of
             (lines, too_long) \<Rightarrow>
               map parse_codex_record (filter (\<lambda>l. l \<noteq> []) (map TrimSpace lines)) @ (if too_long then [None] else [])))"

definition codex_records :: "gostring option \<Rightarrow> CodexRecord list" where
  "codex_records file = List.map_filter (\<lambda>r. r) (codex_ParseRecords file)"

subsection \<open>Messages and reasoning\<close>

definition noisePrefixes :: "gostring list" where
  "noisePrefixes =
     [''<environment_context>'', ''<permissions instructions>'', ''# AGENTS.md instructions'', ''<collaboration_mode>'']"

record codex_part =
  pt_Type :: gostring
  pt_Text :: gostring

definition part_fields :: "(gostring \<times> codex_part decoder) list" where
  "part_fields = [(''type'', str_field (\<lambda>s. pt_Type_update (\<lambda>_. s))), (''text'', str_field (\<lambda>s. pt_Text_update (\<lambda>_. s)))]"

definition empty_part :: codex_part where "empty_part = \<lparr>pt_Type = [], pt_Text = []\<rparr>"

definition glue :: "gostring \<Rightarrow> gostring \<Rightarrow> gostring \<Rightarrow> gostring" where
  "glue sep t buf = (if buf \<noteq> [] then buf @ sep else buf) @ t"

definition message_part :: "codex_part \<Rightarrow> gostring \<Rightarrow> gostring" where
  "message_part p buf =
     (if pt_Type p = ''input_text'' \<or> pt_Type p = ''output_text'' \<or> pt_Type p = ''text''
      then (if pt_Text p = [] then buf else glue [CHR 0x0A] (pt_Text p) buf)
      else if pt_Type p = ''input_image'' then glue [CHR 0x0A] ''[image]'' buf
      else buf)"

definition flattenMessageContent :: "gostring \<Rightarrow> gostring" where
  "flattenMessageContent raw =
     (if raw = [] then []
      else if isJSONString raw \<and> \<not> snd (unmarshal_string raw) then fst (unmarshal_string raw)
      else if \<not> isJSONArray raw then []
      else case unmarshal_slice part_fields empty_part raw of
        None \<Rightarrow> []
      | Some parts \<Rightarrow> fold message_part parts [])"

record payloadMessage =
  pm_Type :: gostring
  pm_Role :: gostring
  pm_Content :: gostring

definition payload_message :: "gostring \<Rightarrow> payloadMessage \<times> bool" where
  "payload_message raw =
     unmarshal_struct
       [(''type'', str_field (\<lambda>s. pm_Type_update (\<lambda>_. s))), (''role'', str_field (\<lambda>s. pm_Role_update (\<lambda>_. s))),
        (''content'', raw_field (\<lambda>s. pm_Content_update (\<lambda>_. s)))]
       \<lparr>pm_Type = [], pm_Role = [], pm_Content = []\<rparr> raw"

definition codex_text_block :: "BlockKind \<Rightarrow> CodexRecord \<Rightarrow> gostring \<Rightarrow> Block" where
  "codex_text_block k r t = (blank_block k (cr_Timestamp r) [])\<lparr>bl_Text := t\<rparr>"

definition is_noise :: "gostring \<Rightarrow> bool" where
  "is_noise text0 \<longleftrightarrow> list_ex (HasPrefix (TrimSpace text0)) noisePrefixes"

definition messageBlock :: "CodexRecord \<Rightarrow> Block option" where
  "messageBlock r =
     (case payload_message (cr_Payload r) of
        (pl, err) \<Rightarrow>
          if err then None
          else let t = flattenMessageContent (pm_Content pl) in
            if t = [] then None
            else if pm_Role pl = ''user'' then (if is_noise t then None else Some (codex_text_block BlockUserMessage r t))
            else if pm_Role pl = ''assistant'' then Some (codex_text_block BlockAssistantText r t)
            else None)"

record payloadReasoning =
  pr_Type :: gostring
  pr_Summary :: "codex_part list"

text \<open>A field that is a slice of structs. (A second member of the same name starts afresh.)\<close>

definition slice_field :: "(gostring \<times> 'a decoder) list \<Rightarrow> 'a \<Rightarrow> ('a list \<Rightarrow> 'r \<Rightarrow> 'r) \<Rightarrow> 'r decoder" where
  "slice_field fs zero upd raw v r =
     (case v of
        JNull \<Rightarrow> (upd [] r, False)
      | JArr es \<Rightarrow> (let ds = map (\<lambda>(_, x). dec_struct fs x zero) es in (upd (map fst ds) r, list_ex snd ds))
      | _ \<Rightarrow> (r, True))"

definition reasoning_part :: "codex_part \<Rightarrow> gostring \<Rightarrow> gostring" where
  "reasoning_part p buf =
     (if pt_Type p \<noteq> ''summary_text'' \<or> pt_Text p = [] then buf else glue [CHR 0x0A, CHR 0x0A] (pt_Text p) buf)"

definition flattenReasoning :: "codex_part list \<Rightarrow> gostring" where
  "flattenReasoning parts = fold reasoning_part parts []"

definition reasoningBlock :: "CodexRecord \<Rightarrow> Block option" where
  "reasoningBlock r =
     (case unmarshal_struct
         [(''type'', str_field (\<lambda>s. pr_Type_update (\<lambda>_. s))),
          (''summary'', slice_field part_fields empty_part (\<lambda>ps. pr_Summary_update (\<lambda>_. ps)))]
         \<lparr>pr_Type = [], pr_Summary = []\<rparr> (cr_Payload r) of
        (pl, err) \<Rightarrow>
          if err then None
          else let t = flattenReasoning (pr_Summary pl) in
            if t = [] then None else Some (codex_text_block BlockThinking r t))"

subsection \<open>Function calls\<close>

definition isJSONNull :: "gostring \<Rightarrow> bool" where
  "isJSONNull b \<longleftrightarrow> TrimSpace b = ''null''"

definition normalizeArguments :: "gostring \<Rightarrow> gostring" where
  "normalizeArguments raw =
     (if raw = [] then []
      else if isJSONNull raw then []
      else if isJSONString raw then
        (case unmarshal_string raw of
           (s0, err) \<Rightarrow>
             if err then []
             else let s = TrimSpace s0 in
               if s = [] then []
               else if json_valid s then s
               else marshal (go_map [(''_raw'', GStr s)]))
      else if json_valid raw then raw
      else [])"

record functionResult =
  fr_Output :: gostring
  fr_IsError :: bool

record payloadFunctionCall =
  fc_Type :: gostring
  fc_Name :: gostring
  fc_Arguments :: gostring
  fc_CallID :: gostring

definition payload_call :: "gostring \<Rightarrow> payloadFunctionCall \<times> bool" where
  "payload_call raw =
     unmarshal_struct
       [(''type'', str_field (\<lambda>s. fc_Type_update (\<lambda>_. s))), (''name'', str_field (\<lambda>s. fc_Name_update (\<lambda>_. s))),
        (''arguments'', raw_field (\<lambda>s. fc_Arguments_update (\<lambda>_. s))), (''call_id'', str_field (\<lambda>s. fc_CallID_update (\<lambda>_. s)))]
       \<lparr>fc_Type = [], fc_Name = [], fc_Arguments = [], fc_CallID = []\<rparr> raw"

definition functionCallBlock :: "CodexRecord \<Rightarrow> (gostring \<rightharpoonup> functionResult) \<Rightarrow> Block option" where
  "functionCallBlock r results =
     (case payload_call (cr_Payload r) of
        (pl, err) \<Rightarrow>
          if err then None
          else let b = (blank_block BlockToolCall (cr_Timestamp r) [])
                  \<lparr>bl_Tool := defaultIfEmpty (fc_Name pl) ''Unknown'', bl_ID := fc_CallID pl,
                    bl_Input := normalizeArguments (fc_Arguments pl)\<rparr>
            in Some (case results (fc_CallID pl) of
                 Some res \<Rightarrow> b\<lparr>bl_Result := fr_Output res, bl_IsError := fr_IsError res, bl_HasResult := True\<rparr>
               | None \<Rightarrow> b))"

definition flattenFunctionOutput :: "gostring \<Rightarrow> gostring" where
  "flattenFunctionOutput raw =
     (if raw = [] then []
      else if isJSONString raw \<and> \<not> snd (unmarshal_string raw) then fst (unmarshal_string raw)
      else if json_valid raw then raw
      else [])"

record payloadFunctionCallOutput =
  fo_Type :: gostring
  fo_CallID :: gostring
  fo_Output :: gostring

definition payload_output :: "gostring \<Rightarrow> payloadFunctionCallOutput \<times> bool" where
  "payload_output raw =
     unmarshal_struct
       [(''type'', str_field (\<lambda>s. fo_Type_update (\<lambda>_. s))), (''call_id'', str_field (\<lambda>s. fo_CallID_update (\<lambda>_. s))),
        (''output'', raw_field (\<lambda>s. fo_Output_update (\<lambda>_. s)))]
       \<lparr>fo_Type = [], fo_CallID = [], fo_Output = []\<rparr> raw"

definition payload_type :: "gostring \<Rightarrow> gostring option" where
  "payload_type raw = str_member ''type'' raw"

definition index_output :: "CodexRecord \<Rightarrow> (gostring \<rightharpoonup> functionResult) \<Rightarrow> (gostring \<rightharpoonup> functionResult)" where
  "index_output r m =
     (if cr_Type r \<noteq> ''response_item'' then m
      else if payload_type (cr_Payload r) \<noteq> Some ''function_call_output'' then m
      else case payload_output (cr_Payload r) of
        (pl, err) \<Rightarrow>
          if err \<or> fo_CallID pl = [] then m
          else m(fo_CallID pl \<mapsto> \<lparr>fr_Output = flattenFunctionOutput (fo_Output pl), fr_IsError = False\<rparr>))"

definition indexFunctionOutputs :: "CodexRecord list \<Rightarrow> (gostring \<rightharpoonup> functionResult)" where
  "indexFunctionOutputs rs = fold index_output rs Map.empty"

subsection \<open>The session\<close>

record codex_meta =
  cm_ID :: gostring
  cm_Cwd :: gostring

definition session_meta :: "CodexRecord \<Rightarrow> SessionBlocks \<Rightarrow> SessionBlocks" where
  "session_meta r out =
     (case unmarshal_struct
         [(''id'', str_field (\<lambda>s. cm_ID_update (\<lambda>_. s))), (''cwd'', str_field (\<lambda>s. cm_Cwd_update (\<lambda>_. s)))]
         \<lparr>cm_ID = [], cm_Cwd = []\<rparr> (cr_Payload r) of
        (pl, err) \<Rightarrow>
          if err then out
          else let o1 = (if sb_SessionID out = [] then out\<lparr>sb_SessionID := cm_ID pl\<rparr> else out)
            in if sb_Cwd o1 = [] then o1\<lparr>sb_Cwd := cm_Cwd pl\<rparr> else o1)"

definition item_block :: "(gostring \<rightharpoonup> functionResult) \<Rightarrow> CodexRecord \<Rightarrow> Block option" where
  "item_block results r =
     (case payload_type (cr_Payload r) of
        None \<Rightarrow> None
      | Some t \<Rightarrow>
          if t = ''message'' then messageBlock r
          else if t = ''reasoning'' then reasoningBlock r
          else if t = ''function_call'' then functionCallBlock r results
          else None)"

definition codex_step :: "(gostring \<rightharpoonup> functionResult) \<Rightarrow> CodexRecord \<Rightarrow> SessionBlocks \<Rightarrow> SessionBlocks" where
  "codex_step results r out =
     (if cr_Type r = ''session_meta'' then session_meta r out
      else if cr_Type r \<noteq> ''response_item'' then out
      else case item_block results r of Some b \<Rightarrow> out\<lparr>sb_Blocks := sb_Blocks out @ [b]\<rparr> | None \<Rightarrow> out)"

definition codex_ExtractBlocks :: "gostring option \<Rightarrow> SessionBlocks" where
  "codex_ExtractBlocks file =
     (let rs = codex_records file in
      fold (codex_step (indexFunctionOutputs rs)) rs
        \<lparr>sb_SessionID = [], sb_Cwd = [], sb_Agent = ''codex'', sb_Blocks = []\<rparr>)"

definition codex_first_user :: "CodexRecord \<Rightarrow> gostring option" where
  "codex_first_user r =
     (if cr_Type r \<noteq> ''response_item'' then None
      else case unmarshal_struct
          [(''type'', str_field (\<lambda>s. pm_Type_update (\<lambda>_. s))), (''role'', str_field (\<lambda>s. pm_Role_update (\<lambda>_. s)))]
          \<lparr>pm_Type = [], pm_Role = [], pm_Content = []\<rparr> (cr_Payload r) of
        (h, err) \<Rightarrow>
          if err \<or> pm_Type h \<noteq> ''message'' \<or> pm_Role h \<noteq> ''user'' then None
          else case messageBlock r of
            Some b \<Rightarrow> if bl_Kind b = BlockUserMessage \<and> TrimSpace (bl_Text b) \<noteq> [] then Some (bl_Text b) else None
          | None \<Rightarrow> None)"

definition codex_ExtractFirstUserMessage :: "gostring option \<Rightarrow> gostring" where
  "codex_ExtractFirstUserMessage file =
     (case List.map_filter codex_first_user (codex_records file) of [] \<Rightarrow> [] | t # _ \<Rightarrow> t)"

end
