(* ===== verification/CodexProps.thy ===== *)
theory CodexProps
  imports CodexBlocks
begin

section \<open>What the extraction of Codex blocks guarantees\<close>

text \<open>
  Calls and their outputs are fused by call id wherever they stand in the rollout, and the
  blocks come in the order of their records. The description below does not use the scan of
  the code: the outputs are a list of pairs of which the last one with the id counts.
\<close>

definition output_of :: "CodexRecord \<Rightarrow> (gostring \<times> gostring) option" where
  "output_of r =
     (if cr_Type r = ''response_item'' \<and> payload_type (cr_Payload r) = Some ''function_call_output''
         \<and> \<not> snd (payload_output (cr_Payload r)) \<and> fo_CallID (fst (payload_output (cr_Payload r))) \<noteq> []
      then Some (fo_CallID (fst (payload_output (cr_Payload r))),
                 flattenFunctionOutput (fo_Output (fst (payload_output (cr_Payload r)))))
      else None)"

definition outputs :: "CodexRecord list \<Rightarrow> (gostring \<times> gostring) list" where
  "outputs rs = List.map_filter output_of rs"

definition last_output :: "(gostring \<times> gostring) list \<Rightarrow> gostring \<Rightarrow> functionResult option" where
  "last_output outs cid = map_option (\<lambda>o1. \<lparr>fr_Output = o1, fr_IsError = False\<rparr>) (map_of (rev outs) cid)"

lemma map_filter_Cons: "List.map_filter f (x # xs) = (case f x of None \<Rightarrow> [] | Some y \<Rightarrow> [y]) @ List.map_filter f xs"
  by (simp add: List.map_filter_def split: option.split)

lemma map_filter_Nil [simp]: "List.map_filter f [] = []"
  by (simp add: List.map_filter_def)

lemma index_output_eq:
  "index_output r m =
     (case output_of r of None \<Rightarrow> m | Some (cid, t) \<Rightarrow> m(cid \<mapsto> \<lparr>fr_Output = t, fr_IsError = False\<rparr>))"
  by (cases "payload_output (cr_Payload r)") (auto simp: index_output_def output_of_def)

lemma last_output_snoc:
  "last_output (outs @ [(cid, t)]) = (last_output outs)(cid \<mapsto> \<lparr>fr_Output = t, fr_IsError = False\<rparr>)"
  by (rule ext) (simp add: last_output_def)

lemma index_outputs_acc:
  "fold index_output rs (last_output outs) = last_output (outs @ outputs rs)"
proof (induction rs arbitrary: outs)
  case (Cons r rs)
  show ?case
  proof (cases "output_of r")
    case None
    then show ?thesis using Cons.IH[of outs] by (simp add: index_output_eq outputs_def map_filter_Cons)
  next
    case (Some p)
    obtain cid t where p: "p = (cid, t)" by fastforce
    then show ?thesis
      using Some Cons.IH[of "outs @ [p]"]
      by (simp add: index_output_eq outputs_def map_filter_Cons last_output_snoc fun_upd_def)
  qed
qed (simp add: outputs_def)

lemma index_outputs: "indexFunctionOutputs rs = last_output (outputs rs)"
proof -
  have "last_output [] = Map.empty" by (simp add: last_output_def fun_eq_iff)
  then show ?thesis using index_outputs_acc[of rs "[]"] by (simp add: indexFunctionOutputs_def)
qed

definition item_record :: "CodexRecord \<Rightarrow> bool" where
  "item_record r \<longleftrightarrow> cr_Type r = ''response_item''"

lemma session_meta_blocks [simp]: "sb_Blocks (session_meta r out) = sb_Blocks out"
  by (simp add: session_meta_def Let_def split: prod.split)

lemma codex_step_blocks:
  "sb_Blocks (codex_step results r out) =
     sb_Blocks out @ (if item_record r then (case item_block results r of None \<Rightarrow> [] | Some b \<Rightarrow> [b]) else [])"
  by (simp add: codex_step_def item_record_def split: option.split)

lemma codex_fold_blocks:
  "sb_Blocks (fold (codex_step results) rs out) = sb_Blocks out @ List.map_filter (item_block results) (filter item_record rs)"
  by (induction rs arbitrary: out) (auto simp: codex_step_blocks map_filter_Cons split: option.split)

text \<open>
  What a record shows, said without the functions that build blocks: the text of a message or of
  a reasoning summary with its kind; or a call, with the output that belongs to it.
\<close>

definition spoken :: "CodexRecord \<Rightarrow> (BlockKind \<times> gostring) option" where
  "spoken r =
     (if payload_type (cr_Payload r) = Some ''message''
      then (let m = fst (payload_message (cr_Payload r)); t = flattenMessageContent (pm_Content m) in
        if snd (payload_message (cr_Payload r)) \<or> t = [] then None
        else if pm_Role m = ''user'' \<and> \<not> list_ex (HasPrefix (TrimSpace t)) noisePrefixes then Some (BlockUserMessage, t)
        else if pm_Role m = ''assistant'' then Some (BlockAssistantText, t)
        else None)
      else if payload_type (cr_Payload r) = Some ''reasoning''
      then (let m = unmarshal_struct
              [(''type'', str_field (\<lambda>s. pr_Type_update (\<lambda>_. s))),
               (''summary'', slice_field part_fields empty_part (\<lambda>ps. pr_Summary_update (\<lambda>_. ps)))]
              \<lparr>pr_Type = [], pr_Summary = []\<rparr> (cr_Payload r);
            t = flattenReasoning (pr_Summary (fst m)) in
        if snd m \<or> t = [] then None else Some (BlockThinking, t))
      else None)"

definition is_call :: "CodexRecord \<Rightarrow> bool" where
  "is_call r \<longleftrightarrow> payload_type (cr_Payload r) = Some ''function_call'' \<and> \<not> snd (payload_call (cr_Payload r))"

definition results_for :: "CodexRecord list \<Rightarrow> gostring \<Rightarrow> gostring list" where
  "results_for rs cid = map snd (filter (\<lambda>p. fst p = cid) (outputs rs))"

definition call_shown :: "CodexRecord list \<Rightarrow> CodexRecord \<Rightarrow> Block \<Rightarrow> bool" where
  "call_shown rs r b \<longleftrightarrow>
     (let c = fst (payload_call (cr_Payload r)); outs = results_for rs (fc_CallID c) in
      bl_Kind b = BlockToolCall \<and> bl_Timestamp b = cr_Timestamp r \<and> bl_ID b = fc_CallID c \<and>
      bl_Tool b = (if fc_Name c = [] then ''Unknown'' else fc_Name c) \<and>
      bl_Input b = normalizeArguments (fc_Arguments c) \<and> bl_Text b = [] \<and> \<not> bl_IsError b \<and>
      (bl_HasResult b \<longleftrightarrow> outs \<noteq> []) \<and> bl_Result b = (if outs = [] then [] else last outs))"

definition item_shown :: "CodexRecord list \<Rightarrow> CodexRecord \<Rightarrow> Block \<Rightarrow> bool" where
  "item_shown rs r b \<longleftrightarrow>
     (if is_call r then call_shown rs r b
      else spoken r = Some (bl_Kind b, bl_Text b) \<and> bl_Timestamp b = cr_Timestamp r \<and> \<not> bl_HasResult b \<and> bl_Result b = [])"

definition shows_something :: "CodexRecord \<Rightarrow> bool" where
  "shows_something r \<longleftrightarrow> cr_Type r = ''response_item'' \<and> (is_call r \<or> spoken r \<noteq> None)"

lemma map_of_rev_last: "map_of (rev ps) k = (let vs = map snd (filter (\<lambda>p. fst p = k) ps) in if vs = [] then None else Some (last vs))"
  by (induction ps rule: rev_induct) (auto simp: Let_def)

lemma last_output_results:
  "last_output (outputs rs) cid =
     (let outs = results_for rs cid in if outs = [] then None else Some \<lparr>fr_Output = last outs, fr_IsError = False\<rparr>)"
  by (simp add: last_output_def results_for_def map_of_rev_last Let_def)

lemma message_spoken:
  "payload_type (cr_Payload r) = Some ''message'' \<Longrightarrow> messageBlock r = map_option (\<lambda>(k, t). codex_text_block k r t) (spoken r)"
  by (cases "payload_message (cr_Payload r)") (auto simp: messageBlock_def spoken_def is_noise_def Let_def)

lemma reasoning_spoken:
  "payload_type (cr_Payload r) = Some ''reasoning'' \<Longrightarrow> reasoningBlock r = map_option (\<lambda>(k, t). codex_text_block k r t) (spoken r)"
  by (auto simp: reasoningBlock_def spoken_def Let_def split: prod.splits)

lemma item_spoken:
  assumes "\<not> is_call r"
  shows "item_block results r = map_option (\<lambda>(k, t). codex_text_block k r t) (spoken r)"
proof (cases "payload_type (cr_Payload r)")
  case (Some t)
  consider "t = ''message''" | "t = ''reasoning''" | "t = ''function_call''"
    | "t \<noteq> ''message''" "t \<noteq> ''reasoning''" "t \<noteq> ''function_call''" by blast
  then show ?thesis
  proof cases
    case 3
    then have "snd (payload_call (cr_Payload r))" using assms Some by (simp add: is_call_def)
    then show ?thesis using 3 Some
      by (cases "payload_call (cr_Payload r)") (simp add: item_block_def functionCallBlock_def spoken_def)
  qed (use Some in \<open>simp_all add: item_block_def message_spoken reasoning_spoken spoken_def\<close>)
qed (simp add: item_block_def spoken_def)

lemma item_call:
  assumes "is_call r"
  obtains b where "item_block (last_output (outputs rs)) r = Some b" "call_shown rs r b"
  using assms
  by (cases "payload_call (cr_Payload r)")
    (auto simp: is_call_def item_block_def functionCallBlock_def call_shown_def last_output_results blank_block_def
      defaultIfEmpty_def Let_def)

lemma item_block_shown:
  "(case item_block (last_output (outputs rs)) r of
      None \<Rightarrow> \<not> is_call r \<and> spoken r = None
    | Some b \<Rightarrow> (is_call r \<or> spoken r \<noteq> None) \<and> item_shown rs r b)"
proof (cases "is_call r")
  case True
  then obtain b where "item_block (last_output (outputs rs)) r = Some b" "call_shown rs r b" by (rule item_call)
  then show ?thesis using True by (simp add: item_shown_def)
next
  case False
  then show ?thesis
    by (auto simp: item_spoken item_shown_def codex_text_block_def blank_block_def split: option.split)
qed

text \<open>
  C33. A rollout becomes one block per message, reasoning summary or function call that has
  something to show, in the order of the records, with the kind, the text and the time of its
  record. A function call shows its name (or Unknown), its id, its arguments and the output of the
  last output record with its call id, before or after the call, and has no result when there is
  none. Everything else in the file leaves the blocks alone.
\<close>

theorem codex_blocks_fused:
  "list_all2 (item_shown (codex_records file)) (filter shows_something (codex_records file)) (sb_Blocks (codex_ExtractBlocks file))"
proof -
  let ?rs = "codex_records file"
  have "list_all2 (item_shown ?rs) (filter shows_something qs)
      (List.map_filter (item_block (last_output (outputs ?rs))) (filter item_record qs))" for qs
  proof (induction qs)
    case (Cons q qs)
    then show ?case using item_block_shown[where rs = ?rs and r = q]
      by (auto simp: shows_something_def item_record_def map_filter_Cons split: option.splits)
  qed simp
  then show ?thesis by (simp add: codex_ExtractBlocks_def codex_fold_blocks index_outputs Let_def)
qed

subsection \<open>What is shown of a message\<close>

text \<open>The injected messages at the start of a session are never shown as the user's.\<close>

lemma noise_never_shown: "messageBlock r = Some b \<Longrightarrow> bl_Kind b = BlockUserMessage \<Longrightarrow> \<not> is_noise (bl_Text b)"
  by (auto simp: messageBlock_def codex_text_block_def blank_block_def Let_def split: prod.splits if_splits)

text \<open>The input of a call is a JSON document or absent, whatever the rollout says.\<close>

lemma unmarshal_valid: "\<not> snd (unmarshal_string raw) \<Longrightarrow> json_valid raw"
  by (cases "parse_json raw") (simp_all add: unmarshal_string_def json_valid_def)

lemma normalized_arguments:
  "normalizeArguments raw = [] \<or> json_valid (normalizeArguments raw) \<or>
   (\<exists>s. normalizeArguments raw = marshal (go_map [(''_raw'', GStr s)]))"
  by (auto simp: normalizeArguments_def Let_def split: prod.splits if_splits)

end
