(* ===== verification/GoPath.thy ===== *)
theory GoPath
  imports GoStrings
begin

section \<open>Paths\<close>

text \<open>
  The part of \<open>path/filepath\<close> the daemon uses, with the rules of Unix (separator \<open>/\<close>, list
  separator \<open>:\<close>); the branches of the code for Windows are outside the model.
\<close>

abbreviation SLASH :: char where "SLASH \<equiv> CHR ''/''"

definition IsAbs :: "gostring \<Rightarrow> bool" where "IsAbs p = HasPrefix p ''/''"

text \<open>
  \<open>Clean\<close>: empty and \<open>.\<close> elements go, \<open>..\<close> removes the element before it, at the root it
  goes, and at the start of a relative path it stays. The stack holds the result reversed.
\<close>

fun clean_elems :: "bool \<Rightarrow> gostring list \<Rightarrow> gostring list \<Rightarrow> gostring list" where
  "clean_elems rooted stack [] = rev stack"
| "clean_elems rooted stack (e # es) =
     (if e = [] \<or> e = ''.'' then clean_elems rooted stack es
      else if e = ''..'' then
        (case stack of
           [] \<Rightarrow> clean_elems rooted (if rooted then [] else [e]) es
         | t # st \<Rightarrow> clean_elems rooted (if t = ''..'' then e # stack else st) es)
      else clean_elems rooted (e # stack) es)"

definition Clean :: "gostring \<Rightarrow> gostring" where
  "Clean p =
     (let rooted = IsAbs p; es = clean_elems rooted [] (split_byte SLASH p); body = Join es ''/'' in
      if rooted then ''/'' @ body else if body = [] then ''.'' else body)"

text \<open>\<open>Join\<close>: the non-empty elements joined and cleaned.\<close>

definition PathJoin :: "gostring list \<Rightarrow> gostring" where
  "PathJoin es = (let xs = filter (\<lambda>e. e \<noteq> []) es in if xs = [] then [] else Clean (Join xs ''/''))"

definition SplitList :: "gostring \<Rightarrow> gostring list" where
  "SplitList p = (if p = [] then [] else split_byte (CHR '':'') p)"

definition strip_slashes :: "gostring \<Rightarrow> gostring" where
  "strip_slashes p = TrimRight p ''/''"

text \<open>\<open>Base\<close>: the last element.\<close>

definition Base :: "gostring \<Rightarrow> gostring" where
  "Base p =
     (if p = [] then ''.''
      else let s = strip_slashes p; b = last (split_byte SLASH s) in if b = [] then ''/'' else b)"

subsection \<open>Cleaning is idempotent\<close>

lemma split_byte_no_sep: "f \<in> set (split_byte d s) \<Longrightarrow> d \<notin> set f"
proof (induction s arbitrary: f)
  case (Cons c s)
  then show ?case by (auto split: if_splits list.splits)
qed simp

lemma split_byte_id: "d \<notin> set f \<Longrightarrow> split_byte d f = [f]"
  by (induction f) auto

lemma split_byte_sep: "d \<notin> set f \<Longrightarrow> split_byte d (f @ d # s) = f # split_byte d s"
  by (induction f) auto

lemma split_byte_Join:
  assumes "es \<noteq> []" "\<forall>e\<in>set es. d \<notin> set e"
  shows "split_byte d (Join es [d]) = es"
  using assms by (induction es "[d]" rule: Join.induct) (auto simp: split_byte_id split_byte_sep)

lemma split_byte_nonempty [simp]: "split_byte d s \<noteq> []"
  by (induction s) (auto split: list.splits)

lemma split_byte_append: "split_byte d (s @ d # t) = split_byte d s @ split_byte d t"
  by (induction s) (auto split: list.splits)

text \<open>An element list that is already clean.\<close>

definition plain :: "gostring \<Rightarrow> bool" where "plain e \<longleftrightarrow> e \<noteq> [] \<and> e \<noteq> ''.'' \<and> e \<noteq> ''..''"

definition clean_list :: "bool \<Rightarrow> gostring list \<Rightarrow> bool" where
  "clean_list rooted es \<longleftrightarrow> (\<exists>n xs. es = replicate n ''..'' @ xs \<and> list_all plain xs \<and> (rooted \<longrightarrow> n = 0))"

lemma clean_list_Nil: "clean_list rooted []"
  unfolding clean_list_def by (intro exI[of _ 0] exI[of _ "[]"]) simp

lemma clean_list_snoc_plain: "clean_list rooted es \<Longrightarrow> plain e \<Longrightarrow> clean_list rooted (es @ [e])"
proof -
  assume "clean_list rooted es" "plain e"
  then obtain n xs where "es = replicate n ''..'' @ xs" "list_all plain xs" "rooted \<longrightarrow> n = 0"
    unfolding clean_list_def by blast
  with \<open>plain e\<close> have "es @ [e] = replicate n ''..'' @ (xs @ [e]) \<and> list_all plain (xs @ [e]) \<and> (rooted \<longrightarrow> n = 0)" by simp
  then show ?thesis unfolding clean_list_def by blast
qed

lemma clean_list_snoc_up: "clean_list False (replicate n ''..'' @ [''..''])"
  unfolding clean_list_def
  by (intro exI[of _ "Suc n"] exI[of _ "[]"]) (simp add: replicate_append_same)

lemma clean_list_butlast:
  assumes "clean_list rooted (es @ [e])" "e \<noteq> ''..''"
  shows "clean_list rooted es"
proof -
  obtain n xs where x: "es @ [e] = replicate n ''..'' @ xs" "list_all plain xs" "rooted \<longrightarrow> n = 0"
    using assms(1) unfolding clean_list_def by blast
  show ?thesis
  proof (cases xs rule: rev_cases)
    case Nil
    with x(1) have "e \<in> set (replicate n ''..'')" by (metis append_Nil2 in_set_conv_decomp)
    with assms(2) show ?thesis by auto
  next
    case (snoc ys y)
    with x have "es = replicate n ''..'' @ ys" "list_all plain ys" by simp_all
    with x(3) show ?thesis unfolding clean_list_def by blast
  qed
qed

lemma clean_list_all_up:
  assumes "clean_list rooted (es @ [''..''])"
  shows "\<not> rooted \<and> (\<exists>n. es = replicate n ''..'')"
proof -
  obtain n xs where x: "es @ [''..''] = replicate n ''..'' @ xs" "list_all plain xs" "rooted \<longrightarrow> n = 0"
    using assms unfolding clean_list_def by blast
  have "xs = []"
  proof (cases xs rule: rev_cases)
    case (snoc ys y)
    with x show ?thesis by (simp add: plain_def)
  qed
  with x have e: "es @ [''..''] = replicate n ''..''" by simp
  then obtain k where "n = Suc k" by (cases n) auto
  with e have "es = replicate k ''..''" by (simp add: replicate_append_same[symmetric])
  with x(3) \<open>n = Suc k\<close> show ?thesis by blast
qed

lemma clean_elems_list: "clean_list rooted (rev stack) \<Longrightarrow> clean_list rooted (clean_elems rooted stack es)"
proof (induction rooted stack es rule: clean_elems.induct)
  case (2 rooted stack e es)
  show ?case
  proof (cases "e = [] \<or> e = ''.''")
    case True
    then show ?thesis using 2 by auto
  next
    case False
    show ?thesis
    proof (cases "e = ''..''")
      case up: True
      show ?thesis
      proof (cases stack)
        case Nil
        then show ?thesis
          using False up 2 clean_list_Nil[of rooted] clean_list_snoc_up[of 0] by (cases rooted) auto
      next
        case (Cons t st)
        show ?thesis
        proof (cases "t = ''..''")
          case True
          then obtain n where "\<not> rooted" "rev st = replicate n ''..''"
            using clean_list_all_up[of rooted "rev st"] 2(5) Cons by auto
          then have "clean_list rooted (rev (e # stack))"
            using clean_list_snoc_up[of "Suc n"] up True Cons by (simp add: replicate_append_same)
          then show ?thesis using 2(3)[OF False up Cons] False up Cons True by simp
        next
          case down: False
          then have "clean_list rooted (rev st)" using clean_list_butlast[of rooted "rev st" t] 2(5) Cons by simp
          then show ?thesis using 2(3)[OF False up Cons] False up Cons down by simp
        qed
      qed
    next
      case plain: False
      then have "clean_list rooted (rev (e # stack))"
        using False 2(5) clean_list_snoc_plain[of rooted "rev stack" e] by (simp add: plain_def)
      then show ?thesis using 2(4)[OF False plain] False plain by simp
    qed
  qed
qed simp

lemma clean_elems_ups: "clean_elems False (replicate k ''..'') (replicate n ''..'' @ xs) = clean_elems False (replicate (n + k) ''..'') xs"
proof (induction n arbitrary: k)
  case (Suc n)
  have "clean_elems False (replicate k ''..'') (''..'' # es) = clean_elems False (replicate (Suc k) ''..'') es" for es
    by (cases k) auto
  with Suc.IH[of "Suc k"] show ?case by simp
qed simp

lemma clean_elems_plain: "list_all plain xs \<Longrightarrow> clean_elems rooted stack xs = rev stack @ xs"
  by (induction xs arbitrary: stack) (auto simp: plain_def)

lemma clean_elems_id: "clean_list rooted es \<Longrightarrow> clean_elems rooted [] es = es"
proof -
  assume "clean_list rooted es"
  then obtain n xs where x: "es = replicate n ''..'' @ xs" "list_all plain xs" "rooted \<longrightarrow> n = 0"
    unfolding clean_list_def by blast
  show ?thesis
  proof (cases rooted)
    case True
    with x show ?thesis by (simp add: clean_elems_plain)
  next
    case False
    with x show ?thesis using clean_elems_ups[of 0 n xs] by (simp add: clean_elems_plain)
  qed
qed

lemma set_clean_elems: "set (clean_elems rooted stack es) \<subseteq> set stack \<union> set es"
proof (induction rooted stack es rule: clean_elems.induct)
  case (2 rooted stack e es)
  consider "e = [] \<or> e = ''.''" | "e \<noteq> []" "e \<noteq> ''.''" "e = ''..''" | "e \<noteq> []" "e \<noteq> ''.''" "e \<noteq> ''..''" by blast
  then show ?case
  proof cases
    case 1
    with 2(1) show ?thesis by auto
  next
    case e: 2
    show ?thesis
    proof (cases stack)
      case Nil
      with 2(2) e show ?thesis by (cases rooted) auto
    next
      case (Cons t st)
      with 2(3)[OF _ e(3) Cons] e show ?thesis by (cases "t = ''..''") auto
    qed
  next
    case e: 3
    with 2(4) show ?thesis by auto
  qed
qed simp

lemma clean_list_nonempty: "clean_list rooted es \<Longrightarrow> e \<in> set es \<Longrightarrow> e \<noteq> []"
proof -
  assume "clean_list rooted es" and e: "e \<in> set es"
  then obtain n xs where x: "es = replicate n ''..'' @ xs" "list_all plain xs" unfolding clean_list_def by blast
  have "\<forall>x\<in>set xs. plain x" using x(2) by (simp add: list_all_iff)
  moreover have "e = ''..'' \<or> e \<in> set xs" using e x(1) by (cases n) auto
  ultimately show ?thesis by (auto simp: plain_def)
qed

lemma Join_Cons: "\<exists>t. Join (e # es) sep = e @ t"
  by (cases es) auto

lemma Join_eq_Nil: "\<forall>e\<in>set es. e \<noteq> [] \<Longrightarrow> (Join es sep = []) = (es = [])"
  using Join_Cons[of "hd es" "tl es" sep] by (cases es) auto

lemma hd_Join: "es \<noteq> [] \<Longrightarrow> hd es \<noteq> [] \<Longrightarrow> hd (Join es sep) = hd (hd es)"
  using Join_Cons[of "hd es" "tl es" sep] by (cases es) auto

lemma Clean_idem: "Clean (Clean p) = Clean p"
proof -
  let ?r = "IsAbs p" let ?es = "clean_elems ?r [] (split_byte SLASH p)"
  have c: "clean_list ?r ?es" by (rule clean_elems_list) (simp add: clean_list_Nil)
  have ns: "\<forall>e\<in>set ?es. SLASH \<notin> set e"
  proof
    fix e assume "e \<in> set ?es"
    then have "e \<in> set (split_byte SLASH p)" using set_clean_elems[of ?r "[]" "split_byte SLASH p"] by fastforce
    then show "SLASH \<notin> set e" by (rule split_byte_no_sep)
  qed
  have ne: "\<forall>e\<in>set ?es. e \<noteq> []" using clean_list_nonempty[OF c] by blast
  have s: "?es \<noteq> [] \<Longrightarrow> split_byte SLASH (Join ?es ''/'') = ?es" using split_byte_Join[of ?es SLASH] ns by simp
  show ?thesis
  proof (cases ?r)
    case True
    have "clean_elems True [] (split_byte SLASH (''/'' @ Join ?es ''/'')) = ?es"
      using s c clean_elems_id[of True ?es] True by (cases "?es = []") auto
    then show ?thesis using True by (simp add: Clean_def IsAbs_def HasPrefix_def Let_def)
  next
    case False
    show ?thesis
    proof (cases "?es = []")
      case True
      then show ?thesis using False by (simp add: Clean_def Let_def IsAbs_def HasPrefix_def)
    next
      case es: False
      have "Join ?es ''/'' \<noteq> []" using es ne Join_eq_Nil by blast
      moreover have "hd (Join ?es ''/'') \<noteq> SLASH"
        using hd_Join[OF es, of "''/''"] ne ns es by (metis hd_in_set)
      ultimately have "\<not> IsAbs (Join ?es ''/'')"
        by (cases "Join ?es ''/''") (auto simp: IsAbs_def HasPrefix_def)
      then show ?thesis
        using False es s c clean_elems_id[of False ?es] \<open>Join ?es ''/'' \<noteq> []\<close> by (simp add: Clean_def Let_def)
    qed
  qed
qed

end
