(* ===== verification/Launch.thy ===== *)
theory Launch
  imports GoJson GoPath "HOL-Library.Multiset"
begin

section \<open>Finding and starting the agents\<close>

text \<open>
  \<open>daemon/internal/agentexec/resolve.go\<close> and \<open>daemon/internal/claudelauncher/launcher.go\<close>:
  where an agent's executable is looked for, how the launcher of Claude is configured and
  the environment it gets. The file system is an argument: which paths are executable files,
  which pairs of paths are the same file, the content of the settings file; so are the
  environment variables, the home directory of the user database and the operating system.
\<close>

subsection \<open>Looking for an executable\<close>

record exec_world =
  ew_getenv :: "gostring \<Rightarrow> gostring"
  ew_home :: "gostring option"
  ew_goos :: gostring
  ew_executable :: "gostring \<Rightarrow> bool"
  ew_same :: "gostring \<Rightarrow> gostring \<Rightarrow> bool"

record exec_result =
  xr_Path :: gostring
  xr_Source :: gostring

fun dedup_acc :: "gostring list \<Rightarrow> gostring list \<Rightarrow> gostring list" where
  "dedup_acc seen [] = []"
| "dedup_acc seen (d # ds) =
     (let dir = TrimSpace d in
      if dir = [] then dedup_acc seen ds
      else let cl = Clean dir in
        if cl \<in> set seen then dedup_acc seen ds else cl # dedup_acc (cl # seen) ds)"

definition dedupDirs :: "gostring list \<Rightarrow> gostring list" where
  "dedupDirs dirs = dedup_acc [] dirs"

definition exec_home :: "exec_world \<Rightarrow> gostring" where
  "exec_home w =
     (let h = TrimSpace (ew_getenv w ''HOME'') in
      if h \<noteq> [] then h else case ew_home w of Some r \<Rightarrow> r | None \<Rightarrow> [])"

definition CommonDirs :: "exec_world \<Rightarrow> gostring list" where
  "CommonDirs w =
     (let home = exec_home w;
          hd1 = (if home = [] then []
                 else [PathJoin [home, ''.local'', ''bin''], PathJoin [home, ''bin''], PathJoin [home, ''.bin''],
                       PathJoin [home, ''.npm-global'', ''bin''], PathJoin [home, ''.bun'', ''bin'']]);
          sys = (if ew_goos w = ''darwin'' then [''/opt/homebrew/bin'', ''/usr/local/bin'', ''/usr/bin'', ''/bin'']
                 else if ew_goos w = ''linux'' then [''/usr/local/bin'', ''/usr/bin'', ''/bin'', ''/snap/bin''] else [])
      in dedupDirs (hd1 @ sys))"

definition SearchPath :: "exec_world \<Rightarrow> gostring \<Rightarrow> gostring" where
  "SearchPath w pathEnv = Join (dedupDirs (SplitList pathEnv @ CommonDirs w)) '':''"

definition samePath :: "exec_world \<Rightarrow> gostring \<Rightarrow> gostring \<Rightarrow> bool" where
  "samePath w a b \<longleftrightarrow> a \<noteq> [] \<and> b \<noteq> [] \<and> ew_same w a b"

definition exec_candidate :: "gostring \<Rightarrow> gostring \<Rightarrow> gostring" where
  "exec_candidate dir name = PathJoin [if dir = [] then ''.'' else dir, name]"

definition Resolve :: "exec_world \<Rightarrow> gostring \<Rightarrow> gostring \<Rightarrow> gostring \<Rightarrow> exec_result option" where
  "Resolve w name pathEnv selfPath =
     (if TrimSpace name = [] then None
      else case find (\<lambda>dir. ew_executable w (exec_candidate dir name) \<and> \<not> samePath w (exec_candidate dir name) selfPath)
                  (SplitList (SearchPath w pathEnv)) of
        None \<Rightarrow> None
      | Some dir \<Rightarrow>
          Some \<lparr>xr_Path = exec_candidate dir name,
            xr_Source = (if (if dir = [] then ''.'' else dir) \<in> set (dedupDirs (SplitList pathEnv)) then ''path'' else ''common_path'')\<rparr>)"

subsection \<open>The launcher of Claude\<close>

definition RealClaudeEnv :: gostring where "RealClaudeEnv = ''POCKLY_REAL_CLAUDE''"
definition LauncherJSONEnv :: gostring where "LauncherJSONEnv = ''POCKLY_CLAUDE_LAUNCHER_JSON''"
definition SettingsEnvSource :: gostring where "SettingsEnvSource = ''claude_settings_env''"

record CommandSpec =
  cs_Path :: gostring
  cs_PrefixArgs :: "gostring list"
  cs_Source :: gostring

datatype launch_error = ErrLauncherJSON | ErrLauncherEmpty | ErrLauncherResolve | ErrEmptyPath | ErrSelf | ErrNotInPath

definition spec_Args :: "CommandSpec \<Rightarrow> gostring list \<Rightarrow> gostring list" where
  "spec_Args s args = cs_PrefixArgs s @ args"

definition LauncherArgCount :: "CommandSpec \<Rightarrow> nat" where
  "LauncherArgCount s = length (cs_PrefixArgs s)"

definition commandFromPath :: "exec_world \<Rightarrow> gostring \<Rightarrow> gostring list \<Rightarrow> gostring \<Rightarrow> gostring \<Rightarrow> launch_error + CommandSpec" where
  "commandFromPath w path prefix source selfPath =
     (if TrimSpace path = [] then Inl ErrEmptyPath
      else if samePath w path selfPath then Inl ErrSelf
      else Inr \<lparr>cs_Path = path, cs_PrefixArgs = prefix, cs_Source = source\<rparr>)"

definition hasPathSeparator :: "gostring \<Rightarrow> bool" where
  "hasPathSeparator path \<longleftrightarrow> SLASH \<in> set path"

text \<open>A JSON array of strings; \<open>null\<close> elements are empty strings.\<close>

definition string_array :: "gostring \<Rightarrow> gostring list option" where
  "string_array raw =
     (case parse_json raw of
        Some JNull \<Rightarrow> Some []
      | Some (JArr es) \<Rightarrow>
          (let ds = map (\<lambda>(r, v). str_field (\<lambda>s _. s) r v []) es in
           if list_ex snd ds then None else Some (map fst ds))
      | _ \<Rightarrow> None)"

definition parseLauncherJSON :: "exec_world \<Rightarrow> gostring \<Rightarrow> gostring \<Rightarrow> gostring \<Rightarrow> launch_error + CommandSpec" where
  "parseLauncherJSON w raw selfPath pathEnv =
     (case string_array raw of
        None \<Rightarrow> Inl ErrLauncherJSON
      | Some argv \<Rightarrow>
          (case filter (\<lambda>a. a \<noteq> []) (map TrimSpace argv) of
             [] \<Rightarrow> Inl ErrLauncherEmpty
           | path # rest \<Rightarrow>
               bind_sum (if hasPathSeparator path then Inr path
                         else case Resolve w path pathEnv selfPath of
                           None \<Rightarrow> Inl ErrLauncherResolve
                         | Some r \<Rightarrow> Inr (xr_Path r))
                 (\<lambda>p. commandFromPath w p rest LauncherJSONEnv selfPath)))"

definition ResolveWithEnv :: "exec_world \<Rightarrow> gostring \<Rightarrow> gostring \<Rightarrow> gostring \<Rightarrow> launch_error + CommandSpec" where
  "ResolveWithEnv w explicit selfPath pathEnv =
     (let e = TrimSpace explicit; rc = TrimSpace (ew_getenv w RealClaudeEnv); lj = TrimSpace (ew_getenv w LauncherJSONEnv) in
      if e \<noteq> [] then commandFromPath w e [] ''explicit'' selfPath
      else if rc \<noteq> [] then commandFromPath w rc [] RealClaudeEnv selfPath
      else if lj \<noteq> [] then parseLauncherJSON w lj selfPath pathEnv
      else case Resolve w ''claude'' pathEnv selfPath of
        None \<Rightarrow> Inl ErrNotInPath
      | Some r \<Rightarrow> Inr \<lparr>cs_Path = xr_Path r, cs_PrefixArgs = [], cs_Source = xr_Source r\<rparr>)"

subsection \<open>The environment\<close>

text \<open>
  \<open>ReadSettingsEnv\<close>: the \<open>env\<close> object of the settings file, \<open>Inl ()\<close> when it does not parse
  or cannot be read. \<open>sprint\<close> is \<open>fmt.Sprint\<close> of a value that is neither a string nor null.
  The map is unordered; the order here is that of the file.
\<close>

datatype settings_file = SettingsMissing | SettingsUnreadable | SettingsText gostring

definition env_member :: "(json \<Rightarrow> gostring) \<Rightarrow> gostring \<times> json \<Rightarrow> (gostring \<times> gostring) list \<Rightarrow> (gostring \<times> gostring) list" where
  "env_member sprint p out =
     (case p of (k0, v) \<Rightarrow>
        let key = TrimSpace k0 in
        if key = [] then out
        else (case v of JStr s \<Rightarrow> alist_put key s out | JNull \<Rightarrow> out | _ \<Rightarrow> alist_put key (sprint v) out))"

definition env_decoder :: "(gostring \<times> json) list decoder" where
  "env_decoder raw v r =
     (case v of
        JObj ms \<Rightarrow> (fold (\<lambda>(k, _, x). alist_put k x) ms r, False)
      | JNull \<Rightarrow> ([], False)
      | _ \<Rightarrow> (r, True))"

definition ReadSettingsEnv :: "(json \<Rightarrow> gostring) \<Rightarrow> settings_file \<Rightarrow> unit + (gostring \<times> gostring) list" where
  "ReadSettingsEnv sprint file =
     (case file of
        SettingsMissing \<Rightarrow> Inr []
      | SettingsUnreadable \<Rightarrow> Inl ()
      | SettingsText data \<Rightarrow>
          (case unmarshal_struct [(''env'', env_decoder)] [] data of
             (env, err) \<Rightarrow> if err then Inl () else Inr (fold (env_member sprint) env [])))"

definition set_env_item :: "gostring \<Rightarrow> gostring \<Rightarrow> gostring \<Rightarrow> gostring" where
  "set_env_item key value item = (if HasPrefix item (key @ ''='') then key @ ''='' @ value else item)"

definition setEnv :: "gostring list \<Rightarrow> gostring \<Rightarrow> gostring \<Rightarrow> gostring list" where
  "setEnv env key value =
     map (set_env_item key value) env @
     (if list_ex (\<lambda>item. HasPrefix item (key @ ''='')) env then [] else [key @ ''='' @ value])"

text \<open>The insertion sort of \<open>sortStrings\<close>: the element at \<open>i\<close> moves down while it is smaller.\<close>

fun sift_down :: "gostring list \<Rightarrow> nat \<Rightarrow> gostring list" where
  "sift_down xs 0 = xs"
| "sift_down xs (Suc j) =
     (if xs ! Suc j < xs ! j then sift_down (xs[Suc j := xs ! j, j := xs ! Suc j]) j else xs)"

definition sortStrings :: "gostring list \<Rightarrow> gostring list" where
  "sortStrings vs = fold (\<lambda>i xs. sift_down xs i) [1..<length vs] vs"

record EnvSnapshot =
  sn_Env :: "gostring list"
  sn_Keys :: "gostring list"
  sn_Error :: bool

definition launch_Env :: "(json \<Rightarrow> gostring) \<Rightarrow> settings_file \<Rightarrow> gostring list \<Rightarrow> EnvSnapshot" where
  "launch_Env sprint file base =
     (case ReadSettingsEnv sprint file of
        Inl _ \<Rightarrow> \<lparr>sn_Env = base, sn_Keys = [], sn_Error = True\<rparr>
      | Inr m \<Rightarrow> \<lparr>sn_Env = fold (\<lambda>(k, v) e. setEnv e k v) m base, sn_Keys = sortStrings (map fst m), sn_Error = False\<rparr>)"

subsection \<open>Laws\<close>

text \<open>The wrapper is never chosen as the agent it wraps.\<close>

lemma Resolve_not_self:
  assumes "Resolve w name pathEnv selfPath = Some r"
  shows "ew_executable w (xr_Path r)" "\<not> samePath w (xr_Path r) selfPath"
  using assms by (auto simp: Resolve_def find_Some_iff split: if_splits option.splits)

lemma commandFromPath_not_self: "commandFromPath w p pre src self = Inr c \<Longrightarrow> \<not> samePath w (cs_Path c) self"
  by (auto simp: commandFromPath_def split: if_splits)

lemma launcher_never_self: "ResolveWithEnv w explicit self pathEnv = Inr c \<Longrightarrow> \<not> samePath w (cs_Path c) self"
  by (auto simp: ResolveWithEnv_def parseLauncherJSON_def Let_def bind_sum_Inr_iff
      dest: commandFromPath_not_self Resolve_not_self(2) split: if_splits option.splits list.splits)

text \<open>The search path has no directory twice, and what was in it stays in front.\<close>

lemma dedup_acc_distinct: "distinct (dedup_acc seen ds) \<and> set (dedup_acc seen ds) \<inter> set seen = {}"
  by (induction seen ds rule: dedup_acc.induct) (auto simp: Let_def)

lemma set_env_present: "key @ ''='' @ value \<in> set (setEnv env key value)"
  by (auto simp: setEnv_def set_env_item_def list_ex_iff)

text \<open>After \<open>setEnv\<close> every entry of the key has the new value and the others are untouched.\<close>

lemma set_env_all: "item \<in> set (setEnv env key value) \<Longrightarrow> HasPrefix item (key @ ''='') \<Longrightarrow> item = key @ ''='' @ value"
  by (auto simp: setEnv_def set_env_item_def split: if_splits)

lemma set_env_others:
  "filter (\<lambda>i. \<not> HasPrefix i (key @ ''='')) (setEnv env key value) = filter (\<lambda>i. \<not> HasPrefix i (key @ ''='')) env"
proof -
  have p: "HasPrefix (key @ ''='' @ value) (key @ ''='')" by (simp add: HasPrefix_def)
  have "filter (\<lambda>i. \<not> HasPrefix i (key @ ''='')) (map (set_env_item key value) xs) = filter (\<lambda>i. \<not> HasPrefix i (key @ ''='')) xs" for xs
    using p by (induction xs) (auto simp: set_env_item_def)
  then show ?thesis using p by (simp add: setEnv_def)
qed

subsection \<open>The sort is a sort\<close>

lemma length_sift_down [simp]: "length (sift_down xs j) = length xs"
  by (induction xs j rule: sift_down.induct) auto

text \<open>Sifting down the last element of a prefix whose other elements are sorted inserts it.\<close>

lemma sift_down_insort:
  "j = length xs \<Longrightarrow> sorted xs \<Longrightarrow> sift_down (xs @ x # ys) j = insort x xs @ ys"
proof (induction j arbitrary: xs ys)
  case 0
  then show ?case by simp
next
  case (Suc j)
  then obtain us u where us: "xs = us @ [u]" "length us = j" by (cases xs rule: rev_cases) auto
  have nth: "(xs @ x # ys) ! Suc j = x" "(xs @ x # ys) ! j = u" using us by (simp_all add: nth_append)
  have s: "sorted us" "\<forall>y\<in>set us. y \<le> u" using Suc.prems(2) us by (auto simp: sorted_append)
  show ?case
  proof (cases "x < u")
    case True
    have "(xs @ x # ys)[Suc j := u, j := x] = us @ x # u # ys"
      using us by (simp add: list_update_append)
    moreover have "insort x (us @ [u]) = insort x us @ [u]"
      using True s by (induction us) auto
    ultimately show ?thesis using True nth Suc.IH[OF us(2)[symmetric] s(1), of "u # ys"] us by simp
  next
    case False
    have "insort x (us @ [u]) = (us @ [u]) @ [x]"
      using False s by (intro sorted_insort_is_snoc) (auto simp: sorted_append not_less)
    then show ?thesis using False nth us by simp
  qed
qed

lemma sortStrings_prefix:
  "n \<le> length xs \<Longrightarrow> fold (\<lambda>i ys. sift_down ys i) [1..<n] xs = sort (take n xs) @ drop n xs"
proof (induction n)
  case (Suc n)
  show ?case
  proof (cases n)
    case 0
    then show ?thesis using Suc.prems by (cases xs) auto
  next
    case (Suc k)
    then have n: "1 \<le> n" by simp
    have d: "drop n xs = xs ! n # drop (Suc n) xs" using Suc.prems by (simp add: Cons_nth_drop_Suc)
    have "fold (\<lambda>i ys. sift_down ys i) [1..<Suc n] xs = sift_down (sort (take n xs) @ drop n xs) n"
      using Suc.IH Suc.prems n by (simp add: upt_Suc_append)
    also have "\<dots> = insort (xs ! n) (sort (take n xs)) @ drop (Suc n) xs"
      unfolding d using Suc.prems by (intro sift_down_insort) simp_all
    also have "insort (xs ! n) (sort (take n xs)) = sort (take (Suc n) xs)"
      using Suc.prems by (intro properties_for_sort[symmetric]) (simp_all add: take_Suc_conv_app_nth sorted_insort)
    finally show ?thesis .
  qed
qed simp

lemma sortStrings_sort: "sortStrings vs = sort vs"
  using sortStrings_prefix[of "length vs" vs] by (simp add: sortStrings_def)

end
