(* ===== verification/AgentSettings.thy ===== *)
theory AgentSettings
  imports Launch Manager
begin

section \<open>Agent settings\<close>

text \<open>
  \<open>daemon/internal/agentsettings/store.go\<close> and \<open>cli_models.go\<close>: the model, permission mode
  and effort of each terminal session, what the menus offer, and \<open>Apply\<close>, which types the
  change into the running agent. The configuration files and the environment are an argument;
  so is the answer of the installed command line program. \<open>Apply\<close> holds the terminal's lock
  for its whole length; the steps of other goroutines on the session between two keys are
  not in the model.
\<close>

record Settings =
  st_Model :: gostring
  st_ResolvedModel :: gostring
  st_PermissionMode :: gostring
  st_Effort :: gostring

definition no_settings :: Settings where
  "no_settings = \<lparr>st_Model = [], st_ResolvedModel = [], st_PermissionMode = [], st_Effort = []\<rparr>"

record ModelOption =
  mo_Value :: gostring
  mo_Label :: gostring
  mo_ResolvedModel :: gostring
  mo_Source :: gostring

record Snapshot =
  ss_Current :: Settings
  ss_Models :: "gostring list"
  ss_ModelOptions :: "ModelOption list"
  ss_PermissionModes :: "gostring list"
  ss_Efforts :: "gostring list"

definition PermDefault :: gostring where "PermDefault = ''default''"
definition PermAcceptEdits :: gostring where "PermAcceptEdits = ''acceptEdits''"
definition PermPlan :: gostring where "PermPlan = ''plan''"
definition PermAuto :: gostring where "PermAuto = ''auto''"
definition PermBypass :: gostring where "PermBypass = ''bypassPermissions''"
definition PermDontAsk :: gostring where "PermDontAsk = ''dontAsk''"

lemmas perm_modes = PermDefault_def PermAcceptEdits_def PermPlan_def PermAuto_def PermBypass_def PermDontAsk_def

definition nativePermissionModes :: "gostring list" where
  "nativePermissionModes = [PermDefault, PermAcceptEdits, PermPlan, PermAuto, PermBypass]"

definition cycleOrder :: "gostring list" where "cycleOrder = [PermDefault, PermAcceptEdits, PermPlan]"

definition EffortLevels :: "gostring list" where
  "EffortLevels = [''none'', ''low'', ''medium'', ''high'', ''xhigh'', ''max'']"

definition IsClaudeEffortLevel :: "gostring \<Rightarrow> bool" where
  "IsClaudeEffortLevel effort \<longleftrightarrow> TrimSpace effort \<in> {''low'', ''medium'', ''high'', ''xhigh'', ''max''}"

definition isKnownPermissionMode :: "gostring \<Rightarrow> bool" where
  "isKnownPermissionMode mode \<longleftrightarrow> mode = PermDontAsk \<or> mode \<in> set nativePermissionModes"

definition isRuntimeSwitchable :: "gostring \<Rightarrow> bool" where
  "isRuntimeSwitchable mode \<longleftrightarrow> mode \<in> set cycleOrder"

definition isKnownEffort :: "gostring \<Rightarrow> bool" where
  "isKnownEffort effort \<longleftrightarrow> effort \<in> set EffortLevels"

subsection \<open>The store\<close>

type_synonym settings_store = "gostring \<Rightarrow> Settings"

definition set_get :: "gostring \<Rightarrow> settings_store \<Rightarrow> Settings" where "set_get ts s = s ts"

definition Observe :: "gostring \<Rightarrow> gostring \<Rightarrow> gostring \<Rightarrow> settings_store \<Rightarrow> settings_store" where
  "Observe ts kind payload s =
     (if ts = [] \<or> kind = [] then s
      else if kind \<noteq> ''meta'' then s
      else let mode = TrimSpace payload in
        if \<not> isKnownPermissionMode mode then s
        else s(ts := (s ts)\<lparr>st_PermissionMode := mode\<rparr>))"

definition SetEffort :: "gostring \<Rightarrow> gostring \<Rightarrow> settings_store \<Rightarrow> settings_store" where
  "SetEffort ts effort s = s(ts := (s ts)\<lparr>st_Effort := effort\<rparr>)"

definition SetModel :: "gostring \<Rightarrow> gostring \<Rightarrow> settings_store \<Rightarrow> settings_store" where
  "SetModel ts model s = s(ts := (s ts)\<lparr>st_Model := model\<rparr>)"

definition SetPermissionMode :: "gostring \<Rightarrow> gostring \<Rightarrow> settings_store \<Rightarrow> settings_store" where
  "SetPermissionMode ts mode s = s(ts := (s ts)\<lparr>st_PermissionMode := mode\<rparr>)"

subsection \<open>The models on offer\<close>

text \<open>
  The world of the menu: environment variables, the environment of the settings file, the
  texts of the four configuration files (\<open>None\<close>: cannot be read) and the models the command
  line program lists.
\<close>

record menu_world =
  mw_getenv :: "gostring \<Rightarrow> gostring"
  mw_settingsEnv :: "gostring \<Rightarrow> gostring"
  mw_user_settings :: "gostring option"
  mw_home_json :: "gostring option"
  mw_project_json :: "gostring option"
  mw_project_settings :: "gostring option"
  mw_cli_models :: "ModelOption list"

fun set_firstNonEmpty :: "gostring list \<Rightarrow> gostring" where
  "set_firstNonEmpty [] = []"
| "set_firstNonEmpty (v # vs) = (if TrimSpace v \<noteq> [] then TrimSpace v else set_firstNonEmpty vs)"

record model_payload =
  mp_Model :: gostring
  mp_Default :: gostring

definition readModelField :: "gostring option \<Rightarrow> gostring" where
  "readModelField file =
     (case file of
        None \<Rightarrow> []
      | Some data \<Rightarrow>
          (case unmarshal_struct
              [(''model'', str_field (\<lambda>s. mp_Model_update (\<lambda>_. s))),
               (''defaults'', struct_field [(''model'', str_field (\<lambda>s _. s))] mp_Default (\<lambda>s. mp_Default_update (\<lambda>_. s)))]
              \<lparr>mp_Model = [], mp_Default = []\<rparr> data of
             (p, err) \<Rightarrow> if err then [] else if mp_Model p \<noteq> [] then mp_Model p else mp_Default p))"

definition settings_var :: "menu_world \<Rightarrow> gostring \<Rightarrow> gostring" where
  "settings_var w key = set_firstNonEmpty [mw_settingsEnv w key, mw_getenv w key]"

definition usesCustomAnthropicProvider :: "menu_world \<Rightarrow> bool" where
  "usesCustomAnthropicProvider w \<longleftrightarrow>
     (let base = TrimSpace (settings_var w ''ANTHROPIC_BASE_URL'') in base \<noteq> [] \<and> \<not> Contains base ''api.anthropic.com'') \<or>
     list_ex (\<lambda>key. TrimSpace (settings_var w key) \<noteq> [])
       [''ANTHROPIC_MODEL'', ''ANTHROPIC_AUTH_TOKEN'', ''ANTHROPIC_DEFAULT_OPUS_MODEL'', ''ANTHROPIC_DEFAULT_SONNET_MODEL'',
        ''ANTHROPIC_DEFAULT_HAIKU_MODEL'']"

definition resolveModelAlias :: "menu_world \<Rightarrow> gostring \<Rightarrow> gostring" where
  "resolveModelAlias w model =
     (let m = TrimSpace model in
      if m = ''opus'' then settings_var w ''ANTHROPIC_DEFAULT_OPUS_MODEL''
      else if m = ''sonnet'' then settings_var w ''ANTHROPIC_DEFAULT_SONNET_MODEL''
      else if m = ''haiku'' then settings_var w ''ANTHROPIC_DEFAULT_HAIKU_MODEL''
      else m)"

definition official :: "gostring \<Rightarrow> gostring \<Rightarrow> ModelOption" where
  "official v l = \<lparr>mo_Value = v, mo_Label = l, mo_ResolvedModel = v, mo_Source = ''official''\<rparr>"

definition officialClaudeModels :: "ModelOption list" where
  "officialClaudeModels =
     [official ''claude-fable-5'' ''Fable 5'', official ''claude-fable-5[1m]'' ''Fable 5 (1M)'',
      official ''claude-opus-4-8'' ''Opus 4.8'', official ''claude-opus-4-8[1m]'' ''Opus 4.8 (1M)'',
      official ''claude-sonnet-4-6'' ''Sonnet 4.6'', official ''claude-haiku-4-5'' ''Haiku 4.5'']"

type_synonym menu_acc = "gostring list \<times> ModelOption list"

definition add_model :: "gostring \<times> gostring \<times> gostring \<Rightarrow> menu_acc \<Rightarrow> menu_acc" where
  "add_model x acc =
     (case (x, acc) of ((name0, resolved, source), (seen, out)) \<Rightarrow>
        let name = TrimSpace name0 in
        if name = [] \<or> name \<in> set seen then acc
        else (name # seen, out @ [\<lparr>mo_Value = name, mo_Label = name, mo_ResolvedModel = TrimSpace resolved, mo_Source = TrimSpace source\<rparr>]))"

definition add_official :: "ModelOption \<Rightarrow> menu_acc \<Rightarrow> menu_acc" where
  "add_official o1 acc = (if mo_Value o1 \<in> set (fst acc) then acc else (mo_Value o1 # fst acc, snd acc @ [o1]))"

definition menu_head :: "menu_world \<Rightarrow> menu_acc" where
  "menu_head w =
     (if usesCustomAnthropicProvider w
      then fold add_model (map (\<lambda>a. (a, resolveModelAlias w a, ''alias'')) [''sonnet'', ''opus'', ''haiku'']) ([], [])
      else fold add_official (if mw_cli_models w = [] then officialClaudeModels else mw_cli_models w) ([], []))"

definition config_models :: "menu_world \<Rightarrow> gostring \<Rightarrow> (gostring \<times> gostring \<times> gostring) list" where
  "config_models w cwd =
     [(readModelField (mw_user_settings w), [], ''user_config''), (readModelField (mw_home_json w), [], ''user_config'')] @
     (if cwd \<noteq> []
      then [(readModelField (mw_project_json w), [], ''project_config''), (readModelField (mw_project_settings w), [], ''project_config'')]
      else []) @
     [(mw_settingsEnv w ''ANTHROPIC_MODEL'', [], SettingsEnvSource), (mw_getenv w ''ANTHROPIC_MODEL'', [], ''env'')]"

definition ReadModelOptionDetails :: "menu_world \<Rightarrow> gostring \<Rightarrow> ModelOption list" where
  "ReadModelOptionDetails w cwd =
     (let hd1 = menu_head w; out = snd (fold add_model (config_models w cwd) hd1); n = length (snd hd1)
      in take n out @ sort_key mo_Value (drop n out))"

definition ReadModelOptions :: "menu_world \<Rightarrow> gostring \<Rightarrow> gostring list" where
  "ReadModelOptions w cwd = map mo_Value (ReadModelOptionDetails w cwd)"

definition EffectiveDefaultModel :: "menu_world \<Rightarrow> gostring \<Rightarrow> gostring" where
  "EffectiveDefaultModel w cwd =
     (case filter (\<lambda>m. m \<noteq> [])
         ((if cwd \<noteq> [] then [readModelField (mw_project_json w), readModelField (mw_project_settings w)] else []) @
          [readModelField (mw_user_settings w), readModelField (mw_home_json w), TrimSpace (mw_settingsEnv w ''ANTHROPIC_MODEL'')]) of
        m # _ \<Rightarrow> m
      | [] \<Rightarrow> TrimSpace (mw_getenv w ''ANTHROPIC_MODEL''))"

definition SnapshotFor :: "menu_world \<Rightarrow> gostring \<Rightarrow> gostring \<Rightarrow> settings_store \<Rightarrow> Snapshot" where
  "SnapshotFor w ts cwd s =
     (let c0 = set_get ts s;
          c1 = (if st_PermissionMode c0 = [] then c0\<lparr>st_PermissionMode := PermDefault\<rparr> else c0);
          c2 = (if st_Effort c1 = [] then c1\<lparr>st_Effort := ''none''\<rparr> else c1);
          c3 = (if st_ResolvedModel c2 = [] \<and> st_Model c2 \<noteq> [] then c2\<lparr>st_ResolvedModel := resolveModelAlias w (st_Model c2)\<rparr> else c2)
      in \<lparr>ss_Current = c3, ss_Models = ReadModelOptions w cwd, ss_ModelOptions = ReadModelOptionDetails w cwd,
          ss_PermissionModes = cycleOrder, ss_Efforts = EffortLevels\<rparr>)"

subsection \<open>The command line program's answer\<close>

record cli_model =
  cl_Value :: gostring
  cl_DisplayName :: gostring
  cl_Description :: gostring

record cli_response =
  ci_Subtype :: gostring
  ci_Error :: gostring
  ci_Models :: "cli_model list"

record cli_message =
  cg_Type :: gostring
  cg_Response :: cli_response

definition cli_model_fields :: "(gostring \<times> cli_model decoder) list" where
  "cli_model_fields =
     [(''value'', str_field (\<lambda>s. cl_Value_update (\<lambda>_. s))), (''displayName'', str_field (\<lambda>s. cl_DisplayName_update (\<lambda>_. s))),
      (''description'', str_field (\<lambda>s. cl_Description_update (\<lambda>_. s)))]"

definition cli_models_field :: "cli_model list decoder" where
  "cli_models_field raw v r =
     (case v of
        JNull \<Rightarrow> ([], False)
      | JArr es \<Rightarrow> (let ds = map (\<lambda>(_, x). dec_struct cli_model_fields x \<lparr>cl_Value = [], cl_DisplayName = [], cl_Description = []\<rparr>) es
                    in (map fst ds, list_ex snd ds))
      | _ \<Rightarrow> (r, True))"

definition cli_response_fields :: "(gostring \<times> cli_response decoder) list" where
  "cli_response_fields =
     [(''subtype'', str_field (\<lambda>s. ci_Subtype_update (\<lambda>_. s))), (''error'', str_field (\<lambda>s. ci_Error_update (\<lambda>_. s))),
      (''response'', struct_field [(''models'', cli_models_field)] ci_Models (\<lambda>m. ci_Models_update (\<lambda>_. m)))]"

definition cli_message_fields :: "(gostring \<times> cli_message decoder) list" where
  "cli_message_fields =
     [(''type'', str_field (\<lambda>s. cg_Type_update (\<lambda>_. s))),
      (''response'', struct_field cli_response_fields cg_Response (\<lambda>r. cg_Response_update (\<lambda>_. r)))]"

datatype cli_line = CliOther | CliFailed gostring | CliModels "ModelOption list"

definition middle_dot :: gostring where "middle_dot = [CHR 0xC2, CHR 0xB7]"

definition cli_option :: "cli_model \<Rightarrow> ModelOption option" where
  "cli_option m =
     (let v = TrimSpace (cl_Value m); l = TrimSpace (cl_DisplayName m) in
      if v = [] then None
      else Some \<lparr>mo_Value = v, mo_Label = (if l = [] then v else l),
        mo_ResolvedModel = TrimSpace (hd (SplitN2 (cl_Description m) middle_dot)), mo_Source = ''claude_cli''\<rparr>)"

definition parseClaudeCLIModelsLine :: "gostring \<Rightarrow> cli_line" where
  "parseClaudeCLIModelsLine line =
     (case unmarshal_struct cli_message_fields
         \<lparr>cg_Type = [], cg_Response = \<lparr>ci_Subtype = [], ci_Error = [], ci_Models = []\<rparr>\<rparr> line of
        (msg, err) \<Rightarrow>
          if err \<or> cg_Type msg \<noteq> ''control_response'' then CliOther
          else if ci_Subtype (cg_Response msg) = ''error'' then CliFailed (ci_Error (cg_Response msg))
          else if ci_Subtype (cg_Response msg) \<noteq> ''success'' then CliOther
          else CliModels (List.map_filter cli_option (ci_Models (cg_Response msg))))"

text \<open>The reading loop over the lines the program writes; \<open>None\<close> when it ends without an answer.\<close>

fun cli_answer :: "gostring list \<Rightarrow> ModelOption list option" where
  "cli_answer [] = None"
| "cli_answer (l # ls) =
     (case parseClaudeCLIModelsLine l of
        CliOther \<Rightarrow> cli_answer ls
      | CliFailed e \<Rightarrow> None
      | CliModels ms \<Rightarrow> Some ms)"

record cli_cache =
  cc_fetchedAt :: time
  cc_options :: "ModelOption list"

definition cliModelsTTL :: duration where "cliModelsTTL = 10 * minute"
definition cliModelsErrorTTL :: duration where "cliModelsErrorTTL = minute"

definition cache_fresh :: "time \<Rightarrow> cli_cache \<Rightarrow> bool" where
  "cache_fresh now c \<longleftrightarrow>
     cc_fetchedAt c \<noteq> 0 \<and>
     (let age = now - cc_fetchedAt c in
      (cc_options c \<noteq> [] \<and> age < cliModelsTTL) \<or> (cc_options c = [] \<and> age < cliModelsErrorTTL))"

text \<open>
  \<open>resolver\<close> is \<open>None\<close> when no resolver is set, else the path it gives (\<open>None\<close>: an error);
  \<open>query\<close> is what the query of a binary returns.
\<close>

definition claudeCLIModelOptions ::
  "gostring option option \<Rightarrow> (gostring \<Rightarrow> ModelOption list option) \<Rightarrow> time \<Rightarrow> time \<Rightarrow> cli_cache \<Rightarrow> ModelOption list \<times> cli_cache" where
  "claudeCLIModelOptions resolver query now later c =
     (case resolver of
        None \<Rightarrow> ([], c)
      | Some binary \<Rightarrow>
          if cache_fresh now c then (cc_options c, c)
          else let options = (case binary of
                     None \<Rightarrow> []
                   | Some b \<Rightarrow> if TrimSpace b = [] then [] else case query b of Some o1 \<Rightarrow> o1 | None \<Rightarrow> [])
            in (options, \<lparr>cc_fetchedAt = later, cc_options = options\<rparr>))"

definition SetClaudeBinaryResolver :: "cli_cache \<Rightarrow> cli_cache" where
  "SetClaudeBinaryResolver c = \<lparr>cc_fetchedAt = 0, cc_options = []\<rparr>"

subsection \<open>Applying a change\<close>

record ApplyRequest =
  ar_Model :: gostring
  ar_PermissionMode :: gostring
  ar_Effort :: gostring

datatype apply_error =
    ErrSessionIDRequired
  | ErrNotAttached
  | ErrDrifted gostring
  | ErrUnknownMode gostring
  | ErrUnknownEffort gostring
  | ErrNotSwitchable gostring
  | ErrSendTab term_error
  | ErrSendModel term_error
  | ErrSendEffort term_error
  | ErrUnknownModel gostring

definition ValidateApplyRequest :: "ApplyRequest \<Rightarrow> apply_error option" where
  "ValidateApplyRequest req =
     (let mode = TrimSpace (ar_PermissionMode req); effort = TrimSpace (ar_Effort req) in
      if mode \<noteq> [] \<and> \<not> isKnownPermissionMode mode then Some (ErrUnknownMode mode)
      else if effort \<noteq> [] \<and> \<not> isKnownEffort effort then Some (ErrUnknownEffort effort)
      else None)"

definition ValidateModelForCwd :: "menu_world \<Rightarrow> gostring \<Rightarrow> gostring \<Rightarrow> gostring list \<Rightarrow> apply_error option" where
  "ValidateModelForCwd w cwd model0 extraAllowed =
     (let model = TrimSpace model0 in
      if model = [] then None
      else if model \<in> {''sonnet'', ''opus'', ''haiku''} then None
      else if list_ex (\<lambda>e. TrimSpace e = model) extraAllowed then None
      else if model \<in> set (ReadModelOptions w cwd) then None
      else if list_ex (\<lambda>o1. mo_Value o1 = model \<or> TrimSpace (mo_ResolvedModel o1) = model) (ReadModelOptionDetails w cwd) then None
      else Some (ErrUnknownModel model))"

text \<open>The position of a mode: the loop keeps the last hit; the modes of the cycle differ.\<close>

definition mode_index :: "gostring \<Rightarrow> int" where
  "mode_index m = foldl (\<lambda>acc (i, x). if x = m then int i else acc) (-1) (zip [0..<length cycleOrder] cycleOrder)"

definition cycleDistance :: "gostring \<Rightarrow> gostring \<Rightarrow> int" where
  "cycleDistance current target =
     (let c = mode_index current; t = mode_index target in
      if c < 0 \<or> t < 0 \<or> c = t then 0
      else let d = t - c in if d < 0 then d + int (length cycleOrder) else d)"

definition back_tab :: gostring where "back_tab = [CHR 0x1B, CHR ''['', CHR ''Z'']"

text \<open>
  The effects of \<open>Apply\<close> on the session: the manager's session \<open>r\<close> is updated by each call,
  and the first error ends the call. \<open>clk i\<close> is the clock at the \<open>i\<close>-th call.
\<close>

definition send_ext ::
  "(ExternalSession \<Rightarrow> panic + (term_error option \<times> ExternalSession)) \<Rightarrow> nat \<Rightarrow> Manager.Manager \<Rightarrow>
   panic + (term_error option \<times> Manager.Manager)" where
  "send_ext f r m =
     bind_sum (f (m_exts m ! r)) (\<lambda>(e, x). Inr (e, m\<lparr>m_exts := (m_exts m)[r := x]\<rparr>))"

fun press_tabs :: "nat \<Rightarrow> nat \<Rightarrow> (nat \<Rightarrow> time) \<Rightarrow> nat \<Rightarrow> Manager.Manager \<Rightarrow> panic + (term_error option \<times> Manager.Manager)" where
  "press_tabs 0 i clk r m = Inr (None, m)"
| "press_tabs (Suc n) i clk r m =
     bind_sum (send_ext (ext_SendRaw back_tab (clk i)) r m) (\<lambda>(e, m1).
       case e of Some err \<Rightarrow> Inr (Some err, m1) | None \<Rightarrow> press_tabs n (Suc i) clk r m1)"

type_synonym apply_result = "panic + (apply_error option \<times> settings_store \<times> Manager.Manager)"

definition apply_mode :: "gostring \<Rightarrow> gostring \<Rightarrow> (nat \<Rightarrow> time) \<Rightarrow> nat \<Rightarrow> settings_store \<Rightarrow> Manager.Manager \<Rightarrow> apply_result" where
  "apply_mode ts mode clk r s m =
     (if mode = [] then Inr (None, s, m)
      else if \<not> isRuntimeSwitchable mode then Inr (Some (ErrNotSwitchable mode), s, m)
      else let cur0 = st_PermissionMode (set_get ts s); cur = (if cur0 = [] then PermDefault else cur0) in
        bind_sum (press_tabs (nat (cycleDistance cur mode)) 0 clk r m) (\<lambda>(e, m1).
          case e of
            Some err \<Rightarrow> Inr (Some (ErrSendTab err), s, m1)
          | None \<Rightarrow> Inr (None, SetPermissionMode ts mode s, m1)))"

definition apply_model :: "gostring \<Rightarrow> time \<Rightarrow> nat \<Rightarrow> settings_store \<Rightarrow> Manager.Manager \<Rightarrow> apply_result" where
  "apply_model model now r s m =
     (if model = [] then Inr (None, s, m)
      else bind_sum (send_ext (ext_SendInput (''/model '' @ model) now) r m) (\<lambda>(e, m1).
        Inr (map_option ErrSendModel e, s, m1)))"

definition apply_effort :: "gostring \<Rightarrow> gostring \<Rightarrow> time \<Rightarrow> nat \<Rightarrow> settings_store \<Rightarrow> Manager.Manager \<Rightarrow> apply_result" where
  "apply_effort ts effort now r s m =
     (if effort = [] then Inr (None, s, m)
      else bind_sum (if IsClaudeEffortLevel effort then send_ext (ext_SendInput (''/effort '' @ effort) now) r m else Inr (None, m)) (\<lambda>(e, m1).
        case e of
          Some err \<Rightarrow> Inr (Some (ErrSendEffort err), s, m1)
        | None \<Rightarrow> Inr (None, SetEffort ts effort s, m1)))"

definition Apply :: "gostring \<Rightarrow> gostring \<Rightarrow> ApplyRequest \<Rightarrow> (nat \<Rightarrow> time) \<Rightarrow> settings_store \<Rightarrow> Manager.Manager \<Rightarrow> apply_result" where
  "Apply ts claudeSessionID req clk s m =
     (if TrimSpace claudeSessionID = [] then Inr (Some ErrSessionIDRequired, s, m)
      else let lookup = LookupExternalForInject claudeSessionID m in
        case il_Ext lookup of
          None \<Rightarrow> Inr (Some ErrNotAttached, s, m)
        | Some r \<Rightarrow>
            if il_Drifted lookup then Inr (Some (ErrDrifted (il_CurrentSID lookup)), s, m)
            else case ValidateApplyRequest req of
              Some e \<Rightarrow> Inr (Some e, s, m)
            | None \<Rightarrow>
                bind_sum (apply_mode ts (TrimSpace (ar_PermissionMode req)) clk r s m) (\<lambda>(e1, s1, m1).
                  if e1 \<noteq> None then Inr (e1, s1, m1)
                  else bind_sum (apply_model (TrimSpace (ar_Model req)) (clk 3) r s1 m1) (\<lambda>(e2, s2, m2).
                    if e2 \<noteq> None then Inr (e2, s2, m2)
                    else apply_effort ts (TrimSpace (ar_Effort req)) (clk 4) r s2 m2)))"

end
