(* ===== verification/SettingsProps.thy ===== *)
theory SettingsProps
  imports AgentSettings
begin

section \<open>What applying settings does to the running agent\<close>

text \<open>
  The agent's interface has no command for the permission mode: one Shift+Tab moves it to
  the next mode of the cycle. The store reaches a mode by counting the keys from the mode it
  has on record, so it is right exactly as long as that record is in the cycle.
\<close>

subsection \<open>The interface of the agent\<close>

definition next_mode :: "gostring \<Rightarrow> gostring" where
  "next_mode m =
     (if m = PermDefault then PermAcceptEdits else if m = PermAcceptEdits then PermPlan
      else if m = PermPlan then PermDefault else m)"

definition tui_key :: "gostring \<Rightarrow> gostring \<Rightarrow> gostring" where
  "tui_key k m = (if k = back_tab then next_mode m else m)"

lemma mode_index_cycle:
  "mode_index PermDefault = 0" "mode_index PermAcceptEdits = 1" "mode_index PermPlan = 2"
  by (simp_all add: mode_index_def cycleOrder_def perm_modes)

lemma mode_index_outside: "m \<notin> set cycleOrder \<Longrightarrow> mode_index m = -1"
  by (auto simp: mode_index_def cycleOrder_def upt_rec)

lemma perm_distinct [simp]:
  "PermDefault \<noteq> PermAcceptEdits" "PermDefault \<noteq> PermPlan" "PermAcceptEdits \<noteq> PermPlan"
  "PermAcceptEdits \<noteq> PermDefault" "PermPlan \<noteq> PermDefault" "PermPlan \<noteq> PermAcceptEdits"
  by (simp_all add: perm_modes)

lemma cycle_cases:
  assumes "m \<in> set cycleOrder"
  obtains "m = PermDefault" | "m = PermAcceptEdits" | "m = PermPlan"
  using assms by (auto simp: cycleOrder_def)

lemma length_cycle [simp]: "length cycleOrder = 3"
  by (simp add: cycleOrder_def)

text \<open>The distance counts the keys.\<close>

lemmas distance_simps = cycleDistance_def mode_index_cycle Let_def tui_key_def next_mode_def

lemma presses_reach:
  assumes "cur \<in> set cycleOrder" "mode \<in> set cycleOrder"
  shows "fold tui_key (replicate (nat (cycleDistance cur mode)) back_tab) cur = mode"
    and "nat (cycleDistance cur mode) \<le> 2"
proof -
  have "fold tui_key (replicate (nat (cycleDistance cur mode)) back_tab) cur = mode \<and> nat (cycleDistance cur mode) \<le> 2"
    by (rule cycle_cases[OF assms(1)]; rule cycle_cases[OF assms(2)]; simp add: distance_simps numeral_2_eq_2)
  then show "fold tui_key (replicate (nat (cycleDistance cur mode)) back_tab) cur = mode"
    "nat (cycleDistance cur mode) \<le> 2" by blast+
qed

lemma distance_outside: "cur \<notin> set cycleOrder \<Longrightarrow> cycleDistance cur mode = 0"
  by (simp add: cycleDistance_def mode_index_outside)

subsection \<open>Keys arrive\<close>

text \<open>A session with one reader of its input, with the channel and its free room.\<close>

definition typed_into :: "Manager.Manager \<Rightarrow> nat \<Rightarrow> nat \<Rightarrow> nat \<Rightarrow> bool" where
  "typed_into m r c room \<longleftrightarrow>
     r < length (m_exts m) \<and> \<not> not_live (m_exts m ! r) \<and> map snd (x_inputs (m_exts m ! r)) = [c] \<and>
     open_at (x_inheap (m_exts m ! r)) c \<and>
     length (chan_buf (x_inheap (m_exts m ! r) ! c)) + room \<le> chan_cap (x_inheap (m_exts m ! r) ! c)"

definition input_queue :: "Manager.Manager \<Rightarrow> nat \<Rightarrow> nat \<Rightarrow> gostring list" where
  "input_queue m r c = chan_buf (x_inheap (m_exts m ! r) ! c)"

lemma raw_key_arrives:
  assumes "typed_into m r c (Suc room)" "k \<noteq> []"
  shows "\<exists>m1. send_ext (ext_SendRaw k now) r m = Inr (None, m1) \<and> typed_into m1 r c room \<and>
    input_queue m1 r c = input_queue m r c @ [k]"
proof -
  let ?x = "m_exts m ! r" let ?ch = "x_inheap ?x ! c"
  note t = assms(1)[unfolded typed_into_def]
  have "try_send k ?ch = Inr (?ch\<lparr>chan_buf := chan_buf ?ch @ [k]\<rparr>)"
    using t by (auto simp: try_send_def open_at_def)
  then have s: "send_all k (map snd (x_inputs ?x)) (x_inheap ?x) = Inr ((x_inheap ?x)[c := ?ch\<lparr>chan_buf := chan_buf ?ch @ [k]\<rparr>])"
    using t by (simp add: send_all_def send_at_def)
  then show ?thesis
    using t assms(2) by (auto simp: send_ext_def ext_SendRaw_def typed_into_def input_queue_def not_live_def open_at_def)
qed

lemma tabs_arrive:
  assumes "typed_into m r c n"
  shows "\<exists>m1. press_tabs n i clk r m = Inr (None, m1) \<and> input_queue m1 r c = input_queue m r c @ replicate n back_tab"
  using assms
proof (induction n arbitrary: i m)
  case (Suc n)
  have "back_tab \<noteq> []" by (simp add: back_tab_def)
  from raw_key_arrives[OF Suc.prems this] obtain m1 where
    m1: "send_ext (ext_SendRaw back_tab (clk i)) r m = Inr (None, m1)" "typed_into m1 r c n"
    "input_queue m1 r c = input_queue m r c @ [back_tab]" by blast
  from Suc.IH[OF m1(2), of "Suc i"] m1 show ?case by auto
qed simp

lemma typed_into_less: "typed_into m r c k \<Longrightarrow> n \<le> k \<Longrightarrow> typed_into m r c n"
  by (simp add: typed_into_def)

subsection \<open>Properties\<close>

definition mode_request :: "gostring \<Rightarrow> ApplyRequest" where
  "mode_request mode = \<lparr>ar_Model = [], ar_PermissionMode = mode, ar_Effort = []\<rparr>"

lemma cycle_mode_trim: "mode \<in> set cycleOrder \<Longrightarrow> TrimSpace mode = mode \<and> mode \<noteq> [] \<and> isKnownPermissionMode mode"
  by (auto simp: cycleOrder_def isKnownPermissionMode_def nativePermissionModes_def perm_modes TrimSpace_ascii is_space_def)

text \<open>A request for a mode of the cycle, for a session that is found and not drifted, is the keys and the record.\<close>

lemma Apply_mode:
  assumes "TrimSpace sid \<noteq> []" "il_Ext (LookupExternalForInject sid m) = Some r" "\<not> il_Drifted (LookupExternalForInject sid m)"
    and "mode \<in> set cycleOrder" "st_PermissionMode (s ts) = cur" "cur \<noteq> []"
    and "press_tabs (nat (cycleDistance cur mode)) 0 clk r m = Inr (None, m1)"
  shows "Apply ts sid (mode_request mode) clk s m = Inr (None, SetPermissionMode ts mode s, m1)"
  using assms cycle_mode_trim[OF assms(4)]
  by (simp add: Apply_def mode_request_def ValidateApplyRequest_def Let_def apply_mode_def isRuntimeSwitchable_def
      set_get_def apply_model_def apply_effort_def)


text \<open>
  Applying a mode lies when the record is outside the cycle: a session observed in
  \<open>auto\<close>, \<open>bypassPermissions\<close> or \<open>dontAsk\<close> that is asked to go to \<open>default\<close> (or another mode
  of the cycle) gets no key at all, the request succeeds, and from then on the requested
  mode is on record and shown, while the agent goes on without asking for permission.
\<close>

theorem mode_recorded_without_keys:
  assumes "TrimSpace sid \<noteq> []" "il_Ext (LookupExternalForInject sid m) = Some r" "\<not> il_Drifted (LookupExternalForInject sid m)"
    and "mode \<in> set cycleOrder" "observed \<in> {PermAuto, PermBypass, PermDontAsk}" "ts \<noteq> []"
    and "s = Observe ts ''meta'' observed s0"
  shows "Apply ts sid (mode_request mode) clk s m = Inr (None, SetPermissionMode ts mode s, m) \<and>
    st_PermissionMode (ss_Current (SnapshotFor w ts cwd (SetPermissionMode ts mode s))) = mode"
proof -
  have o: "TrimSpace observed = observed" "isKnownPermissionMode observed" "observed \<notin> set cycleOrder" "observed \<noteq> []"
    using assms(5) by (auto simp: perm_modes TrimSpace_ascii is_space_def isKnownPermissionMode_def nativePermissionModes_def cycleOrder_def)
  then have cur: "st_PermissionMode (s ts) = observed" using assms(6,7) by (simp add: Observe_def)
  have "press_tabs (nat (cycleDistance observed mode)) 0 clk r m = Inr (None, m)" by (simp add: distance_outside o)
  from Apply_mode[where s = s and ts = ts and cur = observed, OF assms(1-4) cur o(4) this] show ?thesis
    using cycle_mode_trim[OF assms(4)] by (simp add: SnapshotFor_def set_get_def SetPermissionMode_def Let_def)
qed

subsection \<open>Witnesses\<close>

definition ex_typed :: ExternalSession where
  "ex_typed = (blank_session 1)\<lparr>x_claudeSessionID := ''s'', x_inputs := [(0, 0)], x_inheap := [make_chan 8]\<rparr>"

definition ex_tmgr :: Manager.Manager where
  "ex_tmgr = \<lparr>m_sessions = [], m_sidIndex = [(''s'', 0)], m_ptys = [], m_exts = [ex_typed]\<rparr>"

lemma ex_tmgr_lookup:
  "TrimSpace ''s'' \<noteq> []" "il_Ext (LookupExternalForInject ''s'' ex_tmgr) = Some 0" "\<not> il_Drifted (LookupExternalForInject ''s'' ex_tmgr)"
  by (simp_all add: TrimSpace_ascii is_space_def LookupExternalForInject_def ex_tmgr_def ex_typed_def blank_session_def live_status_def session_consts)


theorem mode_recorded_without_keys_witness:
  "Apply ''t'' ''s'' (mode_request PermDefault) (\<lambda>_. 5) (Observe ''t'' ''meta'' PermBypass (\<lambda>_. no_settings)) ex_tmgr =
     Inr (None, SetPermissionMode ''t'' PermDefault (Observe ''t'' ''meta'' PermBypass (\<lambda>_. no_settings)), ex_tmgr)"
  using mode_recorded_without_keys[OF ex_tmgr_lookup, of PermDefault PermBypass "''t''" _ "\<lambda>_. no_settings"]
  by (simp add: cycleOrder_def)

end
