(* ===== verification/JsonWire.thy ===== *)
theory JsonWire
  imports GoJson
begin

section \<open>What is written can be read back\<close>

text \<open>
  The daemon's processes talk in JSON: one side marshals a map, the other parses it. Here it
  is shown that the parser reads what the printer wrote, for values built of strings,
  integers, booleans, arrays and objects; a string arrives as its sequence of runes, so
  invalid UTF-8 arrives as U+FFFD.
\<close>

subsection \<open>Decoding one rune\<close>

text \<open>
  What \<open>DecodeRune\<close> says of a string's start: a byte below 128 is its own rune, a well-formed
  sequence has only bytes above and is decoded without looking further.
\<close>

lemma decode_rune_seq:
  assumes "decode_rune bs = (r, w)" "bs \<noteq> []" "128 \<le> hd bs" "r \<noteq> rune_error \<or> w \<noteq> 1"
  shows "list_all (\<lambda>b. 128 \<le> b) (take w bs)" "decode_rune (take w bs @ t) = (r, w)" "128 \<le> r" "w \<le> length bs"
proof -
  obtain b0 rest where bs: "bs = b0 # rest" "128 \<le> b0" using assms(2,3) by (cases bs) auto
  consider b1 q where "rest = b1 # q" "194 \<le> b0" "b0 \<le> 223" "cont b1" "r = (b0 - 192) * 64 + (b1 - 128)" "w = 2"
    | b1 b2 q where "rest = b1 # b2 # q" "224 \<le> b0" "b0 \<le> 239" "accept2 b0 b1" "cont b2"
        "r = (b0 - 224) * 4096 + (b1 - 128) * 64 + (b2 - 128)" "w = 3"
    | b1 b2 b3 q where "rest = b1 # b2 # b3 # q" "240 \<le> b0" "b0 \<le> 244" "accept2 b0 b1" "cont b2" "cont b3"
        "r = (b0 - 240) * 262144 + (b1 - 128) * 4096 + (b2 - 128) * 64 + (b3 - 128)" "w = 4"
    using assms(1,4) bs by (auto simp: decode_rune.simps split: if_splits list.splits)
  then have "list_all (\<lambda>b. 128 \<le> b) (take w bs) \<and> decode_rune (take w bs @ t) = (r, w) \<and> 128 \<le> r \<and> w \<le> length bs"
  proof cases
    case 1
    then show ?thesis by (auto simp: bs decode_rune.simps cont_def)
  next
    case 2
    moreover from 2(4) have "128 \<le> b1" by (auto simp: accept2_def cont_def split: if_splits)
    moreover from 2(2,4) have "128 \<le> (b0 - 224) * 4096 + (b1 - 128) * 64"
      by (cases "b0 = 224") (auto simp: accept2_def)
    ultimately show ?thesis using bs by (auto simp: decode_rune.simps cont_def)
  next
    case 3
    moreover from 3(4) have b1: "128 \<le> b1" by (auto simp: accept2_def cont_def split: if_splits)
    moreover from 3(2,4) have "128 \<le> (b0 - 240) * 262144 + (b1 - 128) * 4096"
      by (cases "b0 = 240") (auto simp: accept2_def)
    ultimately have "128 \<le> r" by (simp only: trans_le_add1)
    with 3 b1 show ?thesis using bs by (auto simp: decode_rune.simps cont_def)
  qed
  then show "list_all (\<lambda>b. 128 \<le> b) (take w bs)" "decode_rune (take w bs @ t) = (r, w)" "128 \<le> r" "w \<le> length bs" by auto
qed

lemma decode_rune_ascii: "b0 < 128 \<Longrightarrow> decode_rune (b0 # bs) = (b0, 1)"
  by (simp add: decode_rune.simps)

text \<open>The three kinds of a segment at the start of a string.\<close>

lemma segment_cases:
  assumes "decode_rune (bytes_of (c # cs)) = (r, w)"
  obtains (ascii) "(of_char c :: nat) < 128" "r = of_char c" "w = 1"
  | (bad) "r = rune_error" "w = 1" "128 \<le> (of_char c :: nat)"
  | (seq) "128 \<le> r" "list_all (\<lambda>x. 128 \<le> (of_char x :: nat)) (take w (c # cs))" "2 \<le> w"
      "\<And>t. decode_rune (bytes_of (take w (c # cs) @ t)) = (r, w)" "w \<le> length (c # cs)"
proof -
  have b: "bytes_of (c # cs) = of_char c # bytes_of cs" by (simp add: bytes_of_def)
  have w: "1 \<le> w" using decode_rune_width[of "bytes_of (c # cs)"] assms by (simp add: b)
  consider "(of_char c :: nat) < 128" | "128 \<le> (of_char c :: nat)" "r = rune_error" "w = 1"
    | "128 \<le> (of_char c :: nat)" "r \<noteq> rune_error \<or> w \<noteq> 1" by linarith
  then show thesis
  proof cases
    case 1
    then have "r = of_char c" "w = 1" using assms by (simp_all add: b decode_rune_ascii)
    with 1 show thesis by (rule ascii)
  next
    case 2
    then show thesis by (intro bad)
  next
    case 3
    have t: "take w (bytes_of (c # cs)) = bytes_of (take w (c # cs))" by (simp only: bytes_of_def take_map)
    have a: "bytes_of x @ bytes_of y = bytes_of (x @ y)" for x y by (simp add: bytes_of_def)
    have "bytes_of (c # cs) \<noteq> []" "128 \<le> hd (bytes_of (c # cs))" using 3(1) by (simp_all add: b)
    note d = decode_rune_seq[OF assms this 3(2), unfolded t a]
    have "w \<noteq> 1" using 3 assms by (auto simp: b decode_rune.simps split: if_splits list.splits)
    then have "2 \<le> w" using w by simp
    moreover have "list_all (\<lambda>x. 128 \<le> (of_char x :: nat)) (take w (c # cs))"
      using d(1) by (simp add: bytes_of_def list.pred_map o_def)
    moreover have "decode_rune (bytes_of (take w (c # cs) @ t)) = (r, w)" for t
      using decode_rune_seq(2)[OF assms \<open>bytes_of (c # cs) \<noteq> []\<close> \<open>128 \<le> hd (bytes_of (c # cs))\<close> 3(2), of "bytes_of t", unfolded t a] .
    moreover have "w \<le> length (c # cs)" using d(4) by (simp add: bytes_of_def)
    ultimately show thesis by (intro seq[OF d(3)])
  qed
qed

subsection \<open>Strings\<close>

lemma hex_val_digit: "n < 16 \<Longrightarrow> hex_val (hex_digit n) = Some n"
  by (auto simp: hex_val_def hex_digit_def Let_def)

lemma hex4_u_escape: "b < 256 \<Longrightarrow> hex4 (CHR ''0'' # CHR ''0'' # hex_digit (b div 16) # hex_digit (b mod 16) # x) = Some b"
  by (simp add: hex_val_digit) (simp add: hex_val_def)

lemma map_option_pair_id [simp]: "map_option (\<lambda>p. p) x = x" "map_option (\<lambda>(l, r). (l, r)) x = x"
  by (cases x; simp)+

text \<open>What the scanner and \<open>unquote\<close> do with a piece \<open>e\<close> that stands for \<open>out\<close>.\<close>

definition literal_for :: "gostring \<Rightarrow> gostring \<Rightarrow> bool" where
  "literal_for e out \<longleftrightarrow>
     (\<forall>x. scan_literal (e @ x) = map_option (\<lambda>(l, r). (e @ l, r)) (scan_literal x) \<and> unquote (e @ x) = out @ unquote x)"

lemma literal_forI:
  "(\<And>x. scan_literal (e @ x) = map_option (\<lambda>(l, r). (e @ l, r)) (scan_literal x)) \<Longrightarrow>
   (\<And>x. unquote (e @ x) = out @ unquote x) \<Longrightarrow> literal_for e out"
  by (simp add: literal_for_def)

lemma literal_for_Nil: "literal_for [] []"
  by (simp add: literal_for_def option.map_id)

lemma literal_for_append: "literal_for e1 o1 \<Longrightarrow> literal_for e2 o2 \<Longrightarrow> literal_for (e1 @ e2) (o1 @ o2)"
  by (simp add: literal_for_def option.map_comp o_def case_prod_unfold)

text \<open>A simple escape, a \<open>\u\<close> escape, an ASCII character, a sequence of bytes above.\<close>

lemma literal_simple: "simple_escape e = Some c \<Longrightarrow> e \<noteq> CHR ''u'' \<Longrightarrow> literal_for [BS, e] [c]"
  by (rule literal_forI) (simp_all add: unquote.simps(2) getu4_def)

lemma literal_hex:
  assumes "\<And>x. hex4 (h @ x) = Some r" "length h = 4" "\<not> surrogate r"
  shows "literal_for (BS # CHR ''u'' # h) (encode_rune r)"
proof (rule literal_forI)
  fix x
  have t: "take 4 (h @ x) = h" "drop 4 (h @ x) = x" using assms(2) by simp_all
  have g: "getu4 (BS # CHR ''u'' # h @ x) = Some r" by (simp add: getu4_def assms(1))
  show "scan_literal ((BS # CHR ''u'' # h) @ x) = map_option (\<lambda>(l, r). ((BS # CHR ''u'' # h) @ l, r)) (scan_literal x)"
    unfolding append_Cons by (simp only: scan_literal.simps) (simp add: assms(1) t del: take_append drop_append)
  show "unquote ((BS # CHR ''u'' # h) @ x) = encode_rune r @ unquote x"
    using g assms(2,3) by (simp add: unquote.simps(2))
qed

lemma literal_ascii: "32 \<le> (of_char c :: nat) \<Longrightarrow> (of_char c :: nat) < 128 \<Longrightarrow> c \<noteq> DQ \<Longrightarrow> c \<noteq> BS \<Longrightarrow> literal_for [c] [c]"
  by (rule literal_forI) (simp_all add: unquote.simps(2))

lemma scan_high: "list_all (\<lambda>b. 128 \<le> (of_char b :: nat)) bs \<Longrightarrow>
  scan_literal (bs @ x) = map_option (\<lambda>(l, r). (bs @ l, r)) (scan_literal x)"
proof (induction bs)
  case (Cons c bs)
  then have "c \<noteq> DQ" "c \<noteq> BS" by auto
  with Cons show ?case by (simp add: option.map_comp o_def case_prod_unfold)
qed (simp add: option.map_id)

lemma literal_high:
  assumes "list_all (\<lambda>b. 128 \<le> (of_char b :: nat)) bs" "bs \<noteq> []" "\<And>t. decode_rune (bytes_of (bs @ t)) = (r, length bs)"
  shows "literal_for bs (encode_rune r)"
proof (rule literal_forI)
  fix x
  show "scan_literal (bs @ x) = map_option (\<lambda>(l, r). (bs @ l, r)) (scan_literal x)" using assms(1) by (rule scan_high)
  obtain c cs where c: "bs = c # cs" using assms(2) by (cases bs) auto
  then have "c \<noteq> BS" "\<not> (of_char c :: nat) < 128" using assms(1) by auto
  then show "unquote (bs @ x) = encode_rune r @ unquote x"
    using assms(3)[of x] by (simp add: c unquote.simps(2))
qed

lemma char_of_char_byte: "char_of (of_char c :: nat) = (c :: char)"
  by simp

lemma literal_escape_byte: "(of_char c :: nat) < 128 \<Longrightarrow> literal_for (escape_byte c) [c]"
proof -
  assume c: "(of_char c :: nat) < 128"
  let ?h = "[CHR ''0'', CHR ''0'', hex_digit (of_char c div 16), hex_digit (of_char c mod 16)]"
  have "hex4 (?h @ x) = Some (of_char c)" for x using hex4_u_escape[of "of_char c" x] c by (simp del: hex4.simps)
  from literal_hex[OF this] have u: "literal_for (u_escape (of_char c)) [c]"
    using c by (simp add: u_escape_def surrogate_def encode_rune_ascii)
  have e: "(of_char c :: nat) = of_char x \<Longrightarrow> c = x" for x by (simp only: of_char_eq_iff)
  have ctl: "(of_char c :: nat) = 8 \<Longrightarrow> c = CHR 0x08" "(of_char c :: nat) = 12 \<Longrightarrow> c = CHR 0x0C" "(of_char c :: nat) = 10 \<Longrightarrow> c = CHR 0x0A"
    "(of_char c :: nat) = 13 \<Longrightarrow> c = CHR 0x0D" "(of_char c :: nat) = 9 \<Longrightarrow> c = CHR 0x09"
    by (rule e, simp)+
  show ?thesis
    using c u literal_simple[of c c] literal_simple[of "CHR ''b''" "CHR 0x08"] literal_simple[of "CHR ''f''" "CHR 0x0C"]
      literal_simple[of "CHR ''n''" "CHR 0x0A"] literal_simple[of "CHR ''r''" "CHR 0x0D"] literal_simple[of "CHR ''t''" "CHR 0x09"]
      literal_ascii[of c]
    by (auto simp: escape_byte_def Let_def simple_escape_def dest!: ctl)
qed

lemma literal_escape_seg:
  assumes "decode_rune (bytes_of (c # cs)) = (r, w)"
  shows "literal_for (escape_seg (r, take w (c # cs))) (encode_rune r)"
  using assms
proof (cases rule: segment_cases)
  case ascii
  then show ?thesis using literal_escape_byte[of c] by (simp add: escape_seg_def encode_rune_ascii)
next
  case bad
  then show ?thesis
    using literal_hex[of "''fffd''" rune_error] by (simp add: escape_seg_def rune_error_def surrogate_def hex_val_def)
next
  case seq
  have "literal_for (BS # CHR ''u'' # ''2028'') (encode_rune 0x2028)" "literal_for (BS # CHR ''u'' # ''2029'') (encode_rune 0x2029)"
    by (rule literal_hex; simp add: hex_val_def surrogate_def)+
  moreover have "literal_for (take w (c # cs)) (encode_rune r)"
    using seq by (intro literal_high) auto
  ultimately show ?thesis using seq by (auto simp: escape_seg_def)
qed

text \<open>The string that arrives.\<close>

definition arrives :: "gostring \<Rightarrow> gostring" where "arrives s = encode_runes (runes s)"

lemma literal_string: "literal_for (concat (map escape_seg (rune_segs s))) (arrives s)"
proof (induction s rule: rune_segs.induct)
  case 1
  then show ?case by (simp add: arrives_def runes_def encode_runes_def literal_for_Nil)
next
  case (2 c cs)
  obtain r w where rw: "decode_rune (bytes_of (c # cs)) = (r, w)" by fastforce
  from literal_for_append[OF literal_escape_seg[OF rw] "2.IH"[OF rw[symmetric]]] show ?case
    by (simp add: rune_segs.simps(2) rw arrives_def runes_def encode_runes_def)
qed

lemma scan_quoted:
  "scan_literal (concat (map escape_seg (rune_segs s)) @ DQ # rest) = Some (concat (map escape_seg (rune_segs s)), rest)"
  using literal_string[of s] by (simp add: literal_for_def)

lemma unquote_quoted: "unquote (concat (map escape_seg (rune_segs s))) = arrives s"
  using literal_string[of s] unfolding literal_for_def by (metis append_Nil2 unquote.simps(1))

lemma arrives_ascii: "ascii s \<Longrightarrow> arrives s = s"
  by (simp add: arrives_def runes_def rune_segs_ascii encode_runes_def)
    (induction s; simp add: encode_rune_ascii)

text \<open>Valid UTF-8 arrives unchanged; in any case what arrived once arrives again.\<close>

lemma arrives_arrives: "arrives (arrives s) = arrives s"
  using runes_valid[of _ s] by (simp add: arrives_def runes_encode_runes)

subsection \<open>Numbers\<close>

definition number_ok :: "gostring \<Rightarrow> bool" where
  "number_ok t \<longleftrightarrow> lex_number t = Some (t, [])"

text \<open>What may follow a value: nothing that could continue a number.\<close>

definition ends_value :: "gostring \<Rightarrow> bool" where
  "ends_value rest \<longleftrightarrow> rest = [] \<or> (\<not> is_digit (hd rest) \<and> hd rest \<notin> {CHR ''.'', CHR ''e'', CHR ''E''})"

lemma ends_value_simps [simp]:
  "ends_value []" "ends_value (CHR '','' # r)" "ends_value (CHR '']'' # r)" "ends_value (CHR ''}'' # r)" "ends_value (CHR 0x0A # r)"
  by (simp_all add: ends_value_def is_digit_def Let_def)

lemma ends_valueD: "ends_value rest \<Longrightarrow> rest = [] \<or> \<not> is_digit (hd rest)"
  "ends_value rest \<Longrightarrow> rest = [] \<or> \<not> is_digit (hd rest) \<and> hd rest \<noteq> CHR ''.''"
  by (auto simp: ends_value_def)

lemma digits_of_append:
  assumes "digits_of t = (d, r)" "rest = [] \<or> \<not> is_digit (hd rest)"
  shows "digits_of (t @ rest) = (d, r @ rest)"
proof (cases "list_all is_digit t")
  case True
  then have "takeWhile is_digit rest = []" "dropWhile is_digit rest = rest"
    using assms(2) by (cases rest; simp)+
  moreover have "takeWhile is_digit t = t" "dropWhile is_digit t = []"
    using True by (auto simp: list_all_iff takeWhile_eq_all_conv dropWhile_eq_Nil_conv)
  moreover from this have "d = t" "r = []" using assms(1) unfolding digits_of_def by (metis fst_conv, metis snd_conv)
  ultimately show ?thesis using True by (simp add: digits_of_def list_all_iff)
next
  case False
  then obtain x where "x \<in> set t" "\<not> is_digit x" by (auto simp: list_all_iff)
  with assms(1) show ?thesis by (auto simp: digits_of_def takeWhile_append1 dropWhile_append1)
qed

lemma lex_int_append: "lex_int t = Some (i, r) \<Longrightarrow> rest = [] \<or> \<not> is_digit (hd rest) \<Longrightarrow> lex_int (t @ rest) = Some (i, r @ rest)"
  using digits_of_append[of t i r rest] by (auto simp: lex_int_def split: list.splits if_splits)

lemma lex_frac_append: "lex_frac t = Some (i, r) \<Longrightarrow> rest = [] \<or> \<not> is_digit (hd rest) \<and> hd rest \<noteq> CHR ''.'' \<Longrightarrow> lex_frac (t @ rest) = Some (i, r @ rest)"
  using digits_of_append[of "tl t" "tl i" r rest]
  by (cases t; cases rest) (auto simp: lex_frac_def split: if_splits prod.splits)

lemma lex_exp_append:
  assumes "lex_exp t = Some (i, r)" "ends_value rest"
  shows "lex_exp (t @ rest) = Some (i, r @ rest)"
proof (cases t)
  case Nil
  with assms show ?thesis by (cases rest) (auto simp: lex_exp_def ends_value_def)
next
  case (Cons c u)
  show ?thesis
  proof (cases "c = CHR ''e'' \<or> c = CHR ''E''")
    case True
    define sgn where "sgn = (if u \<noteq> [] \<and> (hd u = CHR ''+'' \<or> hd u = CHR ''-'') then [hd u] else [])"
    obtain d q where d: "digits_of (drop (length sgn) u) = (d, q)" by fastforce
    from assms(1) Cons True d have r: "d \<noteq> []" "i = c # sgn @ d" "r = q"
      by (auto simp: lex_exp_def Let_def sgn_def split: if_splits)
    have "u \<noteq> []" using r(1) d by (auto simp: digits_of_def)
    then have "(if u @ rest \<noteq> [] \<and> (hd (u @ rest) = CHR ''+'' \<or> hd (u @ rest) = CHR ''-'') then [hd (u @ rest)] else []) = sgn"
      "length sgn \<le> length u"
      by (auto simp: sgn_def Suc_le_eq)
    with digits_of_append[OF d ends_valueD(1)[OF assms(2)]] Cons True r show ?thesis by (simp add: lex_exp_def Let_def)
  next
    case False
    with assms(1) Cons have "i = []" "r = c # u" by (auto simp: lex_exp_def)
    with False Cons show ?thesis by (simp add: lex_exp_def)
  qed
qed

lemma lex_number_append:
  assumes "number_ok t" "ends_value rest"
  shows "lex_number (t @ rest) = Some (t, rest)"
proof -
  let ?sgn = "if t \<noteq> [] \<and> hd t = CHR ''-'' then ''-'' else []"
  obtain i s1 f s2 e where l: "lex_int (drop (length ?sgn) t) = Some (i, s1)" "lex_frac s1 = Some (f, s2)" "lex_exp s2 = Some (e, [])"
    "t = ?sgn @ i @ f @ e"
    using assms(1) by (auto simp: number_ok_def lex_number_def Let_def split: option.splits prod.splits if_splits)
  have "t \<noteq> []" using l(1) by (auto simp: lex_int_def)
  then have "(if t @ rest \<noteq> [] \<and> hd (t @ rest) = CHR ''-'' then ''-'' else []) = ?sgn" "length ?sgn \<le> length t"
    by (auto simp: Suc_le_eq)
  then show ?thesis
    using lex_int_append[OF l(1) ends_valueD(1)[OF assms(2)]] lex_frac_append[OF l(2) ends_valueD(2)[OF assms(2)]] lex_exp_append[OF l(3) assms(2)] l(4)
    by (simp add: lex_number_def Let_def)
qed

lemma number_start:
  assumes "number_ok t"
  obtains c u where "t = c # u" "is_digit c \<or> c = CHR ''-''"
proof (cases t)
  case Nil
  with assms show thesis by (simp add: number_ok_def lex_number_def lex_int_def)
next
  case (Cons c u)
  with assms have "is_digit c \<or> c = CHR ''-''"
    by (auto simp: number_ok_def lex_number_def lex_int_def is_digit_def Let_def split: if_splits option.splits)
  with Cons that show thesis by blast
qed

text \<open>A printed integer is a number.\<close>

lemma is_digit_char: "n < (10 :: nat) \<Longrightarrow> is_digit (char_of (48 + n))"
  by (simp add: is_digit_def Let_def)

lemma digits_all: "list_all is_digit (digits n)"
  by (induction n rule: digits.induct) (subst digits.simps, auto simp: is_digit_char)

lemma digits_nonempty: "digits n \<noteq> []"
  by (subst digits.simps) simp

lemma digits_hd: "0 < n \<Longrightarrow> hd (digits n) \<noteq> CHR ''0''"
proof (induction n rule: digits.induct)
  case (1 n)
  show ?case
  proof (cases "n < 10")
    case True
    have "(of_char (char_of (48 + n)) :: nat) \<noteq> of_char (CHR ''0'')" using True "1.prems" by simp
    then have "char_of (48 + n) \<noteq> CHR ''0''" by metis
    with True show ?thesis by (subst digits.simps) simp
  next
    case False
    then show ?thesis using "1.IH"[OF False] digits_nonempty[of "n div 10"] by (subst digits.simps) simp
  qed
qed

lemma number_digits: "lex_int (digits n) = Some (digits n, [])"
proof -
  obtain c u where c: "digits n = c # u" using digits_nonempty[of n] by (cases "digits n") auto
  with digits_all[of n] have d: "is_digit c" "takeWhile is_digit u = u" "dropWhile is_digit u = []"
    by (auto simp: list_all_iff takeWhile_eq_all_conv dropWhile_eq_Nil_conv)
  show ?thesis
  proof (cases "n = 0")
    case True
    moreover have "digits 0 = ''0''" by code_simp
    ultimately show ?thesis by (simp add: lex_int_def)
  next
    case False
    then have "c \<noteq> CHR ''0''" using digits_hd[of n] c by simp
    with c d show ?thesis by (simp add: lex_int_def digits_of_def)
  qed
qed

lemma number_Itoa: "number_ok (Itoa i)"
proof -
  have "hd (digits n) \<noteq> CHR ''-''" for n
    using digits_all[of n] digits_nonempty[of n] by (cases "digits n") (auto simp: is_digit_def Let_def)
  then show ?thesis
    using number_digits by (simp add: number_ok_def Itoa_def lex_number_def Let_def lex_frac_def lex_exp_def)
qed

subsection \<open>Values\<close>

text \<open>The document a value is read back as, and the values that can be written.\<close>

fun wire :: "gval \<Rightarrow> json" where
  "wire GNull = JNull"
| "wire (GBool b) = JBool b"
| "wire (GInt i) = JNum (Itoa i)"
| "wire (GNumText t) = JNum t"
| "wire (GStr s) = JStr (arrives s)"
| "wire (GRaw r) = JNull"
| "wire (GArr vs) = JArr (map (\<lambda>v. (marshal v, wire v)) vs)"
| "wire (GObj ms) = JObj (map (\<lambda>(k, v). (arrives k, marshal v, wire v)) ms)"

fun wire_ok :: "gval \<Rightarrow> bool" where
  "wire_ok (GNumText t) = number_ok t"
| "wire_ok (GRaw r) = False"
| "wire_ok (GArr vs) = list_all wire_ok vs"
| "wire_ok (GObj ms) = list_all (\<lambda>(k, v). wire_ok v) ms"
| "wire_ok _ = True"

lemma quote_json_quoted: "quote_json s @ rest = DQ # concat (map escape_seg (rune_segs s)) @ DQ # rest"
  by (simp add: quote_json_def)

text \<open>A value starts with a character that is neither white space nor a closing bracket.\<close>

definition value_start :: "char \<Rightarrow> bool" where
  "value_start c \<longleftrightarrow> \<not> json_space c \<and> c \<noteq> CHR '']'' \<and> c \<noteq> CHR ''}''"

lemma marshal_start:
  assumes "wire_ok v"
  obtains c u where "marshal v = c # u" "value_start c"
proof -
  have num: "number_ok t \<Longrightarrow> \<exists>c u. t = c # u \<and> value_start c" for t
    by (erule number_start) (auto simp: value_start_def json_space_def is_digit_def Let_def)
  have "\<exists>c u. marshal v = c # u \<and> value_start c"
    using assms num num[OF number_Itoa]
    by (cases v) (auto simp: value_start_def json_space_def quote_json_def)
  with that show thesis by blast
qed

lemma skip_ws_marshal [simp]: "wire_ok v \<Longrightarrow> skip_ws (marshal v @ x) = marshal v @ x"
  by (erule marshal_start) (simp add: skip_ws_def value_start_def)

lemma skip_ws_simps [simp]: "skip_ws [] = []" "\<not> json_space c \<Longrightarrow> skip_ws (c # s) = c # s"
  by (simp_all add: skip_ws_def)

lemma not_space [simp]: "\<not> json_space (CHR '','')" "\<not> json_space (CHR '']'')" "\<not> json_space (CHR ''}'')" "\<not> json_space (CHR '':'')" "\<not> json_space DQ"
  by (simp_all add: json_space_def)

lemma consumed_append [simp]: "consumed (a @ r) r = a"
  by (simp add: consumed_def)

definition reads :: "gval \<Rightarrow> bool" where
  "reads v \<longleftrightarrow> (\<forall>n rest. 2 * length (marshal v) \<le> n \<longrightarrow> ends_value rest \<longrightarrow> parse_value n (marshal v @ rest) = Some (wire v, rest))"

lemma readsD: "reads v \<Longrightarrow> 2 * length (marshal v) \<le> n \<Longrightarrow> ends_value rest \<Longrightarrow> parse_value n (marshal v @ rest) = Some (wire v, rest)"
  by (simp add: reads_def)

lemma reads_number: "number_ok t \<Longrightarrow> marshal v = t \<Longrightarrow> wire v = JNum t \<Longrightarrow> reads v"
proof -
  assume t: "number_ok t" "marshal v = t" "wire v = JNum t"
  obtain c u where c: "t = c # u" "is_digit c \<or> c = CHR ''-''" using t(1) by (rule number_start)
  have nc: "c \<noteq> CHR ''{''" "c \<noteq> CHR ''[''" "c \<noteq> DQ" "c \<noteq> CHR ''t''" "c \<noteq> CHR ''f''" "c \<noteq> CHR ''n''"
    using c(2) by (auto simp: is_digit_def Let_def)
  have "parse_value (Suc n) (t @ rest) = Some (JNum t, rest)" if "ends_value rest" for n rest
    using lex_number_append[OF t(1) that] nc by (simp add: c(1) parse_value.simps(2))
  moreover have "2 * length t \<le> n \<Longrightarrow> \<exists>m. n = Suc m" for n using c by (cases n) auto
  ultimately show ?thesis unfolding reads_def t by blast
qed

lemma reads_elems:
  assumes "vs \<noteq> []" "\<And>v. v \<in> set vs \<Longrightarrow> reads v \<and> wire_ok v" "2 * length (Join (map marshal vs) '','') + 1 \<le> n"
  shows "parse_elems n (Join (map marshal vs) '','' @ CHR '']'' # rest) = Some (map (\<lambda>v. (marshal v, wire v)) vs, rest)"
  using assms
proof (induction vs arbitrary: n)
  case (Cons v vs)
  then obtain m where n: "n = Suc m" by (cases n) auto
  show ?case
  proof (cases vs)
    case Nil
    with Cons.prems n readsD[of v m] show ?thesis by (simp add: parse_elems.simps(2))
  next
    case (Cons v2 vs2)
    let ?t = "Join (map marshal vs) '','' @ CHR '']'' # rest"
    obtain x where x: "?t = marshal v2 @ x" using Cons by (cases vs2) simp_all
    have ok: "reads v" "wire_ok v2" using Cons.prems(2) Cons by auto
    have len: "length (Join (map marshal (v # vs)) '','') = length (marshal v) + 1 + length (Join (map marshal vs) '','')" using Cons by simp
    have "parse_value m (marshal v @ CHR '','' # ?t) = Some (wire v, CHR '','' # ?t)"
      using ok(1) Cons.prems(3) len n by (intro readsD) auto
    moreover have "parse_elems m ?t = Some (map (\<lambda>v. (marshal v, wire v)) vs, rest)"
      using Cons.IH[of m] Cons.prems len n Cons by simp
    ultimately show ?thesis
      using ok(2) n Cons x by (simp add: parse_elems.simps(2))
  qed
qed simp

lemma reads_members:
  assumes "ms \<noteq> []" "\<And>k v. (k, v) \<in> set ms \<Longrightarrow> reads v \<and> wire_ok v"
    and "2 * length (Join (map (\<lambda>(k, v). quote_json k @ '':'' @ marshal v) ms) '','') + 1 \<le> n"
  shows "parse_members n (Join (map (\<lambda>(k, v). quote_json k @ '':'' @ marshal v) ms) '','' @ CHR ''}'' # rest) =
    Some (map (\<lambda>(k, v). (arrives k, marshal v, wire v)) ms, rest)"
  using assms
proof (induction ms arbitrary: n)
  case (Cons p ms)
  then obtain m where n: "n = Suc m" by (cases n) auto
  obtain k v where p: "p = (k, v)" by (cases p)
  have ok: "reads v" "wire_ok v" using Cons.prems(2)[of k v] p by auto
  note sc = scan_quoted[of k] unquote_quoted[of k] quote_json_quoted[of k]
  show ?case
  proof (cases ms)
    case Nil
    with Cons.prems n p readsD[OF ok(1), of m] ok sc show ?thesis by (simp add: parse_members.simps(2))
  next
    case (Cons q ms2)
    let ?j = "Join (map (\<lambda>(k, v). quote_json k @ '':'' @ marshal v) ms) '',''"
    let ?t = "?j @ CHR ''}'' # rest"
    obtain k2 v2 where q: "q = (k2, v2)" by (cases q)
    obtain x where x: "?t = DQ # x" using Cons q by (cases ms2) (simp_all add: quote_json_def)
    have j: "Join (map (\<lambda>(k, v). quote_json k @ '':'' @ marshal v) (p # ms)) '','' = quote_json k @ '':'' @ marshal v @ '','' @ ?j"
      using Cons p by simp
    have "parse_value m (marshal v @ CHR '','' # ?t) = Some (wire v, CHR '','' # ?t)"
      using ok(1) Cons.prems(3) n unfolding j by (intro readsD) auto
    moreover have "parse_members m ?t = Some (map (\<lambda>(k, v). (arrives k, marshal v, wire v)) ms, rest)"
    proof (rule Cons.IH)
      show "2 * length ?j + 1 \<le> m" using Cons.prems(3) n unfolding j by simp
      show "reads v \<and> wire_ok v" if "(k, v) \<in> set ms" for k v using Cons.prems(2)[of k v] that by simp
    qed (use Cons in simp)
    ultimately show ?thesis
      unfolding j using n p sc ok(2) x by (simp add: parse_members.simps(2))
  qed
qed simp

lemma wire_reads: "wire_ok v \<Longrightarrow> reads v"
proof (induction v)
  case GNull
  have "parse_value (Suc m) (''null'' @ rest) = Some (JNull, rest)" for m rest
    by (simp add: parse_value.simps(2) keyword_def HasPrefix_def)
  moreover have "2 * length ''null'' \<le> n \<Longrightarrow> \<exists>m. n = Suc m" for n by (cases n) simp_all
  ultimately show ?case unfolding reads_def marshal.simps wire.simps by blast
next
  case (GBool b)
  have "parse_value (Suc m) ((if b then ''true'' else ''false'') @ rest) = Some (JBool b, rest)" for m rest
    by (simp add: parse_value.simps(2) keyword_def HasPrefix_def)
  moreover have "2 * length (if b then ''true'' else ''false'') \<le> n \<Longrightarrow> \<exists>m. n = Suc m" for n by (cases n; cases b) simp_all
  ultimately show ?case unfolding reads_def marshal.simps wire.simps by blast
next
  case (GInt i)
  show ?case by (rule reads_number[OF number_Itoa]) simp_all
next
  case (GNumText t)
  then show ?case by (intro reads_number[of t]) simp_all
next
  case (GStr s)
  have "2 * length (quote_json s) \<le> n \<Longrightarrow> \<exists>m. n = Suc m" for n by (cases n) (auto simp: quote_json_def)
  moreover have "parse_value (Suc m) (quote_json s @ rest) = Some (JStr (arrives s), rest)" for m rest
    by (simp add: quote_json_quoted parse_value.simps(2) scan_quoted unquote_quoted)
  ultimately show ?case by (auto simp: reads_def)
next
  case (GArr vs)
  have "parse_value n (marshal (GArr vs) @ rest) = Some (wire (GArr vs), rest)"
    if n: "2 * length (marshal (GArr vs)) \<le> n" for n rest
  proof (cases vs)
    case Nil
    with n obtain m where "n = Suc m" by (cases n) auto
    with Nil show ?thesis by (simp add: parse_value.simps(2))
  next
    case (Cons v vs2)
    from n obtain m where m: "n = Suc m" by (cases n) auto
    have ok: "wire_ok v" using Cons GArr.prems by simp
    then obtain c u where c: "marshal v = c # u" "value_start c" by (rule marshal_start)
    obtain x where x: "Join (map marshal vs) '','' @ CHR '']'' # rest = c # x" using Cons c by (cases vs2) simp_all
    have "parse_elems m (Join (map marshal vs) '','' @ CHR '']'' # rest) = Some (map (\<lambda>v. (marshal v, wire v)) vs, rest)"
      using Cons GArr n m by (intro reads_elems) (auto simp: list_all_iff)
    with c x m show ?thesis by (simp add: parse_value.simps(2) value_start_def)
  qed
  then show ?case by (simp add: reads_def)
next
  case (GObj ms)
  have "parse_value n (marshal (GObj ms) @ rest) = Some (wire (GObj ms), rest)"
    if n: "2 * length (marshal (GObj ms)) \<le> n" for n rest
  proof (cases ms)
    case Nil
    with n obtain m where "n = Suc m" by (cases n) auto
    with Nil show ?thesis by (simp add: parse_value.simps(2))
  next
    case (Cons p ms2)
    from n obtain m where m: "n = Suc m" by (cases n) auto
    let ?j = "Join (map (\<lambda>(k, v). quote_json k @ '':'' @ marshal v) ms) '',''"
    obtain x where x: "?j @ CHR ''}'' # rest = DQ # x"
      using Cons by (cases p; cases ms2) (simp_all add: quote_json_def)
    have "parse_members m (?j @ CHR ''}'' # rest) = Some (map (\<lambda>(k, v). (arrives k, marshal v, wire v)) ms, rest)"
    proof (rule reads_members)
      show "2 * length ?j + 1 \<le> m" using n m by simp
      show "reads v \<and> wire_ok v" if "(k, v) \<in> set ms" for k v
        using GObj.IH[OF that, of v] GObj.prems that by (auto simp: list_all_iff)
    qed (use Cons in simp)
    with x m show ?thesis by (simp add: parse_value.simps(2))
  qed
  then show ?case by (simp add: reads_def)
qed simp

lemma wire_reads_length: "wire_ok v \<Longrightarrow> parse_value (2 * length (marshal v @ rest) + 2) (marshal v @ rest) = Some (wire v, rest)" if "ends_value rest"
  using wire_reads[of v] that by (intro readsD) simp_all

text \<open>A marshalled value is read back as itself, also when a line end follows.\<close>

lemma parse_marshal:
  assumes "wire_ok v" "json_depth (wire v) \<le> maxNestingDepth"
  shows "parse_json (marshal v) = Some (wire v)"
  using wire_reads_length[of "[]" v] assms skip_ws_marshal[OF assms(1), of "[]"] by (simp add: parse_json_def)

subsection \<open>Decoding a request body\<close>

text \<open>
  \<open>Decoder.Decode\<close> reads the first value of a stream; with \<open>DisallowUnknownFields\<close> a member
  that matches no field is an error as well. The fields of the bodies read that way are
  plain, so only the members of the outer object matter.
\<close>

definition first_value :: "gostring \<Rightarrow> json option" where
  "first_value body =
     (let s = skip_ws body in
      case parse_value (2 * length s + 2) s of
        None \<Rightarrow> None
      | Some (v, r) \<Rightarrow> if json_depth v \<le> maxNestingDepth then Some v else None)"

definition unknown_member :: "(gostring \<times> 'r decoder) list \<Rightarrow> json \<Rightarrow> bool" where
  "unknown_member fs v \<longleftrightarrow> (case v of JObj ms \<Rightarrow> list_ex (\<lambda>(k, _). find_field fs k = None) ms | _ \<Rightarrow> False)"

definition decode_strict :: "(gostring \<times> 'r decoder) list \<Rightarrow> 'r \<Rightarrow> gostring \<Rightarrow> 'r option" where
  "decode_strict fs zero body =
     (case first_value body of
        None \<Rightarrow> None
      | Some v \<Rightarrow> (case dec_struct fs v zero of (r, err) \<Rightarrow> if err \<or> unknown_member fs v then None else Some r))"

definition decode_body :: "(gostring \<times> 'r decoder) list \<Rightarrow> 'r \<Rightarrow> gostring \<Rightarrow> 'r option" where
  "decode_body fs zero body =
     (case first_value body of
        None \<Rightarrow> None
      | Some v \<Rightarrow> (case dec_struct fs v zero of (r, err) \<Rightarrow> if err then None else Some r))"

lemma first_value_marshal:
  assumes "wire_ok v" "json_depth (wire v) \<le> maxNestingDepth"
  shows "first_value (marshal v) = Some (wire v)"
  using wire_reads_length[of "[]" v] assms skip_ws_marshal[OF assms(1), of "[]"] by (simp add: first_value_def)

subsection \<open>What was read can be written\<close>

text \<open>The numbers of a parsed document are numbers.\<close>

fun numbers_ok :: "json \<Rightarrow> bool" where
  "numbers_ok (JNum t) = number_ok t"
| "numbers_ok (JArr es) = list_all (\<lambda>(raw, v). numbers_ok v) es"
| "numbers_ok (JObj ms) = list_all (\<lambda>(k, raw, v). numbers_ok v) ms"
| "numbers_ok _ = True"

lemma lex_int_split: "lex_int s = Some (i, r) \<Longrightarrow> s = i @ r \<and> lex_int i = Some (i, [])"
  by (auto simp: lex_int_def digits_of_def takeWhile_idem dropWhile_eq_Nil_conv dest: set_takeWhileD split: list.splits if_splits)

lemma lex_frac_split: "lex_frac s = Some (f, r) \<Longrightarrow> s = f @ r \<and> lex_frac f = Some (f, [])"
  by (auto simp: lex_frac_def digits_of_def takeWhile_idem dropWhile_eq_Nil_conv dest: set_takeWhileD split: list.splits if_splits)

lemma lex_exp_split:
  assumes "lex_exp s = Some (e, r)"
  shows "s = e @ r \<and> lex_exp e = Some (e, [])"
proof (cases "e = []")
  case True
  with assms show ?thesis by (auto simp: lex_exp_def Let_def split: list.splits if_splits prod.splits)
next
  case False
  then obtain c u where s: "s = c # u" "c = CHR ''e'' \<or> c = CHR ''E''"
    using assms by (auto simp: lex_exp_def split: list.splits if_splits)
  define sgn where "sgn = (if u \<noteq> [] \<and> (hd u = CHR ''+'' \<or> hd u = CHR ''-'') then [hd u] else [])"
  obtain d where d: "digits_of (drop (length sgn) u) = (d, r)" "d \<noteq> []" "e = c # sgn @ d"
    using assms s by (auto simp: lex_exp_def Let_def sgn_def split: if_splits prod.splits)
  have u: "u = sgn @ drop (length sgn) u" by (cases u) (simp_all add: sgn_def)
  have dd: "list_all is_digit d" "drop (length sgn) u = d @ r"
    using d(1) by (auto simp: digits_of_def list_all_iff dest: set_takeWhileD)
  have "hd d \<noteq> CHR ''+''" "hd d \<noteq> CHR ''-''"
    using dd(1) d(2) by (cases d; auto simp: is_digit_def Let_def)+
  then have "(if sgn @ d \<noteq> [] \<and> (hd (sgn @ d) = CHR ''+'' \<or> hd (sgn @ d) = CHR ''-'') then [hd (sgn @ d)] else []) = sgn"
    by (auto simp: sgn_def)
  moreover have "digits_of d = (d, [])"
    using dd(1) by (simp add: digits_of_def takeWhile_eq_all_conv dropWhile_eq_Nil_conv list_all_iff)
  ultimately show ?thesis
    using s d(2,3) u dd(2) by (simp add: lex_exp_def Let_def)
qed

lemma lex_number_ok: "lex_number s = Some (t, r) \<Longrightarrow> number_ok t"
proof -
  assume "lex_number s = Some (t, r)"
  moreover define sgn where "sgn = (if s \<noteq> [] \<and> hd s = CHR ''-'' then ''-'' else [])"
  ultimately obtain i s1 f s2 e where l: "lex_int (drop (length sgn) s) = Some (i, s1)" "lex_frac s1 = Some (f, s2)"
    "lex_exp s2 = Some (e, r)" "t = sgn @ i @ f @ e"
    by (auto simp: lex_number_def Let_def split: option.splits prod.splits if_splits)
  note p = lex_int_split[OF l(1), THEN conjunct2] lex_frac_split[OF l(2), THEN conjunct2] lex_exp_split[OF l(3), THEN conjunct2]
  have f: "f = [] \<or> hd f = CHR ''.''" and e: "e = [] \<or> hd e = CHR ''e'' \<or> hd e = CHR ''E''"
    using p(2,3) by (auto simp: lex_frac_def lex_exp_def Let_def split: list.splits if_splits prod.splits)
  have nd: "\<not> is_digit (CHR ''.'')" "\<not> is_digit (CHR ''e'')" "\<not> is_digit (CHR ''E'')" by (simp_all add: is_digit_def Let_def)
  have "f @ e = [] \<or> \<not> is_digit (hd (f @ e))" using f e nd by (cases f) auto
  moreover have "e = [] \<or> \<not> is_digit (hd e) \<and> hd e \<noteq> CHR ''.''" using e nd by auto
  ultimately have q: "lex_int (i @ f @ e) = Some (i, f @ e)" "lex_frac (f @ e) = Some (f, e)"
    using lex_int_append[OF p(1), of "f @ e"] lex_frac_append[OF p(2), of e] by simp_all
  have "i \<noteq> []" "hd i \<noteq> CHR ''-''"
    using p(1) by (cases i; auto simp: lex_int_def is_digit_def Let_def split: if_splits)+
  then have "(if t \<noteq> [] \<and> hd t = CHR ''-'' then ''-'' else []) = sgn" unfolding l(4) sgn_def by auto
  then show ?thesis using q p(3) by (simp add: number_ok_def lex_number_def Let_def l(4))
qed

lemma parse_numbers:
  "parse_value n s = Some (v, r) \<Longrightarrow> numbers_ok v"
  "parse_elems n s = Some (es, r) \<Longrightarrow> list_all (\<lambda>(raw, v). numbers_ok v) es"
  "parse_members n s = Some (ms, r) \<Longrightarrow> list_all (\<lambda>(k, raw, v). numbers_ok v) ms"
proof (induction n s and n s and n s arbitrary: v r and es r and ms r rule: parse_value_parse_elems_parse_members.induct)
  case (2 n s)
  then show ?case
    by (auto simp: parse_value.simps(2) keyword_def Let_def lex_number_ok split: list.splits if_splits)
next
  case (4 n s)
  then show ?case
    by (auto simp: parse_elems.simps(2) Let_def split: option.splits if_splits)
next
  case (6 n s)
  then show ?case
    by (auto simp: parse_members.simps(2) Let_def split: option.splits if_splits)
qed simp_all

lemma parse_json_ok: "parse_json raw = Some v \<Longrightarrow> numbers_ok v \<and> json_depth v \<le> maxNestingDepth"
  by (auto simp: parse_json_def Let_def dest: parse_numbers(1) split: option.splits if_splits)

text \<open>A value that goes through an interface can be written, if numbers are printed as numbers.\<close>

lemma fold_put_members: "(k, v) \<in> set (fold (\<lambda>(k, v) m. alist_put k v m) ps m) \<Longrightarrow> (k, v) \<in> set ps \<or> (k, v) \<in> set m"
  by (induction ps arbitrary: m) (auto dest: set_alist_put_subset[THEN subsetD])

definition prints_numbers :: "(gostring \<Rightarrow> gostring option) \<Rightarrow> bool" where
  "prints_numbers num \<longleftrightarrow> (\<forall>lit t. number_ok lit \<longrightarrow> num lit = Some t \<longrightarrow> number_ok t)"

lemma any_value_wire_ok: "prints_numbers num \<Longrightarrow> numbers_ok v \<Longrightarrow> wire_ok (any_value num v)"
proof (induction num v rule: any_value.induct)
  case (6 num ms)
  have "wire_ok x" if "(k, x) \<in> set (fold (\<lambda>(k, v) m. alist_put k v m) (map (\<lambda>(k, raw, v). (k, any_value num v)) ms) [])" for k x
    using fold_put_members[OF that] 6 by (fastforce simp: list_all_iff)
  then show ?case by (auto simp: go_map_def list_all_iff)
qed (auto simp: list_all_iff number_value_def prints_numbers_def split: option.splits)

text \<open>Every string the decoder makes is valid UTF-8, so it is written and read back as it is.\<close>

lemma arrives_rune: "arrives (encode_rune r @ s) = encode_rune r @ arrives s"
proof -
  obtain q where q: "valid_rune q" "encode_rune r = encode_rune q"
  proof (cases "valid_rune r")
    case False
    then show ?thesis by (intro that[of rune_error]) (simp_all add: encode_rune_def encode_bytes_def valid_rune_def rune_error_def)
  qed (rule that; simp)
  then show ?thesis by (simp add: arrives_def runes_def rune_segs_encode encode_runes_def)
qed

lemma arrives_byte:
  assumes "(of_char c :: nat) < 128" shows "arrives (c # s) = c # arrives s"
  using arrives_rune[of "of_char c" s] assms by (simp add: encode_rune_ascii)

lemma simple_escape_byte: "simple_escape e = Some x \<Longrightarrow> (of_char x :: nat) < 128"
  by (auto simp: simple_escape_def split: if_splits)

lemma arrives_unquote: "arrives (unquote s) = unquote s"
proof (induction s rule: unquote.induct)
  case (2 c s)
  show ?case
  proof (cases "c = BS")
    case False
    then show ?thesis
    proof (cases "(of_char c :: nat) < 128")
      case True
      then show ?thesis using 2(6) False by (simp add: unquote.simps(2)[of c s] arrives_byte)
    next
      case high: False
      obtain r w where "decode_rune (bytes_of (c # s)) = (r, w)" by fastforce
      then show ?thesis using 2(7) False high by (simp add: unquote.simps(2)[of c s] arrives_rune del: drop_Cons)
    qed
  next
    case True
    show ?thesis
    proof (cases "getu4 (c # s)")
      case None
      have e: "arrives (unquote t) = unquote t" if "s = e # t" "simple_escape e = Some x" for e t x
        using 2(1) True None that by simp
      show ?thesis
      proof (cases s)
        case (Cons d t)
        then show ?thesis using True None e[OF Cons]
          by (cases "simple_escape d")
            (simp_all add: unquote.simps(2)[of BS "d # t"] arrives_byte simple_escape_byte arrives_ascii)
      qed (use True None in \<open>simp add: unquote.simps(2)[of BS Nil] arrives_ascii\<close>)
    next
      case (Some r)
      then show ?thesis using 2(2,3,4,5)[of r] True
        by (cases "surrogate r"; cases "getu4 (drop 5 s)") (auto simp add: unquote.simps(2)[of BS s] arrives_rune Let_def)
    qed
  qed
qed (simp add: arrives_ascii)

fun strings_ok :: "json \<Rightarrow> bool" where
  "strings_ok (JStr s) = (arrives s = s)"
| "strings_ok (JArr es) = list_all (\<lambda>(raw, v). strings_ok v) es"
| "strings_ok (JObj ms) = list_all (\<lambda>(k, raw, v). arrives k = k \<and> strings_ok v) ms"
| "strings_ok _ = True"

lemma parse_strings:
  "parse_value n s = Some (v, r) \<Longrightarrow> strings_ok v"
  "parse_elems n s = Some (es, r) \<Longrightarrow> list_all (\<lambda>(raw, v). strings_ok v) es"
  "parse_members n s = Some (ms, r) \<Longrightarrow> list_all (\<lambda>(k, raw, v). arrives k = k \<and> strings_ok v) ms"
proof (induction n s and n s and n s arbitrary: v r and es r and ms r rule: parse_value_parse_elems_parse_members.induct)
  case (2 n s)
  then show ?case
    by (auto simp: parse_value.simps(2) keyword_def Let_def arrives_unquote split: list.splits if_splits)
next
  case (4 n s)
  then show ?case
    by (auto simp: parse_elems.simps(2) Let_def split: option.splits if_splits)
next
  case (6 n s)
  then show ?case
    by (auto simp: parse_members.simps(2) Let_def arrives_unquote split: option.splits if_splits)
qed simp_all

lemma parse_json_strings: "parse_json raw = Some v \<Longrightarrow> strings_ok v"
  by (auto simp: parse_json_def Let_def dest: parse_strings(1) split: option.splits if_splits)

subsection \<open>The same value\<close>

text \<open>
  \<open>w\<close> is the value \<open>v\<close>: the same scalars, numbers as \<open>num\<close> gives them back, arrays element by
  element, and objects member by member, the last one of a name in \<open>v\<close>, each name once in \<open>w\<close>.
\<close>

definition last_member :: "gostring \<Rightarrow> (gostring \<times> gostring \<times> json) list \<Rightarrow> json option" where
  "last_member k ms = map_of (rev (map (\<lambda>(k, raw, v). (k, v)) ms)) k"

inductive same_value :: "(gostring \<Rightarrow> gostring option) \<Rightarrow> json \<Rightarrow> json \<Rightarrow> bool" for num where
  same_null: "same_value num JNull JNull"
| same_bool: "same_value num (JBool b) (JBool b)"
| same_num: "number_value num lit = Some t \<Longrightarrow> same_value num (JNum lit) (JNum t)"
| same_str: "same_value num (JStr s) (JStr s)"
| same_arr: "list_all2 (same_value num) (map snd es) (map snd es') \<Longrightarrow> same_value num (JArr es) (JArr es')"
| same_obj: "distinct (map fst ms') \<Longrightarrow> (\<And>k. rel_option (same_value num) (last_member k ms) (last_member k ms')) \<Longrightarrow>
    same_value num (JObj ms) (JObj ms')"

lemma fold_put_get:
  "alist_get (fold (\<lambda>(k, v) m. alist_put k v m) ps m) k = (case map_of (rev ps) k of None \<Rightarrow> alist_get m k | Some v \<Rightarrow> Some v)"
  by (induction ps arbitrary: m) (auto simp: map_add_def split: option.splits)

lemma fold_put_distinct: "distinct (keys m) \<Longrightarrow> distinct (keys (fold (\<lambda>(k, v) m. alist_put k v m) ps m))"
  by (induction ps arbitrary: m) auto

lemma map_of_permuted:
  "distinct (map fst ps) \<Longrightarrow> distinct qs \<Longrightarrow> set qs = set ps \<Longrightarrow> map_of qs = map_of ps"
  by (subst map_of_inject_set) (simp_all add: distinct_map)

lemma last_member_wire:
  assumes "distinct (map fst m)" "\<forall>k\<in>set (map fst m). arrives k = k"
  shows "last_member k (map (\<lambda>(k, v). (arrives k, marshal v, wire v)) m) = map_option wire (map_of m k)"
proof -
  have "map (\<lambda>(k, raw, v). (k, v)) (map (\<lambda>(k, v). (arrives k, marshal v, wire v)) m) = map (\<lambda>(k, v). (k, wire v)) m"
    using assms(2) by auto
  moreover have "map_of (rev (map (\<lambda>(k, v). (k, wire v)) m)) = map_of (map (\<lambda>(k, v). (k, wire v)) m)"
    using assms(1) by (intro map_of_permuted) (auto simp: case_prod_beta comp_def distinct_map inj_on_def)
  ultimately show ?thesis by (simp only: last_member_def map_of_map comp_apply)
qed

lemma same_value_wire: "strings_ok v \<Longrightarrow> \<not> number_error num v \<Longrightarrow> same_value num v (wire (any_value num v))"
proof (induction num v rule: any_value.induct)
  case (3 num lit)
  then show ?case by (auto intro: same_num)
next
  case (5 num es)
  have "list_all2 (same_value num) (map snd es) (map (\<lambda>(raw, v). wire (any_value num v)) es)"
    unfolding list_all2_conv_all_nth
  proof (intro conjI allI impI)
    fix i assume "i < length (map snd es)"
    then have i: "i < length es" by simp
    obtain r v where rv: "es ! i = (r, v)" by fastforce
    then have e: "(r, v) \<in> set es" using nth_mem[OF i] by simp
    then have "strings_ok v" "\<not> number_error num v" using 5(2,3) by (auto simp: list_all_iff list_ex_iff)
    then have "same_value num v (wire (any_value num v))" using 5(1)[OF e refl] by simp
    then show "same_value num (map snd es ! i) (map (\<lambda>(raw, v). wire (any_value num v)) es ! i)"
      using i rv by simp
  qed simp
  moreover have "map (\<lambda>(raw, v). wire (any_value num v)) es = map snd (map (\<lambda>v. (marshal v, wire v)) (map (\<lambda>(raw, v). any_value num v) es))"
    by auto
  ultimately have "list_all2 (same_value num) (map snd es) (map snd (map (\<lambda>v. (marshal v, wire v)) (map (\<lambda>(raw, v). any_value num v) es)))"
    by (simp only:)
  then show ?case unfolding any_value.simps wire.simps by (rule same_arr)
next
  case (6 num ms)
  let ?ps = "map (\<lambda>(k, raw, v). (k, any_value num v)) ms"
  let ?m = "fold (\<lambda>(k, v) m. alist_put k v m) ?ps []"
  have d: "distinct (map fst (sort_key fst ?m))"
    using fold_put_distinct[of "[]" ?ps] by (simp add: keys_def distinct_map)
  have a: "\<forall>k\<in>set (map fst (sort_key fst ?m)). arrives k = k"
  proof
    fix k assume "k \<in> set (map fst (sort_key fst ?m))"
    then obtain x where "(k, x) \<in> set ?m" by auto
    then have "(k, x) \<in> set ?ps" using fold_put_members[of k x ?ps "[]"] by simp
    then show "arrives k = k" using 6(2) by (auto simp: list_all_iff)
  qed
  have dm: "distinct (map fst ?m)" using fold_put_distinct[of "[]" ?ps] by (simp add: keys_def)
  then have "map_of (sort_key fst ?m) = map_of ?m" by (intro map_of_permuted) (simp_all add: distinct_map)
  moreover have "map_of ?m k = map_of (rev ?ps) k" for k
    using fold_put_get[of ?ps "[]" k] by (simp add: alist_get_def split: option.splits)
  ultimately have g: "map_of (sort_key fst ?m) k = map_of (rev ?ps) k" for k by simp
  have "rel_option (same_value num) (last_member k ms) (map_option wire (map_of (rev ?ps) k))" for k
  proof -
    have "map_of (rev ?ps) k = map_option (any_value num) (last_member k ms)"
    proof -
      have "rev ?ps = map (\<lambda>(k, v). (k, any_value num v)) (rev (map (\<lambda>(k, raw, v). (k, v)) ms))"
        by (auto simp: rev_map)
      then show ?thesis by (simp only: last_member_def map_of_map comp_apply)
    qed
    moreover have "same_value num v (wire (any_value num v))" if "last_member k ms = Some v" for v
    proof -
      have "(k, v) \<in> set (map (\<lambda>(k, raw, v). (k, v)) ms)" using map_of_SomeD[OF that[unfolded last_member_def]] by simp
      then show ?thesis using 6 by (fastforce simp: list_all_iff list_ex_iff)
    qed
    ultimately show ?thesis by (cases "last_member k ms") simp_all
  qed
  moreover have "map fst (map (\<lambda>(k, v). (arrives k, marshal v, wire v)) (sort_key fst ?m)) = map fst (sort_key fst ?m)"
    using a by auto
  ultimately show ?case unfolding any_value.simps go_map_def wire.simps
    by (intro same_obj) (use d in \<open>simp_all only: last_member_wire[OF d a] g\<close>)
qed (auto intro: same_value.intros)


text \<open>What is written is nested no deeper than what was read.\<close>

lemma foldr_max_le: "foldr max ns 0 \<le> (m::nat) \<longleftrightarrow> (\<forall>n\<in>set ns. n \<le> m)"
  by (induction ns) auto

lemma le_foldr_max: "n \<in> set ns \<Longrightarrow> n \<le> foldr max ns (0::nat)"
  using foldr_max_le[of ns "foldr max ns 0"] by simp

lemma any_value_depth: "json_depth (wire (any_value num v)) \<le> json_depth v"
proof (induction num v rule: any_value.induct)
  case (5 num es)
  have "json_depth (wire (any_value num v)) \<le> foldr max (map (\<lambda>(raw, v). json_depth v) es) 0" if "(r, v) \<in> set es" for r v
  proof -
    have "json_depth v \<le> foldr max (map (\<lambda>(raw, v). json_depth v) es) 0" by (rule le_foldr_max) (use that in force)
    then show ?thesis using 5[OF that refl] by simp
  qed
  then show ?case by (auto simp: foldr_max_le)
next
  case (6 num ms)
  have "json_depth (wire x) \<le> foldr max (map (\<lambda>(k, raw, v). json_depth v) ms) 0"
    if x: "(k, x) \<in> set (fold (\<lambda>(k, v) m. alist_put k v m) (map (\<lambda>(k, raw, v). (k, any_value num v)) ms) [])" for k x
  proof -
    obtain raw v where v: "(k, raw, v) \<in> set ms" "x = any_value num v" using fold_put_members[OF x] by auto
    have "json_depth v \<le> foldr max (map (\<lambda>(k, raw, v). json_depth v) ms) 0" by (rule le_foldr_max) (use v(1) in force)
    then show ?thesis using 6[OF v(1) refl refl] v(2) by simp
  qed
  then show ?case by (auto simp: go_map_def foldr_max_le)
qed (auto split: option.splits)

end
