(* ===== verification/Permission.thy ===== *)
theory Permission
  imports GoChan GoStrings
begin

section \<open>The permission broker\<close>

text \<open>
  \<open>daemon/internal/permission/store.go\<close>: requests parked until the remote user decides. A
  pending entry holds its own channel of capacity one; \<open>Await\<close> looks the entry up and then
  selects over the channel, the timer and the context, \<open>Decide\<close> and \<open>Cancel\<close> look the
  entry up and then send without blocking. Between the two halves other goroutines run, so
  the halves are separate steps of the transition system at the end.
\<close>

subsection \<open>Data\<close>

type_synonym Decision = gostring
type_synonym Reason = gostring

definition DecisionAllow :: Decision where "DecisionAllow = ''allow''"
definition DecisionDeny :: Decision where "DecisionDeny = ''deny''"

definition IsAllow :: "Decision \<Rightarrow> bool" where
  "IsAllow d \<longleftrightarrow> d = DecisionAllow"

definition ReasonUser :: Reason where "ReasonUser = ''user''"
definition ReasonTimeout :: Reason where "ReasonTimeout = ''timeout''"
definition ReasonCancelled :: Reason where "ReasonCancelled = ''cancelled''"

lemmas decision_consts = DecisionAllow_def DecisionDeny_def ReasonUser_def ReasonTimeout_def
  ReasonCancelled_def

record Outcome =
  out_Decision :: Decision
  out_Reason :: Reason

record Request =
  ID :: gostring
  TerminalSessionID :: gostring
  ClaudeSessionID :: gostring
  ToolName :: gostring
  Input :: gostring
  CreatedAt :: time

datatype perm_error = ErrIDRequired | ErrNotFound | ErrAlreadyExists | ErrTimeout | ErrDecision | ErrContext

record pending =
  p_req :: Request
  p_ch :: nat

record Store =
  pendings :: "(gostring \<times> pending) list"
  outcome_chans :: "Outcome heap"

definition NewStore :: Store where
  "NewStore = \<lparr>pendings = [], outcome_chans = []\<rparr>"

subsection \<open>Operations\<close>

definition Register :: "time \<Rightarrow> Request \<Rightarrow> Store \<Rightarrow> perm_error + Store" where
  "Register now r s =
     (if ID r = [] then Inl ErrIDRequired
      else let r = (if CreatedAt r = 0 then r\<lparr>CreatedAt := now\<rparr> else r) in
        if alist_get (pendings s) (ID r) \<noteq> None then Inl ErrAlreadyExists
        else case alloc 1 (outcome_chans s) of (c, h) \<Rightarrow>
          Inr (s\<lparr>pendings := alist_put (ID r) \<lparr>p_req = r, p_ch = c\<rparr> (pendings s), outcome_chans := h\<rparr>))"

definition delete_pending :: "gostring \<Rightarrow> Store \<Rightarrow> Store" where
  "delete_pending rid s = s\<lparr>pendings := alist_del rid (pendings s)\<rparr>"

text \<open>The first half of \<open>Await\<close>, \<open>Decide\<close> and \<open>Cancel\<close>: the channel of the entry.\<close>

definition lookup_pending :: "gostring \<Rightarrow> Store \<Rightarrow> nat option" where
  "lookup_pending rid s = map_option p_ch (alist_get (pendings s) rid)"

text \<open>
  The \<open>select\<close> of \<open>Await\<close>: which case fires is the scheduler's choice among the ready ones;
  \<open>None\<close> says that the chosen case is not ready. With \<open>timeout \<le> 0\<close> the timer channel is nil
  and never ready.
\<close>

datatype wake = WakeOutcome | WakeTimeout | WakeContext

fun Await_fires :: "wake \<Rightarrow> nat \<Rightarrow> duration \<Rightarrow> Store \<Rightarrow> ((perm_error + Outcome) \<times> Store) option" where
  "Await_fires WakeOutcome c timeout s =
     (case recv (outcome_chans s ! c) of
        None \<Rightarrow> None
      | Some (out, k) \<Rightarrow> Some (Inr out, s\<lparr>outcome_chans := (outcome_chans s)[c := k]\<rparr>))"
| "Await_fires WakeTimeout c timeout s = (if timeout > 0 then Some (Inl ErrTimeout, s) else None)"
| "Await_fires WakeContext c timeout s = Some (Inl ErrContext, s)"

text \<open>What the case does then, under the lock again: the entry goes, except when the context is done.\<close>

definition Await_leave :: "wake \<Rightarrow> gostring \<Rightarrow> Store \<Rightarrow> Store" where
  "Await_leave w rid s = (if w = WakeContext then s else delete_pending rid s)"

text \<open>The two together, for a wait that nothing interrupts there.\<close>

definition Await_select :: "wake \<Rightarrow> gostring \<Rightarrow> nat \<Rightarrow> duration \<Rightarrow> Store \<Rightarrow> ((perm_error + Outcome) \<times> Store) option" where
  "Await_select w rid c timeout s = map_option (\<lambda>(res, t). (res, Await_leave w rid t)) (Await_fires w c timeout s)"

lemma Await_select_simps [simp]:
  "Await_select WakeOutcome rid c timeout s =
     (case recv (outcome_chans s ! c) of
        None \<Rightarrow> None
      | Some (out, k) \<Rightarrow> Some (Inr out, delete_pending rid (s\<lparr>outcome_chans := (outcome_chans s)[c := k]\<rparr>)))"
  "Await_select WakeTimeout rid c timeout s =
     (if timeout > 0 then Some (Inl ErrTimeout, delete_pending rid s) else None)"
  "Await_select WakeContext rid c timeout s = Some (Inl ErrContext, s)"
  by (auto simp: Await_select_def Await_leave_def split: option.split)

definition Await :: "wake \<Rightarrow> gostring \<Rightarrow> duration \<Rightarrow> Store \<Rightarrow> ((perm_error + Outcome) \<times> Store) option" where
  "Await w rid timeout s =
     (case lookup_pending rid s of
        None \<Rightarrow> Some (Inl ErrNotFound, s)
      | Some c \<Rightarrow> Await_select w rid c timeout s)"

text \<open>The second half of \<open>Decide\<close> and \<open>Cancel\<close>: the non-blocking send.\<close>

definition offer :: "Outcome \<Rightarrow> nat \<Rightarrow> Store \<Rightarrow> panic + Store" where
  "offer out c s = bind_sum (send_at out c (outcome_chans s)) (\<lambda>h. Inr (s\<lparr>outcome_chans := h\<rparr>))"

definition Decide_check :: "gostring \<Rightarrow> Decision \<Rightarrow> Store \<Rightarrow> perm_error + nat" where
  "Decide_check rid d s =
     (if d \<noteq> DecisionAllow \<and> d \<noteq> DecisionDeny then Inl ErrDecision
      else case lookup_pending rid s of None \<Rightarrow> Inl ErrNotFound | Some c \<Rightarrow> Inr c)"

definition user_outcome :: "Decision \<Rightarrow> Outcome" where
  "user_outcome d = \<lparr>out_Decision = d, out_Reason = ReasonUser\<rparr>"

definition cancel_outcome :: Outcome where
  "cancel_outcome = \<lparr>out_Decision = DecisionDeny, out_Reason = ReasonCancelled\<rparr>"

definition Decide :: "gostring \<Rightarrow> Decision \<Rightarrow> Store \<Rightarrow> panic + (perm_error option \<times> Store)" where
  "Decide rid d s =
     (case Decide_check rid d s of
        Inl e \<Rightarrow> Inr (Some e, s)
      | Inr c \<Rightarrow> bind_sum (offer (user_outcome d) c s) (\<lambda>t. Inr (None, t)))"

definition Cancel :: "gostring \<Rightarrow> Store \<Rightarrow> panic + Store" where
  "Cancel rid s =
     (case lookup_pending rid s of None \<Rightarrow> Inr s | Some c \<Rightarrow> offer cancel_outcome c s)"

definition ListRequests :: "Store \<Rightarrow> Request list" where
  "ListRequests s = map (\<lambda>p. p_req (snd p)) (pendings s)"

lemmas perm_ops = Register_def delete_pending_def lookup_pending_def Await_def offer_def Decide_check_def Decide_def
  Cancel_def ListRequests_def

subsection \<open>Well-formed stores\<close>

definition store_ok :: "Store \<Rightarrow> bool" where
  "store_ok s \<longleftrightarrow>
     distinct (keys (pendings s)) \<and>
     (\<forall>(rid, p)\<in>set (pendings s). rid = ID (p_req p) \<and> rid \<noteq> [] \<and> p_ch p < length (outcome_chans s)) \<and>
     distinct (map (\<lambda>p. p_ch (snd p)) (pendings s)) \<and>
     (\<forall>c\<in>set (outcome_chans s). \<not> chan_closed c \<and> chan_cap c = 1 \<and> length (chan_buf c) \<le> 1)"

lemma store_ok_NewStore: "store_ok NewStore"
  by (simp add: store_ok_def NewStore_def)

lemma lookup_pending_lt: "store_ok s \<Longrightarrow> lookup_pending rid s = Some c \<Longrightarrow> c < length (outcome_chans s)"
  by (fastforce simp: store_ok_def lookup_pending_def dest: alist_get_Some_mem)

lemma store_ok_chan: "store_ok s \<Longrightarrow> p \<in> set (pendings s) \<Longrightarrow> p_ch (snd p) < length (outcome_chans s)"
  by (auto simp: store_ok_def)

lemma store_ok_add:
  assumes "store_ok s" "ID r \<noteq> []" "ID r \<notin> set (keys (pendings s))"
  shows "store_ok (s\<lparr>pendings := pendings s @ [(ID r, \<lparr>p_req = r, p_ch = length (outcome_chans s)\<rparr>)],
                     outcome_chans := outcome_chans s @ [make_chan (Suc 0)]\<rparr>)" (is "store_ok ?t")
proof -
  have fresh: "length (outcome_chans s) \<notin> (\<lambda>p. p_ch (snd p)) ` set (pendings s)"
    using store_ok_chan[OF assms(1)] by (metis (no_types, lifting) image_iff less_irrefl)
  have "\<forall>(rid, p)\<in>set (pendings ?t). rid = ID (p_req p) \<and> rid \<noteq> [] \<and> p_ch p < length (outcome_chans ?t)"
    using assms(1,2) by (auto simp: store_ok_def intro: less_SucI)
  moreover have "distinct (map (\<lambda>p. p_ch (snd p)) (pendings ?t))"
    using assms(1) fresh by (simp add: store_ok_def)
  moreover have "distinct (keys (pendings ?t))" using assms(1,3) by (simp add: store_ok_def)
  moreover have "\<forall>c\<in>set (outcome_chans ?t). \<not> chan_closed c \<and> chan_cap c = 1 \<and> length (chan_buf c) \<le> 1"
    using assms(1) by (simp add: store_ok_def)
  ultimately show ?thesis unfolding store_ok_def by blast
qed

lemma Register_Inr:
  assumes "Register now r s = Inr t"
  obtains r' where "r' = (if CreatedAt r = 0 then r\<lparr>CreatedAt := now\<rparr> else r)" "ID r' = ID r" "ID r \<noteq> []"
    "ID r \<notin> set (keys (pendings s))"
    "t = s\<lparr>pendings := pendings s @ [(ID r, \<lparr>p_req = r', p_ch = length (outcome_chans s)\<rparr>)],
          outcome_chans := outcome_chans s @ [make_chan (Suc 0)]\<rparr>"
  using assms
  by (auto simp: Register_def Let_def alloc_def alist_get_None_iff alist_put_new split: if_splits)

lemma store_ok_Register:
  assumes "store_ok s" "Register now r s = Inr t"
  shows "store_ok t"
proof -
  obtain r' where "ID r' = ID r" "ID r \<noteq> []" "ID r \<notin> set (keys (pendings s))"
    and t: "t = s\<lparr>pendings := pendings s @ [(ID r, \<lparr>p_req = r', p_ch = length (outcome_chans s)\<rparr>)],
          outcome_chans := outcome_chans s @ [make_chan (Suc 0)]\<rparr>"
    using assms(2) by (rule Register_Inr)
  then show ?thesis using store_ok_add[of s r'] assms(1) by simp
qed

lemma store_ok_delete_pending: "store_ok s \<Longrightarrow> store_ok (delete_pending rid s)"
  by (auto simp: store_ok_def delete_pending_def set_alist_del alist_del_def distinct_map_filter keys_def)

lemma store_ok_upd:
  assumes "store_ok s" "\<not> chan_closed k" "chan_cap k = 1" "length (chan_buf k) \<le> 1"
  shows "store_ok (s\<lparr>outcome_chans := (outcome_chans s)[c := k]\<rparr>)"
proof -
  have "set ((outcome_chans s)[c := k]) \<subseteq> insert k (set (outcome_chans s))"
    by (rule set_update_subset_insert)
  then have "\<forall>x\<in>set ((outcome_chans s)[c := k]). \<not> chan_closed x \<and> chan_cap x = 1 \<and> length (chan_buf x) \<le> 1"
    using assms unfolding store_ok_def by blast
  then show ?thesis using assms(1) by (simp add: store_ok_def)
qed

lemma store_ok_offer:
  assumes "store_ok s" "c < length (outcome_chans s)"
  shows "\<exists>t. offer out c s = Inr t \<and> store_ok t \<and> pendings t = pendings s \<and> length (outcome_chans t) = length (outcome_chans s)"
proof -
  have c: "\<not> chan_closed (outcome_chans s ! c)" "chan_cap (outcome_chans s ! c) = 1" "length (chan_buf (outcome_chans s ! c)) \<le> 1"
    using assms by (simp_all add: store_ok_def)
  obtain k where k: "try_send out (outcome_chans s ! c) = Inr k" using try_send_open[OF c(1)] by auto
  have k': "\<not> chan_closed k" "chan_cap k = 1" "length (chan_buf k) \<le> 1"
    using c try_send_closed[OF k] try_send_cap[OF k] try_send_bound[OF k] by simp_all
  have "offer out c s = Inr (s\<lparr>outcome_chans := (outcome_chans s)[c := k]\<rparr>)"
    by (simp add: offer_def send_at_def k)
  moreover have "store_ok (s\<lparr>outcome_chans := (outcome_chans s)[c := k]\<rparr>)"
    using assms(1) k' by (rule store_ok_upd)
  ultimately show ?thesis by simp
qed

lemma store_ok_fires:
  assumes "store_ok s" "Await_fires w c timeout s = Some (res, t)"
  shows "store_ok t"
proof (cases w)
  case WakeOutcome
  then obtain out k where k: "recv (outcome_chans s ! c) = Some (out, k)"
    and t: "t = s\<lparr>outcome_chans := (outcome_chans s)[c := k]\<rparr>"
    using assms(2) by (auto split: option.splits)
  have "store_ok (s\<lparr>outcome_chans := (outcome_chans s)[c := k]\<rparr>)"
  proof (cases "c < length (outcome_chans s)")
    case True
    then have "\<not> chan_closed (outcome_chans s ! c)" "chan_cap (outcome_chans s ! c) = 1" "length (chan_buf (outcome_chans s ! c)) \<le> 1"
      using assms(1) by (auto simp: store_ok_def)
    with k have "\<not> chan_closed k" "chan_cap k = 1" "length (chan_buf k) \<le> 1"
      by (auto simp: recv_def split: list.splits)
    with assms(1) show ?thesis by (rule store_ok_upd)
  next
    case False
    then show ?thesis using assms(1) by (simp add: list_update_beyond)
  qed
  with t show ?thesis by simp
qed (use assms in \<open>auto split: if_splits\<close>)

lemma store_ok_select:
  assumes "store_ok s" "Await_select w rid c timeout s = Some (res, t)"
  shows "store_ok t"
  using assms store_ok_fires[OF assms(1)]
  by (fastforce simp: Await_select_def Await_leave_def intro: store_ok_delete_pending)

subsection \<open>The contract of a broker\<close>

text \<open>
  What the callers of the store (the local API, the Nexus control channel and the Codex
  driver) rely on: a broker is a map from request ids to an optional answer.
\<close>

locale permission_broker =
  fixes register :: "time \<Rightarrow> Request \<Rightarrow> 's \<Rightarrow> perm_error + 's"
    and decide :: "gostring \<Rightarrow> Decision \<Rightarrow> 's \<Rightarrow> panic + (perm_error option \<times> 's)"
    and await :: "wake \<Rightarrow> gostring \<Rightarrow> duration \<Rightarrow> 's \<Rightarrow> ((perm_error + Outcome) \<times> 's) option"
    and ok :: "'s \<Rightarrow> bool"
    and answers :: "'s \<Rightarrow> gostring \<rightharpoonup> Outcome option"
  assumes register_ok: "ok s \<Longrightarrow> register now r s = Inr t \<Longrightarrow> ok t \<and> answers t = (answers s)(ID r \<mapsto> None)"
    and register_new: "ok s \<Longrightarrow> register now r s = Inr t \<Longrightarrow> answers s (ID r) = None"
    and register_taken: "ok s \<Longrightarrow> ID r \<noteq> [] \<Longrightarrow> answers s (ID r) \<noteq> None \<Longrightarrow> register now r s = Inl ErrAlreadyExists"
    and decide_total: "ok s \<Longrightarrow> d = DecisionAllow \<or> d = DecisionDeny \<Longrightarrow> answers s rid = Some a \<Longrightarrow>
      \<exists>t. decide rid d s = Inr (None, t) \<and> ok t \<and>
        answers t = (answers s)(rid \<mapsto> (case a of None \<Rightarrow> Some (user_outcome d) | Some out \<Rightarrow> Some out))"
    and await_answer: "ok s \<Longrightarrow> answers s rid = Some (Some out) \<Longrightarrow>
      \<exists>t. await WakeOutcome rid timeout s = Some (Inr out, t) \<and> ok t \<and> answers t = (answers s)(rid := None)"
    and await_blocks: "ok s \<Longrightarrow> answers s rid = Some None \<Longrightarrow> await WakeOutcome rid timeout s = None"
begin

lemma first_decision_wins:
  assumes "ok s" "register now r s = Inr s1"
    and d1: "d1 = DecisionAllow \<or> d1 = DecisionDeny" and d2: "d2 = DecisionAllow \<or> d2 = DecisionDeny"
    and "decide (ID r) d1 s1 = Inr (None, s2)" "decide (ID r) d2 s2 = Inr (None, s3)"
  shows "\<exists>t. await WakeOutcome (ID r) timeout s3 = Some (Inr (user_outcome d1), t) \<and> answers t (ID r) = None"
proof -
  from register_ok[OF assms(1,2)] have s1: "ok s1" "answers s1 (ID r) = Some None" by simp_all
  from decide_total[OF s1(1) d1 s1(2)] assms(5) have s2: "ok s2" "answers s2 (ID r) = Some (Some (user_outcome d1))"
    by auto
  from decide_total[OF s2(1) d2 s2(2)] assms(6) have "ok s3" "answers s3 (ID r) = Some (Some (user_outcome d1))"
    by auto
  from await_answer[OF this, of timeout] show ?thesis by auto
qed

lemma register_twice:
  assumes "ok s" "register now r s = Inr t" "ID r \<noteq> []" "ID q = ID r"
  shows "register now' q t = Inl ErrAlreadyExists"
  using register_ok[OF assms(1,2)] register_taken[of t q now'] assms(3,4) by simp

end

definition store_answers :: "Store \<Rightarrow> gostring \<rightharpoonup> Outcome option" where
  "store_answers s rid =
     map_option (\<lambda>p. case chan_buf (outcome_chans s ! p_ch p) of [] \<Rightarrow> None | out # _ \<Rightarrow> Some out)
       (alist_get (pendings s) rid)"

lemma store_ok_entry:
  assumes "store_ok s" "alist_get (pendings s) rid = Some p"
  shows "p_ch p < length (outcome_chans s)" "\<not> chan_closed (outcome_chans s ! p_ch p)"
    "chan_cap (outcome_chans s ! p_ch p) = 1" "length (chan_buf (outcome_chans s ! p_ch p)) \<le> 1"
proof -
  show "p_ch p < length (outcome_chans s)"
    using store_ok_chan[OF assms(1) alist_get_Some_mem[OF assms(2)]] by simp
  then have "outcome_chans s ! p_ch p \<in> set (outcome_chans s)" by simp
  then show "\<not> chan_closed (outcome_chans s ! p_ch p)" "chan_cap (outcome_chans s ! p_ch p) = 1"
    "length (chan_buf (outcome_chans s ! p_ch p)) \<le> 1"
    using assms(1) unfolding store_ok_def by blast+
qed

text \<open>Two entries never share a channel.\<close>

lemma store_ok_chan_inj:
  assumes "store_ok s" "alist_get (pendings s) rid = Some p" "alist_get (pendings s) rid' = Some p'"
    and "p_ch p = p_ch p'"
  shows "rid = rid'"
proof -
  have inj: "inj_on (\<lambda>p. p_ch (snd p)) (set (pendings s))"
    using assms(1) by (simp add: store_ok_def distinct_map)
  have "(rid, p) = (rid', p')"
    by (rule inj_onD[OF inj _ alist_get_Some_mem[OF assms(2)] alist_get_Some_mem[OF assms(3)]])
      (simp add: assms(4))
  then show ?thesis by simp
qed

lemma store_answers_upd:
  assumes "store_ok s" "alist_get (pendings s) rid = Some p"
  shows "store_answers (s\<lparr>outcome_chans := (outcome_chans s)[p_ch p := k]\<rparr>) =
     (store_answers s)(rid \<mapsto> (case chan_buf k of [] \<Rightarrow> None | out # _ \<Rightarrow> Some out))"
proof
  fix q
  show "store_answers (s\<lparr>outcome_chans := (outcome_chans s)[p_ch p := k]\<rparr>) q =
     ((store_answers s)(rid \<mapsto> (case chan_buf k of [] \<Rightarrow> None | out # _ \<Rightarrow> Some out))) q"
  proof (cases "q = rid")
    case True
    then show ?thesis
      using assms store_ok_entry(1)[OF assms] by (simp add: store_answers_def)
  next
    case False
    then have "p_ch p \<noteq> p_ch p'" if "alist_get (pendings s) q = Some p'" for p'
      using store_ok_chan_inj[OF assms(1,2) that] by auto
    with False show ?thesis
      by (cases "alist_get (pendings s) q") (simp_all add: store_answers_def)
  qed
qed

lemma store_answers_delete_pending: "store_answers (delete_pending rid s) = (store_answers s)(rid := None)"
  by (auto simp: store_answers_def delete_pending_def fun_eq_iff)

lemma store_answers_Register:
  assumes "store_ok s" "Register now r s = Inr t"
  shows "store_answers t = (store_answers s)(ID r \<mapsto> None)" and "store_answers s (ID r) = None"
proof -
  obtain r' where new: "ID r \<notin> set (keys (pendings s))"
    and t: "t = s\<lparr>pendings := pendings s @ [(ID r, \<lparr>p_req = r', p_ch = length (outcome_chans s)\<rparr>)],
          outcome_chans := outcome_chans s @ [make_chan (Suc 0)]\<rparr>"
    using assms(2) by (rule Register_Inr)
  show "store_answers s (ID r) = None"
    using new by (simp add: store_answers_def alist_get_None_iff)
  show "store_answers t = (store_answers s)(ID r \<mapsto> None)"
  proof
    fix q
    have get: "alist_get (pendings t) = (alist_get (pendings s))(ID r \<mapsto> \<lparr>p_req = r', p_ch = length (outcome_chans s)\<rparr>)"
      using new by (simp add: t alist_put_new [symmetric])
    show "store_answers t q = ((store_answers s)(ID r \<mapsto> None)) q"
    proof (cases "alist_get (pendings s) q")
      case None
      with get show ?thesis by (simp add: store_answers_def t)
    next
      case (Some p)
      then have "q \<noteq> ID r" using new by (auto simp: alist_get_None_iff [symmetric])
      with Some get store_ok_entry(1)[OF assms(1) Some] show ?thesis
        by (simp add: store_answers_def t nth_append)
    qed
  qed
qed

lemma offer_answers:
  assumes "store_ok s" "alist_get (pendings s) rid = Some p"
  shows "\<exists>t. offer out (p_ch p) s = Inr t \<and> store_ok t \<and>
    store_answers t = (store_answers s)(rid \<mapsto> (case the (store_answers s rid) of None \<Rightarrow> Some out | Some o' \<Rightarrow> Some o'))"
proof -
  let ?c = "outcome_chans s ! p_ch p"
  note e = store_ok_entry[OF assms]
  obtain t where t: "offer out (p_ch p) s = Inr t" "store_ok t" using store_ok_offer[OF assms(1) e(1)] by blast
  then obtain k where k: "try_send out ?c = Inr k" "t = s\<lparr>outcome_chans := (outcome_chans s)[p_ch p := k]\<rparr>"
    by (auto simp: offer_def send_at_def bind_sum_Inr_iff)
  have "(case chan_buf k of [] \<Rightarrow> None | o' # _ \<Rightarrow> Some o') =
     (case the (store_answers s rid) of None \<Rightarrow> Some out | Some o' \<Rightarrow> Some o')"
    using k(1) e assms(2)
    by (cases "chan_buf ?c") (auto simp: try_send_def store_answers_def)
  with t k(2) store_answers_upd[OF assms, of k] show ?thesis by auto
qed

interpretation broker: permission_broker Register Decide Await store_ok store_answers
proof (unfold_locales, goal_cases)
  case (1 s now r t)
  then show ?case using store_ok_Register store_answers_Register by blast
next
  case (2 s now r t)
  then show ?case using store_answers_Register by blast
next
  case (3 s r now)
  then show ?case by (auto simp: Register_def store_answers_def Let_def)
next
  case (4 s d rid a)
  then obtain p where p: "alist_get (pendings s) rid = Some p" by (auto simp: store_answers_def)
  from offer_answers[OF 4(1) p, of "user_outcome d"] 4 p show ?case
    by (auto simp: Decide_def Decide_check_def lookup_pending_def)
next
  case (5 s rid out timeout)
  then obtain p where p: "alist_get (pendings s) rid = Some p" by (auto simp: store_answers_def)
  let ?c = "outcome_chans s ! p_ch p"
  from 5(2) p have "chan_buf ?c = [out]"
    using store_ok_entry(4)[OF 5(1) p] by (auto simp: store_answers_def split: list.splits)
  then have k: "recv ?c = Some (out, ?c\<lparr>chan_buf := []\<rparr>)" by (simp add: recv_def)
  have aw: "Await WakeOutcome rid timeout s =
     Some (Inr out, delete_pending rid (s\<lparr>outcome_chans := (outcome_chans s)[p_ch p := ?c\<lparr>chan_buf := []\<rparr>]\<rparr>))"
    by (simp add: Await_def lookup_pending_def p k)
  have sel: "Await_select WakeOutcome rid (p_ch p) timeout s = Await WakeOutcome rid timeout s"
    by (simp add: Await_def lookup_pending_def p)
  show ?case
    using store_ok_select[OF 5(1), of WakeOutcome rid "p_ch p" timeout] sel aw
    by (simp add: store_answers_delete_pending store_answers_upd[OF 5(1) p])
next
  case (6 s rid timeout)
  then obtain p where p: "alist_get (pendings s) rid = Some p" by (auto simp: store_answers_def)
  with 6(2) have "chan_buf (outcome_chans s ! p_ch p) = []"
    by (auto simp: store_answers_def split: list.splits)
  then show ?case by (simp add: Await_def lookup_pending_def p recv_def)
qed

subsection \<open>All interleavings\<close>

text \<open>
  The store with the goroutines that are between two critical sections of an operation: the
  waiters of \<open>Await\<close>, those that have left its \<open>select\<close> and have not removed the entry yet, and
  the senders of \<open>Decide\<close> and \<open>Cancel\<close>. \<open>returned\<close> is what the
  \<open>Await\<close> calls have returned, \<open>allowed\<close> the ids for which a caller has passed an allow to
  \<open>Decide\<close>, \<open>owners\<close> the id each channel was made for (three histories that no operation
  reads).
\<close>

record perm_sys =
  store :: Store
  waiters :: "(gostring \<times> nat \<times> duration) list"
  leaving :: "(gostring \<times> wake \<times> (perm_error + Outcome)) list"
  senders :: "(nat \<times> Outcome) list"
  returned :: "(gostring \<times> (perm_error + Outcome)) list"
  allowed :: "gostring list"
  owners :: "gostring list"

definition perm_init :: perm_sys where
  "perm_init = \<lparr>store = NewStore, waiters = [], leaving = [], senders = [], returned = [], allowed = [], owners = []\<rparr>"

inductive perm_step :: "perm_sys \<Rightarrow> perm_sys \<Rightarrow> bool" where
  do_register: "Register now r (store s) = Inr t \<Longrightarrow>
     perm_step s (s\<lparr>store := t, owners := owners s @ [ID r]\<rparr>)"
| await_miss: "lookup_pending rid (store s) = None \<Longrightarrow>
     perm_step s (s\<lparr>returned := (rid, Inl ErrNotFound) # returned s\<rparr>)"
| await_start: "lookup_pending rid (store s) = Some c \<Longrightarrow>
     perm_step s (s\<lparr>waiters := (rid, c, timeout) # waiters s\<rparr>)"
| await_wake: "(rid, c, timeout) \<in> set (waiters s) \<Longrightarrow>
     Await_fires w c timeout (store s) = Some (res, t) \<Longrightarrow>
     perm_step s (s\<lparr>store := t, waiters := remove1 (rid, c, timeout) (waiters s),
                    leaving := (rid, w, res) # leaving s\<rparr>)"
| await_return: "(rid, w, res) \<in> set (leaving s) \<Longrightarrow>
     perm_step s (s\<lparr>store := Await_leave w rid (store s), leaving := remove1 (rid, w, res) (leaving s),
                    returned := (rid, res) # returned s\<rparr>)"
| decide_start: "Decide_check rid d (store s) = Inr c \<Longrightarrow>
     perm_step s (s\<lparr>senders := (c, user_outcome d) # senders s,
                    allowed := (if IsAllow d then rid # allowed s else allowed s)\<rparr>)"
| cancel_start: "lookup_pending rid (store s) = Some c \<Longrightarrow>
     perm_step s (s\<lparr>senders := (c, cancel_outcome) # senders s\<rparr>)"
| do_offer: "(c, out) \<in> set (senders s) \<Longrightarrow> offer out c (store s) = Inr t \<Longrightarrow>
     perm_step s (s\<lparr>store := t, senders := remove1 (c, out) (senders s)\<rparr>)"

inductive_cases perm_stepE: "perm_step s t"

definition backed :: "perm_sys \<Rightarrow> nat \<Rightarrow> Outcome \<Rightarrow> bool" where
  "backed s c out \<longleftrightarrow> c < length (owners s) \<and> (IsAllow (out_Decision out) \<longrightarrow> owners s ! c \<in> set (allowed s))"

definition perm_inv :: "perm_sys \<Rightarrow> bool" where
  "perm_inv s \<longleftrightarrow>
     store_ok (store s) \<and> length (owners s) = length (outcome_chans (store s)) \<and>
     (\<forall>rid c. lookup_pending rid (store s) = Some c \<longrightarrow> owners s ! c = rid) \<and>
     (\<forall>(rid, c, timeout)\<in>set (waiters s). c < length (owners s) \<and> owners s ! c = rid) \<and>
     (\<forall>(rid, w, res)\<in>set (leaving s). \<forall>out. res = Inr out \<and> IsAllow (out_Decision out) \<longrightarrow> rid \<in> set (allowed s)) \<and>
     (\<forall>(c, out)\<in>set (senders s). backed s c out) \<and>
     (\<forall>c<length (owners s). \<forall>out\<in>set (chan_buf (outcome_chans (store s) ! c)). backed s c out) \<and>
     (\<forall>(rid, res)\<in>set (returned s). \<forall>out. res = Inr out \<and> IsAllow (out_Decision out) \<longrightarrow> rid \<in> set (allowed s))"

lemma perm_inv_init: "perm_inv perm_init"
  by (simp add: perm_inv_def perm_init_def store_ok_NewStore) (simp add: NewStore_def lookup_pending_def)

lemma lookup_after_Register:
  assumes "Register now r s = Inr t"
  shows "lookup_pending rid t = (if rid = ID r then Some (length (outcome_chans s)) else lookup_pending rid s)"
proof -
  obtain r' where "ID r \<notin> set (keys (pendings s))"
    and t: "t = s\<lparr>pendings := pendings s @ [(ID r, \<lparr>p_req = r', p_ch = length (outcome_chans s)\<rparr>)],
          outcome_chans := outcome_chans s @ [make_chan (Suc 0)]\<rparr>"
    using assms by (rule Register_Inr)
  then show ?thesis by (auto simp: t lookup_pending_def alist_put_new [symmetric])
qed

lemma chans_after_Register:
  "Register now r s = Inr t \<Longrightarrow> outcome_chans t = outcome_chans s @ [make_chan (Suc 0)]"
  by (auto elim: Register_Inr)

lemma lookup_after_delete:
  "lookup_pending rid (delete_pending q s) = (if rid = q then None else lookup_pending rid s)"
  by (simp add: lookup_pending_def delete_pending_def)

lemma select_fires:
  "Await_fires w c timeout s = Some (res, t) \<Longrightarrow> Await_select w rid c timeout s = Some (res, Await_leave w rid t)"
  by (simp add: Await_select_def)

lemma store_ok_leave: "store_ok s \<Longrightarrow> store_ok (Await_leave w rid s)"
  by (simp add: Await_leave_def store_ok_delete_pending)

lemma leave_lookup: "lookup_pending q (Await_leave w rid s) = Some k \<Longrightarrow> lookup_pending q s = Some k"
  by (simp add: Await_leave_def lookup_after_delete split: if_splits)

lemma leave_chans: "outcome_chans (Await_leave w rid s) = outcome_chans s"
  by (simp add: Await_leave_def delete_pending_def)

lemma fires_pendings: "Await_fires w c timeout s = Some (res, t) \<Longrightarrow> pendings t = pendings s"
  by (cases w) (auto split: option.splits if_splits)

lemma fires_chans:
  assumes "Await_fires w c timeout s = Some (res, t)"
  shows "length (outcome_chans t) = length (outcome_chans s)"
    and "set (chan_buf (outcome_chans t ! k)) \<subseteq> set (chan_buf (outcome_chans s ! k))"
    and "res = Inr out \<Longrightarrow> c < length (outcome_chans s) \<Longrightarrow> out \<in> set (chan_buf (outcome_chans s ! c))"
  using assms
  by (cases w; cases "k = c"; cases "c < length (outcome_chans s)";
      fastforce simp: recv_def list_update_beyond split: option.splits if_splits list.splits)+

lemma offer_chans:
  assumes "offer out c s = Inr t"
  shows "pendings t = pendings s" "length (outcome_chans t) = length (outcome_chans s)"
    and "set (chan_buf (outcome_chans t ! k)) \<subseteq> set (chan_buf (outcome_chans s ! k)) \<union> (if k = c then {out} else {})"
proof -
  from assms obtain x where x: "try_send out (outcome_chans s ! c) = Inr x"
    and t: "t = s\<lparr>outcome_chans := (outcome_chans s)[c := x]\<rparr>"
    by (auto simp: offer_def send_at_def bind_sum_Inr_iff)
  from t show "pendings t = pendings s" "length (outcome_chans t) = length (outcome_chans s)" by simp_all
  from x have "set (chan_buf x) \<subseteq> insert out (set (chan_buf (outcome_chans s ! c)))"
    by (auto simp: try_send_def split: if_splits)
  then show "set (chan_buf (outcome_chans t ! k)) \<subseteq> set (chan_buf (outcome_chans s ! k)) \<union> (if k = c then {out} else {})"
    by (cases "c < length (outcome_chans s)") (auto simp: t nth_list_update list_update_beyond)
qed

lemma perm_inv_bufs:
  "perm_inv s \<Longrightarrow> k < length (owners s) \<Longrightarrow> out \<in> set (chan_buf (outcome_chans (store s) ! k)) \<Longrightarrow> backed s k out"
  by (simp add: perm_inv_def)

lemma perm_inv_step: "perm_inv s \<Longrightarrow> perm_step s t \<Longrightarrow> perm_inv t"
proof (erule perm_stepE, goal_cases)
  case (1 now r u)
  have l: "length (owners s) = length (outcome_chans (store s))" using 1(1) by (simp add: perm_inv_def)
  have old: "c < length (owners s) \<Longrightarrow> (owners s @ [ID r]) ! c = owners s ! c" for c by (simp add: nth_append)
  have lk: "\<forall>rid c. lookup_pending rid (store s) = Some c \<longrightarrow> c < length (owners s)"
    using 1(1) lookup_pending_lt by (auto simp: perm_inv_def)
  show ?case
    using 1 lk store_ok_Register[OF _ 1(3)] chans_after_Register[OF 1(3)] lookup_after_Register[OF 1(3)]
    unfolding perm_inv_def backed_def
    by (auto simp: nth_append less_Suc_eq split: if_splits)
next
  case (2 rid)
  then show ?case by (auto simp: perm_inv_def backed_def)
next
  case (3 rid c timeout)
  then show ?case using lookup_pending_lt[of "store s" rid c] by (auto simp: perm_inv_def backed_def)
next
  case (4 rid c timeout w res u)
  have c: "c < length (outcome_chans (store s))" "owners s ! c = rid" using 4(1,3) by (auto simp: perm_inv_def)
  have "rid \<in> set (allowed s)" if "res = Inr out" "IsAllow (out_Decision out)" for out
    using fires_chans(3)[OF 4(4) that(1) c(1)] 4(1) that(2) c by (auto simp: perm_inv_def backed_def)
  moreover have "backed s k out" if "k < length (owners s)" "out \<in> set (chan_buf (outcome_chans u ! k))" for k out
    using fires_chans(2)[OF 4(4), of k] that perm_inv_bufs[OF 4(1)] by blast
  moreover have "lookup_pending q u = lookup_pending q (store s)" for q
    using fires_pendings[OF 4(4)] by (simp add: lookup_pending_def)
  ultimately show ?case
    using 4 store_ok_fires[OF _ 4(4)] fires_chans(1)[OF 4(4)]
    unfolding perm_inv_def backed_def by (auto dest!: set_remove1_subset[THEN subsetD])
next
  case (5 rid w res)
  then show ?case
    using store_ok_leave[of "store s" w rid] leave_lookup[of _ w rid "store s"]
    unfolding perm_inv_def backed_def leave_chans by (auto simp: leave_chans dest!: set_remove1_subset[THEN subsetD])
next
  case (6 rid d c)
  have lk: "lookup_pending rid (store s) = Some c"
    using 6(3) by (auto simp: Decide_check_def split: if_splits option.splits)
  with 6(1) have "owners s ! c = rid" "c < length (owners s)"
    using lookup_pending_lt by (auto simp: perm_inv_def)
  then have new: "backed t c (user_outcome d)" using 6(2) by (auto simp: backed_def user_outcome_def)
  have mono: "backed s k out \<Longrightarrow> backed t k out" for k out
    using 6(2) by (auto simp: backed_def)
  show ?case using 6(1) new mono unfolding perm_inv_def 6(2) by (simp add: case_prod_unfold) metis
next
  case (7 rid c)
  then have "c < length (owners s)" using lookup_pending_lt by (auto simp: perm_inv_def)
  with 7 show ?case
    unfolding perm_inv_def backed_def
    by (auto simp: cancel_outcome_def IsAllow_def DecisionAllow_def DecisionDeny_def)
next
  case (8 c out u)
  have b: "backed s c out" using 8(1,3) by (auto simp: perm_inv_def)
  have "backed s k x" if "k < length (owners s)" "x \<in> set (chan_buf (outcome_chans u ! k))" for k x
    using offer_chans(3)[OF 8(4), of k] that perm_inv_bufs[OF 8(1)] b by (cases "k = c") auto
  moreover have "store_ok u"
    using store_ok_offer[of "store s" c out] 8(1,4) b by (auto simp: perm_inv_def backed_def)
  moreover have "lookup_pending rid u = lookup_pending rid (store s)" for rid
    using offer_chans(1)[OF 8(4)] by (simp add: lookup_pending_def)
  ultimately show ?case
    using 8 offer_chans(2)[OF 8(4)] unfolding perm_inv_def backed_def by (auto dest!: set_remove1_subset[THEN subsetD])
qed

definition perm_reachable :: "perm_sys \<Rightarrow> bool" where
  "perm_reachable = reach (\<lambda>s. s = perm_init) perm_step"

lemma perm_reachable_init: "perm_reachable perm_init"
  unfolding perm_reachable_def by (rule reach_init) simp

lemma perm_reachable_step: "perm_reachable s \<Longrightarrow> perm_step s t \<Longrightarrow> perm_reachable t"
  unfolding perm_reachable_def by (rule reach_step)

interpretation perm: invariant_system "\<lambda>s. s = perm_init" perm_step perm_inv
  by unfold_locales (auto intro: perm_inv_init perm_inv_step)

lemmas perm_reachable_inv = perm.inv_reach[folded perm_reachable_def]

subsection \<open>Properties\<close>

text \<open>
  C1. An allow is never synthesised: in every interleaving of registrations, waits,
  decisions, cancellations and timeouts, an \<open>Await\<close> on an id that returns an allow was
  preceded by a \<open>Decide\<close> with an allow for that very id.
\<close>

theorem allow_needs_user_decision:
  assumes "perm_reachable s" "(rid, Inr out) \<in> set (returned s)"
    and "IsAllow (out_Decision out)"
  shows "rid \<in> set (allowed s)"
  using perm_reachable_inv[OF assms(1)] assms(2,3) by (auto simp: perm_inv_def)

text \<open>
  The store never panics and a sender never blocks: in every reachable state each
  goroutine that is about to send its outcome can do so.
\<close>

theorem offers_never_panic:
  assumes "perm_reachable s" "(c, out) \<in> set (senders s)"
  shows "\<exists>t. offer out c (store s) = Inr t"
proof -
  have "perm_inv s" using assms(1) by (rule perm_reachable_inv)
  with assms(2) have "store_ok (store s)" "c < length (outcome_chans (store s))"
    by (auto simp: perm_inv_def backed_def)
  from store_ok_offer[OF this] show ?thesis by blast
qed

text \<open>
  C25. The first decision wins: after a registration, whatever two valid decisions follow, a
  waiter receives the first one, with the reason \<open>user\<close>, and the entry is gone.
\<close>

theorem permission_first_decision_wins:
  assumes "store_ok s" "Register now r s = Inr s1"
    and "d1 = DecisionAllow \<or> d1 = DecisionDeny" "d2 = DecisionAllow \<or> d2 = DecisionDeny"
    and "Decide (ID r) d1 s1 = Inr (None, s2)" "Decide (ID r) d2 s2 = Inr (None, s3)"
  shows "\<exists>t. Await WakeOutcome (ID r) timeout s3 = Some (Inr (user_outcome d1), t) \<and> lookup_pending (ID r) t = None"
proof -
  obtain t where "Await WakeOutcome (ID r) timeout s3 = Some (Inr (user_outcome d1), t)" "store_answers t (ID r) = None"
    using broker.first_decision_wins[OF assms] by blast
  then show ?thesis by (auto simp: store_answers_def lookup_pending_def)
qed

text \<open>
  A timeout yields \<open>ErrTimeout\<close>, never a decision, and removes the entry, so that a late
  \<open>Decide\<close> finds nothing and the id can be registered again.
\<close>

theorem permission_timeout_removes:
  assumes "lookup_pending rid s = Some c" "timeout > 0" "d = DecisionAllow \<or> d = DecisionDeny"
  shows "\<exists>t. Await WakeTimeout rid timeout s = Some (Inl ErrTimeout, t) \<and>
     Decide rid d t = Inr (Some ErrNotFound, t) \<and>
     (\<forall>r now. ID r = rid \<and> rid \<noteq> [] \<longrightarrow> (\<exists>u. Register now r t = Inr u))"
  using assms
  by (auto simp: Await_def Decide_def Decide_check_def lookup_after_delete Register_def Let_def alloc_def)
    (auto simp: delete_pending_def)

subsection \<open>Witnesses\<close>

text \<open>A registration, a waiter, an allow and the wake-up, as one run.\<close>

definition ex_request :: Request where
  "ex_request = \<lparr>ID = ''r1'', TerminalSessionID = ''ts_1'', ClaudeSessionID = '''', ToolName = ''Bash'',
     Input = '''', CreatedAt = 7\<rparr>"

definition ex_store :: Store where
  "ex_store = \<lparr>pendings = [(''r1'', \<lparr>p_req = ex_request, p_ch = 0\<rparr>)], outcome_chans = [make_chan 1]\<rparr>"

definition ex_decided :: Store where
  "ex_decided = \<lparr>pendings = [(''r1'', \<lparr>p_req = ex_request, p_ch = 0\<rparr>)],
     outcome_chans = [\<lparr>chan_cap = 1, chan_buf = [user_outcome DecisionAllow], chan_closed = False\<rparr>]\<rparr>"

definition ex_sys :: "Store \<Rightarrow> (gostring \<times> nat \<times> duration) list \<Rightarrow> (nat \<times> Outcome) list \<Rightarrow>
    (gostring \<times> (perm_error + Outcome)) list \<Rightarrow> gostring list \<Rightarrow> perm_sys" where
  "ex_sys st ws ss ret al = \<lparr>store = st, waiters = ws, leaving = [], senders = ss, returned = ret, allowed = al, owners = [''r1'']\<rparr>"

lemmas ex_defs = ex_request_def ex_store_def ex_decided_def ex_sys_def

lemma ex_register: "Register 9 ex_request NewStore = Inr ex_store"
  by (simp add: Register_def NewStore_def ex_store_def alloc_def ex_request_def)

lemma ex_offer: "offer (user_outcome DecisionAllow) 0 ex_store = Inr ex_decided"
  by (simp add: offer_def send_at_def try_send_def ex_store_def ex_decided_def make_chan_def)

lemma ex_reach_sender:
  "perm_reachable
     (ex_sys ex_store [(''r1'', 0, 5)] [(0, user_outcome DecisionAllow)] [] [''r1''])"
proof -
  have s1: "perm_step perm_init (ex_sys ex_store [] [] [] [])"
    using do_register[of 9 ex_request perm_init ex_store] ex_register
    by (simp add: perm_init_def ex_sys_def ex_request_def)
  have s2: "perm_step (ex_sys ex_store [] [] [] []) (ex_sys ex_store [(''r1'', 0, 5)] [] [] [])"
    using await_start[of "''r1''" "ex_sys ex_store [] [] [] []" 0 5]
    by (simp add: ex_sys_def ex_store_def lookup_pending_def)
  have s3: "perm_step (ex_sys ex_store [(''r1'', 0, 5)] [] [] [])
     (ex_sys ex_store [(''r1'', 0, 5)] [(0, user_outcome DecisionAllow)] [] [''r1''])"
    using decide_start[of "''r1''" DecisionAllow "ex_sys ex_store [(''r1'', 0, 5)] [] [] []" 0]
    by (simp add: ex_sys_def ex_store_def lookup_pending_def Decide_check_def IsAllow_def)
  show ?thesis
    by (rule perm_reachable_step[OF perm_reachable_step[OF perm_reachable_step[OF perm_reachable_init s1] s2] s3])
qed

lemma ex_reach_allow:
  "\<exists>s. perm_reachable s \<and> (''r1'', Inr (user_outcome DecisionAllow)) \<in> set (returned s)"
proof -
  let ?s3 = "ex_sys ex_store [(''r1'', 0, 5)] [(0, user_outcome DecisionAllow)] [] [''r1'']"
  let ?s4 = "ex_sys ex_decided [(''r1'', 0, 5)] [] [] [''r1'']"
  have s4: "perm_step ?s3 ?s4"
    using do_offer[of 0 "user_outcome DecisionAllow" ?s3 ex_decided] ex_offer by (simp add: ex_sys_def)
  obtain t where t: "Await_fires WakeOutcome 0 5 ex_decided = Some (Inr (user_outcome DecisionAllow), t)"
    by (simp add: ex_decided_def recv_def)
  let ?s5 = "?s4\<lparr>store := t, waiters := [], leaving := [(''r1'', WakeOutcome, Inr (user_outcome DecisionAllow))]\<rparr>"
  have s5: "perm_step ?s4 ?s5"
    using await_wake[of "''r1''" 0 5 ?s4 WakeOutcome "Inr (user_outcome DecisionAllow)" t] t
    by (simp add: ex_sys_def)
  let ?s6 = "?s5\<lparr>store := Await_leave WakeOutcome ''r1'' t, leaving := [], returned := [(''r1'', Inr (user_outcome DecisionAllow))]\<rparr>"
  have s6: "perm_step ?s5 ?s6"
    using await_return[of "''r1''" WakeOutcome "Inr (user_outcome DecisionAllow)" ?s5] by (simp add: ex_sys_def)
  have "perm_reachable ?s6"
    by (rule perm_reachable_step[OF perm_reachable_step[OF perm_reachable_step[OF ex_reach_sender s4] s5] s6])
  moreover have "(''r1'', Inr (user_outcome DecisionAllow)) \<in> set (returned ?s6)" by simp
  ultimately show ?thesis by blast
qed

theorem allow_needs_user_decision_witness:
  "\<exists>s. perm_reachable s \<and> (''r1'', Inr (user_outcome DecisionAllow)) \<in> set (returned s)
     \<and> ''r1'' \<in> set (allowed s)"
  using ex_reach_allow allow_needs_user_decision[of _ "''r1''" "user_outcome DecisionAllow"]
  by (auto simp: IsAllow_def user_outcome_def)

theorem offers_never_panic_witness:
  "\<exists>t. offer (user_outcome DecisionAllow) 0 ex_store = Inr t"
  using offers_never_panic[OF ex_reach_sender, of 0 "user_outcome DecisionAllow"] by (simp add: ex_sys_def)

theorem permission_first_decision_wins_witness:
  "\<exists>t. Await WakeOutcome ''r1'' 0 ex_decided = Some (Inr (user_outcome DecisionAllow), t) \<and> lookup_pending ''r1'' t = None"
proof -
  have d1: "Decide (ID ex_request) DecisionAllow ex_store = Inr (None, ex_decided)"
    using ex_offer
    by (simp add: Decide_def Decide_check_def lookup_pending_def ex_store_def ex_request_def)
  have d2: "Decide (ID ex_request) DecisionDeny ex_decided = Inr (None, ex_decided)"
    by (simp add: Decide_def Decide_check_def lookup_pending_def ex_decided_def ex_request_def offer_def
        send_at_def try_send_def)
  show ?thesis
    using permission_first_decision_wins[OF store_ok_NewStore ex_register _ _ d1 d2, of 0] by (simp add: ex_request_def)
qed

theorem permission_timeout_removes_witness:
  "\<exists>t. Await WakeTimeout ''r1'' second ex_store = Some (Inl ErrTimeout, t) \<and>
     Decide ''r1'' DecisionAllow t = Inr (Some ErrNotFound, t)"
  using permission_timeout_removes[of "''r1''" ex_store 0 second DecisionAllow]
  by (auto simp: lookup_pending_def ex_store_def)

end
