(* ===== verification/PermissionApi.thy ===== *)
theory PermissionApi
  imports JsonWire Permission
begin

section \<open>The permission requests of the local API\<close>

text \<open>
  \<open>daemon/internal/api/server.go\<close>, the handlers under \<open>/api/dev/permission-requests\<close>: how a
  request is registered, awaited, decided and cancelled over HTTP. A handler takes the
  request and the store and gives the response and the store; the awaiting handler also
  takes which case of the \<open>select\<close> in \<open>Await\<close> fires and gives \<open>None\<close> when that case is not
  ready. The log lines are left out.
\<close>

record http_request =
  hq_Method :: gostring
  hq_Path :: gostring
  hq_Query :: "gostring \<Rightarrow> gostring"
  hq_Body :: gostring

record http_response =
  hr_Status :: nat
  hr_Body :: gval

definition respond :: "nat \<Rightarrow> gval \<Rightarrow> http_response" where
  "respond status body = \<lparr>hr_Status = status, hr_Body = body\<rparr>"

definition field_json :: "gostring \<Rightarrow> gostring \<Rightarrow> gval" where
  "field_json k v = GObj [(k, GStr v)]"

definition http_error :: "nat \<Rightarrow> gostring \<Rightarrow> http_response" where
  "http_error status msg = respond status (field_json ''error'' msg)"

definition writeMethodNotAllowed :: http_response where
  "writeMethodNotAllowed = http_error 405 ''method not allowed''"

text \<open>\<open>err.Error()\<close> of the errors of the store; \<open>ctx\<close> is the text of the context's error.\<close>

fun perm_error_text :: "gostring \<Rightarrow> perm_error \<Rightarrow> gostring" where
  "perm_error_text ctx ErrIDRequired = ''permission: request id is required''"
| "perm_error_text ctx ErrNotFound = ''permission: request not found''"
| "perm_error_text ctx ErrAlreadyExists = ''permission: request already exists''"
| "perm_error_text ctx ErrTimeout = ''permission: request timed out''"
| "perm_error_text ctx ErrDecision = ''permission: decision must be allow or deny''"
| "perm_error_text ctx ErrContext = ctx"

text \<open>\<open>strconv.Atoi\<close>.\<close>

definition Atoi :: "gostring \<Rightarrow> int option" where
  "Atoi s =
     (let sgn = s \<noteq> [] \<and> (hd s = CHR ''-'' \<or> hd s = CHR ''+''); ds = (if sgn then tl s else s) in
      if ds = [] \<or> \<not> list_all is_digit ds then None
      else let i = (if sgn \<and> hd s = CHR ''-'' then - int (nat_of_digits ds) else int (nat_of_digits ds))
        in if - (2 ^ 63) \<le> i \<and> i < 2 ^ 63 then Some i else None)"

subsection \<open>The handlers\<close>

definition request_json :: "(time \<Rightarrow> gostring) \<Rightarrow> Request \<Rightarrow> gval" where
  "request_json fmt r =
     GObj ([(''request_id'', GStr (ID r)), (''terminal_session_id'', GStr (TerminalSessionID r))] @
       omit_str ''claude_session_id'' (ClaudeSessionID r) @ [(''tool_name'', GStr (ToolName r))] @
       omit_raw ''input'' (Input r) @ [(''created_at'', GStr (fmt (CreatedAt r)))])"

definition handleDevPermissionRequestList :: "(time \<Rightarrow> gostring) \<Rightarrow> gostring \<Rightarrow> Store \<Rightarrow> http_response" where
  "handleDevPermissionRequestList fmt method s =
     (if method \<noteq> ''GET'' then writeMethodNotAllowed
      else respond 200 (GObj [(''permission_requests'', GArr (map (request_json fmt) (ListRequests s)))]))"

record register_body =
  rb_TerminalSessionID :: gostring
  rb_ClaudeSessionID :: gostring
  rb_ToolName :: gostring
  rb_Input :: gostring

definition register_fields :: "(gostring \<times> register_body decoder) list" where
  "register_fields =
     [(''terminal_session_id'', str_field (\<lambda>s. rb_TerminalSessionID_update (\<lambda>_. s))),
      (''claude_session_id'', str_field (\<lambda>s. rb_ClaudeSessionID_update (\<lambda>_. s))),
      (''tool_name'', str_field (\<lambda>s. rb_ToolName_update (\<lambda>_. s))),
      (''input'', raw_field (\<lambda>s. rb_Input_update (\<lambda>_. s)))]"

definition empty_register :: register_body where
  "empty_register = \<lparr>rb_TerminalSessionID = [], rb_ClaudeSessionID = [], rb_ToolName = [], rb_Input = []\<rparr>"

definition register_request :: "gostring \<Rightarrow> register_body \<Rightarrow> Request" where
  "register_request reqID b =
     \<lparr>ID = reqID, TerminalSessionID = TrimSpace (rb_TerminalSessionID b), ClaudeSessionID = TrimSpace (rb_ClaudeSessionID b),
      ToolName = TrimSpace (rb_ToolName b), Input = rb_Input b, CreatedAt = 0\<rparr>"

definition handlePermissionRegister :: "time \<Rightarrow> gostring \<Rightarrow> gostring \<Rightarrow> Store \<Rightarrow> http_response \<times> Store" where
  "handlePermissionRegister now body reqID s =
     (case decode_strict register_fields empty_register body of
        None \<Rightarrow> (http_error 400 ''invalid json'', s)
      | Some b \<Rightarrow>
          if TrimSpace (rb_ToolName b) = [] then (http_error 400 ''tool_name is required'', s)
          else case Register now (register_request reqID b) s of
            Inl e \<Rightarrow> (http_error 409 (perm_error_text [] e), s)
          | Inr t \<Rightarrow> (respond 202 (field_json ''status'' ''registered''), t))"

definition await_seconds :: "gostring \<Rightarrow> int" where
  "await_seconds q =
     (let t = TrimSpace q in
      if t = [] then 30
      else case Atoi t of
        Some v \<Rightarrow> if v > 0 \<and> v \<le> 120 then v else 30
      | None \<Rightarrow> 30)"

definition outcome_json :: "Outcome \<Rightarrow> gval" where
  "outcome_json out = GObj [(''decision'', GStr (out_Decision out)), (''reason'', GStr (out_Reason out))]"

definition await_response :: "gostring \<Rightarrow> perm_error + Outcome \<Rightarrow> http_response" where
  "await_response ctx res =
     (case res of
        Inr out \<Rightarrow> respond 200 (outcome_json out)
      | Inl ErrNotFound \<Rightarrow> http_error 404 ''request not found''
      | Inl ErrTimeout \<Rightarrow> http_error 504 ''request timed out''
      | Inl e \<Rightarrow> http_error 503 (perm_error_text ctx e))"

definition handlePermissionAwait :: "wake \<Rightarrow> gostring \<Rightarrow> (gostring \<Rightarrow> gostring) \<Rightarrow> gostring \<Rightarrow> Store \<Rightarrow> (http_response \<times> Store) option" where
  "handlePermissionAwait w ctx query reqID s =
     map_option (\<lambda>(res, t). (await_response ctx res, t)) (Await w reqID (await_seconds (query ''timeout'') * second) s)"

definition decide_field :: "(gostring \<times> gostring decoder) list" where
  "decide_field = [(''decision'', str_field (\<lambda>s _. s))]"

definition handlePermissionDecide :: "gostring \<Rightarrow> gostring \<Rightarrow> Store \<Rightarrow> panic + (http_response \<times> Store)" where
  "handlePermissionDecide body reqID s =
     (case decode_strict decide_field [] body of
        None \<Rightarrow> Inr (http_error 400 ''invalid json'', s)
      | Some b \<Rightarrow>
          let decision = TrimSpace b in
          if decision \<noteq> DecisionAllow \<and> decision \<noteq> DecisionDeny
          then Inr (http_error 400 ''decision must be allow or deny'', s)
          else bind_sum (Decide reqID decision s) (\<lambda>(e, t).
            Inr (case e of
                None \<Rightarrow> (respond 202 (field_json ''status'' ''decided''), t)
              | Some ErrNotFound \<Rightarrow> (http_error 404 ''request not found'', t)
              | Some err \<Rightarrow> (http_error 400 (perm_error_text [] err), t))))"

definition permission_prefix :: gostring where "permission_prefix = ''/api/dev/permission-requests/''"

text \<open>The request id and the action of a path.\<close>

definition path_parts :: "gostring \<Rightarrow> gostring \<times> gostring" where
  "path_parts path =
     (case SplitN2 (Trim (TrimPrefix path permission_prefix) ''/'') ''/'' of
        [rid, action] \<Rightarrow> (rid, action)
      | [rid] \<Rightarrow> (rid, [])
      | _ \<Rightarrow> ([], []))"

definition handleDevPermissionRequest ::
  "time \<Rightarrow> wake \<Rightarrow> gostring \<Rightarrow> http_request \<Rightarrow> Store \<Rightarrow> (panic + (http_response \<times> Store)) option" where
  "handleDevPermissionRequest now w ctx r s =
     (case path_parts (hq_Path r) of
        (reqID, action) \<Rightarrow>
          if reqID = [] then Some (Inr (http_error 404 ''request id required'', s))
          else if action = [] then
            Some (Inr (if hq_Method r \<noteq> ''POST'' then (writeMethodNotAllowed, s)
                       else handlePermissionRegister now (hq_Body r) reqID s))
          else if action = ''await'' then
            (if hq_Method r \<noteq> ''GET'' then Some (Inr (writeMethodNotAllowed, s))
             else map_option Inr (handlePermissionAwait w ctx (hq_Query r) reqID s))
          else if action = ''decide'' then
            Some (if hq_Method r \<noteq> ''POST'' then Inr (writeMethodNotAllowed, s)
                  else handlePermissionDecide (hq_Body r) reqID s)
          else if action = ''cancel'' then
            Some (if hq_Method r \<noteq> ''POST'' then Inr (writeMethodNotAllowed, s)
                  else bind_sum (Cancel reqID s) (\<lambda>t. Inr (respond 202 (field_json ''status'' ''cancelled''), t)))
          else Some (Inr (http_error 404 ''unknown action'', s)))"

text \<open>
  The same decision from the control connection (\<open>PERMISSION_DECIDE\<close> in
  \<open>daemon/internal/control/control.go\<close>): the acknowledgement's status and error.
\<close>

definition permission_decide_ack :: "gostring \<Rightarrow> gostring \<Rightarrow> Store \<Rightarrow> panic + ((gostring \<times> gostring) \<times> Store)" where
  "permission_decide_ack reqID decision s =
     bind_sum (Decide reqID decision s) (\<lambda>(e, t).
       Inr (case e of
           Some err \<Rightarrow> ((''not_found'', perm_error_text [] err), t)
         | None \<Rightarrow> ((''accepted'', []), t)))"

end
