(* ===== verification/McpPermission.thy ===== *)
theory McpPermission
  imports JsonWire
begin

section \<open>The MCP permission server\<close>

text \<open>
  \<open>daemon/cmd/pockly-daemon/mcp_permission.go\<close>: the process Claude Code asks before it runs
  a tool. It reads JSON-RPC requests from its input, registers a permission request with the
  daemon over HTTP, waits for the decision and answers with it. The HTTP client is a function
  on a world: it takes the method, the address and the body and gives the status and the body
  of the reply, or nothing when the exchange fails. The goroutines that post events are
  collected in a list. \<open>num\<close> is the reading and printing of numbers (see \<open>any_value\<close>).
\<close>

record mcpPermServer =
  mp_terminalSessionID :: gostring
  mp_sessionID :: gostring
  mp_daemonURL :: gostring
  mp_interactive :: bool
  mp_decideTimeout :: duration

text \<open>The server the command line makes.\<close>

definition runMCPPermission :: "gostring \<Rightarrow> gostring \<Rightarrow> gostring \<Rightarrow> bool \<Rightarrow> duration \<Rightarrow> mcpPermServer" where
  "runMCPPermission tsID sessionID daemonURL interactive timeout =
     \<lparr>mp_terminalSessionID = TrimSpace tsID, mp_sessionID = TrimSpace sessionID,
      mp_daemonURL = TrimRight (TrimSpace daemonURL) ''/'', mp_interactive = interactive, mp_decideTimeout = timeout\<rparr>"

record jrpcReq =
  jq_JSONRPC :: gostring
  jq_ID :: gostring
  jq_Method :: gostring
  jq_Params :: gostring

record jrpcErr =
  je_Code :: int
  je_Message :: gostring

record jrpcResp =
  jp_ID :: gostring
  jp_Result :: "gval option"
  jp_Error :: "jrpcErr option"

definition jrpc_fields :: "(gostring \<times> jrpcReq decoder) list" where
  "jrpc_fields =
     [(''jsonrpc'', str_field (\<lambda>s. jq_JSONRPC_update (\<lambda>_. s))), (''id'', raw_field (\<lambda>s. jq_ID_update (\<lambda>_. s))),
      (''method'', str_field (\<lambda>s. jq_Method_update (\<lambda>_. s))), (''params'', raw_field (\<lambda>s. jq_Params_update (\<lambda>_. s)))]"

definition empty_jrpc :: jrpcReq where
  "empty_jrpc = \<lparr>jq_JSONRPC = [], jq_ID = [], jq_Method = [], jq_Params = []\<rparr>"

definition resp_json :: "jrpcResp \<Rightarrow> gval" where
  "resp_json r =
     GObj ([(''jsonrpc'', GStr ''2.0''), (''id'', GRaw (jp_ID r))] @
       (case jp_Result r of None \<Rightarrow> [] | Some v \<Rightarrow> [(''result'', v)]) @
       (case jp_Error r of None \<Rightarrow> []
        | Some e \<Rightarrow> [(''error'', GObj [(''code'', GInt (je_Code e)), (''message'', GStr (je_Message e))])]))"

definition rawOrEmpty :: "(gostring \<Rightarrow> gostring option) \<Rightarrow> gostring \<Rightarrow> gval" where
  "rawOrEmpty num raw =
     (if TrimSpace raw = [] then GObj []
      else case parse_json raw of None \<Rightarrow> GObj [] | Some v \<Rightarrow> if number_error num v then GObj [] else any_value num v)"

text \<open>\<open>newRequestID\<close>: sixteen random bytes in hexadecimal, or the clock when there are none.\<close>

definition hex_byte :: "nat \<Rightarrow> gostring" where
  "hex_byte b = [hex_digit (b div 16), hex_digit (b mod 16)]"

definition newRequestID :: "nat list option \<Rightarrow> int \<Rightarrow> gostring" where
  "newRequestID random nano =
     (case random of
        None \<Rightarrow> ''req-fallback-'' @ Itoa nano
      | Some b \<Rightarrow> ''req-'' @ concat (map hex_byte b))"

definition truncateString :: "gostring \<Rightarrow> nat \<Rightarrow> gostring" where
  "truncateString s0 mx =
     (let s = replace_byte (CHR 0x0A) '' '' s0 in
      if length s > mx then take mx s @ [CHR 0xE2, CHR 0x80, CHR 0xA6] else s)"

subsection \<open>The exchanges with the daemon\<close>

type_synonym http_reply = "(nat \<times> gostring) option"
type_synonym 'w http_client = "gostring \<Rightarrow> gostring \<Rightarrow> gostring \<Rightarrow> 'w \<Rightarrow> http_reply \<times> 'w"

definition register_url :: "mcpPermServer \<Rightarrow> gostring \<Rightarrow> gostring" where
  "register_url srv reqID = mp_daemonURL srv @ ''/api/dev/permission-requests/'' @ reqID"

definition register_json :: "mcpPermServer \<Rightarrow> (gostring \<Rightarrow> gostring option) \<Rightarrow> gostring \<Rightarrow> gostring \<Rightarrow> gval" where
  "register_json srv num toolName input =
     go_map [(''terminal_session_id'', GStr (mp_terminalSessionID srv)), (''claude_session_id'', GStr (mp_sessionID srv)),
       (''tool_name'', GStr toolName), (''input'', rawOrEmpty num input)]"

text \<open>\<open>True\<close>: registered.\<close>

definition registerPermissionRequest ::
  "mcpPermServer \<Rightarrow> (gostring \<Rightarrow> gostring option) \<Rightarrow> 'w http_client \<Rightarrow> gostring \<Rightarrow> gostring \<Rightarrow> gostring \<Rightarrow> 'w \<Rightarrow> bool \<times> 'w" where
  "registerPermissionRequest srv num http reqID toolName input w =
     (case http ''POST'' (register_url srv reqID) (marshal (register_json srv num toolName input)) w of
        (None, w1) \<Rightarrow> (False, w1)
      | (Some (status, body), w1) \<Rightarrow> (status < 300, w1))"

record awaitOutcome =
  ao_Decision :: gostring
  ao_Reason :: gostring

definition outcome_fields :: "(gostring \<times> awaitOutcome decoder) list" where
  "outcome_fields =
     [(''decision'', str_field (\<lambda>s. ao_Decision_update (\<lambda>_. s))), (''reason'', str_field (\<lambda>s. ao_Reason_update (\<lambda>_. s)))]"

definition decide_seconds :: "mcpPermServer \<Rightarrow> int" where
  "decide_seconds srv = (let t = mp_decideTimeout srv div second in if t \<le> 0 then 30 else t)"

definition await_url :: "mcpPermServer \<Rightarrow> gostring \<Rightarrow> gostring" where
  "await_url srv reqID = register_url srv reqID @ ''/await?timeout='' @ Itoa (decide_seconds srv)"

definition await_outcome :: "http_reply \<Rightarrow> awaitOutcome option" where
  "await_outcome reply =
     (case reply of
        None \<Rightarrow> None
      | Some (status, body) \<Rightarrow>
          if status \<noteq> 200 then None
          else case decode_body outcome_fields \<lparr>ao_Decision = [], ao_Reason = []\<rparr> body of
            None \<Rightarrow> None
          | Some out \<Rightarrow> if ao_Decision out \<noteq> ''allow'' \<and> ao_Decision out \<noteq> ''deny'' then None else Some out)"

definition awaitPermissionDecision :: "mcpPermServer \<Rightarrow> 'w http_client \<Rightarrow> gostring \<Rightarrow> 'w \<Rightarrow> awaitOutcome option \<times> 'w" where
  "awaitPermissionDecision srv http reqID w =
     (case http ''GET'' (await_url srv reqID) [] w of (reply, w1) \<Rightarrow> (await_outcome reply, w1))"

subsection \<open>The events for the browser\<close>

text \<open>The members of the terminal sessions in the reply of the list, as the map of their strings.\<close>

definition session_entries :: "gostring \<Rightarrow> (gostring \<times> json) list list option" where
  "session_entries body =
     (let entry = (\<lambda>v. case v of JObj ms \<Rightarrow> Some (fold (\<lambda>(k, raw, x). alist_put k x) ms []) | JNull \<Rightarrow> Some [] | _ \<Rightarrow> None);
          field = (\<lambda>raw v r. case v of
              JNull \<Rightarrow> ([], False)
            | JArr es \<Rightarrow> (List.map_filter (\<lambda>(_, x). entry x) es, list_ex (\<lambda>(_, x). entry x = None) es)
            | _ \<Rightarrow> (r, True))
      in case unmarshal_struct [(''terminal_sessions'', field)] [] body of (es, err) \<Rightarrow> if err then None else Some es)"

definition entry_string :: "gostring \<Rightarrow> (gostring \<times> json) list \<Rightarrow> gostring" where
  "entry_string k e = (case alist_get e k of Some (JStr s) \<Rightarrow> s | _ \<Rightarrow> [])"

definition matching_session :: "gostring \<Rightarrow> http_reply \<Rightarrow> gostring option" where
  "matching_session sid reply =
     (case reply of
        None \<Rightarrow> None
      | Some (status, body) \<Rightarrow>
          if status \<noteq> 200 then None
          else case session_entries body of
            None \<Rightarrow> None
          | Some es \<Rightarrow>
              map_option (entry_string ''id'')
                (find (\<lambda>e. entry_string ''claude_session_id'' e = sid \<and> entry_string ''id'' e \<noteq> []) es))"

text \<open>Up to \<open>n\<close> attempts (five in the code), with a sleep after each one that finds nothing.\<close>

fun resolve_attempts :: "nat \<Rightarrow> mcpPermServer \<Rightarrow> 'w http_client \<Rightarrow> 'w \<Rightarrow> gostring \<times> 'w" where
  "resolve_attempts 0 srv http w = ([], w)"
| "resolve_attempts (Suc n) srv http w =
     (case http ''GET'' (mp_daemonURL srv @ ''/api/dev/terminal-sessions'') [] w of
        (reply, w1) \<Rightarrow>
          (case matching_session (mp_sessionID srv) reply of
             Some ts \<Rightarrow> (ts, w1)
           | None \<Rightarrow> resolve_attempts n srv http w1))"

definition resolveTerminalSessionID :: "mcpPermServer \<Rightarrow> 'w http_client \<Rightarrow> 'w \<Rightarrow> gostring \<times> 'w" where
  "resolveTerminalSessionID srv http w = (if mp_sessionID srv = [] then ([], w) else resolve_attempts 5 srv http w)"

definition event_reason :: "bool \<Rightarrow> gostring \<Rightarrow> gostring" where
  "event_reason interactive decision =
     (if interactive \<and> decision = ''pending'' then ''awaiting web decision''
      else if interactive \<and> decision = ''allow'' then ''user approved''
      else if interactive \<and> decision = ''deny'' then ''user denied''
      else ''Pockly forwarding Claude permission prompt'')"

record perm_event =
  pe_ToolName :: gostring
  pe_Input :: gostring
  pe_RequestID :: gostring
  pe_Decision :: gostring

definition event_payload :: "mcpPermServer \<Rightarrow> (gostring \<Rightarrow> gostring option) \<Rightarrow> gostring \<Rightarrow> perm_event \<Rightarrow> gval" where
  "event_payload srv num ts e =
     go_map [(''tool_name'', GStr (pe_ToolName e)), (''input'', rawOrEmpty num (pe_Input e)), (''decision'', GStr (pe_Decision e)),
       (''reason'', GStr (event_reason (mp_interactive srv) (pe_Decision e))), (''ts'', GStr ts), (''request_id'', GStr (pe_RequestID e))]"

definition event_body :: "mcpPermServer \<Rightarrow> gval \<Rightarrow> gval" where
  "event_body srv payload =
     go_map [(''kind'', GStr ''permission_request''), (''session_status'', GStr ''live''), (''turn_status'', GStr ''streaming''),
       (''payload'', GStr (marshal payload)), (''session_id'', GStr (mp_sessionID srv))]"

text \<open>\<open>ts\<close> is the time stamp; the reply is only logged.\<close>

definition postPermissionEvent :: "mcpPermServer \<Rightarrow> (gostring \<Rightarrow> gostring option) \<Rightarrow> gostring \<Rightarrow> 'w http_client \<Rightarrow> perm_event \<Rightarrow> 'w \<Rightarrow> 'w" where
  "postPermissionEvent srv num ts http e w =
     (case (if mp_terminalSessionID srv = [] then resolveTerminalSessionID srv http w else (mp_terminalSessionID srv, w)) of
        (tsID, w1) \<Rightarrow>
          if tsID = [] then w1
          else snd (http ''POST'' (mp_daemonURL srv @ ''/api/dev/terminal-sessions/'' @ tsID @ ''/events'')
            (marshal (event_body srv (event_payload srv num ts e))) w1))"

subsection \<open>A call of the tool\<close>

definition wrapDecision :: "(gostring \<Rightarrow> gostring option) \<Rightarrow> gostring \<Rightarrow> gostring \<Rightarrow> gostring \<Rightarrow> gval" where
  "wrapDecision num decision input reason =
     (let out = go_map ([(''behavior'', GStr decision), (''updatedInput'', rawOrEmpty num input)] @
                  (if decision = ''deny'' \<and> reason \<noteq> [] then [(''message'', GStr reason)] else []))
      in go_map [(''content'', GArr [go_map [(''type'', GStr ''text''), (''text'', GStr (marshal out))]])])"

record tool_params =
  tp_Name :: gostring
  tp_Arguments :: gostring

record tool_probe =
  tb_ToolName :: gostring
  tb_Input :: gostring

definition params_of :: "gostring \<Rightarrow> tool_params" where
  "params_of raw =
     fst (unmarshal_struct
       [(''name'', str_field (\<lambda>s. tp_Name_update (\<lambda>_. s))), (''arguments'', raw_field (\<lambda>s. tp_Arguments_update (\<lambda>_. s)))]
       \<lparr>tp_Name = [], tp_Arguments = []\<rparr> raw)"

definition probe_of :: "gostring \<Rightarrow> tool_probe" where
  "probe_of raw =
     fst (unmarshal_struct
       [(''tool_name'', str_field (\<lambda>s. tb_ToolName_update (\<lambda>_. s))), (''input'', raw_field (\<lambda>s. tb_Input_update (\<lambda>_. s)))]
       \<lparr>tb_ToolName = [], tb_Input = []\<rparr> raw)"

definition bridge_error :: "gostring \<Rightarrow> jrpcErr" where
  "bridge_error msg = \<lparr>je_Code = -32000, je_Message = msg\<rparr>"

text \<open>The result, the events handed to goroutines, the world. \<open>reqID\<close> is the fresh request id.\<close>

definition handleToolCall ::
  "mcpPermServer \<Rightarrow> (gostring \<Rightarrow> gostring option) \<Rightarrow> 'w http_client \<Rightarrow> gostring \<Rightarrow> gostring \<Rightarrow> 'w \<Rightarrow> (jrpcErr + gval) \<times> perm_event list \<times> 'w" where
  "handleToolCall srv num http reqID raw w =
     (let probe = probe_of (tp_Arguments (params_of raw));
          event = (\<lambda>d. \<lparr>pe_ToolName = tb_ToolName probe, pe_Input = tb_Input probe, pe_RequestID = reqID, pe_Decision = d\<rparr>)
      in if \<not> mp_interactive srv then (Inl (bridge_error ''Pockly permission bridge is not interactive''), [], w)
      else case registerPermissionRequest srv num http reqID (tb_ToolName probe) (tb_Input probe) w of
        (False, w1) \<Rightarrow> (Inl (bridge_error ''Pockly permission bridge unavailable''), [], w1)
      | (True, w1) \<Rightarrow>
          (case awaitPermissionDecision srv http reqID w1 of
             (None, w2) \<Rightarrow> (Inl (bridge_error ''Pockly permission bridge did not receive a decision''), [event ''pending''], w2)
           | (Some out, w2) \<Rightarrow>
               (Inr (wrapDecision num (ao_Decision out) (tb_Input probe) (ao_Reason out)),
                [event ''pending'', event (ao_Decision out)], w2)))"

subsection \<open>The loop\<close>

definition initialize_result :: gval where
  "initialize_result =
     go_map [(''protocolVersion'', GStr ''2024-11-05''), (''capabilities'', go_map [(''tools'', GObj [])]),
       (''serverInfo'', go_map [(''name'', GStr ''pockly-permission''), (''version'', GStr ''0.1.42'')])]"

definition tools_list_result :: gval where
  "tools_list_result =
     go_map [(''tools'', GArr [go_map [(''name'', GStr ''request_permission''),
       (''description'', GStr ''Forward Claude Code permission prompts to the Pockly web UI and return the user's allow/deny decision.''),
       (''inputSchema'', go_map [(''type'', GStr ''object''),
          (''properties'', go_map [(''tool_name'', go_map [(''type'', GStr ''string'')]), (''input'', go_map [(''type'', GStr ''object'')])]),
          (''required'', GArr [GStr ''tool_name''])])]])]"

definition dispatch ::
  "mcpPermServer \<Rightarrow> (gostring \<Rightarrow> gostring option) \<Rightarrow> 'w http_client \<Rightarrow> gostring \<Rightarrow> jrpcReq \<Rightarrow> 'w \<Rightarrow> jrpcResp option \<times> perm_event list \<times> 'w" where
  "dispatch srv num http reqID req w =
     (if jq_ID req = [] \<or> jq_ID req = ''null'' then (None, [], w)
      else let ok = (\<lambda>v. Some \<lparr>jp_ID = jq_ID req, jp_Result = Some v, jp_Error = None\<rparr>);
               bad = (\<lambda>e. Some \<lparr>jp_ID = jq_ID req, jp_Result = None, jp_Error = Some e\<rparr>)
      in if jq_Method req = ''initialize'' then (ok initialize_result, [], w)
      else if jq_Method req = ''tools/list'' then (ok tools_list_result, [], w)
      else if jq_Method req = ''tools/call'' then
        (case handleToolCall srv num http reqID (jq_Params req) w of
           (Inl e, evs, w1) \<Rightarrow> (bad e, evs, w1)
         | (Inr v, evs, w1) \<Rightarrow> (ok v, evs, w1))
      else (bad \<lparr>je_Code = -32601, je_Message = ''method not found: '' @ jq_Method req\<rparr>, [], w))"

text \<open>One line of the input; \<open>None\<close>: nothing is written.\<close>

definition serve_line ::
  "mcpPermServer \<Rightarrow> (gostring \<Rightarrow> gostring option) \<Rightarrow> 'w http_client \<Rightarrow> gostring \<Rightarrow> gostring \<Rightarrow> 'w \<Rightarrow> jrpcResp option \<times> perm_event list \<times> 'w" where
  "serve_line srv num http reqID line w =
     (if TrimSpace line = [] then (None, [], w)
      else case unmarshal_struct jrpc_fields empty_jrpc line of
        (req, err) \<Rightarrow> if err then (None, [], w) else dispatch srv num http reqID req w)"

text \<open>
  The loop over the lines, each with the request id that is fresh then; the responses in order,
  and the error of the scanner. The scanner ends at a line that does not fit into four megabytes:
  the process answers nothing after it. The carriage return the scanner drops at the end of a
  line is white space to the decoder.
\<close>

definition max_mcp_line :: nat where "max_mcp_line = 4 * 1024 * 1024"

definition ErrTooLong :: gostring where "ErrTooLong = ''bufio.Scanner: token too long''"

fun serve ::
  "mcpPermServer \<Rightarrow> (gostring \<Rightarrow> gostring option) \<Rightarrow> 'w http_client \<Rightarrow> (gostring \<times> gostring) list \<Rightarrow> 'w \<Rightarrow>
   jrpcResp list \<times> gostring option \<times> 'w" where
  "serve srv num http [] w = ([], None, w)"
| "serve srv num http ((line, reqID) # ls) w =
     (if max_mcp_line \<le> length line then ([], Some ErrTooLong, w)
      else case serve_line srv num http reqID line w of
        (resp, evs, w1) \<Rightarrow>
          (case serve srv num http ls w1 of
             (rs, err, w2) \<Rightarrow> ((case resp of None \<Rightarrow> rs | Some r \<Rightarrow> r # rs), err, w2)))"

end
