(* ===== verification/PermissionBridge.thy ===== *)
theory PermissionBridge
  imports PermissionApi McpPermission
begin

section \<open>From the agent to the user and back\<close>

text \<open>
  The MCP server, the local API and the store put together: the bytes the server sends are
  the bytes the API reads, and the other way round. Between two exchanges other parties use
  the store (the browser decides through the API or through Nexus, other requests come and
  go); what they do is a list of operations before each exchange.
\<close>

subsection \<open>The daemon as seen by the MCP server\<close>

datatype broker_op =
    OpRegister time Request
  | OpDecide gostring Decision
  | OpCancel gostring
  | OpAwait wake gostring duration

fun run_op :: "broker_op \<Rightarrow> Store \<Rightarrow> Store" where
  "run_op (OpRegister now r) s = (case Register now r s of Inr t \<Rightarrow> t | Inl _ \<Rightarrow> s)"
| "run_op (OpDecide rid d) s = (case Decide rid d s of Inr (_, t) \<Rightarrow> t | Inl _ \<Rightarrow> s)"
| "run_op (OpCancel rid) s = (case Cancel rid s of Inr t \<Rightarrow> t | Inl _ \<Rightarrow> s)"
| "run_op (OpAwait w rid timeout) s = (case Await w rid timeout s of Some (_, t) \<Rightarrow> t | None \<Rightarrow> s)"

record bridge_world =
  bw_store :: Store
  bw_script :: "broker_op list list"
  bw_wake :: wake

text \<open>The request an address stands for; a query has one parameter.\<close>

definition query_param :: "gostring \<Rightarrow> gostring \<Rightarrow> gostring" where
  "query_param q key = (case cut_at ''='' q of Some (k, v) \<Rightarrow> if k = key then v else [] | None \<Rightarrow> [])"

definition url_request :: "gostring \<Rightarrow> gostring \<Rightarrow> gostring \<Rightarrow> http_request" where
  "url_request method target body =
     (case cut_at ''?'' target of
        None \<Rightarrow> \<lparr>hq_Method = method, hq_Path = target, hq_Query = (\<lambda>_. []), hq_Body = body\<rparr>
      | Some (p, q) \<Rightarrow> \<lparr>hq_Method = method, hq_Path = p, hq_Query = query_param q, hq_Body = body\<rparr>)"

definition api_exchange :: "gostring \<Rightarrow> time \<Rightarrow> bridge_world http_client" where
  "api_exchange base now method url body w =
     (if \<not> HasPrefix url base then (None, w)
      else let s = fold run_op (case bw_script w of ops # _ \<Rightarrow> ops | [] \<Rightarrow> []) (bw_store w);
               w1 = w\<lparr>bw_script := tl (bw_script w)\<rparr>
        in case handleDevPermissionRequest now (bw_wake w) [] (url_request method (drop (length base) url) body) s of
          Some (Inr (resp, t)) \<Rightarrow> (Some (hr_Status resp, marshal (hr_Body resp)), w1\<lparr>bw_store := t\<rparr>)
        | _ \<Rightarrow> (None, w1\<lparr>bw_store := s\<rparr>))"

subsection \<open>What the others do to a request\<close>

definition op_answer :: "gostring \<Rightarrow> broker_op \<Rightarrow> Outcome option" where
  "op_answer rid op =
     (case op of
        OpDecide q d \<Rightarrow> if q = rid \<and> (d = DecisionAllow \<or> d = DecisionDeny) then Some (user_outcome d) else None
      | OpCancel q \<Rightarrow> if q = rid then Some cancel_outcome else None
      | _ \<Rightarrow> None)"

definition first_answer :: "gostring \<Rightarrow> broker_op list \<Rightarrow> Outcome option" where
  "first_answer rid ops = (case List.map_filter (op_answer rid) ops of [] \<Rightarrow> None | out # _ \<Rightarrow> Some out)"

definition op_leaves :: "gostring \<Rightarrow> broker_op \<Rightarrow> bool" where
  "op_leaves rid op \<longleftrightarrow> (case op of OpAwait w q timeout \<Rightarrow> q \<noteq> rid | _ \<Rightarrow> True)"

text \<open>One operation: the answer that is there stays, else the operation may give one.\<close>

definition later :: "'a option \<Rightarrow> 'a option \<Rightarrow> 'a option" where
  "later a b = (case a of None \<Rightarrow> b | Some x \<Rightarrow> Some x)"

lemma later_simps [simp]: "later None b = b" "later (Some x) b = Some x" "later a None = a"
  by (simp_all add: later_def split: option.splits)

lemma offer_keeps_first:
  assumes "store_ok s" "lookup_pending q s = Some c"
  obtains t where "offer out c s = Inr t" "store_ok t"
    "store_answers t = (store_answers s)(q \<mapsto> later (the (store_answers s q)) (Some out))"
proof -
  obtain p where p: "alist_get (pendings s) q = Some p" "p_ch p = c"
    using assms(2) by (auto simp: lookup_pending_def)
  from offer_answers[OF assms(1) p(1), of out] obtain t where "offer out c s = Inr t" "store_ok t"
    "store_answers t = (store_answers s)(q \<mapsto> (case the (store_answers s q) of None \<Rightarrow> Some out | Some o' \<Rightarrow> Some o'))"
    unfolding p(2) by blast
  then show thesis using that by (simp add: later_def)
qed

lemma answers_lookup: "store_answers s q \<noteq> None \<longleftrightarrow> lookup_pending q s \<noteq> None"
  by (simp add: store_answers_def lookup_pending_def)

lemma run_decide:
  assumes "store_ok s" "store_answers s rid = Some a"
  shows "store_ok (run_op (OpDecide q d) s)" "store_answers (run_op (OpDecide q d) s) rid = Some (later a (op_answer rid (OpDecide q d)))"
proof -
  have "store_ok (run_op (OpDecide q d) s) \<and> store_answers (run_op (OpDecide q d) s) rid = Some (later a (op_answer rid (OpDecide q d)))"
  proof (cases "Decide_check q d s")
    case (Inl e)
    then have "op_answer rid (OpDecide q d) = None"
      using assms(2) answers_lookup[of s rid]
      by (auto simp: Decide_check_def op_answer_def split: if_splits option.splits)
    with Inl assms show ?thesis by (simp add: Decide_def)
  next
    case (Inr c)
    then have d: "d = DecisionAllow \<or> d = DecisionDeny" "lookup_pending q s = Some c"
      by (auto simp: Decide_check_def split: if_splits option.splits)
    obtain t where "offer (user_outcome d) c s = Inr t" "store_ok t"
      "store_answers t = (store_answers s)(q \<mapsto> later (the (store_answers s q)) (Some (user_outcome d)))"
      using offer_keeps_first[OF assms(1) d(2)] .
    with Inr assms d(1) show ?thesis by (auto simp: Decide_def op_answer_def)
  qed
  then show "store_ok (run_op (OpDecide q d) s)" "store_answers (run_op (OpDecide q d) s) rid = Some (later a (op_answer rid (OpDecide q d)))"
    by auto
qed

lemma run_cancel:
  assumes "store_ok s" "store_answers s rid = Some a"
  shows "store_ok (run_op (OpCancel q) s) \<and> store_answers (run_op (OpCancel q) s) rid = Some (later a (op_answer rid (OpCancel q)))"
proof (cases "lookup_pending q s")
  case None
  then have "q \<noteq> rid" using assms(2) answers_lookup[of s rid] by auto
  with None assms show ?thesis by (simp add: Cancel_def op_answer_def)
next
  case (Some c)
  obtain t where "offer cancel_outcome c s = Inr t" "store_ok t"
    "store_answers t = (store_answers s)(q \<mapsto> later (the (store_answers s q)) (Some cancel_outcome))"
    using offer_keeps_first[OF assms(1) Some] .
  with Some assms show ?thesis by (auto simp: Cancel_def op_answer_def)
qed

lemma run_register:
  assumes "store_ok s" "store_answers s rid = Some a"
  shows "store_ok (run_op (OpRegister now r) s) \<and> store_answers (run_op (OpRegister now r) s) rid = Some a"
proof (cases "Register now r s")
  case (Inr t)
  from store_answers_Register[OF assms(1) this] have "store_answers t = (store_answers s)(ID r \<mapsto> None)" "ID r \<noteq> rid"
    using assms(2) by auto
  with Inr assms store_ok_Register[OF assms(1) Inr] show ?thesis by simp
qed (use assms in simp)

text \<open>Waiting for another request touches only the entry and the channel of that request.\<close>

lemma run_await:
  assumes "store_ok s" "store_answers s rid = Some a" "q \<noteq> rid"
  shows "store_ok (run_op (OpAwait w q timeout) s) \<and> store_answers (run_op (OpAwait w q timeout) s) rid = Some a"
proof (cases "lookup_pending q s")
  case (Some c)
  then obtain p where p: "alist_get (pendings s) q = Some p" "p_ch p = c" by (auto simp: lookup_pending_def)
  have other: "store_answers t rid = Some a" if "Await_select w q c timeout s = Some (res, t)" for res t
    using that assms(2,3) store_answers_upd[OF assms(1) p(1), unfolded p(2)]
    by (cases w) (auto simp: store_answers_delete_pending split: option.splits if_splits)
  with assms Some store_ok_select[OF assms(1), of w q c timeout] show ?thesis
    by (cases "Await_select w q c timeout s") (auto simp: Await_def)
qed (use assms in \<open>simp add: Await_def\<close>)

lemma run_op_answer:
  assumes "store_ok s" "store_answers s rid = Some a" "op_leaves rid op"
  shows "store_ok (run_op op s) \<and> store_answers (run_op op s) rid = Some (later a (op_answer rid op))"
proof (cases op)
  case (OpAwait w q timeout)
  with run_await[OF assms(1,2), of q w timeout] assms(3) show ?thesis by (simp add: op_leaves_def op_answer_def)
next
  case (OpRegister now r)
  with run_register[OF assms(1,2)] show ?thesis by (simp add: op_answer_def)
qed (use run_decide[OF assms(1,2)] run_cancel[OF assms(1,2)] in auto)

lemma first_answer_simps:
  "first_answer rid [] = None" "first_answer rid (op # ops) = later (op_answer rid op) (first_answer rid ops)"
  by (auto simp: first_answer_def List.map_filter_def split: option.splits)

lemma later_assoc: "later (later a b) c = later a (later b c)"
  by (cases a; cases b) simp_all

lemma run_ops_answer:
  assumes "store_ok s" "store_answers s rid = Some a" "list_all (op_leaves rid) ops"
  shows "store_ok (fold run_op ops s) \<and> store_answers (fold run_op ops s) rid = Some (later a (first_answer rid ops))"
  using assms
proof (induction ops arbitrary: s a)
  case (Cons op ops)
  then show ?case
    using run_op_answer[OF Cons.prems(1,2), of op] Cons.IH[of "run_op op s" "later a (op_answer rid op)"]
    by (simp add: first_answer_simps later_assoc)
qed (simp add: first_answer_simps)

lemma run_ops_ok: "store_ok s \<Longrightarrow> store_ok (fold run_op ops s)"
proof (induction ops arbitrary: s)
  case (Cons op ops)
  have "store_ok (run_op op s)"
  proof (cases op)
    case (OpRegister now r)
    then show ?thesis using Cons.prems store_ok_Register by (auto split: sum.splits)
  next
    case (OpDecide q d)
    show ?thesis
    proof (cases "Decide_check q d s")
      case (Inr c)
      then have "lookup_pending q s = Some c" by (auto simp: Decide_check_def split: if_splits option.splits)
      then obtain t where "offer (user_outcome d) c s = Inr t" "store_ok t" by (rule offer_keeps_first[OF Cons.prems])
      with Inr OpDecide show ?thesis by (simp add: Decide_def)
    qed (use OpDecide Cons.prems in \<open>simp add: Decide_def\<close>)
  next
    case (OpCancel q)
    show ?thesis
    proof (cases "lookup_pending q s")
      case (Some c)
      then obtain t where "offer cancel_outcome c s = Inr t" "store_ok t" by (rule offer_keeps_first[OF Cons.prems])
      with Some OpCancel show ?thesis by (simp add: Cancel_def)
    qed (use OpCancel Cons.prems in \<open>simp add: Cancel_def\<close>)
  next
    case (OpAwait w q timeout)
    then show ?thesis
      using Cons.prems store_ok_select[OF Cons.prems, of w q] by (auto simp: Await_def split: option.splits)
  qed
  then show ?case using Cons.IH by simp
qed simp

subsection \<open>The exchanges\<close>

text \<open>A request id as \<open>newRequestID\<close> makes them: no separators of an address.\<close>

definition plain_id :: "gostring \<Rightarrow> bool" where
  "plain_id rid \<longleftrightarrow> rid \<noteq> [] \<and> CHR ''/'' \<notin> set rid \<and> CHR ''?'' \<notin> set rid"

lemma cut_at_byte: "d \<notin> set a \<Longrightarrow> cut_at [d] (a @ d # b) = Some (a, b)" "d \<notin> set a \<Longrightarrow> cut_at [d] a = None"
  by (induction a) (auto simp: HasPrefix_def)

lemma TrimLeft_id: "s = [] \<or> hd s \<notin> set cs \<Longrightarrow> TrimLeft s cs = s"
  by (cases s) (auto simp: TrimLeft_def)

lemma path_parts_bare: "plain_id rid \<Longrightarrow> path_parts (permission_prefix @ rid) = (rid, [])"
proof -
  assume r: "plain_id rid"
  then have "hd rid \<noteq> CHR ''/''" "last rid \<noteq> CHR ''/''" by (auto simp: plain_id_def) (metis list.set_sel(1), metis last_in_set)
  with r show ?thesis
    by (simp add: path_parts_def TrimPrefix_def HasPrefix_def Trim_def TrimLeft_id TrimRight_id SplitN2_def cut_at_byte plain_id_def)
qed

lemma path_parts_action:
  assumes "plain_id rid" "action \<noteq> []" "CHR ''/'' \<notin> set action"
  shows "path_parts (permission_prefix @ rid @ CHR ''/'' # action) = (rid, action)"
proof -
  from assms have "hd (rid @ CHR ''/'' # action) \<noteq> CHR ''/''" "last (rid @ CHR ''/'' # action) \<noteq> CHR ''/''"
    by (auto simp: plain_id_def hd_append) (metis list.set_sel(1), metis last_in_set)
  with assms show ?thesis
    by (simp add: path_parts_def TrimPrefix_def HasPrefix_def Trim_def TrimLeft_id TrimRight_id SplitN2_def cut_at_byte plain_id_def)
qed

lemma cut_append: "CHR ''?'' \<notin> set a \<Longrightarrow> cut_at ''?'' (a @ CHR ''?'' # b) = Some (a, b)"
  by (rule cut_at_byte)

lemma prefix_plain: "CHR ''?'' \<notin> set permission_prefix"
  by (simp add: permission_prefix_def)

lemma url_request_bare:
  assumes "plain_id rid"
  shows "url_request m (permission_prefix @ rid) b = \<lparr>hq_Method = m, hq_Path = permission_prefix @ rid, hq_Query = (\<lambda>_. []), hq_Body = b\<rparr>"
proof -
  have "CHR ''?'' \<notin> set (permission_prefix @ rid)" using assms prefix_plain by (simp add: plain_id_def)
  then have "cut_at ''?'' (permission_prefix @ rid) = None" by (rule cut_at_byte(2))
  then show ?thesis by (simp only: url_request_def option.case)
qed

text \<open>Registering: a status below 300 means that the entry is there and unanswered.\<close>

lemma registered:
  assumes "store_ok s" "handlePermissionRegister now body rid s = (resp, t)" "hr_Status resp < 300"
  shows "store_ok t \<and> store_answers t rid = Some None"
proof -
  obtain b where "Register now (register_request rid b) s = Inr t"
    using assms(2,3) by (auto simp: handlePermissionRegister_def http_error_def respond_def split: option.splits if_splits sum.splits)
  from store_ok_Register[OF assms(1) this] store_answers_Register[OF assms(1) this] show ?thesis
    by (simp add: register_request_def)
qed

lemma register_exchange:
  assumes "store_ok (bw_store w)" "plain_id rid" "bw_script w = [before, during]"
    and "registerPermissionRequest srv num (api_exchange (mp_daemonURL srv) now) rid tool input w = (True, w1)"
  shows "store_ok (bw_store w1) \<and> store_answers (bw_store w1) rid = Some None \<and> bw_script w1 = [during] \<and> bw_wake w1 = bw_wake w"
proof -
  let ?s = "fold run_op before (bw_store w)" let ?b = "marshal (register_json srv num tool input)"
  obtain resp t where h: "handlePermissionRegister now ?b rid ?s = (resp, t)" by fastforce
  have p: "register_url srv rid = mp_daemonURL srv @ permission_prefix @ rid"
    by (simp add: register_url_def permission_prefix_def)
  have "api_exchange (mp_daemonURL srv) now ''POST'' (register_url srv rid) ?b w =
    (Some (hr_Status resp, marshal (hr_Body resp)), w\<lparr>bw_script := [during], bw_store := t\<rparr>)"
    using assms(2,3) h unfolding p
    by (simp add: api_exchange_def HasPrefix_def url_request_bare handleDevPermissionRequest_def path_parts_bare plain_id_def)
  with assms(4) have "hr_Status resp < 300" "w1 = w\<lparr>bw_script := [during], bw_store := t\<rparr>"
    by (simp_all add: registerPermissionRequest_def)
  with registered[OF run_ops_ok[OF assms(1)] h] show ?thesis by simp
qed

text \<open>The reply of a decided request is read back as the outcome.\<close>

lemma outcome_arrives:
  assumes "ascii (out_Decision out)" "ascii (out_Reason out)"
  shows "decode_body outcome_fields \<lparr>ao_Decision = [], ao_Reason = []\<rparr> (marshal (outcome_json out)) =
    Some \<lparr>ao_Decision = out_Decision out, ao_Reason = out_Reason out\<rparr>"
proof -
  have "first_value (marshal (outcome_json out)) = Some (wire (outcome_json out))"
    by (rule first_value_marshal) (simp_all add: outcome_json_def maxNestingDepth_def)
  then show ?thesis
    using assms by (simp add: decode_body_def outcome_json_def arrives_ascii dec_struct_def outcome_fields_def find_field_def str_field_def)
qed

lemma first_answer_values:
  "first_answer rid ops = Some out \<Longrightarrow> out \<in> {user_outcome DecisionAllow, user_outcome DecisionDeny, cancel_outcome}"
proof (induction ops)
  case (Cons op ops)
  then show ?case
    by (cases "op_answer rid op") (auto simp: first_answer_simps op_answer_def split: broker_op.splits if_splits)
qed (simp add: first_answer_simps)

lemma await_reply_outcome:
  assumes "first_answer rid ops = Some out"
  shows "await_outcome (Some (200, marshal (outcome_json out))) = Some \<lparr>ao_Decision = out_Decision out, ao_Reason = out_Reason out\<rparr>"
proof -
  have v: "out_Decision out = ''allow'' \<or> out_Decision out = ''deny''" "ascii (out_Decision out)" "ascii (out_Reason out)"
    using first_answer_values[OF assms] by (auto simp: user_outcome_def cancel_outcome_def decision_consts)
  show ?thesis using v(1) outcome_arrives[OF v(2,3)] by (simp add: await_outcome_def)
qed

lemma await_path:
  assumes "plain_id rid"
  shows "url_request ''GET'' (permission_prefix @ rid @ ''/await?timeout='' @ n) b =
    \<lparr>hq_Method = ''GET'', hq_Path = permission_prefix @ rid @ ''/await'', hq_Query = query_param (''timeout='' @ n), hq_Body = b\<rparr>"
proof -
  have "CHR ''?'' \<notin> set (permission_prefix @ rid @ ''/await'')" using assms prefix_plain by (simp add: plain_id_def)
  from cut_append[OF this, of "''timeout='' @ n"]
  have "cut_at ''?'' (permission_prefix @ rid @ ''/await?timeout='' @ n) = Some (permission_prefix @ rid @ ''/await'', ''timeout='' @ n)"
    by simp
  then show ?thesis by (simp only: url_request_def option.case prod.case)
qed

text \<open>
  Awaiting: the outcome of the first answer when the outcome case fires, nothing when it does
  not or when there is none.
\<close>

lemma await_exchange:
  assumes "store_ok (bw_store w)" "store_answers (bw_store w) rid = Some None" "bw_script w = [ops]"
    and "list_all (op_leaves rid) ops" "plain_id rid"
  shows "fst (awaitPermissionDecision srv (api_exchange (mp_daemonURL srv) now) rid w) =
    (case (bw_wake w, first_answer rid ops) of
       (WakeOutcome, Some out) \<Rightarrow> Some \<lparr>ao_Decision = out_Decision out, ao_Reason = out_Reason out\<rparr>
     | _ \<Rightarrow> None)"
proof -
  let ?s = "fold run_op ops (bw_store w)" let ?n = "Itoa (decide_seconds srv)"
  define T where "T = await_seconds (query_param (''timeout='' @ ?n) ''timeout'') * second"
  note u = await_path[OF assms(5), of ?n "[]", simplified]
  note pa = path_parts_action[OF assms(5), of "''await''", simplified]
  have p: "await_url srv rid = mp_daemonURL srv @ permission_prefix @ rid @ ''/await?timeout='' @ ?n"
    by (simp add: await_url_def register_url_def permission_prefix_def)
  have s: "store_ok ?s" "store_answers ?s rid = Some (first_answer rid ops)"
    using run_ops_answer[OF assms(1,2,4)] by simp_all
  have rid: "rid \<noteq> []" using assms(5) by (simp add: plain_id_def)
  have ex: "fst (api_exchange (mp_daemonURL srv) now ''GET'' (await_url srv rid) [] w) =
    (case Await (bw_wake w) rid T ?s of
       None \<Rightarrow> None | Some (res, t) \<Rightarrow> Some (hr_Status (await_response [] res), marshal (hr_Body (await_response [] res))))"
    unfolding p T_def
    by (simp add: api_exchange_def HasPrefix_def u handleDevPermissionRequest_def pa rid handlePermissionAwait_def assms(3)
        split: option.split)
  have "T > 0" by (simp add: T_def await_seconds_def Let_def split: option.split)
  have "await_outcome (fst (api_exchange (mp_daemonURL srv) now ''GET'' (await_url srv rid) [] w)) =
    (case (bw_wake w, first_answer rid ops) of
       (WakeOutcome, Some out) \<Rightarrow> Some \<lparr>ao_Decision = out_Decision out, ao_Reason = out_Reason out\<rparr>
     | _ \<Rightarrow> None)"
  proof (cases "bw_wake w")
    case WakeOutcome
    show ?thesis
    proof (cases "first_answer rid ops")
      case None
      then show ?thesis using broker.await_blocks[OF s(1)] s(2) WakeOutcome unfolding ex by (simp add: await_outcome_def)
    next
      case (Some out)
      obtain t where "Await WakeOutcome rid T ?s = Some (Inr out, t)"
        using broker.await_answer[OF s(1), of rid out T] s(2) Some by auto
      with Some WakeOutcome await_reply_outcome[OF Some] show ?thesis unfolding ex by (simp add: await_response_def respond_def)
    qed
  next
    case WakeTimeout
    obtain c where "lookup_pending rid ?s = Some c" using s(2) answers_lookup[of ?s rid] by auto
    with WakeTimeout \<open>T > 0\<close> show ?thesis
      unfolding ex by (simp add: Await_def await_response_def http_error_def respond_def await_outcome_def)
  next
    case WakeContext
    obtain c where "lookup_pending rid ?s = Some c" using s(2) answers_lookup[of ?s rid] by auto
    with WakeContext show ?thesis
      unfolding ex by (simp add: Await_def await_response_def http_error_def respond_def await_outcome_def)
  qed
  then show ?thesis by (simp add: awaitPermissionDecision_def case_prod_unfold)
qed

subsection \<open>Properties\<close>

abbreviation asked :: "gostring \<Rightarrow> tool_probe" where "asked raw \<equiv> probe_of (tp_Arguments (params_of raw))"

text \<open>
  C2. The agent gets the user's decision, and only that: a tool call whose request was
  registered is answered with the first decision or cancellation the others made for that
  very request id while it waited, with the input echoed, when the waiting ends by it; in
  every other case (no decision, timeout, lost connection) the call ends with an error and
  never with a permission, whatever else happens to the store in the meantime.
\<close>

theorem tool_call_gets_first_decision:
  assumes "store_ok (bw_store w)" "plain_id rid" "bw_script w = [before, during]" "list_all (op_leaves rid) during"
    and "mp_interactive srv"
    and "registerPermissionRequest srv num (api_exchange (mp_daemonURL srv) now) rid
      (tb_ToolName (asked raw)) (tb_Input (asked raw)) w = (True, w1)"
  shows "fst (handleToolCall srv num (api_exchange (mp_daemonURL srv) now) rid raw w) =
    (case (bw_wake w, first_answer rid during) of
       (WakeOutcome, Some out) \<Rightarrow> Inr (wrapDecision num (out_Decision out) (tb_Input (asked raw)) (out_Reason out))
     | _ \<Rightarrow> Inl (bridge_error ''Pockly permission bridge did not receive a decision''))"
proof -
  note r = register_exchange[OF assms(1,2,3,6)]
  have "fst (awaitPermissionDecision srv (api_exchange (mp_daemonURL srv) now) rid w1) =
    (case (bw_wake w, first_answer rid during) of
       (WakeOutcome, Some out) \<Rightarrow> Some \<lparr>ao_Decision = out_Decision out, ao_Reason = out_Reason out\<rparr>
     | _ \<Rightarrow> None)"
    using await_exchange[of w1 rid during srv now] r assms(2,4) by simp
  then show ?thesis
    using assms(5,6)
    by (cases "awaitPermissionDecision srv (api_exchange (mp_daemonURL srv) now) rid w1")
      (auto simp: handleToolCall_def Let_def split: wake.splits option.splits)
qed

text \<open>
  A second click is told it was accepted: once a decision is taken, a contrary one before the
  agent picks the first up is acknowledged with \<open>accepted\<close> and has no effect.
\<close>

lemma second_click_accepted:
  assumes "store_ok s" "store_answers s rid = Some (Some (user_outcome DecisionAllow))"
  shows "\<exists>t. permission_decide_ack rid DecisionDeny s = Inr ((''accepted'', []), t) \<and>
    store_answers t rid = Some (Some (user_outcome DecisionAllow))"
  using broker.decide_total[OF assms(1), of DecisionDeny rid "Some (user_outcome DecisionAllow)"] assms(2)
  by (auto simp: permission_decide_ack_def)

text \<open>Asking for more than two minutes is not capped but replaced by the default.\<close>

lemma await_seconds_over: "TrimSpace q = t \<Longrightarrow> t \<noteq> [] \<Longrightarrow> Atoi t = Some v \<Longrightarrow> v > 120 \<Longrightarrow> await_seconds q = 30"
  by (simp add: await_seconds_def)

subsection \<open>What is registered\<close>

lemma register_json_sorted:
  "register_json srv num tool input =
     GObj [(''claude_session_id'', GStr (mp_sessionID srv)), (''input'', rawOrEmpty num input),
       (''terminal_session_id'', GStr (mp_terminalSessionID srv)), (''tool_name'', GStr tool)]"
  by (simp add: register_json_def go_map_def less_eq_char_def less_char_def)

lemma rawOrEmpty_wire_ok: "prints_numbers num \<Longrightarrow> wire_ok (rawOrEmpty num raw)"
  using any_value_wire_ok[of num] parse_json_ok[of raw]
  by (auto simp: rawOrEmpty_def split: option.split)

text \<open>
  What the store should hold of an input, said on the two JSON documents: the empty object when
  the agent gave nothing, no JSON or a number out of range, and the same value otherwise.
\<close>

definition input_kept :: "(gostring \<Rightarrow> gostring option) \<Rightarrow> gostring \<Rightarrow> gostring \<Rightarrow> bool" where
  "input_kept num given stored \<longleftrightarrow>
     (case (if TrimSpace given = [] then None else parse_json given) of
        None \<Rightarrow> parse_json stored = Some (JObj [])
      | Some v \<Rightarrow> (\<exists>w. parse_json stored = Some w \<and> (if number_error num v then w = JObj [] else same_value num v w)))"

definition shallow :: "gostring \<Rightarrow> bool" where
  "shallow given \<longleftrightarrow> (case parse_json given of Some v \<Rightarrow> json_depth v < maxNestingDepth | None \<Rightarrow> True)"

lemma rawOrEmpty_depth: "shallow given \<Longrightarrow> json_depth (wire (rawOrEmpty num given)) < maxNestingDepth"
  using any_value_depth[of num]
  by (auto simp: rawOrEmpty_def shallow_def maxNestingDepth_def intro: le_less_trans split: option.splits)

lemma rawOrEmpty_kept:
  assumes "prints_numbers num" "shallow given"
  shows "input_kept num given (marshal (rawOrEmpty num given))"
proof -
  have "parse_json (marshal (rawOrEmpty num given)) = Some (wire (rawOrEmpty num given))"
    by (rule parse_marshal) (use rawOrEmpty_wire_ok[OF assms(1)] rawOrEmpty_depth[OF assms(2), of num] in simp_all)
  then show ?thesis
  proof (cases "TrimSpace given = [] \<or> parse_json given = None")
    case False
    then obtain v where v: "TrimSpace given \<noteq> []" "parse_json given = Some v" by auto
    then show ?thesis
      using \<open>parse_json (marshal _) = _\<close> same_value_wire[OF parse_json_strings[OF v(2)], of num]
      by (cases "number_error num v") (simp_all add: input_kept_def rawOrEmpty_def)
  qed (auto simp: input_kept_def rawOrEmpty_def split: option.splits)
qed

lemma decode_register:
  assumes "prints_numbers num" "json_depth (wire (rawOrEmpty num input)) < maxNestingDepth"
  shows "decode_strict register_fields empty_register (marshal (register_json srv num tool input)) =
    Some \<lparr>rb_TerminalSessionID = arrives (mp_terminalSessionID srv), rb_ClaudeSessionID = arrives (mp_sessionID srv),
      rb_ToolName = arrives tool, rb_Input = marshal (rawOrEmpty num input)\<rparr>"
proof -
  have "first_value (marshal (register_json srv num tool input)) = Some (wire (register_json srv num tool input))"
    by (rule first_value_marshal) (use rawOrEmpty_wire_ok[OF assms(1)] assms(2) in \<open>simp_all add: register_json_sorted\<close>)
  then show ?thesis
    by (simp add: decode_strict_def register_json_sorted arrives_ascii dec_struct_def register_fields_def find_field_def
        str_field_def raw_field_def unknown_member_def empty_register_def)
qed


subsection \<open>Witnesses\<close>

definition ex_srv :: mcpPermServer where
  "ex_srv = runMCPPermission [] ''s'' ''http://d/'' True (30 * second)"

definition ex_input :: gval where "ex_input = GObj [(''command'', GStr ''ls'')]"

definition ex_arguments :: gval where
  "ex_arguments = GObj [(''tool_name'', GStr ''Bash''), (''input'', ex_input)]"

definition ex_raw :: gostring where
  "ex_raw = marshal (GObj [(''name'', GStr ''request_permission''), (''arguments'', ex_arguments)])"

definition ex_world :: bridge_world where
  "ex_world = \<lparr>bw_store = NewStore,
     bw_script = [[], [OpCancel ''other'', OpDecide ''req-1'' DecisionAllow, OpDecide ''req-1'' DecisionDeny]],
     bw_wake = WakeOutcome\<rparr>"

lemma ex_srv_simps: "mp_daemonURL ex_srv = ''http://d''" "mp_interactive ex_srv"
  by (simp_all add: ex_srv_def runMCPPermission_def TrimSpace_ascii is_space_def TrimRight_def)

lemma ex_parse: "parse_json (marshal ex_input) = Some (wire ex_input)" "parse_json (marshal ex_arguments) = Some (wire ex_arguments)"
  "parse_json ex_raw = Some (wire (GObj [(''name'', GStr ''request_permission''), (''arguments'', ex_arguments)]))"
  unfolding ex_raw_def by (rule parse_marshal; simp add: ex_input_def ex_arguments_def maxNestingDepth_def)+

lemma ex_asked: "tb_ToolName (asked ex_raw) = ''Bash''" "tb_Input (asked ex_raw) = marshal ex_input"
  by (simp_all add: params_of_def unmarshal_struct_def ex_parse dec_struct_def arrives_ascii find_field_def str_field_def raw_field_def
      probe_of_def) (simp_all add: ex_arguments_def arrives_ascii find_field_def str_field_def raw_field_def)

lemma ex_depth: "json_depth (wire ex_input) < maxNestingDepth"
  by (simp add: ex_input_def maxNestingDepth_def)

lemma TrimSpace_start: "(of_char c :: nat) < 128 \<Longrightarrow> \<not> is_space (of_char c) \<Longrightarrow> TrimSpace (c # s) \<noteq> []"
  by (simp add: TrimSpace_def rune_segs_ascii_Cons unsegs_def dropWhile_append)

lemma ex_rawOrEmpty: "rawOrEmpty Some (marshal ex_input) = ex_input"
proof -
  have "TrimSpace (marshal ex_input) \<noteq> []" by (simp add: ex_input_def TrimSpace_start is_space_def)
  then show ?thesis by (simp add: rawOrEmpty_def ex_parse) (simp add: ex_input_def arrives_ascii go_map_def)
qed

lemma ex_shallow: "shallow (marshal ex_input)"
  using ex_depth by (simp add: shallow_def ex_parse)

lemma ex_tool: "TrimSpace (arrives ''Bash'') \<noteq> []"
  by (simp add: arrives_ascii TrimSpace_start is_space_def)


lemma ex_registered:
  "fst (registerPermissionRequest ex_srv Some (api_exchange ''http://d'' 9) ''req-1'' ''Bash'' (marshal ex_input) ex_world)"
proof -
  have d: "decode_strict register_fields empty_register (marshal (register_json ex_srv Some ''Bash'' (marshal ex_input))) =
    Some \<lparr>rb_TerminalSessionID = arrives (mp_terminalSessionID ex_srv), rb_ClaudeSessionID = arrives (mp_sessionID ex_srv),
      rb_ToolName = arrives ''Bash'', rb_Input = marshal ex_input\<rparr>"
    using decode_register[of Some "marshal ex_input" ex_srv "''Bash''"]
    by (simp add: prints_numbers_def ex_rawOrEmpty ex_depth)
  have p: "register_url ex_srv ''req-1'' = ''http://d'' @ permission_prefix @ ''req-1''"
    unfolding register_url_def ex_srv_simps permission_prefix_def by simp
  have i: "plain_id ''req-1''" by (simp add: plain_id_def)
  show ?thesis
    unfolding registerPermissionRequest_def p
    using ex_tool
    by (simp add: api_exchange_def HasPrefix_def url_request_bare[OF i, simplified] handleDevPermissionRequest_def
        path_parts_bare[OF i, simplified] ex_world_def handlePermissionRegister_def d Register_def register_request_def NewStore_def
        alloc_def respond_def)
qed

theorem tool_call_gets_first_decision_witness:
  "fst (handleToolCall ex_srv Some (api_exchange ''http://d'' 9) ''req-1'' ex_raw ex_world) =
     Inr (wrapDecision Some ''allow'' (marshal ex_input) ''user'')"
proof -
  obtain w1 where w1: "registerPermissionRequest ex_srv Some (api_exchange ''http://d'' 9) ''req-1'' ''Bash'' (marshal ex_input) ex_world = (True, w1)"
    using ex_registered
    by (cases "registerPermissionRequest ex_srv Some (api_exchange ''http://d'' 9) ''req-1'' ''Bash'' (marshal ex_input) ex_world") simp
  have ops: "bw_script ex_world = [[], [OpCancel ''other'', OpDecide ''req-1'' DecisionAllow, OpDecide ''req-1'' DecisionDeny]]"
    "store_ok (bw_store ex_world)" "bw_wake ex_world = WakeOutcome" "plain_id ''req-1''"
    by (simp_all add: ex_world_def store_ok_NewStore plain_id_def)
  show ?thesis
    using tool_call_gets_first_decision[OF ops(2,4,1), of ex_srv Some 9 ex_raw w1] w1
    by (simp add: ex_srv_simps ex_asked ops op_leaves_def first_answer_simps op_answer_def user_outcome_def decision_consts)
qed

end
