(* ===== verification/SdkDriver.thy ===== *)
theory SdkDriver
  imports GoJson Manager
begin

section \<open>The headless driver\<close>

text \<open>
  \<open>daemon/internal/agent/sdkdriver/driver.go\<close>: one Claude subprocess (or Codex app server)
  behind an external session. A driver points to its session by the session's index in the
  terminal manager. The subprocess is outside: whether it can be spawned, what it writes and
  when it exits are arguments of the steps; the goroutines of a driver (the input pump, the
  reader of the output, the waiter) are steps.
\<close>

subsection \<open>Configuration and state\<close>

definition AgentClaude :: gostring where "AgentClaude = ''claude-code''"
definition AgentCodex :: gostring where "AgentCodex = ''codex''"

record DriverConfig =
  cf_SessionID :: gostring
  cf_Agent :: gostring
  cf_Cwd :: gostring
  cf_ResumePath :: gostring
  cf_BinaryPath :: gostring
  cf_CommandPrefixArgs :: "gostring list"
  cf_LauncherSource :: gostring
  cf_DaemonBinaryPath :: gostring
  cf_DaemonLocalAPIURL :: gostring
  cf_TerminalSessionID :: gostring
  cf_Model :: gostring
  cf_PermissionMode :: gostring
  cf_Effort :: gostring
  cf_NewSession :: bool
  cf_CodexAppTransport :: gostring
  cf_CodexAppSocketPath :: gostring
  cf_CodexAppAllowDaemonStart :: bool

text \<open>
  \<open>dr_cmd\<close>: the subprocess was started; \<open>dr_cancel\<close>: the cancel function is set,
  \<open>dr_cancelled\<close>: its context is cancelled; \<open>dr_mcp\<close>: the temporary file to remove;
  \<open>dr_pump\<close>: the channel of the input pump and its subscription; \<open>dr_done\<close>: \<open>subprocessDone\<close>
  is closed.
\<close>

record Driver =
  dr_cfg :: DriverConfig
  dr_session :: nat
  dr_cmd :: bool
  dr_cancel :: bool
  dr_cancelled :: bool
  dr_mcp :: "gostring option"
  dr_stopped :: bool
  dr_turnInFlight :: bool
  dr_lastActivity :: time
  dr_pump :: "(nat \<times> nat option) option"
  dr_done :: bool

definition sdk_New :: "DriverConfig \<Rightarrow> nat \<Rightarrow> time \<Rightarrow> Driver" where
  "sdk_New cfg session now =
     \<lparr>dr_cfg = (if cf_DaemonLocalAPIURL cfg = [] then cfg\<lparr>cf_DaemonLocalAPIURL := ''http://127.0.0.1:8947''\<rparr> else cfg),
      dr_session = session, dr_cmd = False, dr_cancel = False, dr_cancelled = False, dr_mcp = None, dr_stopped = False,
      dr_turnInFlight = False, dr_lastActivity = now, dr_pump = None, dr_done = False\<rparr>"

definition sdk_Stop :: "Driver \<Rightarrow> Driver" where
  "sdk_Stop d =
     (if dr_stopped d then d
      else let d1 = d\<lparr>dr_stopped := True\<rparr> in if dr_cancel d1 then d1\<lparr>dr_cancelled := True\<rparr> else d1)"

subsection \<open>The command line\<close>

definition permissionDecisionWindow :: duration where "permissionDecisionWindow = 120 * second"

text \<open>The configuration \<open>writePermissionMCPConfig\<close> writes; the window prints as \<open>2m0s\<close>.\<close>

definition mcp_config :: "gostring \<Rightarrow> gostring \<Rightarrow> gostring \<Rightarrow> gostring \<Rightarrow> gval" where
  "mcp_config daemonBin sessionID terminalSessionID daemonURL =
     go_map [(''mcpServers'', go_map [(''pockly'', go_map [(''command'', GStr daemonBin),
       (''args'', GArr (map GStr [''mcp-permission'', ''--terminal-session-id'', terminalSessionID, ''--session-id'', sessionID,
          ''--daemon-url'', daemonURL, ''--interactive'', ''--timeout'', ''2m0s'']))])])]"

datatype args_error = ArgsNotForCodex | ArgsConfigFile

text \<open>\<open>mcp\<close> is the path of the configuration file, \<open>None\<close> when it cannot be written.\<close>

definition buildArgs :: "gostring option \<Rightarrow> DriverConfig \<Rightarrow> args_error + (gostring list \<times> gostring option)" where
  "buildArgs mcp cfg =
     (if cf_Agent cfg = AgentCodex then Inl ArgsNotForCodex
      else let args0 = [if cf_NewSession cfg then ''--session-id'' else ''--resume'', cf_SessionID cfg, ''--print'',
                 ''--output-format=stream-json'', ''--input-format=stream-json'', ''--verbose''];
               model = TrimSpace (cf_Model cfg); effort = TrimSpace (cf_Effort cfg);
               args1 = (if model \<noteq> [] then args0 @ [''--model'', model] else args0);
               args2 = (if effort \<in> {''low'', ''medium'', ''high'', ''xhigh'', ''max''} then args1 @ [''--effort'', effort] else args1);
               args3 = (if TrimSpace (cf_PermissionMode cfg) \<in>
                          {''default'', ''acceptEdits'', ''plan'', ''auto'', ''bypassPermissions'', ''dontAsk''}
                        then args2 @ [''--permission-mode'', cf_PermissionMode cfg] else args2)
      in if cf_DaemonBinaryPath cfg = [] then Inr (args3, None)
         else case mcp of
           None \<Rightarrow> Inl ArgsConfigFile
         | Some path \<Rightarrow>
             Inr (args3 @ [''--mcp-config'', path, ''--permission-prompt-tool'', ''mcp__pockly__request_permission''], Some path))"

subsection \<open>Steps on the session\<close>

definition on_ext :: "nat \<Rightarrow> (ExternalSession \<Rightarrow> panic + ExternalSession) \<Rightarrow> Manager.Manager \<Rightarrow> panic + Manager.Manager" where
  "on_ext r f m = bind_sum (f (m_exts m ! r)) (\<lambda>x. Inr (m\<lparr>m_exts := (m_exts m)[r := x]\<rparr>))"

text \<open>Binding a session id, with the call of the manager's listener.\<close>

definition bind_on :: "nat \<Rightarrow> gostring \<Rightarrow> gostring \<Rightarrow> time \<Rightarrow> Manager.Manager \<Rightarrow> Manager.Manager" where
  "bind_on r sid cwd now m =
     (case BindSessionMetadata sid cwd now (m_exts m ! r) of
        ((prev, changed, call), x) \<Rightarrow>
          let m1 = m\<lparr>m_exts := (m_exts m)[r := x]\<rparr> in
          (case call of None \<Rightarrow> m1 | Some (p, c) \<Rightarrow> rebind_listener p c r m1))"

definition emit_live :: "nat \<Rightarrow> EventKind \<Rightarrow> TurnStatus \<Rightarrow> gostring \<Rightarrow> time \<Rightarrow> Manager.Manager \<Rightarrow> panic + Manager.Manager" where
  "emit_live r kind turn payload now m = on_ext r (Emit kind SessionLive turn payload [] now) m"

definition pump_subscribe :: "Driver \<Rightarrow> Manager.Manager \<Rightarrow> panic + (Driver \<times> Manager.Manager)" where
  "pump_subscribe d m =
     bind_sum (ext_SubscribeInput 8 (m_exts m ! dr_session d)) (\<lambda>(p, x).
       Inr (d\<lparr>dr_pump := Some p\<rparr>, m\<lparr>m_exts := (m_exts m)[dr_session d := x]\<rparr>))"

subsection \<open>Starting\<close>

datatype driver_error =
    ErrAlreadyStarted
  | ErrNoSessionID
  | ErrNoBinaryPath
  | ErrCodexUnavailable
  | ErrBuildArgs args_error
  | ErrSpawn

datatype spawn = SpawnFails | Spawned int

text \<open>
  The session is announced after the process is there: its ids are bound, the two events
  emitted, and the input pump has subscribed when \<open>Start\<close> returns.
\<close>

definition announce :: "int option \<Rightarrow> time \<Rightarrow> Driver \<Rightarrow> Manager.Manager \<Rightarrow> panic + (Driver \<times> Manager.Manager)" where
  "announce pid now d m =
     (let r = dr_session d;
          m1 = bind_on r (cf_SessionID (dr_cfg d)) (cf_Cwd (dr_cfg d)) now m;
          m2 = (case pid of
                  Some p \<Rightarrow> if p > 0 then m1\<lparr>m_exts := (m_exts m1)[r := BindPID p (m_exts m1 ! r)]\<rparr> else m1
                | None \<Rightarrow> m1)
      in bind_sum (emit_live r EventSessionStarted TurnAwaitingInput [] now m2) (\<lambda>m3.
         bind_sum (emit_live r EventSessionReady TurnAwaitingInput [] now m3) (pump_subscribe d)))"

text \<open>
  \<open>codex\<close> says whether the app server could be started, \<open>mcp\<close> and \<open>sp\<close> what became of the
  configuration file and the subprocess of Claude.
\<close>

definition sdk_Start ::
  "bool \<Rightarrow> gostring option \<Rightarrow> spawn \<Rightarrow> time \<Rightarrow> Driver \<Rightarrow> Manager.Manager \<Rightarrow>
   panic + (driver_error option \<times> Driver \<times> Manager.Manager)" where
  "sdk_Start codex mcp sp now d m =
     (if dr_cmd d then Inr (Some ErrAlreadyStarted, d, m)
      else if cf_SessionID (dr_cfg d) = [] then Inr (Some ErrNoSessionID, d, m)
      else if cf_BinaryPath (dr_cfg d) = [] then Inr (Some ErrNoBinaryPath, d, m)
      else if cf_Agent (dr_cfg d) = AgentCodex then
        (if \<not> codex then Inr (Some ErrCodexUnavailable, d, m)
         else bind_sum (announce None now (d\<lparr>dr_cancel := True\<rparr>) m) (\<lambda>(d1, m1). Inr (None, d1, m1)))
      else case buildArgs mcp (dr_cfg d) of
        Inl e \<Rightarrow> Inr (Some (ErrBuildArgs e), d, m)
      | Inr (args, file) \<Rightarrow>
          (case sp of
             SpawnFails \<Rightarrow> Inr (Some ErrSpawn, d\<lparr>dr_mcp := None\<rparr>, m)
           | Spawned pid \<Rightarrow>
               bind_sum (announce (Some pid) now (d\<lparr>dr_mcp := file, dr_cmd := True, dr_cancel := True\<rparr>) m) (\<lambda>(d1, m1).
                 Inr (None, d1, m1))))"

subsection \<open>The goroutines\<close>

text \<open>
  A text from the input pump's channel: the line written to the process, if any. The pump
  ends when its context is cancelled or its channel is closed, and then unsubscribes.
\<close>

definition user_message :: "gostring \<Rightarrow> gval" where
  "user_message txt0 =
     go_map [(''type'', GStr ''user''),
       (''message'', go_map [(''role'', GStr ''user''), (''content'', GArr [go_map [(''type'', GStr ''text''), (''text'', GStr txt0)]])])]"

definition pumpStdin :: "gostring \<Rightarrow> time \<Rightarrow> Driver \<Rightarrow> gostring option \<times> Driver" where
  "pumpStdin raw now d =
     (let t = TrimRight raw [CHR 0x0D, CHR 0x0A] in
      if t = [] then (None, d)
      else (Some (marshal (user_message t) @ [CHR 0x0A]), d\<lparr>dr_turnInFlight := True, dr_lastActivity := now\<rparr>))"

definition pump_exit :: "Driver \<Rightarrow> Manager.Manager \<Rightarrow> panic + (Driver \<times> Manager.Manager)" where
  "pump_exit d m =
     (case dr_pump d of
        Some (c, Some sub) \<Rightarrow>
          bind_sum (on_ext (dr_session d) (ext_unsubscribe_input sub) m) (\<lambda>m1. Inr (d\<lparr>dr_pump := None\<rparr>, m1))
      | _ \<Rightarrow> Inr (d\<lparr>dr_pump := None\<rparr>, m))"

text \<open>One record of the output.\<close>

record stream_probe =
  sp_Type :: gostring
  sp_SessionID :: gostring

definition probe_fields :: "(gostring \<times> stream_probe decoder) list" where
  "probe_fields = [(''type'', str_field (\<lambda>s. sp_Type_update (\<lambda>_. s))), (''session_id'', str_field (\<lambda>s. sp_SessionID_update (\<lambda>_. s)))]"

definition handleStreamLine :: "gostring \<Rightarrow> time \<Rightarrow> Driver \<Rightarrow> Manager.Manager \<Rightarrow> panic + (Driver \<times> Manager.Manager)" where
  "handleStreamLine line now d m =
     (case unmarshal_struct probe_fields \<lparr>sp_Type = [], sp_SessionID = []\<rparr> line of
        (probe, err) \<Rightarrow>
          if err then Inr (d, m)
          else let m1 = (if sp_SessionID probe \<noteq> [] then bind_on (dr_session d) (sp_SessionID probe) [] now m else m);
                   (turn, d1) = (if sp_Type probe = ''result'' then (TurnAwaitingInput, d\<lparr>dr_turnInFlight := False, dr_lastActivity := now\<rparr>)
                                 else if sp_Type probe = ''system'' then ([], d)
                                 else (TurnStreaming, d))
            in bind_sum (emit_live (dr_session d) EventMessageAdded turn line now m1) (\<lambda>m2. Inr (d1, m2)))"

text \<open>The output, line by line; blank lines are skipped.\<close>

fun pumpStdout :: "(gostring \<times> time) list \<Rightarrow> Driver \<Rightarrow> Manager.Manager \<Rightarrow> panic + (Driver \<times> Manager.Manager)" where
  "pumpStdout [] d m = Inr (d, m)"
| "pumpStdout ((line, now) # ls) d m =
     bind_sum (if TrimSpace line = [] then Inr (d, m) else handleStreamLine (TrimSpace line) now d m) (\<lambda>(d1, m1). pumpStdout ls d1 m1)"

text \<open>The waiter, once the process has exited: the session stays live and awaits input.\<close>

definition sdk_wait :: "time \<Rightarrow> Driver \<Rightarrow> Manager.Manager \<Rightarrow> panic + (Driver \<times> Manager.Manager)" where
  "sdk_wait now d m =
     (if \<not> dr_cmd d then Inr (d\<lparr>dr_done := True\<rparr>, m)
      else let d1 = d\<lparr>dr_mcp := None, dr_cancelled := (if dr_cancel d then True else dr_cancelled d)\<rparr> in
        bind_sum (emit_live (dr_session d) EventPromptReady TurnAwaitingInput [] now m) (\<lambda>m1. Inr (d1\<lparr>dr_done := True\<rparr>, m1)))"

end
