(* ===== verification/SdkManager.thy ===== *)
theory SdkManager
  imports SdkDriver Launch
begin

section \<open>The manager of the headless drivers\<close>

text \<open>
  \<open>daemon/internal/agent/sdkdriver/manager.go\<close>: at most one driver per session id, each on
  an external session of the terminal manager. Drivers are Go pointers, so the state has a
  store of drivers next to the terminal manager; an entry without a driver is one whose
  process has gone. What the manager asks of its surroundings when it makes a driver (the
  session index, the launcher, the settings) is one record.
\<close>

record sdk_entry =
  en_driver :: "nat option"
  en_session :: nat
  en_terminalSessionID :: gostring

record SdkManager =
  sm_terminal :: Manager.Manager
  sm_drvs :: "Driver list"
  sm_drivers :: "(gostring \<times> sdk_entry) list"
  sm_lastSeq :: "(gostring \<times> int) list"

definition NewSdkManager :: "Manager.Manager \<Rightarrow> SdkManager" where
  "NewSdkManager t = \<lparr>sm_terminal = t, sm_drvs = [], sm_drivers = [], sm_lastSeq = []\<rparr>"

definition last_seq :: "gostring \<Rightarrow> SdkManager \<Rightarrow> int" where
  "last_seq sid s = (case alist_get (sm_lastSeq s) sid of Some n \<Rightarrow> n | None \<Rightarrow> 0)"

subsection \<open>Surroundings\<close>

record SessionInfo =
  si_Agent :: gostring
  si_Cwd :: gostring
  si_Path :: gostring

record SessionResolver =
  sr_cwd :: "gostring \<Rightarrow> gostring"
  sr_path :: "gostring \<Rightarrow> gostring"
  sr_info :: "(gostring \<Rightarrow> SessionInfo option) option"

record SettingsReader =
  sg_model :: "gostring \<Rightarrow> gostring"
  sg_mode :: "gostring \<Rightarrow> gostring"
  sg_effort :: "gostring \<Rightarrow> gostring"

record sdk_world =
  wo_sessions :: "SessionResolver option"
  wo_isdir :: "gostring \<Rightarrow> bool"
  wo_launcher :: "launch_error + CommandSpec"
  wo_codex :: "gostring option"
  wo_settings :: "SettingsReader option"
  wo_daemonBin :: gostring
  wo_daemonURL :: gostring
  wo_transport :: gostring
  wo_socket :: gostring
  wo_random :: gostring
  wo_mcp :: "gostring option"
  wo_spawn :: spawn
  wo_codexStart :: bool
  wo_sink :: bool
  wo_now :: time

definition sessionInfoForSDK :: "sdk_world \<Rightarrow> gostring \<Rightarrow> SessionInfo option" where
  "sessionInfoForSDK w sid =
     (case wo_sessions w of
        None \<Rightarrow> None
      | Some r \<Rightarrow>
          (case sr_info r of
             Some f \<Rightarrow> f sid
           | None \<Rightarrow>
               let cwd = sr_cwd r sid; path = sr_path r sid in
               if TrimSpace cwd = [] \<and> TrimSpace path = [] then None
               else Some \<lparr>si_Agent = [], si_Cwd = cwd, si_Path = path\<rparr>))"

definition resolveCwd :: "sdk_world \<Rightarrow> gostring \<Rightarrow> gostring \<Rightarrow> gostring" where
  "resolveCwd w hint sid =
     (if HasPrefix hint ''/'' \<and> wo_isdir w hint then hint
      else case wo_sessions w of Some r \<Rightarrow> sr_cwd r sid | None \<Rightarrow> [])"

subsection \<open>Making a driver\<close>

datatype sdk_error =
    ErrUnsupportedAgent
  | ErrSidRequired
  | ErrSessionNotLive
  | ErrMissingCwd
  | ErrResolveClaude launch_error
  | ErrResolveCodex
  | ErrRegister term_error
  | ErrStartDriver driver_error

definition no_info :: SessionInfo where "no_info = \<lparr>si_Agent = [], si_Cwd = [], si_Path = []\<rparr>"

definition drv_stop_at :: "nat option \<Rightarrow> SdkManager \<Rightarrow> SdkManager" where
  "drv_stop_at d s = (case d of None \<Rightarrow> s | Some i \<Rightarrow> s\<lparr>sm_drvs := (sm_drvs s)[i := sdk_Stop (sm_drvs s ! i)]\<rparr>)"

text \<open>A Codex session that the index does not list as live: its driver and its terminal go.\<close>

definition drop_codex :: "time \<Rightarrow> gostring \<Rightarrow> SdkManager \<Rightarrow> panic + SdkManager" where
  "drop_codex now sid s =
     (case alist_get (sm_drivers s) sid of
        None \<Rightarrow> Inr s
      | Some e \<Rightarrow>
          let s1 = drv_stop_at (en_driver e) (s\<lparr>sm_drivers := alist_del sid (sm_drivers s)\<rparr>) in
          if en_terminalSessionID e \<noteq> []
          then bind_sum (mgr_Stop (en_terminalSessionID e) now (sm_terminal s1)) (\<lambda>t. Inr (s1\<lparr>sm_terminal := t\<rparr>))
          else Inr s1)"

definition codex_not_live :: "sdk_world \<Rightarrow> gostring \<Rightarrow> bool" where
  "codex_not_live w sid \<longleftrightarrow>
     (case sessionInfoForSDK w sid of
        None \<Rightarrow> True
      | Some i \<Rightarrow> si_Agent i \<noteq> AgentCodex \<or> TrimSpace (si_Path i) = [])"

text \<open>The live session of an entry whose driver is still running.\<close>

definition running_session :: "gostring \<Rightarrow> SdkManager \<Rightarrow> nat option" where
  "running_session sid s =
     (case alist_get (sm_drivers s) sid of
        Some e \<Rightarrow> (case en_driver e of Some i \<Rightarrow> if dr_done (sm_drvs s ! i) then None else Some (en_session e) | None \<Rightarrow> None)
      | None \<Rightarrow> None)"

definition effective_cwd :: "sdk_world \<Rightarrow> gostring \<Rightarrow> gostring \<Rightarrow> gostring \<Rightarrow> bool \<Rightarrow> SessionInfo \<Rightarrow> gostring" where
  "effective_cwd w sid cwd agent newSession info =
     (if newSession then cwd
      else if agent = AgentCodex \<and> TrimSpace (si_Cwd info) \<noteq> [] then TrimSpace (si_Cwd info)
      else if resolveCwd w cwd sid \<noteq> [] then resolveCwd w cwd sid
      else cwd)"

definition resolve_binary :: "sdk_world \<Rightarrow> gostring \<Rightarrow> sdk_error + CommandSpec" where
  "resolve_binary w agent =
     (if agent = AgentClaude
      then (case wo_launcher w of Inl e \<Rightarrow> Inl (ErrResolveClaude e) | Inr spec \<Rightarrow> Inr spec)
      else (case wo_codex w of
              None \<Rightarrow> Inl ErrResolveCodex
            | Some p \<Rightarrow> Inr \<lparr>cs_Path = p, cs_PrefixArgs = [], cs_Source = []\<rparr>))"

text \<open>
  The session of the driver: the one of the entry, or a new one in the terminal manager. The
  result says the terminal id, the session and whether it is reused.
\<close>

definition reuse_or_register ::
  "sdk_world \<Rightarrow> gostring \<Rightarrow> SdkManager \<Rightarrow> panic + (sdk_error + (gostring \<times> nat \<times> bool)) \<times> SdkManager" where
  "reuse_or_register w sid s =
     (case alist_get (sm_drivers s) sid of
        Some e \<Rightarrow> Inr (Inr (en_terminalSessionID e, en_session e, True), s)
      | None \<Rightarrow>
          bind_sum (RegisterExternal [] (wo_random w) (wo_now w) (wo_now w) (sm_terminal s)) (\<lambda>(res, t).
            case res of
              Inl e \<Rightarrow> Inr (Inl (ErrRegister e), s\<lparr>sm_terminal := t\<rparr>)
            | Inr (tsID, r) \<Rightarrow>
                let x1 = SetDriver ''sdk'' (m_exts t ! r);
                    hw = last_seq sid s;
                    x2 = (if hw > 0 then SeedSeq hw x1 else x1)
                in Inr (Inr (tsID, r, False), s\<lparr>sm_terminal := t\<lparr>m_exts := (m_exts t)[r := x2]\<rparr>\<rparr>)))"

definition resume_path :: "sdk_world \<Rightarrow> gostring \<Rightarrow> bool \<Rightarrow> SessionInfo \<Rightarrow> gostring" where
  "resume_path w sid newSession info =
     (if newSession then []
      else if si_Path info \<noteq> [] then si_Path info
      else case wo_sessions w of Some r \<Rightarrow> sr_path r sid | None \<Rightarrow> [])"

definition driver_config ::
  "sdk_world \<Rightarrow> gostring \<Rightarrow> gostring \<Rightarrow> gostring \<Rightarrow> bool \<Rightarrow> SessionInfo \<Rightarrow> CommandSpec \<Rightarrow> gostring \<Rightarrow> DriverConfig" where
  "driver_config w sid cwd agent newSession info spec tsID =
     \<lparr>cf_SessionID = sid, cf_Agent = agent, cf_Cwd = cwd, cf_ResumePath = resume_path w sid newSession info,
      cf_BinaryPath = cs_Path spec, cf_CommandPrefixArgs = cs_PrefixArgs spec, cf_LauncherSource = cs_Source spec,
      cf_DaemonBinaryPath = wo_daemonBin w, cf_DaemonLocalAPIURL = wo_daemonURL w, cf_TerminalSessionID = tsID,
      cf_Model = (case wo_settings w of Some g \<Rightarrow> sg_model g sid | None \<Rightarrow> []),
      cf_PermissionMode = (case wo_settings w of Some g \<Rightarrow> sg_mode g sid | None \<Rightarrow> []),
      cf_Effort = (case wo_settings w of Some g \<Rightarrow> sg_effort g sid | None \<Rightarrow> []),
      cf_NewSession = newSession,
      cf_CodexAppTransport = (if TrimSpace (wo_transport w) \<noteq> [] then wo_transport w else ''auto''),
      cf_CodexAppSocketPath = wo_socket w, cf_CodexAppAllowDaemonStart = True\<rparr>"

text \<open>After the lock is released: the event sink subscribes to a new session.\<close>

definition subscribe_sink :: "sdk_world \<Rightarrow> nat \<Rightarrow> bool \<Rightarrow> SdkManager \<Rightarrow> panic + SdkManager" where
  "subscribe_sink w r isReuse s =
     (if wo_sink w \<and> \<not> isReuse
      then bind_sum (ext_Subscribe 256 (m_exts (sm_terminal s) ! r)) (\<lambda>(_, x).
        Inr (s\<lparr>sm_terminal := (sm_terminal s)\<lparr>m_exts := (m_exts (sm_terminal s))[r := x]\<rparr>\<rparr>))
      else Inr s)"

text \<open>The driver could not be started: the entry of a first attempt goes, and its session is stopped.\<close>

definition start_failed :: "gostring \<Rightarrow> nat \<Rightarrow> gostring \<Rightarrow> bool \<Rightarrow> time \<Rightarrow> SdkManager \<Rightarrow> panic + SdkManager" where
  "start_failed sid i tsID isReuse now s =
     (let s1 = (case alist_get (sm_drivers s) sid of
                  Some e \<Rightarrow>
                    if en_driver e = Some i then
                      (if isReuse then s\<lparr>sm_drivers := alist_put sid (e\<lparr>en_driver := None\<rparr>) (sm_drivers s)\<rparr>
                       else s\<lparr>sm_drivers := alist_del sid (sm_drivers s)\<rparr>)
                    else s
                | None \<Rightarrow> s)
      in if isReuse then Inr s1
         else bind_sum (mgr_Stop tsID now (sm_terminal s1)) (\<lambda>t. Inr (s1\<lparr>sm_terminal := t\<rparr>)))"

definition start_at :: "sdk_world \<Rightarrow> nat \<Rightarrow> SdkManager \<Rightarrow> panic + (driver_error option \<times> SdkManager)" where
  "start_at w i s =
     bind_sum (sdk_Start (wo_codexStart w) (wo_mcp w) (wo_spawn w) (wo_now w) (sm_drvs s ! i) (sm_terminal s)) (\<lambda>(e, d, t).
       Inr (e, s\<lparr>sm_drvs := (sm_drvs s)[i := d], sm_terminal := t\<rparr>))"

definition spawn_driver ::
  "sdk_world \<Rightarrow> gostring \<Rightarrow> DriverConfig \<Rightarrow> gostring \<Rightarrow> nat \<Rightarrow> bool \<Rightarrow> SdkManager \<Rightarrow> panic + ((sdk_error + nat) \<times> SdkManager)" where
  "spawn_driver w sid cfg tsID r isReuse s =
     (let i = length (sm_drvs s);
          s1 = s\<lparr>sm_drvs := sm_drvs s @ [sdk_New cfg r (wo_now w)],
                 sm_drivers := alist_put sid \<lparr>en_driver = Some i, en_session = r, en_terminalSessionID = tsID\<rparr> (sm_drivers s)\<rparr>
      in bind_sum (subscribe_sink w r isReuse s1) (\<lambda>s2.
         bind_sum (start_at w i s2) (\<lambda>(e, s3).
           case e of
             None \<Rightarrow> Inr (Inr r, s3)
           | Some err \<Rightarrow> bind_sum (start_failed sid i tsID isReuse (wo_now w) s3) (\<lambda>s4. Inr (Inl (ErrStartDriver err), s4)))))"

definition ensureDriver ::
  "sdk_world \<Rightarrow> gostring \<Rightarrow> gostring \<Rightarrow> gostring \<Rightarrow> bool \<Rightarrow> SdkManager \<Rightarrow> panic + ((sdk_error + nat) \<times> SdkManager)" where
  "ensureDriver w sid cwd0 agent newSession s =
     (if agent \<noteq> AgentClaude \<and> agent \<noteq> AgentCodex then Inr (Inl ErrUnsupportedAgent, s)
      else if sid = [] then Inr (Inl ErrSidRequired, s)
      else if \<not> newSession \<and> agent = AgentCodex \<and> codex_not_live w sid
      then bind_sum (drop_codex (wo_now w) sid s) (\<lambda>s1. Inr (Inl ErrSessionNotLive, s1))
      else case running_session sid s of
        Some r \<Rightarrow> Inr (Inr r, s)
      | None \<Rightarrow>
          let info = (if \<not> newSession \<and> agent = AgentCodex
                      then (case sessionInfoForSDK w sid of Some i \<Rightarrow> i | None \<Rightarrow> no_info) else no_info);
              cwd = effective_cwd w sid cwd0 agent newSession info
          in if cwd = [] then Inr (Inl ErrMissingCwd, s)
             else case resolve_binary w agent of
               Inl e \<Rightarrow> Inr (Inl e, s)
             | Inr spec \<Rightarrow>
                 bind_sum (reuse_or_register w sid s) (\<lambda>(res, s1).
                   case res of
                     Inl e \<Rightarrow> Inr (Inl e, s1)
                   | Inr (tsID, r, isReuse) \<Rightarrow>
                       spawn_driver w sid (driver_config w sid cwd agent newSession info spec tsID) tsID r isReuse s1))"

definition EnsureDriver :: "sdk_world \<Rightarrow> gostring \<Rightarrow> gostring \<Rightarrow> gostring \<Rightarrow> SdkManager \<Rightarrow> panic + ((sdk_error + nat) \<times> SdkManager)" where
  "EnsureDriver w sid cwd agent s = ensureDriver w sid cwd agent False s"

definition EnsureNewDriver :: "sdk_world \<Rightarrow> gostring \<Rightarrow> gostring \<Rightarrow> gostring \<Rightarrow> SdkManager \<Rightarrow> panic + ((sdk_error + nat) \<times> SdkManager)" where
  "EnsureNewDriver w sid cwd agent s = ensureDriver w sid cwd agent True s"

text \<open>The goroutine behind a started driver, once \<open>subprocessDone\<close> is closed.\<close>

definition release_driver :: "gostring \<Rightarrow> nat \<Rightarrow> SdkManager \<Rightarrow> SdkManager" where
  "release_driver sid i s =
     (case alist_get (sm_drivers s) sid of
        Some e \<Rightarrow> if en_driver e = Some i then s\<lparr>sm_drivers := alist_put sid (e\<lparr>en_driver := None\<rparr>) (sm_drivers s)\<rparr> else s
      | None \<Rightarrow> s)"

subsection \<open>Stopping and reaping\<close>

definition sdk_mgr_Stop :: "gostring \<Rightarrow> SdkManager \<Rightarrow> SdkManager" where
  "sdk_mgr_Stop sid s =
     (case alist_get (sm_drivers s) sid of
        None \<Rightarrow> s
      | Some e \<Rightarrow> drv_stop_at (en_driver e) s)"

definition sdk_StopAll :: "SdkManager \<Rightarrow> SdkManager" where
  "sdk_StopAll s = fold (\<lambda>(sid, e). drv_stop_at (en_driver e)) (sm_drivers s) s"

definition idleTimeout :: duration where "idleTimeout = 5 * minute"

definition idle_entry :: "time \<Rightarrow> SdkManager \<Rightarrow> sdk_entry \<Rightarrow> bool" where
  "idle_entry now s e \<longleftrightarrow>
     (case en_driver e of
        None \<Rightarrow> False
      | Some i \<Rightarrow> \<not> dr_turnInFlight (sm_drvs s ! i) \<and> \<not> now - dr_lastActivity (sm_drvs s ! i) < idleTimeout)"

definition carry_seq :: "gostring \<Rightarrow> sdk_entry \<Rightarrow> SdkManager \<Rightarrow> SdkManager" where
  "carry_seq sid e s =
     (let cur = x_seq (m_exts (sm_terminal s) ! en_session e) in
      if cur > last_seq sid s then s\<lparr>sm_lastSeq := alist_put sid cur (sm_lastSeq s)\<rparr> else s)"

definition reap_entry :: "time \<Rightarrow> gostring \<times> sdk_entry \<Rightarrow> SdkManager \<Rightarrow> SdkManager" where
  "reap_entry now p s =
     (case p of (sid, e) \<Rightarrow>
        if idle_entry now s e then (carry_seq sid e s)\<lparr>sm_drivers := alist_del sid (sm_drivers s)\<rparr> else s)"

text \<open>
  The drivers to stop are collected under the lock and stopped after it. A Codex driver that
  is in a turn for too long gets its turn timed out by \<open>timeoutCodexTurnFromReaper\<close>, which
  is in CodexDriver; the table does not change for it.
\<close>

definition reapIdleDrivers :: "time \<Rightarrow> SdkManager \<Rightarrow> SdkManager" where
  "reapIdleDrivers now s =
     (let victims = filter (\<lambda>(sid, e). idle_entry now s e) (sm_drivers s);
          s1 = fold (reap_entry now) (sm_drivers s) s
      in fold (\<lambda>(sid, e). drv_stop_at (en_driver e)) victims s1)"

end
