(* ===== verification/SdkProps.thy ===== *)
theory SdkProps
  imports SdkManager
begin

section \<open>What becomes of headless sessions\<close>

subsection \<open>Sessions that are closed\<close>

text \<open>A closed session emits nothing, refuses input, and stays closed under what a driver does to it.\<close>

definition closed_ext :: "ExternalSession \<Rightarrow> bool" where
  "closed_ext x \<longleftrightarrow> x_eventsClosed x \<and> x_stopped x"

lemma closed_Emit: "closed_ext x \<Longrightarrow> Emit kind st tn payload err now x = Inr x"
  by (simp add: closed_ext_def Emit_def emit_locked_def)

lemma closed_SendInput: "closed_ext x \<Longrightarrow> \<exists>e. ext_SendInput inp now x = Inr (Some e, x)"
  by (auto simp: closed_ext_def ext_SendInput_def send_input_begin_def not_live_def Let_def)

lemma closed_SubscribeInput:
  assumes "closed_ext x"
  shows "\<exists>p y. ext_SubscribeInput n x = Inr (p, y) \<and> closed_ext y"
proof -
  have "close_at (length (x_inheap x)) (x_inheap x @ [make_chan (buffer_or 32 n)]) =
    Inr ((x_inheap x @ [make_chan (buffer_or 32 n)])[length (x_inheap x) := (make_chan (buffer_or 32 n))\<lparr>chan_closed := True\<rparr>])"
    by (simp add: close_at_def close_chan_def make_chan_def)
  then show ?thesis
    using assms by (auto simp: closed_ext_def ext_SubscribeInput_def alloc_def not_live_def close_in_def)
qed

lemma closed_bind:
  assumes "closed_ext x" "BindSessionMetadata sid cwd now x = (res, y)"
  shows "closed_ext y"
proof -
  have "x_eventsClosed (snd (BindSessionMetadata sid cwd now x)) = x_eventsClosed x"
    "x_stopped (snd (BindSessionMetadata sid cwd now x)) = x_stopped x"
    by (simp_all add: BindSessionMetadata_def Let_def)
  with assms show ?thesis by (simp add: closed_ext_def)
qed

definition closed_at :: "nat \<Rightarrow> Manager.Manager \<Rightarrow> bool" where
  "closed_at r m \<longleftrightarrow> r < length (m_exts m) \<and> closed_ext (m_exts m ! r)"

lemma closed_at_upd: "closed_at r m \<Longrightarrow> closed_ext x \<Longrightarrow> closed_at r (m\<lparr>m_exts := (m_exts m)[r := x]\<rparr>)"
  by (simp add: closed_at_def)

lemma closed_at_bind_on: "closed_at r m \<Longrightarrow> closed_at r (bind_on r sid cwd now m)"
  using closed_bind[of "m_exts m ! r" sid cwd now]
  by (auto simp: bind_on_def closed_at_def rebind_listener_def Let_def split: prod.split option.split)

lemma closed_at_emit: "closed_at r m \<Longrightarrow> emit_live r kind turn payload now m = Inr m"
  by (simp add: emit_live_def on_ext_def closed_at_def closed_Emit list_update_id)

lemma announce_closed:
  assumes "closed_at (dr_session d) m"
  shows "\<exists>d1 m1. announce pid now d m = Inr (d1, m1) \<and> dr_session d1 = dr_session d \<and> closed_at (dr_session d) m1"
proof -
  let ?r = "dr_session d"
  let ?m1 = "bind_on ?r (cf_SessionID (dr_cfg d)) (cf_Cwd (dr_cfg d)) now m"
  define m2 where "m2 = (case pid of Some p \<Rightarrow> if p > 0 then ?m1\<lparr>m_exts := (m_exts ?m1)[?r := BindPID p (m_exts ?m1 ! ?r)]\<rparr> else ?m1 | None \<Rightarrow> ?m1)"
  have c: "closed_at ?r m2"
    using closed_at_bind_on[OF assms, of "cf_SessionID (dr_cfg d)" "cf_Cwd (dr_cfg d)" now]
    by (auto simp: m2_def closed_at_def closed_ext_def BindPID_def split: option.split)
  then have "closed_ext (m_exts m2 ! ?r)" by (simp add: closed_at_def)
  from closed_SubscribeInput[OF this, of 8] obtain p y where y: "ext_SubscribeInput 8 (m_exts m2 ! ?r) = Inr (p, y)" "closed_ext y"
    by blast
  have "announce pid now d m = pump_subscribe d m2"
    by (simp add: announce_def Let_def m2_def[symmetric] closed_at_emit[OF c])
  with y closed_at_upd[OF c y(2)] show ?thesis by (simp add: pump_subscribe_def)
qed

text \<open>Starting a driver on a closed session succeeds or fails, and leaves the session closed.\<close>

lemma announce_closed_at:
  assumes "closed_at r m" "dr_session d = r"
  obtains d1 m1 where "announce pid now d m = Inr (d1, m1)" "dr_session d1 = r" "closed_at r m1"
  using announce_closed[of d m pid now] assms by blast

lemma sdk_Start_closed:
  assumes "closed_at r m" "dr_session d = r"
  shows "\<exists>e d1 m1. sdk_Start codex mcp sp now d m = Inr (e, d1, m1) \<and> dr_session d1 = r \<and> closed_at r m1"
proof -
  let ?c = "d\<lparr>dr_cancel := True\<rparr>"
  obtain d1 m1 where 1: "announce None now ?c m = Inr (d1, m1)" "dr_session d1 = r" "closed_at r m1"
    by (rule announce_closed_at[OF assms(1), of ?c None now]) (use assms(2) in simp_all)
  show ?thesis
  proof (cases "\<exists>args path pid. buildArgs mcp (dr_cfg d) = Inr (args, path) \<and> sp = Spawned pid")
    case True
    then obtain args path pid where t: "buildArgs mcp (dr_cfg d) = Inr (args, path)" "sp = Spawned pid" by blast
    let ?l = "d\<lparr>dr_mcp := path, dr_cmd := True, dr_cancel := True\<rparr>"
    obtain d2 m2 where 2: "announce (Some pid) now ?l m = Inr (d2, m2)" "dr_session d2 = r" "closed_at r m2"
      by (rule announce_closed_at[OF assms(1), of ?l "Some pid" now]) (use assms(2) in simp_all)
    show ?thesis unfolding sdk_Start_def t using 1 2 assms by simp
  next
    case False
    then show ?thesis unfolding sdk_Start_def using 1 assms
      by (cases "buildArgs mcp (dr_cfg d)"; cases sp) auto
  qed
qed

subsection \<open>A stopped session\<close>

text \<open>
  The user sends to the session again and again: the driver is ensured, the text is sent as
  \<open>sendToSDKExternal\<close> does for Claude, and the process, whose input ends at once because the
  pump's channel is closed, exits. The result says whether the text was accepted.
\<close>

definition driver_exits :: "time \<Rightarrow> gostring \<Rightarrow> SdkManager \<Rightarrow> panic + SdkManager" where
  "driver_exits now sid s =
     (case alist_get (sm_drivers s) sid of
        Some e \<Rightarrow>
          (case en_driver e of
             Some i \<Rightarrow>
               bind_sum (sdk_wait now (sm_drvs s ! i) (sm_terminal s)) (\<lambda>(d, t).
                 Inr (release_driver sid i (s\<lparr>sm_drvs := (sm_drvs s)[i := d], sm_terminal := t\<rparr>)))
           | None \<Rightarrow> Inr s)
      | None \<Rightarrow> Inr s)"

definition retry :: "gostring \<Rightarrow> sdk_world \<times> gostring \<times> gostring \<Rightarrow> SdkManager \<Rightarrow> panic + (bool \<times> SdkManager)" where
  "retry sid p s =
     (case p of (w, cwd, inp) \<Rightarrow>
        bind_sum (EnsureDriver w sid cwd AgentClaude s) (\<lambda>(res, s1).
          case res of
            Inl e \<Rightarrow> Inr (False, s1)
          | Inr r \<Rightarrow>
              bind_sum (ext_SendInput inp (wo_now w) (m_exts (sm_terminal s1) ! r)) (\<lambda>(e, x).
              bind_sum (driver_exits (wo_now w) sid (s1\<lparr>sm_terminal := (sm_terminal s1)\<lparr>m_exts := (m_exts (sm_terminal s1))[r := x]\<rparr>\<rparr>)) (\<lambda>s2.
                Inr (e = None, s2)))))"

fun retries :: "gostring \<Rightarrow> (sdk_world \<times> gostring \<times> gostring) list \<Rightarrow> SdkManager \<Rightarrow> panic + (bool list \<times> SdkManager)" where
  "retries sid [] s = Inr ([], s)"
| "retries sid (p # ps) s =
     bind_sum (retry sid p s) (\<lambda>(b, s1). bind_sum (retries sid ps s1) (\<lambda>(bs, s2). Inr (b # bs, s2)))"

text \<open>An entry without a driver, on a closed session.\<close>

definition orphaned :: "gostring \<Rightarrow> SdkManager \<Rightarrow> bool" where
  "orphaned sid s \<longleftrightarrow>
     (\<exists>e. alist_get (sm_drivers s) sid = Some e \<and> en_driver e = None \<and> closed_at (en_session e) (sm_terminal s))"

lemma start_on_orphan:
  assumes "closed_at r (sm_terminal s)"
  shows "(\<exists>e s1. spawn_driver w sid cfg tsID r True s = Inr (Inl e, s1) \<and> orphaned sid s1) \<or>
    (\<exists>s1. spawn_driver w sid cfg tsID r True s = Inr (Inr r, s1) \<and> closed_at r (sm_terminal s1) \<and>
       alist_get (sm_drivers s1) sid = Some \<lparr>en_driver = Some (length (sm_drvs s)), en_session = r, en_terminalSessionID = tsID\<rparr> \<and>
       length (sm_drvs s) < length (sm_drvs s1) \<and> dr_session (sm_drvs s1 ! length (sm_drvs s)) = r)"
proof -
  let ?i = "length (sm_drvs s)" let ?d = "sdk_New cfg r (wo_now w)"
  have "dr_session ?d = r" by (simp add: sdk_New_def)
  from sdk_Start_closed[OF assms this, of "wo_codexStart w" "wo_mcp w" "wo_spawn w" "wo_now w"] obtain e d1 t where
    st: "sdk_Start (wo_codexStart w) (wo_mcp w) (wo_spawn w) (wo_now w) ?d (sm_terminal s) = Inr (e, d1, t)"
    "dr_session d1 = r" "closed_at r t"
    by blast
  then show ?thesis
    by (cases e) (auto simp: spawn_driver_def subscribe_sink_def start_at_def start_failed_def orphaned_def)
qed

lemma exit_on_orphan:
  assumes "closed_at r (sm_terminal s)" "alist_get (sm_drivers s) sid = Some e" "en_driver e = Some i" "en_session e = r"
    and "dr_session (sm_drvs s ! i) = r"
  shows "\<exists>s1. driver_exits now sid s = Inr s1 \<and> orphaned sid s1"
  using assms closed_at_emit[OF assms(1)]
  by (auto simp: driver_exits_def sdk_wait_def release_driver_def orphaned_def)

lemma retry_orphaned:
  assumes "orphaned sid s" "sid \<noteq> []"
  shows "\<exists>s1. retry sid p s = Inr (False, s1) \<and> orphaned sid s1"
proof -
  obtain w cwd inp where p: "p = (w, cwd, inp)" by (metis prod_cases3)
  obtain e where e: "alist_get (sm_drivers s) sid = Some e" "en_driver e = None" "closed_at (en_session e) (sm_terminal s)"
    using assms(1) by (auto simp: orphaned_def)
  let ?r = "en_session e"
  have run: "running_session sid s = None" using e by (simp add: running_session_def)
  have kinds: "AgentClaude \<noteq> AgentCodex" by (simp add: AgentClaude_def AgentCodex_def)
  have none: "EnsureDriver w sid cwd AgentClaude s =
    (let c = effective_cwd w sid cwd AgentClaude False no_info in
     if c = [] then Inr (Inl ErrMissingCwd, s)
     else case resolve_binary w AgentClaude of
       Inl er \<Rightarrow> Inr (Inl er, s)
     | Inr spec \<Rightarrow> spawn_driver w sid (driver_config w sid c AgentClaude False no_info spec (en_terminalSessionID e))
         (en_terminalSessionID e) ?r True s)"
    using run kinds assms(2) e by (simp add: EnsureDriver_def ensureDriver_def reuse_or_register_def Let_def cong: if_cong sum.case_cong)
  obtain cfg where cfg: "(\<exists>er. EnsureDriver w sid cwd AgentClaude s = Inr (Inl er, s)) \<or>
      EnsureDriver w sid cwd AgentClaude s = spawn_driver w sid cfg (en_terminalSessionID e) ?r True s"
    unfolding none Let_def
    by (cases "effective_cwd w sid cwd AgentClaude False no_info = []"; cases "resolve_binary w AgentClaude") (simp_all, blast+)
  consider err where "EnsureDriver w sid cwd AgentClaude s = Inr (Inl err, s)"
    | err s1 where "EnsureDriver w sid cwd AgentClaude s = Inr (Inl err, s1)" "orphaned sid s1"
    | s1 where "EnsureDriver w sid cwd AgentClaude s = Inr (Inr ?r, s1)" "closed_at ?r (sm_terminal s1)"
       "alist_get (sm_drivers s1) sid = Some \<lparr>en_driver = Some (length (sm_drvs s)), en_session = ?r, en_terminalSessionID = en_terminalSessionID e\<rparr>"
       "dr_session (sm_drvs s1 ! length (sm_drvs s)) = ?r"
    using cfg start_on_orphan[OF e(3), of w sid cfg "en_terminalSessionID e"] by metis
  then show ?thesis
  proof cases
    case 1
    with assms p show ?thesis by (simp add: retry_def)
  next
    case 2
    with p show ?thesis by (simp add: retry_def)
  next
    case 3
    have "closed_ext (m_exts (sm_terminal s1) ! ?r)" using 3(2) by (simp add: closed_at_def)
    from closed_SendInput[OF this, of inp "wo_now w"] obtain err where
      err: "ext_SendInput inp (wo_now w) (m_exts (sm_terminal s1) ! ?r) = Inr (Some err, m_exts (sm_terminal s1) ! ?r)" by blast
    obtain s2 where "driver_exits (wo_now w) sid s1 = Inr s2" "orphaned sid s2"
      using exit_on_orphan[OF 3(2,3) _ _ 3(4), of "wo_now w"] by auto
    with 3(1) err p show ?thesis by (simp add: retry_def list_update_id)
  qed
qed

lemma retries_orphaned:
  "orphaned sid s \<Longrightarrow> sid \<noteq> [] \<Longrightarrow> \<exists>s1. retries sid ps s = Inr (replicate (length ps) False, s1) \<and> orphaned sid s1"
proof (induction ps arbitrary: s)
  case (Cons p ps)
  obtain s1 where "retry sid p s = Inr (False, s1)" "orphaned sid s1" using retry_orphaned[OF Cons.prems] by blast
  with Cons.IH[of s1] Cons.prems show ?case by auto
qed simp

text \<open>A headless session that runs: its entry, its driver and its terminal belong together.\<close>

definition running_at :: "gostring \<Rightarrow> gostring \<Rightarrow> nat \<Rightarrow> nat \<Rightarrow> SdkManager \<Rightarrow> bool" where
  "running_at sid tsID i r s \<longleftrightarrow>
     alist_get (sm_drivers s) sid = Some \<lparr>en_driver = Some i, en_session = r, en_terminalSessionID = tsID\<rparr> \<and>
     dr_session (sm_drvs s ! i) = r \<and> Get tsID (sm_terminal s) = Some (HExternal r) \<and>
     r < length (m_exts (sm_terminal s)) \<and> ext_ok (m_exts (sm_terminal s) ! r)"

text \<open>The user stops the terminal, the process exits, and the user tries again and again.\<close>

definition stop_and_retry :: "gostring \<Rightarrow> gostring \<Rightarrow> time \<Rightarrow> time \<Rightarrow> (sdk_world \<times> gostring \<times> gostring) list \<Rightarrow> SdkManager \<Rightarrow>
  panic + (bool list \<times> SdkManager)" where
  "stop_and_retry sid tsID t0 t1 ps s =
     bind_sum (mgr_Stop tsID t0 (sm_terminal s)) (\<lambda>t.
     bind_sum (driver_exits t1 sid (s\<lparr>sm_terminal := t\<rparr>)) (retries sid ps))"


subsection \<open>A first start that fails\<close>

text \<open>A session that is open and live, and what a starting driver does to it.\<close>

definition live_open :: "ExternalSession \<Rightarrow> bool" where
  "live_open x \<longleftrightarrow> ext_ok x \<and> \<not> x_eventsClosed x \<and> x_sessionStatus x = SessionLive"

lemma live_open_not_live: "live_open x \<Longrightarrow> \<not> not_live x"
  using ext_ok_closed[of x] by (simp add: live_open_def not_live_def session_consts)

lemma live_open_same:
  "live_open x \<Longrightarrow> same_channels x y \<Longrightarrow> x_sessionStatus y = x_sessionStatus x \<Longrightarrow> live_open y \<and> x_inputs y = x_inputs x"
  using ext_ok_same[of x y] by (auto simp: live_open_def same_channels_def)

lemma live_open_Emit:
  assumes "live_open x" "\<not> is_terminal_kind kind"
  shows "\<exists>y. Emit kind SessionLive tn payload err now x = Inr y \<and> live_open y \<and> x_inputs y = x_inputs x"
proof -
  obtain y where y: "Emit kind SessionLive tn payload err now x = Inr y" "ext_ok y"
    using ext_ok_emit assms(1) unfolding live_open_def by blast
  then have "\<not> x_eventsClosed y \<and> x_sessionStatus y = SessionLive \<and> x_inputs y = x_inputs x"
    using assms by (auto simp: live_open_def Emit_def emit_locked_def emit_prepare_def Let_def bind_sum_Inr_iff session_consts
        split: if_splits)
  with y show ?thesis by (auto simp: live_open_def)
qed

lemma live_open_SubscribeInput:
  assumes "live_open x"
  shows "\<exists>p y. ext_SubscribeInput n x = Inr (p, y) \<and> live_open y \<and> length (x_inputs x) \<le> length (x_inputs y) \<and> x_inputs y \<noteq> []"
proof -
  obtain p y where y: "ext_SubscribeInput n x = Inr (p, y)" "ext_ok y"
    using ext_SubscribeInput_total[of "\<lparr>xs = x, ev_pending = [], in_pending = []\<rparr>" n] assms
    by (auto simp: live_open_def ext_ok_def)
  have put: "alist_put k v m \<noteq> []" for k v and m :: "(nat \<times> nat) list" by (cases m) auto
  have len: "length m \<le> length (alist_put k v m)" for k v and m :: "(nat \<times> nat) list" by (induction m) auto
  obtain r h where a: "alloc (buffer_or 32 n) (x_inheap x) = (r, h)" by fastforce
  have "y = x\<lparr>x_inheap := h, x_nextInputID := x_nextInputID x + 1, x_inputs := alist_put (x_nextInputID x) r (x_inputs x)\<rparr>"
    using y(1) live_open_not_live[OF assms] a by (auto simp: ext_SubscribeInput_def Let_def)
  with y assms put len show ?thesis by (auto simp: live_open_def)
qed

definition live_at :: "nat \<Rightarrow> Manager.Manager \<Rightarrow> bool" where
  "live_at r m \<longleftrightarrow> r < length (m_exts m) \<and> live_open (m_exts m ! r)"

lemma live_at_upd: "live_at r m \<Longrightarrow> live_open x \<Longrightarrow> live_at r (m\<lparr>m_exts := (m_exts m)[r := x]\<rparr>)"
  by (simp add: live_at_def)

lemma bind_sessionStatus: "x_sessionStatus (snd (BindSessionMetadata sid cwd now x)) = x_sessionStatus x"
  by (simp add: BindSessionMetadata_def Let_def)

lemma live_at_bind_on:
  assumes "live_at r m"
  shows "live_at r (bind_on r sid cwd now m)"
proof -
  obtain res x where b: "BindSessionMetadata sid cwd now (m_exts m ! r) = (res, x)" by fastforce
  have "x_sessionStatus x = x_sessionStatus (m_exts m ! r)" using bind_sessionStatus[of sid cwd now "m_exts m ! r"] b by simp
  then have "live_open x" using live_open_same[OF _ same_channels_bind[OF b]] assms by (simp add: live_at_def)
  from live_at_upd[OF assms this] b show ?thesis
    by (cases res) (auto simp: bind_on_def rebind_listener_def live_at_def Let_def split: option.split)
qed

lemma live_open_BindPID: "live_open x \<Longrightarrow> live_open (BindPID p x)"
  using live_open_same[of x "BindPID p x"] same_channels_meta[of "BindPID p x" 0 x undefined p 0 "[]"]
  by (simp add: BindPID_def)

lemma live_at_emit:
  assumes "live_at r m" "\<not> is_terminal_kind kind"
  shows "\<exists>m1. emit_live r kind tn payload now m = Inr m1 \<and> live_at r m1"
  using live_open_Emit[OF _ assms(2), of "m_exts m ! r" tn payload "[]" now] assms(1) live_at_upd[OF assms(1)]
  by (auto simp: emit_live_def on_ext_def live_at_def)

lemma announce_live:
  assumes "live_at (dr_session d) m"
  shows "\<exists>d1 m1. announce pid now d m = Inr (d1, m1) \<and> live_at (dr_session d) m1 \<and> x_inputs (m_exts m1 ! dr_session d) \<noteq> []"
proof -
  let ?r = "dr_session d"
  let ?m1 = "bind_on ?r (cf_SessionID (dr_cfg d)) (cf_Cwd (dr_cfg d)) now m"
  define m2 where "m2 = (case pid of Some p \<Rightarrow> if p > 0 then ?m1\<lparr>m_exts := (m_exts ?m1)[?r := BindPID p (m_exts ?m1 ! ?r)]\<rparr> else ?m1 | None \<Rightarrow> ?m1)"
  have l1: "live_at ?r ?m1" by (rule live_at_bind_on[OF assms])
  have "live_at ?r (?m1\<lparr>m_exts := (m_exts ?m1)[?r := BindPID p (m_exts ?m1 ! ?r)]\<rparr>)" for p
    by (rule live_at_upd[OF l1 live_open_BindPID]) (use l1 in \<open>simp add: live_at_def\<close>)
  then have l2: "live_at ?r m2" using l1 by (simp add: m2_def split: option.split)
  have k: "\<not> is_terminal_kind EventSessionStarted" "\<not> is_terminal_kind EventSessionReady"
    by (simp_all add: is_terminal_kind_def event_consts)
  obtain m3 where m3: "emit_live ?r EventSessionStarted TurnAwaitingInput [] now m2 = Inr m3" "live_at ?r m3"
    using live_at_emit[OF l2 k(1)] by blast
  obtain m4 where m4: "emit_live ?r EventSessionReady TurnAwaitingInput [] now m3 = Inr m4" "live_at ?r m4"
    using live_at_emit[OF m3(2) k(2)] by blast
  obtain p y where y: "ext_SubscribeInput 8 (m_exts m4 ! ?r) = Inr (p, y)" "live_open y" "x_inputs y \<noteq> []"
    using live_open_SubscribeInput m4(2) unfolding live_at_def by blast
  have "announce pid now d m = pump_subscribe d m4"
    using m3(1) m4(1) by (simp add: announce_def Let_def m2_def[symmetric])
  with y m4(2) live_at_upd[OF m4(2) y(2)] show ?thesis by (simp add: pump_subscribe_def live_at_def)
qed

text \<open>
  Claude can be resolved and there is a directory to run in; then the start fails when the
  process cannot be spawned or the configuration of the permission server cannot be written.
\<close>

definition claude_ready :: "gostring \<Rightarrow> sdk_world \<times> gostring \<Rightarrow> bool" where
  "claude_ready sid p \<longleftrightarrow>
     effective_cwd (fst p) sid (snd p) AgentClaude False no_info \<noteq> [] \<and>
     (case wo_launcher (fst p) of Inr spec \<Rightarrow> cs_Path spec \<noteq> [] | Inl _ \<Rightarrow> False)"

definition start_fails :: "sdk_world \<times> gostring \<Rightarrow> bool" where
  "start_fails p \<longleftrightarrow> wo_spawn (fst p) = SpawnFails \<or> (wo_daemonBin (fst p) \<noteq> [] \<and> wo_mcp (fst p) = None)"

definition ts_id :: "sdk_world \<times> gostring \<Rightarrow> gostring" where
  "ts_id p = ''ts_'' @ wo_random (fst p)"

fun attempts :: "gostring \<Rightarrow> (sdk_world \<times> gostring) list \<Rightarrow> SdkManager \<Rightarrow> panic + ((sdk_error + nat) list \<times> SdkManager)" where
  "attempts sid [] s = Inr ([], s)"
| "attempts sid (p # ps) s =
     bind_sum (EnsureDriver (fst p) sid (snd p) AgentClaude s) (\<lambda>(res, s1).
     bind_sum (attempts sid ps s1) (\<lambda>(rs, s2). Inr (res # rs, s2)))"

text \<open>A session that is registered for a first attempt.\<close>

lemma NewExternalSession_open: "\<exists>x. NewExternalSession now = Inr x \<and> live_open x"
proof -
  have k: "\<not> is_terminal_kind EventSessionStarted" "\<not> is_terminal_kind EventSessionReady"
    by (simp_all add: is_terminal_kind_def event_consts)
  have "live_open (blank_session now)"
    using xinv_blank[of now] by (simp add: live_open_def ext_ok_def) (simp add: blank_session_def)
  from live_open_Emit[OF this k(1)] obtain y where
    "Emit EventSessionStarted SessionLive TurnAwaitingInput [] [] now (blank_session now) = Inr y" "live_open y" by blast
  then show ?thesis using live_open_Emit[OF _ k(2), of y TurnAwaitingInput "[]" "[]" now] by (auto simp: NewExternalSession_def)
qed

lemma live_open_meta:
  assumes "live_open x"
  shows "live_open (SetRebindListener x)" "live_open (SetDriver dv x)" "live_open (SeedSeq n x)"
proof -
  note same = same_channels_meta[of _ n x undefined 0 0 dv]
  have st: "x_sessionStatus (SetRebindListener x) = x_sessionStatus x" "x_sessionStatus (SetDriver dv x) = x_sessionStatus x"
    "x_sessionStatus (SeedSeq n x) = x_sessionStatus x"
    by (simp_all add: SetRebindListener_def SetDriver_def SeedSeq_def)
  show "live_open (SetRebindListener x)" using live_open_same[OF assms same st(1)] by simp
  show "live_open (SetDriver dv x)" using live_open_same[OF assms same st(2)] by simp
  show "live_open (SeedSeq n x)" using live_open_same[OF assms same st(3)] by simp
qed

lemma register_first:
  assumes "alist_get (sm_drivers s) sid = None" "Get (''ts_'' @ wo_random w) (sm_terminal s) = None"
  defines "r \<equiv> length (m_exts (sm_terminal s))"
  shows "\<exists>s1. reuse_or_register w sid s = Inr (Inr (''ts_'' @ wo_random w, r, False), s1) \<and> sm_drivers s1 = sm_drivers s \<and>
    sm_drvs s1 = sm_drvs s \<and> live_at r (sm_terminal s1) \<and>
    m_sessions (sm_terminal s1) = alist_put (''ts_'' @ wo_random w)
      \<lparr>ms_session = HExternal r, ms_external = Some r, ms_createdAt = wo_now w\<rparr> (m_sessions (sm_terminal s))"
proof -
  obtain x where x: "NewExternalSession (wo_now w) = Inr x" "live_open x" using NewExternalSession_open by blast
  have "live_open (if last_seq sid s > 0 then SeedSeq (last_seq sid s) (SetDriver ''sdk'' (SetRebindListener x))
    else SetDriver ''sdk'' (SetRebindListener x))"
    using x(2) live_open_meta by simp
  moreover have "alist_get (m_sessions (sm_terminal s)) (''ts_'' @ wo_random w) = None" using assms(2) by (simp add: Get_def)
  ultimately show ?thesis
    using x(1) assms(1) by (auto simp: reuse_or_register_def RegisterExternal_def Let_def r_def live_at_def nth_append list_update_append)
qed

lemma live_open_Subscribe:
  assumes "live_open x"
  shows "\<exists>p y. ext_Subscribe n x = Inr (p, y) \<and> live_open y"
proof -
  obtain p y where y: "ext_Subscribe n x = Inr (p, y)" "ext_ok y"
    using ext_Subscribe_total[of "\<lparr>xs = x, ev_pending = [], in_pending = []\<rparr>" n] assms by (auto simp: live_open_def ext_ok_def)
  obtain r h where a: "alloc (buffer_or 128 n) (x_evheap x) = (r, h)" by fastforce
  have "y = x\<lparr>x_evheap := h, x_nextSubID := x_nextSubID x + 1, x_subscribers := alist_put (x_nextSubID x) r (x_subscribers x)\<rparr>"
    using y(1) live_open_not_live[OF assms] a by (auto simp: ext_Subscribe_def Let_def)
  with y assms show ?thesis by (auto simp: live_open_def)
qed

lemma sink_live:
  assumes "live_at r (sm_terminal s)"
  shows "\<exists>t. subscribe_sink w r b s = Inr (s\<lparr>sm_terminal := t\<rparr>) \<and> live_at r t \<and> m_sessions t = m_sessions (sm_terminal s)"
proof (cases "wo_sink w \<and> \<not> b")
  case True
  obtain p y where y: "ext_Subscribe 256 (m_exts (sm_terminal s) ! r) = Inr (p, y)" "live_open y"
    using live_open_Subscribe assms unfolding live_at_def by blast
  then show ?thesis using True live_at_upd[OF assms y(2)]
    by (intro exI[of _ "(sm_terminal s)\<lparr>m_exts := (m_exts (sm_terminal s))[r := y]\<rparr>"]) (simp add: subscribe_sink_def)
next
  case False
  then have "subscribe_sink w r b s = Inr (s\<lparr>sm_terminal := sm_terminal s\<rparr>)" by (auto simp: subscribe_sink_def)
  with assms show ?thesis by blast
qed

text \<open>What the first attempt comes down to, once the session is registered.\<close>

definition first_config :: "gostring \<Rightarrow> sdk_world \<times> gostring \<Rightarrow> DriverConfig" where
  "first_config sid p =
     driver_config (fst p) sid (effective_cwd (fst p) sid (snd p) AgentClaude False no_info) AgentClaude False no_info
       (case wo_launcher (fst p) of Inr spec \<Rightarrow> spec | Inl _ \<Rightarrow> undefined) (ts_id p)"

lemma first_config_simps:
  "cf_SessionID (first_config sid p) = sid" "cf_Agent (first_config sid p) = AgentClaude"
  "cf_DaemonBinaryPath (first_config sid p) = wo_daemonBin (fst p)"
  "claude_ready sid p \<Longrightarrow> cf_BinaryPath (first_config sid p) \<noteq> []"
  by (auto simp: first_config_def driver_config_def claude_ready_def split: sum.splits)

lemma first_ensure:
  assumes "alist_get (sm_drivers s) sid = None" "Get (ts_id p) (sm_terminal s) = None" "claude_ready sid p" "sid \<noteq> []"
  defines "r \<equiv> length (m_exts (sm_terminal s))"
  obtains s2 where
    "EnsureDriver (fst p) sid (snd p) AgentClaude s = bind_sum (start_at (fst p) (length (sm_drvs s)) s2) (\<lambda>(e, s3).
       case e of None \<Rightarrow> Inr (Inr r, s3)
       | Some err \<Rightarrow> bind_sum (start_failed sid (length (sm_drvs s)) (ts_id p) False (wo_now (fst p)) s3) (\<lambda>s4. Inr (Inl (ErrStartDriver err), s4)))"
    "live_at r (sm_terminal s2)" "Get (ts_id p) (sm_terminal s2) = Some (HExternal r)"
    "\<And>tid. tid \<noteq> ts_id p \<Longrightarrow> Get tid (sm_terminal s2) = Get tid (sm_terminal s)"
    "sm_drivers s2 = alist_put sid \<lparr>en_driver = Some (length (sm_drvs s)), en_session = r, en_terminalSessionID = ts_id p\<rparr> (sm_drivers s)"
    "sm_drvs s2 = sm_drvs s @ [sdk_New (first_config sid p) r (wo_now (fst p))]"
proof -
  obtain w c where p: "p = (w, c)" by (cases p)
  obtain spec where spec: "wo_launcher w = Inr spec" using assms(3) p by (auto simp: claude_ready_def split: sum.splits)
  obtain s1 where s1: "reuse_or_register w sid s = Inr (Inr (ts_id p, r, False), s1)" "sm_drivers s1 = sm_drivers s"
    "sm_drvs s1 = sm_drvs s" "live_at r (sm_terminal s1)"
    "m_sessions (sm_terminal s1) = alist_put (ts_id p)
      \<lparr>ms_session = HExternal r, ms_external = Some r, ms_createdAt = wo_now w\<rparr> (m_sessions (sm_terminal s))"
    using register_first[OF assms(1), of w] assms(2) unfolding p r_def ts_id_def fst_conv by blast
  let ?e = "\<lparr>en_driver = Some (length (sm_drvs s)), en_session = r, en_terminalSessionID = ts_id p\<rparr>"
  let ?s = "s1\<lparr>sm_drvs := sm_drvs s @ [sdk_New (first_config sid p) r (wo_now w)], sm_drivers := alist_put sid ?e (sm_drivers s)\<rparr>"
  have "live_at r (sm_terminal ?s)" using s1(4) by simp
  from sink_live[OF this] obtain t where t: "subscribe_sink w r False ?s = Inr (?s\<lparr>sm_terminal := t\<rparr>)" "live_at r t"
    "m_sessions t = m_sessions (sm_terminal s1)" by fastforce
  have run: "running_session sid s = None" using assms(1) by (simp add: running_session_def)
  have kinds: "AgentClaude \<noteq> AgentCodex" by (simp add: AgentClaude_def AgentCodex_def)
  have "EnsureDriver w sid c AgentClaude s = spawn_driver w sid (first_config sid p) (ts_id p) r False s1"
    using run kinds assms(3,4) s1(1) spec
    by (simp add: EnsureDriver_def ensureDriver_def Let_def claude_ready_def first_config_def p resolve_binary_def)
  then show ?thesis
    by (intro that[of "?s\<lparr>sm_terminal := t\<rparr>"]) (use t s1 in \<open>simp_all add: spawn_driver_def Let_def Get_def p cong: option.case_cong\<close>)
qed

text \<open>The start of the driver, with a process and without.\<close>

lemma buildArgs_result:
  assumes "cf_Agent cfg \<noteq> AgentCodex"
  shows "\<exists>a f. buildArgs mcp cfg = (if cf_DaemonBinaryPath cfg = [] then Inr (a, None)
    else case mcp of None \<Rightarrow> Inl ArgsConfigFile | Some path \<Rightarrow> Inr (f path, Some path))"
  unfolding buildArgs_def Let_def if_not_P[OF assms] by (rule exI, rule exI, rule refl)

lemma first_driver:
  assumes "claude_ready sid p" "d = sdk_New (first_config sid p) r now"
  shows "dr_session d = r" "\<not> dr_cmd d" "cf_SessionID (dr_cfg d) = sid" "cf_Agent (dr_cfg d) = AgentClaude"
    "cf_BinaryPath (dr_cfg d) \<noteq> []" "cf_DaemonBinaryPath (dr_cfg d) = wo_daemonBin (fst p)"
    "cf_Agent (dr_cfg d) \<noteq> AgentCodex"
  using first_config_simps[of sid p] assms by (simp_all add: sdk_New_def AgentClaude_def AgentCodex_def)

lemma claude_start_fails:
  assumes "start_fails p" "claude_ready sid p" "sid \<noteq> []" "d = sdk_New (first_config sid p) r now"
  shows "\<exists>err d1. sdk_Start codex (wo_mcp (fst p)) (wo_spawn (fst p)) now d m = Inr (Some err, d1, m)"
proof -
  note d = first_driver[OF assms(2,4)]
  obtain a f where b: "buildArgs (wo_mcp (fst p)) (dr_cfg d) = (if wo_daemonBin (fst p) = [] then Inr (a, None)
    else case wo_mcp (fst p) of None \<Rightarrow> Inl ArgsConfigFile | Some path \<Rightarrow> Inr (f path, Some path))"
    using buildArgs_result[OF d(7), of "wo_mcp (fst p)"] d(6) by auto
  show ?thesis
    using assms(1,3) d(2-5,7) unfolding sdk_Start_def b
    by (cases "wo_mcp (fst p)") (auto simp: start_fails_def)
qed

lemma claude_start_works:
  assumes "\<not> start_fails p" "claude_ready sid p" "sid \<noteq> []" "live_at r m"
    and "d = sdk_New (first_config sid p) r now"
  shows "\<exists>d1 m1. sdk_Start codex (wo_mcp (fst p)) (wo_spawn (fst p)) now d m = Inr (None, d1, m1) \<and>
    live_at r m1 \<and> x_inputs (m_exts m1 ! r) \<noteq> []"
proof -
  note d = first_driver[OF assms(2,5)]
  obtain pid where pid: "wo_spawn (fst p) = Spawned pid" using assms(1) by (cases "wo_spawn (fst p)") (auto simp: start_fails_def)
  obtain args path where b: "buildArgs (wo_mcp (fst p)) (dr_cfg d) = Inr (args, path)"
    using buildArgs_result[OF d(7), of "wo_mcp (fst p)"] d(6) assms(1)
    by (cases "wo_mcp (fst p)") (auto simp: start_fails_def split: if_splits)
  let ?d = "d\<lparr>dr_mcp := path, dr_cmd := True, dr_cancel := True\<rparr>"
  have "live_at (dr_session ?d) m" using assms(4) d(1) by simp
  from announce_live[OF this, of "Some pid" now] obtain d1 m1 where
    "announce (Some pid) now ?d m = Inr (d1, m1)" "live_at r m1" "x_inputs (m_exts m1 ! r) \<noteq> []"
    using d(1) by auto
  then show ?thesis using d b pid assms(3) by (simp add: sdk_Start_def)
qed

lemma first_attempt_fails:
  assumes "alist_get (sm_drivers s) sid = None" "Get (ts_id p) (sm_terminal s) = None" "claude_ready sid p" "sid \<noteq> []"
    and "start_fails p"
  shows "\<exists>err s1. EnsureDriver (fst p) sid (snd p) AgentClaude s = Inr (Inl (ErrStartDriver err), s1) \<and>
    sm_drivers s1 = sm_drivers s \<and> (\<forall>tid. tid \<noteq> ts_id p \<longrightarrow> Get tid (sm_terminal s1) = Get tid (sm_terminal s)) \<and>
    (\<exists>r. Get (ts_id p) (sm_terminal s1) = Some (HExternal r) \<and> not_live (m_exts (sm_terminal s1) ! r))"
proof -
  let ?r = "length (m_exts (sm_terminal s))" and ?i = "length (sm_drvs s)"
  obtain s2 where s2: "EnsureDriver (fst p) sid (snd p) AgentClaude s = bind_sum (start_at (fst p) ?i s2) (\<lambda>(e, s3).
       case e of None \<Rightarrow> Inr (Inr ?r, s3)
       | Some err \<Rightarrow> bind_sum (start_failed sid ?i (ts_id p) False (wo_now (fst p)) s3) (\<lambda>s4. Inr (Inl (ErrStartDriver err), s4)))"
    "live_at ?r (sm_terminal s2)" "Get (ts_id p) (sm_terminal s2) = Some (HExternal ?r)"
    "\<And>tid. tid \<noteq> ts_id p \<Longrightarrow> Get tid (sm_terminal s2) = Get tid (sm_terminal s)"
    "sm_drivers s2 = alist_put sid \<lparr>en_driver = Some ?i, en_session = ?r, en_terminalSessionID = ts_id p\<rparr> (sm_drivers s)"
    "sm_drvs s2 = sm_drvs s @ [sdk_New (first_config sid p) ?r (wo_now (fst p))]"
    using first_ensure[OF assms(1-4)] by blast
  obtain err d1 where st: "sdk_Start (wo_codexStart (fst p)) (wo_mcp (fst p)) (wo_spawn (fst p)) (wo_now (fst p))
      (sdk_New (first_config sid p) ?r (wo_now (fst p))) (sm_terminal s2) = Inr (Some err, d1, sm_terminal s2)"
    using claude_start_fails[OF assms(5,3,4) refl] by blast
  obtain x where x: "ext_Stop (wo_now (fst p)) (m_exts (sm_terminal s2) ! ?r) = Inr x" "not_live x"
    using exth.stop_total[of "m_exts (sm_terminal s2) ! ?r" "wo_now (fst p)"] s2(2) by (auto simp: live_at_def live_open_def)
  have none: "alist_del sid (alist_put sid e (sm_drivers s)) = sm_drivers s" for e
    using assms(1) by (simp add: alist_get_None_iff alist_put_new alist_del_id[unfolded alist_del_def] alist_del_def)
  let ?t = "(sm_terminal s2)\<lparr>m_exts := (m_exts (sm_terminal s2))[?r := x]\<rparr>"
  let ?s = "s2\<lparr>sm_drvs := sm_drvs s @ [d1], sm_drivers := sm_drivers s, sm_terminal := ?t\<rparr>"
  have stop: "mgr_Stop (ts_id p) (wo_now (fst p)) (sm_terminal s2) = Inr ?t"
    using s2(3) x(1) by (simp add: mgr_Stop_def on_handle_def)
  have g: "Get tid ?t = Get tid (sm_terminal s2)" for tid by (simp add: Get_def)
  have "EnsureDriver (fst p) sid (snd p) AgentClaude s = Inr (Inl (ErrStartDriver err), ?s)"
    using s2(1,5,6) st stop none by (simp add: start_at_def start_failed_def Let_def)
  moreover have "Get (ts_id p) (sm_terminal ?s) = Some (HExternal ?r)" using s2(3) g by simp
  moreover have "not_live (m_exts (sm_terminal ?s) ! ?r)" using x(2) s2(2) by (simp add: live_at_def)
  moreover have "\<forall>tid. tid \<noteq> ts_id p \<longrightarrow> Get tid (sm_terminal ?s) = Get tid (sm_terminal s)" using s2(4) g by simp
  ultimately show ?thesis by (intro exI[of _ err] exI[of _ ?s]) auto
qed

text \<open>
  A first start that fails does not spoil the session id: after any number of failed
  attempts, the driver table is as it was, and an attempt that can start its process gets a
  live session with a reader subscribed to its input, and the text sent to it is accepted.
\<close>

theorem failed_first_starts_recover:
  assumes "sid \<noteq> []" "alist_get (sm_drivers s) sid = None"
    and "list_all (\<lambda>q. claude_ready sid q \<and> start_fails q) fails" "claude_ready sid p" "\<not> start_fails p"
    and "distinct (map ts_id (fails @ [p]))" "list_all (\<lambda>q. Get (ts_id q) (sm_terminal s) = None) (fails @ [p])"
    and "TrimSpace (trimmed_input inp) \<noteq> []"
  shows "\<exists>errs s1 r s2. attempts sid fails s = Inr (map (\<lambda>e. Inl (ErrStartDriver e)) errs, s1) \<and> sm_drivers s1 = sm_drivers s \<and>
    EnsureDriver (fst p) sid (snd p) AgentClaude s1 = Inr (Inr r, s2) \<and>
    0 < InputSubscriberCount (m_exts (sm_terminal s2) ! r) \<and>
    (\<exists>x. ext_SendInput inp t (m_exts (sm_terminal s2) ! r) = Inr (None, x))"
  using assms(2,3,6,7)
proof (induction fails arbitrary: s)
  case Nil
  let ?r = "length (m_exts (sm_terminal s))" and ?i = "length (sm_drvs s)"
  have g: "Get (ts_id p) (sm_terminal s) = None" using Nil.prems by simp
  obtain s2 where s2: "EnsureDriver (fst p) sid (snd p) AgentClaude s = bind_sum (start_at (fst p) ?i s2) (\<lambda>(e, s3).
       case e of None \<Rightarrow> Inr (Inr ?r, s3)
       | Some err \<Rightarrow> bind_sum (start_failed sid ?i (ts_id p) False (wo_now (fst p)) s3) (\<lambda>s4. Inr (Inl (ErrStartDriver err), s4)))"
    "live_at ?r (sm_terminal s2)" "sm_drvs s2 = sm_drvs s @ [sdk_New (first_config sid p) ?r (wo_now (fst p))]"
    using first_ensure[OF Nil.prems(1) g assms(4,1)] by blast
  obtain d1 m1 where st: "sdk_Start (wo_codexStart (fst p)) (wo_mcp (fst p)) (wo_spawn (fst p)) (wo_now (fst p))
      (sdk_New (first_config sid p) ?r (wo_now (fst p))) (sm_terminal s2) = Inr (None, d1, m1)"
    "live_at ?r m1" "x_inputs (m_exts m1 ! ?r) \<noteq> []"
    using claude_start_works[OF assms(5,4,1) s2(2) refl] by blast
  have lo: "live_open (m_exts m1 ! ?r)" using st(2) by (simp add: live_at_def)
  then obtain e x where x: "ext_SendInput inp t (m_exts m1 ! ?r) = Inr (e, x)"
    using ext_input_total unfolding live_open_def by blast
  have "e = None" using x live_open_not_live[OF lo] assms(8)
    by (auto simp: ext_SendInput_def send_input_begin_def Let_def bind_sum_Inr_iff split: if_splits)
  with s2 st x show ?case by (simp add: start_at_def InputSubscriberCount_def)
next
  case (Cons q qs)
  then obtain err s1 where q: "EnsureDriver (fst q) sid (snd q) AgentClaude s = Inr (Inl (ErrStartDriver err), s1)"
    "sm_drivers s1 = sm_drivers s" "\<And>tid. tid \<noteq> ts_id q \<Longrightarrow> Get tid (sm_terminal s1) = Get tid (sm_terminal s)"
    using first_attempt_fails[of s sid q] assms(1) by auto
  have "list_all (\<lambda>q. Get (ts_id q) (sm_terminal s1) = None) (qs @ [p])"
    using Cons.prems(3,4) q(3) by (auto simp: list_all_iff image_iff)
  with Cons.IH[of s1] Cons.prems q(2) obtain errs s2 r s3 where
    "attempts sid qs s1 = Inr (map (\<lambda>e. Inl (ErrStartDriver e)) errs, s2)" "sm_drivers s2 = sm_drivers s"
    "EnsureDriver (fst p) sid (snd p) AgentClaude s2 = Inr (Inr r, s3)" "0 < InputSubscriberCount (m_exts (sm_terminal s3) ! r)"
    "\<exists>x. ext_SendInput inp t (m_exts (sm_terminal s3) ! r) = Inr (None, x)"
    by auto
  with q(1) show ?case
    by (intro exI[of _ "err # errs"] exI[of _ s2] exI[of _ r] exI[of _ s3]) simp
qed

subsection \<open>Reaping\<close>

text \<open>The reaper stops drivers and forgets entries; the terminal manager keeps the sessions as they are.\<close>

lemma drv_stop_terminal: "sm_terminal (drv_stop_at d s) = sm_terminal s"
  by (simp add: drv_stop_at_def split: option.split)

lemma reap_entry_terminal: "sm_terminal (reap_entry now p s) = sm_terminal s"
  by (simp add: reap_entry_def carry_seq_def Let_def split: prod.split)

lemma fold_terminal:
  "(\<And>p s. sm_terminal (f p s) = sm_terminal s) \<Longrightarrow> sm_terminal (fold f ps s) = sm_terminal s"
  by (induction ps arbitrary: s) simp_all

lemma reap_keeps_sessions: "sm_terminal (reapIdleDrivers now s) = sm_terminal s"
  unfolding reapIdleDrivers_def Let_def
  by (subst fold_terminal, simp add: drv_stop_terminal split: prod.split) (rule fold_terminal, rule reap_entry_terminal)

subsection \<open>Witnesses\<close>

definition ex_world :: "spawn \<Rightarrow> gostring option \<Rightarrow> gostring \<Rightarrow> sdk_world" where
  "ex_world sp mcp rnd =
     \<lparr>wo_sessions = None, wo_isdir = (\<lambda>_. True), wo_launcher = Inr \<lparr>cs_Path = ''/bin/claude'', cs_PrefixArgs = [], cs_Source = []\<rparr>,
      wo_codex = None, wo_settings = None, wo_daemonBin = ''/bin/pockly'', wo_daemonURL = [], wo_transport = [], wo_socket = [],
      wo_random = rnd, wo_mcp = mcp, wo_spawn = sp, wo_codexStart = False, wo_sink = True, wo_now = 5\<rparr>"

definition ex_running :: SdkManager where
  "ex_running =
     \<lparr>sm_terminal = \<lparr>m_sessions = [(''t'', \<lparr>ms_session = HExternal 0, ms_external = Some 0, ms_createdAt = 1\<rparr>)], m_sidIndex = [],
        m_ptys = [], m_exts = [blank_session 1]\<rparr>,
      sm_drvs = [(sdk_New (first_config ''a'' (ex_world (Spawned 7) (Some ''/tmp/m'') ''r'', ''/w'')) 0 1)\<lparr>dr_cmd := True, dr_cancel := True\<rparr>],
      sm_drivers = [(''a'', \<lparr>en_driver = Some 0, en_session = 0, en_terminalSessionID = ''t''\<rparr>)], sm_lastSeq = []\<rparr>"

lemma ex_running_at: "running_at ''a'' ''t'' 0 0 ex_running"
  using xinv_blank[of 1] by (simp add: running_at_def ex_running_def sdk_New_def Get_def ext_ok_def)


lemma ex_ready: "claude_ready ''a'' (ex_world sp mcp rnd, ''/w'')"
  by (simp add: claude_ready_def ex_world_def effective_cwd_def AgentClaude_def AgentCodex_def resolveCwd_def HasPrefix_def)

theorem failed_first_starts_recover_witness:
  "\<exists>errs s1 r s2. attempts ''a'' [(ex_world SpawnFails (Some ''/tmp/m'') ''1'', ''/w''), (ex_world (Spawned 7) None ''2'', ''/w'')]
      (NewSdkManager NewManager) = Inr (map (\<lambda>e. Inl (ErrStartDriver e)) errs, s1) \<and>
    EnsureDriver (ex_world (Spawned 9) (Some ''/tmp/m'') ''3'') ''a'' ''/w'' AgentClaude s1 = Inr (Inr r, s2) \<and>
    0 < InputSubscriberCount (m_exts (sm_terminal s2) ! r)"
proof -
  have f: "start_fails (ex_world SpawnFails (Some ''/tmp/m'') ''1'', ''/w'')" "start_fails (ex_world (Spawned 7) None ''2'', ''/w'')"
    "\<not> start_fails (ex_world (Spawned 9) (Some ''/tmp/m'') ''3'', ''/w'')"
    by (simp_all add: start_fails_def ex_world_def)
  have t: "ts_id (ex_world sp mcp rnd, c) = ''ts_'' @ rnd" for sp mcp rnd c by (simp add: ts_id_def ex_world_def)
  have i: "TrimSpace (trimmed_input ''hi'') \<noteq> []" by (simp add: trimmed_input_def TrimRight_def TrimSpace_ascii is_space_def)
  let ?fails = "[(ex_world SpawnFails (Some ''/tmp/m'') ''1'', ''/w''), (ex_world (Spawned 7) None ''2'', ''/w'')]"
  let ?p = "(ex_world (Spawned 9) (Some ''/tmp/m'') ''3'', ''/w'')"
  have p1: "list_all (\<lambda>q. claude_ready ''a'' q \<and> start_fails q) ?fails" using f ex_ready by simp
  have p2: "distinct (map ts_id (?fails @ [?p]))" by (simp add: t)
  have p3: "list_all (\<lambda>q. Get (ts_id q) (sm_terminal (NewSdkManager NewManager)) = None) (?fails @ [?p])"
    by (simp add: NewSdkManager_def NewManager_def Get_def)
  have p4: "alist_get (sm_drivers (NewSdkManager NewManager)) ''a'' = None" by (simp add: NewSdkManager_def)
  have "''a'' \<noteq> ([] :: gostring)" by simp
  from failed_first_starts_recover[OF this p4 p1 ex_ready f(3) p2 p3 i, of 6] show ?thesis
    unfolding fst_conv snd_conv by blast
qed

end
