(* ===== verification/CodexClient.thy ===== *)
theory CodexClient
  imports GoChan JsonWire
begin

section \<open>The Codex app-server client\<close>

text \<open>
  \<open>daemon/internal/agent/codexapp/client.go\<close>: JSON-RPC over the pipes of a child process. A
  request parks a channel of capacity one under its id; the reader of the output delivers the
  response to it. The child, its pipes and the contexts are outside: what the child writes is
  the argument of \<open>handleLine\<close>, whether a write succeeds and when a wait is given up are
  arguments of the steps. A send that would block is \<open>None\<close>.
\<close>

subsection \<open>Data\<close>

record Notification =
  nf_Method :: gostring
  nf_Params :: gostring

record ServerRequest =
  rq_ID :: gostring
  rq_Method :: gostring
  rq_Params :: gostring

record rpcError =
  re_Code :: int
  re_Message :: gostring
  re_Data :: gostring

record rpcResponse =
  rr_Result :: gostring
  rr_Error :: "rpcError option"

record Client =
  cl_nextID :: int
  cl_pending :: "(gostring \<times> nat) list"
  cl_chans :: "rpcResponse heap"
  cl_closed :: bool
  cl_done :: bool
  cl_Source :: gostring
  cl_FallbackReason :: gostring

definition new_client :: "gostring \<Rightarrow> gostring \<Rightarrow> Client" where
  "new_client source reason =
     \<lparr>cl_nextID = 0, cl_pending = [], cl_chans = [], cl_closed = False, cl_done = False, cl_Source = source, cl_FallbackReason = reason\<rparr>"

definition AppServerSource :: "Client option \<Rightarrow> gostring \<times> gostring" where
  "AppServerSource c = (case c of None \<Rightarrow> ([], []) | Some x \<Rightarrow> (cl_Source x, cl_FallbackReason x))"

datatype client_error = ErrClientClosed | ErrClientExited | ErrClientWrite | ErrClientContext | ErrRPC gostring | ErrDecode | ErrNoThread

subsection \<open>Requests\<close>

definition request_json :: "gostring \<Rightarrow> gostring \<Rightarrow> gval \<Rightarrow> gval" where
  "request_json rid method params = go_map [(''id'', GStr rid), (''method'', GStr method), (''params'', params)]"

definition notify_json :: "gostring \<Rightarrow> gval option \<Rightarrow> gval" where
  "notify_json method params =
     go_map ((''method'', GStr method) # (case params of None \<Rightarrow> [] | Some v \<Rightarrow> [(''params'', v)]))"

text \<open>\<open>write\<close>: the line, when the client is open and the pipe takes it.\<close>

definition client_write :: "bool \<Rightarrow> gval \<Rightarrow> Client \<Rightarrow> client_error + gostring" where
  "client_write ok msg c =
     (if cl_closed c then Inl ErrClientClosed
      else if \<not> ok then Inl ErrClientWrite
      else Inr (marshal msg @ [CHR 0x0A]))"

text \<open>\<open>Request\<close> up to the write: a fresh id, a fresh channel, the entry.\<close>

definition request_begin :: "Client \<Rightarrow> (client_error + (gostring \<times> nat)) \<times> Client" where
  "request_begin c =
     (let n = cl_nextID c + 1; rid = Itoa n in
      case alloc 1 (cl_chans c) of (r, h) \<Rightarrow>
        let c1 = c\<lparr>cl_nextID := n, cl_chans := h\<rparr> in
        if cl_closed c then (Inl ErrClientClosed, c1)
        else (Inr (rid, r), c1\<lparr>cl_pending := alist_put rid r (cl_pending c1)\<rparr>))"

definition removePending :: "gostring \<Rightarrow> Client \<Rightarrow> Client" where
  "removePending rid c = c\<lparr>cl_pending := alist_del rid (cl_pending c)\<rparr>"

definition rpc_result :: "rpcResponse \<Rightarrow> client_error + gostring" where
  "rpc_result res =
     (case rr_Error res of
        None \<Rightarrow> Inr (rr_Result res)
      | Some e \<Rightarrow>
          let msg = TrimSpace (re_Message e) in
          Inl (ErrRPC (if msg = [] then ''codex app-server rpc error'' else msg)))"

text \<open>
  The two \<open>select\<close>s of \<open>Request\<close>, after the write has ended or instead of it: the scheduler
  chooses among the ready cases.
\<close>

datatype request_wake = WakeWriteFailed client_error | WakeResponse | WakeCancelled | WakeExited

definition request_select :: "request_wake \<Rightarrow> gostring \<Rightarrow> nat \<Rightarrow> Client \<Rightarrow> ((client_error + gostring) \<times> Client) option" where
  "request_select w rid r c =
     (case w of
        WakeWriteFailed e \<Rightarrow> Some (Inl e, removePending rid c)
      | WakeResponse \<Rightarrow>
          (case recv (cl_chans c ! r) of
             None \<Rightarrow> None
           | Some (res, k) \<Rightarrow> Some (rpc_result res, c\<lparr>cl_chans := (cl_chans c)[r := k]\<rparr>))
      | WakeCancelled \<Rightarrow> Some (Inl ErrClientContext, removePending rid c)
      | WakeExited \<Rightarrow> if cl_done c then Some (Inl ErrClientExited, removePending rid c) else None)"

subsection \<open>What the child writes\<close>

text \<open>\<open>bufio.Reader.ReadSlice\<close> on a buffer of \<open>n\<close> bytes.\<close>

datatype slice_end = SliceLine | SliceFull | SliceEOF

definition read_slice :: "nat \<Rightarrow> gostring \<Rightarrow> gostring \<times> slice_end \<times> gostring" where
  "read_slice n s =
     (let p = takeWhile (\<lambda>c. c \<noteq> CHR 0x0A) s in
      if length p < length s \<and> length p < n then (p @ [CHR 0x0A], SliceLine, drop (length p + 1) s)
      else if n \<le> length s then (take n s, SliceFull, drop n s)
      else (s, SliceEOF, []))"

datatype read_end = ReadOk | ReadTooLong | ReadEOF

function readLineLimited :: "nat \<Rightarrow> nat \<Rightarrow> gostring \<Rightarrow> gostring \<Rightarrow> gostring \<times> read_end \<times> gostring" where
  "readLineLimited n mx acc s =
     (case read_slice (Suc n) s of (part, e, rest) \<Rightarrow>
        let line = acc @ part in
        if part \<noteq> [] \<and> length line > mx then (line, ReadTooLong, rest)
        else case e of
          SliceFull \<Rightarrow> readLineLimited n mx line rest
        | SliceEOF \<Rightarrow> (line, ReadEOF, rest)
        | SliceLine \<Rightarrow> (line, ReadOk, rest))"
  by pat_completeness auto
termination
  by (relation "measure (\<lambda>(n, mx, acc, s). length s)") (auto simp: read_slice_def Let_def split: if_splits)

declare readLineLimited.simps [simp del]

definition maxJSONRPCLineBytes :: nat where "maxJSONRPCLineBytes = 128 * 1024 * 1024"

lemma line_split:
  assumes "length (takeWhile (\<lambda>c. c \<noteq> x) s) < length s"
  shows "takeWhile (\<lambda>c. c \<noteq> x) s @ x # drop (Suc (length (takeWhile (\<lambda>c. c \<noteq> x) s))) s = s"
proof -
  let ?k = "length (takeWhile (\<lambda>c. c \<noteq> x) s)"
  have "s ! ?k = x" using nth_length_takeWhile[OF assms] by simp
  then show ?thesis using id_take_nth_drop[OF assms] by (simp add: takeWhile_eq_take[symmetric])
qed

lemma read_slice_concat: "read_slice n s = (part, e, rest) \<Longrightarrow> part @ rest = s"
  using line_split[of "CHR 0x0A" s] by (auto simp: read_slice_def Let_def split: if_splits)

lemma read_slice_ok: "read_slice n s = (part, SliceLine, rest) \<Longrightarrow> part \<noteq> []"
  by (auto simp: read_slice_def Let_def split: if_splits)

lemma readLineLimited_ok: "readLineLimited n mx acc s = (line, ReadOk, rest) \<Longrightarrow> length rest < length s"
proof (induction n mx acc s rule: readLineLimited.induct)
  case (1 n mx acc s)
  obtain part e r where sl: "read_slice (Suc n) s = (part, e, r)" by (metis prod_cases3)
  have len: "length part + length r = length s" using read_slice_concat[OF sl] by (metis length_append)
  let ?long = "part \<noteq> [] \<and> length (acc @ part) > mx"
  have eq: "readLineLimited n mx acc s = (if ?long then (acc @ part, ReadTooLong, r)
      else case e of SliceFull \<Rightarrow> readLineLimited n mx (acc @ part) r
        | SliceEOF \<Rightarrow> (acc @ part, ReadEOF, r) | SliceLine \<Rightarrow> (acc @ part, ReadOk, r))"
    unfolding readLineLimited.simps[of n mx acc s] sl by (simp add: Let_def)
  have nl: "\<not> ?long" using 1(2) eq by auto
  show ?case
  proof (cases e)
    case SliceFull
    then have "readLineLimited n mx (acc @ part) r = (line, ReadOk, rest)" using 1(2) unfolding eq if_not_P[OF nl] by simp
    then have "length rest < length r" using 1(1)[OF sl[symmetric] refl refl nl SliceFull] by simp
    with len show ?thesis by linarith
  next
    case SliceLine
    then have "rest = r" "part \<noteq> []" using 1(2) sl read_slice_ok unfolding eq if_not_P[OF nl] by auto
    with len show ?thesis by (cases part) auto
  next
    case SliceEOF
    then show ?thesis using 1(2) unfolding eq if_not_P[OF nl] by simp
  qed
qed

text \<open>
  \<open>readLoop\<close>: the lines handed to \<open>handleLine\<close>, white space trimmed and blank ones skipped. A
  read error (a line that is too long, the end of the output) ends the loop after that line.
\<close>

definition line_of :: "gostring \<Rightarrow> gostring list" where
  "line_of line = (let t = TrimSpace line in if t = [] then [] else [t])"

function read_lines :: "nat \<Rightarrow> nat \<Rightarrow> gostring \<Rightarrow> gostring list" where
  "read_lines n mx s =
     (case readLineLimited n mx [] s of
        (line, ReadOk, rest) \<Rightarrow> line_of line @ read_lines n mx rest
      | (line, _, rest) \<Rightarrow> line_of line)"
  by pat_completeness auto
termination
  by (relation "measure (\<lambda>(n, mx, s). length s)") (auto dest: readLineLimited_ok[OF sym])

declare read_lines.simps [simp del]

text \<open>The envelope, and the id as text: a string as it is, anything else as written.\<close>

record rpc_envelope =
  en_ID :: gostring
  en_Method :: gostring
  en_Params :: gostring
  en_Result :: gostring
  en_Error :: "rpcError option"

definition rpc_error_fields :: "(gostring \<times> rpcError decoder) list" where
  "rpc_error_fields =
     [(''code'', int_field (\<lambda>i. re_Code_update (\<lambda>_. i))), (''message'', str_field (\<lambda>s. re_Message_update (\<lambda>_. s))),
      (''data'', raw_field (\<lambda>s. re_Data_update (\<lambda>_. s)))]"

definition envelope_fields :: "(gostring \<times> rpc_envelope decoder) list" where
  "envelope_fields =
     [(''id'', raw_field (\<lambda>s. en_ID_update (\<lambda>_. s))), (''method'', str_field (\<lambda>s. en_Method_update (\<lambda>_. s))),
      (''params'', raw_field (\<lambda>s. en_Params_update (\<lambda>_. s))), (''result'', raw_field (\<lambda>s. en_Result_update (\<lambda>_. s))),
      (''error'', ptr_field rpc_error_fields \<lparr>re_Code = 0, re_Message = [], re_Data = []\<rparr> en_Error (\<lambda>e. en_Error_update (\<lambda>_. e)))]"

definition empty_envelope :: rpc_envelope where
  "empty_envelope = \<lparr>en_ID = [], en_Method = [], en_Params = [], en_Result = [], en_Error = None\<rparr>"

definition compactID :: "gostring \<Rightarrow> gostring" where
  "compactID raw =
     (if raw = [] \<or> raw = ''null'' then []
      else case unmarshal_string raw of (s, err) \<Rightarrow> if err then TrimSpace raw else s)"

text \<open>A send on a buffered channel; \<open>None\<close> when it is full and the sender waits.\<close>

definition send_wait :: "'a \<Rightarrow> nat \<Rightarrow> 'a heap \<Rightarrow> 'a heap option" where
  "send_wait x r h =
     (let c = h ! r in
      if length (chan_buf c) < chan_cap c then Some (h[r := c\<lparr>chan_buf := chan_buf c @ [x]\<rparr>]) else None)"

datatype line_effect = LineIgnored | LineResponse | LineRequest ServerRequest | LineNotification Notification

definition handle_response :: "gostring \<Rightarrow> rpcResponse \<Rightarrow> Client \<Rightarrow> Client option" where
  "handle_response rid res c =
     (case alist_get (cl_pending c) rid of
        None \<Rightarrow> Some c
      | Some r \<Rightarrow> map_option (\<lambda>h. (removePending rid c)\<lparr>cl_chans := h\<rparr>) (send_wait res r (cl_chans c)))"

definition handleLine :: "gostring \<Rightarrow> Client \<Rightarrow> (line_effect \<times> Client) option" where
  "handleLine line c =
     (case unmarshal_struct envelope_fields empty_envelope line of
        (env, err) \<Rightarrow>
          if err then Some (LineIgnored, c)
          else let rid = compactID (en_ID env) in
            if rid \<noteq> [] \<and> en_Method env = []
            then map_option (\<lambda>c1. (LineResponse, c1)) (handle_response rid \<lparr>rr_Result = en_Result env, rr_Error = en_Error env\<rparr> c)
            else if rid \<noteq> [] then Some (LineRequest \<lparr>rq_ID = rid, rq_Method = en_Method env, rq_Params = en_Params env\<rparr>, c)
            else if en_Method env \<noteq> [] then Some (LineNotification \<lparr>nf_Method = en_Method env, nf_Params = en_Params env\<rparr>, c)
            else Some (LineIgnored, c))"

subsection \<open>Closing\<close>

fun send_each :: "'a \<Rightarrow> nat list \<Rightarrow> 'a heap \<Rightarrow> 'a heap option" where
  "send_each x [] h = Some h"
| "send_each x (r # rs) h = (case send_wait x r h of None \<Rightarrow> None | Some h1 \<Rightarrow> send_each x rs h1)"

definition rpc_message :: "gostring \<Rightarrow> rpcResponse" where
  "rpc_message msg = \<lparr>rr_Result = [], rr_Error = Some \<lparr>re_Code = 0, re_Message = msg, re_Data = []\<rparr>\<rparr>"

definition closePending :: "gostring \<Rightarrow> Client \<Rightarrow> Client option" where
  "closePending msg c =
     map_option (\<lambda>h. c\<lparr>cl_pending := [], cl_chans := h\<rparr>) (send_each (rpc_message msg) (map snd (cl_pending c)) (cl_chans c))"

definition client_Close :: "Client \<Rightarrow> Client option" where
  "client_Close c =
     (if cl_closed c then Some c
      else closePending ''codex app-server closed'' (c\<lparr>cl_closed := True\<rparr>))"

text \<open>\<open>wait\<close>, once the process has exited.\<close>

definition client_wait :: "Client \<Rightarrow> Client option" where
  "client_wait c =
     map_option (\<lambda>c1. c1\<lparr>cl_done := True\<rparr>) (closePending ''codex app-server exited'' (c\<lparr>cl_closed := True\<rparr>))"

subsection \<open>Requests of the server\<close>

definition reply_json :: "gostring \<Rightarrow> gval \<Rightarrow> gval" where
  "reply_json rid v = go_map [(''id'', GStr rid), (''result'', v)]"

definition reply_error_json :: "gostring \<Rightarrow> int \<Rightarrow> gostring \<Rightarrow> gval" where
  "reply_error_json rid code msg =
     go_map [(''id'', GStr rid), (''error'', go_map [(''code'', GInt code), (''message'', GStr msg)])]"

text \<open>
  \<open>handleServerRequest\<close>: the reply to write, if any. The outer option says whether a handler is
  configured; its result is the text of an error or the raw result.
\<close>

definition server_reply :: "(gostring + gostring) option \<Rightarrow> ServerRequest \<Rightarrow> gval option" where
  "server_reply res req =
     (if TrimSpace (rq_ID req) = [] then None
      else Some (case res of
          None \<Rightarrow> reply_error_json (rq_ID req) (- 32601) ''server request handler not configured''
        | Some (Inl msg) \<Rightarrow> reply_error_json (rq_ID req) (- 32000) msg
        | Some (Inr raw) \<Rightarrow> reply_json (rq_ID req) (if raw = [] \<or> raw = ''null'' then GObj [] else GRaw raw)))"

subsection \<open>Parameters and results\<close>

definition initialize_params :: gval where
  "initialize_params =
     go_map [(''clientInfo'', go_map [(''name'', GStr ''pockly_daemon''), (''title'', GStr ''Pockly Daemon''), (''version'', GStr ''0.0.0'')]),
       (''capabilities'', go_map [(''experimentalApi'', GBool True)])]"

record ThreadStartParams =
  ts_Cwd :: gostring
  ts_Model :: gostring
  ts_ApprovalPolicy :: gostring
  ts_Sandbox :: gostring

definition thread_start_map :: "ThreadStartParams \<Rightarrow> gval" where
  "thread_start_map p =
     go_map (omit_str ''cwd'' (ts_Cwd p) @ omit_str ''model'' (ts_Model p) @ omit_str ''approvalPolicy'' (ts_ApprovalPolicy p) @
       omit_str ''sandbox'' (ts_Sandbox p))"

record ThreadResumeParams =
  tr_ThreadID :: gostring
  tr_Path :: gostring
  tr_Cwd :: gostring
  tr_Model :: gostring
  tr_ApprovalPolicy :: gostring
  tr_Sandbox :: gostring

definition thread_resume_map :: "ThreadResumeParams \<Rightarrow> gval" where
  "thread_resume_map p =
     go_map ((''threadId'', GStr (tr_ThreadID p)) # omit_str ''path'' (tr_Path p) @ omit_str ''cwd'' (tr_Cwd p) @
       omit_str ''model'' (tr_Model p) @ omit_str ''approvalPolicy'' (tr_ApprovalPolicy p) @ omit_str ''sandbox'' (tr_Sandbox p))"

record TurnStartParams =
  tu_ThreadID :: gostring
  tu_Cwd :: gostring
  tu_Model :: gostring
  tu_Effort :: gostring
  tu_ApprovalPolicy :: gostring
  tu_Text :: gostring

definition turn_start_map :: "TurnStartParams \<Rightarrow> gval" where
  "turn_start_map p =
     go_map ([(''threadId'', GStr (tu_ThreadID p)),
       (''input'', GArr [go_map [(''type'', GStr ''text''), (''text'', GStr (tu_Text p)), (''text_elements'', GArr [])]])] @
       omit_str ''cwd'' (tu_Cwd p) @ omit_str ''model'' (tu_Model p) @
       (if tu_Effort p \<noteq> ''max'' then omit_str ''effort'' (tu_Effort p) else []) @
       omit_str ''approvalPolicy'' (tu_ApprovalPolicy p))"

record ThreadStartResult =
  th_ThreadID :: gostring
  th_Cwd :: gostring
  th_Model :: gostring

definition thread_fields :: "(gostring \<times> ThreadStartResult decoder) list" where
  "thread_fields =
     [(''cwd'', str_field (\<lambda>s. th_Cwd_update (\<lambda>_. s))), (''model'', str_field (\<lambda>s. th_Model_update (\<lambda>_. s))),
      (''thread'', struct_field [(''id'', str_field (\<lambda>s. th_ThreadID_update (\<lambda>_. s)))] (\<lambda>r. r) (\<lambda>a _. a))]"

definition parseThreadStartResult :: "gostring \<Rightarrow> client_error + ThreadStartResult" where
  "parseThreadStartResult raw =
     (case unmarshal_struct thread_fields \<lparr>th_ThreadID = [], th_Cwd = [], th_Model = []\<rparr> raw of
        (out, err) \<Rightarrow> if err then Inl ErrDecode else if th_ThreadID out = [] then Inl ErrNoThread else Inr out)"

text \<open>\<open>ThreadStart\<close> and \<open>ThreadResume\<close> after \<open>Request\<close>.\<close>

definition thread_result :: "client_error + gostring \<Rightarrow> client_error + ThreadStartResult" where
  "thread_result res = (case res of Inl e \<Rightarrow> Inl e | Inr raw \<Rightarrow> parseThreadStartResult raw)"

record CommandExecParams =
  ce_ProcessID :: gostring
  ce_Command :: "gostring list"
  ce_Cwd :: gostring
  ce_TTY :: bool
  ce_Cols :: int
  ce_Rows :: int

definition command_exec_map :: "CommandExecParams \<Rightarrow> gval" where
  "command_exec_map p =
     go_map ([(''command'', GArr (map GStr (ce_Command p))), (''tty'', GBool (ce_TTY p)), (''streamStdin'', GBool True),
       (''streamStdoutStderr'', GBool True), (''disableTimeout'', GBool True), (''disableOutputCap'', GBool True)] @
       omit_str ''processId'' (ce_ProcessID p) @ omit_str ''cwd'' (ce_Cwd p) @
       (if ce_TTY p
        then [(''size'', go_map [(''cols'', GInt (if ce_Cols p \<le> 0 then 100 else ce_Cols p)), (''rows'', GInt (if ce_Rows p \<le> 0 then 30 else ce_Rows p))])]
        else []))"

definition exec_write_params :: "gostring \<Rightarrow> gostring \<Rightarrow> bool \<Rightarrow> gval" where
  "exec_write_params processID deltaBase64 closeStdin =
     go_map ([(''processId'', GStr processID), (''closeStdin'', GBool closeStdin)] @ omit_str ''deltaBase64'' deltaBase64)"

definition exec_terminate_params :: "gostring \<Rightarrow> gval" where
  "exec_terminate_params processID = go_map [(''processId'', GStr processID)]"

definition exec_resize_params :: "gostring \<Rightarrow> int \<Rightarrow> int \<Rightarrow> gval" where
  "exec_resize_params processID cols rows =
     go_map [(''processId'', GStr processID), (''size'', go_map [(''cols'', GInt cols), (''rows'', GInt rows)])]"

record CommandExecResult =
  cr_ExitCode :: int
  cr_Stdout :: gostring
  cr_Stderr :: gostring

definition exec_fields :: "(gostring \<times> CommandExecResult decoder) list" where
  "exec_fields =
     [(''exitCode'', int_field (\<lambda>i. cr_ExitCode_update (\<lambda>_. i))), (''stdout'', str_field (\<lambda>s. cr_Stdout_update (\<lambda>_. s))),
      (''stderr'', str_field (\<lambda>s. cr_Stderr_update (\<lambda>_. s)))]"

definition exec_result :: "client_error + gostring \<Rightarrow> client_error + CommandExecResult" where
  "exec_result res =
     (case res of
        Inl e \<Rightarrow> Inl e
      | Inr raw \<Rightarrow>
          (case unmarshal_struct exec_fields \<lparr>cr_ExitCode = 0, cr_Stdout = [], cr_Stderr = []\<rparr> raw of
             (out, err) \<Rightarrow> if err then Inl ErrDecode else Inr out))"

text \<open>The model list.\<close>

record effort_option =
  eo_ReasoningEffort :: gostring
  eo_Description :: gostring

record codex_model =
  cm_ID :: gostring
  cm_Model :: gostring
  cm_DisplayName :: gostring
  cm_IsDefault :: bool
  cm_Hidden :: bool
  cm_DefaultReasoningEffort :: gostring
  cm_SupportedReasoningEfforts :: "effort_option list"

definition objects_field :: "(gostring \<times> 'a decoder) list \<Rightarrow> 'a \<Rightarrow> ('a list \<Rightarrow> 'r \<Rightarrow> 'r) \<Rightarrow> 'r decoder" where
  "objects_field fs zero upd raw v r =
     (case v of
        JNull \<Rightarrow> (upd [] r, False)
      | JArr es \<Rightarrow> (let ds = map (\<lambda>(_, x). dec_struct fs x zero) es in (upd (map fst ds) r, list_ex snd ds))
      | _ \<Rightarrow> (r, True))"

definition effort_fields :: "(gostring \<times> effort_option decoder) list" where
  "effort_fields =
     [(''reasoningEffort'', str_field (\<lambda>s. eo_ReasoningEffort_update (\<lambda>_. s))), (''description'', str_field (\<lambda>s. eo_Description_update (\<lambda>_. s)))]"

definition model_fields :: "(gostring \<times> codex_model decoder) list" where
  "model_fields =
     [(''id'', str_field (\<lambda>s. cm_ID_update (\<lambda>_. s))), (''model'', str_field (\<lambda>s. cm_Model_update (\<lambda>_. s))),
      (''displayName'', str_field (\<lambda>s. cm_DisplayName_update (\<lambda>_. s))), (''isDefault'', bool_field (\<lambda>b. cm_IsDefault_update (\<lambda>_. b))),
      (''hidden'', bool_field (\<lambda>b. cm_Hidden_update (\<lambda>_. b))),
      (''defaultReasoningEffort'', str_field (\<lambda>s. cm_DefaultReasoningEffort_update (\<lambda>_. s))),
      (''supportedReasoningEfforts'', objects_field effort_fields \<lparr>eo_ReasoningEffort = [], eo_Description = []\<rparr>
         (\<lambda>es. cm_SupportedReasoningEfforts_update (\<lambda>_. es)))]"

definition empty_model :: codex_model where
  "empty_model =
     \<lparr>cm_ID = [], cm_Model = [], cm_DisplayName = [], cm_IsDefault = False, cm_Hidden = False, cm_DefaultReasoningEffort = [],
      cm_SupportedReasoningEfforts = []\<rparr>"

definition model_list_result :: "client_error + gostring \<Rightarrow> client_error + codex_model list" where
  "model_list_result res =
     (case res of
        Inl e \<Rightarrow> Inl e
      | Inr raw \<Rightarrow>
          (case unmarshal_struct [(''data'', objects_field model_fields empty_model (\<lambda>ms _. ms))] [] raw of
             (out, err) \<Rightarrow> if err then Inl ErrDecode else Inr out))"

text \<open>What the child says on its error output, the first bytes of it.\<close>

record stderrRecorder =
  sr_max :: int
  sr_buf :: gostring

definition recorder_write :: "gostring \<Rightarrow> stderrRecorder \<Rightarrow> stderrRecorder" where
  "recorder_write s r =
     (if sr_max r \<le> 0 \<or> s = [] then r
      else let remaining = sr_max r - int (length (sr_buf r)) in
        if remaining \<le> 0 then r
        else r\<lparr>sr_buf := sr_buf r @ (if int (length s) > remaining then take (nat remaining) s else s)\<rparr>)"

subsection \<open>Starting\<close>

definition normalizeTransport :: "(rune \<Rightarrow> rune) \<Rightarrow> gostring \<Rightarrow> gostring" where
  "normalizeTransport low transport =
     (let t = ToLower low (TrimSpace transport) in if t = ''proxy'' \<or> t = ''stdio'' then t else ''auto'')"

text \<open>The text of an error, empty when there is none.\<close>

definition classifyFallbackReason :: "(rune \<Rightarrow> rune) \<Rightarrow> gostring \<Rightarrow> gostring \<Rightarrow> gostring" where
  "classifyFallbackReason low err fallback =
     (let msg = ToLower low (TrimSpace err) in
      if msg = [] then fallback
      else if Contains msg ''managed standalone codex install not found'' then ''standalone_install_missing''
      else if Contains msg ''app-server-control.sock'' \<and> (Contains msg ''no such file'' \<or> Contains msg ''failed to connect'')
      then ''proxy_socket_missing''
      else fallback)"

definition proxy_args :: "gostring \<Rightarrow> gostring list" where
  "proxy_args socket =
     (let sock = TrimSpace socket in if sock \<noteq> [] then [''app-server'', ''proxy'', ''--sock'', sock] else [''app-server'', ''proxy''])"

definition stdio_args :: "gostring list" where "stdio_args = [''app-server'', ''--listen'', ''stdio://'']"

text \<open>
  What becomes of the attempts: a command that is started and initialised (its error text
  otherwise), the first and the second time the proxy is tried, and the start of the daemon.
\<close>

record start_world =
  sw_proxy :: "gostring option"
  sw_daemon :: "gostring option"
  sw_proxy_again :: "gostring option"
  sw_stdio :: "gostring option"

record start_config =
  sg_BinaryPath :: gostring
  sg_Transport :: gostring
  sg_SocketPath :: gostring
  sg_AllowDaemonStart :: bool

text \<open>The client of a command that has answered \<open>initialize\<close>, its first request.\<close>

definition started_client :: "gostring \<Rightarrow> gostring \<Rightarrow> Client" where
  "started_client source reason =
     (case request_begin (new_client source reason) of (Inr (rid, r), c) \<Rightarrow> removePending rid c | (Inl e, c) \<Rightarrow> c)"

definition attempt :: "gostring option \<Rightarrow> gostring \<Rightarrow> gostring \<Rightarrow> gostring list \<Rightarrow> gostring + (Client \<times> gostring list)" where
  "attempt err source reason args = (case err of Some e \<Rightarrow> Inl e | None \<Rightarrow> Inr (started_client source reason, args))"

definition client_Start :: "(rune \<Rightarrow> rune) \<Rightarrow> start_config \<Rightarrow> start_world \<Rightarrow> gostring + (Client \<times> gostring list)" where
  "client_Start low cfg w =
     (let proxy = proxy_args (sg_SocketPath cfg); transport = normalizeTransport low (sg_Transport cfg) in
      if TrimSpace (sg_BinaryPath cfg) = [] then Inl ''codex app-server binary path required''
      else if transport = ''stdio'' then attempt (sw_stdio w) ''stdio_isolated'' [] stdio_args
      else if transport = ''proxy'' then attempt (sw_proxy w) ''proxy_existing'' [] proxy
      else case sw_proxy w of
        None \<Rightarrow> attempt None ''proxy_existing'' [] proxy
      | Some proxyErr \<Rightarrow>
          if sg_AllowDaemonStart cfg then
            (case sw_daemon w of
               None \<Rightarrow>
                 (case sw_proxy_again w of
                    None \<Rightarrow> attempt None ''daemon_started_proxy'' [] proxy
                  | Some e \<Rightarrow> attempt (sw_stdio w) ''proxy_failed_fallback_stdio'' (classifyFallbackReason low e ''proxy_failed'') stdio_args)
             | Some e \<Rightarrow> attempt (sw_stdio w) ''daemon_start_failed_fallback_stdio'' (classifyFallbackReason low e ''daemon_start_failed'') stdio_args)
          else attempt (sw_stdio w) ''proxy_failed_fallback_stdio'' (classifyFallbackReason low proxyErr ''proxy_failed'') stdio_args)"

end
