(* ===== verification/CodexClientProps.thy ===== *)
theory CodexClientProps
  imports CodexClient
begin

section \<open>Responses reach their requests\<close>

subsection \<open>Ids\<close>

lemma nat_of_digits_snoc: "nat_of_digits (ds @ [c]) = nat_of_digits ds * 10 + (of_char c - 48)"
  by (simp add: nat_of_digits_def)

lemma nat_of_digits: "nat_of_digits (digits n) = n"
proof (induction n rule: digits.induct)
  case (1 n)
  have d: "of_char (char_of (48 + n mod 10) :: char) = 48 + n mod 10" by (simp add: of_char_of)
  show ?case
  proof (cases "n < 10")
    case True
    then show ?thesis by (subst digits.simps) (simp add: nat_of_digits_def of_char_of)
  next
    case False
    then show ?thesis using 1 d by (subst digits.simps) (simp add: nat_of_digits_snoc)
  qed
qed

lemma Itoa_inj: "0 \<le> i \<Longrightarrow> 0 \<le> j \<Longrightarrow> Itoa i = Itoa j \<Longrightarrow> i = j"
  by (metis Itoa_def nat_eq_iff2 nat_of_digits not_less)

subsection \<open>The transition system\<close>

text \<open>
  The client with the requests that are waiting, and what the child has said so far: the
  responses of its lines, with their ids.
\<close>

record csys =
  cs :: Client
  calls :: "(gostring \<times> nat) list"
  said :: "(gostring \<times> rpcResponse) list"

definition line_response :: "gostring \<Rightarrow> (gostring \<times> rpcResponse) list" where
  "line_response line =
     (case unmarshal_struct envelope_fields empty_envelope line of
        (env, err) \<Rightarrow> if err then [] else [(compactID (en_ID env), \<lparr>rr_Result = en_Result env, rr_Error = en_Error env\<rparr>)])"

inductive cstep :: "csys \<Rightarrow> csys \<Rightarrow> bool" where
  c_begin: "request_begin (cs s) = (Inr (rid, r), c) \<Longrightarrow> cstep s (s\<lparr>cs := c, calls := (rid, r) # calls s\<rparr>)"
| c_begin_closed: "request_begin (cs s) = (Inl e, c) \<Longrightarrow> cstep s (s\<lparr>cs := c\<rparr>)"
| c_select: "(rid, r) \<in> set (calls s) \<Longrightarrow> request_select w rid r (cs s) = Some (res, c) \<Longrightarrow>
     cstep s (s\<lparr>cs := c, calls := remove1 (rid, r) (calls s)\<rparr>)"
| c_line: "handleLine line (cs s) = Some (eff, c) \<Longrightarrow> cstep s (s\<lparr>cs := c, said := line_response line @ said s\<rparr>)"
| c_close: "client_Close (cs s) = Some c \<Longrightarrow> cstep s (s\<lparr>cs := c\<rparr>)"
| c_exit: "client_wait (cs s) = Some c \<Longrightarrow> cstep s (s\<lparr>cs := c\<rparr>)"
| c_output_ends: "closePending ''codex app-server stdout closed'' (cs s) = Some c \<Longrightarrow> cstep s (s\<lparr>cs := c\<rparr>)"

definition cstart :: "csys \<Rightarrow> bool" where
  "cstart s \<longleftrightarrow> (\<exists>source reason. cs s = new_client source reason) \<and> calls s = [] \<and> said s = []"

definition creachable :: "csys \<Rightarrow> bool" where
  "creachable = reach cstart cstep"

subsection \<open>The invariant\<close>

definition id_of :: "nat \<Rightarrow> gostring" where "id_of r = Itoa (int r + 1)"

lemma id_of_inj [simp]: "id_of r = id_of q \<longleftrightarrow> r = q"
  using Itoa_inj[of "int r + 1" "int q + 1"] by (auto simp: id_of_def)

definition closing :: "rpcResponse \<Rightarrow> bool" where
  "closing res \<longleftrightarrow> res \<in> {rpc_message ''codex app-server closed'', rpc_message ''codex app-server exited'',
     rpc_message ''codex app-server stdout closed''}"

text \<open>A channel holds at most one response: one that was said for its id, or a closing one.\<close>

definition chan_fine :: "(gostring \<times> rpcResponse) list \<Rightarrow> nat \<Rightarrow> rpcResponse chan \<Rightarrow> bool" where
  "chan_fine sd r c \<longleftrightarrow> chan_cap c = 1 \<and> length (chan_buf c) \<le> 1 \<and>
     (\<forall>res\<in>set (chan_buf c). (id_of r, res) \<in> set sd \<or> closing res)"

definition waits :: "rpcResponse heap \<Rightarrow> (gostring \<times> nat) list \<Rightarrow> bool" where
  "waits h ps \<longleftrightarrow> distinct (map snd ps) \<and> (\<forall>(rid, r)\<in>set ps. r < length h \<and> rid = id_of r \<and> chan_buf (h ! r) = [])"

definition cinv :: "csys \<Rightarrow> bool" where
  "cinv s \<longleftrightarrow>
     cl_nextID (cs s) = int (length (cl_chans (cs s))) \<and>
     (\<forall>r<length (cl_chans (cs s)). chan_fine (said s) r (cl_chans (cs s) ! r)) \<and>
     waits (cl_chans (cs s)) (cl_pending (cs s)) \<and>
     (\<forall>(rid, r)\<in>set (calls s). r < length (cl_chans (cs s)) \<and> rid = id_of r)"

lemma waitsD: "waits h ps \<Longrightarrow> (rid, r) \<in> set ps \<Longrightarrow> rid = id_of r"
  unfolding waits_def by (drule conjunct2, drule bspec, assumption) simp

lemma waits_upd: "waits h ps \<Longrightarrow> r \<notin> snd ` set ps \<Longrightarrow> waits (h[r := k]) ps"
  unfolding waits_def
proof (intro conjI ballI, goal_cases)
  case (2 p)
  then have "snd p \<noteq> r" by (metis imageI)
  with 2 show ?case by (cases p) auto
qed auto

text \<open>Delivery to waiting channels never blocks.\<close>

lemma send_each_waits:
  assumes "waits h ps" "\<forall>r<length h. chan_fine sd r (h ! r)" "\<forall>(rid, r)\<in>set ps. (id_of r, res) \<in> set sd \<or> closing res"
  shows "\<exists>h'. send_each res (map snd ps) h = Some h' \<and> length h' = length h \<and> (\<forall>r<length h'. chan_fine sd r (h' ! r))"
  using assms
proof (induction ps arbitrary: h)
  case (Cons p ps)
  obtain rid r where p: "p = (rid, r)" by (cases p)
  let ?c = "(h ! r)\<lparr>chan_buf := chan_buf (h ! r) @ [res]\<rparr>"
  have r: "r < length h" "chan_buf (h ! r) = []" "chan_cap (h ! r) = 1" "r \<notin> set (map snd ps)"
    using Cons.prems p by (auto simp: waits_def chan_fine_def)
  have fine: "\<forall>q<length (h[r := ?c]). chan_fine sd q (h[r := ?c] ! q)"
    using Cons.prems r p by (auto simp: nth_list_update chan_fine_def)
  have "waits h ps" using Cons.prems(1) p by (simp add: waits_def)
  then have w: "waits (h[r := ?c]) ps" using waits_upd r(4) by simp
  from Cons.IH[OF w fine] Cons.prems(3) p r show ?case by (auto simp: send_wait_def Let_def)
qed simp

lemma waits_del: "waits h ps \<Longrightarrow> waits h (alist_del k ps)"
  by (auto simp: waits_def alist_del_def intro!: distinct_map_filter)

lemma closePending_fine:
  assumes "cinv s" "closing (rpc_message msg)" "cl_pending c = cl_pending (cs s)" "cl_chans c = cl_chans (cs s)" "cl_nextID c = cl_nextID (cs s)"
  shows "\<exists>c1. closePending msg c = Some c1 \<and> cinv (s\<lparr>cs := c1\<rparr>)"
  using send_each_waits[of "cl_chans (cs s)" "cl_pending (cs s)" "said s" "rpc_message msg"] assms
  by (auto simp: cinv_def closePending_def waits_def)

lemma closing_messages:
  "closing (rpc_message ''codex app-server closed'')" "closing (rpc_message ''codex app-server exited'')"
  "closing (rpc_message ''codex app-server stdout closed'')"
  by (simp_all add: closing_def)

lemma close_total: "cinv s \<Longrightarrow> \<exists>c. client_Close (cs s) = Some c \<and> cinv (s\<lparr>cs := c\<rparr>)"
  using closePending_fine[OF _ closing_messages(1), of s "(cs s)\<lparr>cl_closed := True\<rparr>"] by (auto simp: client_Close_def)

lemma wait_total:
  assumes "cinv s"
  shows "\<exists>c. client_wait (cs s) = Some c \<and> cinv (s\<lparr>cs := c\<rparr>)"
proof -
  obtain c where "closePending ''codex app-server exited'' ((cs s)\<lparr>cl_closed := True\<rparr>) = Some c" "cinv (s\<lparr>cs := c\<rparr>)"
    using closePending_fine[OF assms closing_messages(2), of "(cs s)\<lparr>cl_closed := True\<rparr>"] by auto
  then show ?thesis by (auto simp: client_wait_def cinv_def)
qed

lemma chan_fine_mono: "chan_fine sd r c \<Longrightarrow> set sd \<subseteq> set sd' \<Longrightarrow> chan_fine sd' r c"
  by (auto simp: chan_fine_def)

lemma cinv_said:
  assumes "cinv s" "set (said s) \<subseteq> set sd"
  shows "cinv (s\<lparr>said := sd\<rparr>)"
proof -
  have "\<forall>r<length (cl_chans (cs s)). chan_fine sd r (cl_chans (cs s) ! r)"
    using assms chan_fine_mono[OF _ assms(2)] by (simp add: cinv_def)
  with assms(1) show ?thesis by (simp add: cinv_def)
qed

text \<open>A response is put into the channel of the request that waits for it, and nowhere else.\<close>

lemma response_delivered:
  assumes "cinv s" "(rid, res) \<in> set sd" "set (said s) \<subseteq> set sd"
  shows "\<exists>c. handle_response rid res (cs s) = Some c \<and> cinv (s\<lparr>cs := c, said := sd\<rparr>) \<and>
    (\<forall>r. alist_get (cl_pending (cs s)) rid = Some r \<longrightarrow> r < length (cl_chans c) \<and> chan_buf (cl_chans c ! r) = [res])"
proof (cases "alist_get (cl_pending (cs s)) rid")
  case None
  with cinv_said[OF assms(1,3)] show ?thesis by (simp add: handle_response_def)
next
  case (Some r)
  let ?h = "cl_chans (cs s)"
  let ?k = "(?h ! r)\<lparr>chan_buf := chan_buf (?h ! r) @ [res]\<rparr>"
  have w: "waits ?h (cl_pending (cs s))" using assms(1) by (simp add: cinv_def)
  have mem: "(rid, r) \<in> set (cl_pending (cs s))" using alist_get_Some_mem[OF Some] .
  then have r: "r < length ?h" "rid = id_of r" "chan_buf (?h ! r) = []" "chan_cap (?h ! r) = 1"
    using w assms(1) by (auto simp: waits_def cinv_def chan_fine_def)
  have del: "waits (?h[r := ?k]) (alist_del rid (cl_pending (cs s)))"
  proof (rule waits_upd[OF waits_del[OF w]])
    have "(q, r) \<in> set (cl_pending (cs s)) \<Longrightarrow> q = rid" for q using waitsD[OF w] r(2) by simp
    then show "r \<notin> snd ` set (alist_del rid (cl_pending (cs s)))" by (auto simp: set_alist_del)
  qed
  have fine: "\<forall>q<length (?h[r := ?k]). chan_fine sd q (?h[r := ?k] ! q)"
    using cinv_said[OF assms(1,3)] assms(2) r by (auto simp: nth_list_update cinv_def chan_fine_def)
  have "handle_response rid res (cs s) = Some ((removePending rid (cs s))\<lparr>cl_chans := ?h[r := ?k]\<rparr>)"
    using Some r by (simp add: handle_response_def send_wait_def Let_def)
  with del fine assms(1) r Some show ?thesis by (simp add: cinv_def removePending_def)
qed

lemma handleLine_total:
  assumes "cinv s"
  shows "\<exists>eff c. handleLine line (cs s) = Some (eff, c) \<and> cinv (s\<lparr>cs := c, said := line_response line @ said s\<rparr>)"
proof -
  obtain env err where e: "unmarshal_struct envelope_fields empty_envelope line = (env, err)" by fastforce
  have more: "cinv (s\<lparr>said := line_response line @ said s\<rparr>)"
    by (rule cinv_said[OF assms]) simp
  show ?thesis
  proof (cases "\<not> err \<and> compactID (en_ID env) \<noteq> [] \<and> en_Method env = []")
    case True
    let ?res = "\<lparr>rr_Result = en_Result env, rr_Error = en_Error env\<rparr>"
    have said: "(compactID (en_ID env), ?res) \<in> set (line_response line @ said s)" using e True by (simp add: line_response_def)
    have sub: "set (said s) \<subseteq> set (line_response line @ said s)" by simp
    from response_delivered[OF assms said sub] show ?thesis using e True by (auto simp: handleLine_def Let_def)
  next
    case False
    with more e show ?thesis by (auto simp: handleLine_def Let_def)
  qed
qed

lemma begin_shape:
  "request_begin c = (res, c1) \<Longrightarrow>
   c1 = c\<lparr>cl_nextID := cl_nextID c + 1, cl_chans := cl_chans c @ [make_chan 1],
     cl_pending := (if cl_closed c then cl_pending c else alist_put (Itoa (cl_nextID c + 1)) (length (cl_chans c)) (cl_pending c))\<rparr> \<and>
   res = (if cl_closed c then Inl ErrClientClosed else Inr (Itoa (cl_nextID c + 1), length (cl_chans c)))"
  by (auto simp: request_begin_def alloc_def Let_def)

lemma waits_new:
  assumes "waits h ps"
  shows "waits (h @ [make_chan 1]) (alist_put (id_of (length h)) (length h) ps)" "waits (h @ [make_chan 1]) ps"
proof -
  have lt: "r < length h" "rid = id_of r" "chan_buf (h ! r) = []" if "(rid, r) \<in> set ps" for rid r
    using assms that unfolding waits_def by blast+
  show more: "waits (h @ [make_chan 1]) ps"
    using assms unfolding waits_def by (auto simp: nth_append dest: lt)
  have "id_of (length h) \<notin> set (keys ps)" using lt by (fastforce simp: keys_def)
  then have "alist_put (id_of (length h)) (length h) ps = ps @ [(id_of (length h), length h)]" by (rule alist_put_new)
  moreover have "length h \<notin> snd ` set ps" using lt by force
  ultimately show "waits (h @ [make_chan 1]) (alist_put (id_of (length h)) (length h) ps)"
    using more by (simp add: waits_def)
qed

lemma begin_inv:
  assumes "cinv s" "request_begin (cs s) = (res, c)"
  shows "cinv (s\<lparr>cs := c\<rparr>)" and "res = Inr (rid, r) \<Longrightarrow> r < length (cl_chans c) \<and> rid = id_of r"
proof -
  note c = begin_shape[OF assms(2), THEN conjunct1] and res = begin_shape[OF assms(2), THEN conjunct2]
  let ?h = "cl_chans (cs s)"
  have nid: "cl_nextID (cs s) = int (length ?h)" using assms(1) by (simp add: cinv_def)
  have "waits (?h @ [make_chan 1]) (cl_pending c)"
    using waits_new[of ?h "cl_pending (cs s)"] assms(1) by (simp add: c cinv_def nid id_of_def)
  moreover have "\<forall>r<length (?h @ [make_chan 1]). chan_fine (said s) r ((?h @ [make_chan 1]) ! r)"
    using assms(1) by (simp add: cinv_def nth_append less_Suc_eq chan_fine_def)
  moreover have "\<forall>(rid, r)\<in>set (calls s). r < length (?h @ [make_chan 1]) \<and> rid = id_of r"
    using assms(1) by (auto simp: cinv_def)
  ultimately show "cinv (s\<lparr>cs := c\<rparr>)" by (simp add: cinv_def c nid)
  show "res = Inr (rid, r) \<Longrightarrow> r < length (cl_chans c) \<and> rid = id_of r"
    using res by (auto simp: c nid id_of_def split: if_splits)
qed

lemma cinv_pending_del: "cinv s \<Longrightarrow> cinv (s\<lparr>cs := removePending rid (cs s)\<rparr>)"
  by (simp add: cinv_def removePending_def waits_del)

lemma cinv_call: "cinv s \<Longrightarrow> (rid, r) \<in> set (calls s) \<Longrightarrow> r < length (cl_chans (cs s)) \<and> rid = id_of r"
  by (auto simp: cinv_def)

lemma cinv_held: "cinv s \<Longrightarrow> r < length (cl_chans (cs s)) \<Longrightarrow> resp \<in> set (chan_buf (cl_chans (cs s) ! r)) \<Longrightarrow>
    (id_of r, resp) \<in> set (said s) \<or> closing resp"
  by (auto simp: cinv_def chan_fine_def)

lemma recv_inv:
  assumes "cinv s" "recv (cl_chans (cs s) ! r) = Some (res, k)" "r < length (cl_chans (cs s))"
  shows "cinv (s\<lparr>cs := (cs s)\<lparr>cl_chans := (cl_chans (cs s))[r := k]\<rparr>\<rparr>)"
proof -
  let ?h = "cl_chans (cs s)"
  have k: "chan_buf (?h ! r) = res # chan_buf k" "chan_cap k = chan_cap (?h ! r)"
    using assms(2) by (auto simp: recv_def split: list.splits)
  have "chan_fine (said s) r k" using assms(1,3) k by (auto simp: cinv_def chan_fine_def)
  then have fine: "\<forall>q<length ?h. chan_fine (said s) q (?h[r := k] ! q)" using assms(1,3) by (auto simp: cinv_def nth_list_update)
  have "r \<notin> snd ` set (cl_pending (cs s))" using assms(1) k(1) by (force simp: cinv_def waits_def)
  then have "waits (?h[r := k]) (cl_pending (cs s))" using waits_upd assms(1) by (simp add: cinv_def)
  with fine assms(1) show ?thesis by (simp add: cinv_def)
qed

lemma select_inv:
  assumes "cinv s" "(rid, r) \<in> set (calls s)" "request_select w rid r (cs s) = Some (res, c)"
  shows "cinv (s\<lparr>cs := c, calls := remove1 (rid, r) (calls s)\<rparr>)"
proof -
  have r: "r < length (cl_chans (cs s))" using assms(1,2) by (auto simp: cinv_def)
  have "cinv (s\<lparr>cs := c\<rparr>)"
    using assms(3) cinv_pending_del[OF assms(1)] recv_inv[OF assms(1) _ r]
    by (auto simp: request_select_def split: request_wake.splits option.splits if_splits)
  then show ?thesis by (auto simp: cinv_def dest: set_remove1_subset[THEN subsetD])
qed

interpretation client: invariant_system cstart cstep cinv
proof (unfold_locales, goal_cases)
  case (1 s)
  then show ?case by (auto simp: cstart_def cinv_def new_client_def waits_def)
next
  case (2 s t)
  from 2(2) show ?case
  proof (cases rule: cstep.cases)
    case (c_begin rid r c)
    then show ?thesis using begin_inv(1)[OF 2(1) c_begin(2)] begin_inv(2)[OF 2(1) c_begin(2) refl] by (auto simp: cinv_def)
  next
    case (c_begin_closed e c)
    then show ?thesis using begin_inv(1)[OF 2(1) c_begin_closed(2)] by simp
  next
    case (c_select rid r w res c)
    then show ?thesis using select_inv[OF 2(1)] by simp
  next
    case (c_line line eff c)
    then show ?thesis using handleLine_total[OF 2(1), of line] by auto
  next
    case (c_close c)
    then show ?thesis using close_total[OF 2(1)] by auto
  next
    case (c_exit c)
    then show ?thesis using wait_total[OF 2(1)] by auto
  next
    case (c_output_ends c)
    then show ?thesis using closePending_fine[OF 2(1) closing_messages(3) refl refl refl] by auto
  qed
qed

lemmas creachable_inv = client.inv_reach[folded creachable_def]

text \<open>
  C8. The client never blocks and never mixes up responses: in every reachable state the
  reader can take any line, the client can be closed and the exit be handled; a request that
  gets its response gets one the child has written for its own id, or a closing message; and
  a response that arrives for a request that still waits is what that request returns.
\<close>

theorem responses_reach_their_requests:
  assumes "creachable s"
  shows "(\<exists>eff c. handleLine line (cs s) = Some (eff, c)) \<and> (\<exists>c. client_Close (cs s) = Some c) \<and> (\<exists>c. client_wait (cs s) = Some c) \<and>
    list_all (\<lambda>(rid, r).
      (case request_select WakeResponse rid r (cs s) of
         None \<Rightarrow> True
       | Some (res, c) \<Rightarrow> \<exists>resp. res = rpc_result resp \<and> ((rid, resp) \<in> set (said s) \<or> closing resp)) \<and>
      (alist_get (cl_pending (cs s)) rid = None \<or>
       (\<exists>c c2. handle_response rid resp (cs s) = Some c \<and> request_select WakeResponse rid r c = Some (rpc_result resp, c2)))) (calls s)"
proof -
  have i: "cinv s" by (rule creachable_inv[OF assms])
  have one: "case request_select WakeResponse rid r (cs s) of None \<Rightarrow> True
      | Some (res, c) \<Rightarrow> \<exists>resp. res = rpc_result resp \<and> ((rid, resp) \<in> set (said s) \<or> closing resp)"
    if "(rid, r) \<in> set (calls s)" for rid r
  proof (cases "recv (cl_chans (cs s) ! r)")
    case (Some p)
    then obtain resp k where p: "p = (resp, k)" by (cases p)
    have "resp \<in> set (chan_buf (cl_chans (cs s) ! r))" using Some p by (auto simp: recv_def split: list.splits)
    then have "(rid, resp) \<in> set (said s) \<or> closing resp" using cinv_call[OF i that] cinv_held[OF i] by blast
    then show ?thesis using Some p by (auto simp: request_select_def)
  qed (simp add: request_select_def)
  have two: "alist_get (cl_pending (cs s)) rid = None \<or>
      (\<exists>c c2. handle_response rid resp (cs s) = Some c \<and> request_select WakeResponse rid r c = Some (rpc_result resp, c2))"
    if "(rid, r) \<in> set (calls s)" for rid r
  proof (cases "alist_get (cl_pending (cs s)) rid")
    case (Some q)
    have "(rid, q) \<in> set (cl_pending (cs s))" by (rule alist_get_Some_mem[OF Some])
    then have "rid = id_of q" using i waitsD unfolding cinv_def by blast
    moreover have "rid = id_of r" using cinv_call[OF i that] by simp
    ultimately have q: "q = r" by simp
    have said: "(rid, resp) \<in> set ((rid, resp) # said s)" "set (said s) \<subseteq> set ((rid, resp) # said s)" by auto
    obtain c where c: "handle_response rid resp (cs s) = Some c" "chan_buf (cl_chans c ! r) = [resp]"
      using response_delivered[OF i said] Some unfolding q by blast
    have "recv (cl_chans c ! r) = Some (resp, (cl_chans c ! r)\<lparr>chan_buf := []\<rparr>)" by (simp add: recv_def c(2))
    then have "request_select WakeResponse rid r c =
        Some (rpc_result resp, c\<lparr>cl_chans := (cl_chans c)[r := (cl_chans c ! r)\<lparr>chan_buf := []\<rparr>]\<rparr>)"
      by (simp add: request_select_def)
    with c(1) show ?thesis by blast
  qed simp
  show ?thesis
  proof (intro conjI)
    show "\<exists>eff c. handleLine line (cs s) = Some (eff, c)" using handleLine_total[OF i, of line] by blast
    show "\<exists>c. client_Close (cs s) = Some c" "\<exists>c. client_wait (cs s) = Some c" using close_total[OF i] wait_total[OF i] by blast+
  qed (unfold list_all_iff, intro ballI, rule case_prodI2, simp only: one two)
qed

subsection \<open>Ids of the server\<close>

text \<open>
  The id of a request is kept as text and written back as a string: a request whose id is a
  number gets a reply whose id is a string, so a server that looks its number up again does
  not find it.
\<close>

lemma digits_spaceless: "list_all (\<lambda>c. \<not> is_space (of_char c)) (digits n)"
  using digits_all[of n] by (auto simp: list_all_iff is_digit_def is_space_def Let_def)

lemma Itoa_trimmed: "TrimSpace (Itoa i) = Itoa i"
proof -
  have "ascii (Itoa i)" "list_all (\<lambda>c. \<not> is_space (of_char c)) (Itoa i)"
    using digits_all[of "nat i"] digits_all[of "nat (- i)"] digits_spaceless[of "nat i"] digits_spaceless[of "nat (- i)"]
    by (auto simp: Itoa_def ascii_def list_all_iff is_digit_def is_space_def Let_def)
  then show ?thesis
    by (simp add: TrimSpace_ascii dropWhile_eq_self_iff list_all_iff) (metis (no_types, lifting) dropWhile_eq_self_iff hd_in_set rev_rev_ident set_rev)
qed

lemma number_id_is_text: "compactID (Itoa i) = Itoa i"
proof -
  have "parse_json (marshal (GInt i)) = Some (wire (GInt i))" by (rule parse_marshal) (simp_all add: maxNestingDepth_def)
  then have "snd (unmarshal_string (Itoa i))" by (simp add: unmarshal_string_def str_field_def)
  moreover have "Itoa i \<noteq> []" using digits_nonempty by (auto simp: Itoa_def)
  moreover have "hd (Itoa i) \<noteq> CHR ''n''"
    using digits_all[of "nat i"] digits_nonempty[of "nat i"] by (cases "digits (nat i)") (auto simp: Itoa_def is_digit_def Let_def)
  then have "Itoa i \<noteq> ''null''" by auto
  ultimately show ?thesis by (auto simp: compactID_def Itoa_trimmed split: prod.split)
qed

lemma number_id_answered_as_string:
  "server_reply (Some (Inr raw)) \<lparr>rq_ID = compactID (marshal (GInt i)), rq_Method = m, rq_Params = p\<rparr> =
   Some (go_map [(''id'', GStr (Itoa i)), (''result'', if raw = [] \<or> raw = ''null'' then GObj [] else GRaw raw)])"
  using digits_nonempty by (simp add: server_reply_def number_id_is_text Itoa_trimmed reply_json_def) (simp add: Itoa_def)

subsection \<open>Witness\<close>

definition ex_waiting :: csys where
  "ex_waiting = \<lparr>cs = snd (request_begin (new_client ''stdio_isolated'' [])), calls = [(''1'', 0)], said = []\<rparr>"

lemma ex_waiting_reachable: "creachable ex_waiting"
proof -
  let ?s = "\<lparr>cs = new_client ''stdio_isolated'' [], calls = [], said = []\<rparr>"
  have one: "Itoa 1 = ''1''" by code_simp
  have "request_begin (cs ?s) = (Inr (''1'', 0), snd (request_begin (cs ?s)))"
    by (simp add: request_begin_def new_client_def alloc_def one Let_def)
  from c_begin[OF this] have "cstep ?s ex_waiting" by (simp add: ex_waiting_def)
  moreover have "reach cstart cstep ?s" by (rule reach.intros(1)) (auto simp: cstart_def)
  ultimately show ?thesis unfolding creachable_def by (rule reach.intros(2)[rotated])
qed

theorem responses_reach_their_requests_witness:
  "\<exists>c c2. handle_response ''1'' \<lparr>rr_Result = ''{}'', rr_Error = None\<rparr> (cs ex_waiting) = Some c \<and>
     request_select WakeResponse ''1'' 0 c = Some (Inr ''{}'', c2)"
proof -
  have one: "Itoa 1 = ''1''" by code_simp
  have w: "calls ex_waiting = [(''1'', 0)]" "alist_get (cl_pending (cs ex_waiting)) ''1'' = Some 0"
    by (simp_all add: ex_waiting_def request_begin_def new_client_def alloc_def one Let_def)
  have "rpc_result \<lparr>rr_Result = ''{}'', rr_Error = None\<rparr> = Inr ''{}''" by (simp add: rpc_result_def)
  with responses_reach_their_requests[OF ex_waiting_reachable, of "[]" "\<lparr>rr_Result = ''{}'', rr_Error = None\<rparr>"] w
  show ?thesis by auto
qed

end
