(* ===== verification/CodexDriver.thy ===== *)
theory CodexDriver
  imports SdkManager CodexClient PermissionApi
begin

section \<open>The Codex driver\<close>

text \<open>
  \<open>daemon/internal/agent/sdkdriver/codex_app.go\<close>: the driver of a Codex session. Every input
  becomes a turn of the app server; its notifications become events of the session, in the
  shape of Claude's records, and its approval requests go through the permission store. A
  handler returns what it does to the session as a list of effects, in order. The app server
  is outside: what it answers and when a timer fires are arguments.
\<close>

subsection \<open>State and effects\<close>

record codexItemState =
  ci_Type :: gostring
  ci_Command :: gostring
  ci_Cwd :: gostring
  ci_ToolUseEmitted :: bool
  ci_AgentText :: gostring
  ci_MessageEmitted :: bool

definition no_item :: codexItemState where
  "no_item = \<lparr>ci_Type = [], ci_Command = [], ci_Cwd = [], ci_ToolUseEmitted = False, ci_AgentText = [], ci_MessageEmitted = False\<rparr>"

text \<open>\<open>cx_app\<close>: an app server is running for the driver.\<close>

record CodexDriver = Driver +
  cx_app :: bool
  cx_threadID :: gostring
  cx_items :: "(gostring \<times> codexItemState) list"
  cx_turnID :: int
  cx_hadSignal :: bool
  cx_hadDurableOutput :: bool
  cx_lastError :: gostring
  cx_source :: gostring
  cx_fallback :: gostring

definition new_codex :: "DriverConfig \<Rightarrow> nat \<Rightarrow> time \<Rightarrow> CodexDriver" where
  "new_codex cfg session now =
     Driver.extend (sdk_New cfg session now)
       \<lparr>cx_app = False, cx_threadID = [], cx_items = [], cx_turnID = 0, cx_hadSignal = False, cx_hadDurableOutput = False,
        cx_lastError = [], cx_source = [], cx_fallback = []\<rparr>"

text \<open>An event of the session (which stays live), a binding of its metadata, and the end of the app server.\<close>

datatype cx_effect = CxEmit EventKind TurnStatus gostring gostring | CxBind gostring gostring | CxClose

definition run_effect :: "nat \<Rightarrow> time \<Rightarrow> cx_effect \<Rightarrow> Manager.Manager \<Rightarrow> panic + Manager.Manager" where
  "run_effect r now e m =
     (case e of
        CxEmit kind turn payload err \<Rightarrow> on_ext r (Emit kind SessionLive turn payload err now) m
      | CxBind sid cwd \<Rightarrow> Inr (bind_on r sid cwd now m)
      | CxClose \<Rightarrow> Inr m)"

definition run_effects :: "nat \<Rightarrow> time \<Rightarrow> cx_effect list \<Rightarrow> Manager.Manager \<Rightarrow> panic + Manager.Manager" where
  "run_effects r now es m = fold_sum (run_effect r now) es m"

type_synonym codex_act = "CodexDriver \<Rightarrow> cx_effect list \<times> CodexDriver"

definition cx_then :: "codex_act \<Rightarrow> codex_act \<Rightarrow> codex_act" where
  "cx_then f g d = (case f d of (e1, d1) \<Rightarrow> case g d1 of (e2, d2) \<Rightarrow> (e1 @ e2, d2))"

definition cx_skip :: codex_act where "cx_skip d = ([], d)"

definition cx_firstNonEmpty :: "gostring list \<Rightarrow> gostring" where
  "cx_firstNonEmpty vs = (case filter (\<lambda>v. TrimSpace v \<noteq> []) vs of [] \<Rightarrow> [] | v # _ \<Rightarrow> v)"

definition rawObjectOrEmpty :: "gostring \<Rightarrow> gval" where
  "rawObjectOrEmpty raw = (if raw = [] \<or> raw = ''null'' then GObj [] else GRaw raw)"

definition item_state :: "gostring \<Rightarrow> CodexDriver \<Rightarrow> codexItemState" where
  "item_state iid d = (case alist_get (cx_items d) iid of Some st \<Rightarrow> st | None \<Rightarrow> no_item)"

definition set_item :: "gostring \<Rightarrow> codexItemState \<Rightarrow> CodexDriver \<Rightarrow> CodexDriver" where
  "set_item iid st d = d\<lparr>cx_items := alist_put iid st (cx_items d)\<rparr>"

subsection \<open>Modes\<close>

definition CodexPermissionModes :: "gostring list" where
  "CodexPermissionModes = [''request-approval'', ''approve-for-me'', ''full-access'']"

definition CodexEffortLevels :: "gostring list" where
  "CodexEffortLevels = [''low'', ''medium'', ''high'', ''xhigh'']"

definition codexApprovalPolicy :: "gostring \<Rightarrow> gostring" where
  "codexApprovalPolicy mode =
     (let m = TrimSpace mode in
      if m = [] then []
      else if m \<in> {''approve-for-me'', ''auto'', ''acceptEdits''} then ''on-failure''
      else if m \<in> {''full-access'', ''bypassPermissions'', ''dontAsk''} then ''never''
      else ''on-request'')"

definition codexSandbox :: "gostring \<Rightarrow> gostring" where
  "codexSandbox mode =
     (let m = TrimSpace mode in
      if m = [] then []
      else if m \<in> {''full-access'', ''bypassPermissions'', ''dontAsk''} then ''danger-full-access''
      else ''workspace-write'')"

subsection \<open>Records in the shape of Claude's\<close>

definition markCodexTurnSignal :: "CodexDriver \<Rightarrow> CodexDriver" where
  "markCodexTurnSignal d = d\<lparr>cx_hadSignal := True\<rparr>"

definition markCodexTurnDurableOutput :: "CodexDriver \<Rightarrow> CodexDriver" where
  "markCodexTurnDurableOutput d = d\<lparr>cx_hadSignal := True, cx_hadDurableOutput := True\<rparr>"

definition claude_row :: "gostring \<Rightarrow> gostring \<Rightarrow> gval \<Rightarrow> gostring" where
  "claude_row role uuid part =
     marshal (go_map [(''type'', GStr role), (''uuid'', GStr uuid),
       (''message'', go_map [(''role'', GStr role), (''content'', GArr [part])])])"

definition emit_row :: "gostring \<Rightarrow> codex_act" where
  "emit_row raw d = ([CxEmit EventMessageAdded TurnStreaming raw []], markCodexTurnDurableOutput d)"

definition text_part :: "gostring \<Rightarrow> gval" where
  "text_part t = go_map [(''type'', GStr ''text''), (''text'', GStr t)]"

definition emitClaudeLikeText :: "gostring \<Rightarrow> gostring \<Rightarrow> gostring \<Rightarrow> codex_act" where
  "emitClaudeLikeText role uuid t d =
     (if TrimSpace t = [] then ([], d) else emit_row (claude_row role uuid (text_part t)) d)"

definition emitClaudeLikeThinking :: "gostring \<Rightarrow> gostring \<Rightarrow> codex_act" where
  "emitClaudeLikeThinking uuid t d =
     (if TrimSpace t = [] then ([], d)
      else emit_row (claude_row ''assistant'' uuid (go_map [(''type'', GStr ''thinking''), (''thinking'', GStr t)])) d)"

definition emitClaudeLikeToolUse :: "gostring \<Rightarrow> gostring \<Rightarrow> gostring \<Rightarrow> codex_act" where
  "emitClaudeLikeToolUse iid name input =
     emit_row (claude_row ''assistant'' iid (go_map [(''type'', GStr ''tool_use''), (''id'', GStr iid), (''name'', GStr name),
       (''input'', rawObjectOrEmpty input)]))"

definition emitClaudeLikeToolResult :: "gostring \<Rightarrow> gostring \<Rightarrow> bool \<Rightarrow> codex_act" where
  "emitClaudeLikeToolResult iid result isErr =
     emit_row (claude_row ''user'' (iid @ ''-result'') (go_map [(''type'', GStr ''tool_result''), (''tool_use_id'', GStr iid),
       (''content'', GStr result), (''is_error'', GBool isErr)]))"

definition emitCodexToolUseOnce :: "gostring \<Rightarrow> gostring \<Rightarrow> gval \<Rightarrow> codex_act" where
  "emitCodexToolUseOnce iid name input d =
     (if TrimSpace iid = [] then ([], d)
      else let st = item_state iid d in
        if ci_ToolUseEmitted st then ([], d)
        else emitClaudeLikeToolUse iid name (marshal input) (set_item iid (st\<lparr>ci_ToolUseEmitted := True\<rparr>) d))"

text \<open>Texts that were streamed but whose item was never completed (Go walks the map in any order).\<close>

definition unemitted :: "gostring \<times> codexItemState \<Rightarrow> bool" where
  "unemitted p \<longleftrightarrow> \<not> ci_MessageEmitted (snd p) \<and> TrimSpace (ci_AgentText (snd p)) \<noteq> []"

definition flushUnemittedCodexAgentText :: codex_act where
  "flushUnemittedCodexAgentText d =
     (let pending = filter unemitted (cx_items d);
          d1 = d\<lparr>cx_items := map (\<lambda>p. if unemitted p then (fst p, (snd p)\<lparr>ci_MessageEmitted := True\<rparr>) else p) (cx_items d)\<rparr>
      in foldr cx_then (map (\<lambda>p. emitClaudeLikeText ''assistant'' (fst p) (ci_AgentText (snd p))) pending) cx_skip d1)"

subsection \<open>Items\<close>

text \<open>The \<open>item\<close> of the parameters, as text.\<close>

definition params_item :: "gostring \<Rightarrow> gostring option" where
  "params_item raw =
     (case unmarshal_struct [(''item'', raw_field (\<lambda>s _. s))] [] raw of
        (item, err) \<Rightarrow> if err \<or> item = [] then None else Some item)"

record started_item =
  si_ID :: gostring
  si_Type :: gostring
  si_Command :: gostring
  si_ItemCwd :: gostring

definition started_fields :: "(gostring \<times> started_item decoder) list" where
  "started_fields =
     [(''id'', str_field (\<lambda>s. si_ID_update (\<lambda>_. s))), (''type'', str_field (\<lambda>s. si_Type_update (\<lambda>_. s))),
      (''command'', str_field (\<lambda>s. si_Command_update (\<lambda>_. s))), (''cwd'', str_field (\<lambda>s. si_ItemCwd_update (\<lambda>_. s)))]"

definition command_input :: "gostring \<Rightarrow> gostring \<Rightarrow> gval" where
  "command_input command cwd = go_map [(''command'', GStr command), (''cwd'', GStr cwd)]"

definition parse_started :: "gostring \<Rightarrow> (gostring \<times> started_item) option" where
  "parse_started raw =
     (case params_item raw of
        None \<Rightarrow> None
      | Some item \<Rightarrow>
          (case unmarshal_struct started_fields \<lparr>si_ID = [], si_Type = [], si_Command = [], si_ItemCwd = []\<rparr> item of
             (it, err) \<Rightarrow> if err \<or> si_ID it = [] then None else Some (item, it)))"

definition started_state :: "started_item \<Rightarrow> codexItemState \<Rightarrow> codexItemState" where
  "started_state it st0 =
     (let st1 = st0\<lparr>ci_Type := si_Type it\<rparr>;
          st2 = (if si_Command it \<noteq> [] then st1\<lparr>ci_Command := si_Command it\<rparr> else st1)
      in if si_ItemCwd it \<noteq> [] then st2\<lparr>ci_Cwd := si_ItemCwd it\<rparr> else st2)"

definition handleCodexItemStarted :: "gostring \<Rightarrow> codex_act" where
  "handleCodexItemStarted raw d =
     (case parse_started raw of
        None \<Rightarrow> ([], d)
      | Some (item, it) \<Rightarrow>
          let st = started_state it (item_state (si_ID it) d);
              d1 = set_item (si_ID it) st d
          in if si_Type it = ''commandExecution''
             then emitCodexToolUseOnce (si_ID it) ''Bash'' (command_input (ci_Command st) (ci_Cwd st)) d1
             else if si_Type it = ''fileChange'' then emitCodexToolUseOnce (si_ID it) ''ApplyPatch'' (rawObjectOrEmpty item) d1
             else ([], d1))"

text \<open>Pointers to scalars and a slice of strings.\<close>

definition opt_str_field :: "(gostring option \<Rightarrow> 'r \<Rightarrow> 'r) \<Rightarrow> 'r decoder" where
  "opt_str_field upd raw v r = (case v of JStr s \<Rightarrow> (upd (Some s) r, False) | JNull \<Rightarrow> (upd None r, False) | _ \<Rightarrow> (r, True))"

definition opt_bool_field :: "(bool option \<Rightarrow> 'r \<Rightarrow> 'r) \<Rightarrow> 'r decoder" where
  "opt_bool_field upd raw v r = (case v of JBool b \<Rightarrow> (upd (Some b) r, False) | JNull \<Rightarrow> (upd None r, False) | _ \<Rightarrow> (r, True))"

definition opt_int_field :: "(int option \<Rightarrow> 'r \<Rightarrow> 'r) \<Rightarrow> 'r decoder" where
  "opt_int_field upd raw v r =
     (case v of JNull \<Rightarrow> (upd None r, False)
      | _ \<Rightarrow> (case int_field (\<lambda>i _. i) raw v 0 of (i, e) \<Rightarrow> if e then (r, True) else (upd (Some i) r, False)))"

definition strs_field :: "(gostring list \<Rightarrow> 'r \<Rightarrow> 'r) \<Rightarrow> 'r decoder" where
  "strs_field upd raw v r =
     (case v of
        JNull \<Rightarrow> (upd [] r, False)
      | JArr es \<Rightarrow>
          (let ds = map (\<lambda>(raw, x). str_field (\<lambda>s _. s) raw x []) es in (upd (map fst ds) r, list_ex snd ds))
      | _ \<Rightarrow> (r, True))"

record completed_item =
  ic_ID :: gostring
  ic_Type :: gostring
  ic_Text :: gostring
  ic_Content :: "gostring list"
  ic_Summary :: "gostring list"
  ic_AggregatedOutput :: "gostring option"
  ic_ExitCode :: "int option"
  ic_Status :: gostring
  ic_Changes :: gostring
  ic_Server :: gostring
  ic_Tool :: gostring
  ic_Arguments :: gostring
  ic_Result :: gostring
  ic_Error :: gostring
  ic_Namespace :: gostring
  ic_ContentItems :: gostring
  ic_Success :: "bool option"

definition empty_item :: completed_item where
  "empty_item =
     \<lparr>ic_ID = [], ic_Type = [], ic_Text = [], ic_Content = [], ic_Summary = [], ic_AggregatedOutput = None, ic_ExitCode = None,
      ic_Status = [], ic_Changes = [], ic_Server = [], ic_Tool = [], ic_Arguments = [], ic_Result = [], ic_Error = [],
      ic_Namespace = [], ic_ContentItems = [], ic_Success = None\<rparr>"

definition completed_fields :: "(gostring \<times> completed_item decoder) list" where
  "completed_fields =
     [(''id'', str_field (\<lambda>s. ic_ID_update (\<lambda>_. s))), (''type'', str_field (\<lambda>s. ic_Type_update (\<lambda>_. s))),
      (''text'', str_field (\<lambda>s. ic_Text_update (\<lambda>_. s))), (''content'', strs_field (\<lambda>l. ic_Content_update (\<lambda>_. l))),
      (''summary'', strs_field (\<lambda>l. ic_Summary_update (\<lambda>_. l))),
      (''aggregatedOutput'', opt_str_field (\<lambda>s. ic_AggregatedOutput_update (\<lambda>_. s))),
      (''exitCode'', opt_int_field (\<lambda>i. ic_ExitCode_update (\<lambda>_. i))), (''status'', str_field (\<lambda>s. ic_Status_update (\<lambda>_. s))),
      (''changes'', raw_field (\<lambda>s. ic_Changes_update (\<lambda>_. s))), (''server'', str_field (\<lambda>s. ic_Server_update (\<lambda>_. s))),
      (''tool'', str_field (\<lambda>s. ic_Tool_update (\<lambda>_. s))), (''arguments'', raw_field (\<lambda>s. ic_Arguments_update (\<lambda>_. s))),
      (''result'', raw_field (\<lambda>s. ic_Result_update (\<lambda>_. s))), (''error'', raw_field (\<lambda>s. ic_Error_update (\<lambda>_. s))),
      (''namespace'', str_field (\<lambda>s. ic_Namespace_update (\<lambda>_. s))), (''contentItems'', raw_field (\<lambda>s. ic_ContentItems_update (\<lambda>_. s))),
      (''success'', opt_bool_field (\<lambda>b. ic_Success_update (\<lambda>_. b)))]"

definition status_text :: "completed_item \<Rightarrow> gostring" where
  "status_text it = ''status='' @ ic_Status it"

definition or_status :: "completed_item \<Rightarrow> gostring \<Rightarrow> gostring" where
  "or_status it raw = (if raw = [] \<or> raw = ''null'' then status_text it else raw)"

text \<open>The text of a completed message: its own, or what was streamed when that is blank.\<close>

definition completed_message :: "completed_item \<Rightarrow> codex_act" where
  "completed_message it d =
     (let st = item_state (ic_ID it) d;
          t = (if TrimSpace (ic_Text it) = [] then ci_AgentText st else ic_Text it)
      in emitClaudeLikeText ''assistant'' (ic_ID it) t (set_item (ic_ID it) (st\<lparr>ci_MessageEmitted := True\<rparr>) d))"

definition qualified_tool :: "gostring \<Rightarrow> gostring \<Rightarrow> gostring \<Rightarrow> gostring" where
  "qualified_tool space tool dflt =
     (let t = (if space \<noteq> [] then space @ ''.'' @ tool else tool) in if t = [] then dflt else t)"

definition completed_item_act :: "completed_item \<Rightarrow> codex_act" where
  "completed_item_act it =
     (if ic_Type it = ''agentMessage'' then completed_message it
      else if ic_Type it = ''reasoning''
      then emitClaudeLikeThinking (ic_ID it) (Join (ic_Summary it @ ic_Content it) [CHR 0x0A, CHR 0x0A])
      else if ic_Type it = ''commandExecution''
      then let out = (case ic_AggregatedOutput it of Some s \<Rightarrow> s | None \<Rightarrow> []) in
        emitClaudeLikeToolResult (ic_ID it) (if out = [] then status_text it else out)
          (case ic_ExitCode it of Some c \<Rightarrow> c \<noteq> 0 | None \<Rightarrow> False)
      else if ic_Type it = ''fileChange''
      then emitClaudeLikeToolResult (ic_ID it) (or_status it (ic_Changes it)) (ic_Status it = ''failed'')
      else if ic_Type it = ''mcpToolCall''
      then cx_then
        (emitCodexToolUseOnce (ic_ID it) (qualified_tool (ic_Server it) (ic_Tool it) ''MCP'') (rawObjectOrEmpty (ic_Arguments it)))
        (emitClaudeLikeToolResult (ic_ID it) (cx_firstNonEmpty [ic_Result it, ic_Error it, status_text it])
          (ic_Error it \<noteq> [] \<and> ic_Error it \<noteq> ''null''))
      else if ic_Type it = ''dynamicToolCall''
      then cx_then
        (emitCodexToolUseOnce (ic_ID it) (qualified_tool (ic_Namespace it) (ic_Tool it) ''Tool'') (rawObjectOrEmpty (ic_Arguments it)))
        (emitClaudeLikeToolResult (ic_ID it) (or_status it (ic_ContentItems it)) (ic_Success it = Some False))
      else cx_skip)"

definition parse_completed :: "gostring \<Rightarrow> completed_item option" where
  "parse_completed raw =
     (case params_item raw of
        None \<Rightarrow> None
      | Some item \<Rightarrow>
          (case unmarshal_struct completed_fields empty_item item of
             (it, err) \<Rightarrow> if err \<or> ic_ID it = [] then None else Some it))"

definition handleCodexItemCompleted :: "gostring \<Rightarrow> codex_act" where
  "handleCodexItemCompleted raw = (case parse_completed raw of None \<Rightarrow> cx_skip | Some it \<Rightarrow> completed_item_act it)"

subsection \<open>Streamed output\<close>

record delta_params =
  dp_ItemID :: gostring
  dp_Delta :: gostring

definition parse_delta :: "gostring \<Rightarrow> delta_params option" where
  "parse_delta raw =
     (case unmarshal_struct [(''itemId'', str_field (\<lambda>s. dp_ItemID_update (\<lambda>_. s))), (''delta'', str_field (\<lambda>s. dp_Delta_update (\<lambda>_. s)))]
        \<lparr>dp_ItemID = [], dp_Delta = []\<rparr> raw of
        (p, err) \<Rightarrow> if err \<or> dp_Delta p = [] then None else Some p)"

definition text_delta :: "gostring \<Rightarrow> cx_effect" where
  "text_delta t = CxEmit EventTextDelta TurnStreaming t []"

definition handleCodexCommandOutputDelta :: "gostring \<Rightarrow> codex_act" where
  "handleCodexCommandOutputDelta raw d =
     (case parse_delta raw of
        Some p \<Rightarrow> if dp_ItemID p = [] then ([], d) else ([text_delta (dp_Delta p)], d)
      | None \<Rightarrow> ([], d))"

text \<open>\<open>item/agentMessage/delta\<close>: the text goes out and is collected under its item.\<close>

definition agent_delta :: "gostring \<Rightarrow> codex_act" where
  "agent_delta raw d =
     (case parse_delta raw of
        None \<Rightarrow> ([], d)
      | Some p \<Rightarrow>
          let d1 = markCodexTurnSignal d;
              st = item_state (dp_ItemID p) d1;
              d2 = (if dp_ItemID p \<noteq> [] then set_item (dp_ItemID p) (st\<lparr>ci_AgentText := ci_AgentText st @ dp_Delta p\<rparr>) d1 else d1)
          in (if TrimSpace (dp_Delta p) \<noteq> [] then [text_delta (dp_Delta p)] else [], d2))"

subsection \<open>Errors\<close>

definition compactStringParts :: "gostring list \<Rightarrow> gostring list" where
  "compactStringParts parts = take 4 (rev (fold (\<lambda>p acc. let t = TrimSpace p in if t = [] \<or> t \<in> set acc then acc else t # acc) parts []))"

text \<open>The first argument is the number of levels that are left.\<close>

fun codexErrorParts :: "nat \<Rightarrow> json \<Rightarrow> gostring list" where
  "codexErrorParts 0 v = []"
| "codexErrorParts (Suc n) v =
     (case v of
        JStr s \<Rightarrow> (let t = TrimSpace s in if t = [] then [] else [t])
      | JObj ms \<Rightarrow>
          (let m = fold (\<lambda>(k, raw, x). alist_put k x) ms [] in
           compactStringParts (concat (map (\<lambda>k. case alist_get m k of Some x \<Rightarrow> codexErrorParts n x | None \<Rightarrow> [])
             [''code'', ''type'', ''reason'', ''message'', ''error'', ''details'', ''detail''])))
      | JArr es \<Rightarrow> compactStringParts (concat (map (\<lambda>(raw, x). codexErrorParts n x) es))
      | _ \<Rightarrow> [])"

definition codexNotificationErrorMessage :: "gostring \<Rightarrow> gostring" where
  "codexNotificationErrorMessage raw =
     (if raw = [] \<or> raw = ''null'' then []
      else case parse_json raw of
        None \<Rightarrow> TrimSpace raw
      | Some v \<Rightarrow> (let parts = codexErrorParts 5 v in if parts = [] then TrimSpace raw else Join parts '': ''))"

subsection \<open>Notifications\<close>

definition agent_error :: "gostring \<Rightarrow> cx_effect" where
  "agent_error msg = CxEmit EventAgentError TurnAwaitingInput [] msg"

definition prompt_ready :: cx_effect where
  "prompt_ready = CxEmit EventPromptReady TurnAwaitingInput [] []"

definition end_turn :: "time \<Rightarrow> CodexDriver \<Rightarrow> CodexDriver" where
  "end_turn now d = d\<lparr>dr_turnInFlight := False, cx_turnID := cx_turnID d + 1, dr_lastActivity := now\<rparr>"

definition empty_turn_text :: "CodexDriver \<Rightarrow> gostring" where
  "empty_turn_text d =
     (if TrimSpace (cx_lastError d) \<noteq> [] then ''codex_turn_error: '' @ TrimSpace (cx_lastError d)
      else ''codex_turn_empty: Codex completed the turn without emitting any message or tool event'')"

definition turn_completed :: "time \<Rightarrow> codex_act" where
  "turn_completed now d0 =
     (case flushUnemittedCodexAgentText d0 of
        (es, d) \<Rightarrow>
          let d1 = end_turn now d in
          if \<not> cx_hadDurableOutput d
          then (es @ [agent_error (empty_turn_text d), prompt_ready], markCodexTurnDurableOutput d1)
          else (es @ [prompt_ready], d1))"

definition handleCodexNotification :: "time \<Rightarrow> Notification \<Rightarrow> codex_act" where
  "handleCodexNotification now n d =
     (if nf_Method n = ''item/started'' then handleCodexItemStarted (nf_Params n) (markCodexTurnSignal d)
      else if nf_Method n = ''item/completed'' then handleCodexItemCompleted (nf_Params n) (markCodexTurnSignal d)
      else if nf_Method n = ''item/commandExecution/outputDelta'' then handleCodexCommandOutputDelta (nf_Params n) (markCodexTurnSignal d)
      else if nf_Method n = ''item/agentMessage/delta'' then agent_delta (nf_Params n) d
      else if nf_Method n = ''error''
      then let d1 = markCodexTurnSignal d; msg = codexNotificationErrorMessage (nf_Params n) in
        ([], if msg \<noteq> [] then d1\<lparr>cx_lastError := msg\<rparr> else d1)
      else if nf_Method n = ''turn/completed'' then turn_completed now d
      else ([], markCodexTurnSignal d))"

subsection \<open>Turns\<close>

definition codexTurnTimeout :: duration where "codexTurnTimeout = 120 * second"

text \<open>What the factory answers: an error text, or the source of the server and the reason of a fallback.\<close>

definition startCodexApp :: "gostring + (gostring \<times> gostring) \<Rightarrow> CodexDriver \<Rightarrow> gostring option \<times> CodexDriver" where
  "startCodexApp start d =
     (if cx_app d then (None, d)
      else case start of
        Inl err \<Rightarrow> (Some err, d)
      | Inr (source, reason) \<Rightarrow> (None, d\<lparr>cx_app := True, cx_source := source, cx_fallback := reason\<rparr>))"

definition codexAppServerUnavailableError :: "gostring option \<Rightarrow> gostring" where
  "codexAppServerUnavailableError err =
     ''codex_app_server_unavailable: please upgrade Codex CLI to >= 0.130.0'' @ (case err of None \<Rightarrow> [] | Some e \<Rightarrow> '': '' @ e)"

definition closeCodexApp :: codex_act where
  "closeCodexApp d =
     (if cx_app d then [CxClose] else [], d\<lparr>cx_app := False, cx_source := [], cx_fallback := [], cx_threadID := []\<rparr>)"

text \<open>The request that loads the thread.\<close>

definition thread_request :: "DriverConfig \<Rightarrow> gostring \<times> gval" where
  "thread_request cfg =
     (let policy = codexApprovalPolicy (cf_PermissionMode cfg); sandbox = codexSandbox (cf_PermissionMode cfg) in
      if cf_NewSession cfg
      then (''thread/start'', thread_start_map \<lparr>ts_Cwd = cf_Cwd cfg, ts_Model = TrimSpace (cf_Model cfg), ts_ApprovalPolicy = policy,
             ts_Sandbox = sandbox\<rparr>)
      else (''thread/resume'', thread_resume_map \<lparr>tr_ThreadID = cf_SessionID cfg, tr_Path = cf_ResumePath cfg, tr_Cwd = cf_Cwd cfg,
             tr_Model = TrimSpace (cf_Model cfg), tr_ApprovalPolicy = policy, tr_Sandbox = sandbox\<rparr>))"

definition ensureCodexThread :: "gostring + ThreadStartResult \<Rightarrow> CodexDriver \<Rightarrow> (gostring + gostring) \<times> cx_effect list \<times> CodexDriver" where
  "ensureCodexThread res d =
     (if \<not> cx_app d then (Inl ''codex app-server not started'', [], d)
      else if cx_threadID d \<noteq> [] then (Inr (cx_threadID d), [], d)
      else case res of
        Inl err \<Rightarrow> (Inl err, [], d)
      | Inr r \<Rightarrow> (Inr (th_ThreadID r), [CxBind (th_ThreadID r) (cx_firstNonEmpty [th_Cwd r, cf_Cwd (dr_cfg d)])],
          d\<lparr>cx_threadID := th_ThreadID r\<rparr>))"

definition turn_request :: "DriverConfig \<Rightarrow> gostring \<Rightarrow> gostring \<Rightarrow> gval" where
  "turn_request cfg thread prompt =
     turn_start_map \<lparr>tu_ThreadID = thread, tu_Cwd = cf_Cwd cfg, tu_Model = TrimSpace (cf_Model cfg), tu_Effort = TrimSpace (cf_Effort cfg),
       tu_ApprovalPolicy = codexApprovalPolicy (cf_PermissionMode cfg), tu_Text = prompt\<rparr>"

text \<open>
  \<open>runCodexTurn\<close> up to \<open>TurnStart\<close>: the number of the turn, for which a watchdog runs from now
  on, or nothing when the app server or the thread is not to be had.
\<close>

definition begin_turn :: "time \<Rightarrow> gostring \<Rightarrow> CodexDriver \<Rightarrow> cx_effect list \<times> CodexDriver" where
  "begin_turn now prompt d =
     ([CxEmit EventUserInput TurnSubmitted prompt []],
      d\<lparr>dr_turnInFlight := True, cx_turnID := cx_turnID d + 1, cx_hadSignal := False, cx_hadDurableOutput := False,
        cx_lastError := [], dr_lastActivity := now\<rparr>)"

definition runCodexTurn ::
  "gostring + (gostring \<times> gostring) \<Rightarrow> gostring + ThreadStartResult \<Rightarrow> time \<Rightarrow> gostring \<Rightarrow> CodexDriver \<Rightarrow>
   int option \<times> cx_effect list \<times> CodexDriver" where
  "runCodexTurn start thread now prompt d =
     (case startCodexApp start d of
        (Some err, d1) \<Rightarrow> (None, [agent_error (codexAppServerUnavailableError (Some err)), prompt_ready], d1)
      | (None, d1) \<Rightarrow>
          (case ensureCodexThread thread d1 of
             (Inl err, es, d2) \<Rightarrow> (None, es @ [agent_error err, prompt_ready], d2)
           | (Inr _, es, d2) \<Rightarrow>
               (case begin_turn now prompt d2 of (es2, d3) \<Rightarrow> (Some (cx_turnID d3), es @ es2, d3))))"

text \<open>\<open>TurnStart\<close> has failed, perhaps because it took too long.\<close>

definition turn_timeout_text :: "gostring \<Rightarrow> gostring" where
  "turn_timeout_text what = ''codex_turn_timeout: '' @ what @ '' within 2m0s''"

definition turn_start_failed :: "int \<Rightarrow> bool \<Rightarrow> gostring \<Rightarrow> time \<Rightarrow> codex_act" where
  "turn_start_failed turnID deadline err now d =
     (if cx_turnID d \<noteq> turnID then ([], d)
      else let d1 = end_turn now d in
        if deadline
        then (case closeCodexApp d1 of (es, d2) \<Rightarrow> (es @ [agent_error (turn_timeout_text ''turn/start produced no result''), prompt_ready], d2))
        else ([agent_error err, prompt_ready], d1))"

definition turn_timed_out :: "time \<Rightarrow> codex_act" where
  "turn_timed_out now d =
     (case closeCodexApp (end_turn now d) of (es, d1) \<Rightarrow> (es @ [agent_error (turn_timeout_text ''turn did not complete''), prompt_ready], d1))"

text \<open>The watchdog of a turn, when its timer fires.\<close>

definition watchCodexTurnCompletion :: "int \<Rightarrow> time \<Rightarrow> codex_act" where
  "watchCodexTurnCompletion turnID now d =
     (if \<not> dr_turnInFlight d \<or> cx_turnID d \<noteq> turnID then ([], d) else turn_timed_out now d)"

definition timeoutCodexTurnFromReaper :: "time \<Rightarrow> CodexDriver \<Rightarrow> bool \<times> cx_effect list \<times> CodexDriver" where
  "timeoutCodexTurnFromReaper now d =
     (if cf_Agent (dr_cfg d) \<noteq> AgentCodex \<or> \<not> dr_turnInFlight d \<or> now - dr_lastActivity d < codexTurnTimeout then (False, [], d)
      else (case turn_timed_out now d of (es, d1) \<Rightarrow> (True, es, d1)))"

text \<open>\<open>pumpCodexInputs\<close>: an input from the channel; a blank line is no turn.\<close>

definition pumpCodexInputs ::
  "gostring + (gostring \<times> gostring) \<Rightarrow> gostring + ThreadStartResult \<Rightarrow> time \<Rightarrow> gostring \<Rightarrow> CodexDriver \<Rightarrow>
   int option \<times> cx_effect list \<times> CodexDriver" where
  "pumpCodexInputs start thread now raw d =
     (let t = TrimRight raw [CHR 0x0D, CHR 0x0A] in
      if t = [] then (None, [], d) else runCodexTurn start thread now t d)"

subsection \<open>Approvals\<close>

definition codexApprovalInput :: "(gostring \<Rightarrow> gostring option) \<Rightarrow> ServerRequest \<Rightarrow> gostring \<times> gostring \<times> gostring" where
  "codexApprovalInput num req =
     (let input = marshal (case parse_json (rq_Params req) of Some (JObj ms) \<Rightarrow> any_value num (JObj ms) | _ \<Rightarrow> GNull) in
      if rq_Method req = ''item/commandExecution/requestApproval'' then (''Bash'', input, ''command'')
      else if rq_Method req = ''item/fileChange/requestApproval'' then (''FileChange'', input, ''file'')
      else if rq_Method req = ''item/permissions/requestApproval'' then (''Permissions'', input, ''permissions'')
      else ([], [], []))"

record approval_params =
  ap_ItemID :: gostring
  ap_Command :: gostring
  ap_Cwd :: gostring

definition no_approval :: approval_params where "no_approval = \<lparr>ap_ItemID = [], ap_Command = [], ap_Cwd = []\<rparr>"

definition item_id_field :: "(gostring \<times> approval_params decoder) list" where
  "item_id_field = [(''itemId'', str_field (\<lambda>s. ap_ItemID_update (\<lambda>_. s)))]"

definition command_fields :: "(gostring \<times> approval_params decoder) list" where
  "command_fields =
     item_id_field @ [(''command'', str_field (\<lambda>s. ap_Command_update (\<lambda>_. s))), (''cwd'', str_field (\<lambda>s. ap_Cwd_update (\<lambda>_. s)))]"

definition emitCodexApprovalToolUse :: "ServerRequest \<Rightarrow> gostring \<Rightarrow> gostring \<Rightarrow> gostring \<Rightarrow> codex_act" where
  "emitCodexApprovalToolUse req toolName input kind =
     (if kind = ''command''
      then let p = fst (unmarshal_struct command_fields no_approval (rq_Params req)) in
        emitCodexToolUseOnce (cx_firstNonEmpty [ap_ItemID p, rq_ID req]) toolName (command_input (ap_Command p) (ap_Cwd p))
      else if kind = ''file''
      then let p = fst (unmarshal_struct item_id_field no_approval (rq_Params req)) in
        emitCodexToolUseOnce (cx_firstNonEmpty [ap_ItemID p, rq_ID req]) toolName (rawObjectOrEmpty input)
      else cx_skip)"

definition approval_event :: "gostring \<Rightarrow> ServerRequest \<Rightarrow> gostring \<Rightarrow> gostring \<Rightarrow> cx_effect" where
  "approval_event ts req toolName input =
     CxEmit ''permission_request'' TurnStreaming
       (marshal (go_map [(''tool_name'', GStr toolName), (''input'', rawObjectOrEmpty input), (''decision'', GStr ''pending''),
          (''reason'', GStr ''awaiting web decision''), (''ts'', GStr ts), (''request_id'', GStr (rq_ID req)), (''agent'', GStr ''codex'')])) []"

text \<open>
  \<open>handleCodexServerRequest\<close> up to the wait: an error, or the kind of the answer. A request
  that is in the store already is waited for like a new one. \<open>session\<close> is the session id the
  external session is bound to.
\<close>

definition approval_request :: "CodexDriver \<Rightarrow> gostring \<Rightarrow> ServerRequest \<Rightarrow> gostring \<Rightarrow> gostring \<Rightarrow> Request" where
  "approval_request d session req toolName input =
     \<lparr>ID = rq_ID req, TerminalSessionID = cf_TerminalSessionID (dr_cfg d), ClaudeSessionID = session, ToolName = toolName,
      Input = input, CreatedAt = 0\<rparr>"

definition approval_register :: "time \<Rightarrow> Request \<Rightarrow> Store \<Rightarrow> gostring option \<times> Store" where
  "approval_register now r s =
     (case Register now r s of
        Inr t \<Rightarrow> (None, t)
      | Inl ErrAlreadyExists \<Rightarrow> (None, s)
      | Inl e \<Rightarrow> (Some (perm_error_text [] e), s))"

definition approval_open ::
  "time \<Rightarrow> gostring \<Rightarrow> (gostring \<Rightarrow> gostring option) \<Rightarrow> gostring \<Rightarrow> ServerRequest \<Rightarrow> CodexDriver \<Rightarrow> Store \<Rightarrow>
   (gostring + gostring) \<times> cx_effect list \<times> CodexDriver \<times> Store" where
  "approval_open now ts num session req d s =
     (case codexApprovalInput num req of
        (toolName, input, kind) \<Rightarrow>
          if toolName = [] then (Inl (''unsupported codex server request: '' @ rq_Method req), [], d, s)
          else case emitCodexApprovalToolUse req toolName input kind d of
            (es, d1) \<Rightarrow>
              (case approval_register now (approval_request d session req toolName input) s of
                 (Some err, s1) \<Rightarrow> (Inl err, es, d1, s1)
               | (None, s1) \<Rightarrow> (Inr kind, es @ [approval_event ts req toolName input], d1, s1)))"

text \<open>The answer, once the wait is over.\<close>

definition permissions_of :: "gostring \<Rightarrow> gostring" where
  "permissions_of raw = fst (unmarshal_struct [(''permissions'', raw_field (\<lambda>s _. s))] [] raw)"

definition approval_answer :: "gostring \<Rightarrow> gostring \<Rightarrow> ServerRequest \<Rightarrow> perm_error + Outcome \<Rightarrow> gostring + gostring" where
  "approval_answer ctx kind req res =
     (case res of
        Inl e \<Rightarrow> Inl (perm_error_text ctx e)
      | Inr out \<Rightarrow>
          let accepted = out_Decision out = DecisionAllow in
          if kind = ''command'' \<or> kind = ''file''
          then Inr (marshal (go_map [(''decision'', GStr (if accepted then ''accept'' else ''decline''))]))
          else if kind = ''permissions''
          then Inr (marshal (go_map [(''permissions'', if accepted then rawObjectOrEmpty (permissions_of (rq_Params req)) else GObj []),
                 (''scope'', GStr ''turn'')]))
          else Inl (''unsupported codex approval response kind: '' @ kind))"

end
