(* ===== verification/CodexTurns.thy ===== *)
theory CodexTurns
  imports CodexDriver
begin

section \<open>Turns of a Codex session\<close>

subsection \<open>What a handler may do\<close>

text \<open>The notifications of the app server, in order, with the times of their handling.\<close>

fun hear :: "(time \<times> Notification) list \<Rightarrow> codex_act" where
  "hear [] = cx_skip"
| "hear (n # ns) = cx_then (handleCodexNotification (fst n) (snd n)) (hear ns)"

definition within_turn :: "(time \<times> Notification) list \<Rightarrow> bool" where
  "within_turn ns \<longleftrightarrow> list_all (\<lambda>n. nf_Method (snd n) \<noteq> ''turn/completed'') ns"

definition has_row :: "cx_effect list \<Rightarrow> bool" where
  "has_row es \<longleftrightarrow> list_ex (\<lambda>e. case e of CxEmit k t p err \<Rightarrow> k = EventMessageAdded | _ \<Rightarrow> False) es"

lemma has_row_append [simp]: "has_row (es @ fs) \<longleftrightarrow> has_row es \<or> has_row fs"
  by (simp add: has_row_def)

text \<open>
  A handler that leaves the turn alone: its number, its activity time and whether it runs; and
  that records durable output just when a row goes out.
\<close>

definition same_turn :: "CodexDriver \<Rightarrow> CodexDriver \<Rightarrow> bool" where
  "same_turn d e \<longleftrightarrow> dr_turnInFlight e = dr_turnInFlight d \<and> cx_turnID e = cx_turnID d \<and> dr_lastActivity e = dr_lastActivity d \<and>
     dr_cfg e = dr_cfg d \<and> cx_app e = cx_app d"

definition turn_kept :: "CodexDriver \<Rightarrow> cx_effect list \<times> CodexDriver \<Rightarrow> bool" where
  "turn_kept d p \<longleftrightarrow> same_turn d (snd p) \<and> cx_hadDurableOutput (snd p) = (cx_hadDurableOutput d \<or> has_row (fst p))"

lemma same_turn_refl [simp]: "same_turn d d" by (simp add: same_turn_def)

lemma same_turn_trans: "same_turn d e \<Longrightarrow> same_turn e f \<Longrightarrow> same_turn d f" by (simp add: same_turn_def)

lemma same_turn_set_item [simp]: "same_turn e (set_item iid st d) = same_turn e d"
  by (simp add: same_turn_def set_item_def)

lemma durable_set_item [simp]: "cx_hadDurableOutput (set_item iid st d) = cx_hadDurableOutput d"
  by (simp add: set_item_def)

lemma cx_then_eq: "cx_then f g d = (fst (f d) @ fst (g (snd (f d))), snd (g (snd (f d))))"
  by (simp add: cx_then_def split: prod.split)

lemma turn_kept_none [simp]: "turn_kept d ([], e) \<longleftrightarrow> same_turn d e \<and> cx_hadDurableOutput e = cx_hadDurableOutput d"
  by (auto simp: turn_kept_def has_row_def)

text \<open>A change of the state that has nothing to do with the turn may come first.\<close>

lemma turn_kept_after:
  "turn_kept e p \<Longrightarrow> same_turn d e \<Longrightarrow> cx_hadDurableOutput e = cx_hadDurableOutput d \<Longrightarrow> turn_kept d p"
  unfolding turn_kept_def by (metis same_turn_trans)

lemma turn_kept_item: "turn_kept (set_item iid st d) p \<Longrightarrow> turn_kept d p"
  by (erule turn_kept_after) simp_all

lemma turn_kept_signal: "turn_kept (markCodexTurnSignal d) p \<Longrightarrow> turn_kept d p"
  by (erule turn_kept_after) (simp_all add: markCodexTurnSignal_def same_turn_def)

lemma turn_kept_row: "turn_kept d (emit_row raw d)"
  by (simp add: turn_kept_def emit_row_def markCodexTurnDurableOutput_def same_turn_def has_row_def)

lemma turn_kept_text: "turn_kept d (emitClaudeLikeText role uuid t d)"
  by (simp add: emitClaudeLikeText_def turn_kept_row)

lemma turn_kept_thinking: "turn_kept d (emitClaudeLikeThinking uuid t d)"
  by (simp add: emitClaudeLikeThinking_def turn_kept_row)

lemma turn_kept_result: "turn_kept d (emitClaudeLikeToolResult iid result err d)"
  by (simp add: emitClaudeLikeToolResult_def turn_kept_row)

lemma turn_kept_use: "turn_kept d (emitCodexToolUseOnce iid name input d)"
  by (auto simp: emitCodexToolUseOnce_def emitClaudeLikeToolUse_def Let_def intro: turn_kept_item turn_kept_row)

lemma turn_kept_then: "turn_kept d (f d) \<Longrightarrow> (\<And>e. turn_kept e (g e)) \<Longrightarrow> turn_kept d (cx_then f g d)"
  unfolding turn_kept_def cx_then_eq fst_conv snd_conv by (metis has_row_append same_turn_trans)

lemmas turn_kept_rules = turn_kept_text turn_kept_thinking turn_kept_result turn_kept_use turn_kept_then

lemma turn_kept_started: "turn_kept d (handleCodexItemStarted raw d)"
  by (auto simp: handleCodexItemStarted_def Let_def intro: turn_kept_item turn_kept_use split: option.split)

lemma turn_kept_message: "turn_kept d (completed_message it d)"
  by (auto simp: completed_message_def Let_def intro: turn_kept_item turn_kept_text)

lemma turn_kept_completed: "turn_kept d (handleCodexItemCompleted raw d)"
  by (auto simp: handleCodexItemCompleted_def completed_item_act_def Let_def cx_skip_def intro: turn_kept_rules turn_kept_message
      split: option.split)

lemma turn_kept_output: "turn_kept d (handleCodexCommandOutputDelta raw d)"
  by (auto simp: turn_kept_def handleCodexCommandOutputDelta_def text_delta_def has_row_def event_consts split: option.split)

lemma turn_kept_delta: "turn_kept d (agent_delta raw d)"
  by (auto simp: turn_kept_def agent_delta_def text_delta_def has_row_def event_consts Let_def markCodexTurnSignal_def same_turn_def
      set_item_def split: option.split)

lemma turn_kept_notification:
  assumes "nf_Method n \<noteq> ''turn/completed''"
  shows "turn_kept d (handleCodexNotification now n d)"
proof -
  have e: "turn_kept d ([], if msg \<noteq> [] then (markCodexTurnSignal d)\<lparr>cx_lastError := msg\<rparr> else markCodexTurnSignal d)" for msg
    by (simp add: markCodexTurnSignal_def same_turn_def)
  have s: "turn_kept d ([], markCodexTurnSignal d)" by (simp add: markCodexTurnSignal_def same_turn_def)
  show ?thesis
    unfolding handleCodexNotification_def Let_def
    using assms e s turn_kept_delta turn_kept_signal[OF turn_kept_started] turn_kept_signal[OF turn_kept_completed]
      turn_kept_signal[OF turn_kept_output]
    by (simp only: if_False) (simp only: split: if_split, blast)
qed

lemma turn_kept_hear: "within_turn ns \<Longrightarrow> turn_kept d (hear ns d)"
proof (induction ns arbitrary: d)
  case (Cons n ns)
  have h: "turn_kept e (hear ns e)" for e using Cons by (simp add: within_turn_def)
  have "turn_kept d (handleCodexNotification (fst n) (snd n) d)" using Cons.prems by (simp add: within_turn_def turn_kept_notification)
  with h show ?case by (simp add: turn_kept_then)
qed (simp add: cx_skip_def)

lemma hear_append: "hear (ns @ ms) d = cx_then (hear ns) (hear ms) d"
  by (induction ns arbitrary: d) (simp_all add: cx_then_eq cx_skip_def)

subsection \<open>The end of a turn\<close>

lemma turn_kept_foldr: "(\<And>f e. f \<in> set fs \<Longrightarrow> turn_kept e (f e)) \<Longrightarrow> turn_kept d (foldr cx_then fs cx_skip d)"
proof (induction fs arbitrary: d)
  case (Cons f fs)
  then show ?case by (simp add: turn_kept_then)
qed (simp add: cx_skip_def)

lemma turn_kept_flush: "turn_kept d (flushUnemittedCodexAgentText d)"
proof -
  let ?d = "d\<lparr>cx_items := map (\<lambda>p. if unemitted p then (fst p, (snd p)\<lparr>ci_MessageEmitted := True\<rparr>) else p) (cx_items d)\<rparr>"
  have "turn_kept ?d (flushUnemittedCodexAgentText d)"
    unfolding flushUnemittedCodexAgentText_def Let_def by (rule turn_kept_foldr) (auto simp: turn_kept_text)
  then show ?thesis by (rule turn_kept_after) (simp_all add: same_turn_def)
qed

lemma turn_completed_eq:
  "turn_completed now d =
     (let es = fst (flushUnemittedCodexAgentText d); d1 = snd (flushUnemittedCodexAgentText d) in
      if cx_hadDurableOutput d1 then (es @ [prompt_ready], end_turn now d1)
      else (es @ [agent_error (empty_turn_text d1), prompt_ready], markCodexTurnDurableOutput (end_turn now d1)))"
  by (simp add: turn_completed_def Let_def split: prod.split)

lemma end_turn_simps [simp]:
  "dr_turnInFlight (end_turn now d) = False" "cx_turnID (end_turn now d) = cx_turnID d + 1" "dr_lastActivity (end_turn now d) = now"
  "dr_cfg (end_turn now d) = dr_cfg d" "cx_app (end_turn now d) = cx_app d"
  by (simp_all add: end_turn_def)

lemma durable_simps [simp]:
  "dr_turnInFlight (markCodexTurnDurableOutput d) = dr_turnInFlight d" "cx_turnID (markCodexTurnDurableOutput d) = cx_turnID d"
  "dr_lastActivity (markCodexTurnDurableOutput d) = dr_lastActivity d" "dr_cfg (markCodexTurnDurableOutput d) = dr_cfg d"
  by (simp_all add: markCodexTurnDurableOutput_def)

lemma turn_completed_turn:
  "\<not> dr_turnInFlight (snd (turn_completed now d)) \<and> cx_turnID (snd (turn_completed now d)) = cx_turnID d + 1 \<and>
   dr_lastActivity (snd (turn_completed now d)) = now \<and> dr_cfg (snd (turn_completed now d)) = dr_cfg d"
  using turn_kept_flush[of d] by (auto simp: turn_completed_eq Let_def turn_kept_def same_turn_def)

definition completion :: "time \<Rightarrow> gostring \<Rightarrow> time \<times> Notification" where
  "completion now params = (now, \<lparr>nf_Method = ''turn/completed'', nf_Params = params\<rparr>)"

lemma hear_completion: "hear [completion now params] d = turn_completed now d"
  by (simp add: completion_def cx_then_eq cx_skip_def handleCodexNotification_def)

text \<open>A driver that has just been made, for the examples below.\<close>

definition sample_codex :: CodexDriver where
  "sample_codex =
     new_codex \<lparr>cf_SessionID = ''s1'', cf_Agent = AgentCodex, cf_Cwd = ''/work'', cf_ResumePath = [], cf_BinaryPath = ''/bin/codex'',
       cf_CommandPrefixArgs = [], cf_LauncherSource = [], cf_DaemonBinaryPath = [], cf_DaemonLocalAPIURL = [],
       cf_TerminalSessionID = ''t1'', cf_Model = [], cf_PermissionMode = [], cf_Effort = [], cf_NewSession = True,
       cf_CodexAppTransport = [], cf_CodexAppSocketPath = [], cf_CodexAppAllowDaemonStart = True\<rparr> 0 0"

text \<open>
  C12. A turn never ends in silence: whatever the app server sends between the prompt and
  \<open>turn/completed\<close>, some row of the transcript or an error with a text has gone out by then,
  the last event tells that input is awaited, and the turn no longer runs.
\<close>

theorem turn_never_ends_silently:
  assumes "within_turn ns"
    and "run = hear (ns @ [completion now params]) (snd (begin_turn t0 prompt d))"
  shows "(has_row (fst run) \<or> (\<exists>msg. msg \<noteq> [] \<and> agent_error msg \<in> set (fst run))) \<and>
    last (fst run) = prompt_ready \<and> \<not> dr_turnInFlight (snd run)"
proof -
  let ?d1 = "snd (begin_turn t0 prompt d)"
  let ?d2 = "snd (hear ns ?d1)"
  let ?d3 = "snd (flushUnemittedCodexAgentText ?d2)"
  have run: "run = (fst (hear ns ?d1) @ fst (turn_completed now ?d2), snd (turn_completed now ?d2))"
    unfolding assms(2) hear_append cx_then_eq hear_completion by simp
  have "\<not> cx_hadDurableOutput ?d1" by (simp add: begin_turn_def)
  then have "cx_hadDurableOutput ?d3 \<Longrightarrow> has_row (fst (hear ns ?d1)) \<or> has_row (fst (flushUnemittedCodexAgentText ?d2))"
    using turn_kept_hear[OF assms(1), of ?d1] turn_kept_flush[of ?d2] by (simp add: turn_kept_def)
  moreover have "empty_turn_text ?d3 \<noteq> []" by (simp add: empty_turn_text_def)
  ultimately show ?thesis
    using turn_completed_turn[of now ?d2] unfolding run turn_completed_eq Let_def by auto
qed

lemma turn_never_ends_silently_witness:
  "\<exists>run. run = hear ([] @ [completion 9 ''{}'']) (snd (begin_turn 0 ''hi'' sample_codex)) \<and>
     (has_row (fst run) \<or> (\<exists>msg. msg \<noteq> [] \<and> agent_error msg \<in> set (fst run))) \<and>
     last (fst run) = prompt_ready \<and> \<not> dr_turnInFlight (snd run)"
proof -
  have "within_turn []" by (simp add: within_turn_def)
  from turn_never_ends_silently[OF this refl, of 9 "''{}''" 0 "''hi''" sample_codex] show ?thesis by blast
qed

subsection \<open>Turns that overlap\<close>

text \<open>
  C36. A second prompt that is sent while a turn runs is left without supervision: when the
  first turn completes, the second is taken for over although it runs. Its watchdog and the
  reaper's turn time-out do nothing whatever the time is, and while notifications keep coming
  the driver counts as idle, so the reaper stops it after the idle limit.
\<close>

theorem overlapping_turn_unsupervised:
  assumes "within_turn ns1" "within_turn ns2" "within_turn ns3"
    and "d1 = snd (hear ns1 (snd (begin_turn t1 p1 d)))" "d2 = snd (begin_turn t2 p2 d1)"
    and "d3 = snd (hear (ns2 @ [completion t3 params] @ ns3) d2)"
  shows "watchCodexTurnCompletion (cx_turnID d2) now d3 = ([], d3) \<and> timeoutCodexTurnFromReaper now d3 = (False, [], d3) \<and>
    (idleTimeout \<le> now - t3 \<longrightarrow>
      idle_entry now \<lparr>sm_terminal = m, sm_drvs = [Driver.truncate d3], sm_drivers = [], sm_lastSeq = []\<rparr>
        \<lparr>en_driver = Some 0, en_session = r, en_terminalSessionID = tid\<rparr>)"
proof -
  let ?e = "snd (hear ns2 d2)" let ?f = "snd (turn_completed t3 ?e)"
  have "d3 = snd (hear ns3 ?f)"
    unfolding assms(6) by (simp only: hear_append cx_then_eq hear_completion snd_conv)
  then have "\<not> dr_turnInFlight d3 \<and> dr_lastActivity d3 = t3"
    using turn_completed_turn[of t3 ?e] turn_kept_hear[OF assms(3), of ?f] by (simp add: turn_kept_def same_turn_def)
  then show ?thesis
    by (simp add: watchCodexTurnCompletion_def timeoutCodexTurnFromReaper_def idle_entry_def Driver.defs)
qed

lemma overlapping_turn_unsupervised_witness:
  "\<exists>d2 d3. d2 = snd (begin_turn 5 ''two'' (snd (begin_turn 0 ''one'' sample_codex))) \<and>
     d3 = snd (hear ([] @ [completion 9 ''{}''] @ []) d2) \<and>
     watchCodexTurnCompletion (cx_turnID d2) (9 + idleTimeout) d3 = ([], d3) \<and>
     timeoutCodexTurnFromReaper (9 + idleTimeout) d3 = (False, [], d3) \<and>
     idle_entry (9 + idleTimeout) \<lparr>sm_terminal = NewManager, sm_drvs = [Driver.truncate d3], sm_drivers = [], sm_lastSeq = []\<rparr>
       \<lparr>en_driver = Some 0, en_session = 0, en_terminalSessionID = ''t1''\<rparr>"
proof -
  have n: "within_turn []" by (simp add: within_turn_def)
  have "snd (hear [] e) = e" for e by (simp add: cx_skip_def)
  from overlapping_turn_unsupervised[OF n n n this[symmetric] refl refl, of 5 "''two''" 0 "''one''" sample_codex "9 + idleTimeout" 9 "''{}''"
      "NewManager" 0 "''t1''"]
  show ?thesis by auto
qed

text \<open>Without the second prompt the watchdog ends the turn with an error.\<close>

lemma watched_turn_times_out:
  assumes "within_turn ns" "d1 = snd (begin_turn t0 prompt d)" "d2 = snd (hear ns d1)"
  shows "agent_error (turn_timeout_text ''turn did not complete'') \<in> set (fst (watchCodexTurnCompletion (cx_turnID d1) now d2)) \<and>
    \<not> dr_turnInFlight (snd (watchCodexTurnCompletion (cx_turnID d1) now d2))"
proof -
  have "dr_turnInFlight d2 \<and> cx_turnID d2 = cx_turnID d1"
    using turn_kept_hear[OF assms(1), of d1] assms(2,3) by (simp add: turn_kept_def same_turn_def begin_turn_def)
  then show ?thesis
    by (simp add: watchCodexTurnCompletion_def turn_timed_out_def closeCodexApp_def end_turn_def)
qed

subsection \<open>Streamed replies\<close>

text \<open>
  The reply of an item: what the deltas have streamed so far, until the item is completed as a
  message; its own text takes over then, unless it is blank.
\<close>

definition delta_of :: "gostring \<Rightarrow> Notification \<Rightarrow> gostring" where
  "delta_of iid n =
     (if nf_Method n = ''item/agentMessage/delta''
      then (case parse_delta (nf_Params n) of Some p \<Rightarrow> if dp_ItemID p = iid then dp_Delta p else [] | None \<Rightarrow> []) else [])"

definition message_of :: "gostring \<Rightarrow> Notification \<Rightarrow> gostring option" where
  "message_of iid n =
     (if nf_Method n = ''item/completed''
      then (case parse_completed (nf_Params n) of
          Some it \<Rightarrow> if ic_ID it = iid \<and> ic_Type it = ''agentMessage'' then Some (ic_Text it) else None
        | None \<Rightarrow> None) else None)"

fun reply_text :: "gostring \<Rightarrow> gostring \<Rightarrow> (time \<times> Notification) list \<Rightarrow> gostring" where
  "reply_text iid acc [] = acc"
| "reply_text iid acc (n # ns) =
     (case message_of iid (snd n) of
        Some t \<Rightarrow> if TrimSpace t = [] then acc else t
      | None \<Rightarrow> reply_text iid (acc @ delta_of iid (snd n)) ns)"

definition reply_row :: "gostring \<Rightarrow> gostring \<Rightarrow> cx_effect" where
  "reply_row iid t = CxEmit EventMessageAdded TurnStreaming (claude_row ''assistant'' iid (text_part t)) []"

text \<open>What is collected for an item, and whether its message is out.\<close>

definition collected :: "gostring \<Rightarrow> CodexDriver \<Rightarrow> gostring \<times> bool" where
  "collected iid d = (ci_AgentText (item_state iid d), ci_MessageEmitted (item_state iid d))"

lemma item_state_set [simp]: "item_state iid (set_item jid st d) = (if iid = jid then st else item_state iid d)"
  by (simp add: item_state_def set_item_def)

lemma item_state_signal [simp]: "item_state iid (markCodexTurnSignal d) = item_state iid d"
  by (simp add: item_state_def markCodexTurnSignal_def)

lemma item_state_durable [simp]: "item_state iid (markCodexTurnDurableOutput d) = item_state iid d"
  by (simp add: item_state_def markCodexTurnDurableOutput_def)

lemma item_state_row [simp]: "item_state iid (snd (emit_row raw d)) = item_state iid d"
  by (simp add: emit_row_def)

lemma item_state_text [simp]: "item_state iid (snd (emitClaudeLikeText role uuid t d)) = item_state iid d"
  by (simp add: emitClaudeLikeText_def)

lemma item_state_thinking [simp]: "item_state iid (snd (emitClaudeLikeThinking uuid t d)) = item_state iid d"
  by (simp add: emitClaudeLikeThinking_def)

lemma item_state_result [simp]: "item_state iid (snd (emitClaudeLikeToolResult jid result err d)) = item_state iid d"
  by (simp add: emitClaudeLikeToolResult_def)

lemma collected_use [simp]: "collected iid (snd (emitCodexToolUseOnce jid name input d)) = collected iid d"
  by (simp add: collected_def emitCodexToolUseOnce_def emitClaudeLikeToolUse_def Let_def)

lemma collected_started [simp]: "collected iid (snd (handleCodexItemStarted raw d)) = collected iid d"
  by (simp add: handleCodexItemStarted_def Let_def split: option.split prod.split) (simp add: collected_def started_state_def Let_def)

lemma collected_output [simp]: "collected iid (snd (handleCodexCommandOutputDelta raw d)) = collected iid d"
  by (simp add: handleCodexCommandOutputDelta_def split: option.split)

lemma collected_delta:
  assumes "iid \<noteq> []"
  shows "collected iid (snd (agent_delta raw d)) =
    (case parse_delta raw of Some p \<Rightarrow> if dp_ItemID p = iid then (fst (collected iid d) @ dp_Delta p, snd (collected iid d)) else collected iid d
     | None \<Rightarrow> collected iid d)"
  using assms by (simp add: agent_delta_def collected_def Let_def split: option.split)

lemma collected_completed:
  assumes "\<forall>it. parse_completed raw = Some it \<longrightarrow> \<not> (ic_ID it = iid \<and> ic_Type it = ''agentMessage'')"
  shows "collected iid (snd (handleCodexItemCompleted raw d)) = collected iid d"
proof (cases "parse_completed raw")
  case (Some it)
  have res: "collected iid (snd (emitClaudeLikeToolResult jid r e x)) = collected iid x"
    "collected iid (snd (emitClaudeLikeThinking jid r x)) = collected iid x" for jid r e x
    by (simp_all add: collected_def)
  have msg: "ic_Type it = ''agentMessage'' \<Longrightarrow> collected iid (snd (completed_message it d)) = collected iid d"
    using assms Some by (simp add: completed_message_def Let_def collected_def)
  show ?thesis
    using Some msg by (simp add: handleCodexItemCompleted_def completed_item_act_def Let_def cx_then_eq cx_skip_def res)
qed (simp add: handleCodexItemCompleted_def cx_skip_def)

lemma collected_signal [simp]: "collected iid (markCodexTurnSignal d) = collected iid d"
  by (simp add: collected_def)

text \<open>A notification without a completed message adds its delta, if it has one.\<close>

lemma collected_notification:
  assumes "nf_Method n \<noteq> ''turn/completed''" "iid \<noteq> []" "message_of iid n = None"
  shows "collected iid (snd (handleCodexNotification now n d)) = (fst (collected iid d) @ delta_of iid n, snd (collected iid d))"
proof -
  have err: "collected iid ((markCodexTurnSignal d)\<lparr>cx_lastError := msg\<rparr>) = collected iid d" for msg
    by (simp add: collected_def item_state_def markCodexTurnSignal_def)
  have fin: "nf_Method n = ''item/completed'' \<Longrightarrow>
      \<forall>it. parse_completed (nf_Params n) = Some it \<longrightarrow> \<not> (ic_ID it = iid \<and> ic_Type it = ''agentMessage'')"
    using assms(3) by (auto simp: message_of_def)
  consider "nf_Method n = ''item/completed''" | "nf_Method n = ''item/agentMessage/delta''"
    | "nf_Method n \<noteq> ''item/completed''" "nf_Method n \<noteq> ''item/agentMessage/delta''" by blast
  then show ?thesis
  proof cases
    case 1
    then show ?thesis using collected_completed[OF fin] by (simp add: handleCodexNotification_def delta_of_def)
  next
    case 2
    then show ?thesis
      using collected_delta[OF assms(2), of "nf_Params n" d]
      by (simp add: handleCodexNotification_def delta_of_def split: option.split)
  next
    case 3
    then show ?thesis using assms(1) err by (simp add: handleCodexNotification_def delta_of_def Let_def)
  qed
qed

lemma message_emitted:
  assumes "message_of iid n = Some t" "TrimSpace (if TrimSpace t = [] then fst (collected iid d) else t) \<noteq> []"
  shows "reply_row iid (if TrimSpace t = [] then fst (collected iid d) else t) \<in> set (fst (handleCodexNotification now n d))"
proof -
  obtain it where it: "nf_Method n = ''item/completed''" "parse_completed (nf_Params n) = Some it" "ic_ID it = iid"
    "ic_Type it = ''agentMessage''" "t = ic_Text it"
    using assms(1) by (auto simp: message_of_def split: if_splits option.splits)
  then show ?thesis
    using assms(2)
    by (cases "TrimSpace (ic_Text it) = []")
      (simp_all add: handleCodexNotification_def handleCodexItemCompleted_def completed_item_act_def completed_message_def Let_def
        emitClaudeLikeText_def emit_row_def reply_row_def collected_def)
qed

lemma foldr_emits: "f \<in> set fs \<Longrightarrow> (\<And>d. e \<in> set (fst (f d))) \<Longrightarrow> e \<in> set (fst (foldr cx_then fs cx_skip d))"
  by (induction fs arbitrary: d) (auto simp: cx_then_eq)

lemma flush_emits:
  assumes "collected iid d = (t, False)" "TrimSpace t \<noteq> []"
  shows "reply_row iid t \<in> set (fst (flushUnemittedCodexAgentText d))"
proof -
  have "item_state iid d \<noteq> no_item" using assms by (auto simp: collected_def no_item_def TrimSpace_Nil)
  then obtain st where st: "alist_get (cx_items d) iid = Some st" by (auto simp: item_state_def split: option.splits)
  then have "(iid, st) \<in> set (filter unemitted (cx_items d))"
    using assms alist_get_Some_mem[OF st] by (simp add: collected_def item_state_def unemitted_def)
  then have "emitClaudeLikeText ''assistant'' iid t \<in>
      set (map (\<lambda>p. emitClaudeLikeText ''assistant'' (fst p) (ci_AgentText (snd p))) (filter unemitted (cx_items d)))"
    using assms(1) st by (force simp: collected_def item_state_def)
  then show ?thesis
    unfolding flushUnemittedCodexAgentText_def Let_def
    by (rule foldr_emits) (simp add: emitClaudeLikeText_def emit_row_def reply_row_def assms(2))
qed

lemma completion_emits:
  "collected iid d = (t, False) \<Longrightarrow> TrimSpace t \<noteq> [] \<Longrightarrow> reply_row iid t \<in> set (fst (turn_completed now d))"
  using flush_emits[of iid d t] by (simp add: turn_completed_eq Let_def)

lemma reply_emitted:
  assumes "within_turn ns" "iid \<noteq> []" "collected iid d = (acc, False)" "TrimSpace (reply_text iid acc ns) \<noteq> []"
  shows "reply_row iid (reply_text iid acc ns) \<in> set (fst (hear (ns @ [completion now params]) d))"
  using assms(1,3,4)
proof (induction ns arbitrary: d acc)
  case Nil
  then show ?case using completion_emits[of iid d acc now] by (simp del: hear.simps add: hear_completion)
next
  case (Cons n ns)
  let ?f = "handleCodexNotification (fst n) (snd n)"
  have eff: "fst (hear ((n # ns) @ [completion now params]) d) = fst (?f d) @ fst (hear (ns @ [completion now params]) (snd (?f d)))"
    by (simp add: cx_then_eq)
  have m: "nf_Method (snd n) \<noteq> ''turn/completed''" "within_turn ns" using Cons.prems(1) by (simp_all add: within_turn_def)
  show ?case
  proof (cases "message_of iid (snd n)")
    case None
    then have "collected iid (snd (?f d)) = (acc @ delta_of iid (snd n), False)"
      using collected_notification[OF m(1) assms(2)] Cons.prems(2) by simp
    from Cons.IH[OF m(2) this] Cons.prems(3) None show ?thesis unfolding eff by simp
  next
    case (Some t)
    then show ?thesis using message_emitted[OF Some, of d "fst n"] Cons.prems(2,3) unfolding eff by auto
  qed
qed

text \<open>
  A streamed reply is not lost: when a turn completes, every item that streamed text or
  was completed as a message has its row in the transcript. The row carries the text of the
  completed message, or all that was streamed when that text is blank or never came.
\<close>

theorem streamed_reply_kept:
  assumes "within_turn ns" "iid \<noteq> []" "alist_get (cx_items d) iid = None" "TrimSpace (reply_text iid [] ns) \<noteq> []"
  shows "reply_row iid (reply_text iid [] ns) \<in>
    set (fst (hear (ns @ [completion now params]) (snd (begin_turn t0 prompt d))))"
proof (rule reply_emitted[OF assms(1,2) _ assms(4)])
  show "collected iid (snd (begin_turn t0 prompt d)) = ([], False)"
    using assms(3) by (simp add: collected_def item_state_def begin_turn_def no_item_def)
qed

lemma streamed_reply_kept_witness:
  "\<exists>ns. ns = [(1, \<lparr>nf_Method = ''item/agentMessage/delta'',
                nf_Params = marshal (GObj [(''itemId'', GStr ''m1''), (''delta'', GStr ''Hello'')])\<rparr>)] \<and>
     reply_row ''m1'' ''Hello'' \<in> set (fst (hear (ns @ [completion 9 ''{}'']) (snd (begin_turn 0 ''hi'' sample_codex))))"
proof -
  let ?v = "GObj [(''itemId'', GStr ''m1''), (''delta'', GStr ''Hello'')]"
  let ?ns = "[(1, \<lparr>nf_Method = ''item/agentMessage/delta'', nf_Params = marshal ?v\<rparr>)]"
  have "parse_json (marshal ?v) = Some (wire ?v)" by (rule parse_marshal) (simp_all add: maxNestingDepth_def)
  then have "parse_delta (marshal ?v) = Some \<lparr>dp_ItemID = ''m1'', dp_Delta = ''Hello''\<rparr>"
    by (simp del: marshal.simps add: parse_delta_def unmarshal_struct_def dec_struct_def arrives_ascii find_field_def str_field_def)
  then have r: "reply_text ''m1'' [] ?ns = ''Hello''"
    by (simp del: marshal.simps add: message_of_def delta_of_def)
  have "within_turn ?ns" "''m1'' \<noteq> []" "alist_get (cx_items sample_codex) ''m1'' = None" "TrimSpace (reply_text ''m1'' [] ?ns) \<noteq> []"
    unfolding r by (simp_all add: within_turn_def sample_codex_def new_codex_def Driver.defs TrimSpace_ascii is_space_def)
  from streamed_reply_kept[OF this, of 9 "''{}''" 0 "''hi''"] show ?thesis unfolding r by blast
qed

end
