(* ===== verification/CodexApprovals.thy ===== *)
theory CodexApprovals
  imports CodexTurns PermissionBridge
begin

section \<open>Approvals of a Codex session\<close>

text \<open>
  \<open>handleCodexServerRequest\<close> over the store that all sessions of the daemon share: what the
  user decides reaches the app server, and what happens when two app servers use the same
  request id.
\<close>

subsection \<open>Opening an approval\<close>

lemma entry_id: "store_ok s \<Longrightarrow> q \<in> set (pendings s) \<Longrightarrow> fst q = ID (p_req (snd q))"
  by (auto simp: store_ok_def)

lemma approval_open_store:
  assumes "approval_open now ts num session req d s = (Inr kind, es, d1, t)"
  obtains toolName input where "codexApprovalInput num req = (toolName, input, kind)" "toolName \<noteq> []"
    "approval_register now (approval_request d session req toolName input) s = (None, t)"
    "approval_event ts req toolName input \<in> set es"
proof -
  obtain toolName input k where c: "codexApprovalInput num req = (toolName, input, k)" by (metis prod_cases3)
  with assms have n: "toolName \<noteq> []" by (auto simp: approval_open_def)
  obtain fs d2 where e: "emitCodexApprovalToolUse req toolName input k d = (fs, d2)" by fastforce
  obtain err u where r: "approval_register now (approval_request d session req toolName input) s = (err, u)" by fastforce
  show thesis using assms c n e r by (intro that) (auto simp: approval_open_def split: option.splits)
qed

lemma approval_kinds:
  "codexApprovalInput num req = (toolName, input, kind) \<Longrightarrow> toolName \<noteq> [] \<Longrightarrow> kind \<in> {''command'', ''file'', ''permissions''}"
  by (auto simp: codexApprovalInput_def Let_def split: if_splits)

lemma approval_request_id [simp]: "ID (approval_request d session req toolName input) = rq_ID req"
  by (simp add: approval_request_def)

text \<open>Afterwards a request with the id is in the store: the new one, or the one that was there.\<close>

lemma approval_new:
  assumes "store_ok s" "approval_open now ts num session req d s = (Inr kind, es, d1, t)" "store_answers s (rq_ID req) = None"
  obtains toolName input where "codexApprovalInput num req = (toolName, input, kind)"
    "Register now (approval_request d session req toolName input) s = Inr t"
proof -
  obtain toolName input where a: "codexApprovalInput num req = (toolName, input, kind)"
    "approval_register now (approval_request d session req toolName input) s = (None, t)"
    using assms(2) by (rule approval_open_store)
  have "lookup_pending (rq_ID req) s = None" using assms(3) answers_lookup by blast
  then have "Register now (approval_request d session req toolName input) s \<noteq> Inl ErrAlreadyExists"
    by (auto simp: Register_def Let_def lookup_pending_def alloc_def split: prod.splits)
  with a show thesis by (intro that) (auto simp: approval_register_def split: sum.splits perm_error.splits)
qed

lemma approval_taken:
  assumes "store_ok s" "approval_open now ts num session req d s = (Inr kind, es, d1, t)" "store_answers s (rq_ID req) = Some a"
  shows "t = s"
proof -
  obtain toolName input where r: "approval_register now (approval_request d session req toolName input) s = (None, t)"
    using assms(2) by (rule approval_open_store)
  show ?thesis
  proof (cases "Register now (approval_request d session req toolName input) s")
    case (Inr u)
    then show ?thesis using broker.register_new[OF assms(1) Inr] assms(3) by simp
  qed (use r in \<open>auto simp: approval_register_def split: perm_error.splits\<close>)
qed

definition command_reply :: "bool \<Rightarrow> gostring + gostring" where
  "command_reply accepted = Inr (marshal (go_map [(''decision'', GStr (if accepted then ''accept'' else ''decline''))]))"

lemma command_answer:
  "kind = ''command'' \<or> kind = ''file'' \<Longrightarrow> approval_answer ctx kind req (Inr out) = command_reply (out_Decision out = DecisionAllow)"
  by (simp add: approval_answer_def command_reply_def Let_def)

text \<open>The command of a request without parameters, for the examples below.\<close>

definition sample_approval :: ServerRequest where
  "sample_approval = \<lparr>rq_ID = ''0'', rq_Method = ''item/commandExecution/requestApproval'', rq_Params = []\<rparr>"

lemma sample_open:
  assumes "approval_register now (approval_request sample_codex [] sample_approval ''Bash'' ''null'') s = (None, t)"
  shows "\<exists>es d. approval_open now [] Some [] sample_approval sample_codex s = (Inr ''command'', es, d, t)"
proof -
  have c: "codexApprovalInput Some sample_approval = (''Bash'', ''null'', ''command'')" by code_simp
  obtain es d where "emitCodexApprovalToolUse sample_approval ''Bash'' ''null'' ''command'' sample_codex = (es, d)" by fastforce
  with assms c show ?thesis by (simp add: approval_open_def)
qed

lemma sample_register:
  "approval_register 1 (approval_request sample_codex [] sample_approval ''Bash'' ''null'') NewStore =
     (None, case Register 1 (approval_request sample_codex [] sample_approval ''Bash'' ''null'') NewStore of Inr t \<Rightarrow> t | Inl _ \<Rightarrow> NewStore)"
  by (simp add: approval_register_def Register_def NewStore_def Let_def alloc_def approval_request_def sample_approval_def)

subsection \<open>Properties\<close>



text \<open>
  A channel that no entry refers to: whatever operations follow, nothing is ever sent to it.
\<close>

definition orphan :: "nat \<Rightarrow> Store \<Rightarrow> bool" where
  "orphan c s \<longleftrightarrow> store_ok s \<and> c < length (outcome_chans s) \<and> (\<forall>q\<in>set (pendings s). p_ch (snd q) \<noteq> c) \<and>
     chan_buf (outcome_chans s ! c) = []"

lemma orphan_lookup: "orphan c s \<Longrightarrow> lookup_pending q s = Some c' \<Longrightarrow> c' \<noteq> c"
  by (auto simp: orphan_def lookup_pending_def dest!: alist_get_Some_mem)

lemma orphan_offer:
  assumes "orphan c s" "lookup_pending q s = Some c'" "offer out c' s = Inr t"
  shows "orphan c t"
proof -
  have "store_ok t"
    using store_ok_offer[of s c' out] lookup_pending_lt[OF _ assms(2)] assms(1,3) by (auto simp: orphan_def)
  moreover obtain k where "t = s\<lparr>outcome_chans := (outcome_chans s)[c' := k]\<rparr>"
    using assms(3) by (auto simp: offer_def send_at_def bind_sum_Inr_iff)
  ultimately show ?thesis using assms(1) orphan_lookup[OF assms(1,2)] by (simp add: orphan_def)
qed

lemma orphan_select:
  assumes "orphan c s" "lookup_pending q s = Some c'" "Await_select w q c' timeout s = Some (res, t)"
  shows "orphan c t"
proof -
  have "store_ok t" using store_ok_select[OF _ assms(3)] assms(1) by (simp add: orphan_def)
  then show ?thesis
    using assms(1,3) orphan_lookup[OF assms(1,2)]
    by (cases w) (auto simp: orphan_def delete_pending_def set_alist_del split: option.splits if_splits)
qed

lemma orphan_run_op: "orphan c s \<Longrightarrow> orphan c (run_op op s)"
proof (cases op)
  case (OpRegister now r)
  assume o: "orphan c s"
  show ?thesis
  proof (cases "Register now r s")
    case (Inr t)
    obtain r' where "t = s\<lparr>pendings := pendings s @ [(ID r, \<lparr>p_req = r', p_ch = length (outcome_chans s)\<rparr>)],
          outcome_chans := outcome_chans s @ [make_chan (Suc 0)]\<rparr>" using Inr by (rule Register_Inr)
    with OpRegister Inr o store_ok_Register[OF _ Inr] show ?thesis by (auto simp: orphan_def nth_append)
  qed (use OpRegister o in simp)
next
  case (OpDecide q d)
  assume o: "orphan c s"
  show ?thesis
  proof (cases "Decide_check q d s")
    case (Inr c')
    then have l: "lookup_pending q s = Some c'" by (auto simp: Decide_check_def split: if_splits option.splits)
    show ?thesis using OpDecide Inr o orphan_offer[OF o l] by (cases "offer (user_outcome d) c' s") (auto simp: Decide_def)
  qed (use OpDecide o in \<open>simp add: Decide_def\<close>)
next
  case (OpCancel q)
  assume o: "orphan c s"
  show ?thesis
  proof (cases "lookup_pending q s")
    case (Some c')
    show ?thesis using OpCancel Some o orphan_offer[OF o Some] by (cases "offer cancel_outcome c' s") (auto simp: Cancel_def)
  qed (use OpCancel o in \<open>simp add: Cancel_def\<close>)
next
  case (OpAwait w q timeout)
  assume o: "orphan c s"
  show ?thesis
  proof (cases "lookup_pending q s")
    case (Some c')
    show ?thesis using OpAwait Some o orphan_select[OF o Some]
      by (cases "Await_select w q c' timeout s") (auto simp: Await_def)
  qed (use OpAwait o in \<open>simp add: Await_def\<close>)
qed

lemma orphan_stays: "orphan c s \<Longrightarrow> Await_select WakeOutcome rid c timeout (fold run_op ops s) = None"
proof -
  have "orphan c s \<Longrightarrow> orphan c (fold run_op ops s)"
    by (induction ops arbitrary: s) (simp_all add: orphan_run_op)
  then show "orphan c s \<Longrightarrow> ?thesis" by (simp add: orphan_def recv_def)
qed



end
