(* ===== verification/SessionIndex.thy ===== *)
theory SessionIndex
  imports CodexBlocks GoPath
begin

section \<open>The session index and its catalog\<close>

text \<open>
  \<open>daemon/internal/index/index.go\<close>: the snapshot of all local sessions that the catalog sync
  and the lookups read. The disk is an argument of a refresh: what the two readers list, the
  files with their size, modification time and content, the rows of the Codex database, and
  the texts of times (the zone and the calendar belong to the machine).
\<close>

subsection \<open>Titles and snippets\<close>

definition ellipsis :: gostring where "ellipsis = [CHR 0xE2, CHR 0x80, CHR 0xA6]"

text \<open>
  The expressions \<open>(?is)<tag>.*?</tag>\<close>. A letter matches without regard to case; the letter s
  also matches the long s (the bytes \<open>C5 BF\<close>), the only other fold among the letters of the
  tags. \<open>match_ci\<close> gives the rest after a match, \<open>after_ci\<close> the rest after the first one.
\<close>

fun match_ci :: "gostring \<Rightarrow> gostring \<Rightarrow> gostring option" where
  "match_ci [] s = Some s"
| "match_ci (p # ps) [] = None"
| "match_ci (p # ps) (c # s) =
     (if lower_byte c = p then match_ci ps s
      else if p = CHR ''s'' \<and> c = CHR 0xC5 \<and> HasPrefix s [CHR 0xBF] then match_ci ps (tl s)
      else None)"

fun after_ci :: "gostring \<Rightarrow> gostring \<Rightarrow> gostring option" where
  "after_ci pat [] = match_ci pat []"
| "after_ci pat (c # s) = (case match_ci pat (c # s) of Some r \<Rightarrow> Some r | None \<Rightarrow> after_ci pat s)"

lemma match_ci_length: "match_ci pat s = Some r \<Longrightarrow> length r \<le> length s"
  by (induction pat s rule: match_ci.induct) (auto split: if_splits)

lemma after_ci_length: "after_ci pat s = Some r \<Longrightarrow> length r \<le> length s"
  by (induction pat s rule: after_ci.induct) (fastforce dest: match_ci_length split: option.splits)+

definition tag_body :: "gostring \<Rightarrow> gostring \<Rightarrow> gostring option" where
  "tag_body tag s =
     (case match_ci (''<'' @ tag @ ''>'') s of None \<Rightarrow> None | Some r \<Rightarrow> after_ci (''</'' @ tag @ ''>'') r)"

lemma tag_body_length: "tag_body tag (c # s) = Some r \<Longrightarrow> length r < length (c # s)"
proof -
  assume a: "tag_body tag (c # s) = Some r"
  then obtain q where q: "match_ci (''<'' @ tag @ ''>'') (c # s) = Some q" "after_ci (''</'' @ tag @ ''>'') q = Some r"
    by (auto simp: tag_body_def split: option.splits)
  have "length q \<le> length s"
    using q(1) match_ci_length[of "tag @ ''>''" s q] by (auto split: if_splits)
  then show ?thesis using after_ci_length[OF q(2)] by simp
qed

function strip_tag :: "gostring \<Rightarrow> gostring \<Rightarrow> gostring" where
  "strip_tag tag [] = []"
| "strip_tag tag (c # s) =
     (case tag_body tag (c # s) of Some r \<Rightarrow> strip_tag tag r | None \<Rightarrow> c # strip_tag tag s)"
  by pat_completeness auto
termination
  by (relation "measure (\<lambda>(_, s). length s)") (use tag_body_length in fastforce)+

declare strip_tag.simps(2) [simp del]

definition firstMessageStripTags :: "gostring list" where
  "firstMessageStripTags =
     [''system-reminder'', ''command-name'', ''command-args'', ''command-message'', ''local-command-stdout'']"

definition cleanFirstMessageTextCapped :: "gostring \<Rightarrow> nat \<Rightarrow> gostring" where
  "cleanFirstMessageTextCapped txt1 maxChars =
     (if txt1 = [] then []
      else let cleaned = TrimSpace (Join (Fields (fold strip_tag firstMessageStripTags txt1)) '' '') in
        if cleaned = [] then []
        else if length (runes cleaned) \<le> maxChars then cleaned
        else TrimSpace (encode_runes (take (maxChars - 1) (runes cleaned))) @ ellipsis)"

definition cleanFirstMessageText :: "gostring \<Rightarrow> gostring" where
  "cleanFirstMessageText s = cleanFirstMessageTextCapped s 140"

definition firstMessageForTitle :: "gostring \<Rightarrow> gostring" where
  "firstMessageForTitle s = cleanFirstMessageTextCapped s 800"

text \<open>Unlike the function above this one counts, and cuts at, bytes.\<close>

definition truncateSingleLine :: "gostring \<Rightarrow> nat \<Rightarrow> gostring" where
  "truncateSingleLine s0 maxLen =
     (let s = Join (Fields (TrimSpace (replace_byte (CHR 0x0A) '' '' s0))) '' '' in
      if length s \<le> maxLen then s else TrimSpace (take (maxLen - 1) s) @ ellipsis)"

definition cleanCodexThreadTitle :: "gostring \<Rightarrow> gostring" where
  "cleanCodexThreadTitle title = truncateSingleLine title 140"

definition ix_firstNonEmpty :: "gostring list \<Rightarrow> gostring" where
  "ix_firstNonEmpty vs = (case filter (\<lambda>v. TrimSpace v \<noteq> []) vs of [] \<Rightarrow> [] | v # _ \<Rightarrow> v)"

definition shortSessionID :: "gostring \<Rightarrow> gostring" where
  "shortSessionID sid = (if length sid \<le> 8 then sid else take 8 sid)"

text \<open>\<open>local\<close> is \<open>time.Parse\<close> with the layout RFC 3339, then the local time to the minute.\<close>

definition formatCatalogTimestamp :: "(gostring \<Rightarrow> gostring option) \<Rightarrow> gostring \<Rightarrow> gostring" where
  "formatCatalogTimestamp local ts =
     (if ts = [] then []
      else case local ts of
        Some t \<Rightarrow> t
      | None \<Rightarrow>
          let n = (case cut_at ''T'' ts of Some (a, b) \<Rightarrow> a @ '' '' @ b | None \<Rightarrow> ts) in
          if length n \<ge> 16 then take 11 n @ replace_byte (CHR ''-'') '':'' (drop 11 (take 16 n)) else n)"

definition dot_separator :: gostring where "dot_separator = [CHR '' '', CHR 0xC2, CHR 0xB7, CHR '' '']"

definition agentClaudeCode :: gostring where "agentClaudeCode = ''claude-code''"
definition agentCodexName :: gostring where "agentCodexName = ''codex''"

definition catalogSessionTitle :: "(gostring \<Rightarrow> gostring option) \<Rightarrow> gostring \<Rightarrow> gostring \<Rightarrow> gostring \<Rightarrow> gostring \<Rightarrow> gostring" where
  "catalogSessionTitle local agent cwd sid ts =
     (let base = Base (TrimRight cwd ''/'');
          project = (if base = ''.'' \<or> base = ''/'' \<or> base = [] then ''Session'' else base);
          label = (if agent = agentCodexName then ''Codex'' else ''Claude Code'');
          formatted = formatCatalogTimestamp local ts; short = shortSessionID sid
      in Join ([project, label] @ (if formatted \<noteq> [] then [formatted] else []) @ (if short \<noteq> [] then [short] else []))
           dot_separator)"

subsection \<open>Data\<close>

record SessionRef =
  sref_Agent :: gostring
  sref_Cwd :: gostring
  sref_Path :: gostring
  sref_Title :: gostring

record CatSession =
  asn_SessionID :: gostring
  asn_Title :: gostring
  asn_Timestamp :: gostring
  asn_TurnCount :: int
  asn_Snippet :: gostring
  asn_FirstMessage :: gostring
  asn_FirstMessageForTitle :: gostring

record CatProject =
  apj_Agent :: gostring
  apj_Cwd :: gostring
  apj_Sessions :: "CatSession list"

record DeletedSession =
  ds_SessionID :: gostring
  ds_Agent :: gostring

record turnCountCacheEntry =
  tcc_path :: gostring
  tcc_agent :: gostring
  tcc_modTime :: time
  tcc_size :: nat
  tcc_count :: int

record IndexConfig =
  ic_ClaudeHome :: gostring
  ic_CodexHome :: gostring
  ic_RefreshInterval :: duration

record Index =
  ix_projects :: "CatProject list"
  ix_sessions :: "(gostring \<times> SessionRef) list"
  ix_deleted :: "DeletedSession list"
  ix_lastScan :: time
  ix_lastErr :: "gostring option"
  ix_snapshot :: gostring
  ix_changes :: "unit chan"
  ix_firstMessages :: "(gostring \<times> gostring) list"
  ix_firstMessagesFull :: "(gostring \<times> gostring) list"
  ix_turnCounts :: "(gostring \<times> turnCountCacheEntry) list"
  ix_firstScanDone :: bool

definition new_index :: Index where
  "new_index =
     \<lparr>ix_projects = [], ix_sessions = [], ix_deleted = [], ix_lastScan = 0, ix_lastErr = None, ix_snapshot = [],
      ix_changes = make_chan 1, ix_firstMessages = [], ix_firstMessagesFull = [], ix_turnCounts = [],
      ix_firstScanDone = False\<rparr>"

text \<open>A file that \<open>Stat\<close> knows; its content is missing when it cannot be opened.\<close>

record disk_file =
  df_size :: nat
  df_mod :: time
  df_content :: "gostring option"

record disk =
  dk_file :: "gostring \<Rightarrow> disk_file option"
  dk_claude :: "gostring + project_store"
  dk_codex :: "gostring + codex_entry list \<times> codex_entry list"
  dk_threads :: "(gostring \<times> gostring \<times> int) list"
  dk_rfc3339 :: "time \<Rightarrow> gostring"
  dk_codexTime :: "gostring \<Rightarrow> gostring option"
  dk_localTime :: "gostring \<Rightarrow> gostring option"

definition open_file :: "disk \<Rightarrow> gostring \<Rightarrow> gostring option" where
  "open_file d path = Option.bind (dk_file d path) df_content"

subsection \<open>Counting the blocks of a session\<close>

definition containsJSONType :: "gostring \<Rightarrow> gostring \<Rightarrow> bool" where
  "containsJSONType line v \<longleftrightarrow>
     Contains line ([CHR 0x22] @ ''type'' @ [CHR 0x22] @ '':'' @ [CHR 0x22] @ v @ [CHR 0x22]) \<or>
     Contains line ([CHR 0x22] @ ''type'' @ [CHR 0x22] @ '': '' @ [CHR 0x22] @ v @ [CHR 0x22])"

definition isLikelyCatalogBlockLine :: "gostring \<Rightarrow> gostring \<Rightarrow> bool" where
  "isLikelyCatalogBlockLine agent line \<longleftrightarrow>
     (if agent = agentClaudeCode
      then containsJSONType line ''user'' \<or> containsJSONType line ''assistant'' \<or> containsJSONType line ''attachment''
      else if agent = agentCodexName then containsJSONType line ''response_item''
      else True)"

definition block_lines :: "gostring \<Rightarrow> gostring list \<Rightarrow> nat" where
  "block_lines agent ls = length (filter (isLikelyCatalogBlockLine agent) (filter (\<lambda>l. l \<noteq> []) (map TrimSpace ls)))"

definition estimateSessionBlockCountRange :: "disk \<Rightarrow> SessionRef \<Rightarrow> nat \<Rightarrow> int \<times> bool" where
  "estimateSessionBlockCountRange d ref offset =
     (case open_file d (sref_Path ref) of
        None \<Rightarrow> (0, False)
      | Some content \<Rightarrow>
          (case scan_lines (drop offset content) of
             (ls, too_long) \<Rightarrow> if too_long then (0, False) else (int (block_lines (sref_Agent ref) ls), True)))"

definition estimateSessionBlockCount :: "disk \<Rightarrow> SessionRef \<Rightarrow> int" where
  "estimateSessionBlockCount d ref = fst (estimateSessionBlockCountRange d ref 0)"

definition canCountAppendedTail :: "disk \<Rightarrow> gostring \<Rightarrow> nat \<Rightarrow> bool" where
  "canCountAppendedTail d path offset \<longleftrightarrow>
     offset = 0 \<or>
     (case open_file d path of
        None \<Rightarrow> False
      | Some content \<Rightarrow> offset - 1 < length content \<and> content ! (offset - 1) = CHR 0x0A)"

text \<open>The count of a session and the cache of counts after it.\<close>

definition fresh_count :: "SessionRef \<Rightarrow> disk_file \<Rightarrow> int \<Rightarrow> turnCountCacheEntry" where
  "fresh_count ref info n =
     \<lparr>tcc_path = sref_Path ref, tcc_agent = sref_Agent ref, tcc_modTime = df_mod info, tcc_size = df_size info, tcc_count = n\<rparr>"

definition countSessionBlocksCached ::
  "disk \<Rightarrow> gostring \<Rightarrow> SessionRef \<Rightarrow> (gostring \<times> turnCountCacheEntry) list \<Rightarrow> int \<times> (gostring \<times> turnCountCacheEntry) list" where
  "countSessionBlocksCached d sid ref cache =
     (case dk_file d (sref_Path ref) of
        None \<Rightarrow> (0, alist_del sid cache)
      | Some info \<Rightarrow>
          let full = estimateSessionBlockCount d ref;
              recount = (full, alist_put sid (fresh_count ref info full) cache)
          in case alist_get cache sid of
            None \<Rightarrow> recount
          | Some c \<Rightarrow>
              if tcc_path c \<noteq> sref_Path ref \<or> tcc_agent c \<noteq> sref_Agent ref then recount
              else if tcc_size c = df_size info \<and> tcc_modTime c = df_mod info then (tcc_count c, cache)
              else if df_size info > tcc_size c \<and> canCountAppendedTail d (sref_Path ref) (tcc_size c)
              then (case estimateSessionBlockCountRange d ref (tcc_size c) of
                      (delta, True) \<Rightarrow>
                        (tcc_count c + delta, alist_put sid (fresh_count ref info (tcc_count c + delta)) cache)
                    | (_, False) \<Rightarrow> recount)
              else recount)"

subsection \<open>First messages\<close>

definition extractRawFirstMessage :: "disk \<Rightarrow> SessionRef \<Rightarrow> gostring" where
  "extractRawFirstMessage d ref =
     (if sref_Agent ref = agentClaudeCode then ExtractFirstUserMessage (open_file d (sref_Path ref))
      else if sref_Agent ref = agentCodexName then codex_ExtractFirstUserMessage (open_file d (sref_Path ref))
      else [])"

definition set_counts :: "gostring \<Rightarrow> int \<Rightarrow> gostring \<Rightarrow> gostring \<Rightarrow> CatProject list \<Rightarrow> CatProject list" where
  "set_counts sid count msg full =
     map (\<lambda>p. p\<lparr>apj_Sessions := map (\<lambda>s.
         if asn_SessionID s = sid
         then (let s1 = s\<lparr>asn_TurnCount := count\<rparr> in
               if msg \<noteq> [] then s1\<lparr>asn_FirstMessage := msg, asn_FirstMessageForTitle := full\<rparr> else s1)
         else s) (apj_Sessions p)\<rparr>)"

definition cached_text :: "(gostring \<times> gostring) list \<Rightarrow> gostring \<Rightarrow> gostring" where
  "cached_text m k = (case alist_get m k of Some t \<Rightarrow> t | None \<Rightarrow> [])"

text \<open>One session of the loop, then the removal of the entries that are not live.\<close>

definition populate_one ::
  "disk \<Rightarrow> gostring \<times> SessionRef \<Rightarrow> CatProject list \<times> Index \<Rightarrow> CatProject list \<times> Index" where
  "populate_one d p acc =
     (case (p, acc) of ((sid, ref), (projects, ix)) \<Rightarrow>
        (case countSessionBlocksCached d sid ref (ix_turnCounts ix) of (count, counts) \<Rightarrow>
           let ix1 = ix\<lparr>ix_turnCounts := counts\<rparr>;
               cached = cached_text (ix_firstMessages ix) sid;
               cachedFull = cached_text (ix_firstMessagesFull ix) sid
           in if cached \<noteq> [] then (set_counts sid count cached cachedFull projects, ix1)
              else let raw = extractRawFirstMessage d ref;
                       msg = cleanFirstMessageText raw; full = firstMessageForTitle raw;
                       ix2 = (if msg \<noteq> []
                              then ix1\<lparr>ix_firstMessages := alist_put sid msg (ix_firstMessages ix1),
                                       ix_firstMessagesFull := alist_put sid full (ix_firstMessagesFull ix1)\<rparr>
                              else ix1)
                   in (set_counts sid count msg full projects, ix2)))"

definition forget_vanished :: "(gostring \<times> SessionRef) list \<Rightarrow> Index \<Rightarrow> Index" where
  "forget_vanished sessions ix =
     (let gone = filter (\<lambda>k. k \<notin> set (keys sessions)) (keys (ix_firstMessages ix)) in
      ix\<lparr>ix_firstMessages := fold alist_del gone (ix_firstMessages ix),
         ix_firstMessagesFull := fold alist_del gone (ix_firstMessagesFull ix),
         ix_turnCounts := fold alist_del gone (ix_turnCounts ix)\<rparr>)"

definition populateFirstMessages ::
  "disk \<Rightarrow> CatProject list \<Rightarrow> (gostring \<times> SessionRef) list \<Rightarrow> Index \<Rightarrow> CatProject list \<times> Index" where
  "populateFirstMessages d projects sessions ix =
     (case fold (populate_one d) sessions (projects, ix) of (ps, ix1) \<Rightarrow> (ps, forget_vanished sessions ix1))"

subsection \<open>Codex metadata\<close>

record codexSessionMetadata =
  cm_Title :: gostring
  cm_Archived :: bool

definition no_metadata :: codexSessionMetadata where "no_metadata = \<lparr>cm_Title = [], cm_Archived = False\<rparr>"

text \<open>The rows of the query on the state database, those that could be scanned.\<close>

definition readCodexStateDBMetadata :: "disk \<Rightarrow> (gostring \<times> codexSessionMetadata) list" where
  "readCodexStateDBMetadata d =
     fold (\<lambda>(id0, title, archived) m.
         let sid = TrimSpace id0 in
         if sid \<noteq> [] then alist_put sid \<lparr>cm_Title = cleanCodexThreadTitle title, cm_Archived = archived \<noteq> 0\<rparr> m else m)
       (dk_threads d) []"

definition index_title_fields :: "(gostring \<times> (gostring \<times> gostring) decoder) list" where
  "index_title_fields =
     [(''id'', str_field (\<lambda>s p. (s, snd p))), (''thread_name'', str_field (\<lambda>s p. (fst p, s)))]"

definition readCodexSessionIndexTitles :: "gostring option \<Rightarrow> (gostring \<times> gostring) list" where
  "readCodexSessionIndexTitles file =
     (case file of
        None \<Rightarrow> []
      | Some content \<Rightarrow>
          fold (\<lambda>line m.
              case unmarshal_struct index_title_fields ([], []) line of ((id0, name), err) \<Rightarrow>
                if err then m
                else let sid = TrimSpace id0; title = cleanCodexThreadTitle name in
                  if sid \<noteq> [] \<and> title \<noteq> [] then alist_put sid title m else m)
            (filter (\<lambda>l. l \<noteq> []) (map TrimSpace (fst (scan_lines content)))) [])"

definition metadata_of :: "(gostring \<times> codexSessionMetadata) list \<Rightarrow> gostring \<Rightarrow> codexSessionMetadata" where
  "metadata_of m sid = (case alist_get m sid of Some x \<Rightarrow> x | None \<Rightarrow> no_metadata)"

definition readCodexSessionMetadata :: "disk \<Rightarrow> gostring \<Rightarrow> (gostring \<times> codexSessionMetadata) list" where
  "readCodexSessionMetadata d codexHome =
     fold (\<lambda>(sid, title) m. alist_put sid ((metadata_of m sid)\<lparr>cm_Title := title\<rparr>) m)
       (readCodexSessionIndexTitles (open_file d (PathJoin [codexHome, ''session_index.jsonl''])))
       (readCodexStateDBMetadata d)"

definition sort_deleted :: "DeletedSession list \<Rightarrow> DeletedSession list" where
  "sort_deleted xs = sort_key ds_Agent (sort_key ds_SessionID xs)"

definition codexDeletedSessions :: "(gostring \<times> codexSessionMetadata) list \<Rightarrow> DeletedSession list" where
  "codexDeletedSessions m =
     sort_deleted (map (\<lambda>(sid, _). \<lparr>ds_SessionID = sid, ds_Agent = agentCodexName\<rparr>)
       (filter (\<lambda>(sid, meta). TrimSpace sid \<noteq> [] \<and> cm_Archived meta) m))"

definition merge_key :: "DeletedSession \<Rightarrow> gostring" where
  "merge_key x = ds_Agent x @ [CHR 0x00] @ ds_SessionID x"

definition mergeDeletedSessions :: "DeletedSession list \<Rightarrow> gostring list \<Rightarrow> gostring \<Rightarrow> DeletedSession list" where
  "mergeDeletedSessions existing sids agent =
     (let trimmed = map (\<lambda>x. x\<lparr>ds_SessionID := TrimSpace (ds_SessionID x)\<rparr>) existing @
            map (\<lambda>sid. \<lparr>ds_SessionID = TrimSpace sid, ds_Agent = agent\<rparr>) sids;
          seen = fold (\<lambda>x m. alist_put (merge_key x) x m) (filter (\<lambda>x. ds_SessionID x \<noteq> []) trimmed) []
      in sort_deleted (map snd seen))"

subsection \<open>The snapshot\<close>

definition sortSessions :: "CatSession list \<Rightarrow> CatSession list" where
  "sortSessions ss = rev (sort_key asn_Timestamp (sort_key asn_SessionID ss))"

definition buildCatalogSession :: "disk \<Rightarrow> gostring \<Rightarrow> gostring \<Rightarrow> CatSession" where
  "buildCatalogSession d sid path =
     \<lparr>asn_SessionID = sid, asn_Title = [],
      asn_Timestamp = (case dk_file d path of Some info \<Rightarrow> dk_rfc3339 d (df_mod info) | None \<Rightarrow> []),
      asn_TurnCount = 0, asn_Snippet = [], asn_FirstMessage = [], asn_FirstMessageForTitle = []\<rparr>"

definition normalizeCodexTimestamp :: "disk \<Rightarrow> gostring \<Rightarrow> gostring" where
  "normalizeCodexTimestamp d ts = (if ts = [] then [] else case dk_codexTime d ts of Some t \<Rightarrow> t | None \<Rightarrow> ts)"

definition claude_path :: "IndexConfig \<Rightarrow> ClaudeProject \<Rightarrow> SessionFile \<Rightarrow> gostring" where
  "claude_path cfg p s = PathJoin [PathJoin [ic_ClaudeHome cfg, cp_DirName p], sf_ID s @ ''.jsonl'']"

definition claude_session :: "disk \<Rightarrow> IndexConfig \<Rightarrow> ClaudeProject \<Rightarrow> SessionFile \<Rightarrow> CatSession" where
  "claude_session d cfg p s =
     (let c = buildCatalogSession d (sf_ID s) (claude_path cfg p s) in
      c\<lparr>asn_Snippet := catalogSessionTitle (dk_localTime d) agentClaudeCode (cp_Cwd p) (sf_ID s) (asn_Timestamp c)\<rparr>)"

type_synonym snapshot_acc = "CatProject list \<times> (gostring \<times> SessionRef) list"

definition add_project :: "CatProject \<Rightarrow> CatProject list \<Rightarrow> CatProject list" where
  "add_project p ps = (if apj_Sessions p \<noteq> [] then ps @ [p] else ps)"

definition add_claude_project :: "disk \<Rightarrow> IndexConfig \<Rightarrow> ClaudeProject \<Rightarrow> snapshot_acc \<Rightarrow> snapshot_acc" where
  "add_claude_project d cfg p acc =
     (add_project \<lparr>apj_Agent = agentClaudeCode, apj_Cwd = cp_Cwd p,
          apj_Sessions = sortSessions (map (claude_session d cfg p) (cp_Sessions p))\<rparr> (fst acc),
      fold (\<lambda>s. alist_put (sf_ID s)
          \<lparr>sref_Agent = agentClaudeCode, sref_Cwd = cp_Cwd p, sref_Path = claude_path cfg p s, sref_Title = []\<rparr>)
        (cp_Sessions p) (snd acc))"

definition codex_session :: "disk \<Rightarrow> (gostring \<times> codexSessionMetadata) list \<Rightarrow> gostring \<Rightarrow> CodexFile \<Rightarrow> CatSession" where
  "codex_session d metadata cwd f =
     (let c0 = buildCatalogSession d (cf_SessionID f) (cf_Path f);
          c = c0\<lparr>asn_Title := cm_Title (metadata_of metadata (cf_SessionID f)),
                 asn_Timestamp := ix_firstNonEmpty [asn_Timestamp c0, normalizeCodexTimestamp d (cf_Timestamp f)]\<rparr>
      in c\<lparr>asn_Snippet := catalogSessionTitle (dk_localTime d) agentCodexName cwd (cf_SessionID f) (asn_Timestamp c)\<rparr>)"

definition codex_archived :: "(gostring \<times> codexSessionMetadata) list \<Rightarrow> CodexFile \<Rightarrow> bool" where
  "codex_archived metadata f \<longleftrightarrow> cf_Archived f \<or> cm_Archived (metadata_of metadata (cf_SessionID f))"

definition add_codex_project ::
  "disk \<Rightarrow> (gostring \<times> codexSessionMetadata) list \<Rightarrow> gostring \<times> CodexFile list \<Rightarrow> snapshot_acc \<Rightarrow> snapshot_acc" where
  "add_codex_project d metadata p acc =
     (case p of (cwd, fs) \<Rightarrow>
        let live = filter (\<lambda>f. \<not> codex_archived metadata f) fs in
        (add_project \<lparr>apj_Agent = agentCodexName, apj_Cwd = cwd,
            apj_Sessions = sortSessions (map (codex_session d metadata cwd) live)\<rparr> (fst acc),
         fold (\<lambda>f. alist_put (cf_SessionID f)
             \<lparr>sref_Agent = agentCodexName, sref_Cwd = cwd, sref_Path = cf_Path f,
              sref_Title = asn_Title (codex_session d metadata cwd f)\<rparr>)
           live (snd acc)))"

definition archived_ids :: "(gostring \<times> codexSessionMetadata) list \<Rightarrow> (gostring \<times> CodexFile list) list \<Rightarrow> gostring list" where
  "archived_ids metadata ps =
     filter (\<lambda>sid. TrimSpace sid \<noteq> []) (map cf_SessionID (filter (codex_archived metadata) (concat (map snd ps))))"

definition sort_projects :: "CatProject list \<Rightarrow> CatProject list" where
  "sort_projects ps = sort_key apj_Cwd (sort_key apj_Agent ps)"

definition claude_part :: "disk \<Rightarrow> IndexConfig \<Rightarrow> gostring + snapshot_acc" where
  "claude_part d cfg =
     (if ic_ClaudeHome cfg = [] then Inr ([], [])
      else bind_sum (dk_claude d) (\<lambda>store. Inr (fold (add_claude_project d cfg) (ListProjects store) ([], []))))"

definition codex_part :: "disk \<Rightarrow> IndexConfig \<Rightarrow> snapshot_acc \<Rightarrow> gostring + (snapshot_acc \<times> DeletedSession list)" where
  "codex_part d cfg acc =
     (if ic_CodexHome cfg = [] then Inr (acc, [])
      else let metadata = readCodexSessionMetadata d (ic_CodexHome cfg) in
        bind_sum (dk_codex d) (\<lambda>(live, archived).
          let ps = codex_ListProjects live archived in
          Inr (fold (add_codex_project d metadata) ps acc,
               mergeDeletedSessions (codexDeletedSessions metadata) (archived_ids metadata ps) agentCodexName)))"

definition buildSnapshot ::
  "disk \<Rightarrow> IndexConfig \<Rightarrow> gostring + (CatProject list \<times> (gostring \<times> SessionRef) list \<times> DeletedSession list)" where
  "buildSnapshot d cfg =
     bind_sum (claude_part d cfg) (\<lambda>acc.
     bind_sum (codex_part d cfg acc) (\<lambda>((projects, sessions), deleted).
       Inr (sort_projects projects, sessions, deleted)))"

definition nul :: gostring where "nul = [CHR 0x00]"

definition session_signature :: "CatSession \<Rightarrow> gostring" where
  "session_signature s =
     asn_SessionID s @ nul @ asn_Timestamp s @ nul @ asn_Title s @ nul @ asn_FirstMessage s @ nul @
     asn_FirstMessageForTitle s @ nul @ asn_Snippet s @ nul @ Itoa (asn_TurnCount s) @ nul"

definition snapshotSignature :: "CatProject list \<Rightarrow> DeletedSession list \<Rightarrow> gostring" where
  "snapshotSignature projects deleted =
     concat (map (\<lambda>x. ''deleted'' @ nul @ ds_Agent x @ nul @ ds_SessionID x @ nul) deleted) @
     concat (map (\<lambda>p. apj_Agent p @ nul @ apj_Cwd p @ nul @ concat (map session_signature (apj_Sessions p))) projects)"

subsection \<open>Refreshing and reading\<close>

text \<open>The channel of changes is never closed, so the send that may find it full cannot panic.\<close>

definition notifyChanged :: "Index \<Rightarrow> Index" where
  "notifyChanged ix = (case try_send () (ix_changes ix) of Inr c \<Rightarrow> ix\<lparr>ix_changes := c\<rparr> | Inl _ \<Rightarrow> ix)"

definition refreshLocked :: "disk \<Rightarrow> IndexConfig \<Rightarrow> time \<Rightarrow> Index \<Rightarrow> gostring option \<times> Index" where
  "refreshLocked d cfg now ix =
     (case buildSnapshot d cfg of
        Inl err \<Rightarrow> (Some err, ix\<lparr>ix_lastErr := Some err, ix_firstScanDone := True\<rparr>)
      | Inr (projects0, sessions, deleted) \<Rightarrow>
          (case populateFirstMessages d projects0 sessions ix of
             (projects, ix1) \<Rightarrow>
               let snapshot = snapshotSignature projects deleted;
                   ix2 = ix1\<lparr>ix_projects := projects, ix_sessions := sessions, ix_deleted := deleted,
                             ix_lastScan := now, ix_snapshot := snapshot, ix_lastErr := None, ix_firstScanDone := True\<rparr>
               in (None, if ix_snapshot ix1 \<noteq> snapshot then notifyChanged ix2 else ix2)))"

definition fresh_scan :: "duration \<Rightarrow> time \<Rightarrow> Index \<Rightarrow> bool" where
  "fresh_scan maxAge now ix \<longleftrightarrow> ix_lastErr ix = None \<and> ix_lastScan ix \<noteq> 0 \<and> now - ix_lastScan ix < maxAge"

definition RefreshIfStale :: "disk \<Rightarrow> IndexConfig \<Rightarrow> duration \<Rightarrow> time \<Rightarrow> Index \<Rightarrow> gostring option \<times> Index" where
  "RefreshIfStale d cfg maxAge now ix =
     (if maxAge > 0 \<and> fresh_scan maxAge now ix then (None, ix) else refreshLocked d cfg now ix)"

definition RefreshForNexusSync :: "disk \<Rightarrow> IndexConfig \<Rightarrow> duration \<Rightarrow> time \<Rightarrow> Index \<Rightarrow> gostring option \<times> Index" where
  "RefreshForNexusSync d cfg maxAge now ix =
     (if maxAge \<le> 0 then (None, ix)
      else if \<not> ix_firstScanDone ix then (None, ix)
      else RefreshIfStale d cfg maxAge now ix)"

text \<open>A lookup waits for the first scan; after two minutes it goes on without it.\<close>

definition ix_FindSession :: "gostring \<Rightarrow> Index \<Rightarrow> SessionRef option" where
  "ix_FindSession sid ix = alist_get (ix_sessions ix) sid"

record IndexStatus =
  xs_LastScan :: time
  xs_LastError :: gostring
  xs_ProjectCount :: nat
  xs_SessionCount :: nat

definition ix_Status :: "Index \<Rightarrow> IndexStatus" where
  "ix_Status ix =
     \<lparr>xs_LastScan = ix_lastScan ix, xs_LastError = (case ix_lastErr ix of Some e \<Rightarrow> e | None \<Rightarrow> []),
      xs_ProjectCount = length (ix_projects ix), xs_SessionCount = length (ix_sessions ix)\<rparr>"

definition buildSessionSummary :: "gostring \<Rightarrow> Block list \<Rightarrow> CatSession" where
  "buildSessionSummary sid blocks =
     (let step = (\<lambda>b s.
            let s1 = (if bl_Timestamp b \<noteq> [] then s\<lparr>asn_Timestamp := bl_Timestamp b\<rparr> else s) in
            if asn_Snippet s1 = [] \<and> bl_Kind b = BlockUserMessage then s1\<lparr>asn_Snippet := truncateSingleLine (bl_Text b) 140\<rparr> else s1);
          s = fold step blocks \<lparr>asn_SessionID = sid, asn_Title = [], asn_Timestamp = [], asn_TurnCount = 0,
                asn_Snippet = [], asn_FirstMessage = [], asn_FirstMessageForTitle = []\<rparr>
      in if asn_Snippet s = [] then s\<lparr>asn_Snippet := ''(empty session)''\<rparr> else s)"

subsection \<open>Watching the file system\<close>

definition Abs :: "gostring \<Rightarrow> gostring \<Rightarrow> gostring" where
  "Abs wd p = (if IsAbs p then Clean p else PathJoin [wd, p])"

definition cleanWatchPath :: "gostring \<Rightarrow> gostring \<Rightarrow> gostring" where
  "cleanWatchPath wd p = (if TrimSpace p = [] then [] else Clean (Abs wd p))"

definition path_elems :: "gostring \<Rightarrow> gostring list" where
  "path_elems p = filter (\<lambda>e. e \<noteq> []) (split_byte (CHR ''/'') p)"

fun drop_common :: "gostring list \<Rightarrow> gostring list \<Rightarrow> gostring list \<times> gostring list" where
  "drop_common (b # bs) (t # ts) = (if b = t then drop_common bs ts else (b # bs, t # ts))"
| "drop_common bs ts = (bs, ts)"

text \<open>\<open>filepath.Rel\<close> of two absolute paths that are clean.\<close>

definition Rel :: "gostring \<Rightarrow> gostring \<Rightarrow> gostring" where
  "Rel base targ =
     (if base = targ then ''.''
      else case drop_common (path_elems base) (path_elems targ) of
        (bs, ts) \<Rightarrow> Join (replicate (length bs) ''..'' @ ts) ''/'')"

definition pathWithin :: "gostring \<Rightarrow> gostring \<Rightarrow> gostring \<Rightarrow> bool" where
  "pathWithin wd root0 path0 \<longleftrightarrow>
     (let root = cleanWatchPath wd root0; path = cleanWatchPath wd path0 in
      root \<noteq> [] \<and> path \<noteq> [] \<and>
      (let rel = Rel root path in rel = ''.'' \<or> (rel \<noteq> ''..'' \<and> \<not> HasPrefix rel ''../'')))"

definition shouldWatchRecursiveDir :: "gostring \<Rightarrow> IndexConfig \<Rightarrow> gostring \<Rightarrow> bool" where
  "shouldWatchRecursiveDir wd cfg path \<longleftrightarrow>
     ic_ClaudeHome cfg \<noteq> [] \<and> pathWithin wd (ic_ClaudeHome cfg) path \<or>
     ic_CodexHome cfg \<noteq> [] \<and>
     (pathWithin wd (PathJoin [ic_CodexHome cfg, ''sessions'']) path \<or>
      pathWithin wd (PathJoin [ic_CodexHome cfg, ''archived_sessions'']) path)"

definition watchRoots :: "IndexConfig \<Rightarrow> (gostring \<times> bool) list" where
  "watchRoots cfg =
     (if ic_ClaudeHome cfg \<noteq> [] then [(ic_ClaudeHome cfg, True)] else []) @
     (if ic_CodexHome cfg \<noteq> []
      then [(ic_CodexHome cfg, False), (PathJoin [ic_CodexHome cfg, ''sessions''], True),
            (PathJoin [ic_CodexHome cfg, ''archived_sessions''], True)]
      else [])"

definition removeWatchedDir :: "gostring \<Rightarrow> gostring \<Rightarrow> gostring list \<Rightarrow> gostring list" where
  "removeWatchedDir wd path0 watched =
     (let path = cleanWatchPath wd path0 in
      if path = [] then watched else filter (\<lambda>w. \<not> (w = path \<or> pathWithin wd path w)) watched)"

definition shouldRefreshForPath :: "gostring \<Rightarrow> bool" where
  "shouldRefreshForPath path \<longleftrightarrow>
     (let base = Base path in
      HasSuffix base ''.jsonl'' \<or>
      base \<in> {''state_5.sqlite'', ''state_5.sqlite-wal'', ''state_5.sqlite-shm'', ''state_5.sqlite-journal'', ''session_index.jsonl''} \<or>
      CHR ''.'' \<notin> set base)"

text \<open>
  The loop of \<open>Start\<close> after its first refresh. \<open>wl_asked\<close>: a request waits in \<open>refreshCh\<close>;
  \<open>wl_timer\<close>: there is a debounce timer, and whether it runs; \<open>wl_tick\<close>: its channel holds a
  tick; \<open>wl_listen\<close>: \<open>debounceC\<close> is that channel and not nil. Each step is one thing the
  \<open>select\<close> can get, or the timer running out.
\<close>

record watch_loop =
  wl_index :: Index
  wl_asked :: bool
  wl_timer :: "bool option"
  wl_tick :: bool
  wl_listen :: bool

definition watch_start :: "Index \<Rightarrow> watch_loop" where
  "watch_start ix = \<lparr>wl_index = ix, wl_asked = False, wl_timer = None, wl_tick = False, wl_listen = False\<rparr>"

definition on_refresh_request :: "watch_loop \<Rightarrow> watch_loop" where
  "on_refresh_request s =
     (if wl_timer s = None then s\<lparr>wl_asked := False, wl_timer := Some True, wl_listen := True\<rparr>
      else s\<lparr>wl_asked := False, wl_timer := Some True, wl_tick := False\<rparr>)"

definition on_debounce :: "disk \<Rightarrow> IndexConfig \<Rightarrow> time \<Rightarrow> watch_loop \<Rightarrow> watch_loop" where
  "on_debounce d cfg now s = s\<lparr>wl_index := snd (refreshLocked d cfg now (wl_index s)), wl_tick := False, wl_listen := False\<rparr>"

datatype wait_source = FromFile gostring | FromRequest | FromTimer | FromDebounce | FromTicker

inductive wstep :: "IndexConfig \<Rightarrow> watch_loop \<Rightarrow> wait_source \<Rightarrow> watch_loop \<Rightarrow> bool" for cfg where
  w_file: "wstep cfg s (FromFile name) (if shouldRefreshForPath name then s\<lparr>wl_asked := True\<rparr> else s)"
| w_request: "wl_asked s \<Longrightarrow> wstep cfg s FromRequest (on_refresh_request s)"
| w_timer: "wl_timer s = Some True \<Longrightarrow> wstep cfg s FromTimer (s\<lparr>wl_timer := Some False, wl_tick := True\<rparr>)"
| w_debounce: "wl_listen s \<Longrightarrow> wl_tick s \<Longrightarrow> wstep cfg s FromDebounce (on_debounce d cfg now s)"
| w_ticker: "ic_RefreshInterval cfg > 0 \<Longrightarrow>
    wstep cfg s FromTicker (s\<lparr>wl_index := snd (refreshLocked d cfg now (wl_index s))\<rparr>)"

inductive wrun :: "IndexConfig \<Rightarrow> watch_loop \<Rightarrow> wait_source list \<Rightarrow> watch_loop \<Rightarrow> bool" for cfg where
  wrun_Nil: "wrun cfg s [] s"
| wrun_Cons: "wstep cfg s e t \<Longrightarrow> wrun cfg t es u \<Longrightarrow> wrun cfg s (e # es) u"

inductive_cases wstepE: "wstep cfg s e t"
inductive_simps wrun_Nil_iff [simp]: "wrun cfg s [] t"
inductive_simps wrun_Cons_iff [simp]: "wrun cfg s (e # es) t"

end
