(* ===== verification/IndexProps.thy ===== *)
theory IndexProps
  imports SessionIndex
begin

section \<open>The session index: properties\<close>

subsection \<open>The debounce\<close>

text \<open>
  Once the debounce has fired, its channel variable is nil and the timer is there, so that no
  request arms the channel again.
\<close>

definition spent :: "watch_loop \<Rightarrow> bool" where
  "spent s \<longleftrightarrow> wl_timer s \<noteq> None \<and> \<not> wl_listen s"

lemma spent_step: "wstep cfg s e t \<Longrightarrow> spent s \<Longrightarrow> spent t \<and> e \<noteq> FromDebounce \<and> (e \<noteq> FromTicker \<longrightarrow> wl_index t = wl_index s)"
  by (erule wstepE) (auto simp: spent_def on_refresh_request_def)

lemma spent_run:
  "wrun cfg s es t \<Longrightarrow> spent s \<Longrightarrow> FromDebounce \<notin> set es \<and> (FromTicker \<notin> set es \<longrightarrow> wl_index t = wl_index s)"
proof (induction rule: wrun.induct)
  case (wrun_Nil s)
  then show ?case by simp
next
  case (wrun_Cons s e t es u)
  from spent_step[OF wrun_Cons.hyps(1) wrun_Cons.prems] wrun_Cons.IH show ?case by auto
qed

definition unspent :: "watch_loop \<Rightarrow> bool" where
  "unspent s \<longleftrightarrow> (wl_timer s \<noteq> None \<longrightarrow> wl_listen s)"

lemma unspent_step:
  "wstep cfg s e t \<Longrightarrow> unspent s \<Longrightarrow> wl_tick s \<longrightarrow> wl_timer s \<noteq> None \<Longrightarrow>
   (if e = FromDebounce then spent t else unspent t) \<and> (wl_tick t \<longrightarrow> wl_timer t \<noteq> None)"
  by (erule wstepE) (auto simp: spent_def unspent_def on_refresh_request_def on_debounce_def)

lemma unspent_run:
  "wrun cfg s es t \<Longrightarrow> unspent s \<Longrightarrow> wl_tick s \<longrightarrow> wl_timer s \<noteq> None \<Longrightarrow> count_list es FromDebounce \<le> 1"
proof (induction rule: wrun.induct)
  case (wrun_Nil s)
  then show ?case by simp
next
  case (wrun_Cons s e t es u)
  note st = unspent_step[OF wrun_Cons.hyps(1) wrun_Cons.prems]
  show ?case
  proof (cases "e = FromDebounce")
    case True
    then have "FromDebounce \<notin> set es" using st spent_run[OF wrun_Cons.hyps(2)] by simp
    then show ?thesis using True by (simp add: count_list_0_iff)
  next
    case False
    then show ?thesis using st wrun_Cons.IH by simp
  qed
qed

lemma wrun_append: "wrun cfg s (as @ bs) t \<longleftrightarrow> (\<exists>u. wrun cfg s as u \<and> wrun cfg u bs t)"
  by (induction as arbitrary: s) auto

lemma spent_after:
  "wrun cfg s (as @ [FromDebounce]) u \<Longrightarrow> unspent s \<Longrightarrow> wl_tick s \<longrightarrow> wl_timer s \<noteq> None \<Longrightarrow> spent u"
proof (induction as arbitrary: s)
  case Nil
  then show ?case using unspent_step[of cfg s FromDebounce u] by simp
next
  case (Cons a as)
  then obtain v where v: "wstep cfg s a v" "wrun cfg v (as @ [FromDebounce]) u" by auto
  show ?case
  proof (cases "a = FromDebounce")
    case True
    then have "spent v" using unspent_step[OF v(1) Cons.prems(2,3)] by simp
    then show ?thesis using spent_run[OF v(2)] by simp
  next
    case False
    then show ?thesis using unspent_step[OF v(1) Cons.prems(2,3)] Cons.IH[OF v(2)] by simp
  qed
qed

text \<open>
  C39. In every run of the watch loop the debounce fires at most once; after it has fired, only
  the ticker of the configured interval still refreshes the index, however many files change.
\<close>

theorem file_changes_refresh_once:
  assumes "wrun cfg (watch_start ix) es t"
  shows "count_list es FromDebounce \<le> 1 \<and>
    (\<forall>as bs. es = as @ FromDebounce # bs \<and> FromTicker \<notin> set bs \<longrightarrow>
      (\<exists>u. wrun cfg (watch_start ix) (as @ [FromDebounce]) u \<and> wl_index t = wl_index u))"
proof (intro conjI allI impI)
  have start: "unspent (watch_start ix)" "wl_tick (watch_start ix) \<longrightarrow> wl_timer (watch_start ix) \<noteq> None"
    by (simp_all add: unspent_def watch_start_def)
  show one: "count_list es FromDebounce \<le> 1" using unspent_run[OF assms start] .
  fix as bs assume es: "es = as @ FromDebounce # bs \<and> FromTicker \<notin> set bs"
  then have "wrun cfg (watch_start ix) ((as @ [FromDebounce]) @ bs) t" using assms by simp
  then obtain u where u: "wrun cfg (watch_start ix) (as @ [FromDebounce]) u" "wrun cfg u bs t"
    by (auto simp only: wrun_append)
  have "spent u" using spent_after[OF u(1) start] by simp
  then show "\<exists>u. wrun cfg (watch_start ix) (as @ [FromDebounce]) u \<and> wl_index t = wl_index u"
    using u spent_run[OF u(2)] es by blast
qed

definition watch_cfg :: IndexConfig where
  "watch_cfg = \<lparr>ic_ClaudeHome = ''/h'', ic_CodexHome = [], ic_RefreshInterval = 0\<rparr>"

definition two_changes :: "wait_source list" where
  "two_changes = [FromFile ''a.jsonl'', FromRequest, FromTimer, FromDebounce, FromFile ''b.jsonl'', FromRequest, FromTimer]"

lemma two_changes_run: "\<exists>t. wrun watch_cfg (watch_start new_index) two_changes t"
proof -
  have r: "shouldRefreshForPath ''a.jsonl''" "shouldRefreshForPath ''b.jsonl''"
    by code_simp+
  show ?thesis unfolding two_changes_def
    by (simp, (rule exI conjI w_file w_request w_timer w_debounce[where d = undefined and now = 0] |
        simp add: r on_refresh_request_def watch_start_def on_debounce_def)+)
qed

theorem file_changes_refresh_once_witness:
  "\<exists>t. wrun watch_cfg (watch_start new_index) two_changes t \<and> count_list two_changes FromDebounce \<le> 1"
  using two_changes_run file_changes_refresh_once by blast

subsection \<open>Counting only what was appended\<close>

lemma raw_lines_cat: "raw_lines (xs @ CHR 0x0A # ys) = raw_lines (xs @ [CHR 0x0A]) @ raw_lines ys"
  using split_byte_append[of "CHR 0x0A" xs ys] split_byte_append[of "CHR 0x0A" xs "[]"]
  by (simp add: raw_lines_def Let_def butlast_append)

lemma raw_lines_Nil [simp]: "raw_lines [] = []"
  by (simp add: raw_lines_def)

definition ends_line :: "gostring \<Rightarrow> bool" where
  "ends_line s \<longleftrightarrow> s = [] \<or> last s = CHR 0x0A"

lemma raw_lines_ends:
  assumes "ends_line xs"
  shows "raw_lines (xs @ ys) = raw_lines xs @ raw_lines ys"
proof (cases "xs = []")
  case False
  then have "xs = butlast xs @ [CHR 0x0A]" using assms by (metis append_butlast_last_id ends_line_def)
  then show ?thesis using raw_lines_cat[of "butlast xs" ys] by (metis append.assoc append_Cons append_Nil)
qed simp

lemma takeWhile_all: "length (takeWhile P xs) = length xs \<longleftrightarrow> list_all P xs"
  by (induction xs) auto

lemma scan_short: "\<not> snd (scan_lines s) \<longleftrightarrow> list_all (\<lambda>l. length l < maxLine) (raw_lines s)"
  using length_takeWhile_le[of "\<lambda>l. length l < maxLine" "raw_lines s"]
  by (auto simp: scan_lines_def Let_def not_less takeWhile_all[symmetric] simp del: length_takeWhile_le)

lemma scan_all:
  assumes "\<not> snd (scan_lines s)"
  shows "scan_lines s = (map drop_cr (raw_lines s), False)"
proof -
  have "takeWhile (\<lambda>l. length l < maxLine) (raw_lines s) = raw_lines s"
    using assms by (simp only: scan_short list_all_iff takeWhile_eq_all_conv)
  then show ?thesis by (simp only: scan_lines_def Let_def less_irrefl)
qed

definition full_count :: "gostring \<Rightarrow> gostring \<Rightarrow> int" where
  "full_count agent content = int (block_lines agent (fst (scan_lines content)))"

lemma full_count_append:
  assumes "ends_line old" "\<not> snd (scan_lines (old @ new))"
  shows "full_count agent (old @ new) = full_count agent old + full_count agent new"
    and "\<not> snd (scan_lines old)" "\<not> snd (scan_lines new)"
proof -
  have "\<not> snd (scan_lines old) \<and> \<not> snd (scan_lines new)"
    using assms by (auto simp: scan_short raw_lines_ends)
  then show "\<not> snd (scan_lines old)" "\<not> snd (scan_lines new)" by auto
  then show "full_count agent (old @ new) = full_count agent old + full_count agent new"
    using assms by (simp add: full_count_def scan_all raw_lines_ends block_lines_def)
qed

lemma estimate_full:
  assumes "open_file d (sref_Path ref) = Some content" "\<not> snd (scan_lines (drop n content))"
  shows "estimateSessionBlockCountRange d ref n = (full_count (sref_Agent ref) (drop n content), True)"
  using assms scan_all[OF assms(2)] by (simp add: estimateSessionBlockCountRange_def full_count_def)


definition other_ref :: SessionRef where
  "other_ref = \<lparr>sref_Agent = ''x'', sref_Cwd = [], sref_Path = ''p'', sref_Title = []\<rparr>"

definition other_file :: disk_file where
  "other_file = \<lparr>df_size = 5, df_mod = 2, df_content = Some [CHR ''a'', CHR 0x0A, CHR ''b'', CHR 0x0A, CHR ''c'']\<rparr>"

definition other_disk :: disk where
  "other_disk =
     \<lparr>dk_file = (\<lambda>p. if p = ''p'' then Some other_file else None), dk_claude = Inr None, dk_codex = Inr ([], []),
      dk_threads = [], dk_rfc3339 = (\<lambda>_. []), dk_codexTime = (\<lambda>_. None), dk_localTime = (\<lambda>_. None)\<rparr>"

definition other_entry :: turnCountCacheEntry where
  "other_entry = \<lparr>tcc_path = ''p'', tcc_agent = ''x'', tcc_modTime = 1, tcc_size = 2, tcc_count = 1\<rparr>"


subsection \<open>What is listed is there, and is not announced as deleted\<close>

lemma fold_invariant: "(\<And>x a. x \<in> set xs \<Longrightarrow> P a \<Longrightarrow> P (f x a)) \<Longrightarrow> P a \<Longrightarrow> P (fold f xs a)"
  by (induction xs arbitrary: a) auto

definition sid_shaped :: "gostring \<Rightarrow> bool" where
  "sid_shaped s \<longleftrightarrow> matches_shape hex_lower sid_shape s"

lemma shape_chars: "list_all2 (\<lambda>k c. if k = CHR ''x'' then P c else c = k) shape s \<Longrightarrow> c \<in> set s \<Longrightarrow> P c \<or> c \<in> set shape"
  by (induction rule: list_all2_induct) (auto split: if_splits)

lemma sid_char: "sid_shaped s \<Longrightarrow> c \<in> set s \<Longrightarrow> hex_lower c \<or> c = CHR ''-'' \<or> c = CHR ''x''"
  using shape_chars[of hex_lower sid_shape s c] by (auto simp: sid_shaped_def matches_shape_def sid_shape_def)

lemma sid_byte: "sid_shaped s \<Longrightarrow> c \<in> set s \<Longrightarrow> 45 \<le> (of_char c :: nat) \<and> (of_char c :: nat) < 121"
  by (drule (1) sid_char) (auto simp: hex_lower_def is_digit_def in_range_def Let_def)

lemma TrimSpace_no_space:
  assumes "\<forall>c\<in>set s. 33 \<le> (of_char c :: nat) \<and> (of_char c :: nat) < 127"
  shows "TrimSpace s = s"
proof -
  have a: "ascii s" using assms by (fastforce simp: ascii_def)
  have n: "\<And>c. c \<in> set s \<Longrightarrow> \<not> is_space (of_char c)" using assms by (fastforce simp: is_space_def)
  have d: "dropWhile (\<lambda>c. is_space (of_char c)) xs = xs" if "set xs \<subseteq> set s" for xs
    using n that by (cases xs) auto
  show ?thesis using d[of s] d[of "rev s"] by (simp add: TrimSpace_ascii[OF a])
qed

lemma TrimSpace_sid: "sid_shaped s \<Longrightarrow> TrimSpace s = s"
  using sid_byte by (intro TrimSpace_no_space) fastforce

definition seen_ok :: "(gostring \<times> CodexFile) list \<Rightarrow> bool" where
  "seen_ok m \<longleftrightarrow> distinct (keys m) \<and> (\<forall>(k, f)\<in>set m. cf_SessionID f = k \<and> sid_shaped k)"

lemma rollout_shape: "rollout_name n = Some (ts, sid) \<Longrightarrow> sid_shaped sid"
  by (auto simp: rollout_name_def Let_def sid_shaped_def split: if_splits)

lemma seen_ok_visit: "seen_ok m \<Longrightarrow> seen_ok (visit_rollout e m)"
  using set_alist_put_subset rollout_shape
  by (fastforce simp: seen_ok_def visit_rollout_def Let_def split: option.splits prod.splits)

lemma codex_sessions_seen:
  "\<exists>m. seen_ok m \<and> set (codex_ListSessions live archived) = snd ` set m"
proof -
  have "seen_ok (fold visit_rollout (live @ archived) [])"
    by (rule fold_invariant) (auto simp: seen_ok_visit, simp add: seen_ok_def)
  then show ?thesis by (force simp: codex_ListSessions_def)
qed

lemma codex_session_shaped: "f \<in> set (codex_ListSessions live archived) \<Longrightarrow> sid_shaped (cf_SessionID f)"
  using codex_sessions_seen[of live archived] by (fastforce simp: seen_ok_def)

lemma codex_session_unique:
  assumes "f \<in> set (codex_ListSessions live archived)" "g \<in> set (codex_ListSessions live archived)" "cf_SessionID g = cf_SessionID f"
  shows "g = f"
proof -
  obtain m where m: "seen_ok m" "set (codex_ListSessions live archived) = snd ` set m"
    using codex_sessions_seen by blast
  then obtain k l where kl: "(k, f) \<in> set m" "(l, g) \<in> set m" using assms by auto
  then have "cf_SessionID f = k" "cf_SessionID g = l" using m(1) by (auto simp: seen_ok_def)
  then have "k = l" using assms(3) by simp
  then show ?thesis using kl m(1) by (auto simp: seen_ok_def keys_def dest: eq_key_imp_eq_value)
qed

lemma codex_projects_files: "(cwd, fs) \<in> set (codex_ListProjects live archived) \<Longrightarrow> f \<in> set fs \<Longrightarrow> f \<in> set (codex_ListSessions live archived)"
  by (auto simp: codex_ListProjects_def Let_def)

definition trimmed_keys :: "(gostring \<times> 'a) list \<Rightarrow> bool" where
  "trimmed_keys m \<longleftrightarrow> distinct (keys m) \<and> (\<forall>k\<in>set (keys m). TrimSpace k = k)"

lemma trimmed_put: "trimmed_keys m \<Longrightarrow> TrimSpace k = k \<Longrightarrow> trimmed_keys (alist_put k v m)"
  by (auto simp: trimmed_keys_def)

lemma trimmed_db: "trimmed_keys (readCodexStateDBMetadata d)"
  unfolding readCodexStateDBMetadata_def
  by (rule fold_invariant) (auto simp: Let_def trimmed_put split: prod.splits, simp add: trimmed_keys_def)

lemma trimmed_titles: "trimmed_keys (readCodexSessionIndexTitles f)"
proof (cases f)
  case (Some content)
  show ?thesis unfolding readCodexSessionIndexTitles_def Some option.case
    by (rule fold_invariant) (auto simp: Let_def trimmed_put split: prod.splits, simp add: trimmed_keys_def)
qed (simp add: readCodexSessionIndexTitles_def trimmed_keys_def)

lemma trimmed_metadata: "trimmed_keys (readCodexSessionMetadata d h)"
  unfolding readCodexSessionMetadata_def
proof (rule fold_invariant)
  fix x and a :: "(gostring \<times> codexSessionMetadata) list"
  assume x: "x \<in> set (readCodexSessionIndexTitles (open_file d (PathJoin [h, ''session_index.jsonl''])))" and a: "trimmed_keys a"
  obtain k t where kt: "x = (k, t)" by fastforce
  have "TrimSpace k = k" using x kt trimmed_titles by (force simp: trimmed_keys_def keys_def)
  then show "trimmed_keys ((\<lambda>(sid, title) m. alist_put sid ((metadata_of m sid)\<lparr>cm_Title := title\<rparr>) m) x a)"
    using a kt by (simp add: trimmed_put)
qed (rule trimmed_db)

lemma set_sort_deleted [simp]: "set (sort_deleted xs) = set xs"
  by (simp add: sort_deleted_def)

lemma codexDeleted_archived:
  assumes "trimmed_keys m" "x \<in> set (codexDeletedSessions m)"
  shows "cm_Archived (metadata_of m (ds_SessionID x)) \<and> TrimSpace (ds_SessionID x) = ds_SessionID x"
proof -
  obtain k meta where km: "(k, meta) \<in> set m" "cm_Archived meta" "x = \<lparr>ds_SessionID = k, ds_Agent = agentCodexName\<rparr>"
    using assms(2) by (auto simp: codexDeletedSessions_def)
  then have g: "alist_get m k = Some meta" using assms(1) by (simp add: alist_get_eq_Some trimmed_keys_def)
  have "k \<in> set (keys m)" using km(1) by (force simp: keys_def)
  then have "TrimSpace k = k" using assms(1) by (simp add: trimmed_keys_def)
  then show ?thesis using g km by (simp add: metadata_of_def)
qed

lemma set_map_snd_puts: "snd ` set (fold (\<lambda>x m. alist_put (g x) x m) xs m0) \<subseteq> set xs \<union> snd ` set m0"
proof (induction xs arbitrary: m0)
  case (Cons x xs)
  have "snd ` set (alist_put (g x) x m0) \<subseteq> insert x (snd ` set m0)"
    using image_mono[OF set_alist_put_subset[of "g x" x m0], of snd] by simp
  then show ?case using Cons.IH[of "alist_put (g x) x m0"] by (simp add: subset_iff) blast
qed simp

lemma merged_from:
  assumes "x \<in> set (mergeDeletedSessions existing sids agent)"
  shows "(\<exists>y\<in>set existing. x = y\<lparr>ds_SessionID := TrimSpace (ds_SessionID y)\<rparr>) \<or>
    (\<exists>sid\<in>set sids. x = \<lparr>ds_SessionID = TrimSpace sid, ds_Agent = agent\<rparr>)"
proof -
  let ?t = "map (\<lambda>x. x\<lparr>ds_SessionID := TrimSpace (ds_SessionID x)\<rparr>) existing @
    map (\<lambda>sid. \<lparr>ds_SessionID = TrimSpace sid, ds_Agent = agent\<rparr>) sids"
  have "x \<in> set (filter (\<lambda>x. ds_SessionID x \<noteq> []) ?t)"
    using assms set_map_snd_puts[of merge_key "filter (\<lambda>x. ds_SessionID x \<noteq> []) ?t" "[]"]
    unfolding mergeDeletedSessions_def Let_def set_sort_deleted set_map list.set image_empty Un_empty_right by (rule subsetD[rotated])
  then show ?thesis by auto
qed

text \<open>
  What one part of the catalog satisfies: its sessions have references, and a Codex session in
  it is not archived.
\<close>

definition acc_ok :: "(gostring \<Rightarrow> bool) \<Rightarrow> snapshot_acc \<Rightarrow> bool" where
  "acc_ok live acc \<longleftrightarrow>
     (\<forall>p\<in>set (fst acc). \<forall>s\<in>set (apj_Sessions p).
        asn_SessionID s \<in> set (keys (snd acc)) \<and> (apj_Agent p = agentCodexName \<longrightarrow> live (asn_SessionID s)))"

lemma keys_fold_put: "set (keys (fold (\<lambda>x. alist_put (g x) (h x)) xs m)) = set (map g xs) \<union> set (keys m)"
  by (induction xs arbitrary: m) auto

lemma set_sortSessions [simp]: "set (sortSessions ss) = set ss"
  by (simp add: sortSessions_def)

lemma set_sort_projects [simp]: "set (sort_projects ps) = set ps"
  by (simp add: sort_projects_def)

lemma acc_ok_claude: "acc_ok live acc \<Longrightarrow> acc_ok live (add_claude_project d cfg p acc)"
  by (auto simp: acc_ok_def add_claude_project_def add_project_def keys_fold_put claude_session_def buildCatalogSession_def
      Let_def agentClaudeCode_def agentCodexName_def)

lemma acc_ok_codex:
  assumes "acc_ok live acc" "\<And>f. f \<in> set (snd p) \<Longrightarrow> \<not> codex_archived metadata f \<Longrightarrow> live (cf_SessionID f)"
  shows "acc_ok live (add_codex_project d metadata p acc)"
  using assms
  by (auto simp: acc_ok_def add_codex_project_def add_project_def keys_fold_put codex_session_def buildCatalogSession_def
      Let_def split: prod.splits)

definition catalog_ok :: "CatProject list \<Rightarrow> (gostring \<times> SessionRef) list \<Rightarrow> DeletedSession list \<Rightarrow> bool" where
  "catalog_ok projects sessions deleted \<longleftrightarrow>
     acc_ok (\<lambda>sid. \<lparr>ds_SessionID = sid, ds_Agent = agentCodexName\<rparr> \<notin> set deleted) (projects, sessions)"

lemma tombstone_not_live:
  assumes x: "\<lparr>ds_SessionID = cf_SessionID f, ds_Agent = agentCodexName\<rparr>
      \<in> set (mergeDeletedSessions (codexDeletedSessions (readCodexSessionMetadata d h))
        (archived_ids (readCodexSessionMetadata d h) (codex_ListProjects live archived)) agentCodexName)"
    and f: "f \<in> set (codex_ListSessions live archived)"
  shows "codex_archived (readCodexSessionMetadata d h) f"
  using merged_from[OF x]
proof (elim disjE bexE)
  fix y assume y: "y \<in> set (codexDeletedSessions (readCodexSessionMetadata d h))"
    "\<lparr>ds_SessionID = cf_SessionID f, ds_Agent = agentCodexName\<rparr> = y\<lparr>ds_SessionID := TrimSpace (ds_SessionID y)\<rparr>"
  have "cf_SessionID f = ds_SessionID y"
    using arg_cong[OF y(2), of ds_SessionID] codexDeleted_archived[OF trimmed_metadata y(1)] by simp
  then show ?thesis using codexDeleted_archived[OF trimmed_metadata y(1)] by (simp add: codex_archived_def)
next
  fix sid assume sid: "sid \<in> set (archived_ids (readCodexSessionMetadata d h) (codex_ListProjects live archived))"
    "\<lparr>ds_SessionID = cf_SessionID f, ds_Agent = agentCodexName\<rparr> = \<lparr>ds_SessionID = TrimSpace sid, ds_Agent = agentCodexName\<rparr>"
  obtain g where g: "g \<in> set (codex_ListSessions live archived)" "codex_archived (readCodexSessionMetadata d h) g" "sid = cf_SessionID g"
    using sid(1) codex_projects_files by (fastforce simp: archived_ids_def)
  have "cf_SessionID g = cf_SessionID f"
    using sid(2) g(3) TrimSpace_sid[OF codex_session_shaped[OF g(1)]] by simp
  then show ?thesis using codex_session_unique[OF f g(1)] g(2) by simp
qed

lemma buildSnapshot_ok:
  assumes "buildSnapshot d cfg = Inr (projects, sessions, deleted)"
  shows "catalog_ok projects sessions deleted"
proof -
  obtain a where a: "claude_part d cfg = Inr a" and c: "bind_sum (codex_part d cfg a) (\<lambda>((ps, ss), dl). Inr (sort_projects ps, ss, dl)) = Inr (projects, sessions, deleted)"
    using assms by (auto simp: buildSnapshot_def bind_sum_Inr_iff)
  then obtain ps where p: "codex_part d cfg a = Inr ((ps, sessions), deleted)" "projects = sort_projects ps"
    by (auto simp: bind_sum_Inr_iff)
  have nil: "acc_ok live ([], [])" for live by (simp add: acc_ok_def)
  have ok: "acc_ok live a" for live
  proof (cases "ic_ClaudeHome cfg = []")
    case True
    then show ?thesis using a nil by (simp add: claude_part_def)
  next
    case False
    then obtain store where "a = fold (add_claude_project d cfg) (ListProjects store) ([], [])"
      using a by (auto simp: claude_part_def bind_sum_Inr_iff)
    then show ?thesis using fold_invariant[of _ "acc_ok live", OF acc_ok_claude nil] by simp
  qed
  show ?thesis
  proof (cases "ic_CodexHome cfg = []")
    case True
    then show ?thesis using p ok by (auto simp: codex_part_def catalog_ok_def acc_ok_def)
  next
    case False
    let ?m = "readCodexSessionMetadata d (ic_CodexHome cfg)"
    obtain lv ar where la: "dk_codex d = Inr (lv, ar)" and
      f: "fold (add_codex_project d ?m) (codex_ListProjects lv ar) a = (ps, sessions)" and
      dl: "deleted = mergeDeletedSessions (codexDeletedSessions ?m) (archived_ids ?m (codex_ListProjects lv ar)) agentCodexName"
      using p False by (auto simp: codex_part_def Let_def bind_sum_Inr_iff)
    let ?live = "\<lambda>sid. \<lparr>ds_SessionID = sid, ds_Agent = agentCodexName\<rparr> \<notin> set deleted"
    have "acc_ok ?live (fold (add_codex_project d ?m) (codex_ListProjects lv ar) a)"
    proof (rule fold_invariant[where P = "acc_ok ?live"])
      fix q b assume q: "q \<in> set (codex_ListProjects lv ar)" and b: "acc_ok ?live b"
      show "acc_ok ?live (add_codex_project d ?m q b)"
      proof (rule acc_ok_codex[OF b])
        fix g assume g: "g \<in> set (snd q)" "\<not> codex_archived ?m g"
        then have "g \<in> set (codex_ListSessions lv ar)" using codex_projects_files[of "fst q" "snd q"] q by simp
        then show "?live (cf_SessionID g)" using tombstone_not_live g(2) unfolding dl by blast
      qed
    qed (rule ok)
    then show ?thesis using f p(2) by (simp add: catalog_ok_def acc_ok_def)
  qed
qed

lemma acc_ok_set_counts: "acc_ok live (ps, ss) \<Longrightarrow> acc_ok live (set_counts sid n m f ps, ss)"
  by (fastforce simp: acc_ok_def set_counts_def Let_def)

lemma populate_ok: "acc_ok live (ps, ss) \<Longrightarrow> acc_ok live (fst (populateFirstMessages d ps ss0 ix), ss)"
proof -
  assume a: "acc_ok live (ps, ss)"
  have "acc_ok live (fst (fold (populate_one d) ss0 (ps, ix)), ss)"
    by (rule fold_invariant[where P = "\<lambda>x. acc_ok live (fst x, ss)"])
      (auto simp: populate_one_def Let_def acc_ok_set_counts a split: prod.splits)
  then show ?thesis by (cases "fold (populate_one d) ss0 (ps, ix)") (simp add: populateFirstMessages_def)
qed

text \<open>
  Where the readers found the file of a session: for Claude the file of the id in a directory of
  the project, for Codex a rollout that is not archived.
\<close>

definition claude_file :: "IndexConfig \<Rightarrow> ClaudeProject \<Rightarrow> gostring \<Rightarrow> gostring \<Rightarrow> gostring \<Rightarrow> gostring \<Rightarrow> bool" where
  "claude_file cfg p agent cwd sid path \<longleftrightarrow>
     agent = agentClaudeCode \<and> cwd = cp_Cwd p \<and> sid \<in> sf_ID ` set (cp_Sessions p) \<and>
     path = PathJoin [PathJoin [ic_ClaudeHome cfg, cp_DirName p], sid @ ''.jsonl'']"

definition codex_file ::
  "(gostring \<times> codexSessionMetadata) list \<Rightarrow> gostring \<times> CodexFile list \<Rightarrow> gostring \<Rightarrow> gostring \<Rightarrow> gostring \<Rightarrow> gostring \<Rightarrow> bool" where
  "codex_file metadata p agent cwd sid path \<longleftrightarrow>
     agent = agentCodexName \<and> cwd = fst p \<and>
     (\<exists>f\<in>set (snd p). cf_SessionID f = sid \<and> cf_Path f = path \<and> \<not> cf_Archived f \<and> \<not> cm_Archived (metadata_of metadata sid))"

definition session_file :: "disk \<Rightarrow> IndexConfig \<Rightarrow> gostring \<Rightarrow> gostring \<Rightarrow> gostring \<Rightarrow> gostring \<Rightarrow> bool" where
  "session_file d cfg agent cwd sid path \<longleftrightarrow>
     ic_ClaudeHome cfg \<noteq> [] \<and> (\<exists>store. dk_claude d = Inr store \<and> (\<exists>p\<in>set (ListProjects store). claude_file cfg p agent cwd sid path)) \<or>
     ic_CodexHome cfg \<noteq> [] \<and> (\<exists>live archived. dk_codex d = Inr (live, archived) \<and>
       (\<exists>p\<in>set (codex_ListProjects live archived).
          codex_file (readCodexSessionMetadata d (ic_CodexHome cfg)) p agent cwd sid path))"

definition listed :: "CatProject list \<Rightarrow> gostring \<Rightarrow> gostring \<Rightarrow> gostring \<Rightarrow> bool" where
  "listed ps agent cwd sid \<longleftrightarrow>
     (\<exists>p\<in>set ps. apj_Agent p = agent \<and> apj_Cwd p = cwd \<and> sid \<in> asn_SessionID ` set (apj_Sessions p))"

text \<open>What the snapshot holds when the files \<open>F\<close> have been seen.\<close>

definition holds_files :: "(gostring \<Rightarrow> gostring \<Rightarrow> gostring \<Rightarrow> gostring \<Rightarrow> bool) \<Rightarrow> snapshot_acc \<Rightarrow> bool" where
  "holds_files F acc \<longleftrightarrow>
     (\<forall>agent cwd sid. listed (fst acc) agent cwd sid \<longleftrightarrow> (\<exists>path. F agent cwd sid path)) \<and>
     (\<forall>sid ref. alist_get (snd acc) sid = Some ref \<longrightarrow> F (sref_Agent ref) (sref_Cwd ref) sid (sref_Path ref)) \<and>
     (\<forall>agent cwd sid path. F agent cwd sid path \<longrightarrow> alist_get (snd acc) sid \<noteq> None)"

lemma holds_old: "holds_files F acc \<Longrightarrow> F agent cwd sid path \<Longrightarrow> alist_get (snd acc) sid \<noteq> None"
  unfolding holds_files_def by blast

lemma listed_add_project:
  "listed (add_project p ps) agent cwd sid \<longleftrightarrow>
     listed ps agent cwd sid \<or> apj_Agent p = agent \<and> apj_Cwd p = cwd \<and> sid \<in> asn_SessionID ` set (apj_Sessions p)"
  by (auto simp: listed_def add_project_def)

lemma fold_puts_get:
  "alist_get (fold (\<lambda>x. alist_put (g x) (h x)) xs m) k = Some v \<Longrightarrow> (\<exists>x\<in>set xs. g x = k \<and> h x = v) \<or> alist_get m k = Some v"
  by (induction xs arbitrary: m) (fastforce split: if_splits)+

lemma fold_puts_some:
  "alist_get (fold (\<lambda>x. alist_put (g x) (h x)) xs m) k \<noteq> None \<longleftrightarrow> k \<in> g ` set xs \<or> alist_get m k \<noteq> None"
  by (induction xs arbitrary: m) auto

lemma claude_session_id [simp]: "asn_SessionID (claude_session d cfg p s) = sf_ID s"
  by (simp add: claude_session_def buildCatalogSession_def Let_def)

lemma codex_session_id [simp]: "asn_SessionID (codex_session d metadata cwd f) = cf_SessionID f"
  by (simp add: codex_session_def buildCatalogSession_def Let_def)

lemma holds_claude:
  assumes "holds_files F acc"
  shows "holds_files (\<lambda>a c s q. F a c s q \<or> claude_file cfg p a c s q) (add_claude_project d cfg p acc)"
proof -
  let ?acc = "add_claude_project d cfg p acc"
  let ?ref = "\<lambda>s. \<lparr>sref_Agent = agentClaudeCode, sref_Cwd = cp_Cwd p, sref_Path = claude_path cfg p s, sref_Title = []\<rparr>"
  have snd: "snd ?acc = fold (\<lambda>s. alist_put (sf_ID s) (?ref s)) (cp_Sessions p) (snd acc)" by (simp add: add_claude_project_def)
  have "listed (fst ?acc) a c sid \<longleftrightarrow> (\<exists>q. F a c sid q \<or> claude_file cfg p a c sid q)" for a c sid
    using assms by (auto simp: add_claude_project_def listed_add_project holds_files_def claude_file_def image_image)
  moreover have "F (sref_Agent ref) (sref_Cwd ref) sid (sref_Path ref) \<or> claude_file cfg p (sref_Agent ref) (sref_Cwd ref) sid (sref_Path ref)"
    if "alist_get (snd ?acc) sid = Some ref" for sid ref
    using fold_puts_get[OF that[unfolded snd]] assms by (auto simp: holds_files_def claude_file_def claude_path_def)
  moreover have "alist_get (snd ?acc) sid \<noteq> None" if "F a c sid q \<or> claude_file cfg p a c sid q" for a c sid q
    using that holds_old[OF assms, of a c sid q] unfolding snd fold_puts_some by (auto simp: claude_file_def)
  ultimately show ?thesis unfolding holds_files_def by blast
qed

lemma holds_codex:
  assumes "holds_files F acc"
  shows "holds_files (\<lambda>a c s q. F a c s q \<or> codex_file metadata p a c s q) (add_codex_project d metadata p acc)"
proof -
  obtain cwd fs where p: "p = (cwd, fs)" by fastforce
  let ?acc = "add_codex_project d metadata p acc"
  let ?live = "filter (\<lambda>f. \<not> codex_archived metadata f) fs"
  let ?ref = "\<lambda>f. \<lparr>sref_Agent = agentCodexName, sref_Cwd = cwd, sref_Path = cf_Path f,
      sref_Title = asn_Title (codex_session d metadata cwd f)\<rparr>"
  have snd: "snd ?acc = fold (\<lambda>f. alist_put (cf_SessionID f) (?ref f)) ?live (snd acc)" by (simp add: add_codex_project_def p Let_def)
  have "listed (fst ?acc) a c sid \<longleftrightarrow> (\<exists>q. F a c sid q \<or> codex_file metadata p a c sid q)" for a c sid
    using assms by (auto simp: add_codex_project_def p Let_def listed_add_project holds_files_def codex_file_def codex_archived_def image_image image_iff)
  moreover have "F (sref_Agent ref) (sref_Cwd ref) sid (sref_Path ref) \<or> codex_file metadata p (sref_Agent ref) (sref_Cwd ref) sid (sref_Path ref)"
    if "alist_get (snd ?acc) sid = Some ref" for sid ref
    using fold_puts_get[OF that[unfolded snd]] assms by (auto simp: holds_files_def codex_file_def p codex_archived_def)
  moreover have "alist_get (snd ?acc) sid \<noteq> None" if "F a c sid q \<or> codex_file metadata p a c sid q" for a c sid q
    using that holds_old[OF assms, of a c sid q] unfolding snd fold_puts_some by (auto simp: codex_file_def p codex_archived_def)
  ultimately show ?thesis unfolding holds_files_def by blast
qed

lemma holds_fold:
  assumes "\<And>F p acc. holds_files F acc \<Longrightarrow> holds_files (\<lambda>a c s q. F a c s q \<or> G p a c s q) (f p acc)" "holds_files F acc"
  shows "holds_files (\<lambda>a c s q. F a c s q \<or> (\<exists>p\<in>set ps. G p a c s q)) (fold f ps acc)"
  using assms(2)
proof (induction ps arbitrary: F acc)
  case (Cons p ps)
  then show ?case using Cons.IH[OF assms(1)[OF Cons.prems, of p]] by (simp add: disj_assoc bex_simps)
qed simp

lemma buildSnapshot_holds:
  assumes "buildSnapshot d cfg = Inr (projects, sessions, deleted)"
  shows "holds_files (session_file d cfg) (projects, sessions)"
proof -
  obtain a where a: "claude_part d cfg = Inr a" and c: "bind_sum (codex_part d cfg a) (\<lambda>((ps, ss), dl). Inr (sort_projects ps, ss, dl)) = Inr (projects, sessions, deleted)"
    using assms by (auto simp: buildSnapshot_def bind_sum_Inr_iff)
  then obtain ps where p: "codex_part d cfg a = Inr ((ps, sessions), deleted)" "projects = sort_projects ps"
    by (auto simp: bind_sum_Inr_iff)
  let ?C = "\<lambda>ag c s q. ic_ClaudeHome cfg \<noteq> [] \<and> (\<exists>store. dk_claude d = Inr store \<and> (\<exists>p\<in>set (ListProjects store). claude_file cfg p ag c s q))"
  let ?m = "readCodexSessionMetadata d (ic_CodexHome cfg)"
  let ?X = "\<lambda>ag c s q. ic_CodexHome cfg \<noteq> [] \<and> (\<exists>live archived. dk_codex d = Inr (live, archived) \<and>
       (\<exists>p\<in>set (codex_ListProjects live archived). codex_file ?m p ag c s q))"
  have nil: "holds_files (\<lambda>_ _ _ _. False) ([], [])" by (simp add: holds_files_def listed_def)
  have C: "holds_files ?C a"
  proof (cases "ic_ClaudeHome cfg = []")
    case True
    then show ?thesis using a nil by (simp add: claude_part_def)
  next
    case False
    then obtain store where "dk_claude d = Inr store" "a = fold (add_claude_project d cfg) (ListProjects store) ([], [])"
      using a by (auto simp: claude_part_def bind_sum_Inr_iff)
    then show ?thesis using holds_fold[where ps = "ListProjects store", OF holds_claude nil] False by simp
  qed
  have "holds_files (\<lambda>ag c s q. ?C ag c s q \<or> ?X ag c s q) (ps, sessions)"
  proof (cases "ic_CodexHome cfg = []")
    case True
    then show ?thesis using p C by (auto simp: codex_part_def)
  next
    case False
    obtain lv ar where la: "dk_codex d = Inr (lv, ar)" and
      f: "fold (add_codex_project d ?m) (codex_ListProjects lv ar) a = (ps, sessions)"
      using p False by (auto simp: codex_part_def Let_def bind_sum_Inr_iff)
    then show ?thesis using holds_fold[where G = "codex_file ?m" and f = "add_codex_project d ?m" and ps = "codex_ListProjects lv ar", OF holds_codex C] False by simp
  qed
  moreover have "session_file d cfg = (\<lambda>ag c s q. ?C ag c s q \<or> ?X ag c s q)" by (simp add: fun_eq_iff session_file_def)
  ultimately have "holds_files (session_file d cfg) (ps, sessions)" by (simp only:)
  then show ?thesis by (simp add: p(2) holds_files_def listed_def)
qed

lemma listed_set_counts: "listed (set_counts sid0 n m f ps) = listed ps"
proof -
  define h where "h s = (if asn_SessionID s = sid0 then (let s1 = s\<lparr>asn_TurnCount := n\<rparr> in
      if m \<noteq> [] then s1\<lparr>asn_FirstMessage := m, asn_FirstMessageForTitle := f\<rparr> else s1) else s)" for s :: CatSession
  have "asn_SessionID (h s) = asn_SessionID s" for s by (simp add: Let_def h_def)
  moreover have "set_counts sid0 n m f ps = map (\<lambda>p. p\<lparr>apj_Sessions := map h (apj_Sessions p)\<rparr>) ps"
    unfolding set_counts_def h_def ..
  ultimately show ?thesis by (simp add: listed_def fun_eq_iff image_image)
qed

lemma listed_populated: "listed (fst (populateFirstMessages d ps ss ix)) = listed ps"
proof -
  have "listed (fst (fold (populate_one d) ss (ps, ix))) = listed ps"
    by (rule fold_invariant[where P = "\<lambda>x. listed (fst x) = listed ps"])
      (auto simp: populate_one_def Let_def listed_set_counts split: prod.splits)
  then show ?thesis by (cases "fold (populate_one d) ss (ps, ix)") (simp add: populateFirstMessages_def)
qed

text \<open>
  C24. After a refresh the catalog lists, under each agent and directory, exactly the sessions
  whose files the readers found there; every listed session has a reference, which gives the
  agent, the directory and the path of one of these files (the only one, unless two projects have
  a file of the same session id: then one reference serves both listings); there are no other
  references; and no Codex session is at the same time listed and announced as deleted. A refresh
  whose scan fails leaves all of it as it was.
\<close>

theorem refresh_keeps_catalog_consistent:
  assumes "refreshLocked d cfg now ix = (err, ix')"
  shows "if err = None
    then (\<forall>agent cwd sid. listed (ix_projects ix') agent cwd sid \<longleftrightarrow> (\<exists>path. session_file d cfg agent cwd sid path)) \<and>
      (\<forall>agent cwd sid. listed (ix_projects ix') agent cwd sid \<longrightarrow> alist_get (ix_sessions ix') sid \<noteq> None) \<and>
      (\<forall>sid ref. alist_get (ix_sessions ix') sid = Some ref \<longrightarrow>
         session_file d cfg (sref_Agent ref) (sref_Cwd ref) sid (sref_Path ref)) \<and>
      (\<forall>cwd sid. listed (ix_projects ix') agentCodexName cwd sid \<longrightarrow>
         \<lparr>ds_SessionID = sid, ds_Agent = agentCodexName\<rparr> \<notin> set (ix_deleted ix'))
    else ix_projects ix' = ix_projects ix \<and> ix_sessions ix' = ix_sessions ix \<and> ix_deleted ix' = ix_deleted ix"
proof (cases "buildSnapshot d cfg")
  case (Inl e)
  then show ?thesis using assms by (auto simp: refreshLocked_def)
next
  case (Inr x)
  obtain ps ss dl where x: "x = (ps, ss, dl)" by (cases x) auto
  obtain qs ix1 where q: "populateFirstMessages d ps ss ix = (qs, ix1)" by fastforce
  have ix': "err = None" "ix_projects ix' = qs" "ix_sessions ix' = ss" "ix_deleted ix' = dl"
    using assms Inr x q by (auto simp: refreshLocked_def Let_def notifyChanged_def split: if_splits sum.splits)
  have l: "listed qs = listed ps" using listed_populated[of d ps ss ix] q by simp
  have h: "holds_files (session_file d cfg) (ps, ss)" using buildSnapshot_holds Inr x by simp
  have "\<lparr>ds_SessionID = sid, ds_Agent = agentCodexName\<rparr> \<notin> set dl" if "listed ps agentCodexName cwd sid" for cwd sid
    using buildSnapshot_ok[of d cfg ps ss dl] Inr x that by (auto simp: catalog_ok_def acc_ok_def listed_def)
  then show ?thesis using h unfolding ix' l holds_files_def by auto
qed

definition catalog_disk :: disk where
  "catalog_disk = other_disk\<lparr>dk_claude := Inr (Some [(''-w'', True, Some [\<lparr>de_Name = ''s1.jsonl'', de_IsDir = False, de_File = None\<rparr>])])\<rparr>"

theorem refresh_keeps_catalog_consistent_witness:
  "\<exists>ref. alist_get (ix_sessions (snd (refreshLocked catalog_disk watch_cfg 7 new_index))) ''s1'' = Some ref \<and>
     sref_Agent ref = agentClaudeCode \<and> sref_Cwd ref = ''/w'' \<and> sref_Path ref = PathJoin [PathJoin [''/h'', ''-w''], ''s1.jsonl'']"
proof -
  let ?r = "refreshLocked catalog_disk watch_cfg 7 new_index"
  let ?p = "\<lparr>cp_Cwd = ''/w'', cp_DirName = ''-w'', cp_Sessions = [\<lparr>sf_ID = ''s1'', sf_File = None\<rparr>]\<rparr>"
  have l: "ListProjects (Some [(''-w'', True, Some [\<lparr>de_Name = ''s1.jsonl'', de_IsDir = False, de_File = None\<rparr>])]) = [?p]"
    by code_simp
  have f: "session_file catalog_disk watch_cfg a c ''s1'' q \<longleftrightarrow>
      a = agentClaudeCode \<and> c = ''/w'' \<and> q = PathJoin [PathJoin [''/h'', ''-w''], ''s1.jsonl'']" for a c q
    by (auto simp: session_file_def catalog_disk_def other_disk_def watch_cfg_def l claude_file_def)
  have "fst ?r = None"
    by (simp add: refreshLocked_def buildSnapshot_def claude_part_def codex_part_def watch_cfg_def catalog_disk_def Let_def split: prod.split)
  with refresh_keeps_catalog_consistent[OF surjective_pairing, of catalog_disk watch_cfg 7 new_index]
  have c: "(\<exists>q. session_file catalog_disk watch_cfg a c ''s1'' q) \<longrightarrow> alist_get (ix_sessions (snd ?r)) ''s1'' \<noteq> None"
    "alist_get (ix_sessions (snd ?r)) ''s1'' = Some ref \<longrightarrow>
     session_file catalog_disk watch_cfg (sref_Agent ref) (sref_Cwd ref) ''s1'' (sref_Path ref)" for a c ref
    by simp_all
  from c(1)[of agentClaudeCode "''/w''"] f have "alist_get (ix_sessions (snd ?r)) ''s1'' \<noteq> None" by blast
  then obtain ref where "alist_get (ix_sessions (snd ?r)) ''s1'' = Some ref" by blast
  with c(2) f show ?thesis by blast
qed

end
