(* ===== verification/ControlInject.thy ===== *)
theory ControlInject
  imports Batcher CodexDriver GoPath
begin

section \<open>Messages from the web: the inject handlers\<close>

text \<open>
  \<open>daemon/internal/control/control.go\<close>, the part behind \<open>INJECT_REQUEST\<close>: a message of a
  web user goes to the session that is bound to its id, on a terminal or headless, or starts a
  new conversation. The state is the runner's (what is active and what is mirrored back) and
  that of the driver manager, which holds the terminal manager. The file system, the random
  bytes and the texts of errors of the operating system are arguments; a wait is a function of
  what its \<open>select\<close> gets, in order.
\<close>

subsection \<open>Data\<close>

record InjectFile =
  fl_Filename :: gostring
  fl_Data :: gostring

record InjectRequest =
  iq_RequestID :: gostring
  iq_Mode :: gostring
  iq_SessionID :: gostring
  iq_Agent :: gostring
  iq_Cwd :: gostring
  iq_Text :: gostring
  iq_Model :: gostring
  iq_PermissionMode :: gostring
  iq_Effort :: gostring
  iq_Files :: "InjectFile list"

record InjectEvent =
  ie_RequestID :: gostring
  ie_Type :: gostring
  ie_SessionID :: gostring
  ie_Message :: gostring
  ie_Error :: gostring

definition inject_event :: "gostring \<Rightarrow> gostring \<Rightarrow> gostring \<Rightarrow> gostring \<Rightarrow> InjectEvent" where
  "inject_event rid kind sid err = \<lparr>ie_RequestID = rid, ie_Type = kind, ie_SessionID = sid, ie_Message = [], ie_Error = err\<rparr>"

record activeInject =
  ai_RequestID :: gostring
  ai_SessionID :: gostring
  ai_TerminalSessionID :: gostring
  ai_ExpiresAt :: time

text \<open>\<open>ct_app\<close> stands for the pointer to the client of the app server.\<close>

record codexProcessTerminal =
  ct_app :: nat
  ct_processID :: gostring

record runner =
  rn_active :: "gostring list"
  rn_injects :: "(gostring \<times> activeInject) list"
  rn_subscribers :: "(gostring \<times> int) list"
  rn_events :: "TerminalEvent chan"
  rn_codexTerminals :: "(gostring \<times> codexProcessTerminal) list"

definition new_runner :: runner where
  "new_runner = \<lparr>rn_active = [], rn_injects = [], rn_subscribers = [], rn_events = make_chan 1024, rn_codexTerminals = []\<rparr>"

text \<open>The channel is never closed; an event that finds it full is dropped.\<close>

definition forwardTerminalEvent :: "TerminalEvent \<Rightarrow> runner \<Rightarrow> runner" where
  "forwardTerminalEvent evt rn = (case try_send evt (rn_events rn) of Inr c \<Rightarrow> rn\<lparr>rn_events := c\<rparr> | Inl _ \<Rightarrow> rn)"

definition activeInjectMirrorTTL :: duration where "activeInjectMirrorTTL = 10 * minute"

definition ctl_firstNonEmpty :: "gostring list \<Rightarrow> gostring" where
  "ctl_firstNonEmpty vs = (case filter (\<lambda>v. TrimSpace v \<noteq> []) vs of [] \<Rightarrow> [] | v # _ \<Rightarrow> v)"

subsection \<open>Attachments\<close>

text \<open>\<open>strings.Map\<close> with a function that drops nothing.\<close>

definition map_runes :: "(rune \<Rightarrow> rune) \<Rightarrow> gostring \<Rightarrow> gostring" where
  "map_runes f s = encode_runes (map f (runes s))"

definition component_rune :: "rune \<Rightarrow> bool" where
  "component_rune r \<longleftrightarrow> 97 \<le> r \<and> r \<le> 122 \<or> 65 \<le> r \<and> r \<le> 90 \<or> 48 \<le> r \<and> r \<le> 57 \<or> r = 45 \<or> r = 95"

definition sanitizePathComponent :: "gostring \<Rightarrow> gostring" where
  "sanitizePathComponent s =
     (let out = map_runes (\<lambda>r. if component_rune r then r else 95) s in if out = [] then ''inject'' else out)"

definition safeAttachmentName :: "gostring \<Rightarrow> nat \<Rightarrow> gostring" where
  "safeAttachmentName name index =
     (let base = Base (TrimSpace name) in
      if base = [] \<or> base = ''.'' \<or> base = ''..'' \<or> base = ''/'' then ''attachment-'' @ Itoa (int index + 1)
      else map_runes (\<lambda>r. if r = 47 \<or> r = 92 \<or> r = 0 then 95 else r) base)"

text \<open>
  The disk as far as attachments go: the files with their contents, the directories, and the
  removals that wait for their timer. Paths are clean and absolute, links aside.
\<close>

record attach_disk =
  ad_files :: "(gostring \<times> gostring) list"
  ad_dirs :: "gostring list"
  ad_timers :: "(gostring \<times> time) list"

text \<open>
  \<open>os.MkdirAll\<close>: the directories on the way down that are missing are made, until one cannot be;
  \<open>mkdir\<close> gives the error text of a directory that cannot be made.
\<close>

definition path_prefixes :: "gostring \<Rightarrow> gostring list" where
  "path_prefixes p =
     (let es = filter (\<lambda>e. e \<noteq> []) (split_byte SLASH p) in map (\<lambda>n. ''/'' @ Join (take (Suc n) es) ''/'') [0..<length es])"

fun make_dirs :: "(gostring \<Rightarrow> gostring option) \<Rightarrow> gostring list \<Rightarrow> attach_disk \<Rightarrow> gostring option \<times> attach_disk" where
  "make_dirs mkdir [] d = (None, d)"
| "make_dirs mkdir (p # ps) d =
     (if p \<in> set (ad_dirs d) then make_dirs mkdir ps d
      else case mkdir p of
        Some err \<Rightarrow> (Some err, d)
      | None \<Rightarrow> make_dirs mkdir ps (d\<lparr>ad_dirs := p # ad_dirs d\<rparr>))"

text \<open>
  The files are written one after the other; the first error ends it. \<open>fails\<close> gives the error
  text of a write that fails, and what it has left in the file when it was opened at all.
\<close>

fun write_files ::
  "(gostring \<Rightarrow> (gostring \<times> gostring option) option) \<Rightarrow> gostring \<Rightarrow> nat \<Rightarrow> InjectFile list \<Rightarrow> attach_disk \<Rightarrow>
   (gostring + gostring list) \<times> attach_disk" where
  "write_files fails base i [] d = (Inr [], d)"
| "write_files fails base i (f # rest) d =
     (let dest = PathJoin [base, safeAttachmentName (fl_Filename f) i] in
      case fails dest of
        Some (err, None) \<Rightarrow> (Inl err, d)
      | Some (err, Some part) \<Rightarrow> (Inl err, d\<lparr>ad_files := alist_put dest part (ad_files d)\<rparr>)
      | None \<Rightarrow>
          (case write_files fails base (Suc i) rest (d\<lparr>ad_files := alist_put dest (fl_Data f) (ad_files d)\<rparr>) of
             (Inl err, d1) \<Rightarrow> (Inl err, d1)
           | (Inr refs, d1) \<Rightarrow> (Inr ((CHR ''@'' # dest) # refs), d1)))"

definition attachment_dir :: "gostring \<Rightarrow> InjectRequest \<Rightarrow> gostring" where
  "attachment_dir tmp req = PathJoin [tmp, ''pockly-attachments'', sanitizePathComponent (iq_RequestID req)]"

definition em_dash :: gostring where "em_dash = [CHR 0xE2, CHR 0x80, CHR 0x94]"

definition attachment_text :: "gostring \<Rightarrow> gostring list \<Rightarrow> gostring" where
  "attachment_text txt refs =
     (let label = (if length refs > 1 then ''Attached files'' else ''Attached file'');
          preamble = CHR ''['' # label @ '' '' @ em_dash @ '' read them from these paths:]'';
          body0 = TrimRight txt [CHR 0x0A];
          body = (if body0 \<noteq> [] then body0 @ [CHR 0x0A, CHR 0x0A] else body0)
      in body @ preamble @ [CHR 0x0A] @ Join refs [CHR 0x0A])"

definition writeInjectAttachments ::
  "gostring \<Rightarrow> (gostring \<Rightarrow> gostring option) \<Rightarrow> (gostring \<Rightarrow> (gostring \<times> gostring option) option) \<Rightarrow> time \<Rightarrow> InjectRequest \<Rightarrow>
   attach_disk \<Rightarrow> (gostring + gostring) \<times> attach_disk" where
  "writeInjectAttachments tmp mkdir fails now req d =
     (let base = attachment_dir tmp req in
      case make_dirs mkdir (path_prefixes base) d of
        (Some err, d1) \<Rightarrow> (Inl err, d1)
      | (None, d1) \<Rightarrow>
          (case write_files fails base 0 (iq_Files req) d1 of
             (Inl err, d2) \<Rightarrow> (Inl err, d2)
           | (Inr refs, d2) \<Rightarrow>
               if refs = [] then (Inr (iq_Text req), d2)
               else (Inr (attachment_text (iq_Text req) refs), d2\<lparr>ad_timers := (base, now + 30 * minute) # ad_timers d2\<rparr>)))"

text \<open>
  The timer of a removal fires: \<open>os.RemoveAll\<close> of the directory with everything below it, but for
  what cannot be removed.
\<close>

definition path_below :: "gostring \<Rightarrow> gostring \<Rightarrow> bool" where
  "path_below base p \<longleftrightarrow> p = base \<or> HasPrefix p (base @ ''/'')"

definition attachments_removed :: "(gostring \<Rightarrow> bool) \<Rightarrow> gostring \<times> time \<Rightarrow> attach_disk \<Rightarrow> attach_disk" where
  "attachments_removed keeps t d =
     (if t \<notin> set (ad_timers d) then d
      else d\<lparr>ad_files := filter (\<lambda>f. \<not> path_below (fst t) (fst f) \<or> keeps (fst f)) (ad_files d),
             ad_dirs := filter (\<lambda>p. \<not> path_below (fst t) p \<or> keeps p) (ad_dirs d),
             ad_timers := remove1 t (ad_timers d)\<rparr>)"

subsection \<open>Errors on the wire\<close>

definition term_error_text :: "term_error \<Rightarrow> gostring" where
  "term_error_text e =
     (case e of
        ErrTextRequired \<Rightarrow> ''text is required''
      | ErrNotLive \<Rightarrow> ''terminal session is not live''
      | ErrSessionNotFound \<Rightarrow> ''terminal session not found''
      | ErrSessionExists \<Rightarrow> ''terminal session already exists'')"

text \<open>The texts of the errors of the driver manager; \<open>cause\<close> is that of a wrapped one.\<close>

definition sdk_error_text :: "gostring \<Rightarrow> gostring \<Rightarrow> gostring \<Rightarrow> sdk_error \<Rightarrow> gostring" where
  "sdk_error_text cause sid agent e =
     (case e of
        ErrUnsupportedAgent \<Rightarrow> ''sdkdriver: unsupported agent: '' @ agent
      | ErrSidRequired \<Rightarrow> ''sid required''
      | ErrSessionNotLive \<Rightarrow> ''sdkdriver: session is not live: '' @ sid
      | ErrMissingCwd \<Rightarrow> ''sdkdriver: session cwd unavailable: '' @ sid
      | ErrResolveClaude _ \<Rightarrow> ''resolve claude: '' @ cause
      | ErrResolveCodex \<Rightarrow> ''resolve codex: '' @ cause
      | ErrRegister te \<Rightarrow> ''register external: '' @ term_error_text te
      | ErrStartDriver _ \<Rightarrow> ''start driver: '' @ cause)"

definition mapSDKError :: "gostring \<Rightarrow> gostring" where
  "mapSDKError msg =
     (if Contains msg ''another driver is in flight'' then ''sdk_busy''
      else if Contains msg ''unsupported agent'' then ''sdk_unsupported_agent''
      else if Contains msg ''codex_app_server_unavailable'' then ''codex_app_server_unavailable''
      else if Contains msg ''session is not live'' then ''session_not_attached''
      else if Contains msg ''resolve'' \<or> Contains msg ''executable file not found'' \<or> Contains msg ''not found in PATH'' then ''binary_missing''
      else ''sdk_spawn_failed: '' @ msg)"

subsection \<open>What is active, and what is mirrored back\<close>

definition pruneExpiredActiveInjectsLocked :: "time \<Rightarrow> runner \<Rightarrow> runner" where
  "pruneExpiredActiveInjectsLocked now rn =
     rn\<lparr>rn_injects := filter (\<lambda>(k, a). \<not> (ai_ExpiresAt a \<noteq> 0 \<and> now > ai_ExpiresAt a)) (rn_injects rn)\<rparr>"

definition blank_inject :: activeInject where
  "blank_inject = \<lparr>ai_RequestID = [], ai_SessionID = [], ai_TerminalSessionID = [], ai_ExpiresAt = 0\<rparr>"

definition bindActiveInjectTerminal :: "time \<Rightarrow> gostring \<Rightarrow> gostring \<Rightarrow> gostring \<Rightarrow> runner \<Rightarrow> runner" where
  "bindActiveInjectTerminal now rid sid tid rn0 =
     (if TrimSpace rid = [] then rn0
      else let rn = pruneExpiredActiveInjectsLocked now rn0;
               a0 = (case alist_get (rn_injects rn) rid of Some a \<Rightarrow> a | None \<Rightarrow> blank_inject)\<lparr>ai_RequestID := rid\<rparr>;
               a1 = (if ai_ExpiresAt a0 = 0 then a0\<lparr>ai_ExpiresAt := now + activeInjectMirrorTTL\<rparr> else a0);
               a2 = (if TrimSpace sid \<noteq> [] then a1\<lparr>ai_SessionID := sid\<rparr> else a1);
               a3 = (if TrimSpace tid \<noteq> [] then a2\<lparr>ai_TerminalSessionID := tid\<rparr> else a2)
           in rn\<lparr>rn_injects := alist_put rid a3 (rn_injects rn)\<rparr>)"

definition clearActiveInject :: "gostring \<Rightarrow> runner \<Rightarrow> runner" where
  "clearActiveInject rid rn = (if TrimSpace rid = [] then rn else rn\<lparr>rn_injects := alist_del rid (rn_injects rn)\<rparr>)"

definition injectEventFromTerminal :: "activeInject \<Rightarrow> TerminalEvent \<Rightarrow> InjectEvent" where
  "injectEventFromTerminal a evt =
     (let sid = ctl_firstNonEmpty [te_SessionID evt, ai_SessionID a] in
      if te_Kind evt = EventAgentError
      then inject_event (ai_RequestID a) ''inject_failed'' sid
        (ctl_firstNonEmpty [TrimSpace (te_Error evt), TrimSpace (te_Payload evt), ''agent turn failed''])
      else (inject_event (ai_RequestID a) ''inject_ready'' sid [])\<lparr>ie_Message := ''agent prompt ready''\<rparr>)"

definition mirrors :: "TerminalEvent \<Rightarrow> activeInject \<Rightarrow> bool" where
  "mirrors evt a \<longleftrightarrow>
     ai_RequestID a \<noteq> [] \<and>
     (ai_TerminalSessionID a \<noteq> [] \<and> te_TerminalSessionID evt \<noteq> [] \<and> ai_TerminalSessionID a = te_TerminalSessionID evt \<or>
      ai_SessionID a \<noteq> [] \<and> te_SessionID evt \<noteq> [] \<and> ai_SessionID a = te_SessionID evt)"

definition mirrorTerminalEventToInject :: "time \<Rightarrow> TerminalEvent \<Rightarrow> runner \<Rightarrow> InjectEvent option \<times> runner" where
  "mirrorTerminalEventToInject now evt rn0 =
     (if te_Kind evt \<noteq> EventAgentError \<and> te_Kind evt \<noteq> EventPromptReady then (None, rn0)
      else let rn = pruneExpiredActiveInjectsLocked now rn0 in
        case find (\<lambda>p. mirrors evt (snd p)) (rn_injects rn) of
          None \<Rightarrow> (None, rn)
        | Some (k, a) \<Rightarrow> (Some (injectEventFromTerminal a evt), rn\<lparr>rn_injects := alist_del (ai_RequestID a) (rn_injects rn)\<rparr>))"

subsection \<open>Existing sessions\<close>

definition isCodexAgent :: "gostring \<Rightarrow> bool" where "isCodexAgent agent \<longleftrightarrow> TrimSpace agent = ''codex''"

text \<open>A call of a method of the external session \<open>r\<close>.\<close>

definition on_external ::
  "nat \<Rightarrow> (ExternalSession \<Rightarrow> panic + ('a \<times> ExternalSession)) \<Rightarrow> SdkManager \<Rightarrow> panic + ('a \<times> SdkManager)" where
  "on_external r f s =
     bind_sum (f (m_exts (sm_terminal s) ! r)) (\<lambda>(x, e).
       Inr (x, s\<lparr>sm_terminal := (sm_terminal s)\<lparr>m_exts := (m_exts (sm_terminal s))[r := e]\<rparr>\<rparr>))"

definition sendToSDKExternal :: "nat \<Rightarrow> gostring \<Rightarrow> gostring \<Rightarrow> time \<Rightarrow> SdkManager \<Rightarrow> panic + (gostring option \<times> SdkManager)" where
  "sendToSDKExternal r txt agent now s =
     (if isCodexAgent agent
      then (if InputSubscriberCount (m_exts (sm_terminal s) ! r) = 0 then Inr (Some ''sdk input pump not ready'', s)
            else bind_sum (on_external r (ext_SendRaw (TrimRight txt [CHR 0x0D, CHR 0x0A] @ [CHR 0x0D]) now) s) (\<lambda>(e, t).
              Inr (map_option term_error_text e, t)))
      else bind_sum (on_external r (ext_SendInput txt now) s) (\<lambda>(e, t). Inr (map_option term_error_text e, t)))"

text \<open>The id of a session in the table of the terminal manager.\<close>

definition sdkExternalTerminalID :: "Manager.Manager \<Rightarrow> nat \<Rightarrow> gostring" where
  "sdkExternalTerminalID m r =
     (case find (\<lambda>x. GetExternal (sum_ID x) m = Some r) (ListSessions m) of Some x \<Rightarrow> sum_ID x | None \<Rightarrow> [])"

record inject_world =
  iw_sdk :: "sdk_world option"
  iw_tmp :: gostring
  iw_mkdir :: "gostring \<Rightarrow> gostring option"
  iw_fails :: "gostring \<Rightarrow> (gostring \<times> gostring option) option"
  iw_cause :: gostring
  iw_now :: time

record inject_state =
  is_runner :: runner
  is_sdk :: SdkManager
  is_files :: attach_disk

text \<open>The adapter in the main program: an empty agent is Claude.\<close>

definition adapter_agent :: "gostring \<Rightarrow> gostring" where
  "adapter_agent agent = (if agent = [] then AgentClaude else agent)"

text \<open>Through the driver of the session, which is made when there is none.\<close>

definition resume_headless :: "inject_world \<Rightarrow> InjectRequest \<Rightarrow> gostring \<Rightarrow> inject_state \<Rightarrow> panic + (gostring option \<times> inject_state)" where
  "resume_headless w req txt st =
     (case iw_sdk w of
        None \<Rightarrow> Inr (Some ''session_not_attached'', st)
      | Some sw \<Rightarrow>
          bind_sum (EnsureDriver sw (iq_SessionID req) (iq_Cwd req) (adapter_agent (iq_Agent req)) (is_sdk st)) (\<lambda>(res, s1).
            case res of
              Inl e \<Rightarrow> Inr (Some (mapSDKError (sdk_error_text (iw_cause w) (iq_SessionID req) (adapter_agent (iq_Agent req)) e)),
                  st\<lparr>is_sdk := s1\<rparr>)
            | Inr r \<Rightarrow>
                let rn = bindActiveInjectTerminal (iw_now w) (iq_RequestID req) (iq_SessionID req)
                    (sdkExternalTerminalID (sm_terminal s1) r) (is_runner st) in
                bind_sum (sendToSDKExternal r txt (iq_Agent req) (iw_now w) s1) (\<lambda>(e, s2).
                  Inr (map_option (\<lambda>x. ''sdk_send_failed: '' @ x) e, st\<lparr>is_runner := rn, is_sdk := s2\<rparr>))))"

text \<open>To the session that is bound to the id, whoever runs it.\<close>

definition resume_text :: "inject_world \<Rightarrow> InjectRequest \<Rightarrow> gostring \<Rightarrow> inject_state \<Rightarrow> panic + (gostring option \<times> inject_state)" where
  "resume_text w req txt st =
     (if TrimSpace txt = [] then Inr (Some ''text_required'', st)
      else let lookup = LookupExternalForInject (iq_SessionID req) (sm_terminal (is_sdk st)) in
        case il_Ext lookup of
          None \<Rightarrow> resume_headless w req txt st
        | Some r \<Rightarrow>
            if il_Drifted lookup then Inr (Some (''session_drifted current='' @ il_CurrentSID lookup), st)
            else if x_driver (m_exts (sm_terminal (is_sdk st)) ! r) = ''sdk'' then resume_headless w req txt st
            else bind_sum (on_external r (ext_SendInput txt (iw_now w)) (is_sdk st)) (\<lambda>(e, s1).
              Inr (map_option (\<lambda>_. ''session_not_attached'') e, st\<lparr>is_sdk := s1\<rparr>)))"

definition routeResume :: "inject_world \<Rightarrow> InjectRequest \<Rightarrow> inject_state \<Rightarrow> panic + (gostring option \<times> inject_state)" where
  "routeResume w req st =
     (if TrimSpace (iq_SessionID req) = [] then Inr (Some ''session_id_required'', st)
      else if iq_Files req = [] then resume_text w req (iq_Text req) st
      else case writeInjectAttachments (iw_tmp w) (iw_mkdir w) (iw_fails w) (iw_now w) req (is_files st) of
        (Inl err, fs) \<Rightarrow> Inr (Some (''attachment_write_failed: '' @ err), st\<lparr>is_files := fs\<rparr>)
      | (Inr txt, fs) \<Rightarrow> resume_text w req txt (st\<lparr>is_files := fs\<rparr>))"

end
