(* ===== verification/AgentAdapter.thy ===== *)
theory AgentAdapter
  imports ControlInject AgentSettings SessionIndex
begin

section \<open>The adapters of the main program\<close>

text \<open>
  \<open>daemon/cmd/pockly-daemon/main.go\<close>, the part that joins the control connection to the
  settings store, the terminal manager, the session index and the driver manager. What the
  handlers read of the machine is one record: the index (and the index after a refresh, when
  that succeeds), the configuration files behind the menus, session files, the Codex
  configuration, the list of models of a Codex app server, and git.
\<close>

subsection \<open>Requests and results\<close>

record AgentSettingsGet =
  sq_RequestID :: gostring
  sq_SessionID :: gostring
  sq_TerminalSessionID :: gostring
  sq_Cwd :: gostring
  sq_Agent :: gostring

record AgentSettingsSet =
  su_RequestID :: gostring
  su_SessionID :: gostring
  su_TerminalSessionID :: gostring
  su_Agent :: gostring
  su_Model :: gostring
  su_PermissionMode :: gostring
  su_Effort :: gostring

record AgentSettingsResult =
  sx_RequestID :: gostring
  sx_Status :: gostring
  sx_Error :: gostring
  sx_Model :: gostring
  sx_ResolvedModel :: gostring
  sx_PermissionMode :: gostring
  sx_Effort :: gostring
  sx_Models :: "gostring list"
  sx_ModelOptions :: "ModelOption list"
  sx_PermissionModes :: "gostring list"
  sx_Efforts :: "gostring list"
  sx_Source :: gostring
  sx_FallbackReason :: gostring

record AgentDefaultsResult =
  dx_RequestID :: gostring
  dx_DefaultModel :: gostring
  dx_ResolvedModel :: gostring
  dx_Models :: "gostring list"
  dx_ModelOptions :: "ModelOption list"
  dx_PermissionModes :: "gostring list"
  dx_Efforts :: "gostring list"

definition settings_error :: "gostring \<Rightarrow> gostring \<Rightarrow> AgentSettingsResult" where
  "settings_error rid err =
     \<lparr>sx_RequestID = rid, sx_Status = ''error'', sx_Error = err, sx_Model = [], sx_ResolvedModel = [], sx_PermissionMode = [],
      sx_Effort = [], sx_Models = [], sx_ModelOptions = [], sx_PermissionModes = [], sx_Efforts = [], sx_Source = [],
      sx_FallbackReason = []\<rparr>"

record adapter_world =
  aw_index :: "(gostring \<Rightarrow> SessionRef option) option"
  aw_refreshed :: "(gostring \<Rightarrow> SessionRef option) option"
  aw_menu :: "gostring \<Rightarrow> menu_world"
  aw_file :: "gostring \<Rightarrow> gostring option"
  aw_codexConfig :: "gostring option"
  aw_codexModels :: "codex_model list option"
  aw_serverInfo :: "gostring \<Rightarrow> gostring \<times> gostring"
  aw_git :: "gostring \<Rightarrow> gostring list \<Rightarrow> gostring \<times> bool"

definition apply_error_text :: "apply_error \<Rightarrow> gostring" where
  "apply_error_text e =
     (case e of
        ErrSessionIDRequired \<Rightarrow> ''session_id_required''
      | ErrNotAttached \<Rightarrow> ''session_not_attached''
      | ErrDrifted sid \<Rightarrow> ''session_drifted current='' @ sid
      | ErrUnknownMode m \<Rightarrow> ''unknown permission_mode: '' @ m
      | ErrUnknownEffort x \<Rightarrow> ''unknown effort: '' @ x
      | ErrNotSwitchable m \<Rightarrow> ''permission_mode_not_runtime_switchable: '' @ m
      | ErrSendTab te \<Rightarrow> ''send shift+tab: '' @ term_error_text te
      | ErrSendModel te \<Rightarrow> ''send /model: '' @ term_error_text te
      | ErrSendEffort te \<Rightarrow> ''send /effort: '' @ term_error_text te
      | ErrUnknownModel m \<Rightarrow> ''unknown_model: '' @ m)"

subsection \<open>Which store a session has its settings in\<close>

definition sdkSettingsKey :: "gostring \<Rightarrow> gostring" where "sdkSettingsKey sid = ''sdk:'' @ sid"

definition sdkSettingsReader :: "settings_store \<Rightarrow> SettingsReader" where
  "sdkSettingsReader settings =
     \<lparr>sg_model = (\<lambda>sid. st_Model (set_get (sdkSettingsKey sid) settings)),
      sg_mode = (\<lambda>sid. st_PermissionMode (set_get (sdkSettingsKey sid) settings)),
      sg_effort = (\<lambda>sid. st_Effort (set_get (sdkSettingsKey sid) settings))\<rparr>"

definition sdkSessionResolver :: "(gostring \<Rightarrow> SessionRef option) option \<Rightarrow> SessionResolver" where
  "sdkSessionResolver index =
     (let find = (\<lambda>sid. Option.bind index (\<lambda>f. f sid)) in
      \<lparr>sr_cwd = (\<lambda>sid. case find sid of Some r \<Rightarrow> sref_Cwd r | None \<Rightarrow> []),
       sr_path = (\<lambda>sid. case find sid of Some r \<Rightarrow> sref_Path r | None \<Rightarrow> []),
       sr_info = Some (\<lambda>sid. map_option (\<lambda>r. \<lparr>si_Agent = sref_Agent r, si_Cwd = sref_Cwd r, si_Path = sref_Path r\<rparr>) (find sid))\<rparr>)"

record resolve_result =
  rr_terminalSessionID :: gostring
  rr_claudeSessionID :: gostring
  rr_cwd :: gostring
  rr_driver :: gostring
  rr_errStr :: gostring

definition resolve_error :: "gostring \<Rightarrow> resolve_result" where
  "resolve_error e =
     \<lparr>rr_terminalSessionID = [], rr_claudeSessionID = [], rr_cwd = [], rr_driver = [], rr_errStr = e\<rparr>"

definition resolved :: "gostring \<Rightarrow> gostring \<Rightarrow> gostring \<Rightarrow> gostring \<Rightarrow> resolve_result" where
  "resolved ts sid cwd driver =
     \<lparr>rr_terminalSessionID = ts, rr_claudeSessionID = sid, rr_cwd = cwd, rr_driver = driver, rr_errStr = []\<rparr>"

definition adapterDriverFor :: "ExternalSession \<Rightarrow> gostring" where
  "adapterDriverFor e = (if x_driver e \<noteq> [] then x_driver e else ''pty'')"

definition resolve_headless :: "adapter_world \<Rightarrow> gostring \<Rightarrow> resolve_result" where
  "resolve_headless w sid =
     (case Option.bind (aw_index w) (\<lambda>f. f sid) of
        Some ref \<Rightarrow> resolved (sdkSettingsKey sid) sid (sref_Cwd ref) ''sdk''
      | None \<Rightarrow> resolve_error ''session_not_attached'')"

definition resolve_attached :: "adapter_world \<Rightarrow> gostring \<Rightarrow> nat \<Rightarrow> Manager.Manager \<Rightarrow> resolve_result" where
  "resolve_attached w sid r m =
     (case find (\<lambda>s. sum_ClaudeSessionID s = sid) (ListSessions m) of
        Some s \<Rightarrow>
          if adapterDriverFor (m_exts m ! r) = ''sdk'' then resolved (sdkSettingsKey sid) sid (sum_Cwd s) ''sdk''
          else resolved (sum_ID s) (sum_ClaudeSessionID s) (sum_Cwd s) ''pty''
      | None \<Rightarrow> resolve_headless w sid)"

definition settings_resolve :: "adapter_world \<Rightarrow> gostring \<Rightarrow> gostring \<Rightarrow> Manager.Manager \<Rightarrow> resolve_result" where
  "settings_resolve w ts sid m =
     (case (if ts \<noteq> [] then GetExternal ts m else None) of
        Some r \<Rightarrow>
          let e = m_exts m ! r; driver = adapterDriverFor e;
              key = (if driver = ''sdk'' \<and> x_claudeSessionID e \<noteq> [] then sdkSettingsKey (x_claudeSessionID e) else ts)
          in resolved key (x_claudeSessionID e) (x_cwd e) driver
      | None \<Rightarrow>
          if sid = [] then resolve_error ''session_not_attached''
          else let lookup = LookupExternalForInject sid m in
            case il_Ext lookup of
              Some r \<Rightarrow>
                if il_Drifted lookup then resolve_error (''session_drifted current='' @ il_CurrentSID lookup)
                else resolve_attached w sid r m
            | None \<Rightarrow> resolve_headless w sid)"

definition availablePermissionModesFor :: "gostring \<Rightarrow> gostring list \<Rightarrow> gostring list" where
  "availablePermissionModesFor driver runtimeModes = (if driver = ''sdk'' then nativePermissionModes else runtimeModes)"

subsection \<open>The difference in a working tree\<close>

definition maxGitDiffBytes :: nat where "maxGitDiffBytes = 262144"

definition untracked_diff :: "(gostring list \<Rightarrow> gostring \<times> bool) \<Rightarrow> gostring" where
  "untracked_diff git =
     (case git [''-c'', ''core.quotepath=false'', ''ls-files'', ''--others'', ''--exclude-standard''] of
        (others, True) \<Rightarrow> []
      | (others, False) \<Rightarrow>
          concat (map (\<lambda>f. fst (git [''-c'', ''core.quotepath=false'', ''diff'', ''--no-color'', ''--no-index'', ''/dev/null'', f]))
            (filter (\<lambda>f. f \<noteq> []) (map TrimSpace (split_byte (CHR 0x0A) (TrimSpace others))))))"

text \<open>\<open>git\<close> gives the output of a command and whether it failed.\<close>

definition computeGitDiff :: "(gostring list \<Rightarrow> gostring \<times> bool) \<Rightarrow> gostring \<times> bool \<times> gostring" where
  "computeGitDiff git =
     (let (out, err) = git [''rev-parse'', ''--is-inside-work-tree''] in
      if err \<or> TrimSpace out \<noteq> ''true'' then ([], False, ''not_a_repo'')
      else let tracked =
             (if \<not> snd (git [''rev-parse'', ''--verify'', ''--quiet'', ''HEAD''])
              then fst (git [''-c'', ''core.quotepath=false'', ''diff'', ''--no-color'', ''HEAD''])
              else fst (git [''-c'', ''core.quotepath=false'', ''diff'', ''--no-color'']));
             all_diff = tracked @ untracked_diff git
        in if length all_diff > maxGitDiffBytes then (take maxGitDiffBytes all_diff, True, ''ok'') else (all_diff, False, ''ok''))"

record GitDiffGet =
  gq_RequestID :: gostring
  gq_SessionID :: gostring
  gq_TerminalSessionID :: gostring
  gq_Cwd :: gostring

record GitDiffResult =
  gx_RequestID :: gostring
  gx_Status :: gostring
  gx_Error :: gostring
  gx_Diff :: gostring
  gx_Truncated :: bool

definition settings_Diff :: "adapter_world \<Rightarrow> GitDiffGet \<Rightarrow> Manager.Manager \<Rightarrow> GitDiffResult" where
  "settings_Diff w req m =
     (let cwd0 = TrimSpace (rr_cwd (settings_resolve w (gq_TerminalSessionID req) (gq_SessionID req) m));
          c = TrimSpace (gq_Cwd req);
          cwd = (if cwd0 = [] \<and> IsAbs c then c else cwd0)
      in if cwd = []
         then \<lparr>gx_RequestID = gq_RequestID req, gx_Status = ''error'', gx_Error = ''session_not_attached'', gx_Diff = [], gx_Truncated = False\<rparr>
         else (case computeGitDiff (aw_git w cwd) of
           (diff, truncated, status) \<Rightarrow>
             \<lparr>gx_RequestID = gq_RequestID req, gx_Status = status, gx_Error = [], gx_Diff = diff, gx_Truncated = truncated\<rparr>))"

subsection \<open>The model in use and the menu\<close>

definition findClaudeSessionRef :: "adapter_world \<Rightarrow> gostring \<Rightarrow> SessionRef option" where
  "findClaudeSessionRef w sid =
     (case aw_index w of
        None \<Rightarrow> None
      | Some f \<Rightarrow>
          if TrimSpace sid = [] then None
          else let first = f sid;
                   ref = (if (case first of None \<Rightarrow> True | Some r \<Rightarrow> sref_Path r = [])
                          then (case aw_refreshed w of Some g \<Rightarrow> g sid | None \<Rightarrow> first) else first)
               in case ref of
                    Some r \<Rightarrow> if sref_Agent r \<noteq> ''claude-code'' \<or> sref_Path r = [] then None else Some r
                  | None \<Rightarrow> None)"

definition latestObservedCurrentModel :: "adapter_world \<Rightarrow> gostring \<Rightarrow> gostring" where
  "latestObservedCurrentModel w sid =
     (case findClaudeSessionRef w sid of Some r \<Rightarrow> LatestCurrentModel (aw_file w (sref_Path r)) | None \<Rightarrow> [])"

definition currentRunningModel :: "adapter_world \<Rightarrow> gostring \<Rightarrow> gostring \<Rightarrow> gostring" where
  "currentRunningModel w sid cwd =
     (let observed = latestObservedCurrentModel w sid in
      if observed \<noteq> [] then observed else EffectiveDefaultModel (aw_menu w cwd) cwd)"

definition resolveDisplayModel :: "adapter_world \<Rightarrow> gostring \<Rightarrow> gostring \<Rightarrow> gostring \<Rightarrow> gostring" where
  "resolveDisplayModel w stored sid cwd = (if TrimSpace stored \<noteq> [] then stored else currentRunningModel w sid cwd)"

definition resolveCurrentModel :: "adapter_world \<Rightarrow> gostring \<Rightarrow> gostring \<Rightarrow> gostring \<Rightarrow> gostring" where
  "resolveCurrentModel w display sid cwd =
     (let observed = latestObservedCurrentModel w sid; resolved1 = resolveModelAlias (aw_menu w cwd) display in
      if TrimSpace observed \<noteq> [] then observed
      else if TrimSpace resolved1 \<noteq> [] then resolved1
      else currentRunningModel w sid cwd)"

definition prepend_missing :: "('a \<Rightarrow> gostring \<Rightarrow> bool) \<Rightarrow> (gostring \<Rightarrow> 'a) \<Rightarrow> 'a list \<Rightarrow> gostring list \<Rightarrow> 'a list" where
  "prepend_missing has mk base models =
     fold (\<lambda>m0 out. let m = TrimSpace m0 in if m \<noteq> [] \<and> \<not> list_ex (\<lambda>x. has x m) out then mk m # out else out)
       (rev models) base"

definition ensureModelsPresent :: "gostring list \<Rightarrow> gostring list \<Rightarrow> gostring list" where
  "ensureModelsPresent = prepend_missing (\<lambda>x m. x = m) (\<lambda>m. m)"

definition option_is :: "ModelOption \<Rightarrow> gostring \<Rightarrow> bool" where
  "option_is x m \<longleftrightarrow> mo_Value x = m \<or> TrimSpace (mo_ResolvedModel x) = m"

definition ensureModelOptionsPresent :: "ModelOption list \<Rightarrow> gostring list \<Rightarrow> ModelOption list" where
  "ensureModelOptionsPresent =
     prepend_missing option_is (\<lambda>m. \<lparr>mo_Value = m, mo_Label = m, mo_ResolvedModel = m, mo_Source = ''observed''\<rparr>)"

definition ensureControlModelOptionsPresent :: "ModelOption list \<Rightarrow> gostring list \<Rightarrow> ModelOption list" where
  "ensureControlModelOptionsPresent =
     prepend_missing option_is (\<lambda>m. \<lparr>mo_Value = m, mo_Label = m, mo_ResolvedModel = m, mo_Source = ''current''\<rparr>)"

definition record_settings :: "gostring \<Rightarrow> gostring \<Rightarrow> gostring \<Rightarrow> gostring \<Rightarrow> settings_store \<Rightarrow> settings_store" where
  "record_settings key model mode effort s =
     (let s1 = (if TrimSpace model \<noteq> [] then SetModel key (TrimSpace model) s else s);
          s2 = (if TrimSpace mode \<noteq> [] then SetPermissionMode key (TrimSpace mode) s1 else s1)
      in if TrimSpace effort \<noteq> [] then SetEffort key (TrimSpace effort) s2 else s2)"

definition RecordInitial :: "gostring \<Rightarrow> gostring \<Rightarrow> gostring \<Rightarrow> gostring \<Rightarrow> settings_store \<Rightarrow> settings_store" where
  "RecordInitial ts model mode effort s = (if ts = [] then s else record_settings ts model mode effort s)"

subsection \<open>The Codex configuration file\<close>

record codexConfigModel =
  cc_model :: gostring
  cc_modelProvider :: gostring
  cc_approvalPolicy :: gostring
  cc_sandboxMode :: gostring
  cc_reasoningEffort :: gostring

definition no_codex_config :: codexConfigModel where
  "no_codex_config =
     \<lparr>cc_model = [], cc_modelProvider = [], cc_approvalPolicy = [], cc_sandboxMode = [], cc_reasoningEffort = []\<rparr>"

fun toml_until_comment :: "bool \<Rightarrow> bool \<Rightarrow> gostring \<Rightarrow> gostring" where
  "toml_until_comment inQuote escaped [] = []"
| "toml_until_comment inQuote escaped (c # s) =
     (if escaped then c # toml_until_comment inQuote False s
      else if c = CHR 0x5C \<and> inQuote then c # toml_until_comment inQuote True s
      else if c = CHR 0x22 then c # toml_until_comment (\<not> inQuote) False s
      else if c = CHR ''#'' \<and> \<not> inQuote then []
      else c # toml_until_comment inQuote False s)"

definition stripTOMLLineComment :: "gostring \<Rightarrow> gostring" where
  "stripTOMLLineComment line = toml_until_comment False False line"

text \<open>
  \<open>strconv.Unquote\<close> of a text in double quotes, given what is between them: escapes of one
  letter, \<open>\\x\<close> with two, \<open>\\u\<close> with four and \<open>\\U\<close> with eight hexadecimal digits, three octal
  digits; bytes that are not UTF-8 become U+FFFD.
\<close>

fun read_digits :: "(char \<Rightarrow> nat option) \<Rightarrow> nat \<Rightarrow> nat \<Rightarrow> nat \<Rightarrow> gostring \<Rightarrow> (nat \<times> gostring) option" where
  "read_digits val base 0 acc s = Some (acc, s)"
| "read_digits val base (Suc n) acc [] = None"
| "read_digits val base (Suc n) acc (c # s) =
     (case val c of None \<Rightarrow> None | Some v \<Rightarrow> read_digits val base n (acc * base + v) s)"

lemma read_digits_length: "read_digits val base n acc s = Some (v, r) \<Longrightarrow> length r \<le> length s"
  by (induction val base n acc s rule: read_digits.induct) (auto split: option.splits)

definition octal_val :: "char \<Rightarrow> nat option" where
  "octal_val c = (let b = of_char c :: nat in if 48 \<le> b \<and> b \<le> 55 then Some (b - 48) else None)"

definition unquote_letter :: "char \<Rightarrow> char option" where
  "unquote_letter c =
     (if c = CHR ''a'' then Some (CHR 0x07) else if c = CHR ''b'' then Some (CHR 0x08)
      else if c = CHR ''f'' then Some (CHR 0x0C) else if c = CHR ''n'' then Some (CHR 0x0A)
      else if c = CHR ''r'' then Some (CHR 0x0D) else if c = CHR ''t'' then Some (CHR 0x09)
      else if c = CHR ''v'' then Some (CHR 0x0B) else if c = CHR 0x5C \<or> c = CHR 0x22 then Some c else None)"

text \<open>One escape after the backslash: the bytes it stands for and the rest.\<close>

definition unquote_escape :: "gostring \<Rightarrow> (gostring \<times> gostring) option" where
  "unquote_escape s =
     (case s of
        [] \<Rightarrow> None
      | c # t \<Rightarrow>
          (case unquote_letter c of
             Some d \<Rightarrow> Some ([d], t)
           | None \<Rightarrow>
               if c = CHR ''x'' then map_option (\<lambda>(v, r). ([char_of v], r)) (read_digits hex_val 16 2 0 t)
               else if c = CHR ''u'' \<or> c = CHR ''U'' then
                 (case read_digits hex_val 16 (if c = CHR ''u'' then 4 else 8) 0 t of
                    Some (v, r) \<Rightarrow> if valid_rune v then Some (encode_rune v, r) else None
                  | None \<Rightarrow> None)
               else (case read_digits octal_val 8 3 0 s of
                       Some (v, r) \<Rightarrow> if v \<le> 255 then Some ([char_of v], r) else None
                     | None \<Rightarrow> None)))"

lemma unquote_escape_length: "unquote_escape s = Some (x, r) \<Longrightarrow> length r \<le> length s"
  by (auto simp: unquote_escape_def split: list.splits option.splits if_splits prod.splits dest!: read_digits_length)

function unquote_body :: "gostring \<Rightarrow> gostring option" where
  "unquote_body [] = Some []"
| "unquote_body (c # s) =
     (if c = CHR 0x22 \<or> c = CHR 0x0A then None
      else if c = CHR 0x5C then
        (case unquote_escape s of
           None \<Rightarrow> None
         | Some (x, r) \<Rightarrow> map_option (\<lambda>y. x @ y) (unquote_body r))
      else case decode_rune (bytes_of (c # s)) of
        (r, n) \<Rightarrow> map_option (\<lambda>y. encode_rune r @ y) (unquote_body (drop n (c # s))))"
  by pat_completeness auto
termination
  by (relation "measure length") (auto dest!: unquote_escape_length decode_bytes_pos[OF sym])

definition parseTOMLStringValue :: "gostring \<Rightarrow> gostring" where
  "parseTOMLStringValue value0 =
     (let v = TrimSpace value0 in
      if length v \<ge> 2 \<and> hd v = CHR 0x22 \<and> last v = CHR 0x22
      then (case unquote_body (butlast (tl v)) of Some x \<Rightarrow> TrimSpace x | None \<Rightarrow> TrimSpace (butlast (tl v)))
      else v)"

definition set_config_key :: "gostring \<Rightarrow> gostring \<Rightarrow> codexConfigModel \<Rightarrow> codexConfigModel" where
  "set_config_key key v c =
     (if key = ''model'' then c\<lparr>cc_model := v\<rparr>
      else if key = ''model_provider'' then c\<lparr>cc_modelProvider := v\<rparr>
      else if key = ''approval_policy'' then c\<lparr>cc_approvalPolicy := v\<rparr>
      else if key = ''sandbox_mode'' then c\<lparr>cc_sandboxMode := v\<rparr>
      else if key = ''model_reasoning_effort'' then c\<lparr>cc_reasoningEffort := v\<rparr>
      else c)"

definition config_line :: "gostring \<Rightarrow> codexConfigModel \<Rightarrow> codexConfigModel" where
  "config_line line0 c =
     (let line = TrimSpace (stripTOMLLineComment line0) in
      if line = [] \<or> HasPrefix line ''['' then c
      else case cut_at ''='' line of
        None \<Rightarrow> c
      | Some (key, v) \<Rightarrow> set_config_key (TrimSpace key) (parseTOMLStringValue (TrimSpace v)) c)"

definition parseCodexConfigModel :: "gostring \<Rightarrow> codexConfigModel" where
  "parseCodexConfigModel raw = fold config_line (split_byte (CHR 0x0A) raw) no_codex_config"

definition readCodexConfigModel :: "adapter_world \<Rightarrow> codexConfigModel" where
  "readCodexConfigModel w = (case aw_codexConfig w of Some raw \<Rightarrow> parseCodexConfigModel raw | None \<Rightarrow> no_codex_config)"

subsection \<open>Codex settings\<close>

definition codexConfigModels :: "codexConfigModel \<Rightarrow> gostring list" where
  "codexConfigModels c = (if cc_model c = [] then [] else [cc_model c])"

definition codexConfigModelOption :: "codexConfigModel \<Rightarrow> ModelOption" where
  "codexConfigModelOption c =
     \<lparr>mo_Value = cc_model c,
      mo_Label = (if cc_modelProvider c \<noteq> [] then cc_model c @ '' ('' @ cc_modelProvider c @ '')'' else cc_model c),
      mo_ResolvedModel = cc_model c, mo_Source = ''codex_config''\<rparr>"

definition codexConfigModelOptions :: "codexConfigModel \<Rightarrow> ModelOption list" where
  "codexConfigModelOptions c = (if cc_model c = [] then [] else [codexConfigModelOption c])"

record codex_menu =
  cu_default :: gostring
  cu_resolved :: gostring
  cu_models :: "gostring list"
  cu_options :: "ModelOption list"

definition add_codex_model :: "codex_model \<Rightarrow> codex_menu \<Rightarrow> codex_menu" where
  "add_codex_model m u =
     (let v = ctl_firstNonEmpty [codex_model.cm_ID m, codex_model.cm_Model m]; r = ctl_firstNonEmpty [codex_model.cm_Model m, codex_model.cm_ID m] in
      if codex_model.cm_Hidden m \<or> v = [] \<or> v \<in> set (cu_models u) then u
      else let u1 = u\<lparr>cu_models := cu_models u @ [v],
                 cu_options := cu_options u @
                   [\<lparr>mo_Value = v, mo_Label = ctl_firstNonEmpty [codex_model.cm_DisplayName m, v], mo_ResolvedModel = r,
                     mo_Source = ''codex_app_server''\<rparr>]\<rparr>
           in if codex_model.cm_IsDefault m \<and> cu_default u = [] then u1\<lparr>cu_default := v, cu_resolved := r\<rparr> else u1)"

definition codexModelOptions :: "adapter_world \<Rightarrow> codex_menu" where
  "codexModelOptions w =
     (let c = readCodexConfigModel w in
      case aw_codexModels w of
        None \<Rightarrow> \<lparr>cu_default = cc_model c, cu_resolved = cc_model c, cu_models = codexConfigModels c,
                  cu_options = codexConfigModelOptions c\<rparr>
      | Some ms \<Rightarrow>
          let u0 = fold add_codex_model ms \<lparr>cu_default = [], cu_resolved = [], cu_models = [], cu_options = []\<rparr>;
              u1 = (if cc_model c \<noteq> [] \<and> cc_model c \<notin> set (cu_models u0)
                    then u0\<lparr>cu_models := cc_model c # cu_models u0, cu_options := codexConfigModelOption c # cu_options u0\<rparr>
                    else u0);
              u2 = (if cc_model c \<noteq> [] then u1\<lparr>cu_default := cc_model c, cu_resolved := cc_model c\<rparr> else u1)
          in if cu_default u2 = [] \<and> cu_models u2 \<noteq> []
             then u2\<lparr>cu_default := hd (cu_models u2), cu_resolved := mo_ResolvedModel (hd (cu_options u2))\<rparr>
             else u2)"

definition codexModelAllowed :: "gostring \<Rightarrow> ModelOption list \<Rightarrow> bool" where
  "codexModelAllowed model0 options \<longleftrightarrow>
     (let model = TrimSpace model0 in model = [] \<or> options = [] \<or> list_ex (\<lambda>x. option_is x model) options)"

definition codexResolvedModel :: "gostring \<Rightarrow> ModelOption list \<Rightarrow> gostring" where
  "codexResolvedModel model0 options =
     (let model = TrimSpace model0 in
      if model = [] then []
      else case find (\<lambda>x. option_is x model) options of
        None \<Rightarrow> model
      | Some x \<Rightarrow> if TrimSpace (mo_ResolvedModel x) \<noteq> [] then TrimSpace (mo_ResolvedModel x) else mo_Value x)"

definition isCodexEffortLevel :: "gostring \<Rightarrow> bool" where
  "isCodexEffortLevel effort \<longleftrightarrow> TrimSpace effort = [] \<or> TrimSpace effort \<in> set CodexEffortLevels"

definition isCodexPermissionMode :: "gostring \<Rightarrow> bool" where
  "isCodexPermissionMode mode \<longleftrightarrow> TrimSpace mode = [] \<or> TrimSpace mode \<in> set CodexPermissionModes"

definition codexDefaultPermissionMode :: "adapter_world \<Rightarrow> gostring" where
  "codexDefaultPermissionMode w =
     (let c = readCodexConfigModel w; ap = TrimSpace (cc_approvalPolicy c); sb = TrimSpace (cc_sandboxMode c) in
      if sb = ''danger-full-access'' \<or> ap = ''never'' then ''full-access''
      else if ap = ''on-failure'' then ''approve-for-me''
      else ''request-approval'')"

definition codexDefaultEffort :: "adapter_world \<Rightarrow> gostring" where
  "codexDefaultEffort w =
     (let e = TrimSpace (cc_reasoningEffort (readCodexConfigModel w)) in
      if e \<in> set CodexEffortLevels then e else if e = ''minimal'' then ''low'' else ''medium'')"

text \<open>The Codex driver of a session: under its id, or the first whose session is bound to it.\<close>

definition CodexAppServerInfo :: "(nat \<Rightarrow> gostring \<times> gostring) \<Rightarrow> gostring \<Rightarrow> SdkManager \<Rightarrow> gostring \<times> gostring" where
  "CodexAppServerInfo info sid s =
     (let own = Option.bind (alist_get (sm_drivers s) sid) en_driver;
          other = find (\<lambda>e. en_driver e \<noteq> None \<and> x_claudeSessionID (m_exts (sm_terminal s) ! en_session e) = sid)
            (map snd (sm_drivers s))
      in case own of
           Some i \<Rightarrow> info i
         | None \<Rightarrow> (case Option.bind other en_driver of Some i \<Rightarrow> info i | None \<Rightarrow> ([], [])))"

definition codexAppServerInfo :: "adapter_world \<Rightarrow> gostring \<Rightarrow> gostring \<times> gostring" where
  "codexAppServerInfo w sid = (if TrimSpace sid = [] then ([], []) else aw_serverInfo w sid)"

definition codex_settings_reply ::
  "adapter_world \<Rightarrow> gostring \<Rightarrow> resolve_result \<Rightarrow> gostring \<Rightarrow> settings_store \<Rightarrow> AgentSettingsResult" where
  "codex_settings_reply w rid res resolved_default st =
     (let snap = set_get (rr_terminalSessionID res) st; u = codexModelOptions w;
          model = (if TrimSpace (st_Model snap) = [] then cu_default u else TrimSpace (st_Model snap));
          r0 = codexResolvedModel model (cu_options u);
          r1 = (if r0 = [] \<and> model = cu_default u then resolved_default else r0);
          mode = (if TrimSpace (st_PermissionMode snap) = [] then codexDefaultPermissionMode w else TrimSpace (st_PermissionMode snap));
          effort = (if TrimSpace (st_Effort snap) = [] then codexDefaultEffort w else TrimSpace (st_Effort snap))
      in \<lparr>sx_RequestID = rid, sx_Status = ''ok'', sx_Error = [], sx_Model = model, sx_ResolvedModel = (if r1 = [] then model else r1),
          sx_PermissionMode = mode, sx_Effort = effort, sx_Models = ensureModelsPresent (cu_models u) [model],
          sx_ModelOptions = ensureControlModelOptionsPresent (cu_options u) [model], sx_PermissionModes = CodexPermissionModes,
          sx_Efforts = CodexEffortLevels, sx_Source = fst (codexAppServerInfo w (rr_claudeSessionID res)),
          sx_FallbackReason = snd (codexAppServerInfo w (rr_claudeSessionID res))\<rparr>)"

definition codexSettingsSnapshot :: "adapter_world \<Rightarrow> gostring \<Rightarrow> resolve_result \<Rightarrow> settings_store \<Rightarrow> AgentSettingsResult" where
  "codexSettingsSnapshot w rid res st = codex_settings_reply w rid res (cu_resolved (codexModelOptions w)) st"

definition codexDefaults :: "adapter_world \<Rightarrow> gostring \<Rightarrow> AgentDefaultsResult" where
  "codexDefaults w rid =
     (let u = codexModelOptions w in
      \<lparr>dx_RequestID = rid, dx_DefaultModel = cu_default u, dx_ResolvedModel = cu_resolved u, dx_Models = cu_models u,
       dx_ModelOptions = cu_options u, dx_PermissionModes = CodexPermissionModes, dx_Efforts = CodexEffortLevels\<rparr>)"

definition codex_options_error :: "adapter_world \<Rightarrow> gostring \<Rightarrow> gostring \<Rightarrow> gostring \<Rightarrow> gostring option" where
  "codex_options_error w model mode effort =
     (if TrimSpace model \<noteq> [] \<and> \<not> codexModelAllowed (TrimSpace model) (cu_options (codexModelOptions w))
      then Some (''unknown_model: '' @ TrimSpace model)
      else if \<not> isCodexPermissionMode mode then Some (''unknown permission_mode: '' @ TrimSpace mode)
      else if \<not> isCodexEffortLevel effort then Some (''unknown effort: '' @ TrimSpace effort)
      else None)"

definition setCodexSettings ::
  "adapter_world \<Rightarrow> AgentSettingsSet \<Rightarrow> resolve_result \<Rightarrow> settings_store \<Rightarrow> AgentSettingsResult \<times> settings_store" where
  "setCodexSettings w req res st =
     (case codex_options_error w (su_Model req) (su_PermissionMode req) (su_Effort req) of
        Some e \<Rightarrow> (settings_error (su_RequestID req) e, st)
      | None \<Rightarrow>
          let st1 = record_settings (rr_terminalSessionID res) (su_Model req) (su_PermissionMode req) (su_Effort req) st
          in (codex_settings_reply w (su_RequestID req) res [] st1, st1))"

subsection \<open>Reading settings\<close>

definition settings_reply ::
  "adapter_world \<Rightarrow> gostring \<Rightarrow> resolve_result \<Rightarrow> gostring \<Rightarrow> gostring \<Rightarrow> gostring list \<Rightarrow> settings_store \<Rightarrow> AgentSettingsResult" where
  "settings_reply w rid res cwd sid extra st =
     (let snap = SnapshotFor (aw_menu w cwd) (rr_terminalSessionID res) cwd st;
          display = resolveDisplayModel w (st_Model (ss_Current snap)) sid cwd;
          resolved1 = resolveCurrentModel w display sid cwd
      in \<lparr>sx_RequestID = rid, sx_Status = ''ok'', sx_Error = [], sx_Model = display, sx_ResolvedModel = resolved1,
          sx_PermissionMode = st_PermissionMode (ss_Current snap), sx_Effort = st_Effort (ss_Current snap),
          sx_Models = ensureModelsPresent (ss_Models snap) ([display, resolved1] @ extra),
          sx_ModelOptions = ensureModelOptionsPresent (ss_ModelOptions snap) ([display, resolved1] @ extra),
          sx_PermissionModes = availablePermissionModesFor (rr_driver res) (ss_PermissionModes snap),
          sx_Efforts = ss_Efforts snap, sx_Source = [], sx_FallbackReason = []\<rparr>)"

definition settings_Get :: "adapter_world \<Rightarrow> AgentSettingsGet \<Rightarrow> settings_store \<Rightarrow> Manager.Manager \<Rightarrow> AgentSettingsResult" where
  "settings_Get w req st m =
     (let res = settings_resolve w (sq_TerminalSessionID req) (sq_SessionID req) m in
      if rr_driver res = [] then settings_error (sq_RequestID req) (rr_errStr res)
      else if isCodexAgent (sq_Agent req) then codexSettingsSnapshot w (sq_RequestID req) res st
      else settings_reply w (sq_RequestID req) res (ctl_firstNonEmpty [sq_Cwd req, rr_cwd res])
        (ctl_firstNonEmpty [rr_claudeSessionID res, sq_SessionID req]) [] st)"

definition settings_Defaults :: "adapter_world \<Rightarrow> gostring \<Rightarrow> gostring \<Rightarrow> gostring \<Rightarrow> settings_store \<Rightarrow> AgentDefaultsResult" where
  "settings_Defaults w rid cwd0 agent st =
     (if isCodexAgent agent then codexDefaults w rid
      else let cwd = TrimSpace cwd0; menu = aw_menu w cwd; snap = SnapshotFor menu [] cwd st;
               default1 = EffectiveDefaultModel menu cwd
           in \<lparr>dx_RequestID = rid, dx_DefaultModel = default1, dx_ResolvedModel = resolveModelAlias menu default1,
               dx_Models = ss_Models snap, dx_ModelOptions = ss_ModelOptions snap, dx_PermissionModes = nativePermissionModes,
               dx_Efforts = ss_Efforts snap\<rparr>)"

subsection \<open>Changing settings\<close>

text \<open>
  A switch of the model is typed into the terminal and confirmed by the session file, which
  other processes write meanwhile: \<open>obs\<close> is what the repeated counting gives, each with
  whether the time is up by then. No answer: what is given does not decide yet.
\<close>

definition not_confirmed :: "gostring \<Rightarrow> gostring" where
  "not_confirmed target = ''model_switch_not_confirmed: expected='' @ target"

definition countModelCommandTargetForSession :: "adapter_world \<Rightarrow> gostring \<Rightarrow> gostring \<Rightarrow> gostring + nat" where
  "countModelCommandTargetForSession w sid target0 =
     (let target = TrimSpace target0 in
      if target = [] then Inr 0
      else case findClaudeSessionRef w sid of
        None \<Rightarrow> Inl (''model_switch_confirmation_session_missing: '' @ sid)
      | Some r \<Rightarrow> Inr (CountModelCommandTarget (aw_file w (sref_Path r)) target))"

fun wait_confirmation :: "gostring \<Rightarrow> gostring \<Rightarrow> nat \<Rightarrow> (adapter_world \<times> bool) list \<Rightarrow> gostring option option" where
  "wait_confirmation sid target before [] = None"
| "wait_confirmation sid target before ((w, late) # obs) =
     (case countModelCommandTargetForSession w sid target of
        Inl e \<Rightarrow> Some (Some e)
      | Inr n \<Rightarrow>
          if n > before then Some None
          else if late then Some (Some (not_confirmed target))
          else wait_confirmation sid target before obs)"

definition waitForModelCommandConfirmation ::
  "gostring \<Rightarrow> gostring \<Rightarrow> nat \<Rightarrow> (adapter_world \<times> bool) list \<Rightarrow> gostring option option" where
  "waitForModelCommandConfirmation sid target0 before obs =
     (let target = TrimSpace target0 in if target = [] then Some None else wait_confirmation sid target before obs)"

type_synonym model_try = "adapter_world \<times> (nat \<Rightarrow> time) \<times> (adapter_world \<times> bool) list"

definition model_request :: "gostring \<Rightarrow> ApplyRequest" where
  "model_request model = \<lparr>ar_Model = model, ar_PermissionMode = [], ar_Effort = []\<rparr>"

text \<open>The attempts that are left, with what each sees; \<open>last\<close> is the error of the one before.\<close>

fun model_attempts ::
  "gostring \<Rightarrow> gostring \<Rightarrow> gostring \<Rightarrow> gostring \<Rightarrow> gostring option \<Rightarrow> model_try list \<Rightarrow> settings_store \<Rightarrow> Manager.Manager \<Rightarrow>
   (panic + (gostring option \<times> settings_store \<times> Manager.Manager)) option" where
  "model_attempts ts sid model target last1 [] st m =
     Some (Inr (Some (case last1 of Some e \<Rightarrow> e | None \<Rightarrow> not_confirmed target), st, m))"
| "model_attempts ts sid model target last1 ((w, clk, obs) # tries) st m =
     (case countModelCommandTargetForSession w sid target of
        Inl e \<Rightarrow> Some (Inr (Some e, st, m))
      | Inr before \<Rightarrow>
          (case Apply ts sid (model_request model) clk st m of
             Inl p \<Rightarrow> Some (Inl p)
           | Inr (Some e, st1, m1) \<Rightarrow> Some (Inr (Some (apply_error_text e), st1, m1))
           | Inr (None, st1, m1) \<Rightarrow>
               (case waitForModelCommandConfirmation sid target before obs of
                  None \<Rightarrow> None
                | Some None \<Rightarrow> Some (Inr (None, st1, m1))
                | Some (Some e) \<Rightarrow> model_attempts ts sid model target (Some e) tries st1 m1)))"

definition applyPTYModelWithConfirmation ::
  "gostring \<Rightarrow> gostring \<Rightarrow> gostring \<Rightarrow> gostring \<Rightarrow> model_try \<times> model_try \<times> model_try \<Rightarrow> settings_store \<Rightarrow> Manager.Manager \<Rightarrow>
   (panic + (gostring option \<times> settings_store \<times> Manager.Manager)) option" where
  "applyPTYModelWithConfirmation ts sid model target tries st m =
     (case tries of (t1, t2, t3) \<Rightarrow> model_attempts ts sid model target None [t1, t2, t3] st m)"

definition apply_others ::
  "gostring \<Rightarrow> gostring \<Rightarrow> AgentSettingsSet \<Rightarrow> (nat \<Rightarrow> time) \<Rightarrow> settings_store \<Rightarrow> Manager.Manager \<Rightarrow> apply_result" where
  "apply_others ts sid req clk st m =
     (if su_PermissionMode req \<noteq> [] \<or> su_Effort req \<noteq> []
      then Apply ts sid \<lparr>ar_Model = [], ar_PermissionMode = su_PermissionMode req, ar_Effort = su_Effort req\<rparr> clk st m
      else Inr (None, st, m))"

type_synonym set_result = "(panic + (AgentSettingsResult \<times> settings_store \<times> Manager.Manager)) option"

text \<open>Into the terminal: the mode and the effort, then the model with its confirmation. \<open>wa\<close> is
  what the reply reads afterwards.\<close>

definition set_pty ::
  "adapter_world \<Rightarrow> adapter_world \<Rightarrow> AgentSettingsSet \<Rightarrow> resolve_result \<Rightarrow> gostring \<Rightarrow> gostring list \<Rightarrow> (nat \<Rightarrow> time) \<Rightarrow>
   model_try \<times> model_try \<times> model_try \<Rightarrow> settings_store \<Rightarrow> Manager.Manager \<Rightarrow> set_result" where
  "set_pty w wa req res sid extra clk tries st m =
     (let ts = rr_terminalSessionID res; model = TrimSpace (su_Model req);
          alias = resolveModelAlias (aw_menu w (rr_cwd res)) model; target = (if alias = [] then model else alias)
      in case apply_others ts sid req clk st m of
           Inl p \<Rightarrow> Some (Inl p)
         | Inr (Some e, st1, m1) \<Rightarrow> Some (Inr (settings_error (su_RequestID req) (apply_error_text e), st1, m1))
         | Inr (None, st1, m1) \<Rightarrow>
             if model = [] then Some (Inr (settings_reply wa (su_RequestID req) res (rr_cwd res) sid extra st1, st1, m1))
             else (case applyPTYModelWithConfirmation ts sid model target tries st1 m1 of
                None \<Rightarrow> None
              | Some (Inl p) \<Rightarrow> Some (Inl p)
              | Some (Inr (Some e, st2, m2)) \<Rightarrow> Some (Inr (settings_error (su_RequestID req) e, st2, m2))
              | Some (Inr (None, st2, m2)) \<Rightarrow>
                  let st3 = SetModel ts model st2 in
                  Some (Inr (settings_reply wa (su_RequestID req) res (rr_cwd res) sid extra st3, st3, m2))))"

text \<open>Without a terminal the values wait in the store for the next start.\<close>

definition set_headless ::
  "adapter_world \<Rightarrow> AgentSettingsSet \<Rightarrow> resolve_result \<Rightarrow> gostring \<Rightarrow> gostring list \<Rightarrow> settings_store \<Rightarrow> AgentSettingsResult \<times> settings_store" where
  "set_headless w req res sid extra st =
     (case ValidateApplyRequest \<lparr>ar_Model = su_Model req, ar_PermissionMode = su_PermissionMode req, ar_Effort = su_Effort req\<rparr> of
        Some e \<Rightarrow> (settings_error (su_RequestID req) (apply_error_text e), st)
      | None \<Rightarrow>
          let st1 = record_settings (rr_terminalSessionID res) (su_Model req) (su_PermissionMode req) (su_Effort req) st
          in (settings_reply w (su_RequestID req) res (rr_cwd res) sid extra st1, st1))"

definition settings_Set ::
  "adapter_world \<Rightarrow> adapter_world \<Rightarrow> AgentSettingsSet \<Rightarrow> (nat \<Rightarrow> time) \<Rightarrow> model_try \<times> model_try \<times> model_try \<Rightarrow> settings_store \<Rightarrow>
   Manager.Manager \<Rightarrow> set_result" where
  "settings_Set w wa req clk tries st m =
     (let res = settings_resolve w (su_TerminalSessionID req) (su_SessionID req) m in
      if rr_driver res = [] then Some (Inr (settings_error (su_RequestID req) (rr_errStr res), st, m))
      else if isCodexAgent (su_Agent req)
      then (case setCodexSettings w req res st of (r, st1) \<Rightarrow> Some (Inr (r, st1, m)))
      else let sid = ctl_firstNonEmpty [rr_claudeSessionID res, su_SessionID req];
               running = currentRunningModel w sid (rr_cwd res)
           in case ValidateModelForCwd (aw_menu w (rr_cwd res)) (rr_cwd res) (su_Model req) [running] of
                Some e \<Rightarrow> Some (Inr (settings_error (su_RequestID req) (apply_error_text e), st, m))
              | None \<Rightarrow>
                  if rr_driver res = ''pty'' then set_pty w wa req res sid [running] clk tries st m
                  else (case set_headless w req res sid [running] st of (r, st1) \<Rightarrow> Some (Inr (r, st1, m))))"

subsection \<open>Drivers\<close>

record StartTaskAgentOptions =
  to_Model :: gostring
  to_PermissionMode :: gostring
  to_Effort :: gostring

definition start_options_error :: "adapter_world \<Rightarrow> gostring \<Rightarrow> gostring \<Rightarrow> StartTaskAgentOptions \<Rightarrow> gostring option" where
  "start_options_error w cwd agent opts =
     (if agent = AgentCodex then codex_options_error w (to_Model opts) (to_PermissionMode opts) (to_Effort opts)
      else case ValidateApplyRequest
          \<lparr>ar_Model = to_Model opts, ar_PermissionMode = to_PermissionMode opts, ar_Effort = to_Effort opts\<rparr> of
        Some e \<Rightarrow> Some (apply_error_text e)
      | None \<Rightarrow> map_option apply_error_text (ValidateModelForCwd (aw_menu w cwd) cwd (to_Model opts) []))"

definition with_settings :: "settings_store \<Rightarrow> sdk_world \<Rightarrow> sdk_world" where
  "with_settings st sw = sw\<lparr>wo_settings := Some (sdkSettingsReader st)\<rparr>"

text \<open>\<open>cause\<close> is the text of a wrapped error.\<close>

definition adapter_EnsureDriver ::
  "sdk_world \<Rightarrow> gostring \<Rightarrow> gostring \<Rightarrow> gostring \<Rightarrow> settings_store \<Rightarrow> SdkManager \<Rightarrow> panic + ((sdk_error + nat) \<times> SdkManager)" where
  "adapter_EnsureDriver sw sid cwd agent st s = EnsureDriver (with_settings st sw) sid cwd (adapter_agent agent) s"

definition adapter_EnsureNewDriver ::
  "adapter_world \<Rightarrow> sdk_world \<Rightarrow> gostring \<Rightarrow> gostring \<Rightarrow> gostring \<Rightarrow> gostring \<Rightarrow> StartTaskAgentOptions \<Rightarrow> settings_store \<Rightarrow>
   SdkManager \<Rightarrow> panic + ((gostring + nat) \<times> settings_store \<times> SdkManager)" where
  "adapter_EnsureNewDriver w sw cause sid cwd agent0 opts st s =
     (let agent = adapter_agent agent0 in
      case start_options_error w cwd agent opts of
        Some e \<Rightarrow> Inr (Inl e, st, s)
      | None \<Rightarrow>
          let st1 = record_settings (sdkSettingsKey sid) (to_Model opts) (to_PermissionMode opts) (to_Effort opts) st in
          bind_sum (EnsureNewDriver (with_settings st1 sw) sid cwd agent s) (\<lambda>(res, s1).
            case res of
              Inl e \<Rightarrow> Inr (Inl (sdk_error_text cause sid agent e), st1, s1)
            | Inr r \<Rightarrow> Inr (Inr r, st1, s1)))"

subsection \<open>Deleting a session\<close>

datatype remove_outcome = Removed | RemoveMissing | RemoveFailed gostring

record SessionDeleteResult =
  sd_RequestID :: gostring
  sd_Status :: gostring
  sd_Error :: gostring
  sd_Deleted :: "gostring list"

definition delete_error :: "gostring \<Rightarrow> gostring \<Rightarrow> SessionDeleteResult" where
  "delete_error rid e = \<lparr>sd_RequestID = rid, sd_Status = ''error'', sd_Error = e, sd_Deleted = []\<rparr>"

text \<open>The path that is removed, if any, and the reply; the refreshes are those of the index.\<close>

definition delete_target :: "adapter_world \<Rightarrow> gostring \<Rightarrow> SessionRef option" where
  "delete_target w sid =
     (case aw_index w of
        None \<Rightarrow> None
      | Some f \<Rightarrow>
          (case f sid of
             Some r \<Rightarrow> if sref_Path r = [] then (case aw_refreshed w of Some g \<Rightarrow> g sid | None \<Rightarrow> Some r) else Some r
           | None \<Rightarrow> (case aw_refreshed w of Some g \<Rightarrow> g sid | None \<Rightarrow> None)))"

definition adapter_DeleteSession ::
  "adapter_world \<Rightarrow> (gostring \<Rightarrow> remove_outcome) \<Rightarrow> gostring \<Rightarrow> gostring \<Rightarrow> gostring option \<times> SessionDeleteResult" where
  "adapter_DeleteSession w remove rid sid0 =
     (let sid = TrimSpace sid0 in
      if sid = [] then (None, delete_error rid ''session_id_required'')
      else if aw_index w = None then (None, delete_error rid ''index_unavailable'')
      else case delete_target w sid of
        None \<Rightarrow> (None, delete_error rid ''session_not_found'')
      | Some ref \<Rightarrow>
          if TrimSpace (sref_Path ref) = [] then (None, delete_error rid ''session_not_found'')
          else let done_reply = \<lparr>sd_RequestID = rid, sd_Status = ''ok'', sd_Error = [], sd_Deleted = [sref_Path ref]\<rparr> in
            case remove (sref_Path ref) of
              Removed \<Rightarrow> (Some (sref_Path ref), done_reply)
            | RemoveMissing \<Rightarrow> (None, done_reply)
            | RemoveFailed e \<Rightarrow> (None, delete_error rid e))"

end
