(* ===== verification/ControlTask.thy ===== *)
theory ControlTask
  imports AgentAdapter "HOL-Library.Word"
begin

section \<open>New conversations, and the life of an inject\<close>

text \<open>
  The rest of the inject path of \<open>daemon/internal/control/control.go\<close>: \<open>handle\<close>, \<open>routeInject\<close>
  and \<open>routeStartTask\<close> with its waits. A wait is a function of what its \<open>select\<close> gets, in order;
  no answer means that it still waits. A start is in two steps, before and after the wait,
  since other goroutines run in between.
\<close>

subsection \<open>Arguments and ids\<close>

definition startTaskClaudeArgs :: "gostring \<Rightarrow> gostring \<Rightarrow> gostring \<Rightarrow> gostring \<Rightarrow> gostring \<Rightarrow> gostring + gostring list" where
  "startTaskClaudeArgs sid txt model0 mode0 effort0 =
     (let model = TrimSpace model0; effort = TrimSpace effort0; mode = TrimSpace mode0;
          args = [''--session-id'', sid] @ (if model \<noteq> [] then [''--model'', model] else [])
      in if effort \<notin> {[], ''none'', ''low'', ''medium'', ''high'', ''xhigh'', ''max''} then Inl (''unknown effort: '' @ effort)
         else if mode \<notin> {[], ''default'', ''acceptEdits'', ''plan'', ''auto'', ''bypassPermissions'', ''dontAsk''}
         then Inl (''unknown permission_mode: '' @ mode)
         else Inr (args @ (if effort \<notin> {[], ''none''} then [''--effort'', effort] else []) @
                   (if mode \<notin> {[], ''default''} then [''--permission-mode'', mode] else []) @ [txt]))"

definition hex_char :: "nat \<Rightarrow> char" where
  "hex_char d = (if d < 10 then char_of (48 + d) else char_of (87 + d))"

fun hex_nat :: "nat \<Rightarrow> gostring" where
  "hex_nat n = (if n < 16 then [hex_char n] else hex_nat (n div 16) @ [hex_char (n mod 16)])"

declare hex_nat.simps [simp del]

definition pad_hex :: "nat \<Rightarrow> nat \<Rightarrow> gostring" where
  "pad_hex w n = replicate (w - length (hex_nat n)) (CHR ''0'') @ hex_nat n"

type_synonym byte = "8 word"

definition hex_byte :: "byte \<Rightarrow> gostring" where
  "hex_byte b = [hex_char (unat b div 16), hex_char (unat b mod 16)]"

definition hex_bytes :: "byte list \<Rightarrow> gostring" where
  "hex_bytes bs = concat (map hex_byte bs)"

text \<open>The version and the variant are set in sixteen random bytes; \<open>nano\<close> is the clock when there are none.\<close>

definition set_version :: "byte list \<Rightarrow> byte list" where
  "set_version b = b[6 := or (and (b ! 6) 0x0F) 0x40, 8 := or (and (b ! 8) 0x3F) 0x80]"

definition newUUIDv4 :: "byte list option \<Rightarrow> nat \<Rightarrow> gostring" where
  "newUUIDv4 random nano =
     (case random of
        Some b0 \<Rightarrow>
          let b = set_version b0 in
          hex_bytes (take 4 b) @ ''-'' @ hex_bytes (take 2 (drop 4 b)) @ ''-'' @ hex_bytes (take 2 (drop 6 b)) @ ''-'' @
          hex_bytes (take 2 (drop 8 b)) @ ''-'' @ hex_bytes (drop 10 b)
      | None \<Rightarrow>
          pad_hex 8 (nano mod 2 ^ 32) @ ''-'' @ pad_hex 4 (nano div 2 ^ 32 mod 2 ^ 16) @ ''-4'' @
          pad_hex 3 (nano div 2 ^ 16 mod 2 ^ 12) @ ''-'' @ pad_hex 4 (2 ^ 15 + nano mod 2 ^ 14) @ ''-'' @ pad_hex 12 nano)"

subsection \<open>Waiting for a start\<close>

text \<open>
  What a \<open>select\<close> gets. The text next to it is what the code reads of the session then: the
  status of a terminal session, or the id an external session is bound to.
\<close>

datatype wake = WCancelled | WTimer gostring | WTick gostring | WEvent Event gostring | WClosed gostring

definition startTaskEarlyDeathWindow :: duration where "startTaskEarlyDeathWindow = 5 * second"
definition startTaskPostEvidenceDeathWindow :: duration where "startTaskPostEvidenceDeathWindow = 2 * second"

definition ctx_canceled :: gostring where "ctx_canceled = ''context canceled''"
definition start_failed_text :: "gostring \<Rightarrow> gostring" where
  "start_failed_text e = (if TrimSpace e \<noteq> [] then ''agent_start_failed: '' @ e else ''agent_start_failed'')"
definition exited_text :: gostring where "exited_text = ''agent_exited_before_ready''"

definition timer_verdict :: "SessionStatus \<Rightarrow> gostring option" where
  "timer_verdict status =
     (if status = SessionError then Some ''agent_start_failed''
      else if status = SessionExited then Some exited_text else None)"

definition closed_verdict :: "SessionStatus \<Rightarrow> gostring" where
  "closed_verdict status = (if status = SessionError then ''agent_start_failed'' else exited_text)"

fun waitForEarlyExitAfterStartEvidence :: "wake list \<Rightarrow> Event list \<Rightarrow> (Event list \<times> gostring option) option" where
  "waitForEarlyExitAfterStartEvidence [] pending = None"
| "waitForEarlyExitAfterStartEvidence (WCancelled # ws) pending = Some (pending, Some ctx_canceled)"
| "waitForEarlyExitAfterStartEvidence (WTimer status # ws) pending = Some (pending, timer_verdict status)"
| "waitForEarlyExitAfterStartEvidence (WTick _ # ws) pending = waitForEarlyExitAfterStartEvidence ws pending"
| "waitForEarlyExitAfterStartEvidence (WClosed status # ws) pending = Some (pending, Some (closed_verdict status))"
| "waitForEarlyExitAfterStartEvidence (WEvent e _ # ws) pending =
     (if ev_Kind e = EventError then Some (pending @ [e], Some (start_failed_text (ev_Error e)))
      else if ev_Kind e = EventSessionExited then Some (pending @ [e], Some exited_text)
      else if ev_Kind e = EventPromptReady then Some (pending @ [e], None)
      else waitForEarlyExitAfterStartEvidence ws (pending @ [e]))"

fun waitForStartTaskReady :: "wake list \<Rightarrow> Event list \<Rightarrow> (Event list \<times> gostring option) option" where
  "waitForStartTaskReady [] pending = None"
| "waitForStartTaskReady (WCancelled # ws) pending = Some (pending, Some ctx_canceled)"
| "waitForStartTaskReady (WTimer status # ws) pending = Some (pending, timer_verdict status)"
| "waitForStartTaskReady (WTick _ # ws) pending = waitForStartTaskReady ws pending"
| "waitForStartTaskReady (WClosed status # ws) pending = Some (pending, Some (closed_verdict status))"
| "waitForStartTaskReady (WEvent e _ # ws) pending =
     (if ev_Kind e = EventError then Some (pending @ [e], Some (start_failed_text (ev_Error e)))
      else if ev_Kind e = EventSessionExited then Some (pending @ [e], Some exited_text)
      else if ev_Kind e = EventTextDelta \<and> TrimSpace (ev_Payload e) \<noteq> [] then waitForEarlyExitAfterStartEvidence ws (pending @ [e])
      else if ev_Kind e = EventPromptReady then Some (pending @ [e], None)
      else waitForStartTaskReady ws (pending @ [e]))"

fun waitForExternalStartTaskStarted :: "wake list \<Rightarrow> gostring option option" where
  "waitForExternalStartTaskStarted [] = None"
| "waitForExternalStartTaskStarted (WCancelled # ws) = Some (Some ctx_canceled)"
| "waitForExternalStartTaskStarted (WTimer _ # ws) = Some None"
| "waitForExternalStartTaskStarted (WTick _ # ws) = waitForExternalStartTaskStarted ws"
| "waitForExternalStartTaskStarted (WClosed _ # ws) = Some (Some exited_text)"
| "waitForExternalStartTaskStarted (WEvent e _ # ws) =
     (if ev_Kind e = EventMessageAdded \<or> ev_Kind e = EventTextDelta
      then (if TrimSpace (ev_Payload e) \<noteq> [] then Some None else waitForExternalStartTaskStarted ws)
      else if ev_Kind e = EventError then Some (Some (start_failed_text (ev_Error e)))
      else if ev_Kind e = EventSessionExited then Some (Some exited_text)
      else waitForExternalStartTaskStarted ws)"

text \<open>The id the session is bound to, unless it is the provisional one.\<close>

definition bound_sid :: "gostring \<Rightarrow> gostring \<Rightarrow> gostring option" where
  "bound_sid provisional current =
     (let sid = TrimSpace current in if sid \<noteq> [] \<and> sid \<noteq> provisional then Some sid else None)"

fun wait_bound :: "gostring \<Rightarrow> wake list \<Rightarrow> (gostring + gostring) option" where
  "wait_bound prov [] = None"
| "wait_bound prov (WCancelled # ws) = Some (Inl ctx_canceled)"
| "wait_bound prov (WTimer cur # ws) =
     Some (case bound_sid prov cur of Some sid \<Rightarrow> Inr sid | None \<Rightarrow> Inl ''agent_start_failed: codex thread id not assigned'')"
| "wait_bound prov (WTick cur # ws) =
     (case bound_sid prov cur of Some sid \<Rightarrow> Some (Inr sid) | None \<Rightarrow> wait_bound prov ws)"
| "wait_bound prov (WClosed _ # ws) = Some (Inl exited_text)"
| "wait_bound prov (WEvent e cur # ws) =
     (if ev_Kind e = EventError then Some (Inl (start_failed_text (ev_Error e)))
      else if ev_Kind e = EventSessionExited then Some (Inl exited_text)
      else case bound_sid prov cur of Some sid \<Rightarrow> Some (Inr sid) | None \<Rightarrow> wait_bound prov ws)"

definition waitForExternalSessionBound :: "gostring \<Rightarrow> gostring \<Rightarrow> wake list \<Rightarrow> (gostring + gostring) option" where
  "waitForExternalSessionBound prov current ws =
     (case bound_sid prov current of Some sid \<Rightarrow> Some (Inr sid) | None \<Rightarrow> wait_bound prov ws)"

subsection \<open>Starting a conversation\<close>

record task_world =
  tw_inject :: inject_world
  tw_adapter :: adapter_world
  tw_home :: "gostring option"
  tw_isdir :: "gostring \<Rightarrow> bool"
  tw_random :: "byte list option"
  tw_nano :: nat

record task_state =
  tk_runner :: runner
  tk_sdk :: SdkManager
  tk_files :: attach_disk
  tk_settings :: settings_store

definition isValidDir :: "(gostring \<Rightarrow> bool) \<Rightarrow> gostring \<Rightarrow> bool" where
  "isValidDir isdir path \<longleftrightarrow> TrimSpace path \<noteq> [] \<and> isdir path"

text \<open>A start whose wait is on: the provisional id, the session and its subscription.\<close>

record pending_task =
  pt_sid :: gostring
  pt_session :: nat
  pt_channel :: nat
  pt_subscription :: "nat option"

definition task_cwd :: "task_world \<Rightarrow> InjectRequest \<Rightarrow> gostring + gostring" where
  "task_cwd w req =
     (let cwd0 = TrimSpace (iq_Cwd req) in
      if cwd0 = [] \<and> tw_home w = None then Inl ''cwd_required''
      else let cwd = (if cwd0 = [] then the (tw_home w) else cwd0) in
        if isValidDir (tw_isdir w) cwd then Inr cwd else Inl (''cwd_invalid: '' @ cwd))"

definition task_options :: "InjectRequest \<Rightarrow> StartTaskAgentOptions" where
  "task_options req =
     \<lparr>to_Model = TrimSpace (iq_Model req), to_PermissionMode = TrimSpace (iq_PermissionMode req), to_Effort = TrimSpace (iq_Effort req)\<rparr>"

text \<open>What can be said before anything is started: an error, or the directory and the new id.\<close>

definition task_checks :: "task_world \<Rightarrow> InjectRequest \<Rightarrow> gostring + (gostring \<times> gostring)" where
  "task_checks w req =
     (if TrimSpace (iq_Text req) = [] then Inl ''text_required''
      else bind_sum (task_cwd w req) (\<lambda>cwd.
        let sid = newUUIDv4 (tw_random w) (tw_nano w) in
        if isCodexAgent (iq_Agent req) then Inr (cwd, sid)
        else bind_sum (startTaskClaudeArgs sid (iq_Text req) (iq_Model req) (iq_PermissionMode req) (iq_Effort req))
          (\<lambda>_. Inr (cwd, sid))))"

definition end_subscription :: "nat \<Rightarrow> nat option \<Rightarrow> SdkManager \<Rightarrow> panic + SdkManager" where
  "end_subscription r sub s =
     (case sub of
        None \<Rightarrow> Inr s
      | Some k \<Rightarrow> bind_sum (on_external r (\<lambda>e. bind_sum (ext_unsubscribe k e) (\<lambda>e1. Inr ((), e1))) s) (\<lambda>(_, t). Inr t))"

definition start_headless ::
  "task_world \<Rightarrow> sdk_world \<Rightarrow> InjectRequest \<Rightarrow> gostring \<Rightarrow> gostring \<Rightarrow> task_state \<Rightarrow>
   panic + ((gostring + pending_task) \<times> task_state)" where
  "start_headless w sw req cwd sid st =
     bind_sum (adapter_EnsureNewDriver (tw_adapter w) sw (iw_cause (tw_inject w)) sid cwd (iq_Agent req) (task_options req)
         (tk_settings st) (tk_sdk st)) (\<lambda>(res, store1, s1).
       let st1 = st\<lparr>tk_settings := store1, tk_sdk := s1\<rparr> in
       case res of
         Inl e \<Rightarrow> Inr (Inl (mapSDKError e), st1)
       | Inr r \<Rightarrow>
           let rn = bindActiveInjectTerminal (iw_now (tw_inject w)) (iq_RequestID req) sid
               (sdkExternalTerminalID (sm_terminal s1) r) (tk_runner st1) in
           bind_sum (on_external r (ext_Subscribe 256) s1) (\<lambda>((ch, sub), s2).
           bind_sum (sendToSDKExternal r (iq_Text req) (iq_Agent req) (iw_now (tw_inject w)) s2) (\<lambda>(e, s3).
             case e of
               Some err \<Rightarrow> bind_sum (end_subscription r sub s3) (\<lambda>s4.
                 Inr (Inl (''sdk_send_failed: '' @ err), st1\<lparr>tk_runner := rn, tk_sdk := s4\<rparr>))
             | None \<Rightarrow>
                 Inr (Inr \<lparr>pt_sid = sid, pt_session = r, pt_channel = ch, pt_subscription = sub\<rparr>,
                   st1\<lparr>tk_runner := rn, tk_sdk := s3\<rparr>))))"

text \<open>The wait of a headless start, given the id the session is bound to when it begins.\<close>

definition task_wait :: "InjectRequest \<Rightarrow> pending_task \<Rightarrow> gostring \<Rightarrow> wake list \<Rightarrow> (gostring + gostring) option" where
  "task_wait req p current ws =
     (if isCodexAgent (iq_Agent req) then waitForExternalSessionBound (pt_sid p) current ws
      else map_option (\<lambda>e. case e of Some err \<Rightarrow> Inl err | None \<Rightarrow> Inr (pt_sid p)) (waitForExternalStartTaskStarted ws))"

definition finish_headless ::
  "InjectRequest \<Rightarrow> pending_task \<Rightarrow> gostring \<Rightarrow> wake list \<Rightarrow> task_state \<Rightarrow>
   (panic + ((gostring option \<times> InjectEvent list) \<times> task_state)) option" where
  "finish_headless req p current ws st =
     map_option (\<lambda>res. bind_sum (end_subscription (pt_session p) (pt_subscription p) (tk_sdk st)) (\<lambda>s.
         Inr (case res of
                Inl err \<Rightarrow> (Some err, [])
              | Inr sid \<Rightarrow> (None, [inject_event (iq_RequestID req) ''session_created'' sid []]),
              st\<lparr>tk_sdk := s\<rparr>)))
       (task_wait req p current ws)"

subsection \<open>The older way, on a pseudo terminal\<close>

text \<open>
  Used when no driver manager is wired. \<open>started\<close> is what starting the process gives; the id is
  that of the terminal manager.
\<close>

definition task_launch :: "CommandSpec \<Rightarrow> gostring list \<Rightarrow> gostring \<Rightarrow> gostring list \<Rightarrow> LaunchConfig" where
  "task_launch spec args cwd env =
     \<lparr>lc_Command = cs_Path spec, lc_Args = spec_Args spec args, lc_Cwd = cwd, lc_Env = env, lc_Cols = 0, lc_Rows = 0,
      lc_ReadyDelay = 1200 * millisecond, lc_PromptDelay = 2500 * millisecond, lc_StartupTimeout = 0\<rparr>"

definition forwarded :: "gostring \<Rightarrow> gostring \<Rightarrow> Event \<Rightarrow> TerminalEvent" where
  "forwarded rid tsid e =
     empty_event\<lparr>te_RequestID := rid, te_TerminalSessionID := tsid, te_Seq := ev_Seq e, te_Kind := ev_Kind e,
       te_SessionStatus := ev_SessionStatus e, te_TurnStatus := ev_TurnStatus e, te_Payload := ev_Payload e,
       te_Error := ev_Error e, te_Timestamp := ev_Timestamp e\<rparr>"

definition start_pty ::
  "launch_error + CommandSpec \<Rightarrow> (LaunchConfig \<Rightarrow> start_error + Session) \<Rightarrow> (start_error \<Rightarrow> gostring) \<Rightarrow> gostring list \<Rightarrow>
   gostring \<Rightarrow> time \<Rightarrow> InjectRequest \<Rightarrow> gostring \<Rightarrow> gostring \<Rightarrow> task_state \<Rightarrow>
   panic + ((gostring + (gostring \<times> nat \<times> nat \<times> nat option)) \<times> task_state)" where
  "start_pty launcher started err_text env tsid now req cwd sid st =
     (case launcher of
        Inl _ \<Rightarrow> Inr (Inl ''claude_binary_missing'', st)
      | Inr spec \<Rightarrow>
          (case startTaskClaudeArgs sid (iq_Text req) (iq_Model req) (iq_PermissionMode req) (iq_Effort req) of
             Inl e \<Rightarrow> Inr (Inl e, st)
           | Inr args \<Rightarrow>
               (case CreateWithID tsid (started (task_launch spec args cwd env)) now (sm_terminal (tk_sdk st)) of
                  (Inl e, m) \<Rightarrow> Inr (Inl (''spawn_failed: '' @ err_text e), st)
                | (Inr (tid, r), m) \<Rightarrow>
                    bind_sum (sess_Subscribe 256 (m_ptys m ! r)) (\<lambda>((ch, sub), x).
                      Inr (Inr (tid, r, ch, sub),
                        st\<lparr>tk_sdk := (tk_sdk st)\<lparr>sm_terminal := m\<lparr>m_ptys := (m_ptys m)[r := x]\<rparr>\<rparr>\<rparr>)))))"

text \<open>After the wait: the settings are recorded, the id is told, and the events so far are passed on.\<close>

definition finish_pty ::
  "InjectRequest \<Rightarrow> gostring \<Rightarrow> gostring \<Rightarrow> wake list \<Rightarrow> task_state \<Rightarrow> ((gostring option \<times> InjectEvent list) \<times> task_state) option" where
  "finish_pty req sid tsid ws st =
     (case waitForStartTaskReady ws [] of
        None \<Rightarrow> None
      | Some (pending, Some err) \<Rightarrow> Some ((Some err, []), st)
      | Some (pending, None) \<Rightarrow>
          Some ((None, [inject_event (iq_RequestID req) ''session_created'' sid []]),
            st\<lparr>tk_settings := RecordInitial tsid (iq_Model req) (iq_PermissionMode req) (iq_Effort req) (tk_settings st),
               tk_runner := fold (\<lambda>e. forwardTerminalEvent (forwarded (iq_RequestID req) tsid e)) pending (tk_runner st)\<rparr>))"

subsection \<open>The life of a request\<close>

definition handle_begin :: "time \<Rightarrow> InjectRequest \<Rightarrow> runner \<Rightarrow> InjectEvent list \<times> bool \<times> runner" where
  "handle_begin now req rn =
     (let rid = iq_RequestID req in
      if rid = [] then ([], False, rn)
      else if rn_active rn \<noteq> [] then ([inject_event rid ''inject_failed'' [] ''daemon_busy''], False, rn)
      else ([inject_event rid ''inject_started'' (iq_SessionID req) []], True,
        rn\<lparr>rn_active := rid # rn_active rn,
           rn_injects := alist_put rid \<lparr>ai_RequestID = rid, ai_SessionID = iq_SessionID req, ai_TerminalSessionID = [],
             ai_ExpiresAt = now + activeInjectMirrorTTL\<rparr> (rn_injects rn)\<rparr>))"

definition handle_end :: "InjectRequest \<Rightarrow> gostring option \<Rightarrow> runner \<Rightarrow> InjectEvent list \<times> runner" where
  "handle_end req err rn0 =
     (let rid = iq_RequestID req;
          rn = (case err of Some _ \<Rightarrow> clearActiveInject rid rn0 | None \<Rightarrow> rn0)
      in ([case err of Some e \<Rightarrow> inject_event rid ''inject_failed'' [] e
           | None \<Rightarrow> inject_event rid ''inject_completed'' (iq_SessionID req) []],
          rn\<lparr>rn_active := filter (\<lambda>x. x \<noteq> rid) (rn_active rn)\<rparr>))"

text \<open>\<open>cancel\<close> ends the context of a request that is active: its waits get \<open>WCancelled\<close>.\<close>

definition cancels :: "gostring \<Rightarrow> runner \<Rightarrow> bool" where
  "cancels rid rn \<longleftrightarrow> rid \<in> set (rn_active rn)"

definition to_inject :: "task_state \<Rightarrow> inject_state" where
  "to_inject st = \<lparr>is_runner = tk_runner st, is_sdk = tk_sdk st, is_files = tk_files st\<rparr>"

definition from_inject :: "inject_state \<Rightarrow> task_state \<Rightarrow> task_state" where
  "from_inject x st = st\<lparr>tk_runner := is_runner x, tk_sdk := is_sdk x, tk_files := is_files x\<rparr>"

datatype progress = Ended "gostring option" | Waiting pending_task

text \<open>\<open>routeInject\<close> with a driver manager, up to the end or to the wait of a start.\<close>

definition routeInject :: "task_world \<Rightarrow> sdk_world \<Rightarrow> InjectRequest \<Rightarrow> task_state \<Rightarrow> panic + (progress \<times> task_state)" where
  "routeInject w sw req st =
     (if iq_Mode req = ''resume_session''
      then bind_sum (routeResume ((tw_inject w)\<lparr>iw_sdk := Some (with_settings (tk_settings st) sw)\<rparr>) req (to_inject st)) (\<lambda>(e, x).
        Inr (Ended e, from_inject x st))
      else if iq_Mode req = ''start_task''
      then (case task_checks w req of
              Inl e \<Rightarrow> Inr (Ended (Some e), st)
            | Inr (cwd, sid) \<Rightarrow>
                bind_sum (start_headless w sw req cwd sid st) (\<lambda>(res, st1).
                  Inr (case res of Inl e \<Rightarrow> Ended (Some e) | Inr p \<Rightarrow> Waiting p, st1)))
      else Inr (Ended (Some ''unsupported_mode''), st))"

definition handle_start ::
  "task_world \<Rightarrow> sdk_world \<Rightarrow> InjectRequest \<Rightarrow> task_state \<Rightarrow> panic + ((InjectEvent list \<times> pending_task option) \<times> task_state)" where
  "handle_start w sw req st =
     (case handle_begin (iw_now (tw_inject w)) req (tk_runner st) of
        (evs, False, rn) \<Rightarrow> Inr ((evs, None), st)
      | (evs, True, rn) \<Rightarrow>
          bind_sum (routeInject w sw req (st\<lparr>tk_runner := rn\<rparr>)) (\<lambda>(pr, st1).
            case pr of
              Waiting p \<Rightarrow> Inr ((evs, Some p), st1)
            | Ended e \<Rightarrow> (case handle_end req e (tk_runner st1) of
                (evs2, rn2) \<Rightarrow> Inr ((evs @ evs2, None), st1\<lparr>tk_runner := rn2\<rparr>))))"

definition handle_finish ::
  "InjectRequest \<Rightarrow> pending_task \<Rightarrow> gostring \<Rightarrow> wake list \<Rightarrow> task_state \<Rightarrow> (panic + (InjectEvent list \<times> task_state)) option" where
  "handle_finish req p current ws st =
     map_option (\<lambda>x. bind_sum x (\<lambda>((e, evs), st1).
         case handle_end req e (tk_runner st1) of (evs2, rn2) \<Rightarrow> Inr (evs @ evs2, st1\<lparr>tk_runner := rn2\<rparr>)))
       (finish_headless req p current ws st)"

end
