(* ===== verification/ControlProps.thy ===== *)
theory ControlProps
  imports ControlTask
begin

section \<open>Injects: properties\<close>

subsection \<open>Runes below 128\<close>

lemma decode_rune_small:
  assumes "decode_rune (b0 # bs) = (r, w)" "r < 128"
  shows "r = b0 \<and> w = 1"
proof -
  have "224 \<le> b0 \<Longrightarrow> accept2 b0 b1 \<Longrightarrow> 128 \<le> (b0 - 224) * 4096 + (b1 - 128) * 64" for b1
    by (cases "b0 = 224") (auto simp: accept2_def)
  moreover have "240 \<le> b0 \<Longrightarrow> accept2 b0 b1 \<Longrightarrow> 128 \<le> (b0 - 240) * 262144 + (b1 - 128) * 4096" for b1
    by (cases "b0 = 240") (auto simp: accept2_def)
  ultimately show ?thesis using assms
    by (fastforce simp: decode_rune.simps rune_error_def split: if_splits list.splits)
qed

lemma rune_segs_small: "(r, seg) \<in> set (rune_segs s) \<Longrightarrow> r < 128 \<Longrightarrow> \<exists>c. seg = [c] \<and> r = of_char c"
proof (induction s rule: rune_segs.induct)
  case (2 c cs)
  obtain q w where rw: "decode_rune (bytes_of (c # cs)) = (q, w)" by fastforce
  show ?case
  proof (cases "(r, seg) = (q, take w (c # cs))")
    case True
    then have "q = of_char c \<and> w = 1"
      using decode_rune_small[of "of_char c" "bytes_of cs" q w] rw 2(3) by (simp add: bytes_of_def)
    then show ?thesis using True by simp
  next
    case False
    then have "(r, seg) \<in> set (rune_segs (drop w (c # cs)))"
      using 2(2) rw by (auto simp: rune_segs.simps(2))
    then show ?thesis using 2(1)[OF rw[symmetric]] 2(3) by blast
  qed
qed simp

lemma runes_small: "\<forall>r\<in>set (runes s). r < 128 \<Longrightarrow> s = map char_of (runes s)"
proof -
  assume a: "\<forall>r\<in>set (runes s). r < 128"
  have "snd p = [char_of (fst p)]" if "p \<in> set (rune_segs s)" for p
    using rune_segs_small[of "fst p" "snd p" s] that a by (fastforce simp: runes_def)
  then have "concat (map snd (rune_segs s)) = map (\<lambda>p. char_of (fst p)) (rune_segs s)"
    by (simp cong: map_cong)
  then show ?thesis using rune_segs_concat[of s] by (simp add: runes_def o_def)
qed

subsection \<open>Names of attachments\<close>

lemma encode_rune_low: "c \<in> set (encode_rune r) \<Longrightarrow> (of_char c :: nat) < 128 \<Longrightarrow> of_char c = r"
proof -
  assume c: "c \<in> set (encode_rune r)" "(of_char c :: nat) < 128"
  then obtain b where b: "b \<in> set (encode_bytes r)" "c = char_of b" by (auto simp: encode_rune_def)
  have "b < 256" using b(1) by (rule encode_bytes_lt)
  then have "of_char c = b" using b(2) by (simp add: of_char_of)
  then have "b < 128" using c(2) by simp
  then have "b = r" using b(1) by (auto simp: encode_bytes_def split: if_splits)
  then show ?thesis using \<open>of_char c = b\<close> by simp
qed

lemma set_map_runes: "c \<in> set (map_runes f s) \<Longrightarrow> (of_char c :: nat) < 128 \<Longrightarrow> \<exists>r\<in>set (runes s). of_char c = f r"
  using encode_rune_low by (fastforce simp: map_runes_def encode_runes_def)

lemma map_runes_Nil_iff: "map_runes f s = [] \<longleftrightarrow> s = []"
proof
  assume "map_runes f s = []"
  then have "runes s = []" by (cases "runes s") (auto simp: map_runes_def encode_runes_def encode_rune_def)
  then show "s = []" using rune_segs_concat[of s] by (simp add: runes_def)
qed (simp add: map_runes_def encode_runes_def runes_def)

definition attach_rune :: "rune \<Rightarrow> rune" where
  "attach_rune r = (if r = 47 \<or> r = 92 \<or> r = 0 then 95 else r)"

text \<open>A name of dots only comes from the same name.\<close>

lemma map_runes_dots:
  assumes "set (map_runes attach_rune s) \<subseteq> {CHR ''.''}"
  shows "map_runes attach_rune s = s"
proof -
  have r: "\<forall>r\<in>set (runes s). r = 46"
  proof
    fix r assume "r \<in> set (runes s)"
    then have sub: "set (encode_rune (attach_rune r)) \<subseteq> {CHR ''.''}" using assms by (auto simp: map_runes_def encode_runes_def)
    obtain c where c: "c \<in> set (encode_rune (attach_rune r))" by (cases "encode_rune (attach_rune r)") (simp add: encode_rune_def, fastforce)
    then have "c = CHR ''.''" using sub by auto
    then have "attach_rune r = 46" using encode_rune_low[OF c] by simp
    then show "r = 46" by (auto simp: attach_rune_def split: if_splits)
  qed
  have dot: "char_of (46 :: nat) = CHR ''.''" using char_of_char[of "CHR ''.''"] by simp
  then have e: "encode_rune 46 = ''.''" by (simp add: encode_rune_ascii)
  have "concat (map (\<lambda>r. encode_rune (attach_rune r)) rs) = map char_of rs" if "\<forall>r\<in>set rs. r = 46" for rs
    using that e dot by (induction rs) (auto simp: attach_rune_def)
  then have "map_runes attach_rune s = map char_of (runes s)"
    using r by (simp add: map_runes_def encode_runes_def o_def)
  moreover have "\<forall>r\<in>set (runes s). r < 128" using r by auto
  ultimately show ?thesis using runes_small[of s] by simp
qed

lemma digits_chars: "c \<in> set (digits n) \<Longrightarrow> 48 \<le> (of_char c :: nat) \<and> (of_char c :: nat) \<le> 57"
proof (induction n rule: digits.induct)
  case (1 n)
  then show ?case by (cases "n < 10") (auto simp: digits.simps[of n] of_char_of)
qed

lemma safe_name_plain: "plain (safeAttachmentName name i) \<and> SLASH \<notin> set (safeAttachmentName name i)"
proof -
  let ?b = "Base (TrimSpace name)"
  have f: "(\<lambda>r. if r = 47 \<or> r = 92 \<or> r = 0 then 95 else r) = attach_rune" by (simp add: fun_eq_iff attach_rune_def)
  show ?thesis
  proof (cases "?b = [] \<or> ?b = ''.'' \<or> ?b = ''..'' \<or> ?b = ''/''")
    case True
    have "Itoa (int i + 1) = digits (i + 1)" by (simp add: Itoa_def nat_add_distrib)
    then have n: "safeAttachmentName name i = ''attachment-'' @ digits (i + 1)"
      using True by (simp add: safeAttachmentName_def Let_def)
    show ?thesis unfolding n using digits_chars[of SLASH "i + 1"] by (auto simp: plain_def)
  next
    case False
    then have n: "safeAttachmentName name i = map_runes attach_rune ?b"
      by (simp add: safeAttachmentName_def Let_def f)
    have "SLASH \<notin> set (map_runes attach_rune ?b)"
      using set_map_runes[of SLASH attach_rune ?b] by (auto simp: attach_rune_def split: if_splits)
    moreover have "map_runes attach_rune ?b \<noteq> ''.'' \<and> map_runes attach_rune ?b \<noteq> ''..''"
      using map_runes_dots[of ?b] False by auto
    ultimately show ?thesis using False n by (simp add: plain_def map_runes_Nil_iff)
  qed
qed

lemma component_plain: "plain (sanitizePathComponent s) \<and> SLASH \<notin> set (sanitizePathComponent s)"
proof -
  let ?f = "\<lambda>r. if component_rune r then r else 95"
  have c: "c \<notin> set (map_runes ?f s)" if "c = SLASH \<or> c = CHR ''.''" for c
    using set_map_runes[of c ?f s] that by (auto simp: component_rune_def split: if_splits)
  show ?thesis
    using c[of SLASH] c[of "CHR ''.''"] by (auto simp: sanitizePathComponent_def Let_def plain_def)
qed

subsection \<open>Where attachments go\<close>

definition path_list :: "gostring \<Rightarrow> gostring list" where
  "path_list p = clean_elems (IsAbs p) [] (split_byte SLASH p)"

lemma clean_elems_append: "clean_elems True stack (es @ fs) = clean_elems True (rev (clean_elems True stack es)) fs"
  by (induction True stack es rule: clean_elems.induct) (auto split: list.splits)

lemma path_list_clean: "clean_list True (path_list p)" if "IsAbs p"
  using that by (simp add: path_list_def clean_elems_list clean_list_Nil)

lemma Clean_abs: "IsAbs p \<Longrightarrow> Clean p = ''/'' @ Join (path_list p) ''/''"
  by (simp add: Clean_def path_list_def Let_def)

lemma IsAbs_append: "IsAbs p \<Longrightarrow> IsAbs (p @ q)"
  by (auto simp: IsAbs_def HasPrefix_iff)

lemma path_list_snoc:
  assumes "IsAbs p" "plain n" "SLASH \<notin> set n"
  shows "path_list (p @ ''/'' @ n) = path_list p @ [n]"
proof -
  have a: "IsAbs (p @ ''/'' @ n)" using assms(1) by (auto simp: IsAbs_def HasPrefix_iff)
  have "split_byte SLASH (p @ ''/'' @ n) = split_byte SLASH p @ [n]"
    using split_byte_append[of SLASH p n] assms(3) by (simp add: split_byte_id)
  then show ?thesis using a assms(1,2)
    by (simp add: path_list_def clean_elems_append plain_def)
qed

lemma Join_snoc: "es \<noteq> [] \<Longrightarrow> Join (es @ [n]) sep = Join es sep @ sep @ n"
  by (induction es sep rule: Join.induct) auto

text \<open>One plain name below an absolute path.\<close>

lemma PathJoin_below:
  assumes "IsAbs p" "plain n" "SLASH \<notin> set n"
  shows "PathJoin [p, n] = ''/'' @ Join (path_list p @ [n]) ''/''" "IsAbs (PathJoin [p, n])"
    "path_list (PathJoin [p, n]) = path_list p @ [n]"
proof -
  have ne: "p \<noteq> []" "n \<noteq> []" using assms by (auto simp: IsAbs_def HasPrefix_def plain_def)
  have a: "IsAbs (p @ ''/'' @ n)" using assms(1) by (auto simp: IsAbs_def HasPrefix_iff)
  have j: "PathJoin [p, n] = Clean (p @ ''/'' @ n)" using ne by (simp add: PathJoin_def)
  show pj: "PathJoin [p, n] = ''/'' @ Join (path_list p @ [n]) ''/''"
    using Clean_abs[OF a] path_list_snoc[OF assms] j by simp
  show abs: "IsAbs (PathJoin [p, n])" by (simp add: pj IsAbs_def HasPrefix_def)
  have cl: "clean_list True (path_list p @ [n])"
    using path_list_clean[OF assms(1)] assms(2) by (rule clean_list_snoc_plain)
  have ns: "\<forall>e\<in>set (path_list p @ [n]). SLASH \<notin> set e"
  proof
    fix e assume "e \<in> set (path_list p @ [n])"
    then have "e \<in> set (split_byte SLASH p) \<or> e = n"
      using set_clean_elems[of "IsAbs p" "[]" "split_byte SLASH p"] by (auto simp: path_list_def)
    then show "SLASH \<notin> set e" using assms(3) split_byte_no_sep by auto
  qed
  have "split_byte SLASH (''/'' @ Join (path_list p @ [n]) ''/'') = [] # (path_list p @ [n])"
    using split_byte_Join[of "path_list p @ [n]" SLASH] ns by simp
  then show "path_list (PathJoin [p, n]) = path_list p @ [n]"
    using abs cl clean_elems_id[of True "path_list p @ [n]"] by (simp add: path_list_def pj)
qed

lemma write_files_inside:
  assumes "write_files fails base i files d = (res, d1)"
  shows "ad_dirs d1 = ad_dirs d \<and> ad_timers d1 = ad_timers d \<and>
    (\<forall>p. alist_get (ad_files d1) p \<noteq> alist_get (ad_files d) p \<longrightarrow> (\<exists>name. p = PathJoin [base, name] \<and> plain name \<and> SLASH \<notin> set name))"
  using assms
proof (induction fails base i files d arbitrary: res d1 rule: write_files.induct)
  case (2 fails base i f rest d)
  let ?n = "safeAttachmentName (fl_Filename f) i"
  let ?d = "PathJoin [base, ?n]"
  note n = safe_name_plain[of "fl_Filename f" i]
  show ?case
  proof (cases "fails ?d")
    case (Some x)
    then show ?thesis using 2(2) n by (cases x; cases "snd x") (auto simp: Let_def split: if_splits)
  next
    case None
    obtain r d2 where r: "write_files fails base (Suc i) rest (d\<lparr>ad_files := alist_put ?d (fl_Data f) (ad_files d)\<rparr>) = (r, d2)" by fastforce
    then have e: "d1 = d2" using 2(2) None by (auto simp: Let_def split: sum.splits)
    have ih: "ad_dirs d1 = ad_dirs d" "ad_timers d1 = ad_timers d"
      "alist_get (ad_files d1) p \<noteq> ((alist_get (ad_files d))(?d \<mapsto> fl_Data f)) p \<Longrightarrow>
       \<exists>name. p = PathJoin [base, name] \<and> plain name \<and> SLASH \<notin> set name" for p
      using 2(1)[OF refl None r] unfolding e by simp_all
    show ?thesis
    proof (intro conjI allI impI)
      fix p assume "alist_get (ad_files d1) p \<noteq> alist_get (ad_files d) p"
      then show "\<exists>name. p = PathJoin [base, name] \<and> plain name \<and> SLASH \<notin> set name"
        using ih(3)[of p] n by (cases "p = ?d") auto
    qed (rule ih)+
  qed
qed simp

lemma make_dirs_inside:
  "make_dirs mkdir ps d = (res, d1) \<Longrightarrow>
   ad_files d1 = ad_files d \<and> ad_timers d1 = ad_timers d \<and> set (ad_dirs d1) \<subseteq> set (ad_dirs d) \<union> set ps"
  by (induction mkdir ps d rule: make_dirs.induct) (fastforce split: if_splits option.splits)+

lemma path_prefixes_below:
  assumes "\<forall>e\<in>set es. e \<noteq> [] \<and> SLASH \<notin> set e" "q \<in> set (path_prefixes (''/'' @ Join es ''/''))"
  shows "\<exists>n. q = ''/'' @ Join (take n es) ''/''"
proof (cases "es = []")
  case False
  have "split_byte SLASH (''/'' @ Join es ''/'') = [] # es"
    using split_byte_Join[of es SLASH] assms(1) False by simp
  moreover have "filter (\<lambda>e. e \<noteq> []) es = es" using assms(1) by (simp add: filter_id_conv)
  ultimately show ?thesis using assms(2) by (auto simp: path_prefixes_def Let_def)
qed (use assms in \<open>auto simp: path_prefixes_def Let_def\<close>)

text \<open>The directory of a request below the temporary directory.\<close>

lemma attachment_dir_below:
  fixes req :: InjectRequest
  assumes "IsAbs tmp"
  defines "dir \<equiv> sanitizePathComponent (iq_RequestID req)"
  shows "attachment_dir tmp req = ''/'' @ Join (path_list tmp @ [''pockly-attachments'', dir]) ''/''"
    "IsAbs (attachment_dir tmp req)" "path_list (attachment_dir tmp req) = path_list tmp @ [''pockly-attachments'', dir]"
    "\<forall>e\<in>set (path_list tmp @ [''pockly-attachments'', dir]). e \<noteq> [] \<and> SLASH \<notin> set e"
proof -
  let ?a = "PathJoin [tmp, ''pockly-attachments'']"
  have pa: "plain ''pockly-attachments''" "SLASH \<notin> set ''pockly-attachments''" by (auto simp: plain_def)
  note a = PathJoin_below[OF assms(1) pa]
  have c: "plain dir" "SLASH \<notin> set dir" using component_plain by (auto simp: dir_def)
  note ac = PathJoin_below[OF a(2) c]
  have q: "IsAbs (tmp @ ''/'' @ ''pockly-attachments'')" by (rule IsAbs_append[OF assms(1)])
  have r: "IsAbs ((tmp @ ''/'' @ ''pockly-attachments'') @ ''/'' @ dir)" by (rule IsAbs_append[OF q])
  have ne: "tmp \<noteq> []" "dir \<noteq> []" using assms(1) c by (auto simp: IsAbs_def HasPrefix_def plain_def)
  then have "attachment_dir tmp req = Clean ((tmp @ ''/'' @ ''pockly-attachments'') @ ''/'' @ dir)"
    by (simp add: attachment_dir_def PathJoin_def dir_def)
  also have "\<dots> = ''/'' @ Join ((path_list tmp @ [''pockly-attachments'']) @ [dir]) ''/''"
    unfolding Clean_abs[OF r] path_list_snoc[OF q c] path_list_snoc[OF assms(1) pa] ..
  finally show e: "attachment_dir tmp req = ''/'' @ Join (path_list tmp @ [''pockly-attachments'', dir]) ''/''" by simp
  then have "attachment_dir tmp req = PathJoin [?a, dir]" using ac(1) a(3) by simp
  then show "IsAbs (attachment_dir tmp req)" "path_list (attachment_dir tmp req) = path_list tmp @ [''pockly-attachments'', dir]"
    using ac(2,3) a(3) by simp_all
  have "e \<noteq> [] \<and> SLASH \<notin> set e" if "e \<in> set (path_list tmp)" for e
  proof
    show "e \<noteq> []" using path_list_clean[OF assms(1)] that by (auto simp: clean_list_def list_all_iff plain_def)
    have "e \<in> set (split_byte SLASH tmp)"
      using set_clean_elems[of "IsAbs tmp" "[]" "split_byte SLASH tmp"] that by (auto simp: path_list_def)
    then show "SLASH \<notin> set e" using split_byte_no_sep by blast
  qed
  then show "\<forall>e\<in>set (path_list tmp @ [''pockly-attachments'', dir]). e \<noteq> [] \<and> SLASH \<notin> set e"
    using c pa(2) by (auto simp: plain_def)
qed

text \<open>An id that a directory can bear keeps its name, so two such requests never share a directory.\<close>

definition bearable_id :: "gostring \<Rightarrow> bool" where
  "bearable_id s \<longleftrightarrow> s \<noteq> [] \<and> list_all (\<lambda>c. component_rune (of_char c)) s"

lemma bearable_id_kept: "bearable_id s \<Longrightarrow> sanitizePathComponent s = s"
proof -
  let ?f = "\<lambda>r. if component_rune r then r else 95"
  assume s: "bearable_id s"
  have low: "component_rune r \<Longrightarrow> r < 128" for r by (auto simp: component_rune_def)
  have a: "ascii s" using s low by (auto simp: bearable_id_def ascii_def list_all_iff)
  have "concat (map (\<lambda>c. encode_rune (?f (of_char c))) t) = t" if "list_all (\<lambda>c. component_rune (of_char c)) t" for t :: gostring
    using that low by (induction t) (auto simp: encode_rune_ascii)
  then have "map_runes ?f s = s"
    using s by (simp add: map_runes_def runes_def rune_segs_ascii[OF a] encode_runes_def o_def bearable_id_def)
  then show ?thesis using s by (simp add: sanitizePathComponent_def Let_def bearable_id_def)
qed


definition climbing_request :: InjectRequest where
  "climbing_request =
     \<lparr>iq_RequestID = ''r-1'', iq_Mode = ''resume_session'', iq_SessionID = ''s'', iq_Agent = [], iq_Cwd = [], iq_Text = ''hi'',
      iq_Model = [], iq_PermissionMode = [], iq_Effort = [],
      iq_Files = [\<lparr>fl_Filename = ''../../etc/passwd'', fl_Data = ''x''\<rparr>]\<rparr>"

definition empty_disk :: attach_disk where "empty_disk = \<lparr>ad_files = [], ad_dirs = [''/t''], ad_timers = []\<rparr>"


text \<open>
  Two attachments of one message with the same file name: both writes succeed, the second
  takes the place of the first, and the text points twice to the same file. The content of
  the first is nowhere.
\<close>

theorem same_named_attachments_lost:
  assumes "fl_Filename f = fl_Filename g" "Base (TrimSpace (fl_Filename g)) \<notin> {[], ''.'', ''..'', ''/''}"
    and "writeInjectAttachments tmp mkdir (\<lambda>_. None) now (req\<lparr>iq_Files := [f, g]\<rparr>) d = (Inr txt, d1)"
  shows "\<exists>dest. alist_get (ad_files d1) = (alist_get (ad_files d))(dest \<mapsto> fl_Data g) \<and>
    txt = attachment_text (iq_Text req) [CHR ''@'' # dest, CHR ''@'' # dest]"
proof -
  let ?n = "safeAttachmentName (fl_Filename g) 0"
  have n: "safeAttachmentName (fl_Filename f) 0 = ?n" "safeAttachmentName (fl_Filename g) (Suc 0) = ?n"
    using assms(1,2) by (auto simp: safeAttachmentName_def Let_def)
  have b: "attachment_dir tmp (req\<lparr>iq_Files := [f, g]\<rparr>) = attachment_dir tmp req" by (simp add: attachment_dir_def)
  obtain e d2 where m: "make_dirs mkdir (path_prefixes (attachment_dir tmp req)) d = (e, d2)" by fastforce
  then show ?thesis
    using assms(3) n make_dirs_inside[OF m]
    by (intro exI[of _ "PathJoin [attachment_dir tmp req, ?n]"])
      (auto simp: writeInjectAttachments_def b Let_def split: option.splits)
qed

subsection \<open>Ids\<close>

definition uuid_shape :: "gostring \<Rightarrow> bool" where
  "uuid_shape s \<longleftrightarrow> matches_shape hex_lower sid_shape s \<and> s ! 14 = CHR ''4'' \<and> s ! 19 \<in> set ''89ab''"

lemma hex_char_lower: "d < 16 \<Longrightarrow> hex_lower (hex_char d)"
  by (simp add: hex_char_def hex_lower_def is_digit_def in_range_def Let_def of_char_of)

lemma unat_byte: "unat (b :: byte) < 256"
  using unsigned_less[of b] by simp

definition hi :: "byte \<Rightarrow> char" where "hi b = hex_char (unat b div 16)"
definition lo :: "byte \<Rightarrow> char" where "lo b = hex_char (unat b mod 16)"

lemma hex_byte_eq: "hex_byte b = [hi b, lo b]"
  by (simp add: hex_byte_def hi_def lo_def)

lemma hi_lo_lower [simp]: "hex_lower (hi b)" "hex_lower (lo b)"
  using unat_byte[of b] by (auto simp: hi_def lo_def intro!: hex_char_lower)

lemma hex_lower_four: "hex_lower CHR ''4''"
  by code_simp

lemma or_power: "m < 2 ^ n \<Longrightarrow> or m (2 ^ n) = m + 2 ^ n" for m :: nat
proof (rule disjunctive_add[symmetric])
  fix k assume m: "m < 2 ^ n"
  show "\<not> bit m k \<or> \<not> bit (2 ^ n :: nat) k"
    using m by (cases "k = n") (simp_all add: bit_iff_odd bit_exp_iff[simplified bit_iff_odd])
qed

lemma version_byte: "hi (or (and b 0x0F) 0x40) = CHR ''4''"
proof -
  have "unat (and b 0x0F) = and (unat b) 0x0F" by (simp only: unsigned_and_eq) simp
  also have "\<dots> = take_bit 4 (unat b)" by (simp add: take_bit_eq_mask mask_eq_exp_minus_1 del: and_nat_numerals)
  finally have l: "unat (and b 0x0F) = unat b mod 16" by (simp add: take_bit_eq_mod)
  have "unat (or (and b 0x0F) 0x40) = or (unat (and b 0x0F)) (2 ^ 6)" by (simp only: unsigned_or_eq) simp
  also have "\<dots> = unat b mod 16 + 64" unfolding l by (subst or_power) simp_all
  finally have "unat (or (and b 0x0F) 0x40) div 16 = 4" by simp
  moreover have "hex_char 4 = CHR ''4''" by code_simp
  ultimately show ?thesis by (simp add: hi_def)
qed

lemma variant_byte: "hi (or (and b 0x3F) 0x80) \<in> set ''89ab''"
proof -
  have "unat (and b 0x3F) = and (unat b) 0x3F" by (simp only: unsigned_and_eq) simp
  also have "\<dots> = take_bit 6 (unat b)" by (simp add: take_bit_eq_mask mask_eq_exp_minus_1 del: and_nat_numerals)
  finally have l: "unat (and b 0x3F) = unat b mod 64" by (simp add: take_bit_eq_mod)
  have "unat (or (and b 0x3F) 0x80) = or (unat (and b 0x3F)) (2 ^ 7)" by (simp only: unsigned_or_eq) simp
  also have "\<dots> = unat b mod 64 + 128" unfolding l by (subst or_power) simp_all
  finally have "unat (or (and b 0x3F) 0x80) div 16 = unat b mod 64 div 16 + 8" by simp
  moreover have "unat b mod 64 div 16 < 4" by (simp add: less_mult_imp_div_less)
  ultimately have "unat (or (and b 0x3F) 0x80) div 16 \<in> {8, 9, 10, 11}" by auto
  moreover have "hex_char 8 = CHR ''8''" "hex_char 9 = CHR ''9''" "hex_char 10 = CHR ''a''" "hex_char 11 = CHR ''b''"
    by code_simp+
  ultimately show ?thesis by (auto simp: hi_def)
qed

text \<open>
  The ids given to new conversations are version 4 UUIDs in the form Claude expects, whatever
  the random bytes are.
\<close>

theorem new_ids_are_uuids:
  assumes "length bs = 16"
  shows "uuid_shape (newUUIDv4 (Some bs) nano)"
proof -
  obtain b0 b1 b2 b3 b4 b5 b6 b7 b8 b9 b10 b11 b12 b13 b14 b15 where bs: "bs = [b0, b1, b2, b3, b4, b5, b6, b7, b8, b9, b10, b11, b12, b13, b14, b15]"
    using assms by (auto simp: length_Suc_conv numeral_eq_Suc)
  have v: "set_version bs = [b0, b1, b2, b3, b4, b5, or (and b6 0x0F) 0x40, b7, or (and b8 0x3F) 0x80, b9, b10, b11, b12, b13, b14, b15]"
    by (simp add: set_version_def bs numeral_eq_Suc)
  define v6 where "v6 = or (and b6 0x0F) 0x40"
  define v8 where "v8 = or (and b8 0x3F) 0x80"
  have h: "hi v6 = CHR ''4''" "hi v8 \<in> set ''89ab''" unfolding v6_def v8_def by (rule version_byte, rule variant_byte)
  have "newUUIDv4 (Some bs) nano =
    [hi b0, lo b0, hi b1, lo b1, hi b2, lo b2, hi b3, lo b3, CHR ''-'', hi b4, lo b4, hi b5, lo b5, CHR ''-'',
     hi v6, lo v6, hi b7, lo b7, CHR ''-'', hi v8, lo v8, hi b9, lo b9, CHR ''-'', hi b10, lo b10, hi b11, lo b11,
     hi b12, lo b12, hi b13, lo b13, hi b14, lo b14, hi b15, lo b15]"
    unfolding newUUIDv4_def option.case v Let_def v6_def[symmetric] v8_def[symmetric]
    by (simp add: hex_bytes_def hex_byte_eq numeral_eq_Suc)
  then show ?thesis using h
    by (simp add: uuid_shape_def matches_shape_def sid_shape_def numeral_eq_Suc hex_lower_four)
qed

theorem new_ids_are_uuids_witness:
  "uuid_shape (newUUIDv4 (Some (replicate 16 0)) 0)"
  by (rule new_ids_are_uuids) simp

end
