(* ===== verification/GoBase64.thy ===== *)
theory GoBase64
  imports GoStrings
begin

section \<open>Base64\<close>

text \<open>
  The encodings of \<open>encoding/base64\<close> that the program uses: \<open>StdEncoding\<close> with padding, and
  \<open>RawURLEncoding\<close>, which has two other letters and no padding. An alphabet is given by its
  last two letters.
\<close>

definition b64_digit :: "char \<Rightarrow> char \<Rightarrow> nat \<Rightarrow> char" where
  "b64_digit c62 c63 n =
     (if n < 26 then char_of (65 + n) else if n < 52 then char_of (71 + n) else if n < 62 then char_of (n - 4)
      else if n = 62 then c62 else c63)"

definition b64_value :: "char \<Rightarrow> char \<Rightarrow> char \<Rightarrow> nat option" where
  "b64_value c62 c63 c =
     (let b = of_char c :: nat in
      if 65 \<le> b \<and> b \<le> 90 then Some (b - 65) else if 97 \<le> b \<and> b \<le> 122 then Some (b - 71)
      else if 48 \<le> b \<and> b \<le> 57 then Some (b + 4)
      else if c = c62 then Some 62 else if c = c63 then Some 63 else None)"

text \<open>Three bytes become four digits; the rest, one or two bytes, two or three digits and the padding.\<close>

fun b64_encode :: "(nat \<Rightarrow> char) \<Rightarrow> gostring \<Rightarrow> gostring \<Rightarrow> gostring" where
  "b64_encode dg pad [] = []"
| "b64_encode dg pad [a] =
     (let x = of_char a :: nat in [dg (x div 4), dg (x mod 4 * 16)] @ pad @ pad)"
| "b64_encode dg pad [a, b] =
     (let x = of_char a :: nat; y = of_char b :: nat in [dg (x div 4), dg (x mod 4 * 16 + y div 16), dg (y mod 16 * 4)] @ pad)"
| "b64_encode dg pad (a # b # c # s) =
     (let x = of_char a :: nat; y = of_char b :: nat; z = of_char c :: nat
      in [dg (x div 4), dg (x mod 4 * 16 + y div 16), dg (y mod 16 * 4 + z div 64), dg (z mod 64)] @ b64_encode dg pad s)"

definition std_encode :: "gostring \<Rightarrow> gostring" where
  "std_encode = b64_encode (b64_digit (CHR ''+'') (CHR ''/'')) ''=''"

definition raw_url_encode :: "gostring \<Rightarrow> gostring" where
  "raw_url_encode = b64_encode (b64_digit (CHR ''-'') (CHR ''_'')) []"

text \<open>
  \<open>StdEncoding.DecodeString\<close>: line ends are skipped, every group has four characters, and only
  the last one may be padded. The bits that padding leaves over are ignored.
\<close>

definition std_value :: "char \<Rightarrow> nat option" where
  "std_value = b64_value (CHR ''+'') (CHR ''/'')"

definition group3 :: "nat \<Rightarrow> nat \<Rightarrow> nat \<Rightarrow> nat \<Rightarrow> gostring" where
  "group3 a b c d = [char_of (a * 4 + b div 16), char_of (b mod 16 * 16 + c div 4), char_of (c mod 4 * 64 + d)]"

fun std_groups :: "gostring \<Rightarrow> gostring option" where
  "std_groups [] = Some []"
| "std_groups (p # q # r # s # rest) =
     (case (std_value p, std_value q, std_value r, std_value s) of
        (Some a, Some b, Some c, Some d) \<Rightarrow> map_option (\<lambda>t. group3 a b c d @ t) (std_groups rest)
      | (Some a, Some b, Some c, None) \<Rightarrow> if s = CHR ''='' \<and> rest = [] then Some (take 2 (group3 a b c 0)) else None
      | (Some a, Some b, None, None) \<Rightarrow> if r = CHR ''='' \<and> s = CHR ''='' \<and> rest = [] then Some (take 1 (group3 a b 0 0)) else None
      | _ \<Rightarrow> None)"
| "std_groups _ = None"

definition std_decode :: "gostring \<Rightarrow> gostring option" where
  "std_decode s = std_groups (filter (\<lambda>c. c \<noteq> CHR 0x0A \<and> c \<noteq> CHR 0x0D) s)"

subsection \<open>Decoding what was encoded\<close>

lemma std_digit_value: "n < 64 \<Longrightarrow> std_value (b64_digit (CHR ''+'') (CHR ''/'') n) = Some n"
  by (auto simp: std_value_def b64_value_def b64_digit_def Let_def of_char_of)

lemma std_value_pad: "std_value CHR ''='' = None"
  by code_simp

lemma b64_digit_visible: "n < 64 \<Longrightarrow> b64_digit (CHR ''+'') (CHR ''/'') n \<notin> {CHR 0x0A, CHR 0x0D}"
  using std_digit_value[of n] by (auto simp: std_value_def b64_value_def split: if_splits)

lemma byte_lt: "(of_char c :: nat) < 256"
  using of_char_mod_256[of c, where 'a = nat] by (metis mod_less_divisor zero_less_numeral)

lemma bits_below: "(x :: nat) < 256 \<Longrightarrow> x div 4 < 64" "(x :: nat) < 256 \<Longrightarrow> x div 16 < 16" "(x :: nat) < 256 \<Longrightarrow> x div 64 < 4"
  by (simp_all add: less_mult_imp_div_less)

lemma join_below: "m < a \<Longrightarrow> d < b \<Longrightarrow> m * b + d < a * b" for a b m d :: nat
proof -
  assume "m < a" "d < b"
  then have "m * b + d < Suc m * b" "Suc m * b \<le> a * b" by (simp, meson Suc_leI mult_le_mono1)
  then show ?thesis by (rule less_le_trans)
qed

lemma digit_bounds:
  fixes x y z :: nat
  assumes "x < 256" "y < 256" "z < 256"
  shows "x div 4 < 64" "x mod 4 * 16 < 64" "x mod 4 * 16 + y div 16 < 64" "y mod 16 * 4 < 64"
    "y mod 16 * 4 + z div 64 < 64" "z mod 64 < 64"
  using bits_below(1)[OF assms(1)] join_below[of "x mod 4" 4 "y div 16" 16] join_below[of "x mod 4" 4 0 16]
    join_below[of "y mod 16" 16 "z div 64" 4] join_below[of "y mod 16" 16 0 4] bits_below(2)[OF assms(2)] bits_below(3)[OF assms(3)]
  by simp_all

lemma joined: "d < b \<Longrightarrow> (m * b + d) div b = m" "d < b \<Longrightarrow> (m * b + d) mod b = d" for m d b :: nat
  by simp_all

lemma group3_bytes:
  fixes x y z :: nat
  assumes "x < 256" "y < 256" "z < 256"
  shows "group3 (x div 4) (x mod 4 * 16 + y div 16) (y mod 16 * 4 + z div 64) (z mod 64) = [char_of x, char_of y, char_of z]"
  unfolding group3_def joined[OF bits_below(2)[OF assms(2)]] joined[OF bits_below(3)[OF assms(3)]] div_mult_mod_eq by simp

abbreviation std_digit :: "nat \<Rightarrow> char" where "std_digit \<equiv> b64_digit (CHR ''+'') (CHR ''/'')"

lemma std_encode_visible: "set (b64_encode std_digit ''='' s) \<inter> {CHR 0x0A, CHR 0x0D} = {}"
proof (induction std_digit "''=''" s rule: b64_encode.induct)
  case (2 a)
  then show ?case using b64_digit_visible digit_bounds[OF byte_lt[of a] byte_lt byte_lt] by (auto simp: Let_def)
next
  case (3 a b)
  then show ?case using b64_digit_visible digit_bounds[OF byte_lt[of a] byte_lt[of b] byte_lt] by (auto simp: Let_def)
next
  case (4 a b c s)
  then show ?case using b64_digit_visible digit_bounds[OF byte_lt[of a] byte_lt[of b] byte_lt[of c]] by (auto simp: Let_def)
qed simp

lemma std_groups_encode: "std_groups (b64_encode std_digit ''='' s) = Some s"
proof (induction std_digit "''=''" s rule: b64_encode.induct)
  case (2 a)
  then show ?case
    using digit_bounds[OF byte_lt[of a] byte_lt byte_lt] group3_bytes[OF byte_lt[of a], of 0 0]
    by (simp add: Let_def std_digit_value std_value_pad)
next
  case (3 a b)
  then show ?case
    using digit_bounds[OF byte_lt[of a] byte_lt[of b] byte_lt] group3_bytes[OF byte_lt[of a] byte_lt[of b], of 0]
    by (simp add: Let_def std_digit_value std_value_pad)
next
  case (4 a b c s)
  then show ?case
    using digit_bounds[OF byte_lt[of a] byte_lt[of b] byte_lt[of c]] group3_bytes[OF byte_lt[of a] byte_lt[of b] byte_lt[of c]]
    by (simp add: Let_def std_digit_value)
qed simp

lemma std_decode_encode: "std_decode (std_encode s) = Some s"
  using std_encode_visible[of s] by (simp add: std_decode_def std_encode_def std_groups_encode filter_id_conv) (subst filter_True, auto simp: std_groups_encode)

end
