(* ===== verification/RelaySync.thy ===== *)
theory RelaySync
  imports SessionIndex GoBase64
begin

section \<open>What is sent to Nexus\<close>

text \<open>
  \<open>daemon/internal/relay/sync.go\<close> with the message types of \<open>internal/pair/client.go\<close> and the
  runner profile of \<open>internal/runner/runner.go\<close>: the catalog request, cut to a byte budget, and
  the request with a window of the turns of one session. SHA-256 is an argument, \<open>num\<close> is the
  argument of the Claude reader. A list that is empty stands for a nil slice.
\<close>

subsection \<open>The runner profile\<close>

definition normalizeOverride :: "(rune \<Rightarrow> rune) \<Rightarrow> gostring \<Rightarrow> gostring" where
  "normalizeOverride lower raw =
     (let s = ToLower lower (TrimSpace raw) in
      if s = ''claude'' then ''claude''
      else if s \<in> {''claude_ccr'', ''claude-ccr'', ''ccr''} then ''claude_ccr''
      else if s = ''custom'' then ''custom''
      else [])"

definition detectClaudeAlias :: "(rune \<Rightarrow> rune) \<Rightarrow> (gostring \<Rightarrow> gostring) \<Rightarrow> (gostring \<Rightarrow> bool) \<Rightarrow> gostring" where
  "detectClaudeAlias lower env onPath =
     (let override = normalizeOverride lower (env ''POCKLY_RUNNER_ALIAS'') in
      if override \<noteq> [] then override
      else if onPath ''claude'' then ''claude''
      else if onPath ''ccr'' then ''claude_ccr''
      else ''claude'')"

record Profile =
  pf_ClaudeAlias :: gostring

definition AliasFor :: "Profile \<Rightarrow> gostring \<Rightarrow> gostring" where
  "AliasFor p agent = (if agent = ''claude-code'' then pf_ClaudeAlias p else [])"

definition version_string :: "gostring \<Rightarrow> gostring \<Rightarrow> gostring \<Rightarrow> gostring" where
  "version_string v commit date = ''pockly-daemon v'' @ v @ '' ('' @ commit @ '', '' @ date @ '')''"

subsection \<open>Messages\<close>

record HelloMessage =
  hm_DeviceID :: gostring
  hm_Version :: gostring

record SyncSession =
  yn_SessionID :: gostring
  yn_Agent :: gostring
  yn_RunnerAlias :: gostring
  yn_Cwd :: gostring
  yn_Title :: gostring
  yn_Snippet :: gostring
  yn_FirstMessage :: gostring
  yn_LastSeq :: int
  yn_LastTimestamp :: gostring
  yn_ChannelLastSeenAt :: gostring
  yn_SyncState :: gostring
  yn_TurnCount :: int
  yn_MinSeq :: int
  yn_MaxSeq :: int
  yn_HasOlder :: bool
  yn_WindowHash :: gostring

record SyncTurn =
  tn_SessionID :: gostring
  tn_Seq :: int
  tn_Agent :: gostring
  tn_Kind :: gostring
  tn_Timestamp :: gostring
  tn_Payload :: gostring

record SyncRequest =
  rq_Hello :: HelloMessage
  rq_Sessions :: "SyncSession list"
  rq_DeletedSessions :: "gostring list"
  rq_Turns :: "SyncTurn list"
  rq_KnownWindowSessionIDs :: "gostring list option"
  rq_CatalogComplete :: bool
  rq_FullReconcile :: bool

definition omit_int :: "gostring \<Rightarrow> int \<Rightarrow> (gostring \<times> gval) list" where
  "omit_int k i = (if i = 0 then [] else [(k, GInt i)])"

definition session_json :: "SyncSession \<Rightarrow> gval" where
  "session_json s =
     GObj ([(''session_id'', GStr (yn_SessionID s)), (''agent'', GStr (yn_Agent s))] @ omit_str ''runner_alias'' (yn_RunnerAlias s) @
       [(''cwd'', GStr (yn_Cwd s))] @ omit_str ''title'' (yn_Title s) @ omit_str ''snippet'' (yn_Snippet s) @
       omit_str ''first_message'' (yn_FirstMessage s) @ [(''last_seq'', GInt (yn_LastSeq s))] @
       omit_str ''last_timestamp'' (yn_LastTimestamp s) @ omit_str ''channel_last_seen_at'' (yn_ChannelLastSeenAt s) @
       omit_str ''sync_state'' (yn_SyncState s) @ omit_int ''turn_count'' (yn_TurnCount s) @ omit_int ''min_seq'' (yn_MinSeq s) @
       omit_int ''max_seq'' (yn_MaxSeq s) @ omit_bool ''has_older'' (yn_HasOlder s) @ omit_str ''window_hash'' (yn_WindowHash s))"

definition turn_json :: "SyncTurn \<Rightarrow> gval" where
  "turn_json t =
     GObj ([(''session_id'', GStr (tn_SessionID t)), (''seq'', GInt (tn_Seq t)), (''agent'', GStr (tn_Agent t)), (''kind'', GStr (tn_Kind t))] @
       omit_str ''timestamp'' (tn_Timestamp t) @ omit_raw ''payload'' (tn_Payload t))"

definition slice_json :: "('a \<Rightarrow> gval) \<Rightarrow> 'a list \<Rightarrow> gval" where
  "slice_json f vs = (if vs = [] then GNull else GArr (map f vs))"

definition omit_slice :: "gostring \<Rightarrow> ('a \<Rightarrow> gval) \<Rightarrow> 'a list \<Rightarrow> (gostring \<times> gval) list" where
  "omit_slice k f vs = (if vs = [] then [] else [(k, GArr (map f vs))])"

definition sync_request_json :: "SyncRequest \<Rightarrow> gval" where
  "sync_request_json r =
     GObj ([(''hello'', GObj [(''device_id'', GStr (hm_DeviceID (rq_Hello r))), (''version'', GStr (hm_Version (rq_Hello r)))]),
            (''sessions'', slice_json session_json (rq_Sessions r))] @
       omit_slice ''deleted_sessions'' GStr (rq_DeletedSessions r) @ omit_slice ''turns'' turn_json (rq_Turns r) @
       (case rq_KnownWindowSessionIDs r of None \<Rightarrow> [] | Some ids \<Rightarrow> [(''known_window_session_ids'', GArr (map GStr ids))]) @
       omit_bool ''full_reconcile'' (rq_FullReconcile r))"

subsection \<open>Labels\<close>

definition rl_firstNonEmpty :: "gostring list \<Rightarrow> gostring" where
  "rl_firstNonEmpty vs = (case filter (\<lambda>v. v \<noteq> []) vs of [] \<Rightarrow> [] | v # _ \<Rightarrow> v)"

definition isSupportedSyncAgent :: "gostring \<Rightarrow> bool" where
  "isSupportedSyncAgent agent \<longleftrightarrow> agent = ''claude-code'' \<or> agent = ''codex''"

definition safeCwdLabel :: "gostring \<Rightarrow> gostring" where
  "safeCwdLabel cwd = (let base = Base cwd in if base \<in> {''.'', ''/'', []} then ''Session'' else base)"

definition safeSessionTitle :: "gostring \<Rightarrow> gostring \<Rightarrow> gostring \<Rightarrow> gostring" where
  "safeSessionTitle agent cwd sid =
     safeCwdLabel cwd @ dot_separator @ (if agent = ''codex'' then ''Codex'' else ''Claude Code'') @ dot_separator @
     (if length sid > 8 then take 8 sid else sid)"

definition firstUserMessageTitle :: "Block list \<Rightarrow> gostring" where
  "firstUserMessageTitle bs =
     (case filter (\<lambda>t. t \<noteq> []) (map (\<lambda>b. TrimSpace (bl_Text b)) (filter (\<lambda>b. bl_Kind b = BlockUserMessage) bs)) of
        [] \<Rightarrow> [] | t # _ \<Rightarrow> t)"

definition lastBlockTimestamp :: "Block list \<Rightarrow> gostring \<Rightarrow> gostring" where
  "lastBlockTimestamp bs fallback =
     (case filter (\<lambda>t. t \<noteq> []) (map bl_Timestamp (rev bs)) of [] \<Rightarrow> fallback | t # _ \<Rightarrow> t)"

subsection \<open>The catalog\<close>

definition catalogSyncMaxBytes :: int where "catalogSyncMaxBytes = 900000"
definition catalogSyncBaseOverheadBytes :: int where "catalogSyncBaseOverheadBytes = 1024"

definition approxJSONLen :: "gval \<Rightarrow> int" where
  "approxJSONLen v = int (length (marshal v)) + 1"

text \<open>The newest first; entries that agree in both keys stay in their order.\<close>

definition sort_entries :: "(gostring \<times> gostring \<times> CatSession) list \<Rightarrow> (gostring \<times> gostring \<times> CatSession) list" where
  "sort_entries es =
     rev (sort_key (\<lambda>(_, _, s). asn_Timestamp s) (sort_key (\<lambda>(_, _, s). asn_SessionID s) (rev es)))"

definition catalog_entries :: "Index \<Rightarrow> (gostring \<times> gostring \<times> CatSession) list" where
  "catalog_entries ix =
     concat (map (\<lambda>p. map (\<lambda>s. (apj_Agent p, apj_Cwd p, s)) (apj_Sessions p))
       (filter (\<lambda>p. isSupportedSyncAgent (apj_Agent p)) (ix_projects ix)))"

definition sync_session :: "Profile \<Rightarrow> gostring \<times> gostring \<times> CatSession \<Rightarrow> SyncSession" where
  "sync_session profile e =
     (case e of (agent, cwd, s) \<Rightarrow>
        let title = rl_firstNonEmpty [asn_Title s, asn_FirstMessageForTitle s, asn_FirstMessage s, asn_Snippet s];
            snippet = rl_firstNonEmpty [asn_FirstMessage s, asn_Snippet s, title]
        in \<lparr>yn_SessionID = asn_SessionID s, yn_Agent = agent, yn_RunnerAlias = AliasFor profile agent,
            yn_Cwd = safeCwdLabel cwd, yn_Title = title, yn_Snippet = snippet, yn_FirstMessage = [], yn_LastSeq = 0,
            yn_LastTimestamp = asn_Timestamp s, yn_ChannelLastSeenAt = asn_Timestamp s, yn_SyncState = ''catalog_only'',
            yn_TurnCount = asn_TurnCount s, yn_MinSeq = 0, yn_MaxSeq = 0, yn_HasOlder = False, yn_WindowHash = []\<rparr>)"

definition BuildCatalogSyncSessions :: "Profile \<Rightarrow> Index \<Rightarrow> SyncSession list" where
  "BuildCatalogSyncSessions profile ix = map (sync_session profile) (sort_entries (catalog_entries ix))"

text \<open>The tombstones come first. Each loop ends at the budget; the result says how far it came.\<close>

fun emit_deleted :: "int \<Rightarrow> gostring list \<Rightarrow> gostring list \<times> int \<times> bool" where
  "emit_deleted n [] = ([], n, True)"
| "emit_deleted n (d # ds) =
     (if TrimSpace d = [] then emit_deleted n ds
      else let u = approxJSONLen (GStr d) in
        if n + u > catalogSyncMaxBytes then ([], n, False)
        else case emit_deleted (n + u) ds of (out, m, whole) \<Rightarrow> (d # out, m, whole))"

fun emit_sessions :: "bool \<Rightarrow> int \<Rightarrow> SyncSession list \<Rightarrow> SyncSession list \<times> int \<times> bool" where
  "emit_sessions first n [] = ([], n, True)"
| "emit_sessions first n (s # ss) =
     (let u = approxJSONLen (session_json s) in
      if \<not> first \<and> n + u > catalogSyncMaxBytes then ([], n, False)
      else case emit_sessions False (n + u) ss of (out, m, whole) \<Rightarrow> (s # out, m, whole))"

definition hello_request :: "gostring \<Rightarrow> gostring \<Rightarrow> SyncRequest" where
  "hello_request device version =
     \<lparr>rq_Hello = \<lparr>hm_DeviceID = device, hm_Version = version\<rparr>, rq_Sessions = [], rq_DeletedSessions = [], rq_Turns = [],
      rq_KnownWindowSessionIDs = None, rq_CatalogComplete = False, rq_FullReconcile = False\<rparr>"

definition BuildCatalogSyncRequest :: "gostring \<Rightarrow> gostring \<Rightarrow> Profile \<Rightarrow> Index \<Rightarrow> SyncRequest" where
  "BuildCatalogSyncRequest version device profile ix =
     (case emit_deleted catalogSyncBaseOverheadBytes (map ds_SessionID (ix_deleted ix)) of (deleted, n, whole1) \<Rightarrow>
      case emit_sessions True n (BuildCatalogSyncSessions profile ix) of (sessions, _, whole2) \<Rightarrow>
        (hello_request device version)\<lparr>rq_DeletedSessions := deleted, rq_Sessions := sessions,
          rq_CatalogComplete := whole1 \<and> whole2\<rparr>)"

subsection \<open>The turns of one session\<close>

fun kind_name :: "BlockKind \<Rightarrow> gostring" where
  "kind_name BlockUserMessage = ''user_message''"
| "kind_name BlockAssistantText = ''assistant_text''"
| "kind_name BlockToolCall = ''tool_call''"
| "kind_name BlockToolResult = ''tool_result''"
| "kind_name BlockThinking = ''thinking''"
| "kind_name BlockAttachment = ''attachment''"
| "kind_name BlockMeta = ''meta''"
| "kind_name BlockImage = ''image''"

definition payloadForBlock :: "Block \<Rightarrow> gostring" where
  "payloadForBlock b =
     marshal (GObj (omit_str ''uuid'' (bl_UUID b) @ omit_str ''text'' (bl_Text b) @ omit_str ''attachment_type'' (bl_AttachmentType b) @
       omit_str ''meta_type'' (bl_MetaType b) @ omit_str ''tool'' (bl_Tool b) @ omit_str ''id'' (bl_ID b) @ omit_raw ''input'' (bl_Input b) @
       omit_str ''result'' (bl_Result b) @ omit_bool ''is_error'' (bl_IsError b) @ omit_bool ''has_result'' (bl_HasResult b) @
       omit_str ''parent_tool_use_id'' (bl_ParentToolUseID b) @ omit_bool ''is_sidechain'' (bl_IsSidechain b) @
       omit_int ''input_tokens'' (bl_InputTokens b) @ omit_int ''output_tokens'' (bl_OutputTokens b) @
       omit_int ''cache_creation_input_tokens'' (bl_CacheCreationTokens b) @ omit_int ''cache_read_input_tokens'' (bl_CacheReadTokens b) @
       omit_str ''image_media_type'' (bl_ImageMediaType b) @ omit_str ''image_data'' (bl_ImageData b) @ omit_str ''image_url'' (bl_ImageURL b) @
       omit_str ''edit_file_path'' (bl_EditFilePath b) @ omit_raw ''edit_patch'' (bl_EditPatch b) @
       omit_bool ''edit_user_modified'' (bl_EditUserModified b)))"

text \<open>The readers never give an error: a file that cannot be read is a session without blocks.\<close>

definition extractSessionBlocks :: "(gostring \<Rightarrow> gostring option) \<Rightarrow> disk \<Rightarrow> SessionRef \<Rightarrow> gostring + SessionBlocks" where
  "extractSessionBlocks num d ref =
     (if sref_Agent ref = ''claude-code'' then Inr (ExtractBlocks num (open_file d (sref_Path ref)))
      else if sref_Agent ref = ''codex'' then Inr (codex_ExtractBlocks (open_file d (sref_Path ref)))
      else Inl (''unknown agent '' @ quote_json (sref_Agent ref)))"

record SessionWindow =
  wn_Limit :: int
  wn_BeforeSeq :: int

definition selectBlockWindow :: "'b list \<Rightarrow> SessionWindow \<Rightarrow> 'b list \<times> int \<times> int \<times> bool" where
  "selectBlockWindow blocks w =
     (let n = int (length blocks);
          l0 = (if wn_Limit w \<le> 0 then 20 else wn_Limit w);
          limit = (if l0 > 100 then 100 else l0);
          endSeq = (if wn_BeforeSeq w > 0 \<and> wn_BeforeSeq w - 1 < n then wn_BeforeSeq w - 1 else n);
          start0 = endSeq - limit + 1;
          start = (if start0 < 1 then 1 else start0)
      in if n = 0 \<or> endSeq \<le> 0 then ([], 0, 0, False)
         else (take (nat (endSeq - start + 1)) (drop (nat (start - 1)) blocks), start, endSeq, start > 1))"

text \<open>The hash of a window: every part of every turn is followed by a NUL byte.\<close>

definition hash_part :: "gostring \<Rightarrow> gostring" where
  "hash_part v = v @ nul"

definition hash_turn :: "(gostring \<Rightarrow> gostring) \<Rightarrow> SyncTurn \<Rightarrow> gostring" where
  "hash_turn sha t =
     hash_part (tn_SessionID t) @ hash_part (tn_Agent t) @ hash_part (Itoa (tn_Seq t)) @ hash_part (tn_Kind t) @
     hash_part (tn_Timestamp t) @ hash_part (raw_url_encode (sha (tn_Payload t)))"

definition window_hash :: "(gostring \<Rightarrow> gostring) \<Rightarrow> SyncTurn list \<Rightarrow> gostring" where
  "window_hash sha ts = ''sha256:'' @ raw_url_encode (sha (concat (map (hash_turn sha) ts)))"

record SyncProgress =
  pg_Stage :: gostring
  pg_Processed :: int
  pg_Total :: int
  pg_Message :: gostring
  pg_MinSeq :: int
  pg_MaxSeq :: int
  pg_HasOlder :: bool
  pg_TurnCount :: int

definition stage_progress :: "gostring \<Rightarrow> gostring \<Rightarrow> SyncProgress" where
  "stage_progress stage msg =
     \<lparr>pg_Stage = stage, pg_Processed = 0, pg_Total = 0, pg_Message = msg, pg_MinSeq = 0, pg_MaxSeq = 0, pg_HasOlder = False,
      pg_TurnCount = 0\<rparr>"

definition sync_turn :: "gostring \<Rightarrow> gostring \<Rightarrow> int \<Rightarrow> Block \<Rightarrow> SyncTurn" where
  "sync_turn sid agent seq b =
     \<lparr>tn_SessionID = sid, tn_Seq = seq, tn_Agent = agent, tn_Kind = kind_name (bl_Kind b), tn_Timestamp = bl_Timestamp b,
      tn_Payload = payloadForBlock b\<rparr>"

text \<open>
  The loop over the window. \<open>ended k\<close> is the error of the context when block \<open>k\<close> is reached; it
  leaves the turns built so far in the request.
\<close>

fun window_loop ::
  "(nat \<Rightarrow> gostring option) \<Rightarrow> (nat \<Rightarrow> SyncProgress) \<Rightarrow> gostring \<Rightarrow> gostring \<Rightarrow> int \<Rightarrow> nat \<Rightarrow> Block list \<Rightarrow>
   gostring option \<times> SyncTurn list \<times> SyncProgress list" where
  "window_loop ended prog sid agent seq k [] = (None, [], [])"
| "window_loop ended prog sid agent seq k (b # bs) =
     (case ended k of
        Some err \<Rightarrow> (Some err, [], [])
      | None \<Rightarrow>
          (case window_loop ended prog sid agent (seq + 1) (Suc k) bs of
             (err, ts, ps) \<Rightarrow> (err, sync_turn sid agent seq b # ts, prog (Suc k) # ps)))"

definition window_session ::
  "(gostring \<Rightarrow> gostring) \<Rightarrow> Profile \<Rightarrow> gostring \<Rightarrow> SessionRef \<Rightarrow> SessionBlocks \<Rightarrow> int \<times> int \<times> bool \<Rightarrow> SyncTurn list \<Rightarrow> SyncSession" where
  "window_session sha profile sid ref sb span ts =
     (case span of (minSeq, maxSeq, hasOlder) \<Rightarrow>
        let cwd = rl_firstNonEmpty [sb_Cwd sb, sref_Cwd ref]; bs = sb_Blocks sb;
            title = rl_firstNonEmpty [sref_Title ref, firstUserMessageTitle bs, safeSessionTitle (sref_Agent ref) cwd sid];
            n = int (length bs)
        in \<lparr>yn_SessionID = sid, yn_Agent = sref_Agent ref, yn_RunnerAlias = AliasFor profile (sref_Agent ref),
            yn_Cwd = safeCwdLabel cwd, yn_Title = title, yn_Snippet = rl_firstNonEmpty [firstUserMessageTitle bs, title],
            yn_FirstMessage = [], yn_LastSeq = n, yn_LastTimestamp = lastBlockTimestamp bs [],
            yn_ChannelLastSeenAt = lastBlockTimestamp bs [],
            yn_SyncState = (if hasOlder \<or> minSeq > 1 then ''partial'' else ''fully_synced''),
            yn_TurnCount = n, yn_MinSeq = minSeq, yn_MaxSeq = maxSeq, yn_HasOlder = hasOlder,
            yn_WindowHash = window_hash sha ts\<rparr>)"

record relay_world =
  rw_disk :: disk
  rw_num :: "gostring \<Rightarrow> gostring option"
  rw_sha :: "gostring \<Rightarrow> gostring"
  rw_version :: gostring

definition BuildSingleSessionWindowSyncRequestContext ::
  "relay_world \<Rightarrow> (nat \<Rightarrow> gostring option) \<Rightarrow> Index \<Rightarrow> gostring \<Rightarrow> gostring \<Rightarrow> Profile \<Rightarrow> SessionWindow \<Rightarrow>
   gostring option \<times> SyncRequest \<times> SyncProgress list" where
  "BuildSingleSessionWindowSyncRequestContext w ended ix device sid profile win =
     (let req = hello_request device (rw_version w); p1 = stage_progress ''locating'' ''Locating session'';
          p2 = stage_progress ''extracting'' ''Extracting history'' in
      case ix_FindSession sid ix of
        None \<Rightarrow> (Some ''session_not_found'', req, [p1])
      | Some ref \<Rightarrow>
          if \<not> isSupportedSyncAgent (sref_Agent ref) then (Some ''agent_not_supported'', req, [p1])
          else (case extractSessionBlocks (rw_num w) (rw_disk w) ref of
              Inl e \<Rightarrow> (Some (''extract_failed: '' @ e), req, [p1, p2])
            | Inr sb \<Rightarrow>
                (case selectBlockWindow (sb_Blocks sb) win of (windowed, minSeq, maxSeq, hasOlder) \<Rightarrow>
                   let prog = (\<lambda>k. \<lparr>pg_Stage = ''extracting'', pg_Processed = int k, pg_Total = int (length windowed),
                         pg_Message = ''Extracting history'', pg_MinSeq = minSeq, pg_MaxSeq = maxSeq, pg_HasOlder = hasOlder,
                         pg_TurnCount = int (length (sb_Blocks sb))\<rparr>) in
                   case window_loop ended prog sid (sref_Agent ref) minSeq 0 windowed of
                     (Some e, ts, ps) \<Rightarrow> (Some e, req\<lparr>rq_Turns := ts\<rparr>, p1 # p2 # ps)
                   | (None, ts, ps) \<Rightarrow>
                       (None, req\<lparr>rq_Turns := ts,
                          rq_Sessions := [window_session (rw_sha w) profile sid ref sb (minSeq, maxSeq, hasOlder) ts]\<rparr>, p1 # p2 # ps))))"

definition BuildSingleSessionSyncRequest ::
  "relay_world \<Rightarrow> Index \<Rightarrow> gostring \<Rightarrow> gostring \<Rightarrow> Profile \<Rightarrow> gostring option \<times> SyncRequest \<times> SyncProgress list" where
  "BuildSingleSessionSyncRequest w ix device sid profile =
     BuildSingleSessionWindowSyncRequestContext w (\<lambda>_. None) ix device sid profile \<lparr>wn_Limit = 0, wn_BeforeSeq = 0\<rparr>"

end
