(* ===== verification/SyncPolicy.thy ===== *)
theory SyncPolicy
  imports RelaySync PermissionApi
begin

section \<open>When and what the daemon syncs\<close>

text \<open>
  The sync loop of \<open>daemon/cmd/pockly-daemon/main.go\<close>: \<open>startNexusSyncLoop\<close> and everything it
  calls. One \<open>runSync\<close> is a function of the world (environment, clock, disk, what Nexus answers)
  and of the state of the loop; it gives the requests posted, in order. Log lines and telemetry
  are left out. The pushed hints are always wired, and the context lives as long as the daemon.
\<close>

subsection \<open>Settings from the environment\<close>

definition env_result :: "int \<Rightarrow> int \<Rightarrow> int \<Rightarrow> int \<Rightarrow> int" where
  "env_result fallback mn mx v = (if v < mn then fallback else if mx > 0 \<and> v > mx then mx else v)"

definition envInt :: "(gostring \<Rightarrow> gostring) \<Rightarrow> gostring \<Rightarrow> int \<Rightarrow> int \<Rightarrow> int \<Rightarrow> int" where
  "envInt env name fallback mn mx =
     (let raw = TrimSpace (env name) in
      if raw = [] then fallback
      else case Atoi raw of None \<Rightarrow> fallback | Some v \<Rightarrow> env_result fallback mn mx v)"

text \<open>
  \<open>time.ParseDuration\<close>. The fraction is rounded down here; Go computes it with \<open>float64\<close>, which
  agrees for fractions of at most fifteen digits.
\<close>

definition unit_of :: "gostring \<Rightarrow> nat option" where
  "unit_of u =
     (if u = ''ns'' then Some 1 else if u \<in> {''us'', [CHR 0xC2, CHR 0xB5] @ ''s'', [CHR 0xCE, CHR 0xBC] @ ''s''} then Some 1000
      else if u = ''ms'' then Some 1000000 else if u = ''s'' then Some 1000000000
      else if u = ''m'' then Some 60000000000 else if u = ''h'' then Some 3600000000000 else None)"

text \<open>A run of digits as a number; \<open>None\<close> when it goes beyond \<open>2 ^ 63\<close>.\<close>

definition leading_int :: "gostring \<Rightarrow> nat option \<times> gostring" where
  "leading_int s =
     (let ds = takeWhile is_digit s; n = nat_of_digits ds in (if n \<le> 2 ^ 63 then Some n else None, dropWhile is_digit s))"

text \<open>The digits of a fraction: those that still fit, and their scale.\<close>

fun fraction_digits :: "nat \<Rightarrow> nat \<Rightarrow> gostring \<Rightarrow> nat \<times> nat" where
  "fraction_digits f scale [] = (f, scale)"
| "fraction_digits f scale (c # cs) =
     (let y = f * 10 + (of_char c - 48) in
      if f > (2 ^ 63 - 1) div 10 \<or> y > 2 ^ 63 then (f, scale) else fraction_digits y (scale * 10) cs)"

definition duration_piece :: "gostring \<Rightarrow> (nat \<times> gostring) option" where
  "duration_piece s =
     (case leading_int s of
        (None, _) \<Rightarrow> None
      | (Some v, s1) \<Rightarrow>
          let pre = s1 \<noteq> s;
              frac = (if s1 \<noteq> [] \<and> hd s1 = CHR ''.'' then takeWhile is_digit (tl s1) else []);
              s2 = (if s1 \<noteq> [] \<and> hd s1 = CHR ''.'' then dropWhile is_digit (tl s1) else s1);
              u = takeWhile (\<lambda>c. c \<noteq> CHR ''.'' \<and> \<not> is_digit c) s2; rest = dropWhile (\<lambda>c. c \<noteq> CHR ''.'' \<and> \<not> is_digit c) s2
          in if \<not> pre \<and> frac = [] then None
             else case unit_of u of
               None \<Rightarrow> None
             | Some k \<Rightarrow>
                 (case fraction_digits 0 1 frac of (f, scale) \<Rightarrow>
                    let d = v * k + f * k div scale in
                    if v > 2 ^ 63 div k \<or> d > 2 ^ 63 then None else Some (d, rest)))"

lemma duration_piece_shorter: "duration_piece s = Some (d, r) \<Longrightarrow> length r < length s"
proof -
  assume a: "duration_piece s = Some (d, r)"
  define s1 where "s1 = dropWhile is_digit s"
  define s2 where "s2 = (if s1 \<noteq> [] \<and> hd s1 = CHR ''.'' then dropWhile is_digit (tl s1) else s1)"
  define u where "u = takeWhile (\<lambda>c. c \<noteq> CHR ''.'' \<and> \<not> is_digit c) s2"
  have r: "r = dropWhile (\<lambda>c. c \<noteq> CHR ''.'' \<and> \<not> is_digit c) s2" and k: "unit_of u \<noteq> None"
    using a unfolding duration_piece_def leading_int_def Let_def s2_def s1_def u_def
    by (auto split: option.splits if_splits prod.splits)
  have "u \<noteq> []" using k by (auto simp: unit_of_def)
  moreover have "u @ r = s2" unfolding u_def r by simp
  moreover have "length s2 \<le> length s1" unfolding s2_def
    using length_dropWhile_le[of is_digit "tl s1"] by (auto)
  moreover have "length s1 \<le> length s" unfolding s1_def by (rule length_dropWhile_le)
  ultimately show ?thesis by (metis le_trans length_append length_greater_0_conv less_add_same_cancel2 less_le_trans)
qed

function duration_sum :: "nat \<Rightarrow> gostring \<Rightarrow> nat option" where
  "duration_sum acc s =
     (if s = [] then Some acc
      else case duration_piece s of
        None \<Rightarrow> None
      | Some (d, r) \<Rightarrow> if acc + d > 2 ^ 63 then None else duration_sum (acc + d) r)"
  by pat_completeness auto
termination by (relation "measure (length \<circ> snd)") (auto dest: duration_piece_shorter)

declare duration_sum.simps [simp del]

definition ParseDuration :: "gostring \<Rightarrow> duration option" where
  "ParseDuration s0 =
     (let signed = s0 \<noteq> [] \<and> (hd s0 = CHR ''-'' \<or> hd s0 = CHR ''+''); neg = signed \<and> hd s0 = CHR ''-'';
          s = (if signed then tl s0 else s0)
      in if s = ''0'' then Some 0
         else if s = [] then None
         else case duration_sum 0 s of
           None \<Rightarrow> None
         | Some d \<Rightarrow> if neg then Some (- int d) else if d > 2 ^ 63 - 1 then None else Some (int d))"

text \<open>The product of a number of seconds and \<open>time.Second\<close> wraps around at 64 bits.\<close>

definition wrap64 :: "int \<Rightarrow> int" where
  "wrap64 i = (i + 2 ^ 63) mod 2 ^ 64 - 2 ^ 63"

definition envDuration :: "(gostring \<Rightarrow> gostring) \<Rightarrow> gostring \<Rightarrow> duration \<Rightarrow> duration \<Rightarrow> duration \<Rightarrow> duration" where
  "envDuration env name fallback mn mx =
     (let raw = TrimSpace (env name) in
      if raw = [] then fallback
      else case ParseDuration raw of
        Some v \<Rightarrow> env_result fallback mn mx v
      | None \<Rightarrow> (case Atoi raw of None \<Rightarrow> fallback | Some n \<Rightarrow> env_result fallback mn mx (wrap64 (n * second))))"

definition envBoolDefault :: "(rune \<Rightarrow> rune) \<Rightarrow> (gostring \<Rightarrow> gostring) \<Rightarrow> gostring \<Rightarrow> bool \<Rightarrow> bool" where
  "envBoolDefault lower env name fallback =
     (let v = TrimSpace (ToLower lower (env name)) in
      if v \<in> {''1'', ''true'', ''yes'', ''on''} then True
      else if v \<in> {''0'', ''false'', ''no'', ''off''} then False
      else fallback)"


definition catalogSyncMinInterval :: "(gostring \<Rightarrow> gostring) \<Rightarrow> duration" where
  "catalogSyncMinInterval env = envDuration env ''POCKLY_CATALOG_SYNC_MIN_INTERVAL'' (60 * second) 0 (24 * hour)"

definition catalogMetadataSyncMinInterval :: "(gostring \<Rightarrow> gostring) \<Rightarrow> duration" where
  "catalogMetadataSyncMinInterval env = envDuration env ''POCKLY_CATALOG_METADATA_SYNC_MIN_INTERVAL'' (2 * second) 0 hour"

definition windowSyncMinInterval :: "(gostring \<Rightarrow> gostring) \<Rightarrow> duration" where
  "windowSyncMinInterval env = envDuration env ''POCKLY_WINDOW_SYNC_MIN_INTERVAL'' (60 * second) 0 hour"

definition syncHintsPollInterval :: "(gostring \<Rightarrow> gostring) \<Rightarrow> duration" where
  "syncHintsPollInterval env = envDuration env ''POCKLY_SYNC_HINTS_POLL_INTERVAL'' 0 0 (24 * hour)"

definition defaultSyncWindowDays :: int where "defaultSyncWindowDays = 7"
definition defaultInitialTurnLimit :: int where "defaultInitialTurnLimit = 20"
definition defaultPriorityTurnLimit :: int where "defaultPriorityTurnLimit = 100"
definition activeSessionWindow :: duration where "activeSessionWindow = 10 * minute"
definition maxNexusHistorySessionsPerTick :: nat where "maxNexusHistorySessionsPerTick = 8"

record nexusSyncPolicy =
  np_ProactiveHistorySync :: bool
  np_SyncWindowDays :: int
  np_InitialTurnLimit :: int
  np_PriorityTurnLimit :: int

definition proactiveHistorySyncWindowDays :: "(gostring \<Rightarrow> gostring) \<Rightarrow> bool \<Rightarrow> int" where
  "proactiveHistorySyncWindowDays env enabled =
     (if \<not> enabled then 0 else envInt env ''POCKLY_SYNC_WINDOW_DAYS'' defaultSyncWindowDays 0 3650)"

definition defaultNexusSyncPolicy :: "(rune \<Rightarrow> rune) \<Rightarrow> (gostring \<Rightarrow> gostring) \<Rightarrow> nexusSyncPolicy" where
  "defaultNexusSyncPolicy lower env =
     (let proactive = envBoolDefault lower env ''POCKLY_PROACTIVE_HISTORY_SYNC'' False in
      \<lparr>np_ProactiveHistorySync = proactive, np_SyncWindowDays = proactiveHistorySyncWindowDays env proactive,
       np_InitialTurnLimit = envInt env ''POCKLY_INITIAL_TURN_LIMIT'' defaultInitialTurnLimit 1 100,
       np_PriorityTurnLimit = envInt env ''POCKLY_PRIORITY_TURN_LIMIT'' defaultPriorityTurnLimit 1 100\<rparr>)"

subsection \<open>Hints\<close>

record syncHint =
  hi_Reason :: gostring
  hi_PreferredMin :: int
  hi_SyncedTurnCount :: int
  hi_SyncedMinSeq :: int
  hi_SyncedMaxSeq :: int
  hi_NextBeforeSeq :: int
  hi_TotalTurnCount :: int
  hi_HasOlderTurns :: bool
  hi_WindowHash :: gostring

definition no_hint :: syncHint where
  "no_hint =
     \<lparr>hi_Reason = [], hi_PreferredMin = 0, hi_SyncedTurnCount = 0, hi_SyncedMinSeq = 0, hi_SyncedMaxSeq = 0, hi_NextBeforeSeq = 0,
      hi_TotalTurnCount = 0, hi_HasOlderTurns = False, hi_WindowHash = []\<rparr>"

definition older_wanted :: "syncHint \<Rightarrow> bool" where
  "older_wanted h \<longleftrightarrow> hi_HasOlderTurns h \<or> hi_TotalTurnCount h \<le> 0 \<or> hi_SyncedTurnCount h < hi_TotalTurnCount h"

definition beforeSeqForHint :: "syncHint \<Rightarrow> int" where
  "beforeSeqForHint h =
     (if hi_NextBeforeSeq h > 1 \<and> older_wanted h then hi_NextBeforeSeq h
      else if hi_SyncedMinSeq h > 1 \<and> older_wanted h then hi_SyncedMinSeq h
      else 0)"

definition syncHintBackfillComplete :: "syncHint \<Rightarrow> bool" where
  "syncHintBackfillComplete h \<longleftrightarrow>
     hi_TotalTurnCount h > 0 \<and> hi_SyncedTurnCount h \<ge> hi_TotalTurnCount h \<and> hi_SyncedMaxSeq h \<ge> hi_TotalTurnCount h \<and>
     hi_NextBeforeSeq h \<le> 1 \<and> \<not> hi_HasOlderTurns h"

text \<open>The steps of \<open>mergeSyncHintAfterWindow\<close>: the number of turns, the range, how many are synced, the cursor.\<close>

definition merge_total :: "SyncSession \<Rightarrow> syncHint \<Rightarrow> syncHint" where
  "merge_total meta h =
     (if hi_TotalTurnCount h \<le> 0 \<or> yn_TurnCount meta > hi_TotalTurnCount h then h\<lparr>hi_TotalTurnCount := yn_TurnCount meta\<rparr> else h)"

definition merge_min :: "SyncSession \<Rightarrow> syncHint \<Rightarrow> syncHint" where
  "merge_min meta h =
     (if yn_MinSeq meta > 0 \<and> (hi_SyncedMinSeq h \<le> 0 \<or> yn_MinSeq meta < hi_SyncedMinSeq h)
      then h\<lparr>hi_SyncedMinSeq := yn_MinSeq meta\<rparr> else h)"

definition merge_max :: "SyncSession \<Rightarrow> syncHint \<Rightarrow> syncHint" where
  "merge_max meta h = (if yn_MaxSeq meta > hi_SyncedMaxSeq h then h\<lparr>hi_SyncedMaxSeq := yn_MaxSeq meta\<rparr> else h)"

definition merge_count :: "SyncSession \<Rightarrow> syncHint \<Rightarrow> syncHint" where
  "merge_count meta h =
     (if yn_MinSeq meta > 0 \<and> yn_MaxSeq meta \<ge> yn_MinSeq meta
      then let n = hi_SyncedTurnCount h + (yn_MaxSeq meta - yn_MinSeq meta + 1)
           in h\<lparr>hi_SyncedTurnCount := (if hi_TotalTurnCount h > 0 \<and> n > hi_TotalTurnCount h then hi_TotalTurnCount h else n)\<rparr>
      else h)"

definition merge_cursor :: "SyncSession \<Rightarrow> syncHint \<Rightarrow> syncHint" where
  "merge_cursor meta h =
     (if yn_MinSeq meta > 1 \<and> (yn_HasOlder meta \<or> hi_TotalTurnCount h \<le> 0 \<or> hi_SyncedTurnCount h < hi_TotalTurnCount h)
      then h\<lparr>hi_NextBeforeSeq := yn_MinSeq meta\<rparr> else h\<lparr>hi_NextBeforeSeq := 0\<rparr>)"

definition merge_older :: "SyncSession \<Rightarrow> syncHint \<Rightarrow> syncHint" where
  "merge_older meta h =
     h\<lparr>hi_HasOlderTurns :=
       \<not> (hi_TotalTurnCount h > 0 \<and> hi_SyncedTurnCount h \<ge> hi_TotalTurnCount h \<and> hi_SyncedMaxSeq h \<ge> hi_TotalTurnCount h \<and>
          hi_NextBeforeSeq h \<le> 1) \<and>
       (yn_HasOlder meta \<or> hi_SyncedMinSeq h > 1 \<or> (hi_TotalTurnCount h > 0 \<and> hi_SyncedTurnCount h < hi_TotalTurnCount h))\<rparr>"

definition mergeSyncHintAfterWindow :: "syncHint \<Rightarrow> SyncSession \<Rightarrow> syncHint" where
  "mergeSyncHintAfterWindow h0 meta =
     (if yn_SessionID meta = [] then h0
      else let h = merge_count meta (merge_max meta (merge_min meta (merge_total meta h0))) in
        if hi_TotalTurnCount h > 0 \<and> hi_SyncedTurnCount h \<ge> hi_TotalTurnCount h \<and> hi_SyncedMinSeq h \<le> 1 \<and>
           hi_SyncedMaxSeq h \<ge> hi_TotalTurnCount h
        then h\<lparr>hi_NextBeforeSeq := 0, hi_HasOlderTurns := False\<rparr>
        else merge_older meta (merge_cursor meta h))"

definition syncWindowIsLatestTail :: "SyncSession \<Rightarrow> bool" where
  "syncWindowIsLatestTail meta =
     (let n = (if yn_TurnCount meta \<le> 0 then yn_LastSeq meta else yn_TurnCount meta)
      in n \<le> 0 \<or> yn_MaxSeq meta \<le> 0 \<or> yn_MaxSeq meta \<ge> n)"

subsection \<open>The store of pushed hints\<close>

definition pushedHintTTL :: duration where "pushedHintTTL = 24 * hour"
definition pushedHintFreshFor :: duration where "pushedHintFreshFor = 2 * minute"
definition pushedHintMaxEntries :: nat where "pushedHintMaxEntries = 50"

record pushedHintEntry =
  ph_hint :: syncHint
  ph_pushedAt :: time

type_synonym pushedHintStore = "(gostring \<times> pushedHintEntry) list"

definition pruneLocked :: "time \<Rightarrow> pushedHintStore \<Rightarrow> pushedHintStore" where
  "pruneLocked now s = alist_purge (\<lambda>e. now - ph_pushedAt e > pushedHintTTL) s"

text \<open>The loop over the entries, in the order of the list: the first of the oldest ones.\<close>

definition oldest_id :: "pushedHintStore \<Rightarrow> gostring" where
  "oldest_id s =
     fst (foldl (\<lambda>(i, at) (sid, e). if i = [] \<or> ph_pushedAt e < at then (sid, ph_pushedAt e) else (i, at)) ([], 0) s)"

definition hints_Add :: "gostring \<Rightarrow> syncHint \<Rightarrow> time \<Rightarrow> pushedHintStore \<Rightarrow> pushedHintStore" where
  "hints_Add sid0 hint now s0 =
     (let sid = TrimSpace sid0 in
      if sid = [] then s0
      else let s1 = pruneLocked now s0;
               s2 = (if alist_get s1 sid = None \<and> length s1 \<ge> pushedHintMaxEntries then alist_del (oldest_id s1) s1 else s1)
           in alist_put sid \<lparr>ph_hint = hint, ph_pushedAt = now\<rparr> s2)"

definition hints_UpdateAfterSync :: "gostring \<Rightarrow> SyncSession \<Rightarrow> time \<Rightarrow> pushedHintStore \<Rightarrow> pushedHintStore" where
  "hints_UpdateAfterSync sid0 meta now s =
     (let sid = TrimSpace sid0 in
      if sid = [] then s
      else case alist_get s sid of
        None \<Rightarrow> s
      | Some e \<Rightarrow>
          let merged = mergeSyncHintAfterWindow (ph_hint e) meta in
          if hi_Reason (ph_hint e) = ''recently_opened''
          then alist_put sid (e\<lparr>ph_hint := (if syncHintBackfillComplete merged
                                            then merged\<lparr>hi_NextBeforeSeq := 0, hi_HasOlderTurns := False\<rparr> else merged)\<rparr>) s
          else if \<not> syncWindowIsLatestTail meta \<or> hi_Reason (ph_hint e) = ''pinned'' \<or> syncHintBackfillComplete merged
          then alist_del sid s
          else alist_put sid (e\<lparr>ph_hint := merged, ph_pushedAt := now\<rparr>) s)"

definition hints_Snapshot :: "time \<Rightarrow> pushedHintStore \<Rightarrow> (gostring \<times> syncHint) list \<times> pushedHintStore" where
  "hints_Snapshot now s = (let s1 = pruneLocked now s in (map (\<lambda>(sid, e). (sid, ph_hint e)) s1, s1))"

definition PushedWithin :: "gostring \<Rightarrow> time \<Rightarrow> duration \<Rightarrow> pushedHintStore \<Rightarrow> bool" where
  "PushedWithin sid now window s \<longleftrightarrow> (case alist_get s sid of Some e \<Rightarrow> now - ph_pushedAt e \<le> window | None \<Rightarrow> False)"

subsection \<open>Which sessions\<close>

definition hint_of :: "(gostring \<times> syncHint) list \<Rightarrow> gostring \<Rightarrow> syncHint" where
  "hint_of hints sid = (case alist_get hints sid of Some h \<Rightarrow> h | None \<Rightarrow> no_hint)"

definition session_time :: "(gostring \<Rightarrow> time option) \<Rightarrow> SyncSession \<Rightarrow> time option" where
  "session_time parse s =
     (let ts = TrimSpace (ix_firstNonEmpty [yn_ChannelLastSeenAt s, yn_LastTimestamp s]) in if ts = [] then None else parse ts)"

definition sessionActiveWithin :: "(gostring \<Rightarrow> time option) \<Rightarrow> SyncSession \<Rightarrow> time \<Rightarrow> duration \<Rightarrow> bool" where
  "sessionActiveWithin parse s now window \<longleftrightarrow>
     window > 0 \<and> (case session_time parse s of Some t \<Rightarrow> t \<ge> now - window | None \<Rightarrow> False)"

text \<open>The cutoff is \<open>None\<close> for the zero time: no cutoff.\<close>

definition syncWindowCutoff :: "time \<Rightarrow> int \<Rightarrow> time option" where
  "syncWindowCutoff now days = (if days \<le> 0 then None else Some (now - days * 24 * hour))"

definition sessionWithinSyncWindow :: "(gostring \<Rightarrow> time option) \<Rightarrow> SyncSession \<Rightarrow> time option \<Rightarrow> bool" where
  "sessionWithinSyncWindow parse s cutoff \<longleftrightarrow>
     (case cutoff of None \<Rightarrow> True | Some c \<Rightarrow> (case session_time parse s of Some t \<Rightarrow> t \<ge> c | None \<Rightarrow> False))"

definition sessionSyncPriority :: "(gostring \<Rightarrow> time option) \<Rightarrow> SyncSession \<Rightarrow> (gostring \<times> syncHint) list \<Rightarrow> time \<Rightarrow> bool" where
  "sessionSyncPriority parse s hints now \<longleftrightarrow>
     alist_get hints (yn_SessionID s) \<noteq> None \<or> sessionActiveWithin parse s now activeSessionWindow"

text \<open>Sorted with the sessions that have priority first, then the newest first; stable.\<close>

definition sort_candidates :: "(SyncSession \<Rightarrow> bool) \<Rightarrow> SyncSession list \<Rightarrow> SyncSession list" where
  "sort_candidates priority ss =
     rev (sort_key priority (sort_key yn_LastTimestamp (sort_key yn_SessionID (rev ss))))"

definition recentNexusSessions ::
  "(gostring \<Rightarrow> time option) \<Rightarrow> SyncSession list \<Rightarrow> nat \<Rightarrow> nexusSyncPolicy \<Rightarrow> (gostring \<times> syncHint) list \<Rightarrow> time \<Rightarrow> SyncSession list" where
  "recentNexusSessions parse ss mx policy hints now =
     (let cutoff = syncWindowCutoff now (np_SyncWindowDays policy);
          priority = (\<lambda>s. sessionSyncPriority parse s hints now);
          cs = sort_candidates priority (filter (\<lambda>s. yn_SessionID s \<noteq> [] \<and>
                 (priority s \<or> (np_ProactiveHistorySync policy \<and> sessionWithinSyncWindow parse s cutoff))) ss);
          n = length (takeWhile priority cs)
      in if mx > 0 \<and> length cs > mx then take (if n > mx then n else mx) cs else cs)"

fun candidate_ids :: "gostring list \<Rightarrow> gostring list \<Rightarrow> gostring list" where
  "candidate_ids seen [] = []"
| "candidate_ids seen (i # is) =
     (let sid = TrimSpace i in
      if sid = [] \<or> sid \<in> set seen then candidate_ids seen is else sid # candidate_ids (sid # seen) is)"

definition candidateSessionIDs :: "SyncSession list \<Rightarrow> gostring list" where
  "candidateSessionIDs ss = candidate_ids [] (map yn_SessionID ss)"

definition knownWindowSessionIDsForCatalog ::
  "(gostring \<Rightarrow> time option) \<Rightarrow> SyncSession list \<Rightarrow> nexusSyncPolicy \<Rightarrow> (gostring \<times> syncHint) list \<Rightarrow> time \<Rightarrow> gostring list" where
  "knownWindowSessionIDsForCatalog parse ss policy hints now =
     take maxNexusHistorySessionsPerTick
       (candidateSessionIDs (recentNexusSessions parse ss maxNexusHistorySessionsPerTick policy hints now))"

subsection \<open>When to push\<close>

definition shouldPushCatalog :: "time \<Rightarrow> time \<Rightarrow> duration \<Rightarrow> bool \<Rightarrow> bool" where
  "shouldPushCatalog now lastPush minInterval membershipChanged \<longleftrightarrow>
     membershipChanged \<or> lastPush = 0 \<or> minInterval \<le> 0 \<or> now - lastPush \<ge> minInterval"

definition shouldPushCatalogChange ::
  "bool \<Rightarrow> bool \<Rightarrow> bool \<Rightarrow> time \<Rightarrow> time \<Rightarrow> time \<Rightarrow> duration \<Rightarrow> duration \<Rightarrow> bool" where
  "shouldPushCatalogChange changed membership display now lastCatalog lastMetadata catalogMin metadataMin \<longleftrightarrow>
     changed \<and> (membership \<or> (display \<and> shouldPushCatalog now lastMetadata metadataMin False) \<or>
       shouldPushCatalog now lastCatalog catalogMin False)"

definition catalogMetadataRetryDelay :: "bool \<Rightarrow> bool \<Rightarrow> bool \<Rightarrow> time \<Rightarrow> time \<Rightarrow> duration \<Rightarrow> duration" where
  "catalogMetadataRetryDelay changed membership display now lastMetadata metadataMin =
     (if \<not> changed \<or> membership \<or> \<not> display \<or> metadataMin \<le> 0 \<or> lastMetadata = 0 then 0
      else let delay = metadataMin - (now - lastMetadata) in if delay \<le> 0 then 0 else delay)"

definition shouldPushWindow :: "time \<Rightarrow> time \<Rightarrow> duration \<Rightarrow> bool \<Rightarrow> bool" where
  "shouldPushWindow now lastPush minInterval fresh \<longleftrightarrow>
     fresh \<or> lastPush = 0 \<or> minInterval \<le> 0 \<or> now - lastPush \<ge> minInterval"

end
