(* ===== verification/SyncLoop.thy ===== *)
theory SyncLoop
  imports SyncPolicy
begin

section \<open>The sync loop\<close>

text \<open>
  The second half of the sync code in \<open>daemon/cmd/pockly-daemon/main.go\<close>: signatures, the
  decisions about one window of turns, \<open>syncChangedNexusSessions\<close>, and \<open>runSync\<close> with the
  timers of the loop.
\<close>

subsection \<open>Signatures\<close>

definition bool_text :: "bool \<Rightarrow> gostring" where
  "bool_text b = (if b then ''true'' else ''false'')"

definition nexusSessionSyncSignature :: "SyncSession \<Rightarrow> gostring" where
  "nexusSessionSyncSignature s =
     Join [yn_Agent s, yn_RunnerAlias s, yn_Cwd s, yn_Title s, yn_Snippet s, yn_FirstMessage s] nul"

definition catalogMembershipSignature :: "SyncRequest \<Rightarrow> gostring" where
  "catalogMembershipSignature r =
     Join (sort (map (\<lambda>s. ''live:'' @ yn_SessionID s) (rq_Sessions r) @ map (\<lambda>d. ''delete:'' @ d) (rq_DeletedSessions r))) nul"

definition catalogSyncSignature :: "SyncRequest \<Rightarrow> gostring" where
  "catalogSyncSignature r =
     (let deleted = map (\<lambda>d. ''delete:'' @ d) (sort (rq_DeletedSessions r)); full = ''full='' @ bool_text (rq_FullReconcile r) in
      if rq_Sessions r = [] then Join (full # deleted) nul
      else Join ([full, Itoa (int (length (rq_Sessions r)))] @ deleted @
        concat (map (\<lambda>s. [yn_SessionID s, nexusSessionSyncSignature s, yn_SyncState s]) (rq_Sessions r))) nul)"

definition catalogDisplayMetadataSignature :: "SyncRequest \<Rightarrow> gostring" where
  "catalogDisplayMetadataSignature r =
     (if rq_Sessions r = [] then []
      else Join (Itoa (int (length (rq_Sessions r))) #
        sort (map (\<lambda>s. Join [yn_SessionID s, nexusSessionSyncSignature s] [CHR 0x01]) (rq_Sessions r))) nul)"

definition historySyncSignature :: "SyncRequest \<Rightarrow> gostring" where
  "historySyncSignature r =
     (case rq_Sessions r of
        [] \<Rightarrow> []
      | s # _ \<Rightarrow>
          Join ([yn_SessionID s, Itoa (yn_MinSeq s), Itoa (yn_MaxSeq s), bool_text (yn_HasOlder s), yn_WindowHash s,
                 Itoa (int (length (rq_Turns r)))] @
                (if yn_WindowHash s = [] \<and> rq_Turns r \<noteq> []
                 then (let t = last (rq_Turns r) in [Itoa (tn_Seq t), tn_Kind t, tn_Timestamp t, tn_Payload t]) else [])) nul)"

definition historyCandidateMetaSignature :: "SyncSession \<Rightarrow> int \<Rightarrow> int \<Rightarrow> gostring" where
  "historyCandidateMetaSignature s limit beforeSeq =
     Join [yn_SessionID s, yn_Agent s, yn_RunnerAlias s, yn_Cwd s, yn_LastTimestamp s, yn_ChannelLastSeenAt s,
       Itoa (yn_LastSeq s), Itoa (yn_TurnCount s), Itoa limit, Itoa beforeSeq] nul"

subsection \<open>What Nexus answers\<close>

record SyncKnownWindow =
  kw_SessionID :: gostring
  kw_SyncedMinSeq :: int
  kw_SyncedMaxSeq :: int
  kw_SyncedTurnCount :: int
  kw_WindowHash :: gostring

record SyncResponse =
  sr_SessionCount :: int
  sr_TurnCount :: int
  sr_ReceivedTurnCount :: int
  sr_KnownWindows :: "SyncKnownWindow list"

record SyncSessionHint =
  sh_SessionID :: gostring
  sh_hint :: syncHint

definition knownWindowHintsFromSyncResponse :: "SyncResponse \<Rightarrow> (gostring \<times> syncHint) list" where
  "knownWindowHintsFromSyncResponse res =
     fold (\<lambda>k m.
         let sid = TrimSpace (kw_SessionID k) in
         if sid = [] \<or> TrimSpace (kw_WindowHash k) = [] then m
         else alist_put sid (no_hint\<lparr>hi_SyncedTurnCount := kw_SyncedTurnCount k, hi_SyncedMinSeq := kw_SyncedMinSeq k,
           hi_SyncedMaxSeq := kw_SyncedMaxSeq k, hi_WindowHash := kw_WindowHash k\<rparr>) m)
       (sr_KnownWindows res) []"

definition hints_of_poll :: "SyncSessionHint list \<Rightarrow> (gostring \<times> syncHint) list" where
  "hints_of_poll es =
     fold (\<lambda>e m. let sid = TrimSpace (sh_SessionID e) in if sid = [] then m else alist_put sid (sh_hint e) m) es []"

record syncHintCache =
  hc_updatedAt :: time
  hc_hints :: "(gostring \<times> syncHint) list option"

definition polledNexusSyncHints ::
  "(gostring \<Rightarrow> gostring) \<Rightarrow> time \<Rightarrow> SyncSessionHint list option \<Rightarrow> syncHintCache \<Rightarrow> (gostring \<times> syncHint) list \<times> syncHintCache" where
  "polledNexusSyncHints env now poll c =
     (let interval = syncHintsPollInterval env in
      if interval \<le> 0 then ([], c)
      else case hc_hints c of
        Some hs \<Rightarrow>
          if now - hc_updatedAt c < interval then (hs, c)
          else (case poll of None \<Rightarrow> (hs, c)
                | Some es \<Rightarrow> (hints_of_poll es, \<lparr>hc_updatedAt = now, hc_hints = Some (hints_of_poll es)\<rparr>))
      | None \<Rightarrow>
          (case poll of None \<Rightarrow> ([], \<lparr>hc_updatedAt = now, hc_hints = Some []\<rparr>)
           | Some es \<Rightarrow> (hints_of_poll es, \<lparr>hc_updatedAt = now, hc_hints = Some (hints_of_poll es)\<rparr>)))"

definition merge_hints :: "(gostring \<times> syncHint) list \<Rightarrow> (gostring \<times> syncHint) list \<Rightarrow> (gostring \<times> syncHint) list" where
  "merge_hints polled pushed = fold (\<lambda>(sid, h). alist_put sid h) pushed polled"

subsection \<open>One window\<close>

definition hintMatchesWindowHash :: "syncHint \<Rightarrow> SyncRequest \<Rightarrow> bool" where
  "hintMatchesWindowHash h r \<longleftrightarrow>
     TrimSpace (hi_WindowHash h) \<noteq> [] \<and>
     (case rq_Sessions r of
        [] \<Rightarrow> False
      | s # _ \<Rightarrow> yn_MinSeq s > 0 \<and> yn_MaxSeq s > 0 \<and> hi_SyncedMinSeq h = yn_MinSeq s \<and> hi_SyncedMaxSeq h = yn_MaxSeq s \<and>
          hi_WindowHash h = yn_WindowHash s)"

definition knownWindowCoversLocalWindow :: "syncHint \<Rightarrow> SyncRequest \<Rightarrow> bool" where
  "knownWindowCoversLocalWindow h r \<longleftrightarrow>
     TrimSpace (hi_WindowHash h) \<noteq> [] \<and>
     (case rq_Sessions r of
        [] \<Rightarrow> False
      | s # _ \<Rightarrow> yn_MinSeq s > 0 \<and> yn_MaxSeq s > 0 \<and> hi_SyncedMinSeq h > 0 \<and> hi_SyncedMaxSeq h > 0 \<and>
          \<not> (hi_SyncedMinSeq h = yn_MinSeq s \<and> hi_SyncedMaxSeq h = yn_MaxSeq s) \<and>
          hi_SyncedMinSeq h \<le> yn_MinSeq s \<and> hi_SyncedMaxSeq h \<ge> yn_MaxSeq s)"

definition shouldSkipWindowUpload ::
  "bool \<Rightarrow> syncHint \<Rightarrow> (gostring \<times> syncHint) list \<Rightarrow> gostring \<Rightarrow> SyncRequest \<Rightarrow> gostring \<Rightarrow> bool" where
  "shouldSkipWindowUpload hasHint hint known sid r lastSignature =
     (let recently = hasHint \<and> TrimSpace (hi_Reason hint) = ''recently_opened'' in
      if hasHint \<and> hintMatchesWindowHash hint r then True
      else case alist_get known (TrimSpace sid) of
        Some server \<Rightarrow> hintMatchesWindowHash server r \<or> (\<not> recently \<and> knownWindowCoversLocalWindow server r)
      | None \<Rightarrow> \<not> recently \<and> lastSignature \<noteq> [] \<and> lastSignature = historySyncSignature r)"

definition trimKnownUploadedTurns :: "(gostring \<Rightarrow> gostring) \<Rightarrow> SyncRequest \<Rightarrow> syncHint \<Rightarrow> SyncRequest" where
  "trimKnownUploadedTurns sha r known =
     (case rq_Sessions r of
        [] \<Rightarrow> r
      | s # ss \<Rightarrow>
          if rq_Turns r = [] \<or> hi_SyncedMaxSeq known \<le> 0 \<or> yn_MinSeq s \<le> 0 \<or> yn_MaxSeq s \<le> 0 \<or>
             hi_SyncedMaxSeq known < yn_MinSeq s then r
          else let ts = filter (\<lambda>t. tn_Seq t > hi_SyncedMaxSeq known) (rq_Turns r) in
            if length ts = length (rq_Turns r) \<or> ts = [] then r
            else r\<lparr>rq_Turns := ts,
                   rq_Sessions := s\<lparr>yn_MinSeq := tn_Seq (hd ts), yn_MaxSeq := tn_Seq (last ts), yn_HasOlder := True,
                     yn_WindowHash := window_hash sha ts\<rparr> # ss\<rparr>)"

definition shouldProbeKnownWindows ::
  "gostring list \<Rightarrow> (gostring \<times> syncHint) list \<Rightarrow> (gostring \<times> gostring) list \<Rightarrow> (gostring \<times> time) list \<Rightarrow> time \<Rightarrow> duration \<Rightarrow> bool" where
  "shouldProbeKnownWindows ids hints lastHistory lastProbe now minInterval \<longleftrightarrow>
     list_ex (\<lambda>raw.
       let sid = TrimSpace raw in
       sid \<noteq> [] \<and>
       \<not> (minInterval > 0 \<and> (case alist_get lastProbe sid of Some t \<Rightarrow> t \<noteq> 0 \<and> now - t < minInterval | None \<Rightarrow> False)) \<and>
       ((case alist_get lastHistory sid of Some sig \<Rightarrow> sig = [] | None \<Rightarrow> True) \<or>
        (case alist_get hints sid of Some h \<Rightarrow> TrimSpace (hi_WindowHash h) = [] | None \<Rightarrow> False))) ids"

subsection \<open>The windows of the changed sessions\<close>

record sync_world =
  yw_relay :: relay_world
  yw_env :: "gostring \<Rightarrow> gostring"
  yw_lower :: "rune \<Rightarrow> rune"
  yw_parse :: "gostring \<Rightarrow> time option"
  yw_post :: "SyncRequest \<Rightarrow> SyncResponse option"
  yw_poll :: "SyncSessionHint list option"
  yw_device :: gostring
  yw_profile :: Profile
  yw_config :: IndexConfig

text \<open>The maps of the loop that are about windows.\<close>

record window_state =
  ws_lastHistory :: "(gostring \<times> gostring) list"
  ws_lastMeta :: "(gostring \<times> gostring) list"
  ws_lastPush :: "(gostring \<times> time) list"
  ws_pushed :: pushedHintStore

definition string_at :: "(gostring \<times> gostring) list \<Rightarrow> gostring \<Rightarrow> gostring" where
  "string_at m k = (case alist_get m k of Some v \<Rightarrow> v | None \<Rightarrow> [])"

definition time_at :: "(gostring \<times> time) list \<Rightarrow> gostring \<Rightarrow> time" where
  "time_at m k = (case alist_get m k of Some v \<Rightarrow> v | None \<Rightarrow> 0)"

definition max_int :: "int list \<Rightarrow> int" where
  "max_int vs = foldl (\<lambda>out v. if v > out then v else out) 0 vs"

definition window_limit :: "nexusSyncPolicy \<Rightarrow> (gostring \<times> syncHint) list \<Rightarrow> gostring \<Rightarrow> int" where
  "window_limit policy hints sid =
     (case alist_get hints sid of
        None \<Rightarrow> np_InitialTurnLimit policy
      | Some h \<Rightarrow> max_int [np_InitialTurnLimit policy, np_PriorityTurnLimit policy, hi_PreferredMin h])"

text \<open>The window counts as synced: the signature of the whole window, its metadata and the time.\<close>

definition settled :: "gostring \<Rightarrow> gostring \<Rightarrow> gostring \<Rightarrow> time \<Rightarrow> window_state \<Rightarrow> window_state" where
  "settled sid signature meta now st =
     st\<lparr>ws_lastHistory := alist_put sid signature (ws_lastHistory st), ws_lastMeta := alist_put sid meta (ws_lastMeta st),
        ws_lastPush := alist_put sid now (ws_lastPush st)\<rparr>"

definition update_pushed :: "gostring \<Rightarrow> SyncRequest \<Rightarrow> time \<Rightarrow> window_state \<Rightarrow> window_state" where
  "update_pushed sid r now st =
     (case rq_Sessions r of [] \<Rightarrow> st | s # _ \<Rightarrow> st\<lparr>ws_pushed := hints_UpdateAfterSync sid s now (ws_pushed st)\<rparr>)"

definition upload_window ::
  "sync_world \<Rightarrow> bool \<Rightarrow> (gostring \<times> syncHint) list \<Rightarrow> (gostring \<times> syncHint) list \<Rightarrow> time \<Rightarrow> gostring \<Rightarrow> gostring \<Rightarrow> SyncRequest \<Rightarrow>
   window_state \<Rightarrow> SyncRequest list \<times> window_state" where
  "upload_window w hasHint hints known now sid meta r0 st =
     (let signature = historySyncSignature r0 in
      if shouldSkipWindowUpload hasHint (hint_of hints sid) known sid r0 (string_at (ws_lastHistory st) sid)
      then ([], (if hasHint then update_pushed sid r0 now else id) (settled sid signature meta now st))
      else let r = trimKnownUploadedTurns (rw_sha (yw_relay w)) r0 (hint_of known (TrimSpace sid)) in
        if rq_Turns r = [] then ([], (if hasHint then update_pushed sid r now else id) (settled sid signature meta now st))
        else case yw_post w r of
          None \<Rightarrow> ([r], st)
        | Some _ \<Rightarrow> ([r], update_pushed sid r now (settled sid signature meta now st)))"

definition sync_window ::
  "sync_world \<Rightarrow> Index \<Rightarrow> nexusSyncPolicy \<Rightarrow> (gostring \<times> syncHint) list \<Rightarrow> (gostring \<times> syncHint) list \<Rightarrow> duration \<Rightarrow> time \<Rightarrow> SyncSession \<Rightarrow>
   window_state \<Rightarrow> SyncRequest list \<times> window_state" where
  "sync_window w ix policy hints known minInterval now s st =
     (let sid = yn_SessionID s; fresh = PushedWithin sid now pushedHintFreshFor (ws_pushed st);
          hasHint = alist_get hints sid \<noteq> None; limit = window_limit policy hints sid;
          meta = historyCandidateMetaSignature s limit 0;
          prior = hasHint \<or> sessionActiveWithin (yw_parse w) s now activeSessionWindow in
      if \<not> shouldPushWindow now (time_at (ws_lastPush st) sid) minInterval fresh then ([], st)
      else if \<not> fresh \<and> \<not> prior \<and> string_at (ws_lastHistory st) sid \<noteq> [] \<and> string_at (ws_lastMeta st) sid = meta
      then ([], st\<lparr>ws_lastPush := alist_put sid now (ws_lastPush st)\<rparr>)
      else case BuildSingleSessionWindowSyncRequestContext (yw_relay w) (\<lambda>_. None) ix (yw_device w) sid (yw_profile w)
            \<lparr>wn_Limit = limit, wn_BeforeSeq = 0\<rparr> of
        (Some _, _, _) \<Rightarrow> ([], st)
      | (None, r, _) \<Rightarrow>
          if rq_Turns r = [] then ([], settled sid (historySyncSignature r) meta now st)
          else if historySyncSignature r = [] then ([], st\<lparr>ws_lastPush := alist_put sid now (ws_lastPush st)\<rparr>)
          else upload_window w hasHint hints known now sid meta r st)"

fun sync_windows ::
  "(SyncSession \<Rightarrow> window_state \<Rightarrow> SyncRequest list \<times> window_state) \<Rightarrow> SyncSession list \<Rightarrow> window_state \<Rightarrow> SyncRequest list \<times> window_state" where
  "sync_windows one [] st = ([], st)"
| "sync_windows one (s # ss) st =
     (case one s st of (rs, st1) \<Rightarrow> case sync_windows one ss st1 of (rs2, st2) \<Rightarrow> (rs @ rs2, st2))"

definition syncChangedNexusSessions ::
  "sync_world \<Rightarrow> Index \<Rightarrow> SyncSession list \<Rightarrow> (gostring \<times> syncHint) list \<Rightarrow> (gostring \<times> syncHint) list \<Rightarrow> duration \<Rightarrow> time \<Rightarrow> window_state \<Rightarrow>
   SyncRequest list \<times> window_state" where
  "syncChangedNexusSessions w ix ss hints known minInterval now st =
     (let policy = defaultNexusSyncPolicy (yw_lower w) (yw_env w) in
      sync_windows (sync_window w ix policy hints known minInterval now)
        (recentNexusSessions (yw_parse w) ss maxNexusHistorySessionsPerTick policy hints now) st)"

subsection \<open>One run of the loop\<close>

record loop_state =
  lp_index :: Index
  lp_catalogSignature :: gostring
  lp_displaySignature :: gostring
  lp_membership :: gostring
  lp_lastCatalogPush :: time
  lp_lastMetadataPush :: time
  lp_lastProbe :: "(gostring \<times> time) list"
  lp_hintCache :: syncHintCache
  lp_windows :: window_state
  lp_retryAt :: "time option"

definition historySyncCatalogSessions :: "Index \<Rightarrow> Profile \<Rightarrow> SyncRequest \<Rightarrow> SyncSession list" where
  "historySyncCatalogSessions ix profile r =
     (if rq_CatalogComplete r then rq_Sessions r else BuildCatalogSyncSessions profile ix)"

definition catalog_request :: "sync_world \<Rightarrow> Index \<Rightarrow> SyncRequest" where
  "catalog_request w ix =
     (let r = BuildCatalogSyncRequest (rw_version (yw_relay w)) (yw_device w) (yw_profile w) ix
      in r\<lparr>rq_FullReconcile := rq_CatalogComplete r\<rparr>)"

definition nexusSyncHints :: "sync_world \<Rightarrow> time \<Rightarrow> loop_state \<Rightarrow> (gostring \<times> syncHint) list \<times> loop_state" where
  "nexusSyncHints w now st =
     (case hints_Snapshot now (ws_pushed (lp_windows st)) of (pushed, kept) \<Rightarrow>
      case polledNexusSyncHints (yw_env w) now (yw_poll w) (lp_hintCache st) of (polled, cache) \<Rightarrow>
        (merge_hints polled pushed, st\<lparr>lp_hintCache := cache, lp_windows := (lp_windows st)\<lparr>ws_pushed := kept\<rparr>\<rparr>))"

definition probeKnownWindows :: "sync_world \<Rightarrow> gostring list \<Rightarrow> SyncRequest list \<times> (gostring \<times> syncHint) list" where
  "probeKnownWindows w ids =
     (let r = (hello_request (yw_device w) (rw_version (yw_relay w)))\<lparr>rq_KnownWindowSessionIDs := Some ids\<rparr> in
      if ids = [] then ([], [])
      else ([r], case yw_post w r of None \<Rightarrow> [] | Some res \<Rightarrow> knownWindowHintsFromSyncResponse res))"

definition catalog_pushed :: "SyncRequest \<Rightarrow> time \<Rightarrow> loop_state \<Rightarrow> loop_state" where
  "catalog_pushed r now st =
     st\<lparr>lp_catalogSignature := catalogSyncSignature r, lp_displaySignature := catalogDisplayMetadataSignature r,
        lp_membership := catalogMembershipSignature r, lp_lastCatalogPush := now,
        lp_lastMetadataPush := (if catalogDisplayMetadataSignature r \<noteq> lp_displaySignature st then now else lp_lastMetadataPush st),
        lp_retryAt := None\<rparr>"

text \<open>
  What happens to the catalog: it is pushed (\<open>None\<close> when the push fails, which ends the run), or
  a retry is scheduled, or the known windows are asked for. The result holds the requests and the
  known windows.
\<close>

definition catalog_turn ::
  "sync_world \<Rightarrow> time \<Rightarrow> SyncRequest \<Rightarrow> gostring list \<Rightarrow> (gostring \<times> syncHint) list \<Rightarrow> loop_state \<Rightarrow>
   SyncRequest list \<times> ((gostring \<times> syncHint) list option) \<times> loop_state" where
  "catalog_turn w now r ids hints st =
     (let changed = catalogSyncSignature r = [] \<or> catalogSyncSignature r \<noteq> lp_catalogSignature st;
          membership = catalogMembershipSignature r \<noteq> lp_membership st;
          display = catalogDisplayMetadataSignature r \<noteq> lp_displaySignature st;
          metaMin = catalogMetadataSyncMinInterval (yw_env w);
          delay = catalogMetadataRetryDelay changed membership display now (lp_lastMetadataPush st) metaMin in
      if shouldPushCatalogChange changed membership display now (lp_lastCatalogPush st) (lp_lastMetadataPush st)
           (catalogSyncMinInterval (yw_env w)) metaMin
      then (case yw_post w r of
              None \<Rightarrow> ([r], None, st)
            | Some res \<Rightarrow> ([r], Some (knownWindowHintsFromSyncResponse res), catalog_pushed r now st))
      else if delay > 0 then ([], Some [], st\<lparr>lp_retryAt := Some (now + delay)\<rparr>)
      else if shouldProbeKnownWindows ids hints (ws_lastHistory (lp_windows st)) (lp_lastProbe st) now (windowSyncMinInterval (yw_env w))
      then (case probeKnownWindows w ids of (rs, known) \<Rightarrow>
              (rs, Some known, st\<lparr>lp_lastProbe := fold (\<lambda>i. alist_put i now) ids (lp_lastProbe st)\<rparr>))
      else ([], Some [], st))"

definition indexStaleAfter :: duration where "indexStaleAfter = 10 * minute"

definition runSync :: "sync_world \<Rightarrow> time \<Rightarrow> loop_state \<Rightarrow> SyncRequest list \<times> loop_state" where
  "runSync w now st =
     (if \<not> ix_firstScanDone (lp_index st) then ([], st)
      else case RefreshForNexusSync (rw_disk (yw_relay w)) (yw_config w) indexStaleAfter now (lp_index st) of
        (Some _, ix) \<Rightarrow> ([], st\<lparr>lp_index := ix\<rparr>)
      | (None, ix) \<Rightarrow>
          let r0 = catalog_request w ix;
              candidates = historySyncCatalogSessions ix (yw_profile w) r0;
              policy = defaultNexusSyncPolicy (yw_lower w) (yw_env w) in
          case nexusSyncHints w now (st\<lparr>lp_index := ix\<rparr>) of (hints, st1) \<Rightarrow>
            let ids = knownWindowSessionIDsForCatalog (yw_parse w) candidates policy hints now;
                r = r0\<lparr>rq_KnownWindowSessionIDs := Some ids\<rparr> in
            case catalog_turn w now r ids hints st1 of
              (rs, None, st2) \<Rightarrow> (rs, st2)
            | (rs, Some known, st2) \<Rightarrow>
                (case syncChangedNexusSessions w ix candidates hints known (windowSyncMinInterval (yw_env w)) now (lp_windows st2) of
                   (rs2, ws) \<Rightarrow> (rs @ rs2, st2\<lparr>lp_windows := ws\<rparr>)))"

definition loop_start :: "Index \<Rightarrow> loop_state" where
  "loop_start ix =
     \<lparr>lp_index = ix, lp_catalogSignature = [], lp_displaySignature = [], lp_membership = [], lp_lastCatalogPush = 0,
      lp_lastMetadataPush = 0, lp_lastProbe = [], lp_hintCache = \<lparr>hc_updatedAt = 0, hc_hints = None\<rparr>,
      lp_windows = \<lparr>ws_lastHistory = [], ws_lastMeta = [], ws_lastPush = [], ws_pushed = []\<rparr>, lp_retryAt = None\<rparr>"

text \<open>
  A wake-up of the loop: the ticker, a change of the index, a pushed hint, or the retry timer,
  which is gone once it has fired.
\<close>

datatype loop_wake = LTick | LChanged Index | LHint gostring syncHint | LRetry

definition loop_step :: "sync_world \<Rightarrow> time \<Rightarrow> loop_wake \<Rightarrow> loop_state \<Rightarrow> SyncRequest list \<times> loop_state" where
  "loop_step w now wk st =
     (case wk of
        LTick \<Rightarrow> runSync w now st
      | LChanged ix \<Rightarrow> runSync w now (st\<lparr>lp_index := ix\<rparr>)
      | LHint sid h \<Rightarrow> runSync w now (st\<lparr>lp_windows := (lp_windows st)\<lparr>ws_pushed := hints_Add sid h now (ws_pushed (lp_windows st))\<rparr>\<rparr>)
      | LRetry \<Rightarrow> runSync w now (st\<lparr>lp_retryAt := None\<rparr>))"

end
