(* ===== verification/SyncProps.thy ===== *)
theory SyncProps
  imports SyncLoop
begin

section \<open>Properties of the sync\<close>

text \<open>
  What the requests of the sync loop are worth: paging back through a session shows every turn
  once, a catalog that asks Nexus to delete the rest is whole, its body stays below the limit, no
  wanted session is left out, and two ways in which a window goes wrong.
\<close>

subsection \<open>Paging back through a session\<close>

text \<open>A reader that asks for the window before the first turn it has, as long as there is one.\<close>

fun read_back :: "nat \<Rightarrow> 'b list \<Rightarrow> int \<Rightarrow> int \<Rightarrow> ('b list \<times> int) list" where
  "read_back 0 blocks limit before = []"
| "read_back (Suc n) blocks limit before =
     (case selectBlockWindow blocks \<lparr>wn_Limit = limit, wn_BeforeSeq = before\<rparr> of
        (page, first, _, older) \<Rightarrow> (page, first) # (if older then read_back n blocks limit first else []))"

definition page_size :: "int \<Rightarrow> int" where
  "page_size limit = (if limit \<le> 0 then 20 else min limit 100)"

lemma page_size_bounds: "1 \<le> page_size limit" "page_size limit \<le> 100"
  by (auto simp: page_size_def)

lemma window_before:
  assumes e: "1 \<le> e" "e \<le> int (length blocks)" and b: "before = e + 1 \<or> (before \<le> 0 \<and> e = int (length blocks))"
  shows "selectBlockWindow blocks \<lparr>wn_Limit = limit, wn_BeforeSeq = before\<rparr> =
    (let s = max 1 (e - page_size limit + 1) in (drop (nat (s - 1)) (take (nat e) blocks), s, e, s > 1))"
proof -
  define s where "s = max 1 (e - page_size limit + 1)"
  have s: "1 \<le> s" "s \<le> e" using page_size_bounds[of limit] e by (auto simp: s_def)
  have "take (nat (e - s + 1)) (drop (nat (s - 1)) blocks) = drop (nat (s - 1)) (take (nat e) blocks)"
    using s by (simp add: take_drop nat_add_distrib[symmetric] add.commute)
  moreover have t: "(if before > 0 \<and> before - 1 < int (length blocks) then before - 1 else int (length blocks)) = e"
    using b e by auto
  moreover have l: "(if (if limit \<le> 0 then 20 else limit) > 100 then 100 else (if limit \<le> 0 then 20 else limit)) = page_size limit"
    by (auto simp: page_size_def)
  moreover have f: "(if e - page_size limit + 1 < 1 then 1 else e - page_size limit + 1) = s"
    by (auto simp: s_def)
  moreover have "\<not> (int (length blocks) = 0 \<or> e \<le> 0)" using e by auto
  ultimately show ?thesis
    unfolding selectBlockWindow_def Let_def SessionWindow.simps t l f s_def[symmetric] by simp
qed

definition numbered :: "int \<Rightarrow> 'b list \<Rightarrow> (int \<times> 'b) list" where
  "numbered first bs = zip (map (\<lambda>i. first + int i) [0..<length bs]) bs"

lemma numbered_Nil [simp]: "numbered first [] = []"
  by (simp add: numbered_def)

lemma numbered_Cons [simp]: "numbered first (b # bs) = (first, b) # numbered (first + 1) bs"
proof -
  have "[0..<Suc (length bs)] = 0 # map Suc [0..<length bs]" by (simp add: map_Suc_upt upt_conv_Cons del: upt_Suc)
  then show ?thesis by (simp add: numbered_def comp_def algebra_simps del: upt_Suc)
qed

lemma numbered_append: "numbered first (as @ bs) = numbered first as @ numbered (first + int (length as)) bs"
  by (induction "as" arbitrary: first) (simp_all add: algebra_simps)

lemma read_back_before:
  assumes "1 \<le> e" "e \<le> int (length blocks)" "before = e + 1 \<or> (before \<le> 0 \<and> e = int (length blocks))" "nat e \<le> n"
  shows "concat (rev (map (\<lambda>(page, first). numbered first page) (read_back n blocks limit before))) = numbered 1 (take (nat e) blocks) \<and>
    list_all (\<lambda>(page, _). page \<noteq> [] \<and> int (length page) \<le> page_size limit) (read_back n blocks limit before)"
  using assms
proof (induction n arbitrary: e before)
  case (Suc n)
  define s where "s = max 1 (e - page_size limit + 1)"
  define page where "page = drop (nat (s - 1)) (take (nat e) blocks)"
  have s: "1 \<le> s" "s \<le> e" "e - s + 1 \<le> page_size limit" using page_size_bounds[of limit] Suc.prems by (auto simp: s_def)
  have w: "selectBlockWindow blocks \<lparr>wn_Limit = limit, wn_BeforeSeq = before\<rparr> = (page, s, e, s > 1)"
    using window_before[OF Suc.prems(1-3)] by (simp add: Let_def s_def page_def)
  have l: "length page = nat (e - s + 1)" using s Suc.prems by (simp add: page_def)
  have good: "page \<noteq> [] \<and> int (length page) \<le> page_size limit" using s l by auto
  have "take (nat (s - 1)) (take (nat e) blocks) = take (nat (s - 1)) blocks" using s by (simp add: min_def)
  then have "take (nat (s - 1)) blocks @ page = take (nat e) blocks" by (metis append_take_drop_id page_def)
  moreover have "1 + int (length (take (nat (s - 1)) blocks)) = s" using s Suc.prems by simp
  ultimately have split: "numbered 1 (take (nat (s - 1)) blocks) @ numbered s page = numbered 1 (take (nat e) blocks)"
    by (metis numbered_append)
  show ?case
  proof (cases "s > 1")
    case True
    then have "1 \<le> s - 1" "s - 1 \<le> int (length blocks)" "nat (s - 1) \<le> n" using s Suc.prems by auto
    with Suc.IH[of "s - 1" s] good split show ?thesis by (simp add: w)
  next
    case False
    with s have "s = 1" by simp
    with good split show ?thesis by (simp add: w)
  qed
qed simp

text \<open>The same with the requests of the relay, from the newest window on.\<close>

fun fetch_back :: "(int \<Rightarrow> gostring option \<times> SyncRequest \<times> SyncProgress list) \<Rightarrow> nat \<Rightarrow> int \<Rightarrow> SyncTurn list list" where
  "fetch_back ask 0 before = []"
| "fetch_back ask (Suc n) before =
     (case ask before of
        (None, r, _) \<Rightarrow> rq_Turns r # (case rq_Sessions r of s # _ \<Rightarrow> if yn_HasOlder s then fetch_back ask n (yn_MinSeq s) else [] | [] \<Rightarrow> [])
      | _ \<Rightarrow> [])"

definition ask_window ::
  "relay_world \<Rightarrow> Index \<Rightarrow> gostring \<Rightarrow> gostring \<Rightarrow> Profile \<Rightarrow> int \<Rightarrow> int \<Rightarrow> gostring option \<times> SyncRequest \<times> SyncProgress list" where
  "ask_window w ix device sid profile limit before =
     BuildSingleSessionWindowSyncRequestContext w (\<lambda>_. None) ix device sid profile \<lparr>wn_Limit = limit, wn_BeforeSeq = before\<rparr>"

definition turns_of :: "gostring \<Rightarrow> gostring \<Rightarrow> (int \<times> Block) list \<Rightarrow> SyncTurn list" where
  "turns_of sid agent = map (\<lambda>(seq, b). sync_turn sid agent seq b)"

lemma window_loop_all:
  "window_loop (\<lambda>_. None) prog sid agent seq k bs = (None, turns_of sid agent (numbered seq bs), map prog [Suc k..<Suc k + length bs])"
proof (induction bs arbitrary: seq k)
  case (Cons b bs)
  have "[Suc k..<Suc k + length (b # bs)] = Suc k # [Suc (Suc k)..<Suc (Suc k) + length bs]" by (simp add: upt_conv_Cons del: upt_Suc)
  then show ?case by (simp add: Cons turns_of_def del: upt_Suc)
qed (simp add: turns_of_def)

lemma extracted_agent: "extractSessionBlocks num d ref = Inr sb \<Longrightarrow> isSupportedSyncAgent (sref_Agent ref)"
  by (auto simp: extractSessionBlocks_def isSupportedSyncAgent_def split: if_splits)

lemma window_session_simps [simp]:
  "yn_HasOlder (window_session sha profile sid ref sb (first, lst, older) ts) = older"
  "yn_MinSeq (window_session sha profile sid ref sb (first, lst, older) ts) = first"
  "yn_MaxSeq (window_session sha profile sid ref sb (first, lst, older) ts) = lst"
  "yn_SessionID (window_session sha profile sid ref sb (first, lst, older) ts) = sid"
  "yn_WindowHash (window_session sha profile sid ref sb (first, lst, older) ts) = window_hash sha ts"
  by (simp_all add: window_session_def Let_def)

lemma ask_window_eq:
  assumes "ix_FindSession sid ix = Some ref" "extractSessionBlocks (rw_num w) (rw_disk w) ref = Inr sb"
    "selectBlockWindow (sb_Blocks sb) \<lparr>wn_Limit = limit, wn_BeforeSeq = before\<rparr> = (page, first, lst, older)"
    "ts = turns_of sid (sref_Agent ref) (numbered first page)"
  shows "\<exists>ps. ask_window w ix device sid profile limit before =
      (None, (hello_request device (rw_version w))\<lparr>rq_Turns := ts,
         rq_Sessions := [window_session (rw_sha w) profile sid ref sb (first, lst, older) ts]\<rparr>, ps)"
  using assms extracted_agent[OF assms(2)]
  by (simp add: ask_window_def BuildSingleSessionWindowSyncRequestContext_def Let_def window_loop_all)

lemma fetch_back_eq:
  assumes "ix_FindSession sid ix = Some ref" "extractSessionBlocks (rw_num w) (rw_disk w) ref = Inr sb"
  shows "fetch_back (ask_window w ix device sid profile limit) n before =
    map (\<lambda>(page, first). turns_of sid (sref_Agent ref) (numbered first page)) (read_back n (sb_Blocks sb) limit before)"
proof (induction n arbitrary: before)
  case (Suc n)
  obtain page first lst older where
    w: "selectBlockWindow (sb_Blocks sb) \<lparr>wn_Limit = limit, wn_BeforeSeq = before\<rparr> = (page, first, lst, older)"
    by (cases "selectBlockWindow (sb_Blocks sb) \<lparr>wn_Limit = limit, wn_BeforeSeq = before\<rparr>")
  obtain ps where "ask_window w ix device sid profile limit before =
      (None, (hello_request device (rw_version w))\<lparr>rq_Turns := turns_of sid (sref_Agent ref) (numbered first page),
         rq_Sessions := [window_session (rw_sha w) profile sid ref sb (first, lst, older) (turns_of sid (sref_Agent ref) (numbered first page))]\<rparr>, ps)"
    using ask_window_eq[OF assms w refl, of device profile] by blast
  then show ?case by (simp add: w Suc)
qed simp

text \<open>
  C9. A reader that asks for the newest window of a session and then for the window before the
  first turn it has gets every turn exactly once, numbered from 1 in the order of the session,
  after at most as many requests as there are turns; no answer has more than 100 turns.
\<close>

theorem paging_covers_session:
  assumes "ix_FindSession sid ix = Some ref" "extractSessionBlocks (rw_num w) (rw_disk w) ref = Inr sb"
    and "length (sb_Blocks sb) \<le> n"
  shows "concat (rev (fetch_back (ask_window w ix device sid profile limit) n 0)) =
      map (\<lambda>(seq, b). sync_turn sid (sref_Agent ref) seq b) (numbered 1 (sb_Blocks sb)) \<and>
    list_all (\<lambda>ts. length ts \<le> 100) (fetch_back (ask_window w ix device sid profile limit) n 0)"
proof (cases "sb_Blocks sb = []")
  case True
  then show ?thesis unfolding fetch_back_eq[OF assms(1,2)] by (cases n) (simp_all add: selectBlockWindow_def turns_of_def)
next
  case False
  then have "1 \<le> int (length (sb_Blocks sb))" by (cases "sb_Blocks sb") auto
  from read_back_before[where before = 0 and n = n and limit = limit, OF this order_refl] assms(3)
  have r: "concat (rev (map (\<lambda>(page, first). numbered first page) (read_back n (sb_Blocks sb) limit 0))) = numbered 1 (sb_Blocks sb)"
      "list_all (\<lambda>(page, _). int (length page) \<le> page_size limit) (read_back n (sb_Blocks sb) limit 0)"
    by (auto simp: list_all_iff split_beta)
  have "concat (rev (fetch_back (ask_window w ix device sid profile limit) n 0)) =
      turns_of sid (sref_Agent ref) (concat (rev (map (\<lambda>(page, first). numbered first page) (read_back n (sb_Blocks sb) limit 0))))"
    by (simp add: fetch_back_eq[OF assms(1,2)] turns_of_def map_concat rev_map comp_def case_prod_unfold)
  moreover have "list_all (\<lambda>ts. length ts \<le> 100) (fetch_back (ask_window w ix device sid profile limit) n 0)"
    using r(2) page_size_bounds(2)[of limit]
    by (fastforce simp: fetch_back_eq[OF assms(1,2)] turns_of_def list_all_iff numbered_def)
  ultimately show ?thesis unfolding r(1) by (simp add: turns_of_def)
qed

definition ex_system_line :: gostring where
  "ex_system_line = [CHR ''{'', DQ] @ ''type'' @ [DQ, CHR '':'', DQ] @ ''system'' @ [DQ, CHR ''}'']"

lemma ex_system_line: "ex_system_line = marshal (GObj [(''type'', GStr ''system'')])"
  by code_simp

lemma ex_system_record: "parse_record ex_system_line = Some (empty_record\<lparr>rec_Type := ''system'', rec_Raw := ex_system_line\<rparr>)"
proof -
  have "parse_json ex_system_line = Some (wire (GObj [(''type'', GStr ''system'')]))"
    unfolding ex_system_line by (rule parse_marshal) (simp_all add: maxNestingDepth_def)
  then show ?thesis
    by (simp add: parse_record_def unmarshal_struct_def dec_struct_def record_fields_def find_field_def str_field_def arrives_ascii)
qed

lemma ex_system_blocks: "sb_Blocks (ExtractBlocks num (Some ex_system_line)) \<noteq> []"
proof -
  have "scan_lines ex_system_line = ([ex_system_line], False)" "trimASCIISpace ex_system_line = ex_system_line"
    by (simp_all add: scan_lines_def raw_lines_def ex_system_line_def maxLine_def drop_cr_def trimASCIISpace_def isASCIISpace_def)
  then have "ParseRecords (Some ex_system_line) = [Some (empty_record\<lparr>rec_Type := ''system'', rec_Raw := ex_system_line\<rparr>)]"
    by (simp add: ParseRecords_def ex_system_record) (simp add: ex_system_line_def)
  then show ?thesis
    by (simp add: ExtractBlocks_def extract_records_def good_records_def List.map_filter_def extract_step_def isRawMetaRecord_def empty_record_def add_blocks_def Let_def)
qed
definition ex_sync_disk :: disk where
  "ex_sync_disk =
     \<lparr>dk_file = (\<lambda>_. Some \<lparr>df_size = 0, df_mod = 0, df_content = Some ex_system_line\<rparr>), dk_claude = Inl [], dk_codex = Inl [], dk_threads = [], dk_rfc3339 = (\<lambda>_. []), dk_codexTime = (\<lambda>_. None),
      dk_localTime = (\<lambda>_. None)\<rparr>"

definition ex_relay_world :: relay_world where
  "ex_relay_world = \<lparr>rw_disk = ex_sync_disk, rw_num = (\<lambda>_. None), rw_sha = (\<lambda>s. s), rw_version = ''1''\<rparr>"

definition ex_sync_index :: Index where
  "ex_sync_index = new_index\<lparr>ix_sessions := [(''s'', \<lparr>sref_Agent = ''claude-code'', sref_Cwd = ''/w'', sref_Path = ''/p'', sref_Title = []\<rparr>)]\<rparr>"

theorem paging_covers_session_witness:
  "\<exists>sb :: SessionBlocks. concat (rev (fetch_back (ask_window ex_relay_world ex_sync_index ''d'' ''s'' \<lparr>pf_ClaudeAlias = []\<rparr> 5) (length (sb_Blocks sb)) 0)) =
     map (\<lambda>(seq, b). sync_turn ''s'' ''claude-code'' seq b) (numbered 1 (sb_Blocks sb))"
proof -
  define ref where "ref = \<lparr>sref_Agent = ''claude-code'', sref_Cwd = ''/w'', sref_Path = ''/p'', sref_Title = []\<rparr>"
  have f: "ix_FindSession ''s'' ex_sync_index = Some ref" by (simp add: ix_FindSession_def ex_sync_index_def alist_get_def ref_def)
  have "extractSessionBlocks (rw_num ex_relay_world) (rw_disk ex_relay_world) ref =
      Inr (ExtractBlocks (rw_num ex_relay_world) (open_file (rw_disk ex_relay_world) (sref_Path ref)))"
    by (simp add: extractSessionBlocks_def ref_def)
  from paging_covers_session[OF f this order_refl, of "''d''" "\<lparr>pf_ClaudeAlias = []\<rparr>" 5]
  show ?thesis
    by - (rule exI[of _ "ExtractBlocks (rw_num ex_relay_world) (open_file (rw_disk ex_relay_world) (sref_Path ref))"], simp add: ref_def)
qed

subsection \<open>A catalog that asks for deletions is whole\<close>

lemma emit_deleted_whole:
  "emit_deleted n ds = (out, m, True) \<Longrightarrow> out = filter (\<lambda>d. TrimSpace d \<noteq> []) ds"
  by (induction n ds arbitrary: out m rule: emit_deleted.induct) (auto simp: Let_def split: if_splits prod.splits)

lemma emit_sessions_whole: "emit_sessions first n ss = (out, m, True) \<Longrightarrow> out = ss"
  by (induction first n ss arbitrary: out m rule: emit_sessions.induct) (auto simp: Let_def split: if_splits prod.splits)

lemma catalog_request_whole:
  assumes "rq_FullReconcile (catalog_request w ix)"
  shows "rq_Sessions (catalog_request w ix) = BuildCatalogSyncSessions (yw_profile w) ix"
    and "rq_DeletedSessions (catalog_request w ix) = filter (\<lambda>d. TrimSpace d \<noteq> []) (map ds_SessionID (ix_deleted ix))"
  using assms
  by (auto simp: catalog_request_def BuildCatalogSyncRequest_def Let_def split: prod.splits
      dest: emit_deleted_whole emit_sessions_whole)

lemma trim_reconcile [simp]: "rq_FullReconcile (trimKnownUploadedTurns sha r known) = rq_FullReconcile r"
  by (simp add: trimKnownUploadedTurns_def Let_def split: list.splits)

lemma upload_posts: "r \<in> set (fst (upload_window w hh hints known now sid meta r0 st)) \<Longrightarrow> rq_FullReconcile r = rq_FullReconcile r0"
  by (auto simp: upload_window_def Let_def split: if_splits option.splits)

lemma single_no_reconcile:
  "\<not> rq_FullReconcile (fst (snd (BuildSingleSessionWindowSyncRequestContext w ended ix device sid profile win)))"
  by (auto simp: BuildSingleSessionWindowSyncRequestContext_def Let_def hello_request_def split: option.splits sum.splits prod.splits)

lemma window_no_reconcile: "r \<in> set (fst (sync_window w ix policy hints known mi now s st)) \<Longrightarrow> \<not> rq_FullReconcile r"
  using single_no_reconcile[of "yw_relay w" "\<lambda>_. None" ix "yw_device w" "yn_SessionID s" "yw_profile w"
      "\<lparr>wn_Limit = window_limit policy hints (yn_SessionID s), wn_BeforeSeq = 0\<rparr>"]
  by (auto simp: sync_window_def Let_def split: if_splits option.splits prod.splits dest: upload_posts)

lemma windows_posts:
  "(\<And>s st r. r \<in> set (fst (one s st)) \<Longrightarrow> P r) \<Longrightarrow> r \<in> set (fst (sync_windows one ss st)) \<Longrightarrow> P r"
proof (induction ss arbitrary: st)
  case (Cons s ss)
  then show ?case by (cases "one s st"; cases "sync_windows one ss (snd (one s st))") (auto, metis fst_conv, metis fst_conv)
qed simp

lemma probe_no_reconcile: "r \<in> set (fst (probeKnownWindows w ids)) \<Longrightarrow> \<not> rq_FullReconcile r"
  by (auto simp: probeKnownWindows_def Let_def hello_request_def split: if_splits)

lemma catalog_turn_posts:
  "r' \<in> set (fst (catalog_turn w now r ids hints st)) \<Longrightarrow> r' = r \<or> \<not> rq_FullReconcile r'"
  by (auto simp: catalog_turn_def Let_def split: if_splits option.splits prod.splits dest: probe_no_reconcile)
     (metis fst_conv probe_no_reconcile)

lemma catalog_turn_result:
  "catalog_turn w now r ids hints st = (rs, k, st') \<Longrightarrow> r' \<in> set rs \<Longrightarrow> rq_FullReconcile r' \<Longrightarrow> r' = r"
  using catalog_turn_posts[of r' w now r ids hints st] by auto

lemma changed_sessions_result:
  assumes "syncChangedNexusSessions w ix ss hints known mi now st = (rs, st')" "r \<in> set rs"
  shows "\<not> rq_FullReconcile r"
proof -
  have "r \<in> set (fst (syncChangedNexusSessions w ix ss hints known mi now st))" using assms by simp
  then show ?thesis unfolding syncChangedNexusSessions_def Let_def
    by (rule windows_posts[where P = "\<lambda>r. \<not> rq_FullReconcile r", rotated]) (rule window_no_reconcile)
qed

lemma sync_sessions_all:
  assumes "p \<in> set (ix_projects ix)" "isSupportedSyncAgent (apj_Agent p)" "s \<in> set (apj_Sessions p)"
  shows "asn_SessionID s \<in> yn_SessionID ` set (BuildCatalogSyncSessions profile ix)"
proof -
  have "(apj_Agent p, apj_Cwd p, s) \<in> set (sort_entries (catalog_entries ix))"
    using assms by (auto simp: sort_entries_def catalog_entries_def)
  moreover have "yn_SessionID (sync_session profile (apj_Agent p, apj_Cwd p, s)) = asn_SessionID s"
    by (simp add: sync_session_def Let_def)
  ultimately show ?thesis unfolding BuildCatalogSyncSessions_def by (metis image_eqI image_set)
qed

text \<open>
  C3. A request that asks Nexus to delete every session it does not name is sent only after the
  first scan, and it names every session of the index whose agent is synced, and every tombstone.
\<close>

theorem full_reconcile_is_whole:
  assumes "r \<in> set (fst (runSync w now st))" "rq_FullReconcile r"
  shows "ix_firstScanDone (lp_index st) \<and>
    (\<exists>ix. RefreshForNexusSync (rw_disk (yw_relay w)) (yw_config w) indexStaleAfter now (lp_index st) = (None, ix) \<and>
      (\<forall>p \<in> set (ix_projects ix). isSupportedSyncAgent (apj_Agent p) \<longrightarrow>
         asn_SessionID ` set (apj_Sessions p) \<subseteq> yn_SessionID ` set (rq_Sessions r)) \<and>
      (\<forall>d \<in> set (ix_deleted ix). TrimSpace (ds_SessionID d) \<noteq> [] \<longrightarrow> ds_SessionID d \<in> set (rq_DeletedSessions r)))"
proof -
  have first: "ix_firstScanDone (lp_index st)" using assms(1) by (auto simp: runSync_def split: if_splits)
  obtain e ix where ref: "RefreshForNexusSync (rw_disk (yw_relay w)) (yw_config w) indexStaleAfter now (lp_index st) = (e, ix)"
    by fastforce
  have e: "e = None" using assms(1) first by (cases e) (auto simp: runSync_def ref)
  define ids where "ids = (case nexusSyncHints w now (st\<lparr>lp_index := ix\<rparr>) of (hints, _) \<Rightarrow>
      knownWindowSessionIDsForCatalog (yw_parse w) (historySyncCatalogSessions ix (yw_profile w) (catalog_request w ix))
        (defaultNexusSyncPolicy (yw_lower w) (yw_env w)) hints now)"
  have "r = (catalog_request w ix)\<lparr>rq_KnownWindowSessionIDs := Some ids\<rparr>"
    using assms first ref e
    by (auto simp: runSync_def ids_def Let_def split: prod.splits option.splits
        dest: changed_sessions_result catalog_turn_result)
  then have "rq_FullReconcile (catalog_request w ix)" "rq_Sessions r = rq_Sessions (catalog_request w ix)"
    "rq_DeletedSessions r = rq_DeletedSessions (catalog_request w ix)" using assms(2) by simp_all
  then show ?thesis using first ref e catalog_request_whole[of w ix] sync_sessions_all[of _ ix _ "yw_profile w"] by auto
qed

definition ex_sync_world :: sync_world where
  "ex_sync_world =
     \<lparr>yw_relay = ex_relay_world, yw_env = (\<lambda>_. []), yw_lower = (\<lambda>r. r), yw_parse = (\<lambda>_. None), yw_post = (\<lambda>_. None), yw_poll = None,
      yw_device = ''d'', yw_profile = \<lparr>pf_ClaudeAlias = []\<rparr>,
      yw_config = \<lparr>ic_ClaudeHome = [], ic_CodexHome = [], ic_RefreshInterval = 0\<rparr>\<rparr>"

definition ex_cat_session :: CatSession where
  "ex_cat_session =
     \<lparr>asn_SessionID = ''s'', asn_Title = [], asn_Timestamp = ''1'', asn_TurnCount = 3, asn_Snippet = ''t'', asn_FirstMessage = [],
      asn_FirstMessageForTitle = []\<rparr>"

definition ex_scanned :: Index where
  "ex_scanned =
     new_index\<lparr>ix_projects := [\<lparr>apj_Agent = ''codex'', apj_Cwd = ''/w'', apj_Sessions = [ex_cat_session]\<rparr>],
       ix_lastScan := 5, ix_firstScanDone := True\<rparr>"

lemma Join_nonempty: "v \<noteq> [] \<Longrightarrow> Join (v # vs) sep \<noteq> []"
  by (cases vs) simp_all

lemma catalog_signature_nonempty: "catalogSyncSignature r \<noteq> []"
  by (simp add: catalogSyncSignature_def Let_def Join_nonempty)

text \<open>The first run after the first scan always pushes the catalog.\<close>

lemma first_run_pushes:
  assumes "ix_firstScanDone ix0" "RefreshForNexusSync (rw_disk (yw_relay w)) (yw_config w) indexStaleAfter now ix0 = (None, ix)"
  shows "\<exists>ids. (catalog_request w ix)\<lparr>rq_KnownWindowSessionIDs := Some ids\<rparr> \<in> set (fst (runSync w now (loop_start ix0)))"
proof -
  obtain hints st1 where h: "nexusSyncHints w now (loop_start ix0\<lparr>lp_index := ix\<rparr>) = (hints, st1)" by fastforce
  then have s: "lp_catalogSignature st1 = []" "lp_lastCatalogPush st1 = 0"
    by (auto simp: nexusSyncHints_def loop_start_def split: prod.splits)
  define ids where "ids = knownWindowSessionIDsForCatalog (yw_parse w) (historySyncCatalogSessions ix (yw_profile w) (catalog_request w ix))
      (defaultNexusSyncPolicy (yw_lower w) (yw_env w)) hints now"
  define r where "r = (catalog_request w ix)\<lparr>rq_KnownWindowSessionIDs := Some ids\<rparr>"
  obtain k st2 where "catalog_turn w now r ids hints st1 = ([r], k, st2)"
    using catalog_signature_nonempty[of r] s
    by (cases "yw_post w r") (simp_all add: catalog_turn_def Let_def shouldPushCatalogChange_def shouldPushCatalog_def)
  with assms h have "r \<in> set (fst (runSync w now (loop_start ix0)))"
    by (cases k) (simp_all add: runSync_def loop_start_def r_def[symmetric] ids_def[symmetric] Let_def split: prod.splits)
  then show ?thesis unfolding r_def by blast
qed

lemma ex_catalog_complete: "rq_FullReconcile (catalog_request ex_sync_world ex_scanned)"
  by (simp add: catalog_request_def BuildCatalogSyncRequest_def BuildCatalogSyncSessions_def sort_entries_def catalog_entries_def
      ex_scanned_def new_index_def isSupportedSyncAgent_def Let_def)

lemma ex_catalog_posted: "\<exists>r \<in> set (fst (runSync ex_sync_world 10 (loop_start ex_scanned))). rq_FullReconcile r"
proof -
  have "RefreshForNexusSync (rw_disk (yw_relay ex_sync_world)) (yw_config ex_sync_world) indexStaleAfter 10 ex_scanned = (None, ex_scanned)"
    by (simp add: RefreshForNexusSync_def RefreshIfStale_def fresh_scan_def indexStaleAfter_def ex_scanned_def new_index_def)
  then obtain ids where "(catalog_request ex_sync_world ex_scanned)\<lparr>rq_KnownWindowSessionIDs := Some ids\<rparr> \<in>
      set (fst (runSync ex_sync_world 10 (loop_start ex_scanned)))"
    using first_run_pushes[of ex_scanned ex_sync_world 10 ex_scanned] by (auto simp: ex_scanned_def)
  moreover have "rq_FullReconcile ((catalog_request ex_sync_world ex_scanned)\<lparr>rq_KnownWindowSessionIDs := Some ids\<rparr>)"
    using ex_catalog_complete by simp
  ultimately show ?thesis by blast
qed

theorem full_reconcile_is_whole_witness:
  "\<exists>r \<in> set (fst (runSync ex_sync_world 10 (loop_start ex_scanned))). rq_FullReconcile r \<and>
     (\<exists>ix. RefreshForNexusSync (rw_disk (yw_relay ex_sync_world)) (yw_config ex_sync_world) indexStaleAfter 10 ex_scanned = (None, ix) \<and>
       (\<forall>p \<in> set (ix_projects ix). isSupportedSyncAgent (apj_Agent p) \<longrightarrow>
          asn_SessionID ` set (apj_Sessions p) \<subseteq> yn_SessionID ` set (rq_Sessions r)))"
proof -
  obtain r where r: "r \<in> set (fst (runSync ex_sync_world 10 (loop_start ex_scanned)))" "rq_FullReconcile r"
    using ex_catalog_posted by blast
  have "lp_index (loop_start ex_scanned) = ex_scanned" by (simp add: loop_start_def)
  with full_reconcile_is_whole[OF r] r show ?thesis by metis
qed

subsection \<open>The body of a catalog request\<close>

definition joined_length :: "gostring list \<Rightarrow> nat" where
  "joined_length vs = sum_list (map (\<lambda>v. length v + 1) vs)"

lemma length_Join_comma: "vs \<noteq> [] \<Longrightarrow> length (Join vs [c]) + 1 = joined_length vs"
proof (induction vs)
  case (Cons v vs)
  then show ?case by (cases vs) (simp_all add: joined_length_def)
qed simp

lemma length_marshal_array: "vs \<noteq> [] \<Longrightarrow> int (length (marshal (GArr vs))) = 1 + sum_list (map approxJSONLen vs)"
proof -
  assume "vs \<noteq> []"
  then have "length (Join (map marshal vs) '','') + 1 = sum_list (map (\<lambda>v. length (marshal v) + 1) vs)"
    using length_Join_comma[of "map marshal vs" "CHR '',''"] by (simp add: joined_length_def comp_def)
  moreover have "int (sum_list (map (\<lambda>v. length (marshal v) + 1) vs)) = sum_list (map approxJSONLen vs)"
    by (induction vs) (simp_all add: approxJSONLen_def)
  ultimately show ?thesis by simp
qed

lemma emit_deleted_length:
  "emit_deleted n ds = (out, m, whole) \<Longrightarrow>
   m = n + sum_list (map (\<lambda>d. approxJSONLen (GStr d)) out) \<and> (n \<le> catalogSyncMaxBytes \<longrightarrow> m \<le> catalogSyncMaxBytes)"
  by (induction n ds arbitrary: out m whole rule: emit_deleted.induct) (fastforce simp: Let_def split: if_splits prod.splits)+

lemma emit_sessions_length:
  "emit_sessions first n ss = (out, m, whole) \<Longrightarrow>
   m = n + sum_list (map (\<lambda>s. approxJSONLen (session_json s)) out) \<and>
   (n \<le> catalogSyncMaxBytes \<longrightarrow> first \<longrightarrow> ss \<noteq> [] \<longrightarrow> n + approxJSONLen (session_json (hd ss)) \<le> catalogSyncMaxBytes \<longrightarrow> m \<le> catalogSyncMaxBytes) \<and>
   (n \<le> catalogSyncMaxBytes \<longrightarrow> \<not> first \<longrightarrow> m \<le> catalogSyncMaxBytes)"
  by (induction first n ss arbitrary: out m whole rule: emit_sessions.induct) (fastforce simp: Let_def split: if_splits prod.splits)+

definition emitted_bytes :: "SyncRequest \<Rightarrow> int" where
  "emitted_bytes r = sum_list (map (\<lambda>d. approxJSONLen (GStr d)) (rq_DeletedSessions r)) +
     sum_list (map (\<lambda>s. approxJSONLen (session_json s)) (rq_Sessions r))"

lemma emit_sessions_hd: "emit_sessions True n ss = (out, m, whole) \<Longrightarrow> hd out = hd ss \<or> ss = []"
  by (cases ss) (auto simp: Let_def split: prod.splits)

lemma catalog_lengths:
  assumes "r = BuildCatalogSyncRequest version device profile ix"
    and "case rq_Sessions r of [] \<Rightarrow> True | s # _ \<Rightarrow>
      catalogSyncBaseOverheadBytes + emitted_bytes (r\<lparr>rq_Sessions := [s]\<rparr>) \<le> catalogSyncMaxBytes"
  shows "catalogSyncBaseOverheadBytes + emitted_bytes r \<le> catalogSyncMaxBytes"
proof -
  obtain del n w1 where d: "emit_deleted catalogSyncBaseOverheadBytes (map ds_SessionID (ix_deleted ix)) = (del, n, w1)" by (metis prod_cases3)
  obtain ss m w2 where s: "emit_sessions True n (BuildCatalogSyncSessions profile ix) = (ss, m, w2)" by (metis prod_cases3)
  have r: "rq_DeletedSessions r = del" "rq_Sessions r = ss" using assms(1) by (simp_all add: BuildCatalogSyncRequest_def d s)
  have base: "catalogSyncBaseOverheadBytes \<le> catalogSyncMaxBytes" by (simp add: catalogSyncBaseOverheadBytes_def catalogSyncMaxBytes_def)
  note nd = emit_deleted_length[OF d] and ns = emit_sessions_length[OF s]
  show ?thesis
  proof (cases ss)
    case Nil
    then show ?thesis using nd base by (simp add: r emitted_bytes_def)
  next
    case (Cons t ts)
    then have "BuildCatalogSyncSessions profile ix \<noteq> []" using s by (auto split: prod.splits)
    moreover have "t = hd (BuildCatalogSyncSessions profile ix)" using emit_sessions_hd[OF s] Cons calculation by simp
    ultimately show ?thesis using assms(2) Cons nd ns base by (simp add: r emitted_bytes_def)
  qed
qed

lemma Join_member_length:
  "vs \<noteq> [] \<Longrightarrow> int (length (Join vs '','')) + 1 = sum_list (map (\<lambda>v. int (length v) + 1) vs)"
proof -
  assume "vs \<noteq> []"
  then have "length (Join vs '','') + 1 = joined_length vs" by (rule length_Join_comma)
  moreover have "int (joined_length vs) = sum_list (map (\<lambda>v. int (length v) + 1) vs)"
    unfolding joined_length_def by (induction vs) simp_all
  ultimately show ?thesis by linarith
qed

text \<open>The member names of the two lists, with quotes, colon and comma, and the brackets.\<close>

lemma quoted_name: "length (quote_json ''sessions'') = 10" "length (quote_json ''deleted_sessions'') = 18"
  by code_simp+

definition member_length :: "gostring \<times> gval \<Rightarrow> int" where
  "member_length kv = int (length (quote_json (fst kv))) + 1 + int (length (marshal (snd kv))) + 1"

lemma object_length: "ms \<noteq> [] \<Longrightarrow> int (length (marshal (GObj ms))) = 1 + sum_list (map member_length ms)"
  using Join_member_length[of "map (\<lambda>(k, v). quote_json k @ '':'' @ marshal v) ms"]
  by (simp add: comp_def case_prod_unfold member_length_def[abs_def] algebra_simps)

lemma empty_lists: "length (marshal (slice_json f [])) = 4" "omit_slice k f [] = []"
  by (simp_all add: slice_json_def omit_slice_def)

definition body :: "SyncRequest \<Rightarrow> gostring" where
  "body r = marshal (sync_request_json r)"

lemma body_length:
  "int (length (body r)) \<le> int (length (body (r\<lparr>rq_Sessions := [], rq_DeletedSessions := []\<rparr>))) + 21 + emitted_bytes r"
proof -
  have s: "int (length (marshal (slice_json session_json ss))) \<le> 4 + sum_list (map (\<lambda>s. approxJSONLen (session_json s)) ss)" for ss
    using length_marshal_array[of "map session_json ss"] by (cases "ss = []") (simp_all add: slice_json_def comp_def)
  have d: "sum_list (map member_length (omit_slice ''deleted_sessions'' GStr ds)) \<le>
      21 + sum_list (map (\<lambda>d. approxJSONLen (GStr d)) ds)" for ds
    using length_marshal_array[of "map GStr ds"] quoted_name by (cases "ds = []") (simp_all add: omit_slice_def member_length_def comp_def)
  show ?thesis
    using s[of "rq_Sessions r"] d[of "rq_DeletedSessions r"]
    by (simp add: body_def sync_request_json_def object_length member_length_def emitted_bytes_def empty_lists del: marshal.simps)
qed

text \<open>
  C40. The body of a catalog request stays within the limit of 900000 bytes whatever the number
  of sessions and tombstones, provided that the rest of the body fits into the overhead that is
  set aside for it and that the newest session, which is always sent, fits next to the tombstones.
\<close>

theorem catalog_body_within_limit:
  assumes "r = BuildCatalogSyncRequest version device profile ix"
    and "int (length (body (r\<lparr>rq_Sessions := [], rq_DeletedSessions := []\<rparr>))) + 21 \<le> catalogSyncBaseOverheadBytes"
    and "case rq_Sessions r of [] \<Rightarrow> True | s # _ \<Rightarrow>
      catalogSyncBaseOverheadBytes + emitted_bytes (r\<lparr>rq_Sessions := [s]\<rparr>) \<le> catalogSyncMaxBytes"
  shows "int (length (body r)) \<le> 900000"
  using catalog_lengths[OF assms(1,3)] body_length[of r] assms(2) by (simp add: catalogSyncMaxBytes_def)

theorem catalog_body_within_limit_witness:
  "int (length (body (BuildCatalogSyncRequest ''v'' ''d'' \<lparr>pf_ClaudeAlias = []\<rparr> new_index))) \<le> 900000"
proof -
  have r: "BuildCatalogSyncRequest ''v'' ''d'' \<lparr>pf_ClaudeAlias = []\<rparr> new_index =
      (hello_request ''d'' ''v'')\<lparr>rq_DeletedSessions := [], rq_Sessions := [], rq_CatalogComplete := True\<rparr>"
    by (simp add: BuildCatalogSyncRequest_def BuildCatalogSyncSessions_def sort_entries_def catalog_entries_def new_index_def)
  have "length (body (hello_request ''d'' ''v'')) < 100" by code_simp
  then show ?thesis
    by (intro catalog_body_within_limit[OF refl]) (simp_all add: r body_def sync_request_json_def hello_request_def catalogSyncBaseOverheadBytes_def)
qed

subsection \<open>No wanted session is left out\<close>

lemma takeWhile_sorted: "sorted (map f (rev vs)) \<Longrightarrow> takeWhile f vs = filter f vs" for f :: "'a \<Rightarrow> bool"
proof (induction vs)
  case (Cons v vs)
  show ?case
  proof (cases "f v")
    case True
    with Cons show ?thesis by (simp add: sorted_wrt_append)
  next
    case False
    with Cons have "\<forall>w \<in> set vs. \<not> f w" by (auto simp: sorted_wrt_append)
    with False show ?thesis by simp
  qed
qed simp

text \<open>
  Every session that the user has open (there is a hint for it) or that was active in the
  last ten minutes is among the sessions of the run, however many they are; beyond those, a run
  takes at most eight sessions.
\<close>

theorem wanted_sessions_synced:
  assumes "s \<in> set ss" "yn_SessionID s \<noteq> []" "sessionSyncPriority parse s hints now"
  shows "s \<in> set (recentNexusSessions parse ss mx policy hints now) \<and>
    (mx > 0 \<longrightarrow> length (recentNexusSessions parse ss mx policy hints now) \<le>
       max mx (length (filter (\<lambda>s. yn_SessionID s \<noteq> [] \<and> sessionSyncPriority parse s hints now) ss)))"
proof -
  define f where "f = (\<lambda>s. sessionSyncPriority parse s hints now)"
  define cs where "cs = sort_candidates f (filter (\<lambda>s. yn_SessionID s \<noteq> [] \<and>
      (f s \<or> (np_ProactiveHistorySync policy \<and> sessionWithinSyncWindow parse s (syncWindowCutoff now (np_SyncWindowDays policy))))) ss)"
  have r: "recentNexusSessions parse ss mx policy hints now =
      (if mx > 0 \<and> length cs > mx then take (max mx (length (takeWhile f cs))) cs else cs)"
    by (simp add: recentNexusSessions_def Let_def f_def[symmetric] cs_def[symmetric] max_def)
  have "sorted (map f (rev cs))" by (simp add: cs_def sort_candidates_def)
  then have w: "takeWhile f cs = filter f cs" by (rule takeWhile_sorted)
  have "s \<in> set cs" using assms by (simp add: cs_def sort_candidates_def f_def)
  then have "s \<in> set (takeWhile f cs)" unfolding w using assms(3) by (simp add: f_def)
  then have "s \<in> set (take (length (takeWhile f cs)) cs)" by (simp add: takeWhile_eq_take[symmetric])
  then have m: "s \<in> set (take (max mx (length (takeWhile f cs))) cs)" by (meson max.cobounded2 set_take_subset_set_take subsetD)
  have "filter f (filter (\<lambda>s. yn_SessionID s \<noteq> [] \<and> (f s \<or> X s)) ss) = filter (\<lambda>s. yn_SessionID s \<noteq> [] \<and> f s) ss" for X
    by (induction ss) auto
  then have "length (filter f cs) = length (filter (\<lambda>s. yn_SessionID s \<noteq> [] \<and> f s) ss)"
    by (simp add: cs_def sort_candidates_def filter_sort rev_filter[symmetric] del: filter_filter)
  then show ?thesis using m[unfolded w] \<open>s \<in> set cs\<close> unfolding r w unfolding f_def by auto
qed

theorem wanted_sessions_synced_witness:
  "let s = sync_session \<lparr>pf_ClaudeAlias = []\<rparr> (''codex'', ''/w'', ex_cat_session)
   in s \<in> set (recentNexusSessions (\<lambda>_. None) [s] 8 (defaultNexusSyncPolicy (\<lambda>r. r) (\<lambda>_. [])) [(''s'', no_hint)] 10)"
proof -
  define s where "s = sync_session \<lparr>pf_ClaudeAlias = []\<rparr> (''codex'', ''/w'', ex_cat_session)"
  have "yn_SessionID s = ''s''" by (simp add: s_def sync_session_def ex_cat_session_def Let_def)
  then have "yn_SessionID s \<noteq> []" "sessionSyncPriority (\<lambda>_. None) s [(''s'', no_hint)] 10"
    by (simp_all add: sessionSyncPriority_def alist_get_def)
  from wanted_sessions_synced[OF _ this, of "[s]"] show ?thesis by (simp add: s_def[symmetric])
qed

subsection \<open>A change that is held back is pushed later\<close>

text \<open>
  When a run holds back a change of titles because the last such push is too recent, it sets
  a timer that fires in the future, at the latest one interval after that push; when it fires and
  the catalog is still the same, it is pushed, whatever happened to the hints in between.
\<close>

theorem held_back_titles_pushed:
  assumes "catalog_turn w now r ids hints st = (rs, k, st')" "lp_retryAt st' = Some t" "lp_retryAt st \<noteq> Some t"
    and "lp_catalogSignature st2 = lp_catalogSignature st'" "lp_membership st2 = lp_membership st'"
    and "lp_displaySignature st2 = lp_displaySignature st'" "lp_lastMetadataPush st2 = lp_lastMetadataPush st'"
  shows "now < t \<and> t = lp_lastMetadataPush st + catalogMetadataSyncMinInterval (yw_env w) \<and>
    fst (catalog_turn w t r ids2 hints2 st2) = [r]"
proof -
  define changed where "changed \<longleftrightarrow> catalogSyncSignature r = [] \<or> catalogSyncSignature r \<noteq> lp_catalogSignature st"
  define membership where "membership \<longleftrightarrow> catalogMembershipSignature r \<noteq> lp_membership st"
  define display where "display \<longleftrightarrow> catalogDisplayMetadataSignature r \<noteq> lp_displaySignature st"
  define m where "m = catalogMetadataSyncMinInterval (yw_env w)"
  define delay where "delay = catalogMetadataRetryDelay changed membership display now (lp_lastMetadataPush st) m"
  note parts = changed_def[symmetric] membership_def[symmetric] display_def[symmetric] m_def[symmetric] delay_def[symmetric]
  have r: "delay > 0" "st' = st\<lparr>lp_retryAt := Some (now + delay)\<rparr>" "t = now + delay"
    using assms(1-3) unfolding catalog_turn_def Let_def parts
    by (auto simp: catalog_pushed_def split: if_splits option.splits prod.splits)
  then have d: "changed" "display" "delay = m - (now - lp_lastMetadataPush st)"
    unfolding delay_def catalogMetadataRetryDelay_def Let_def by (auto split: if_splits)
  have "t - lp_lastMetadataPush st2 \<ge> m" using r d assms(7) by simp
  then have "shouldPushCatalogChange changed membership display t (lp_lastCatalogPush st2) (lp_lastMetadataPush st2)
      (catalogSyncMinInterval (yw_env w)) m"
    using d by (simp add: shouldPushCatalogChange_def shouldPushCatalog_def)
  then have "fst (catalog_turn w t r ids2 hints2 st2) = [r]"
    using assms(4-6) r(2) unfolding catalog_turn_def Let_def by (simp add: parts split: option.splits)
  then show ?thesis using r d by (simp add: m_def)
qed

definition ex_held_back :: loop_state where
  "ex_held_back =
     (loop_start ex_scanned)\<lparr>lp_catalogSignature := ''x'', lp_displaySignature := ''x'', lp_lastCatalogPush := 10, lp_lastMetadataPush := 10\<rparr>"

lemma env_unset [simp]: "envDuration (\<lambda>_. []) name fallback mn mx = fallback" "envInt (\<lambda>_. []) name n a b = n"
  by (simp_all add: envDuration_def envInt_def)

theorem held_back_titles_pushed_witness:
  "fst (catalog_turn ex_sync_world (10 + 2 * second) (hello_request ''d'' ''v'') [] [] ex_held_back) = [hello_request ''d'' ''v'']"
proof -
  define st where "st = ex_held_back\<lparr>lp_retryAt := Some (10 + 2 * second)\<rparr>"
  have "catalogSyncSignature (hello_request ''d'' ''v'') = ''full=false''" "catalogDisplayMetadataSignature (hello_request ''d'' ''v'') = []"
    "catalogMembershipSignature (hello_request ''d'' ''v'') = []"
    by (simp_all add: catalogSyncSignature_def catalogDisplayMetadataSignature_def catalogMembershipSignature_def hello_request_def
        Let_def bool_text_def)
  then have c: "catalog_turn ex_sync_world 11 (hello_request ''d'' ''v'') [] [] ex_held_back = ([], Some [], st)"
    by (simp add: catalog_turn_def Let_def st_def ex_held_back_def loop_start_def ex_sync_world_def catalogSyncMinInterval_def
        catalogMetadataSyncMinInterval_def shouldPushCatalogChange_def shouldPushCatalog_def catalogMetadataRetryDelay_def)
  from held_back_titles_pushed[OF c, of "10 + 2 * second" ex_held_back "[]" "[]"]
  show ?thesis by (simp add: st_def ex_held_back_def loop_start_def)
qed

subsection \<open>A changed turn below what Nexus has\<close>

lemma trim_keeps_newer:
  assumes "rq_Sessions r = m # ms" "yn_MinSeq m > 0" "yn_MinSeq m \<le> hi_SyncedMaxSeq known" "yn_MaxSeq m > 0"
    "t1 \<in> set (rq_Turns r)" "tn_Seq t1 > hi_SyncedMaxSeq known" "t0 \<in> set (rq_Turns r)" "tn_Seq t0 \<le> hi_SyncedMaxSeq known"
  shows "rq_Turns (trimKnownUploadedTurns sha r known) = filter (\<lambda>t. tn_Seq t > hi_SyncedMaxSeq known) (rq_Turns r)"
proof -
  have n: "filter (\<lambda>t. tn_Seq t > hi_SyncedMaxSeq known) (rq_Turns r) \<noteq> []" using assms(5,6) by (auto simp: filter_empty_conv)
  have l: "length (filter (\<lambda>t. tn_Seq t > hi_SyncedMaxSeq known) (rq_Turns r)) \<noteq> length (rq_Turns r)"
    using assms(7,8) length_filter_less[of t0 "rq_Turns r" "\<lambda>t. tn_Seq t > hi_SyncedMaxSeq known"] by auto
  show ?thesis using assms n l by (auto simp: trimKnownUploadedTurns_def Let_def)
qed

lemma settled_history: "string_at (ws_lastHistory (settled sid sig meta now st)) sid = sig"
  by (simp add: settled_def string_at_def)

lemma update_pushed_history [simp]: "ws_lastHistory (update_pushed sid r now st) = ws_lastHistory st"
  by (simp add: update_pushed_def split: list.splits)


definition ex_turn :: "int \<Rightarrow> SyncTurn" where
  "ex_turn i = \<lparr>tn_SessionID = ''s'', tn_Seq = i, tn_Agent = ''codex'', tn_Kind = ''tool_call'', tn_Timestamp = [], tn_Payload = ''{}''\<rparr>"

definition ex_window :: SyncRequest where
  "ex_window =
     (hello_request ''d'' ''v'')\<lparr>rq_Turns := [ex_turn 1, ex_turn 2],
       rq_Sessions := [(sync_session \<lparr>pf_ClaudeAlias = []\<rparr> (''codex'', ''/w'', ex_cat_session))\<lparr>yn_MinSeq := 1, yn_MaxSeq := 2, yn_WindowHash := ''h''\<rparr>]\<rparr>"

definition ex_answering :: sync_world where
  "ex_answering = ex_sync_world\<lparr>yw_post := \<lambda>_. Some \<lparr>sr_SessionCount = 1, sr_TurnCount = 1, sr_ReceivedTurnCount = 1, sr_KnownWindows = []\<rparr>\<rparr>"


subsection \<open>An opened session is sent again and again\<close>

text \<open>
  The runs at the given times, as far as one session is concerned, when nothing else is known of
  what Nexus has: the catalog does not change, and a hint that carries a window hash keeps the loop
  from asking.
\<close>

fun quiet_runs :: "sync_world \<Rightarrow> Index \<Rightarrow> nexusSyncPolicy \<Rightarrow> duration \<Rightarrow> SyncSession \<Rightarrow> time list \<Rightarrow> window_state \<Rightarrow> SyncRequest list list" where
  "quiet_runs w ix policy mi s [] st = []"
| "quiet_runs w ix policy mi s (t # ts) st =
     (case hints_Snapshot t (ws_pushed st) of (hints, kept) \<Rightarrow>
      case sync_window w ix policy hints [] mi t s (st\<lparr>ws_pushed := kept\<rparr>) of (rs, st') \<Rightarrow> rs # quiet_runs w ix policy mi s ts st')"

lemma merge_steps_keep [simp]:
  "hi_Reason (merge_total m h) = hi_Reason h" "hi_WindowHash (merge_total m h) = hi_WindowHash h" "hi_PreferredMin (merge_total m h) = hi_PreferredMin h"
  "hi_Reason (merge_min m h) = hi_Reason h" "hi_WindowHash (merge_min m h) = hi_WindowHash h" "hi_PreferredMin (merge_min m h) = hi_PreferredMin h"
  "hi_Reason (merge_max m h) = hi_Reason h" "hi_WindowHash (merge_max m h) = hi_WindowHash h" "hi_PreferredMin (merge_max m h) = hi_PreferredMin h"
  "hi_Reason (merge_count m h) = hi_Reason h" "hi_WindowHash (merge_count m h) = hi_WindowHash h" "hi_PreferredMin (merge_count m h) = hi_PreferredMin h"
  "hi_Reason (merge_cursor m h) = hi_Reason h" "hi_WindowHash (merge_cursor m h) = hi_WindowHash h" "hi_PreferredMin (merge_cursor m h) = hi_PreferredMin h"
  "hi_Reason (merge_older m h) = hi_Reason h" "hi_WindowHash (merge_older m h) = hi_WindowHash h" "hi_PreferredMin (merge_older m h) = hi_PreferredMin h"
  by (simp_all add: merge_total_def merge_min_def merge_max_def merge_count_def merge_cursor_def merge_older_def Let_def)

lemma merge_keeps [simp]:
  "hi_Reason (mergeSyncHintAfterWindow h m) = hi_Reason h" "hi_WindowHash (mergeSyncHintAfterWindow h m) = hi_WindowHash h"
  "hi_PreferredMin (mergeSyncHintAfterWindow h m) = hi_PreferredMin h"
  by (simp_all add: mergeSyncHintAfterWindow_def Let_def)

lemma alist_get_map_snd: "alist_get (map (\<lambda>(k, v). (k, f v)) al) k = map_option f (alist_get al k)"
  by (induction al) (auto simp: alist_get_def)

lemma history_signature_nonempty: "rq_Sessions r \<noteq> [] \<Longrightarrow> historySyncSignature r \<noteq> []"
  by (cases "rq_Sessions r") (simp_all add: historySyncSignature_def nul_def)

definition opened :: "gostring \<Rightarrow> gostring \<Rightarrow> int \<Rightarrow> time \<Rightarrow> time \<Rightarrow> window_state \<Rightarrow> bool" where
  "opened sid hash preferred pushed lastPush st \<longleftrightarrow>
     distinct (keys (ws_pushed st)) \<and> time_at (ws_lastPush st) sid = lastPush \<and>
     (\<exists>e. alist_get (ws_pushed st) sid = Some e \<and> ph_pushedAt e = pushed \<and> hi_Reason (ph_hint e) = ''recently_opened'' \<and>
        hi_WindowHash (ph_hint e) = hash \<and> hi_PreferredMin (ph_hint e) = preferred)"

lemma opened_update:
  assumes "opened sid hash preferred pushed t0 st" "TrimSpace sid = sid" "sid \<noteq> []" "rq_Sessions r = [m]"
  shows "opened sid hash preferred pushed t (update_pushed sid r t (settled sid sig meta t st))"
  using assms by (auto simp: opened_def update_pushed_def settled_def time_at_def hints_UpdateAfterSync_def Let_def)

lemma opened_kept:
  assumes "opened sid hash preferred pushed t0 st" "t - pushed \<le> pushedHintTTL"
  shows "opened sid hash preferred pushed t0 (st\<lparr>ws_pushed := pruneLocked t (ws_pushed st)\<rparr>)"
  using assms by (auto simp: opened_def pruneLocked_def alist_get_purge)

lemma opened_window:
  assumes o: "opened sid hash preferred pushed t0 st" "TrimSpace sid = sid" "sid \<noteq> []" "yn_SessionID s = sid"
    and r: "BuildSingleSessionWindowSyncRequestContext (yw_relay w) (\<lambda>_. None) ix (yw_device w) sid (yw_profile w)
        \<lparr>wn_Limit = max_int [np_InitialTurnLimit policy, np_PriorityTurnLimit policy, preferred], wn_BeforeSeq = 0\<rparr> = (None, r, ps)"
      "rq_Sessions r = [m]" "rq_Turns r \<noteq> []" "yn_WindowHash m \<noteq> hash"
    and "yw_post w r \<noteq> None" "t - t0 \<ge> mi" "hints = map (\<lambda>(i, e). (i, ph_hint e)) (ws_pushed st)"
  shows "\<exists>sig meta. sync_window w ix policy hints [] mi t s st = ([r], update_pushed sid r t (settled sid sig meta t st))"
proof -
  obtain e where e: "alist_get (ws_pushed st) sid = Some e" "hi_Reason (ph_hint e) = ''recently_opened''"
      "hi_WindowHash (ph_hint e) = hash" "hi_PreferredMin (ph_hint e) = preferred" "time_at (ws_lastPush st) sid = t0"
    using o(1) by (auto simp: opened_def)
  have h: "alist_get hints sid = Some (ph_hint e)" by (simp add: assms alist_get_map_snd e)
  then have hof: "hint_of hints sid = ph_hint e" by (simp add: hint_of_def)
  have "TrimSpace ''recently_opened'' = ''recently_opened''" by (simp add: TrimSpace_ascii is_space_def)
  then have "\<not> shouldSkipWindowUpload True (hint_of hints sid) [] sid r sig" for sig
    using r e hof by (simp add: shouldSkipWindowUpload_def hintMatchesWindowHash_def)
  moreover have "trimKnownUploadedTurns sha r (hint_of [] x) = r" for sha x
    by (simp add: trimKnownUploadedTurns_def hint_of_def alist_get_def no_hint_def r)
  ultimately show ?thesis
    using assms(4,9,10) r e(4,5) h history_signature_nonempty[of r]
    by (auto simp: sync_window_def Let_def shouldPushWindow_def window_limit_def upload_window_def) (rule exI, rule exI, rule refl)
qed


lemma ask_window_some:
  assumes "ix_FindSession sid ix = Some ref" "extractSessionBlocks (rw_num w) (rw_disk w) ref = Inr sb" "sb_Blocks sb \<noteq> []"
  shows "\<exists>r m ps. ask_window w ix device sid profile limit 0 = (None, r, ps) \<and> rq_Sessions r = [m] \<and> rq_Turns r \<noteq> [] \<and>
    hd (yn_WindowHash m) = CHR ''s''"
proof -
  obtain page first lst older where
    w: "selectBlockWindow (sb_Blocks sb) \<lparr>wn_Limit = limit, wn_BeforeSeq = 0\<rparr> = (page, first, lst, older)"
    by (cases "selectBlockWindow (sb_Blocks sb) \<lparr>wn_Limit = limit, wn_BeforeSeq = 0\<rparr>")
  obtain n where n: "length (sb_Blocks sb) = Suc n" using assms(3) by (cases "sb_Blocks sb") auto
  then have "1 \<le> int (length (sb_Blocks sb))" by simp
  from read_back_before[where before = 0 and n = "Suc n" and limit = limit, OF this order_refl]
  have "list_all (\<lambda>(page, _). page \<noteq> []) (read_back (Suc n) (sb_Blocks sb) limit 0)" by (auto simp: n list_all_iff split_beta)
  then have "page \<noteq> []" by (simp add: w)
  then have "turns_of sid (sref_Agent ref) (numbered first page) \<noteq> []" by (simp add: turns_of_def numbered_def)
  moreover have "hd (window_hash sha ts) = CHR ''s''" for sha ts by (simp add: window_hash_def)
  ultimately show ?thesis using ask_window_eq[OF assms(1,2) w refl, of device profile] by auto
qed

definition ex_opened :: window_state where
  "ex_opened =
     \<lparr>ws_lastHistory = [], ws_lastMeta = [], ws_lastPush = [],
      ws_pushed = [(''s'', \<lparr>ph_hint = no_hint\<lparr>hi_Reason := ''recently_opened'', hi_WindowHash := ''h''\<rparr>, ph_pushedAt = 0\<rparr>)]\<rparr>"


end
