(* ===== verification/ControlTerminal.thy ===== *)
theory ControlTerminal
  imports ControlTask GoBase64
begin

section \<open>Terminals of the control connection\<close>

text \<open>
  \<open>daemon/internal/control/control.go\<close>, the handlers behind the messages about terminals: who
  follows a terminal, the directory of a new one, Claude on a pseudo terminal, a shell that the
  app server of Codex runs, input, and stopping. The runner's lock makes each access to its maps
  one step. A call to the app server is an argument: the text of its error, if it fails.
\<close>

subsection \<open>Followers\<close>

definition terminalBatchFlushInterval :: duration where "terminalBatchFlushInterval = 200 * millisecond"
definition terminalBatchMaxBytes :: int where "terminalBatchMaxBytes = 16 * 1024"
definition terminalBatchRingMaxBytes :: int where "terminalBatchRingMaxBytes = 1024 * 1024"
definition terminalBatchRingMaxAge :: duration where "terminalBatchRingMaxAge = 5 * minute"

definition follower_count :: "runner \<Rightarrow> gostring \<Rightarrow> int" where
  "follower_count rn tid = (case alist_get (rn_subscribers rn) tid of Some n \<Rightarrow> n | None \<Rightarrow> 0)"

definition setTerminalSubscribed :: "gostring \<Rightarrow> bool \<Rightarrow> runner \<Rightarrow> int \<times> runner" where
  "setTerminalSubscribed tid subscribed rn =
     (if TrimSpace tid = [] then (0, rn)
      else let count = follower_count rn tid in
        if subscribed then (count + 1, rn\<lparr>rn_subscribers := alist_put tid (count + 1) (rn_subscribers rn)\<rparr>)
        else if count \<le> 1 then (0, rn\<lparr>rn_subscribers := alist_del tid (rn_subscribers rn)\<rparr>)
        else (count - 1, rn\<lparr>rn_subscribers := alist_put tid (count - 1) (rn_subscribers rn)\<rparr>))"

definition shouldForwardTerminalEvent :: "runner \<Rightarrow> TerminalEvent \<Rightarrow> bool" where
  "shouldForwardTerminalEvent rn evt \<longleftrightarrow>
     (if te_Kind evt \<noteq> EventTextDelta then True
      else if TrimSpace (te_TerminalSessionID evt) = [] then False
      else follower_count rn (te_TerminalSessionID evt) > 0)"

subsection \<open>The directory of a new terminal\<close>

text \<open>The two device ids of a request are not read here.\<close>

record TerminalRequest =
  tr_RequestID :: gostring
  tr_TerminalSessionID :: gostring
  tr_SessionID :: gostring
  tr_Agent :: gostring
  tr_Cwd :: gostring
  tr_Text :: gostring

text \<open>
  A directory as \<open>filepath.WalkDir\<close> sees it: the name, whether it is a directory (a symbolic
  link is not), and what it holds, in the order of the names.
\<close>

datatype dir_tree = Dir gostring bool "dir_tree list"

text \<open>The callback of the walk; \<open>depth\<close> is the number of elements of the path below the root.\<close>

fun walk_dir :: "(gostring \<Rightarrow> bool) \<Rightarrow> gostring \<Rightarrow> nat \<Rightarrow> nat \<Rightarrow> gostring \<Rightarrow> dir_tree \<Rightarrow> gostring \<Rightarrow> gostring"
  and walk_dirs :: "(gostring \<Rightarrow> bool) \<Rightarrow> gostring \<Rightarrow> nat \<Rightarrow> nat \<Rightarrow> gostring \<Rightarrow> dir_tree list \<Rightarrow> gostring \<Rightarrow> gostring" where
  "walk_dir isdir name maxDepth depth path (Dir n d kids) found =
     (if found \<noteq> [] \<or> \<not> d then found
      else if depth \<noteq> 0 \<and> depth - 1 \<ge> maxDepth then found
      else if n = name \<and> isValidDir isdir path then path
      else walk_dirs isdir name maxDepth (depth + 1) path kids found)"
| "walk_dirs isdir name maxDepth depth path [] found = found"
| "walk_dirs isdir name maxDepth depth path (Dir n d kids # ts) found =
     walk_dirs isdir name maxDepth depth path ts
       (walk_dir isdir name maxDepth depth (PathJoin [path, n]) (Dir n d kids) found)"

definition findDirectoryByBase :: "(gostring \<Rightarrow> bool) \<Rightarrow> (gostring \<Rightarrow> dir_tree option) \<Rightarrow> gostring \<Rightarrow> gostring \<Rightarrow> nat \<Rightarrow> gostring" where
  "findDirectoryByBase isdir tree root0 name maxDepth =
     (if \<not> isValidDir isdir root0 then []
      else let root = Clean root0 in
        case tree root of None \<Rightarrow> [] | Some t \<Rightarrow> walk_dir isdir name maxDepth 0 root t [])"

record cwd_world =
  cd_home :: "gostring option"
  cd_isdir :: "gostring \<Rightarrow> bool"
  cd_tree :: "gostring \<Rightarrow> dir_tree option"
  cd_index :: "Index option"

fun first_found :: "gostring list \<Rightarrow> gostring" where
  "first_found [] = []"
| "first_found (p # ps) = (if p \<noteq> [] then p else first_found ps)"

definition project_named :: "cwd_world \<Rightarrow> gostring \<Rightarrow> gostring option" where
  "project_named w name =
     (case cd_index w of
        None \<Rightarrow> None
      | Some ix \<Rightarrow> map_option apj_Cwd (find (\<lambda>p. Base (TrimRight (apj_Cwd p) ''/'') = name \<and> isValidDir (cd_isdir w) (apj_Cwd p)) (ix_projects ix)))"

definition resolveKnownProjectCWD :: "cwd_world \<Rightarrow> gostring \<Rightarrow> gostring" where
  "resolveKnownProjectCWD w cwd =
     (let name = Base (TrimSpace cwd) in
      if name = ''.'' \<or> name = ''/'' \<or> name = [] then []
      else case project_named w name of
        Some p \<Rightarrow> p
      | None \<Rightarrow>
          (case cd_home w of
             None \<Rightarrow> []
           | Some home \<Rightarrow>
               first_found (map (\<lambda>root. findDirectoryByBase (cd_isdir w) (cd_tree w) root name 6)
                 [PathJoin [home, ''code''], PathJoin [home, ''Documents'', ''Codex'']])))"

text \<open>What the index adds: an answer, or nothing when the search has to go on.\<close>

definition session_cwd :: "cwd_world \<Rightarrow> gostring \<Rightarrow> Index \<Rightarrow> gostring \<Rightarrow> (gostring + gostring) option" where
  "session_cwd w cwd ix sid =
     (case ix_FindSession sid ix of
        None \<Rightarrow> Some (Inl ''session not found'')
      | Some ref \<Rightarrow>
          if isValidDir (cd_isdir w) (sref_Cwd ref) then Some (Inr (sref_Cwd ref))
          else let resolved = resolveKnownProjectCWD w (ctl_firstNonEmpty [cwd, sref_Cwd ref]) in
            if resolved \<noteq> [] then Some (Inr resolved)
            else if TrimSpace (sref_Cwd ref) \<noteq> [] then Some (Inl (''cwd invalid: '' @ sref_Cwd ref))
            else None)"

definition resolveTerminalCWD :: "cwd_world \<Rightarrow> TerminalRequest \<Rightarrow> gostring + gostring" where
  "resolveTerminalCWD w req =
     (let cwd = TrimSpace (tr_Cwd req) in
      if isValidDir (cd_isdir w) cwd then Inr cwd
      else case (case cd_index w of
                   Some ix \<Rightarrow> if TrimSpace (tr_SessionID req) \<noteq> [] then session_cwd w cwd ix (tr_SessionID req) else None
                 | None \<Rightarrow> None) of
        Some res \<Rightarrow> res
      | None \<Rightarrow>
          let resolved = resolveKnownProjectCWD w cwd in
          if resolved \<noteq> [] then Inr resolved
          else if cwd = [] then Inl ''cwd is required''
          else Inl (''cwd invalid: '' @ cwd))"

subsection \<open>Claude on a pseudo terminal\<close>

definition terminal_failed :: "TerminalRequest \<Rightarrow> gostring \<Rightarrow> time \<Rightarrow> TerminalEvent" where
  "terminal_failed req err now =
     empty_event\<lparr>te_RequestID := tr_RequestID req, te_TerminalSessionID := tr_TerminalSessionID req, te_Kind := ''error'',
       te_SessionStatus := ''error'', te_TurnStatus := ''idle'', te_Error := err, te_Timestamp := now\<rparr>"

record terminal_state =
  ts_runner :: runner
  ts_terminal :: Manager.Manager

definition forward_event :: "TerminalEvent \<Rightarrow> terminal_state \<Rightarrow> terminal_state" where
  "forward_event evt st = st\<lparr>ts_runner := forwardTerminalEvent evt (ts_runner st)\<rparr>"

text \<open>
  The whole start, up to the subscription whose events a goroutine forwards. The value is the
  session with that subscription when there is one.
\<close>

definition create_claude ::
  "cwd_world \<Rightarrow> gostring + CommandSpec \<Rightarrow> gostring list \<Rightarrow> (LaunchConfig \<Rightarrow> start_error + Session) \<Rightarrow> (start_error \<Rightarrow> gostring) \<Rightarrow>
   time \<Rightarrow> TerminalRequest \<Rightarrow> terminal_state \<Rightarrow> panic + ((nat \<times> nat \<times> nat option) option \<times> terminal_state)" where
  "create_claude w launcher env started err_text now req st =
     (let failed = (\<lambda>e. Inr (None, forward_event (terminal_failed req e now) st)) in
      case resolveTerminalCWD w req of
        Inl e \<Rightarrow> failed e
      | Inr cwd \<Rightarrow>
          (case launcher of
             Inl e \<Rightarrow> failed e
           | Inr spec \<Rightarrow>
               (case CreateWithID (tr_TerminalSessionID req) (started (task_launch spec [] cwd env)) now (ts_terminal st) of
                  (Inl e, m) \<Rightarrow> Inr (None, forward_event (terminal_failed req (err_text e) now) (st\<lparr>ts_terminal := m\<rparr>))
                | (Inr (tid, r), m) \<Rightarrow>
                    bind_sum (sess_Subscribe 256 (m_ptys m ! r)) (\<lambda>((ch, sub), x).
                      Inr (Some (r, ch, sub), st\<lparr>ts_terminal := m\<lparr>m_ptys := (m_ptys m)[r := x]\<rparr>\<rparr>)))))"

text \<open>The goroutine passes the events on.\<close>

definition pass_on :: "TerminalRequest \<Rightarrow> Event \<Rightarrow> terminal_state \<Rightarrow> terminal_state" where
  "pass_on req e st = forward_event (forwarded (tr_RequestID req) (tr_TerminalSessionID req) e) st"

subsection \<open>A shell run by the app server of Codex\<close>

definition codex_event :: "TerminalRequest \<Rightarrow> gostring \<Rightarrow> gostring \<Rightarrow> gostring \<Rightarrow> time \<Rightarrow> TerminalEvent" where
  "codex_event req kind status cwd now =
     empty_event\<lparr>te_RequestID := tr_RequestID req, te_TerminalSessionID := tr_TerminalSessionID req, te_Kind := kind,
       te_SessionStatus := status, te_TurnStatus := ''idle'', te_Timestamp := now, te_Agent := ''codex'', te_Cwd := cwd\<rparr>"

definition codex_failed :: "TerminalRequest \<Rightarrow> gostring \<Rightarrow> gostring \<Rightarrow> time \<Rightarrow> TerminalEvent" where
  "codex_failed req err cwd now = (codex_event req ''error'' ''error'' cwd now)\<lparr>te_Error := err\<rparr>"

definition codexTerminalCommand :: "bool \<Rightarrow> gostring \<Rightarrow> gostring list" where
  "codexTerminalCommand windows shell =
     (if windows then [''cmd.exe''] else if TrimSpace shell \<noteq> [] then [TrimSpace shell] else [''/bin/sh''])"

definition getCodexTerminal :: "gostring \<Rightarrow> runner \<Rightarrow> codexProcessTerminal option" where
  "getCodexTerminal tid rn = alist_get (rn_codexTerminals rn) tid"

text \<open>The client whose \<open>Close\<close> is called, if there is one, and the runner without the entry.\<close>

definition removeCodexTerminal :: "gostring \<Rightarrow> runner \<Rightarrow> nat option \<times> runner" where
  "removeCodexTerminal tid rn =
     (map_option ct_app (getCodexTerminal tid rn), rn\<lparr>rn_codexTerminals := alist_del tid (rn_codexTerminals rn)\<rparr>)"

definition exec_params :: "TerminalRequest \<Rightarrow> bool \<Rightarrow> gostring \<Rightarrow> gostring \<Rightarrow> CommandExecParams" where
  "exec_params req windows shell cwd =
     \<lparr>ce_ProcessID = tr_TerminalSessionID req, ce_Command = codexTerminalCommand windows shell, ce_Cwd = cwd, ce_TTY = True,
      ce_Cols = 0, ce_Rows = 0\<rparr>"

text \<open>
  The start: \<open>binary\<close> is the executable found, \<open>app\<close> what \<open>codexapp.Start\<close> gives in the directory.
  The value is the directory, in which a goroutine then runs the shell.
\<close>

definition handleCodexTerminalCreate ::
  "cwd_world \<Rightarrow> gostring + gostring \<Rightarrow> (gostring \<Rightarrow> gostring \<Rightarrow> gostring + nat) \<Rightarrow> time \<Rightarrow> TerminalRequest \<Rightarrow> runner \<Rightarrow> gostring option \<times> runner" where
  "handleCodexTerminalCreate w binary app now req rn =
     (case resolveTerminalCWD w req of
        Inl e \<Rightarrow> (None, forwardTerminalEvent (codex_failed req e (tr_Cwd req) now) rn)
      | Inr cwd \<Rightarrow>
          (case binary of
             Inl e \<Rightarrow> (None, forwardTerminalEvent (codex_failed req e cwd now) rn)
           | Inr bin \<Rightarrow>
               (case app bin cwd of
                  Inl e \<Rightarrow> (None, forwardTerminalEvent (codex_failed req e cwd now) rn)
                | Inr a \<Rightarrow>
                    let tid = tr_TerminalSessionID req;
                        rn1 = rn\<lparr>rn_codexTerminals := alist_put tid \<lparr>ct_app = a, ct_processID = tid\<rparr> (rn_codexTerminals rn)\<rparr>;
                        rn2 = forwardTerminalEvent (codex_event req EventSessionStarted ''live'' cwd now) rn1
                    in (Some cwd, forwardTerminalEvent (codex_event req EventSessionReady ''live'' cwd now) rn2))))"

definition exit_text :: "int \<Rightarrow> gostring" where "exit_text code = ''exit_code='' @ Itoa code"

text \<open>The end of the goroutine: the call returned with an error or an exit code.\<close>

definition codex_command_ended :: "TerminalRequest \<Rightarrow> gostring \<Rightarrow> gostring + CommandExecResult \<Rightarrow> time \<Rightarrow> runner \<Rightarrow> nat option \<times> runner" where
  "codex_command_ended req cwd result now rn =
     (case removeCodexTerminal (tr_TerminalSessionID req) rn of (closed, rn1) \<Rightarrow>
        (closed, forwardTerminalEvent
          (case result of
             Inl e \<Rightarrow> codex_failed req e cwd now
           | Inr r \<Rightarrow> (codex_event req EventSessionExited ''exited'' cwd now)\<lparr>te_Error := exit_text (cr_ExitCode r)\<rparr>) rn1))"

record exec_delta =
  dl_process :: gostring
  dl_data :: gostring
  dl_code :: int

definition delta_fields :: "gostring \<Rightarrow> (gostring \<times> exec_delta decoder) list" where
  "delta_fields process =
     [(process, str_field (\<lambda>s. dl_process_update (\<lambda>_. s))), (''deltaBase64'', str_field (\<lambda>s. dl_data_update (\<lambda>_. s)))]"

definition exited_fields :: "(gostring \<times> exec_delta decoder) list" where
  "exited_fields =
     [(''processHandle'', str_field (\<lambda>s. dl_process_update (\<lambda>_. s))), (''exitCode'', int_field (\<lambda>i. dl_code_update (\<lambda>_. i)))]"

definition no_params :: exec_delta where "no_params = \<lparr>dl_process = [], dl_data = [], dl_code = 0\<rparr>"

definition output_delta :: "TerminalRequest \<Rightarrow> gostring \<Rightarrow> gostring \<Rightarrow> time \<Rightarrow> runner \<Rightarrow> runner" where
  "output_delta req process raw now rn =
     (case unmarshal_struct (delta_fields process) no_params raw of (p, err) \<Rightarrow>
        if err \<or> dl_process p \<noteq> tr_TerminalSessionID req \<or> dl_data p = [] then rn
        else case std_decode (dl_data p) of
          None \<Rightarrow> rn
        | Some text \<Rightarrow> forwardTerminalEvent ((codex_event req EventTextDelta ''live'' (tr_Cwd req) now)\<lparr>te_Payload := text\<rparr>) rn)"

definition handleCodexTerminalNotification :: "TerminalRequest \<Rightarrow> Notification \<Rightarrow> time \<Rightarrow> runner \<Rightarrow> nat option \<times> runner" where
  "handleCodexTerminalNotification req n now rn =
     (if nf_Method n = ''command/exec/outputDelta'' then (None, output_delta req ''processId'' (nf_Params n) now rn)
      else if nf_Method n = ''process/outputDelta'' then (None, output_delta req ''processHandle'' (nf_Params n) now rn)
      else if nf_Method n = ''process/exited''
      then (case unmarshal_struct exited_fields no_params (nf_Params n) of (p, err) \<Rightarrow>
        if err \<or> dl_process p \<noteq> tr_TerminalSessionID req then (None, rn)
        else case removeCodexTerminal (tr_TerminalSessionID req) rn of (closed, rn1) \<Rightarrow>
          (closed, forwardTerminalEvent
            ((codex_event req EventSessionExited ''exited'' (tr_Cwd req) now)\<lparr>te_Error := exit_text (dl_code p)\<rparr>) rn1))
      else (None, rn))"

subsection \<open>Creation, input, opening and stopping\<close>

text \<open>The choice of the agent; what is started then is one of the two above.\<close>

datatype create_choice = CreateNothing | CreateCodex | CreateClaude | CreateRefused TerminalEvent

definition create_choice_of :: "time \<Rightarrow> TerminalRequest \<Rightarrow> create_choice" where
  "create_choice_of now req =
     (if tr_TerminalSessionID req = [] then CreateNothing
      else if isCodexAgent (tr_Agent req) then CreateCodex
      else if tr_Agent req \<noteq> [] \<and> tr_Agent req \<noteq> ''claude-code''
      then CreateRefused (terminal_failed req ''only claude-code live terminal is supported'' now)
      else CreateClaude)"

text \<open>
  The params of the call to the app server when there is one, the event that is sent, and
  the manager. \<open>call\<close> is the error text of the call, if it fails.
\<close>

type_synonym term_reply = "gval option \<times> TerminalEvent list"

definition handleTerminalInput ::
  "gostring option \<Rightarrow> time \<Rightarrow> TerminalRequest \<Rightarrow> terminal_state \<Rightarrow> panic + (term_reply \<times> terminal_state)" where
  "handleTerminalInput call now req st =
     (case getCodexTerminal (tr_TerminalSessionID req) (ts_runner st) of
        Some t \<Rightarrow>
          Inr ((Some (exec_write_params (ct_processID t) (std_encode (tr_Text req)) False),
                case call of None \<Rightarrow> [] | Some e \<Rightarrow> [codex_failed req e [] now]), st)
      | None \<Rightarrow>
          bind_sum (mgr_SendInput (tr_TerminalSessionID req) (tr_Text req) now (ts_terminal st)) (\<lambda>(err, m).
            Inr ((None, case err of None \<Rightarrow> [] | Some e \<Rightarrow> [terminal_failed req (term_error_text e) now]), st\<lparr>ts_terminal := m\<rparr>)))"

definition handleTerminalStop ::
  "gostring option \<Rightarrow> time \<Rightarrow> TerminalRequest \<Rightarrow> terminal_state \<Rightarrow> panic + (term_reply \<times> terminal_state)" where
  "handleTerminalStop call now req st =
     (case getCodexTerminal (tr_TerminalSessionID req) (ts_runner st) of
        Some t \<Rightarrow>
          Inr ((Some (exec_terminate_params (ct_processID t)), case call of None \<Rightarrow> [] | Some e \<Rightarrow> [codex_failed req e [] now]), st)
      | None \<Rightarrow>
          bind_sum (mgr_Stop (tr_TerminalSessionID req) now (ts_terminal st)) (\<lambda>m. Inr ((None, []), st\<lparr>ts_terminal := m\<rparr>)))"

definition handleTerminalOpen :: "(gostring \<Rightarrow> gostring option) \<Rightarrow> time \<Rightarrow> TerminalRequest \<Rightarrow> terminal_state \<Rightarrow> TerminalEvent list" where
  "handleTerminalOpen attach now req st =
     (if getCodexTerminal (tr_TerminalSessionID req) (ts_runner st) \<noteq> None
      then [(codex_event req ''error'' ''live'' [] now)\<lparr>te_Error :=
              ''opening a Codex app-server process in the local Terminal app is not supported''\<rparr>]
      else if Get (tr_TerminalSessionID req) (ts_terminal st) = None
      then [terminal_failed req ''terminal session not found'' now]
      else case attach (tr_TerminalSessionID req) of None \<Rightarrow> [] | Some e \<Rightarrow> [terminal_failed req e now])"

end
