(* ===== verification/ControlSync.thy ===== *)
theory ControlSync
  imports ControlTask RelaySync
begin

section \<open>Loading a session on request\<close>

text \<open>
  \<open>handleSyncSession\<close> of \<open>daemon/internal/control/control.go\<close>: the web reader asks for the turns of a
  session. The latest window is uploaded; an older one (\<open>before_seq\<close>) goes back in the last
  event itself. A request runs alone, like an inject. What the upload answers and when the
  request is cancelled are arguments.
\<close>

record SyncSessionRequest =
  sq_RequestID :: gostring
  sq_SessionID :: gostring
  sq_Limit :: int
  sq_BeforeSeq :: int

record StoredTurn =
  st_DeviceID :: gostring
  st_SessionID :: gostring
  st_Seq :: int
  st_Agent :: gostring
  st_Kind :: gostring
  st_Timestamp :: gostring
  st_PayloadRaw :: gostring

record SyncSessionEvent =
  se_RequestID :: gostring
  se_SessionID :: gostring
  se_Stage :: gostring
  se_Status :: gostring
  se_Processed :: int
  se_Total :: int
  se_MinSeq :: int
  se_MaxSeq :: int
  se_HasOlder :: bool
  se_TurnCount :: int
  se_Message :: gostring
  se_Error :: gostring
  se_Turns :: "StoredTurn list"

definition sync_event :: "SyncSessionRequest \<Rightarrow> gostring \<Rightarrow> gostring \<Rightarrow> SyncSessionEvent" where
  "sync_event req stage status =
     \<lparr>se_RequestID = sq_RequestID req, se_SessionID = sq_SessionID req, se_Stage = stage, se_Status = status,
      se_Processed = 0, se_Total = 0, se_MinSeq = 0, se_MaxSeq = 0, se_HasOlder = False, se_TurnCount = 0,
      se_Message = [], se_Error = [], se_Turns = []\<rparr>"

definition sync_failed :: "SyncSessionRequest \<Rightarrow> gostring \<Rightarrow> SyncSessionEvent" where
  "sync_failed req err = (sync_event req ''failed'' ''failed'')\<lparr>se_Error := err\<rparr>"

definition progress_event :: "SyncSessionRequest \<Rightarrow> SyncProgress \<Rightarrow> SyncSessionEvent" where
  "progress_event req p =
     (sync_event req (pg_Stage p) ''running'')\<lparr>se_Processed := pg_Processed p, se_Total := pg_Total p, se_MinSeq := pg_MinSeq p,
        se_MaxSeq := pg_MaxSeq p, se_HasOlder := pg_HasOlder p, se_TurnCount := pg_TurnCount p, se_Message := pg_Message p\<rparr>"

definition storedTurnsFromSync :: "SyncTurn list \<Rightarrow> gostring \<Rightarrow> StoredTurn list" where
  "storedTurnsFromSync ts device =
     map (\<lambda>t. \<lparr>st_DeviceID = device, st_SessionID = tn_SessionID t, st_Seq = tn_Seq t, st_Agent = tn_Agent t, st_Kind = tn_Kind t,
        st_Timestamp = tn_Timestamp t, st_PayloadRaw = tn_Payload t\<rparr>) ts"

definition no_session :: SyncSession where
  "no_session =
     \<lparr>yn_SessionID = [], yn_Agent = [], yn_RunnerAlias = [], yn_Cwd = [], yn_Title = [], yn_Snippet = [], yn_FirstMessage = [],
      yn_LastSeq = 0, yn_LastTimestamp = [], yn_ChannelLastSeenAt = [], yn_SyncState = [], yn_TurnCount = 0, yn_MinSeq = 0,
      yn_MaxSeq = 0, yn_HasOlder = False, yn_WindowHash = []\<rparr>"

definition syncWindowMeta :: "SyncSession list \<Rightarrow> SyncSession" where
  "syncWindowMeta sessions = (case sessions of [] \<Rightarrow> no_session | s # _ \<Rightarrow> s)"

definition syncErrorCode :: "gostring \<Rightarrow> gostring" where
  "syncErrorCode msg =
     (case find (Contains msg) [''session_not_found'', ''extract_failed''] of Some code \<Rightarrow> code | None \<Rightarrow> ''sync_failed'')"

definition window_event :: "SyncSessionRequest \<Rightarrow> SyncRequest \<Rightarrow> gostring \<Rightarrow> gostring \<Rightarrow> gostring \<Rightarrow> SyncSessionEvent" where
  "window_event req body stage status message =
     (let meta = syncWindowMeta (rq_Sessions body); n = int (length (rq_Turns body)) in
      (sync_event req stage status)\<lparr>se_Processed := n, se_Total := n, se_MinSeq := yn_MinSeq meta, se_MaxSeq := yn_MaxSeq meta,
         se_HasOlder := yn_HasOlder meta, se_TurnCount := yn_TurnCount meta, se_Message := message\<rparr>)"

definition sync_begin :: "SyncSessionRequest \<Rightarrow> runner \<Rightarrow> SyncSessionEvent list \<times> bool \<times> runner" where
  "sync_begin req rn =
     (if sq_RequestID req = [] then ([], False, rn)
      else if rn_active rn \<noteq> [] then ([sync_failed req ''daemon_busy''], False, rn)
      else ([(sync_event req ''queued'' ''running'')\<lparr>se_Message := ''Queued''\<rparr>], True,
            rn\<lparr>rn_active := sq_RequestID req # rn_active rn\<rparr>))"

definition sync_end :: "SyncSessionRequest \<Rightarrow> runner \<Rightarrow> runner" where
  "sync_end req rn = rn\<lparr>rn_active := filter (\<lambda>x. x \<noteq> sq_RequestID req) (rn_active rn)\<rparr>"

text \<open>
  The work between the two: the events, and the body that is uploaded, if one is. \<open>upload\<close>
  tells whether the upload succeeds.
\<close>

record fetch_world =
  sw_relay :: relay_world
  sw_device :: gostring
  sw_profile :: Profile
  sw_ended :: "nat \<Rightarrow> gostring option"
  sw_upload :: "SyncRequest \<Rightarrow> bool"

definition sync_work :: "fetch_world \<Rightarrow> Index \<Rightarrow> SyncSessionRequest \<Rightarrow> SyncSessionEvent list \<times> SyncRequest option" where
  "sync_work w ix req =
     (case BuildSingleSessionWindowSyncRequestContext (sw_relay w) (sw_ended w) ix (sw_device w) (sq_SessionID req) (sw_profile w)
         \<lparr>wn_Limit = sq_Limit req, wn_BeforeSeq = sq_BeforeSeq req\<rparr> of
        (Some e, body, ps) \<Rightarrow> (map (progress_event req) ps @ [sync_failed req (syncErrorCode e)], None)
      | (None, body, ps) \<Rightarrow>
          if sq_BeforeSeq req > 0
          then (map (progress_event req) ps @
                 [(window_event req body ''completed'' ''completed'' ''Session window loaded'')\<lparr>se_Turns :=
                    storedTurnsFromSync (rq_Turns body) (sw_device w)\<rparr>], None)
          else (map (progress_event req) ps @ [window_event req body ''uploading'' ''running'' ''Uploading history''] @
                 [if sw_upload w body then window_event req body ''completed'' ''completed'' ''Session synced''
                  else sync_failed req ''upload_failed''], Some body))"

definition handleSyncSession :: "fetch_world \<Rightarrow> Index \<Rightarrow> SyncSessionRequest \<Rightarrow> runner \<Rightarrow> SyncSessionEvent list \<times> SyncRequest option \<times> runner" where
  "handleSyncSession w ix req rn =
     (case sync_begin req rn of
        (evs, False, rn1) \<Rightarrow> (evs, None, rn1)
      | (evs, True, rn1) \<Rightarrow> (case sync_work w ix req of (evs2, up) \<Rightarrow> (evs @ evs2, up, sync_end req rn1)))"

end
