(* ===== verification/ListDir.thy ===== *)
theory ListDir
  imports ControlInject
begin

section \<open>Looking into a directory\<close>

text \<open>
  \<open>daemon/internal/control/listdir.go\<close>: one level of a directory for the picker of the web
  page. The file system is an argument: what \<open>os.Stat\<close> says of a path (an error text, or
  whether it is a directory) and the entries of a directory, each with its name, whether it is a
  directory and whether it is a symbolic link.
\<close>

record ListDirEntry =
  le_Name :: gostring
  le_IsDir :: bool
  le_IsGit :: bool
  le_IsLink :: bool

record ListDirResponse =
  lr_RequestID :: gostring
  lr_Path :: gostring
  lr_Parent :: gostring
  lr_Entries :: "ListDirEntry list"
  lr_Truncated :: bool
  lr_Error :: gostring

record list_world =
  lw_home :: "gostring + gostring"
  lw_cwd :: gostring
  lw_stat :: "gostring \<Rightarrow> gostring + bool"
  lw_entries :: "gostring \<Rightarrow> gostring + (gostring \<times> bool \<times> bool) list"
  lw_lower :: "rune \<Rightarrow> rune"

definition listDirMaxEntries :: nat where "listDirMaxEntries = 500"

definition is_directory :: "list_world \<Rightarrow> gostring \<Rightarrow> bool" where
  "is_directory w p \<longleftrightarrow> (case lw_stat w p of Inr d \<Rightarrow> d | Inl _ \<Rightarrow> False)"

definition exists_path :: "list_world \<Rightarrow> gostring \<Rightarrow> bool" where
  "exists_path w p \<longleftrightarrow> (case lw_stat w p of Inr _ \<Rightarrow> True | Inl _ \<Rightarrow> False)"

definition asked_path :: "list_world \<Rightarrow> gostring \<Rightarrow> gostring + gostring" where
  "asked_path w path0 =
     (let path = TrimSpace path0 in
      if path = [] \<or> path = ''~'' then (case lw_home w of Inl _ \<Rightarrow> Inl ''home directory unavailable'' | Inr h \<Rightarrow> Inr h)
      else if HasPrefix path ''~/'' then Inr (case lw_home w of Inl _ \<Rightarrow> path | Inr h \<Rightarrow> PathJoin [h, drop 2 path])
      else Inr path)"

text \<open>\<open>filepath.Abs\<close>; the working directory of the daemon is known.\<close>

definition absolute :: "gostring \<Rightarrow> gostring \<Rightarrow> gostring" where
  "absolute cwd p = (if IsAbs p then Clean p else PathJoin [cwd, p])"

definition list_entry :: "list_world \<Rightarrow> gostring \<Rightarrow> gostring \<times> bool \<times> bool \<Rightarrow> ListDirEntry" where
  "list_entry w dir e =
     (case e of (name, d, link) \<Rightarrow>
        let isdir = d \<or> link \<and> is_directory w (PathJoin [dir, name]) in
        \<lparr>le_Name = name, le_IsDir = isdir, le_IsGit = isdir \<and> exists_path w (PathJoin [dir, name, ''.git'']), le_IsLink = link\<rparr>)"

text \<open>Directories first, then by name regardless of case; the sort is stable.\<close>

definition entry_before :: "(rune \<Rightarrow> rune) \<Rightarrow> ListDirEntry \<Rightarrow> ListDirEntry \<Rightarrow> bool" where
  "entry_before lower a b \<longleftrightarrow>
     (if le_IsDir a \<noteq> le_IsDir b then le_IsDir a else ToLower lower (le_Name a) < ToLower lower (le_Name b))"

fun insert_entry :: "(rune \<Rightarrow> rune) \<Rightarrow> ListDirEntry \<Rightarrow> ListDirEntry list \<Rightarrow> ListDirEntry list" where
  "insert_entry lower e [] = [e]"
| "insert_entry lower e (f # fs) = (if entry_before lower f e then f # insert_entry lower e fs else e # f # fs)"

definition sort_listing :: "(rune \<Rightarrow> rune) \<Rightarrow> ListDirEntry list \<Rightarrow> ListDirEntry list" where
  "sort_listing lower es = foldr (insert_entry lower) es []"

definition no_listing :: "gostring \<Rightarrow> ListDirResponse" where
  "no_listing rid = \<lparr>lr_RequestID = rid, lr_Path = [], lr_Parent = [], lr_Entries = [], lr_Truncated = False, lr_Error = []\<rparr>"

definition PathDir :: "gostring \<Rightarrow> gostring" where
  "PathDir p = Clean (rev (dropWhile (\<lambda>c. c \<noteq> CHR ''/'') (rev p)))"

definition listing :: "list_world \<Rightarrow> gostring \<Rightarrow> gostring \<Rightarrow> (gostring \<times> bool \<times> bool) list \<Rightarrow> ListDirResponse" where
  "listing w rid dir raw =
     (let es = sort_listing (lw_lower w) (map (list_entry w dir) (filter (\<lambda>e. \<not> HasPrefix (fst e) ''.'') raw)) in
      (no_listing rid)\<lparr>lr_Path := dir, lr_Parent := (if PathDir dir \<noteq> dir then PathDir dir else []),
        lr_Entries := take listDirMaxEntries es, lr_Truncated := listDirMaxEntries < length es\<rparr>)"

definition handleListDir :: "list_world \<Rightarrow> gostring \<Rightarrow> gostring \<Rightarrow> ListDirResponse" where
  "handleListDir w rid path =
     (case asked_path w path of
        Inl e \<Rightarrow> (no_listing rid)\<lparr>lr_Error := e\<rparr>
      | Inr p \<Rightarrow>
          let dir = Clean (absolute (lw_cwd w) p) in
          (case lw_stat w dir of
             Inl e \<Rightarrow> (no_listing rid)\<lparr>lr_Error := e\<rparr>
           | Inr False \<Rightarrow> (no_listing rid)\<lparr>lr_Error := ''not a directory''\<rparr>
           | Inr True \<Rightarrow>
               (case lw_entries w dir of Inl e \<Rightarrow> (no_listing rid)\<lparr>lr_Error := e\<rparr> | Inr raw \<Rightarrow> listing w rid dir raw)))"

end
