(* ===== verification/ControlLoop.thy ===== *)
theory ControlLoop
  imports ControlTerminal ControlSync ListDir
begin

section \<open>The control connection\<close>

text \<open>
  \<open>Run\<close> and \<open>runOnce\<close> of \<open>daemon/internal/control/control.go\<close>: one connection after another, with a
  growing delay between them. A connection has a batcher of its own; the runner outlives it.
  Writes go out in the order of \<open>cn_out\<close>. The reader handles one message at a time; what it hands
  to a goroutine is the first component of its answer. The messages about settings, diffs, deletion
  and reveal only wrap the adapter's answers (AgentAdapter) and are left out of the reader.
\<close>

subsection \<open>Reconnecting\<close>

definition controlReconnectInitial :: duration where "controlReconnectInitial = 500 * millisecond"
definition controlReconnectMax :: duration where "controlReconnectMax = 30 * second"
definition controlReconnectStable :: duration where "controlReconnectStable = 30 * second"
definition controlKeepaliveInterval :: duration where "controlKeepaliveInterval = 20 * second"
definition controlReadWait :: duration where "controlReadWait = 60 * second"

definition nextControlBackoff :: "duration \<Rightarrow> duration" where
  "nextControlBackoff current = (if current * 2 > controlReconnectMax then controlReconnectMax else current * 2)"

text \<open>Division truncates towards zero and the sign of a remainder is that of the dividend; \<open>nano\<close> is the clock.\<close>

definition quot :: "int \<Rightarrow> int \<Rightarrow> int" where "quot a b = sgn a * sgn b * (\<bar>a\<bar> div \<bar>b\<bar>)"
definition remainder :: "int \<Rightarrow> int \<Rightarrow> int" where "remainder a b = a - quot a b * b"

definition jitteredBackoff :: "int \<Rightarrow> duration \<Rightarrow> duration" where
  "jitteredBackoff nano d = (if quot d 4 \<le> 0 then d else d - remainder nano (quot d 4))"

text \<open>One turn of the loop after a connection that lasted \<open>connectedFor\<close>: the delay and the next backoff.\<close>

definition run_turn :: "int \<Rightarrow> duration \<Rightarrow> duration \<Rightarrow> duration \<times> duration" where
  "run_turn nano connectedFor backoff0 =
     (let backoff = (if connectedFor \<ge> controlReconnectStable then controlReconnectInitial else backoff0) in
      (jitteredBackoff nano backoff, nextControlBackoff backoff))"

fun run_turns :: "(int \<times> duration) list \<Rightarrow> duration \<Rightarrow> duration list" where
  "run_turns [] backoff = []"
| "run_turns ((nano, connectedFor) # ts) backoff =
     (case run_turn nano connectedFor backoff of (delay, next) \<Rightarrow> delay # run_turns ts next)"

definition controlDataKeepaliveEnabled :: "(rune \<Rightarrow> rune) \<Rightarrow> gostring \<Rightarrow> bool" where
  "controlDataKeepaliveEnabled fold_case value =
     (let v = TrimSpace value; same = (\<lambda>t. ToLower fold_case v = t) in
      v = ''1'' \<or> same ''true'' \<or> same ''on'' \<or> same ''enabled'')"

subsection \<open>Messages\<close>

datatype out_message =
    OutHello gostring gostring
  | OutStatus gostring gostring
  | OutInject InjectEvent
  | OutSync SyncSessionEvent
  | OutTerminal TerminalEvent
  | OutListDir ListDirResponse
  | OutUpdate gostring gostring gostring
  | OutPermission gostring gostring gostring

datatype in_message =
    InInject InjectRequest
  | InCancel gostring
  | InSync SyncSessionRequest
  | InCreate TerminalRequest
  | InSubscribe TerminalRequest
  | InUnsubscribe TerminalRequest
  | InHint gostring
  | InInput TerminalRequest
  | InOpen TerminalRequest
  | InStop TerminalRequest
  | InListDir gostring gostring
  | InUpdate gostring
  | InDecide gostring gostring

record connection =
  cn_state :: terminal_state
  cn_batcher :: terminalEventBatcher
  cn_store :: Store
  cn_out :: "out_message list"

text \<open>A terminal event on the wire, with the inject event it stands for in front.\<close>

definition rawSendTerminal :: "time \<Rightarrow> TerminalEvent \<Rightarrow> connection \<Rightarrow> connection" where
  "rawSendTerminal now evt cn =
     (case mirrorTerminalEventToInject now evt (ts_runner (cn_state cn)) of (mirrored, rn) \<Rightarrow>
        cn\<lparr>cn_state := (cn_state cn)\<lparr>ts_runner := rn\<rparr>,
           cn_out := cn_out cn @ (case mirrored of Some e \<Rightarrow> [OutInject e] | None \<Rightarrow> []) @ [OutTerminal evt]\<rparr>)"

text \<open>
  An operation of the batcher, whose \<open>shouldSend\<close> reads the runner. What it sends goes through
  \<open>rawSendTerminal\<close> one by one; that changes the injects of the runner, not its followers.
\<close>

definition with_batcher :: "time \<Rightarrow> (terminalEventBatcher \<Rightarrow> terminalEventBatcher) \<Rightarrow> connection \<Rightarrow> connection" where
  "with_batcher now f cn =
     (let b = f (SetShouldSend (Some (shouldForwardTerminalEvent (ts_runner (cn_state cn)))) (cn_batcher cn))
      in fold (rawSendTerminal now) (b_sent b) (cn\<lparr>cn_batcher := b\<lparr>b_sent := []\<rparr>\<rparr>))"

definition sendTerminal :: "time \<Rightarrow> TerminalEvent \<Rightarrow> connection \<Rightarrow> connection" where
  "sendTerminal now evt cn = with_batcher now (Add evt now) cn"

definition flush_timer :: "gostring \<Rightarrow> time \<Rightarrow> connection \<Rightarrow> connection" where
  "flush_timer tid now cn = with_batcher now (FlushTerminal tid now) cn"

definition new_batcher :: terminalEventBatcher where
  "new_batcher = newTerminalEventBatcher True terminalBatchFlushInterval terminalBatchMaxBytes terminalBatchRingMaxBytes terminalBatchRingMaxAge"

text \<open>The start of a connection: the greeting, and one event for every live terminal.\<close>

definition announced :: "Summary \<Rightarrow> bool" where
  "announced s \<longleftrightarrow> sum_SessionStatus s = SessionLive \<or> sum_SessionStatus s = SessionStarting"

definition announce_event :: "time \<Rightarrow> Summary \<Rightarrow> TerminalEvent" where
  "announce_event now s =
     empty_event\<lparr>te_TerminalSessionID := sum_ID s, te_Kind := ''keepalive'', te_SessionStatus := sum_SessionStatus s,
       te_TurnStatus := sum_TurnStatus s, te_SessionID := sum_ClaudeSessionID s, te_Cwd := sum_Cwd s,
       te_Driver := sum_Driver s, te_Timestamp := now\<rparr>"

definition connect :: "gostring \<Rightarrow> gostring \<Rightarrow> time \<Rightarrow> terminal_state \<Rightarrow> Store \<Rightarrow> connection" where
  "connect device version now st perms =
     \<lparr>cn_state = st, cn_batcher = new_batcher, cn_store = perms,
      cn_out = OutHello device version #
        map (\<lambda>s. OutTerminal (announce_event now s)) (filter announced (ListSessions (ts_terminal st)))\<rparr>"

text \<open>The end of a connection: the batcher is closed; what it still sends meets a closed socket.\<close>

definition disconnect :: "time \<Rightarrow> connection \<Rightarrow> terminal_state \<times> Store" where
  "disconnect now cn = (cn_state (with_batcher now (Close now) cn), cn_store cn)"

subsection \<open>The reader\<close>

definition set_followed :: "gostring \<Rightarrow> bool \<Rightarrow> connection \<Rightarrow> int \<times> connection" where
  "set_followed tid follow cn =
     (case setTerminalSubscribed tid follow (ts_runner (cn_state cn)) of (n, rn) \<Rightarrow>
        (n, cn\<lparr>cn_state := (cn_state cn)\<lparr>ts_runner := rn\<rparr>\<rparr>))"

definition on_subscribe :: "gostring \<Rightarrow> time \<Rightarrow> connection \<Rightarrow> connection" where
  "on_subscribe tid now cn0 =
     (case set_followed tid True cn0 of (n, cn) \<Rightarrow>
        if n = 1
        then (case SnapshotUndeliveredTerminal tid now now (cn_batcher cn) of ((evt, ok), b) \<Rightarrow>
          let cn1 = cn\<lparr>cn_batcher := b\<rparr> in
          if ok then (rawSendTerminal now evt cn1)\<lparr>cn_batcher := MarkDelivered evt b\<rparr> else cn1)
        else cn)"

definition on_unsubscribe :: "gostring \<Rightarrow> time \<Rightarrow> connection \<Rightarrow> connection" where
  "on_unsubscribe tid now cn0 =
     (case set_followed tid False cn0 of (n, cn) \<Rightarrow>
        if n = 0 then cn\<lparr>cn_batcher := DropTerminal tid now (cn_batcher cn)\<rparr> else cn)"

text \<open>What the reader starts in a goroutine, or hands to a component.\<close>

datatype task =
    TaskInject InjectRequest
  | TaskSync SyncSessionRequest
  | TaskCreate TerminalRequest
  | TaskListDir gostring gostring
  | TaskUpdate gostring
  | TaskHint gostring
  | TaskCancel gostring
  | TaskCall gval

definition written :: "out_message list \<Rightarrow> connection \<Rightarrow> connection" where
  "written ms cn = cn\<lparr>cn_out := cn_out cn @ ms\<rparr>"

definition after_terminal :: "time \<Rightarrow> (term_reply \<times> terminal_state) \<Rightarrow> connection \<Rightarrow> task list \<times> connection" where
  "after_terminal now r cn =
     (case r of ((call, evs), st) \<Rightarrow>
        (case call of Some p \<Rightarrow> [TaskCall p] | None \<Rightarrow> [], fold (sendTerminal now) evs (cn\<lparr>cn_state := st\<rparr>)))"

text \<open>
  \<open>decider\<close> and \<open>updater\<close> tell whether the program was wired with them, \<open>call\<close> is the error of a
  call to the app server and \<open>attach\<close> opens a terminal window.
\<close>

record reader_world =
  rd_now :: time
  rd_decider :: bool
  rd_updater :: bool
  rd_call :: "gostring option"
  rd_attach :: "gostring \<Rightarrow> gostring option"

definition on_message :: "reader_world \<Rightarrow> in_message \<Rightarrow> connection \<Rightarrow> panic + (task list \<times> connection)" where
  "on_message w msg cn =
     (let now = rd_now w in
      case msg of
        InInject req \<Rightarrow> Inr ([TaskInject req], cn)
      | InCancel rid \<Rightarrow> Inr (if cancels rid (ts_runner (cn_state cn)) then [TaskCancel rid] else [], cn)
      | InSync req \<Rightarrow> Inr ([TaskSync req], cn)
      | InCreate req \<Rightarrow> Inr ([TaskCreate req], cn)
      | InSubscribe req \<Rightarrow> Inr ([], on_subscribe (tr_TerminalSessionID req) now cn)
      | InUnsubscribe req \<Rightarrow> Inr ([], on_unsubscribe (tr_TerminalSessionID req) now cn)
      | InHint sid \<Rightarrow> Inr ([TaskHint sid], cn)
      | InInput req \<Rightarrow>
          bind_sum (handleTerminalInput (rd_call w) now req (cn_state cn)) (\<lambda>r. Inr (after_terminal now r cn))
      | InOpen req \<Rightarrow> Inr ([], fold (sendTerminal now) (handleTerminalOpen (rd_attach w) now req (cn_state cn)) cn)
      | InStop req \<Rightarrow>
          bind_sum (handleTerminalStop (rd_call w) now req (cn_state cn)) (\<lambda>r. Inr (after_terminal now r cn))
      | InListDir rid path \<Rightarrow> Inr ([TaskListDir rid path], cn)
      | InUpdate rid \<Rightarrow>
          if rd_updater w then Inr ([TaskUpdate rid], written [OutUpdate rid ''started'' []] cn)
          else Inr ([], written [OutUpdate rid ''failed'' ''remote update not enabled on this daemon''] cn)
      | InDecide rid decision \<Rightarrow>
          if \<not> rd_decider w then Inr ([], written [OutPermission rid ''invalid'' ''permission decider not configured''] cn)
          else bind_sum (permission_decide_ack rid decision (cn_store cn)) (\<lambda>((status, err), perms).
            Inr ([], written [OutPermission rid status err] (cn\<lparr>cn_store := perms\<rparr>))))"

end
