(* ===== verification/FollowProps.thy ===== *)
theory FollowProps
  imports ControlLoop BatcherProps
begin

section \<open>What a follower of a terminal sees\<close>

text \<open>
  The batcher of a connection behind the runner's count of followers. Output that nobody
  follows is kept; the first follower gets it, and from then on everything as it comes. The
  three parts of the output of a terminal: sent, in the ring beyond the delivery mark, and
  in the batch that is being collected.
\<close>

subsection \<open>One terminal in the batcher\<close>

definition unsent :: "gostring \<Rightarrow> terminalEventBatcher \<Rightarrow> gostring" where
  "unsent t b = concat (map re_payload (filter (undelivered (b_deliveredSeq b t)) (b_rings b t)))"

definition delta_text :: "gostring \<Rightarrow> TerminalEvent list \<Rightarrow> gostring" where
  "delta_text t es = text_for t (filter (\<lambda>e. te_Kind e = ''text_delta'') es)"

lemma delta_text_simps [simp]:
  "delta_text t [] = []"
  "delta_text t (e # es) = (if te_Kind e = ''text_delta'' \<and> te_TerminalSessionID e = t then te_Payload e else []) @ delta_text t es"
  "delta_text t (es @ es') = delta_text t es @ delta_text t es'"
  by (simp_all add: delta_text_def)

definition batch_seq_ok :: "int \<Rightarrow> int \<Rightarrow> terminalEventBatch option \<Rightarrow> bool" where
  "batch_seq_ok d m p \<longleftrightarrow> (case p of None \<Rightarrow> True | Some e \<Rightarrow> d < tb_lastSeq e \<and> tb_lastSeq e \<le> m)"

definition ring_numbered :: "gostring \<Rightarrow> int \<Rightarrow> terminalEventBatcher \<Rightarrow> bool" where
  "ring_numbered t m b \<longleftrightarrow>
     0 \<le> b_deliveredSeq b t \<and> b_deliveredSeq b t \<le> m \<and> (\<forall>e\<in>set (b_rings b t). 0 < re_seqEnd e \<and> re_seqEnd e \<le> m \<and> re_payload e \<noteq> []) \<and>
     batch_seq_ok (b_deliveredSeq b t) m (alist_get (b_pending b) t)"

definition gate_of :: "gostring \<Rightarrow> bool \<Rightarrow> terminalEventBatcher \<Rightarrow> bool" where
  "gate_of t open b \<longleftrightarrow>
     (\<exists>g. b_shouldSend b = Some g \<and> (\<forall>e. te_Kind e = ''text_delta'' \<longrightarrow> te_TerminalSessionID e = t \<longrightarrow> g e = open))"

definition own_batches :: "terminalEventBatcher \<Rightarrow> bool" where
  "own_batches b \<longleftrightarrow>
     (\<forall>k p. alist_get (b_pending b) k = Some p \<longrightarrow> te_TerminalSessionID (tb_event p) = k \<and> te_Kind (tb_event p) = ''text_delta'' \<and> te_Payload (tb_event p) \<noteq> [])"

definition caught_up :: "gostring \<Rightarrow> terminalEventBatcher \<Rightarrow> bool" where
  "caught_up t b \<longleftrightarrow> (\<forall>e\<in>set (b_rings b t). re_seqEnd e \<le> b_deliveredSeq b t)"

lemma caught_up_unsent: "ring_numbered t m b \<Longrightarrow> caught_up t b \<Longrightarrow> unsent t b = []"
  by (auto simp: ring_numbered_def caught_up_def unsent_def undelivered_def filter_empty_conv)

text \<open>The state of the batcher as far as terminal \<open>t\<close> is concerned, with its whole output \<open>whole\<close>.\<close>

definition follow_ok :: "gostring \<Rightarrow> bool \<Rightarrow> int \<Rightarrow> gostring \<Rightarrow> terminalEventBatcher \<Rightarrow> bool" where
  "follow_ok t open m whole b \<longleftrightarrow>
     own_batches b \<and> b_send b \<and> \<not> b_closed b \<and> ring_numbered t m b \<and> (open \<longrightarrow> caught_up t b) \<and>
     delta_text t (b_sent b) @ unsent t b @ pending_text t b = whole"

subsection \<open>Sealing a batch\<close>

lemma ring_start_untruncated: "ring_start ring cutoff mx i acc = (n, False) \<Longrightarrow> n = 0"
  by (induction ring cutoff mx i acc rule: ring_start.induct) (auto simp: Let_def split: if_splits)

declare ring_start.simps [simp del]

lemma record_untruncated:
  assumes "recordRingLocked key evt bytes at now b = (tr, b')" "\<not> b_ringTruncated b' key"
  shows "b_rings b' = (b_rings b)(key := b_rings b key @ [new_entry evt bytes (if at = 0 then now else at)])"
proof -
  let ?full = "b_rings b key @ [new_entry evt bytes (if at = 0 then now else at)]"
  obtain n tr' where r: "ring_start ?full ((if at = 0 then now else at) - b_ringMaxAge b) (b_ringMaxBytes b) (length ?full) 0 = (n, tr')"
    by fastforce
  have "recordRingLocked key evt bytes at now b = (tr', b\<lparr>b_rings := (b_rings b)(key := if n > 0 then drop n ?full else ?full),
      b_ringTruncated := (if tr' then (b_ringTruncated b)(key := True) else b_ringTruncated b)\<rparr>)"
    by (simp only: recordRingLocked_def Let_def r[unfolded new_entry_def] prod.case new_entry_def)
  then have b': "tr = tr'" "b' = b\<lparr>b_rings := (b_rings b)(key := if n > 0 then drop n ?full else ?full),
      b_ringTruncated := (if tr' then (b_ringTruncated b)(key := True) else b_ringTruncated b)\<rparr>"
    unfolding assms(1) by (auto dest: prod.inject[THEN iffD1])
  have "\<not> tr'" using assms(2) unfolding b'(2) by (cases tr') simp_all
  then have "tr' = False" by simp
  from ring_start_untruncated[OF r[unfolded this]] have "n = 0" .
  then show ?thesis unfolding b'(2) by simp
qed

lemma record_other:
  "recordRingLocked key evt bytes at now b = (tr, b') \<Longrightarrow> t \<noteq> key \<Longrightarrow>
     b_rings b' t = b_rings b t \<and> b_ringTruncated b' t = b_ringTruncated b t"
  by (auto simp: recordRingLocked_def Let_def split: prod.splits if_splits)

lemma record_truncated_mono:
  "recordRingLocked key evt bytes at now b = (tr, b') \<Longrightarrow> b_ringTruncated b t \<Longrightarrow> b_ringTruncated b' t"
  by (auto simp: recordRingLocked_def Let_def split: prod.splits if_splits)

lemma take_truncated_mono: "b_ringTruncated b t \<Longrightarrow> b_ringTruncated (snd (takeLocked k now b)) t"
  by (auto simp: takeLocked_def Let_def split: option.splits prod.splits dest!: record_truncated_mono[where t = t])

lemma mark_truncated [simp]: "b_ringTruncated (MarkDelivered e b) = b_ringTruncated b"
  by (auto simp: MarkDelivered_def Let_def)

lemma emit_truncated [simp]: "b_ringTruncated (emit e b) = b_ringTruncated b"
  by (auto simp: emit_def)

lemma emit_all_truncated [simp]: "b_ringTruncated (emit_all es b) = b_ringTruncated b"
  by (induction es arbitrary: b) (simp_all add: emit_all_def)

text \<open>The batch of \<open>t\<close> goes into the ring, beyond the delivery mark.\<close>

lemma take_frame:
  assumes "takeLocked k now b = (es, b')"
  shows "b_send b' = b_send b" "b_shouldSend b' = b_shouldSend b" "b_closed b' = b_closed b" "b_sent b' = b_sent b"
    "b_deliveredSeq b' = b_deliveredSeq b"
proof -
  have "b_send b' = b_send b \<and> b_shouldSend b' = b_shouldSend b \<and> b_closed b' = b_closed b \<and> b_sent b' = b_sent b \<and>
    b_deliveredSeq b' = b_deliveredSeq b"
  proof (cases "alist_get (b_pending b) k")
    case None
    with takeLocked_None[OF None, of now] assms show ?thesis by simp
  next
    case (Some p)
    from takeLocked_Some[OF Some, of now] assms obtain tr where
      r: "recordRingLocked k (sealed_event p) (tb_bytes p) (te_Timestamp (tb_event p)) now
        (b\<lparr>b_pending := alist_del k (b_pending b)\<rparr>) = (tr, b')" by auto
    with recordRing_frame[OF r] show ?thesis by simp
  qed
  then show "b_send b' = b_send b" "b_shouldSend b' = b_shouldSend b" "b_closed b' = b_closed b" "b_sent b' = b_sent b"
    "b_deliveredSeq b' = b_deliveredSeq b" by blast+
qed

lemma own_batches_take:
  assumes "own_batches b"
  shows "own_batches (snd (takeLocked k now b))"
proof (cases "alist_get (b_pending b) k")
  case None
  with assms show ?thesis by (simp add: takeLocked_None)
next
  case (Some p)
  obtain es b' where t: "takeLocked k now b = (es, b')" by fastforce
  from takeLocked_Some[OF Some, of now] t obtain tr where
    r: "recordRingLocked k (sealed_event p) (tb_bytes p) (te_Timestamp (tb_event p)) now
      (b\<lparr>b_pending := alist_del k (b_pending b)\<rparr>) = (tr, b')" by auto
  show ?thesis using assms by (simp add: own_batches_def recordRing_frame[OF r] t)
qed

definition own_event :: "gostring \<Rightarrow> int \<Rightarrow> terminalEventBatcher \<Rightarrow> TerminalEvent \<Rightarrow> bool" where
  "own_event t m b e \<longleftrightarrow> te_Kind e = ''text_delta'' \<and> te_TerminalSessionID e = t \<and> te_Payload e = pending_text t b \<and>
     b_deliveredSeq b t < te_SeqEnd e \<and> te_SeqEnd e \<le> m"

lemma take_own:
  assumes "own_batches b" "ring_numbered t m b" "takeLocked t now b = (es, b')" "\<not> b_ringTruncated b' t"
  shows "ring_numbered t m b'" "unsent t b' = unsent t b @ pending_text t b" "alist_get (b_pending b') t = None"
    "es = [] \<and> b' = b \<or> (\<exists>e x. es = [e] \<and> own_event t m b e \<and> b_rings b' t = b_rings b t @ [x] \<and> re_seqEnd x = te_SeqEnd e)"
proof -
  have "ring_numbered t m b' \<and> unsent t b' = unsent t b @ pending_text t b \<and> alist_get (b_pending b') t = None \<and>
    (es = [] \<and> b' = b \<or> (\<exists>e x. es = [e] \<and> own_event t m b e \<and> b_rings b' t = b_rings b t @ [x] \<and> re_seqEnd x = te_SeqEnd e))"
  proof (cases "alist_get (b_pending b) t")
    case None
    with takeLocked_None[OF None, of now] assms(2,3) show ?thesis by (simp add: pending_text_def)
  next
    case (Some p)
    have ok: "te_TerminalSessionID (tb_event p) = t" "te_Kind (tb_event p) = ''text_delta''" "te_Payload (tb_event p) \<noteq> []"
      using assms(1) Some by (auto simp: own_batches_def)
    from takeLocked_Some[OF Some, of now] assms(3) obtain tr where e: "es = [(sealed_event p)\<lparr>te_Truncated := tr\<rparr>]"
      and r: "recordRingLocked t (sealed_event p) (tb_bytes p) (te_Timestamp (tb_event p)) now
        (b\<lparr>b_pending := alist_del t (b_pending b)\<rparr>) = (tr, b')" by auto
    note f = recordRing_frame[OF r]
    have s: "0 \<le> b_deliveredSeq b t" "b_deliveredSeq b t < tb_lastSeq p" "tb_lastSeq p \<le> m"
      using assms(2) Some by (auto simp: ring_numbered_def batch_seq_ok_def)
    have g: "b_rings b' t = b_rings b t @ [new_entry (sealed_event p) (tb_bytes p)
        (if te_Timestamp (tb_event p) = 0 then now else te_Timestamp (tb_event p))]"
      using record_untruncated[OF r assms(4)] by simp
    have n: "re_seqEnd (new_entry (sealed_event p) c x) = tb_lastSeq p" "re_payload (new_entry (sealed_event p) c x) = te_Payload (tb_event p)" for c x
      using s by (simp_all add: new_entry_def)
    show ?thesis
      using s assms(2) ok Some
      by (simp add: ring_numbered_def batch_seq_ok_def f g n unsent_def undelivered_def pending_text_def e own_event_def)
  qed
  then show "ring_numbered t m b'" "unsent t b' = unsent t b @ pending_text t b" "alist_get (b_pending b') t = None"
    "es = [] \<and> b' = b \<or> (\<exists>e x. es = [e] \<and> own_event t m b e \<and> b_rings b' t = b_rings b t @ [x] \<and> re_seqEnd x = te_SeqEnd e)"
    by blast+
qed

text \<open>Taking the batch of another terminal leaves \<open>t\<close> alone.\<close>

lemma take_other:
  assumes "t \<noteq> k" "takeLocked k now b = (es, b')"
  shows "b_rings b' t = b_rings b t" "b_deliveredSeq b' = b_deliveredSeq b" "alist_get (b_pending b') t = alist_get (b_pending b) t"
proof -
  have "b_rings b' t = b_rings b t \<and> b_deliveredSeq b' = b_deliveredSeq b \<and> alist_get (b_pending b') t = alist_get (b_pending b) t"
  proof (cases "alist_get (b_pending b) k")
    case None
    with takeLocked_None[OF None, of now] assms(2) show ?thesis by simp
  next
    case (Some p)
    from takeLocked_Some[OF Some, of now] assms(2) obtain tr where
      r: "recordRingLocked k (sealed_event p) (tb_bytes p) (te_Timestamp (tb_event p)) now
        (b\<lparr>b_pending := alist_del k (b_pending b)\<rparr>) = (tr, b')" by auto
    with recordRing_frame[OF r] record_other[OF r assms(1)] assms(1) show ?thesis by simp
  qed
  then show "b_rings b' t = b_rings b t" "b_deliveredSeq b' = b_deliveredSeq b" "alist_get (b_pending b') t = alist_get (b_pending b) t"
    by blast+
qed

lemma view_other:
  assumes "b_rings b' t = b_rings b t" "b_deliveredSeq b' t = b_deliveredSeq b t" "alist_get (b_pending b') t = alist_get (b_pending b) t"
  shows "unsent t b' = unsent t b" "pending_text t b' = pending_text t b" "ring_numbered t m b' = ring_numbered t m b"
  using assms by (simp_all add: unsent_def pending_text_def ring_numbered_def)

subsection \<open>Sending\<close>

lemma gate_frame:
  "b_shouldSend b' = b_shouldSend b \<Longrightarrow> gate_of t open b' = gate_of t open b"
  by (simp add: gate_of_def)

lemma emit_other:
  assumes "te_Kind e \<noteq> ''text_delta'' \<or> te_TerminalSessionID e \<noteq> t"
  shows "b_deliveredSeq (emit e b) t = b_deliveredSeq b t" "delta_text t (b_sent (emit e b)) = delta_text t (b_sent b)"
  using assms by (auto simp: emit_def MarkDelivered_def Let_def)

lemma follow_ok_emit_other:
  assumes "follow_ok t open m w b" "te_Kind e \<noteq> ''text_delta'' \<or> te_TerminalSessionID e \<noteq> t"
  shows "follow_ok t open m w (emit e b)"
  using assms view_other[of "emit e b" t b] emit_other[OF assms(2), of b] by (simp add: follow_ok_def caught_up_def own_batches_def)

lemma emit_closed: "gate_of t False b \<Longrightarrow> te_Kind e = ''text_delta'' \<Longrightarrow> te_TerminalSessionID e = t \<Longrightarrow> emit e b = b"
  by (auto simp: emit_def gate_of_def)

lemma emit_open:
  assumes "gate_of t True b" "te_Kind e = ''text_delta''" "te_TerminalSessionID e = t" "b_send b" "t \<noteq> []"
  shows "delta_text t (b_sent (emit e b)) = delta_text t (b_sent b) @ te_Payload e"
    and "b_deliveredSeq (emit e b) t =
      (let n = if te_SeqEnd e = 0 then te_Seq e else te_SeqEnd e in
       if n = 0 then b_deliveredSeq b t else max n (b_deliveredSeq b t))"
proof -
  have "emit e b = MarkDelivered e (b\<lparr>b_sent := b_sent b @ [e]\<rparr>)" using assms by (auto simp: emit_def gate_of_def)
  then show "delta_text t (b_sent (emit e b)) = delta_text t (b_sent b) @ te_Payload e"
    "b_deliveredSeq (emit e b) t =
      (let n = if te_SeqEnd e = 0 then te_Seq e else te_SeqEnd e in
       if n = 0 then b_deliveredSeq b t else max n (b_deliveredSeq b t))"
    using assms by (auto simp: MarkDelivered_def Let_def)
qed

text \<open>A batch of the terminal itself is taken and sent, if the gate is open.\<close>

lemma follow_okD:
  assumes "follow_ok t open m w b"
  shows "own_batches b" "b_send b" "\<not> b_closed b" "ring_numbered t m b" "open \<Longrightarrow> caught_up t b"
    "delta_text t (b_sent b) @ unsent t b @ pending_text t b = w" "open \<Longrightarrow> unsent t b = []"
  using assms caught_up_unsent[of t m b] by (auto simp: follow_ok_def)

lemma follow_ok_own:
  assumes f: "follow_ok t open m w b" and g: "gate_of t open b" and t: "t \<noteq> []" and tk: "takeLocked t now b = (es, b')"
    and tr: "\<not> b_ringTruncated b' t"
  shows "follow_ok t open m w (emit_all es b')"
proof -
  note b = follow_okD[OF f]
  note frame = take_frame[OF tk]
  have bi: "own_batches b'" using own_batches_take[OF b(1), of t now] tk by simp
  have g': "gate_of t open b'" using g frame(2) by (simp add: gate_of_def)
  note o = take_own[OF b(1) b(4) tk tr]
  have p: "pending_text t b' = []" using o(3) by (simp add: pending_text_def)
  from o(4) show ?thesis
  proof (elim disjE exE conjE)
    assume "es = []" "b' = b"
    then show ?thesis using f by (simp add: emit_all_def)
  next
    fix e x assume e: "es = [e]" "own_event t m b e" and x: "b_rings b' t = b_rings b t @ [x]" "re_seqEnd x = te_SeqEnd e"
    have k: "te_Kind e = ''text_delta''" "te_TerminalSessionID e = t" "te_Payload e = pending_text t b"
      "b_deliveredSeq b t < te_SeqEnd e" "te_SeqEnd e \<le> m" using e(2) by (simp_all add: own_event_def)
    show ?thesis
    proof (cases "open")
      case False
      then have "emit e b' = b'" using emit_closed[of t b' e] g' k by simp
      then show ?thesis using b frame bi o p False by (simp add: follow_ok_def emit_all_def e(1))
    next
      case True
      then have gt: "gate_of t True b'" using g' by simp
      have sb: "b_send b'" using frame b by simp
      note q = emit_open[OF gt k(1,2) sb t]
      have d0: "0 \<le> b_deliveredSeq b t" using b(4) by (simp add: ring_numbered_def)
      have d: "b_deliveredSeq (emit e b') t = te_SeqEnd e" using q(2) k(4) frame(5) d0 by (simp add: Let_def)
      have up: "caught_up t (emit e b')" using b(5)[OF True] k(4) x by (auto simp: caught_up_def d)
      have nu: "ring_numbered t m (emit e b')" using o(1,3) k(4,5) d0 d by (simp add: ring_numbered_def batch_seq_ok_def)
      have "pending_text t (emit e b') = []" by (simp add: p)
      with b frame bi nu up caught_up_unsent[OF nu up] q(1) k(3) b(7)[OF True]
      show ?thesis by (simp add: follow_ok_def emit_all_def e(1) own_batches_def)
    qed
  qed
qed

lemma follow_ok_take:
  assumes f: "follow_ok t open m w b" and g: "gate_of t open b" and t: "t \<noteq> []" and tk: "takeLocked k now b = (es, b')"
    and tr: "\<not> b_ringTruncated b' t"
  shows "follow_ok t open m w (emit_all es b')"
proof (cases "t = k")
  case True
  with follow_ok_own[OF f g t _ tr] tk show ?thesis by blast
next
  case False
  note o = take_other[OF False tk] and frame = take_frame[OF tk]
  note b = follow_okD[OF f]
  have fb: "follow_ok t open m w b'"
    using f frame view_other[OF o(1) fun_cong[OF o(2)] o(3)] own_batches_take[OF b(1), of k now] tk
    by (simp add: follow_ok_def caught_up_def o(1))
  show ?thesis
  proof (cases "alist_get (b_pending b) k")
    case None
    with tk fb show ?thesis by (simp add: takeLocked_None emit_all_def)
  next
    case (Some p)
    from takeLocked_Some[OF Some, of now] tk obtain x where "es = [(sealed_event p)\<lparr>te_Truncated := x\<rparr>]" by auto
    with follow_ok_emit_other[OF fb] b(1) Some False show ?thesis by (auto simp: emit_all_def own_batches_def)
  qed
qed


subsection \<open>The operations of the batcher\<close>

lemma numbered_mono: "ring_numbered t m b \<Longrightarrow> m \<le> m' \<Longrightarrow> ring_numbered t m' b"
  by (fastforce simp: ring_numbered_def batch_seq_ok_def split: option.splits)

lemma follow_ok_mono: "follow_ok t open m w b \<Longrightarrow> m \<le> m' \<Longrightarrow> follow_ok t open m' w b"
  by (auto simp: follow_ok_def intro: numbered_mono)

lemma follow_ok_flush:
  assumes "follow_ok t open m w b" "gate_of t open b" "t \<noteq> []" "\<not> b_ringTruncated (FlushTerminal k now b) t"
  shows "follow_ok t open m w (FlushTerminal k now b)" "k = t \<Longrightarrow> alist_get (b_pending (FlushTerminal k now b)) t = None"
    "b_shouldSend (FlushTerminal k now b) = b_shouldSend b"
proof -
  obtain es b' where t: "takeLocked k now b = (es, b')" by fastforce
  have f: "FlushTerminal k now b = (if k = [] then b else emit_all es b')" using follow_okD(3)[OF assms(1)] t by (simp add: FlushTerminal_def)
  show "follow_ok t open m w (FlushTerminal k now b)"
  proof (cases "k = []")
    case True
    then show ?thesis using assms(1) f by simp
  next
    case False
    then have "\<not> b_ringTruncated b' t" using assms(4) f by simp
    from follow_ok_take[OF assms(1-3) t this] False f show ?thesis by simp
  qed
  show "b_shouldSend (FlushTerminal k now b) = b_shouldSend b" using take_frame[OF t] f by simp
  assume k: "k = t"
  then have "\<not> b_ringTruncated b' t" using assms(3,4) f by simp
  with take_own(3)[OF follow_okD(1,4)[OF assms(1)] _ this] t k f assms(3)
  show "alist_get (b_pending (FlushTerminal k now b)) t = None" by simp
qed

text \<open>An empty piece of text is sent by itself, after what was collected.\<close>

lemma follow_ok_emit_empty:
  assumes f: "follow_ok t open m w b" and g: "gate_of t open b" and t: "t \<noteq> []" and e: "te_Payload e = []" "te_SeqEnd e = 0" "m \<le> te_Seq e"
    and p: "alist_get (b_pending b) t = None" and own: "te_Kind e = ''text_delta''" "te_TerminalSessionID e = t"
  shows "follow_ok t open (te_Seq e) w (emit e b)"
proof (cases "open")
  case False
  then have "emit e b = b" using emit_closed[of t b e] g own by simp
  then show ?thesis using follow_ok_mono[OF f e(3)] by simp
next
  case True
  note b = follow_okD[OF f]
  have gt: "gate_of t True b" using g True by simp
  note q = emit_open[OF gt own b(2) t]
  have m: "0 \<le> b_deliveredSeq b t" "b_deliveredSeq b t \<le> m" using b(4) by (simp_all add: ring_numbered_def)
  have d: "b_deliveredSeq b t \<le> b_deliveredSeq (emit e b) t" "b_deliveredSeq (emit e b) t \<le> te_Seq e"
    using q(2) m e by (auto simp: Let_def)
  have nu: "ring_numbered t (te_Seq e) (emit e b)"
    using b(4) m d e(3) p by (auto simp: ring_numbered_def batch_seq_ok_def)
  have up: "caught_up t (emit e b)" using b(5)[OF True] d by (auto simp: caught_up_def)
  show ?thesis using b nu up caught_up_unsent[OF nu up] q(1) e(1) b(7)[OF True]
    by (simp add: follow_ok_def own_batches_def)
qed

text \<open>A piece of text joins the batch.\<close>

lemma follow_ok_collect:
  assumes f: "follow_ok t open m w b" and own: "te_Kind e = ''text_delta''" "te_TerminalSessionID e = t" and s: "m < te_Seq e" and ne: "te_Payload e \<noteq> []"
  shows "follow_ok t open (te_Seq e) (w @ te_Payload e) (b\<lparr>b_pending := alist_put t (next_batch e b) (b_pending b)\<rparr>)"
proof -
  note b = follow_okD[OF f]
  let ?n = "next_batch e b"
  have m: "0 \<le> b_deliveredSeq b t" "b_deliveredSeq b t \<le> m" using b(4) by (simp_all add: ring_numbered_def)
  have n: "te_TerminalSessionID (tb_event ?n) = t" "te_Kind (tb_event ?n) = ''text_delta''" "tb_lastSeq ?n = te_Seq e"
    "te_Payload (tb_event ?n) = pending_text t b @ te_Payload e"
    using b(1,4) own s by (auto simp: next_batch_def new_batch_def extend_batch_def own_batches_def pending_text_def ring_numbered_def
      batch_seq_ok_def split: option.splits)
  have ob: "own_batches (b\<lparr>b_pending := alist_put t ?n (b_pending b)\<rparr>)" using b(1) n ne by (auto simp: own_batches_def)
  have nu: "ring_numbered t (te_Seq e) (b\<lparr>b_pending := alist_put t ?n (b_pending b)\<rparr>)"
    using b(4) m s n by (auto simp: ring_numbered_def batch_seq_ok_def)
  show ?thesis using b ob nu n by (simp add: follow_ok_def caught_up_def unsent_def pending_text_def)
qed

definition own_seq :: "gostring \<Rightarrow> int \<Rightarrow> TerminalEvent \<Rightarrow> int" where
  "own_seq t m e = (if te_Kind e = ''text_delta'' \<and> te_TerminalSessionID e = t then te_Seq e else m)"

lemma add_truncated_mono: "b_ringTruncated b t \<Longrightarrow> b_ringTruncated (Add e now b) t"
  using take_truncated_mono[of b t "te_TerminalSessionID e" now]
    take_truncated_mono[of "b\<lparr>b_pending := alist_put (te_TerminalSessionID e) (next_batch e b) (b_pending b)\<rparr>" t "te_TerminalSessionID e" now]
  by (auto simp: Add_def FlushTerminal_def add_locked_def Let_def next_batch_def split: prod.splits)

lemma collect_other:
  assumes "follow_ok t open m w b" "k \<noteq> t" "te_TerminalSessionID e = k" "te_Kind e = ''text_delta''" "te_Payload e \<noteq> []"
  shows "follow_ok t open m w (b\<lparr>b_pending := alist_put k (next_batch e b) (b_pending b)\<rparr>)"
proof -
  note b = follow_okD[OF assms(1)]
  let ?b = "b\<lparr>b_pending := alist_put k (next_batch e b) (b_pending b)\<rparr>"
  have n: "te_TerminalSessionID (tb_event (next_batch e b)) = k" "te_Kind (tb_event (next_batch e b)) = ''text_delta''"
    "te_Payload (tb_event (next_batch e b)) \<noteq> []"
    using b(1) assms(3-5) by (auto simp: next_batch_def new_batch_def extend_batch_def own_batches_def split: option.splits)
  have "own_batches ?b" using b(1) n by (auto simp: own_batches_def)
  then show ?thesis using assms(1,2) view_other[of ?b t b] by (simp add: follow_ok_def caught_up_def)
qed

lemma follow_ok_add:
  assumes f: "follow_ok t open m w b" and g: "gate_of t open b" and t: "t \<noteq> []" and tr: "\<not> b_ringTruncated (Add e now b) t"
    and s: "m \<le> own_seq t m e" "te_Kind e = ''text_delta'' \<Longrightarrow> te_TerminalSessionID e = t \<Longrightarrow> m < te_Seq e \<and> te_SeqEnd e = 0"
  shows "follow_ok t open (own_seq t m e) (w @ delta_text t [e]) (Add e now b)"
proof (cases "te_Kind e \<noteq> ''text_delta'' \<or> te_Payload e = []")
  case True
  let ?k = "te_TerminalSessionID e" let ?f = "FlushTerminal ?k now b"
  have a: "Add e now b = emit e ?f" using True by (simp add: Add_def)
  have "\<not> b_ringTruncated ?f t" using tr a by simp
  note fl = follow_ok_flush[OF f g t this]
  show ?thesis
  proof (cases "te_Kind e = ''text_delta'' \<and> ?k = t")
    case False
    then show ?thesis using follow_ok_emit_other[OF fl(1)] a by (auto simp: own_seq_def)
  next
    case own: True
    then have "follow_ok t open (te_Seq e) w (emit e ?f)"
      using follow_ok_emit_empty[OF fl(1) _ t _ _ _ fl(2)] True s g fl(3) by (auto simp: gate_of_def)
    then show ?thesis using own True a by (simp add: own_seq_def)
  qed
next
  case False
  let ?k = "te_TerminalSessionID e" let ?b = "b\<lparr>b_pending := alist_put ?k (next_batch e b) (b_pending b)\<rparr>"
  note b = follow_okD[OF f]
  show ?thesis
  proof (cases "?k = []")
    case True
    then show ?thesis using False follow_ok_emit_other[OF f] t by (auto simp: Add_def own_seq_def)
  next
    case k: False
    have one: "follow_ok t open (own_seq t m e) (w @ delta_text t [e]) ?b"
      using follow_ok_collect[OF f] collect_other[OF f] s False by (cases "?k = t") (auto simp: own_seq_def)
    have a: "Add e now b = (case (if tb_bytes (next_batch e b) \<ge> b_maxBytes b then takeLocked ?k now ?b else ([], ?b)) of (es, b1) \<Rightarrow> emit_all es b1)"
      using False k b(3) by (simp add: Add_def add_locked_def next_batch_def Let_def)
    show ?thesis
    proof (cases "tb_bytes (next_batch e b) \<ge> b_maxBytes b")
      case True
      obtain es b' where tk: "takeLocked ?k now ?b = (es, b')" by fastforce
      with a True have ad: "Add e now b = emit_all es b'" by simp
      have "gate_of t open ?b" using g by (simp add: gate_of_def)
      from follow_ok_take[OF one this t tk] tr ad show ?thesis by simp
    qed (use one a in \<open>simp add: emit_all_def\<close>)
  qed
qed

text \<open>When the last follower leaves, the batch goes into the ring unsent.\<close>

lemma follow_ok_drop:
  assumes f: "follow_ok t open m w b" and c: "k = t \<Longrightarrow> \<not> open" and tr: "\<not> b_ringTruncated (DropTerminal k now b) t"
  shows "follow_ok t open m w (DropTerminal k now b)"
proof (cases "k = []")
  case False
  obtain es b' where tk: "takeLocked k now b = (es, b')" by fastforce
  have d: "DropTerminal k now b = b'" using False tk by (simp add: DropTerminal_def)
  note b = follow_okD[OF f] and fr = take_frame[OF tk]
  have ob: "own_batches b'" using own_batches_take[OF b(1), of k now] tk by simp
  show ?thesis
  proof (cases "k = t")
    case True
    note o = take_own[OF b(1,4) tk[unfolded True]]
    show ?thesis using b fr ob o(1-3) tr d c[OF True] by (simp add: follow_ok_def pending_text_def)
  next
    case False
    note o = take_other[OF _ tk, of t]
    show ?thesis using f fr ob False view_other[of b' t b] o d by (simp add: follow_ok_def caught_up_def)
  qed
qed (use f in \<open>simp add: DropTerminal_def\<close>)

lemma snapshot_fold_upper:
  "fold (snapshot_step u d) ring (p, f, l, ts) = (p', f', l', ts') \<Longrightarrow> l \<le> m \<Longrightarrow> \<forall>e\<in>set ring. re_seqEnd e \<le> m \<Longrightarrow> l' \<le> m"
proof (induction ring arbitrary: p f l ts)
  case (Cons e ring)
  obtain p1 f1 l1 t1 where s: "snapshot_step u d e (p, f, l, ts) = (p1, f1, l1, t1)" by (metis prod_cases4)
  then have "l1 \<le> m" using Cons.prems by (auto simp: snapshot_step_def split: if_splits)
  with Cons.IH[of p1 f1 l1 t1] Cons.prems s show ?case by simp
qed simp

text \<open>A new follower gets what is not sent yet, and the mark moves behind it.\<close>

lemma snapshot_catches_up:
  assumes f: "follow_ok t False m w b" and t: "t \<noteq> []" and s: "SnapshotUndeliveredTerminal t now clock b = ((evt, ok), b1)"
    and tr: "\<not> b_ringTruncated b1 t"
  shows "ok \<longrightarrow> te_Kind evt = ''text_delta'' \<and> te_TerminalSessionID evt = t"
    and "delta_text t (b_sent b1) @ (if ok then te_Payload evt else []) = w" "b_sent b1 = b_sent b"
    and "follow_ok t True m w ((if ok then MarkDelivered evt b1 else b1)\<lparr>b_sent := b_sent b1 @ (if ok then [evt] else [])\<rparr>)"
proof -
  note b = follow_okD[OF f]
  obtain es b' where tk: "takeLocked t now b = (es, b')" by fastforce
  have b1: "b1 = b'" using s t b(3) tk by (auto simp: SnapshotUndeliveredTerminal_def snapshotTerminal_def Let_def split: if_splits prod.splits)
  note fr = take_frame[OF tk, folded b1] and o = take_own[OF b(1,4) tk tr[unfolded b1], folded b1]
  have ob: "own_batches b1" using own_batches_take[OF b(1), of t now] tk b1 by simp
  let ?d = "b_deliveredSeq b1 t" let ?r = "b_rings b1 t"
  obtain pl fi l ts where fo: "fold (snapshot_step True ?d) ?r ([], 0, 0, 0) = (pl, fi, l, ts)" by (metis prod_cases4)
  note sf = snapshot_fold[OF fo]
  have un: "pl = unsent t b1" using sf by (simp add: unsent_def)
  have pos: "\<forall>x\<in>set ?r. 0 < re_seqEnd x \<and> re_seqEnd x \<le> m" "0 \<le> ?d" "?d \<le> m" using o(1) by (simp_all add: ring_numbered_def)
  have pend: "pending_text t b1 = []" using o(3) by (simp add: pending_text_def)
  have w: "delta_text t (b_sent b1) @ unsent t b1 = w" using b(6) fr o(2) by simp
  have evt: "?r \<noteq> [] \<Longrightarrow> ok = (pl \<noteq> []) \<and> te_Kind evt = ''text_delta'' \<and> te_TerminalSessionID evt = t \<and> te_Payload evt = pl \<and>
      te_SeqEnd evt = l \<and> te_Seq evt = 0"
    using s t b(3) tk b1 fo by (auto simp: SnapshotUndeliveredTerminal_def snapshotTerminal_def Let_def empty_event_def)
  have no: "?r = [] \<Longrightarrow> \<not> ok" using s t b(3) tk b1 by (auto simp: SnapshotUndeliveredTerminal_def snapshotTerminal_def Let_def)
  show "ok \<longrightarrow> te_Kind evt = ''text_delta'' \<and> te_TerminalSessionID evt = t" using evt no by blast
  have pay: "(if ok then te_Payload evt else []) = unsent t b1" using evt no un by (cases "?r = []") (auto simp: unsent_def)
  then show "delta_text t (b_sent b1) @ (if ok then te_Payload evt else []) = w" using w by simp
  show "b_sent b1 = b_sent b" by (rule fr(4))
  have lm: "l \<le> m" using snapshot_fold_upper[OF fo] pos by fastforce
  have mark: "b_deliveredSeq (MarkDelivered evt b1) t = max l ?d" if ok
  proof -
    from that no have r: "?r \<noteq> []" by blast
    with evt that have "pl \<noteq> []" by blast
    then obtain x where "x \<in> set ?r" "undelivered ?d x" using sf by (auto simp: filter_empty_conv)
    then have "0 < l" using sf pos by fastforce
    with evt r t show ?thesis by (auto simp: MarkDelivered_def Let_def)
  qed
  have all: "re_seqEnd x \<le> max l ?d" if "x \<in> set ?r" for x using that sf pos by (auto simp: undelivered_def)
  have still: "re_seqEnd x \<le> ?d" if "x \<in> set ?r" "\<not> ok" for x
  proof (rule ccontr)
    assume "\<not> re_seqEnd x \<le> ?d"
    with that(1) have "x \<in> set (filter (undelivered ?d) ?r)" by (auto simp: undelivered_def)
    moreover have "re_payload x \<noteq> []" using o(1) that(1) by (simp add: ring_numbered_def)
    ultimately have "unsent t b1 \<noteq> []" by (auto simp: unsent_def)
    then show False using evt un that by (cases "?r = []") auto
  qed
  let ?n = "(if ok then MarkDelivered evt b1 else b1)\<lparr>b_sent := b_sent b1 @ (if ok then [evt] else [])\<rparr>"
  have up: "caught_up t ?n" using all still by (cases ok) (simp_all add: caught_up_def mark)
  have nu: "ring_numbered t m ?n" using o(1,3) pos lm by (cases ok) (simp_all add: ring_numbered_def batch_seq_ok_def mark)
  have sent: "delta_text t (b_sent ?n) = w"
    using pay w evt no by (cases ok) auto
  show "follow_ok t True m w ?n"
    using b(2,3) fr ob up nu caught_up_unsent[OF nu up] pend sent by (cases ok) (simp_all add: follow_ok_def own_batches_def pending_text_def)
qed

subsection \<open>The connection\<close>

definition out_text :: "gostring \<Rightarrow> out_message list \<Rightarrow> gostring" where
  "out_text t ms = concat (map (\<lambda>m. case m of OutTerminal e \<Rightarrow> delta_text t [e] | _ \<Rightarrow> []) ms)"

lemma out_text_simps [simp]:
  "out_text t [] = []" "out_text t (ms @ ns) = out_text t ms @ out_text t ns"
  "out_text t (OutTerminal e # ms) = delta_text t [e] @ out_text t ms" "out_text t (OutInject i # ms) = out_text t ms"
  "out_text t (OutHello d v # ms) = out_text t ms"
  by (simp_all add: out_text_def)

abbreviation followers :: "connection \<Rightarrow> gostring \<Rightarrow> int" where
  "followers cn t \<equiv> follower_count (ts_runner (cn_state cn)) t"

lemma mirror_followers: "rn_subscribers (snd (mirrorTerminalEventToInject now e rn)) = rn_subscribers rn"
  by (simp add: mirrorTerminalEventToInject_def pruneExpiredActiveInjectsLocked_def Let_def split: option.splits)

lemma raw_send:
  "cn_batcher (rawSendTerminal now e cn) = cn_batcher cn" "followers (rawSendTerminal now e cn) t = followers cn t"
  "out_text t (cn_out (rawSendTerminal now e cn)) = out_text t (cn_out cn) @ delta_text t [e]"
  using mirror_followers[of now e "ts_runner (cn_state cn)"]
  by (auto simp: rawSendTerminal_def follower_count_def split: prod.splits option.splits)

lemma raw_sends:
  "cn_batcher (fold (rawSendTerminal now) es cn) = cn_batcher cn" "followers (fold (rawSendTerminal now) es cn) t = followers cn t"
  "out_text t (cn_out (fold (rawSendTerminal now) es cn)) = out_text t (cn_out cn) @ delta_text t es"
  by (induction es arbitrary: cn) (simp_all add: raw_send)

definition conn_ok :: "gostring \<Rightarrow> int \<Rightarrow> gostring \<Rightarrow> connection \<Rightarrow> bool" where
  "conn_ok t m w cn \<longleftrightarrow>
     0 \<le> followers cn t \<and> b_sent (cn_batcher cn) = [] \<and>
     (\<exists>rest. follow_ok t (0 < followers cn t) m rest (cn_batcher cn) \<and> out_text t (cn_out cn) @ rest = w)"

lemma follow_ok_gate [simp]: "follow_ok t open m w (b\<lparr>b_shouldSend := g\<rparr>) = follow_ok t open m w b"
  by (simp add: follow_ok_def own_batches_def ring_numbered_def caught_up_def unsent_def pending_text_def)

lemma follow_ok_sent:
  "follow_ok t open m (delta_text t (b_sent b) @ rest) b \<Longrightarrow> follow_ok t open m rest (b\<lparr>b_sent := []\<rparr>)"
  by (simp add: follow_ok_def own_batches_def ring_numbered_def caught_up_def unsent_def pending_text_def)

lemma gate_should:
  "TrimSpace t \<noteq> [] \<Longrightarrow> gate_of t (0 < follower_count rn t) (SetShouldSend (Some (shouldForwardTerminalEvent rn)) b)"
  by (auto simp: gate_of_def SetShouldSend_def shouldForwardTerminalEvent_def EventTextDelta_def)

text \<open>An operation of the batcher that keeps the three parts keeps them on the connection.\<close>

lemma conn_ok_with:
  assumes c: "conn_ok t m w cn" and t: "TrimSpace t \<noteq> []"
    and f: "\<And>b rest. follow_ok t (0 < followers cn t) m rest b \<Longrightarrow> gate_of t (0 < followers cn t) b \<Longrightarrow>
       \<not> b_ringTruncated (f b) t \<Longrightarrow> follow_ok t (0 < followers cn t) m' (rest @ x) (f b)"
    and tr: "\<not> b_ringTruncated (cn_batcher (with_batcher now f cn)) t"
  shows "conn_ok t m' (w @ x) (with_batcher now f cn)"
proof -
  let ?g = "SetShouldSend (Some (shouldForwardTerminalEvent (ts_runner (cn_state cn)))) (cn_batcher cn)"
  from c obtain rest where r: "follow_ok t (0 < followers cn t) m rest (cn_batcher cn)" "out_text t (cn_out cn) @ rest = w"
    and n: "0 \<le> followers cn t" by (auto simp: conn_ok_def)
  have "follow_ok t (0 < followers cn t) m rest ?g" using r(1) by (simp add: SetShouldSend_def)
  moreover have "\<not> b_ringTruncated (f ?g) t" using tr by (simp add: with_batcher_def Let_def raw_sends)
  ultimately have fo: "follow_ok t (0 < followers cn t) m' (rest @ x) (f ?g)" using f gate_should[OF t] by blast
  then obtain u where u: "rest @ x = delta_text t (b_sent (f ?g)) @ u" using follow_okD(6)[OF fo] by metis
  have "follow_ok t (0 < followers cn t) m' u ((f ?g)\<lparr>b_sent := []\<rparr>)" using fo u by (intro follow_ok_sent) simp
  moreover have "out_text t (cn_out cn) @ delta_text t (b_sent (f ?g)) @ u = w @ x" using r(2) u by (metis append.assoc)
  ultimately show ?thesis using n by (auto simp: conn_ok_def with_batcher_def Let_def raw_sends)
qed

lemma followers_with [simp]: "followers (with_batcher now f cn) t = followers cn t"
  by (simp add: with_batcher_def Let_def raw_sends)

lemma follow_unfollow:
  assumes "TrimSpace k \<noteq> []"
  shows "setTerminalSubscribed k True rn = (n, rn1) \<Longrightarrow> n = follower_count rn k + 1 \<and> follower_count rn1 t = (if t = k then n else follower_count rn t)"
    and "setTerminalSubscribed k False rn = (n, rn1) \<Longrightarrow> 0 \<le> follower_count rn k \<Longrightarrow>
      n = max 0 (follower_count rn k - 1) \<and> follower_count rn1 t = (if t = k then n else follower_count rn t)"
  using assms by (auto simp: setTerminalSubscribed_def follower_count_def Let_def split: if_splits option.splits)

lemma blank_follow: "TrimSpace k = [] \<Longrightarrow> setTerminalSubscribed k s rn = (0, rn)"
  by (simp add: setTerminalSubscribed_def)

text \<open>A new follower of this terminal, or of another one.\<close>

lemma other_snapshot:
  assumes f: "follow_ok t open m w b" and k: "t \<noteq> k" and s: "SnapshotUndeliveredTerminal k now clock b = ((evt, ok), b1)"
  shows "follow_ok t open m w b1" "follow_ok t open m w (MarkDelivered evt b1)" "ok \<Longrightarrow> te_TerminalSessionID evt = k" "b_sent b1 = b_sent b"
proof -
  note b = follow_okD[OF f]
  obtain es b' where tk: "takeLocked k now b = (es, b')" by fastforce
  have b1: "b1 = b \<or> b1 = b'" and e: "te_TerminalSessionID evt = k \<or> te_Kind evt = []" "ok \<Longrightarrow> te_TerminalSessionID evt = k"
    using s b(3) tk by (auto simp: SnapshotUndeliveredTerminal_def snapshotTerminal_def Let_def empty_event_def split: if_splits prod.splits)
  note o = take_other[OF k tk] and fr = take_frame[OF tk]
  have "follow_ok t open m w b'" using f fr own_batches_take[OF b(1), of k now] tk view_other[of b' t b] o
    by (simp add: follow_ok_def caught_up_def)
  with b1 f show f1: "follow_ok t open m w b1" by blast
  show "b_sent b1 = b_sent b" using b1 fr by auto
  show "ok \<Longrightarrow> te_TerminalSessionID evt = k" by (rule e(2))
  have "b_deliveredSeq (MarkDelivered evt b1) t = b_deliveredSeq b1 t" using e(1) k by (auto simp: MarkDelivered_def Let_def)
  with f1 view_other[of "MarkDelivered evt b1" t b1] show "follow_ok t open m w (MarkDelivered evt b1)"
    by (simp add: follow_ok_def own_batches_def caught_up_def)
qed

lemma conn_ok_follow:
  assumes c: "conn_ok t m w cn" and t: "TrimSpace t \<noteq> []" and tr: "\<not> b_ringTruncated (cn_batcher (on_subscribe k now cn)) t"
  shows "conn_ok t m w (on_subscribe k now cn)"
    and "k = t \<Longrightarrow> followers cn t = 0 \<Longrightarrow> out_text t (cn_out (on_subscribe k now cn)) = w"
proof -
  from c obtain rest where f: "follow_ok t (0 < followers cn t) m rest (cn_batcher cn)" and w: "out_text t (cn_out cn) @ rest = w"
    and n0: "0 \<le> followers cn t" and sent: "b_sent (cn_batcher cn) = []" by (auto simp: conn_ok_def)
  have ne: "t \<noteq> []" using t by (auto simp: TrimSpace_def unsegs_def)
  obtain n rn where st: "setTerminalSubscribed k True (ts_runner (cn_state cn)) = (n, rn)" by fastforce
  let ?cn = "cn\<lparr>cn_state := (cn_state cn)\<lparr>ts_runner := rn\<rparr>\<rparr>"
  obtain evt ok b1 where sn: "SnapshotUndeliveredTerminal k now now (cn_batcher cn) = ((evt, ok), b1)" by (metis prod.exhaust)
  have on: "on_subscribe k now cn =
     (if n = 1 then (if ok then (rawSendTerminal now evt (?cn\<lparr>cn_batcher := b1\<rparr>))\<lparr>cn_batcher := MarkDelivered evt b1\<rparr> else ?cn\<lparr>cn_batcher := b1\<rparr>) else ?cn)"
    by (simp add: on_subscribe_def set_followed_def st sn Let_def)
  have "conn_ok t m w (on_subscribe k now cn) \<and> (k = t \<longrightarrow> followers cn t = 0 \<longrightarrow> out_text t (cn_out (on_subscribe k now cn)) = w)"
  proof (cases "TrimSpace k = []")
    case True
    then have "on_subscribe k now cn = cn" using on blank_follow[OF True] st by simp
    then show ?thesis using c True t by auto
  next
    case False
    note fu = follow_unfollow(1)[OF False st]
    show ?thesis
    proof (cases "n = 1")
      case False
      then show ?thesis using on fu[of t] f w n0 sent by (auto simp: conn_ok_def)
    next
      case one: True
      show ?thesis
      proof (cases "k = t")
        case True
        have z: "followers cn t = 0" "follower_count rn t = 1" using fu[of t] one True by auto
        have f0: "follow_ok t False m rest (cn_batcher cn)" using f z by simp
        have t1: "\<not> b_ringTruncated b1 t" using tr on one by (cases ok) simp_all
        note sc = snapshot_catches_up[OF f0 ne sn[unfolded True] t1]
        have r: "(if ok then te_Payload evt else []) = rest" using sc(2,3) sent by simp
        have x: "follow_ok t True m [] (if ok then MarkDelivered evt b1 else b1)"
        proof -
          from sc(4) have "follow_ok t True m (delta_text t (b_sent b1 @ (if ok then [evt] else [])) @ [])
              ((if ok then MarkDelivered evt b1 else b1)\<lparr>b_sent := b_sent b1 @ (if ok then [evt] else [])\<rparr>)"
            using sc(1,3) r sent by (cases ok) simp_all
          from follow_ok_sent[of t True m "(if ok then MarkDelivered evt b1 else b1)\<lparr>b_sent := b_sent b1 @ (if ok then [evt] else [])\<rparr>" "[]"] this
          have "follow_ok t True m [] ((if ok then MarkDelivered evt b1 else b1)\<lparr>b_sent := []\<rparr>)" by simp
          then show ?thesis using sc(3) sent by (cases ok) (simp_all add: follow_ok_def own_batches_def ring_numbered_def caught_up_def unsent_def pending_text_def)
        qed
        show ?thesis using on one True x r w z sc(1,3) sent by (cases ok) (auto simp: conn_ok_def raw_send)
      next
        case False
        then have "t \<noteq> k" by simp
        note os = other_snapshot[OF f this sn]
        show ?thesis using on one False fu[of t] os w n0 sent by (cases ok) (auto simp: conn_ok_def raw_send)
      qed
    qed
  qed
  then show "conn_ok t m w (on_subscribe k now cn)"
    "k = t \<Longrightarrow> followers cn t = 0 \<Longrightarrow> out_text t (cn_out (on_subscribe k now cn)) = w" by blast+
qed

lemma follow_ok_close: "follow_ok t open m w b \<Longrightarrow> (open' \<Longrightarrow> open) \<Longrightarrow> follow_ok t open' m w b"
  by (simp add: follow_ok_def)

lemma conn_ok_unfollow:
  assumes c: "conn_ok t m w cn" and t: "TrimSpace t \<noteq> []" and tr: "\<not> b_ringTruncated (cn_batcher (on_unsubscribe k now cn)) t"
  shows "conn_ok t m w (on_unsubscribe k now cn)"
proof -
  from c obtain rest where f: "follow_ok t (0 < followers cn t) m rest (cn_batcher cn)" and w: "out_text t (cn_out cn) @ rest = w"
    and n0: "0 \<le> followers cn t" and sent: "b_sent (cn_batcher cn) = []" by (auto simp: conn_ok_def)
  obtain n rn where st: "setTerminalSubscribed k False (ts_runner (cn_state cn)) = (n, rn)" by fastforce
  have on: "on_unsubscribe k now cn = (let cn1 = cn\<lparr>cn_state := (cn_state cn)\<lparr>ts_runner := rn\<rparr>\<rparr> in
     if n = 0 then cn1\<lparr>cn_batcher := DropTerminal k now (cn_batcher cn1)\<rparr> else cn1)"
    by (simp add: on_unsubscribe_def set_followed_def st Let_def)
  have cnt: "0 \<le> follower_count rn t" "0 < follower_count rn t \<Longrightarrow> 0 < followers cn t" "n = 0 \<Longrightarrow> k = t \<Longrightarrow> \<not> 0 < follower_count rn t"
  proof -
    show "0 \<le> follower_count rn t" "0 < follower_count rn t \<Longrightarrow> 0 < followers cn t" "n = 0 \<Longrightarrow> k = t \<Longrightarrow> \<not> 0 < follower_count rn t"
      using st n0 t by (auto simp: setTerminalSubscribed_def follower_count_def Let_def split: if_splits option.splits)
  qed
  have f1: "follow_ok t (0 < follower_count rn t) m rest (cn_batcher cn)" by (rule follow_ok_close[OF f cnt(2)])
  have s: "b_sent (DropTerminal k now (cn_batcher cn)) = []"
    using take_frame[of k now "cn_batcher cn"] sent by (cases "takeLocked k now (cn_batcher cn)") (simp add: DropTerminal_def)
  show ?thesis
  proof (cases "n = 0")
    case True
    have "follow_ok t (0 < follower_count rn t) m rest (DropTerminal k now (cn_batcher cn))"
      using follow_ok_drop[OF f1 cnt(3)[OF True]] tr on True by simp
    then show ?thesis using on True w cnt(1) s by (auto simp: conn_ok_def)
  next
    case False
    then show ?thesis using on f1 w cnt(1) sent by (auto simp: conn_ok_def)
  qed
qed

subsection \<open>A connection and what comes over it\<close>

datatype conn_op = Produce TerminalEvent | FlushTimer gostring | Follow gostring | Unfollow gostring

definition conn_step :: "conn_op \<times> time \<Rightarrow> connection \<Rightarrow> connection" where
  "conn_step op cn =
     (case op of (x, now) \<Rightarrow>
        (case x of
           Produce e \<Rightarrow> sendTerminal now e cn
         | FlushTimer k \<Rightarrow> flush_timer k now cn
         | Follow k \<Rightarrow> on_subscribe k now cn
         | Unfollow k \<Rightarrow> on_unsubscribe k now cn))"

definition own_events :: "gostring \<Rightarrow> (conn_op \<times> time) list \<Rightarrow> TerminalEvent list" where
  "own_events t ops =
     filter (\<lambda>e. te_Kind e = ''text_delta'' \<and> te_TerminalSessionID e = t)
       (concat (map (\<lambda>op. case fst op of Produce e \<Rightarrow> [e] | _ \<Rightarrow> []) ops))"

definition terminal_output :: "gostring \<Rightarrow> (conn_op \<times> time) list \<Rightarrow> gostring" where
  "terminal_output t ops = concat (map te_Payload (own_events t ops))"

definition last_number :: "gostring \<Rightarrow> (conn_op \<times> time) list \<Rightarrow> int" where
  "last_number t ops = last (0 # map te_Seq (own_events t ops))"

text \<open>The events of a terminal are numbered from one upwards and have no range of their own.\<close>

definition numbered_output :: "gostring \<Rightarrow> (conn_op \<times> time) list \<Rightarrow> bool" where
  "numbered_output t ops \<longleftrightarrow>
     sorted_wrt (<) (0 # map te_Seq (own_events t ops)) \<and> list_all (\<lambda>e. te_SeqEnd e = 0) (own_events t ops)"

lemma own_events_snoc:
  "own_events t (ops @ [op]) =
     own_events t ops @ (case fst op of Produce e \<Rightarrow> if te_Kind e = ''text_delta'' \<and> te_TerminalSessionID e = t then [e] else [] | _ \<Rightarrow> [])"
  by (auto simp: own_events_def split: conn_op.splits)

lemma numbered_output_snoc:
  assumes "numbered_output t (ops @ [op])"
  shows "numbered_output t ops"
    and "fst op = Produce e \<Longrightarrow> te_Kind e = ''text_delta'' \<Longrightarrow> te_TerminalSessionID e = t \<Longrightarrow>
      last_number t ops < te_Seq e \<and> te_SeqEnd e = 0"
  using assms
  by (auto simp: numbered_output_def own_events_snoc sorted_wrt_append last_number_def last_map split: conn_op.splits if_splits)

lemma last_number_snoc:
  "last_number t (ops @ [op]) = (case fst op of Produce e \<Rightarrow> own_seq t (last_number t ops) e | _ \<Rightarrow> last_number t ops)"
  by (auto simp: last_number_def own_events_snoc own_seq_def split: conn_op.splits)

lemma terminal_output_snoc:
  "terminal_output t (ops @ [op]) = terminal_output t ops @ (case fst op of Produce e \<Rightarrow> delta_text t [e] | _ \<Rightarrow> [])"
  by (auto simp: terminal_output_def own_events_snoc split: conn_op.splits)

lemma with_truncated_mono:
  assumes "\<And>b. b_ringTruncated b t \<Longrightarrow> b_ringTruncated (f b) t" "b_ringTruncated (cn_batcher cn) t"
  shows "b_ringTruncated (cn_batcher (with_batcher now f cn)) t"
  using assms by (simp add: with_batcher_def Let_def raw_sends SetShouldSend_def)

lemma snapshot_truncated_mono:
  "b_ringTruncated b t \<Longrightarrow> b_ringTruncated (snd (SnapshotUndeliveredTerminal k now clock b)) t"
  using take_truncated_mono[of b t k now]
  by (auto simp: SnapshotUndeliveredTerminal_def snapshotTerminal_def Let_def split: prod.splits)

lemma subscribe_truncated_mono:
  assumes "b_ringTruncated (cn_batcher cn) t"
  shows "b_ringTruncated (cn_batcher (on_subscribe k now cn)) t"
proof -
  obtain n rn where st: "setTerminalSubscribed k True (ts_runner (cn_state cn)) = (n, rn)" by fastforce
  obtain evt ok b1 where sn: "SnapshotUndeliveredTerminal k now now (cn_batcher cn) = ((evt, ok), b1)" by (metis prod.exhaust)
  from snapshot_truncated_mono[OF assms, of k now now] sn have "b_ringTruncated b1 t" by simp
  then show ?thesis using assms by (simp add: on_subscribe_def set_followed_def st sn Let_def)
qed

lemma unsubscribe_truncated_mono:
  "b_ringTruncated (cn_batcher cn) t \<Longrightarrow> b_ringTruncated (cn_batcher (on_unsubscribe k now cn)) t"
  using take_truncated_mono[of "cn_batcher cn" t k now]
  by (auto simp: on_unsubscribe_def set_followed_def DropTerminal_def Let_def split: prod.splits)

lemma flush_truncated_mono: "b_ringTruncated b t \<Longrightarrow> b_ringTruncated (FlushTerminal k now b) t"
  using take_truncated_mono[of b t k now] by (auto simp: FlushTerminal_def split: prod.splits)

lemma step_truncated_mono: "b_ringTruncated (cn_batcher cn) t \<Longrightarrow> b_ringTruncated (cn_batcher (conn_step op cn)) t"
  by (auto simp: conn_step_def sendTerminal_def flush_timer_def subscribe_truncated_mono unsubscribe_truncated_mono
      intro!: with_truncated_mono add_truncated_mono flush_truncated_mono split: prod.splits conn_op.splits)

lemma conn_ok_step:
  assumes c: "conn_ok t m w cn" and t: "TrimSpace t \<noteq> []" and tr: "\<not> b_ringTruncated (cn_batcher (conn_step op cn)) t"
    and s: "\<And>e. fst op = Produce e \<Longrightarrow> te_Kind e = ''text_delta'' \<Longrightarrow> te_TerminalSessionID e = t \<Longrightarrow> m < te_Seq e \<and> te_SeqEnd e = 0"
  shows "conn_ok t (case fst op of Produce e \<Rightarrow> own_seq t m e | _ \<Rightarrow> m) (w @ (case fst op of Produce e \<Rightarrow> delta_text t [e] | _ \<Rightarrow> []))
     (conn_step op cn)"
proof -
  obtain x now where op: "op = (x, now)" by fastforce
  have ne: "t \<noteq> []" using t by (auto simp: TrimSpace_def unsegs_def)
  show ?thesis
  proof (cases x)
    case (Produce e)
    then have tr': "\<not> b_ringTruncated (cn_batcher (with_batcher now (Add e now) cn)) t"
      using tr by (simp add: op conn_step_def sendTerminal_def)
    have "conn_ok t (own_seq t m e) (w @ delta_text t [e]) (with_batcher now (Add e now) cn)"
    proof (rule conn_ok_with[OF c t _ tr'])
      fix b rest assume "follow_ok t (0 < followers cn t) m rest b" "gate_of t (0 < followers cn t) b" "\<not> b_ringTruncated (Add e now b) t"
      from follow_ok_add[OF this(1,2) ne this(3)] s[of e]
      show "follow_ok t (0 < followers cn t) (own_seq t m e) (rest @ delta_text t [e]) (Add e now b)"
        by (fastforce simp: op Produce own_seq_def)
    qed
    then show ?thesis by (simp add: op Produce conn_step_def sendTerminal_def)
  next
    case (FlushTimer k)
    then have tr': "\<not> b_ringTruncated (cn_batcher (with_batcher now (FlushTerminal k now) cn)) t"
      using tr by (simp add: op conn_step_def flush_timer_def)
    have "conn_ok t m (w @ []) (with_batcher now (FlushTerminal k now) cn)"
      by (rule conn_ok_with[OF c t _ tr']) (simp add: follow_ok_flush[OF _ _ ne])
    then show ?thesis by (simp add: op FlushTimer conn_step_def flush_timer_def)
  next
    case (Follow k)
    then show ?thesis using conn_ok_follow(1)[OF c t] tr by (simp add: op conn_step_def)
  next
    case (Unfollow k)
    then show ?thesis using conn_ok_unfollow[OF c t] tr by (simp add: op conn_step_def)
  qed
qed

lemma conn_ok_run:
  assumes "conn_ok t 0 [] cn" "TrimSpace t \<noteq> []"
  shows "numbered_output t ops \<Longrightarrow> \<not> b_ringTruncated (cn_batcher (fold conn_step ops cn)) t \<Longrightarrow>
     conn_ok t (last_number t ops) (terminal_output t ops) (fold conn_step ops cn)"
proof (induction ops rule: rev_induct)
  case Nil
  then show ?case using assms by (simp add: last_number_def terminal_output_def own_events_def)
next
  case (snoc op ops)
  note no = numbered_output_snoc[OF snoc.prems(1)]
  have tr: "\<not> b_ringTruncated (cn_batcher (conn_step op (fold conn_step ops cn))) t" using snoc.prems(2) by simp
  have "\<not> b_ringTruncated (cn_batcher (fold conn_step ops cn)) t" by (rule contrapos_nn[OF tr step_truncated_mono])
  from snoc.IH[OF no(1) this] have c: "conn_ok t (last_number t ops) (terminal_output t ops) (fold conn_step ops cn)" .
  have "conn_ok t (last_number t (ops @ [op])) (terminal_output t (ops @ [op])) (conn_step op (fold conn_step ops cn))"
    unfolding last_number_snoc terminal_output_snoc by (rule conn_ok_step[OF c assms(2) tr]) (rule no(2))
  then show ?case by simp
qed

lemma announced_text: "out_text t (map (\<lambda>s. OutTerminal (announce_event now s)) sums) = []"
  by (induction sums) (simp_all add: announce_event_def)

lemma conn_ok_connect:
  assumes "0 \<le> follower_count (ts_runner st) t"
  shows "conn_ok t 0 [] (connect device version now st perms)"
  using assms announced_text
  by (simp add: conn_ok_def connect_def new_batcher_def newTerminalEventBatcher_def follow_ok_def own_batches_def ring_numbered_def
      caught_up_def unsent_def pending_text_def batch_seq_ok_def)


text \<open>Text printed before anyone follows and text that is still collected.\<close>

definition ex_piece :: "int \<Rightarrow> gostring \<Rightarrow> TerminalEvent" where
  "ex_piece n txt = empty_event\<lparr>te_TerminalSessionID := ''t'', te_Kind := ''text_delta'', te_Seq := n, te_Payload := txt\<rparr>"

definition ex_state :: terminal_state where "ex_state = \<lparr>ts_runner = new_runner, ts_terminal = NewManager\<rparr>"

definition ex_ops :: "(conn_op \<times> time) list" where
  "ex_ops = [(Produce (ex_piece 1 ''a''), 1), (Produce (ex_piece 2 ''b''), 3)]"

lemma ex_own: "own_events ''t'' ex_ops = [ex_piece 1 ''a'', ex_piece 2 ''b'']"
  by (simp add: own_events_def ex_ops_def ex_piece_def)

lemma ex_connect: "connect [] [] 0 ex_state NewStore = \<lparr>cn_state = ex_state, cn_batcher = new_batcher, cn_store = NewStore, cn_out = [OutHello [] []]\<rparr>"
  by (simp add: connect_def ex_state_def ListSessions_def NewManager_def)

lemmas ex_simps = conn_step_def sendTerminal_def with_batcher_def Add_def add_locked_def ex_piece_def empty_event_def
  new_batcher_def newTerminalEventBatcher_def terminalBatchFlushInterval_def terminalBatchMaxBytes_def
  terminalBatchRingMaxBytes_def terminalBatchRingMaxAge_def new_batch_def extend_batch_def SetShouldSend_def emit_all_def Let_def

definition ex_collected :: terminalEventBatcher where
  "ex_collected = (SetShouldSend (Some (shouldForwardTerminalEvent new_runner)) new_batcher)\<lparr>b_pending :=
     [(''t'', \<lparr>tb_event = (ex_piece 2 ''ab''), tb_bytes = 2, tb_firstSeq = 1, tb_lastSeq = 2\<rparr>)]\<rparr>"

lemma ex_connection:
  "fold conn_step ex_ops (connect [] [] 0 ex_state NewStore) =
     \<lparr>cn_state = ex_state, cn_batcher = ex_collected, cn_store = NewStore, cn_out = [OutHello [] []]\<rparr>"
  by (simp add: ex_connect ex_ops_def ex_simps ex_collected_def) (simp add: ex_state_def)

lemma trim_t: "TrimSpace ''t'' = ''t''"
  by (simp add: TrimSpace_def unsegs_def rune_segs_ascii ascii_def is_space_def)

lemma ex_not_truncated: "\<not> b_ringTruncated (snd (SnapshotUndeliveredTerminal ''t'' 7 7 ex_collected)) ''t''"
proof -
  have "\<not> b_ringTruncated (snd (takeLocked ''t'' 7 ex_collected)) ''t''"
    by (simp add: takeLocked_def ex_collected_def SetShouldSend_def new_batcher_def newTerminalEventBatcher_def recordRingLocked_def
       ring_start.simps sealed_event_def ex_piece_def empty_event_def alist_del_def Let_def terminalBatchRingMaxBytes_def terminalBatchRingMaxAge_def)
  moreover have "\<not> b_closed ex_collected" by (simp add: ex_collected_def SetShouldSend_def new_batcher_def newTerminalEventBatcher_def)
  ultimately show ?thesis by (auto simp: SnapshotUndeliveredTerminal_def snapshotTerminal_def Let_def split: prod.splits)
qed

lemma ex_follow_fits: "\<not> b_ringTruncated (cn_batcher (on_subscribe ''t'' 7 (fold conn_step ex_ops (connect [] [] 0 ex_state NewStore)))) ''t''"
proof -
  obtain evt ok b1 where sn: "SnapshotUndeliveredTerminal ''t'' 7 7 ex_collected = ((evt, ok), b1)" by (metis prod.exhaust)
  then have "\<not> b_ringTruncated b1 ''t''" using ex_not_truncated by simp
  with sn show ?thesis unfolding ex_connection
    by (cases ok) (simp_all add: on_subscribe_def set_followed_def setTerminalSubscribed_def trim_t ex_state_def new_runner_def follower_count_def Let_def)
qed


end
