(* ===== verification/ConnProps.thy ===== *)
theory ConnProps
  imports FollowProps
begin

section \<open>More about the control connection\<close>

text \<open>
  The delays between connections, what a new connection inherits from the one before, the
  output of the shells of Codex, the answer to a request for a session, and the listing of
  a directory.
\<close>

subsection \<open>Delays\<close>

lemma quot_nonneg: "0 \<le> a \<Longrightarrow> 0 < b \<Longrightarrow> quot a b = a div b"
  by (cases "a = 0") (simp_all add: quot_def)

lemma remainder_nonneg: "0 \<le> a \<Longrightarrow> 0 < b \<Longrightarrow> remainder a b = a mod b"
  by (simp add: remainder_def quot_nonneg minus_div_mult_eq_mod)

lemma jittered_bounds:
  assumes "0 \<le> nano" "4 \<le> d"
  shows "d - d div 4 < jitteredBackoff nano d" "jitteredBackoff nano d \<le> d"
proof -
  have s: "0 < d div 4" using assms(2) by simp
  then have j: "jitteredBackoff nano d = d - nano mod (d div 4)"
    using assms by (simp add: jitteredBackoff_def quot_nonneg remainder_nonneg)
  have "0 \<le> nano mod (d div 4)" "nano mod (d div 4) < d div 4" using s by simp_all
  then show "d - d div 4 < jitteredBackoff nano d" "jitteredBackoff nano d \<le> d" by (simp_all add: j)
qed

definition backoff_ok :: "duration \<Rightarrow> bool" where
  "backoff_ok d \<longleftrightarrow> controlReconnectInitial \<le> d \<and> d \<le> controlReconnectMax"

lemma backoff_next: "backoff_ok d \<Longrightarrow> backoff_ok (nextControlBackoff d)"
  by (auto simp: backoff_ok_def nextControlBackoff_def controlReconnectInitial_def controlReconnectMax_def)

lemma run_turn_ok:
  assumes "backoff_ok b" "0 \<le> nano" "run_turn nano c b = (delay, next)"
  shows "backoff_ok next" "375 * millisecond < delay" "delay \<le> controlReconnectMax"
    "controlReconnectStable \<le> c \<Longrightarrow> delay \<le> controlReconnectInitial" "delay \<le> b"
proof -
  let ?b = "if c \<ge> controlReconnectStable then controlReconnectInitial else b"
  have b: "backoff_ok ?b" using assms(1) by (auto simp: backoff_ok_def controlReconnectInitial_def controlReconnectMax_def)
  have r: "delay = jitteredBackoff nano ?b" "next = nextControlBackoff ?b" using assms(3) by (auto simp: run_turn_def Let_def)
  have l: "500 * millisecond \<le> ?b" "?b \<le> controlReconnectMax" "?b \<le> b"
    using b assms(1) by (auto simp: backoff_ok_def controlReconnectInitial_def)
  then have j: "?b - ?b div 4 < delay" "delay \<le> ?b" using jittered_bounds[OF assms(2), of ?b] r(1) by simp_all
  show "backoff_ok next" using backoff_next[OF b] r(2) by simp
  show "375 * millisecond < delay" using j(1) l(1) by linarith
  show "delay \<le> controlReconnectMax" "delay \<le> b" using j(2) l(2,3) by linarith+
  show "controlReconnectStable \<le> c \<Longrightarrow> delay \<le> controlReconnectInitial" using j(2) by simp
qed

text \<open>
  C21. The daemon neither hammers the server nor stays away: whatever the connections do, every
  delay between two of them is above 375 milliseconds and at most 30 seconds, and after a
  connection that was up for 30 seconds it is at most half a second.
\<close>

theorem reconnect_delays_bounded:
  assumes "\<forall>(nano, connectedFor)\<in>set turns. 0 \<le> nano"
  shows "\<forall>i<length turns. 375 * millisecond < run_turns turns controlReconnectInitial ! i \<and>
    run_turns turns controlReconnectInitial ! i \<le> controlReconnectMax \<and>
    (controlReconnectStable \<le> snd (turns ! i) \<longrightarrow> run_turns turns controlReconnectInitial ! i \<le> controlReconnectInitial)"
proof -
  have "\<forall>i<length turns. 375 * millisecond < run_turns turns b ! i \<and> run_turns turns b ! i \<le> controlReconnectMax \<and>
      (controlReconnectStable \<le> snd (turns ! i) \<longrightarrow> run_turns turns b ! i \<le> controlReconnectInitial)" if "backoff_ok b" for b
    using assms that
  proof (induction turns arbitrary: b)
    case (Cons t ts)
    obtain nano c where t: "t = (nano, c)" by fastforce
    obtain delay nxt where r: "run_turn nano c b = (delay, nxt)" by fastforce
    have n: "0 \<le> nano" using Cons.prems(1) t by simp
    note ok = run_turn_ok[OF Cons.prems(2) n r]
    from Cons.IH[of nxt] Cons.prems(1) ok(1) show ?case
      using ok(2-4) by (auto simp: t r nth_Cons split: nat.splits)
  qed simp
  moreover have "backoff_ok controlReconnectInitial" by (simp add: backoff_ok_def controlReconnectInitial_def controlReconnectMax_def)
  ultimately show ?thesis by blast
qed

theorem reconnect_delays_bounded_witness:
  "375 * millisecond < run_turns [(5, 0), (7, 40 * second)] controlReconnectInitial ! 1 \<and>
   run_turns [(5, 0), (7, 40 * second)] controlReconnectInitial ! 1 \<le> controlReconnectInitial"
  using reconnect_delays_bounded[of "[(5, 0), (7, 40 * second)]"]
  by (auto simp: controlReconnectStable_def dest: spec[of _ 1])

subsection \<open>What a new connection inherits\<close>

lemma connect_simps [simp]:
  "cn_state (connect device version now st perms) = st" "cn_batcher (connect device version now st perms) = new_batcher"
  by (simp_all add: connect_def)

lemma disconnect_followers: "follower_count (ts_runner (fst (disconnect now cn))) t = followers cn t"
  by (simp add: disconnect_def)

text \<open>
  C22. The counts of followers are the runner's and are not reset for a new connection, whose
  batcher is empty. After a break with a follower of \<open>t\<close>, the output of \<open>t\<close> is sent although
  nobody asked for it on this connection; a subscription on it is not the first and gets no
  snapshot; and when it is given up again, the output is still sent.
\<close>

theorem followers_survive_reconnect:
  assumes "TrimSpace t \<noteq> []" "0 < followers cn t"
    and "cn2 = connect device version now (fst (disconnect ended cn)) perms"
    and "te_Kind e = EventTextDelta" "te_TerminalSessionID e = t"
  shows "shouldForwardTerminalEvent (ts_runner (cn_state cn2)) e \<and> cn_out (on_subscribe t now cn2) = cn_out cn2 \<and>
    shouldForwardTerminalEvent (ts_runner (cn_state (on_unsubscribe t now (on_subscribe t now cn2)))) e"
proof -
  have n: "followers cn2 t = followers cn t" by (simp add: assms(3) connect_def disconnect_followers)
  have sub: "on_subscribe t now cn2 = snd (set_followed t True cn2)" "followers (on_subscribe t now cn2) t = followers cn t + 1"
    using n assms(1,2) by (auto simp: on_subscribe_def set_followed_def setTerminalSubscribed_def follower_count_def Let_def)
  have un: "followers (on_unsubscribe t now (on_subscribe t now cn2)) t = followers cn t"
    using sub(2) assms(1,2) by (auto simp: on_unsubscribe_def set_followed_def setTerminalSubscribed_def follower_count_def Let_def)
  have "cn_out (snd (set_followed t True cn2)) = cn_out cn2" by (simp add: set_followed_def split: prod.splits)
  then show ?thesis using n sub un assms by (simp add: shouldForwardTerminalEvent_def)
qed

theorem followers_survive_reconnect_witness:
  "let cn = snd (set_followed ''t'' True (connect [] [] 0 ex_state NewStore)); e = ex_piece 1 ''a'' in
     shouldForwardTerminalEvent (ts_runner (cn_state (connect [] [] 9 (fst (disconnect 8 cn)) NewStore))) e"
proof -
  let ?cn = "snd (set_followed ''t'' True (connect [] [] 0 ex_state NewStore))"
  have "0 < followers ?cn ''t''"
    by (simp add: set_followed_def setTerminalSubscribed_def trim_t ex_state_def new_runner_def follower_count_def Let_def)
  then show ?thesis
    using followers_survive_reconnect[of "''t''" ?cn "connect [] [] 9 (fst (disconnect 8 ?cn)) NewStore" "[]" "[]" 9 8 NewStore "ex_piece 1 ''a''"]
    by (simp add: trim_t ex_piece_def EventTextDelta_def)
qed

subsection \<open>Output without numbers\<close>

text \<open>The steps of one terminal on a batcher whose ring is empty.\<close>

definition idle_batcher :: "(TerminalEvent \<Rightarrow> bool) option \<Rightarrow> terminalEventBatcher" where
  "idle_batcher g = SetShouldSend g new_batcher"

lemma idle_snapshot:
  "t \<noteq> [] \<Longrightarrow> SnapshotUndeliveredTerminal t now clock (idle_batcher g) = ((empty_event, False), idle_batcher g)"
  by (simp add: SnapshotUndeliveredTerminal_def snapshotTerminal_def idle_batcher_def SetShouldSend_def new_batcher_def
      newTerminalEventBatcher_def takeLocked_None)

lemma idle_subscribe:
  assumes "TrimSpace t \<noteq> []" "followers cn t = 0" "cn_batcher cn = idle_batcher g"
  shows "followers (on_subscribe t now cn) t = 1" "cn_out (on_subscribe t now cn) = cn_out cn" "cn_batcher (on_subscribe t now cn) = idle_batcher g"
proof -
  have ne: "t \<noteq> []" using assms(1) by (auto simp: TrimSpace_def unsegs_def)
  have "on_subscribe t now cn = snd (set_followed t True cn)"
    using assms idle_snapshot[OF ne, of now now g]
    by (simp add: on_subscribe_def set_followed_def setTerminalSubscribed_def Let_def)
  then show "followers (on_subscribe t now cn) t = 1" "cn_out (on_subscribe t now cn) = cn_out cn"
    "cn_batcher (on_subscribe t now cn) = idle_batcher g"
    using assms by (simp_all add: set_followed_def setTerminalSubscribed_def follower_count_def Let_def)
qed

definition shell_output :: "TerminalRequest \<Rightarrow> time \<Rightarrow> gostring \<Rightarrow> TerminalEvent" where
  "shell_output req now txt = (codex_event req EventTextDelta ''live'' (tr_Cwd req) now)\<lparr>te_Payload := txt\<rparr>"

lemma shell_output_simps [simp]:
  "te_Kind (shell_output req now txt) = ''text_delta''" "te_TerminalSessionID (shell_output req now txt) = tr_TerminalSessionID req"
  "te_Payload (shell_output req now txt) = txt" "te_Seq (shell_output req now txt) = 0" "te_SeqEnd (shell_output req now txt) = 0"
  "te_SeqStart (shell_output req now txt) = 0" "te_Timestamp (shell_output req now txt) = now"
  "te_Truncated (shell_output req now txt) = False"
  by (simp_all add: shell_output_def codex_event_def EventTextDelta_def empty_event_def)

lemma output_delta_forwards:
  assumes "unmarshal_struct (delta_fields process) no_params raw = (p, False)" "dl_process p = tr_TerminalSessionID req"
    "dl_data p \<noteq> []" "std_decode (dl_data p) = Some txt"
  shows "output_delta req process raw now rn = forwardTerminalEvent (shell_output req now txt) rn"
  using assms by (simp add: output_delta_def shell_output_def)

definition one_batch :: "TerminalEvent \<Rightarrow> (TerminalEvent \<Rightarrow> bool) option \<Rightarrow> terminalEventBatcher" where
  "one_batch e g = (idle_batcher g)\<lparr>b_pending := [(te_TerminalSessionID e, new_batch e)]\<rparr>"

lemma idle_add:
  assumes "te_Kind e = ''text_delta''" "te_TerminalSessionID e \<noteq> []" "te_Payload e \<noteq> []" "int (length (te_Payload e)) < terminalBatchMaxBytes"
  shows "Add e now (idle_batcher g) = one_batch e g"
  using assms
  by (simp add: Add_def add_locked_def idle_batcher_def one_batch_def SetShouldSend_def new_batcher_def newTerminalEventBatcher_def
      terminalBatchMaxBytes_def new_batch_def emit_all_def Let_def)

definition one_entry :: "TerminalEvent \<Rightarrow> time \<Rightarrow> (TerminalEvent \<Rightarrow> bool) option \<Rightarrow> terminalEventBatcher" where
  "one_entry e at g = (idle_batcher g)\<lparr>b_rings := (\<lambda>_. [])(te_TerminalSessionID e :=
     [\<lparr>re_at = at, re_bytes = int (length (te_Payload e)), re_payload = te_Payload e, re_seqStart = te_SeqStart e, re_seqEnd = te_SeqEnd e\<rparr>])\<rparr>"

lemma idle_take:
  assumes "te_Seq e = 0" "te_Timestamp e \<noteq> 0" "te_Truncated e = False" "int (length (te_Payload e)) < terminalBatchMaxBytes"
  shows "takeLocked (te_TerminalSessionID e) now (one_batch e g) = ([e], one_entry e (te_Timestamp e) g)"
  using assms
  by (simp add: takeLocked_def one_batch_def one_entry_def idle_batcher_def SetShouldSend_def new_batcher_def newTerminalEventBatcher_def
      recordRingLocked_def sealed_event_def new_batch_def ring_start.simps alist_del_def terminalBatchRingMaxBytes_def
      terminalBatchMaxBytes_def terminalBatchRingMaxAge_def Let_def)


lemma one_entry_subscribe:
  assumes "TrimSpace t \<noteq> []" "followers cn t = 0" "cn_batcher cn = one_entry e at g" "te_TerminalSessionID e = t" "te_Payload e \<noteq> []"
    "te_SeqEnd e = 0"
  shows "out_text t (cn_out (on_subscribe t now cn)) = out_text t (cn_out cn) @ te_Payload e"
proof -
  have ne: "t \<noteq> []" using assms(1) by (auto simp: TrimSpace_def unsegs_def)
  obtain evt ok b1 where sn: "SnapshotUndeliveredTerminal t now now (one_entry e at g) = ((evt, ok), b1)" by (metis prod.exhaust)
  have k: "ok \<and> te_Kind evt = ''text_delta'' \<and> te_TerminalSessionID evt = t \<and> te_Payload evt = te_Payload e"
    using sn ne assms(4-6)
    by (auto simp: SnapshotUndeliveredTerminal_def snapshotTerminal_def one_entry_def idle_batcher_def SetShouldSend_def
        new_batcher_def newTerminalEventBatcher_def takeLocked_def snapshot_step_def empty_event_def Let_def)
  obtain rn where rn: "setTerminalSubscribed t True (ts_runner (cn_state cn)) = (1, rn)"
    using assms(1,2) by (auto simp: setTerminalSubscribed_def Let_def)
  show ?thesis using k by (simp add: on_subscribe_def set_followed_def rn assms(3) sn Let_def raw_send)
qed

lemma one_entry_emit:
  assumes "te_Kind e = ''text_delta''" "te_Seq e = 0" "te_SeqEnd e = 0" "te_TerminalSessionID e \<noteq> []" "g e"
  shows "emit e (one_entry e at (Some g)) = (one_entry e at (Some g))\<lparr>b_sent := [e]\<rparr>"
  using assms
  by (simp add: emit_def MarkDelivered_def one_entry_def idle_batcher_def SetShouldSend_def new_batcher_def newTerminalEventBatcher_def)

text \<open>
  The output of a shell that the app server of Codex runs has no sequence numbers, and the
  delivery mark works by them: text that a follower has got is sent again to the next first
  follower, whole, for as long as it is in the ring.
\<close>

theorem shell_output_sent_again:
  assumes "TrimSpace (tr_TerminalSessionID req) \<noteq> []" "follower_count (ts_runner st) (tr_TerminalSessionID req) = 0"
    and "txt \<noteq> []" "int (length txt) < terminalBatchMaxBytes" "now \<noteq> 0"
    and "ops = [(Follow (tr_TerminalSessionID req), t1), (Produce (shell_output req now txt), t2), (FlushTimer (tr_TerminalSessionID req), t3),
          (Unfollow (tr_TerminalSessionID req), t4), (Follow (tr_TerminalSessionID req), t5)]"
  shows "terminal_output (tr_TerminalSessionID req) ops = txt \<and>
    out_text (tr_TerminalSessionID req) (cn_out (fold conn_step ops (connect device version t0 st perms))) = txt @ txt"
proof -
  let ?t = "tr_TerminalSessionID req" let ?e = "shell_output req now txt"
  have ne: "?t \<noteq> []" using assms(1) by (auto simp: TrimSpace_def unsegs_def)
  let ?c0 = "connect device version t0 st perms"
  define c1 where "c1 = on_subscribe ?t t1 ?c0"
  have i0: "cn_batcher ?c0 = idle_batcher None"
    by (simp add: idle_batcher_def SetShouldSend_def new_batcher_def newTerminalEventBatcher_def)
  have "out_text ?t (cn_out ?c0) = []" using announced_text by (simp add: connect_def)
  with idle_subscribe[OF assms(1) _ i0, of t1] assms(2)
  have c1: "followers c1 ?t = 1" "out_text ?t (cn_out c1) = []" "cn_batcher c1 = idle_batcher None" by (simp_all add: c1_def)
  let ?g = "shouldForwardTerminalEvent (ts_runner (cn_state c1))"
  have reg: "SetShouldSend g (idle_batcher h) = idle_batcher g" "SetShouldSend g (one_batch e h) = one_batch e g" for g h e
    by (simp_all add: idle_batcher_def one_batch_def SetShouldSend_def)
  define c2 where "c2 = sendTerminal t2 ?e c1"
  have c2: "c2 = c1\<lparr>cn_batcher := one_batch ?e (Some ?g)\<rparr>"
    using idle_add[of ?e t2 "Some ?g"] assms(3,4) ne c1(3)
    by (simp add: c2_def sendTerminal_def with_batcher_def reg Let_def) (simp add: one_batch_def idle_batcher_def SetShouldSend_def new_batcher_def newTerminalEventBatcher_def)
  define c3 where "c3 = flush_timer ?t t3 c2"
  have f: "FlushTerminal ?t t3 (one_batch ?e (Some ?g)) = (one_entry ?e now (Some ?g))\<lparr>b_sent := [?e]\<rparr>"
  proof -
    have "?g ?e" using c1(1) assms(1) by (simp add: shouldForwardTerminalEvent_def)
    then have "emit ?e (one_entry ?e now (Some ?g)) = (one_entry ?e now (Some ?g))\<lparr>b_sent := [?e]\<rparr>"
      by (intro one_entry_emit) (simp_all add: ne)
    moreover have "\<not> b_closed (one_batch ?e (Some ?g))"
      by (simp add: one_batch_def idle_batcher_def SetShouldSend_def new_batcher_def newTerminalEventBatcher_def)
    ultimately show ?thesis using idle_take[of ?e t3 "Some ?g"] assms(4,5) ne by (simp add: FlushTerminal_def emit_all_def)
  qed
  have c3: "c3 = rawSendTerminal t3 ?e (c1\<lparr>cn_batcher := one_entry ?e now (Some ?g)\<rparr>)"
    using f by (simp add: c3_def flush_timer_def with_batcher_def c2 reg Let_def)
      (simp add: one_entry_def idle_batcher_def SetShouldSend_def new_batcher_def newTerminalEventBatcher_def)
  have r3: "followers c3 ?t = 1" "out_text ?t (cn_out c3) = txt" "cn_batcher c3 = one_entry ?e now (Some ?g)"
    using c1 by (simp_all add: c3 raw_send)
  define c4 where "c4 = on_unsubscribe ?t t4 c3"
  have "takeLocked ?t t4 (one_entry ?e now (Some ?g)) = ([], one_entry ?e now (Some ?g))"
    by (simp add: takeLocked_def one_entry_def idle_batcher_def SetShouldSend_def new_batcher_def newTerminalEventBatcher_def)
  then have r4: "followers c4 ?t = 0" "out_text ?t (cn_out c4) = txt" "cn_batcher c4 = one_entry ?e now (Some ?g)"
    using r3 assms(1) ne by (simp_all add: c4_def on_unsubscribe_def set_followed_def setTerminalSubscribed_def follower_count_def DropTerminal_def Let_def)
  have "out_text ?t (cn_out (on_subscribe ?t t5 c4)) = txt @ txt"
    using one_entry_subscribe[OF assms(1) r4(1,3)] r4(2) assms(3) by simp
  moreover have "fold conn_step ops ?c0 = on_subscribe ?t t5 c4"
    by (simp add: assms(6) conn_step_def c4_def c3_def c2_def c1_def)
  moreover have "terminal_output ?t ops = txt" by (simp add: terminal_output_def own_events_def assms(6))
  ultimately show ?thesis by simp
qed

theorem shell_output_sent_again_witness:
  "out_text ''t'' (cn_out (fold conn_step
     [(Follow ''t'', 1), (Produce (shell_output \<lparr>tr_RequestID = [], tr_TerminalSessionID = ''t'', tr_SessionID = [], tr_Agent = ''codex'', tr_Cwd = ''/'',
          tr_Text = []\<rparr> 2 ''ls''), 2), (FlushTimer ''t'', 3), (Unfollow ''t'', 4), (Follow ''t'', 5)]
     (connect [] [] 0 ex_state NewStore))) = ''lsls''"
  using shell_output_sent_again[of "\<lparr>tr_RequestID = [], tr_TerminalSessionID = ''t'', tr_SessionID = [], tr_Agent = ''codex'', tr_Cwd = ''/'',
      tr_Text = []\<rparr>" ex_state "''ls''" 2 _ 1 2 3 4 5 "[]" "[]" 0 NewStore, OF _ _ _ _ _ refl]
  by (simp add: trim_t ex_state_def new_runner_def follower_count_def terminalBatchMaxBytes_def)

subsection \<open>Loading a session\<close>

definition final_event :: "SyncSessionEvent \<Rightarrow> bool" where
  "final_event e \<longleftrightarrow> se_Status e = ''completed'' \<or> se_Status e = ''failed''"

lemma sync_event_simps [simp]:
  "se_RequestID (sync_event req s t) = sq_RequestID req" "se_Status (sync_event req s t) = t" "se_Turns (sync_event req s t) = []"
  "se_Status (sync_failed req e) = ''failed''" "se_RequestID (sync_failed req e) = sq_RequestID req"
  "se_Turns (sync_failed req e) = []"
  "se_Status (progress_event req p) = ''running''" "se_RequestID (progress_event req p) = sq_RequestID req"
  "se_Status (window_event req body a b c) = b" "se_RequestID (window_event req body a b c) = sq_RequestID req"
  by (simp_all add: sync_event_def sync_failed_def progress_event_def window_event_def Let_def)

lemma sync_work_shape:
  "\<exists>ps e. fst (sync_work w ix req) = ps @ [e] \<and> list_all (\<lambda>x. se_Status x = ''running'' \<and> se_RequestID x = sq_RequestID req) ps \<and>
     final_event e \<and> se_RequestID e = sq_RequestID req \<and>
     (snd (sync_work w ix req) \<noteq> None \<longrightarrow> sq_BeforeSeq req \<le> 0)"
proof -
  obtain err body ps where b: "BuildSingleSessionWindowSyncRequestContext (sw_relay w) (sw_ended w) ix (sw_device w) (sq_SessionID req) (sw_profile w)
         \<lparr>wn_Limit = sq_Limit req, wn_BeforeSeq = sq_BeforeSeq req\<rparr> = (err, body, ps)" by (metis prod_cases3)
  show ?thesis
  proof (cases err)
    case (Some e)
    have "fst (sync_work w ix req) = map (progress_event req) ps @ [sync_failed req (syncErrorCode e)]"
      "snd (sync_work w ix req) = None" by (simp_all add: sync_work_def b Some)
    then show ?thesis
      by (intro exI[of _ "map (progress_event req) ps"] exI[of _ "sync_failed req (syncErrorCode e)"]) (simp add: list_all_iff final_event_def)
  next
    case None
    show ?thesis
    proof (cases "sq_BeforeSeq req > 0")
      case True
      let ?e = "(window_event req body ''completed'' ''completed'' ''Session window loaded'')\<lparr>se_Turns := storedTurnsFromSync (rq_Turns body) (sw_device w)\<rparr>"
      have "fst (sync_work w ix req) = map (progress_event req) ps @ [?e]" "snd (sync_work w ix req) = None"
        using True by (simp_all add: sync_work_def b None)
      then show ?thesis by (intro exI[of _ "map (progress_event req) ps"] exI[of _ ?e]) (simp add: list_all_iff final_event_def)
    next
      case False
      let ?e = "if sw_upload w body then window_event req body ''completed'' ''completed'' ''Session synced'' else sync_failed req ''upload_failed''"
      have "fst (sync_work w ix req) = (map (progress_event req) ps @ [window_event req body ''uploading'' ''running'' ''Uploading history'']) @ [?e]"
        using False by (simp add: sync_work_def b None)
      then show ?thesis using False
        by (intro exI[of _ "map (progress_event req) ps @ [window_event req body ''uploading'' ''running'' ''Uploading history'']"] exI[of _ ?e])
          (simp add: list_all_iff final_event_def)
    qed
  qed
qed

text \<open>
  C14. A request for the turns of a session is answered: if it has an id, it gets events of which
  exactly the last is final (completed or failed), all with its id; nothing is uploaded while
  another request is active or when an older window was asked for; and afterwards the same
  requests are active as before.
\<close>

theorem sync_request_answered:
  assumes "sq_RequestID req \<noteq> []" "handleSyncSession w ix req rn = (evs, up, rn')"
  shows "(\<exists>ps e. evs = ps @ [e] \<and> final_event e \<and> list_all (\<lambda>x. \<not> final_event x) ps) \<and>
    list_all (\<lambda>x. se_RequestID x = sq_RequestID req) evs \<and>
    (up \<noteq> None \<longrightarrow> rn_active rn = [] \<and> sq_BeforeSeq req \<le> 0) \<and> rn_active rn' = rn_active rn"
proof (cases "rn_active rn = []")
  case False
  then have "evs = [] @ [sync_failed req ''daemon_busy'']" "up = None" "rn' = rn"
    using assms by (auto simp: handleSyncSession_def sync_begin_def)
  then show ?thesis by (auto simp: final_event_def)
next
  case True
  obtain ps e where s: "fst (sync_work w ix req) = ps @ [e]"
      "list_all (\<lambda>x. se_Status x = ''running'' \<and> se_RequestID x = sq_RequestID req) ps" "final_event e" "se_RequestID e = sq_RequestID req"
      "snd (sync_work w ix req) \<noteq> None \<longrightarrow> sq_BeforeSeq req \<le> 0"
    using sync_work_shape by blast
  let ?q = "(sync_event req ''queued'' ''running'')\<lparr>se_Message := ''Queued''\<rparr>"
  have r: "evs = (?q # ps) @ [e]" "up = snd (sync_work w ix req)" "rn' = sync_end req (rn\<lparr>rn_active := [sq_RequestID req]\<rparr>)"
    using assms True s(1) by (auto simp: handleSyncSession_def sync_begin_def split: prod.splits)
  have "list_all (\<lambda>x. \<not> final_event x) (?q # ps)" using s(2) by (auto simp: list_all_iff final_event_def)
  then have 1: "\<exists>ps e. evs = ps @ [e] \<and> final_event e \<and> list_all (\<lambda>x. \<not> final_event x) ps" using r(1) s(3) by blast
  have 2: "list_all (\<lambda>x. se_RequestID x = sq_RequestID req) evs" using r(1) s(2,4) by (auto simp: list_all_iff)
  have 3: "up \<noteq> None \<longrightarrow> rn_active rn = [] \<and> sq_BeforeSeq req \<le> 0" using r(2) s(5) True by simp
  have 4: "rn_active rn' = rn_active rn" using r(3) True by (simp add: sync_end_def)
  from 1 2 3 4 show ?thesis by blast
qed

definition ex_fetch :: fetch_world where
  "ex_fetch =
     \<lparr>sw_relay = \<lparr>rw_disk = \<lparr>dk_file = (\<lambda>_. None), dk_claude = Inl [], dk_codex = Inl [], dk_threads = [], dk_rfc3339 = (\<lambda>_. []),
        dk_codexTime = (\<lambda>_. None), dk_localTime = (\<lambda>_. None)\<rparr>, rw_num = (\<lambda>_. None), rw_sha = (\<lambda>s. s), rw_version = ''1''\<rparr>,
      sw_device = ''d'', sw_profile = \<lparr>pf_ClaudeAlias = []\<rparr>, sw_ended = (\<lambda>_. None), sw_upload = (\<lambda>_. True)\<rparr>"

definition ex_fetch_request :: SyncSessionRequest where
  "ex_fetch_request = \<lparr>sq_RequestID = ''r'', sq_SessionID = ''s'', sq_Limit = 5, sq_BeforeSeq = 0\<rparr>"

theorem sync_request_answered_witness:
  "\<exists>ps e. fst (handleSyncSession ex_fetch new_index ex_fetch_request new_runner) = ps @ [e] \<and> final_event e \<and> list_all (\<lambda>x. \<not> final_event x) ps"
proof -
  obtain evs up rn' where h: "handleSyncSession ex_fetch new_index ex_fetch_request new_runner = (evs, up, rn')" by (metis prod_cases3)
  have "sq_RequestID ex_fetch_request \<noteq> []" by (simp add: ex_fetch_request_def)
  from sync_request_answered[OF this h] show ?thesis by (simp add: h)
qed

subsection \<open>Listing a directory\<close>

lemma insert_entry_set: "set (insert_entry lower e es) = insert e (set es)"
  by (induction es) auto

lemma sort_listing_set: "set (sort_listing lower es) = set es"
  by (induction es) (auto simp: sort_listing_def insert_entry_set)

definition dirs_first :: "ListDirEntry list \<Rightarrow> bool" where
  "dirs_first es \<longleftrightarrow> sorted_wrt (\<lambda>a b. le_IsDir b \<longrightarrow> le_IsDir a) es"

lemma insert_dirs_first: "dirs_first es \<Longrightarrow> dirs_first (insert_entry lower e es)"
  by (induction es) (auto simp: dirs_first_def insert_entry_set entry_before_def split: if_splits)

lemma sort_dirs_first: "dirs_first (sort_listing lower es)"
proof (induction es)
  case (Cons e es)
  then show ?case using insert_dirs_first by (simp add: sort_listing_def)
qed (simp add: sort_listing_def dirs_first_def)

lemma take_dirs_first:
  assumes "dirs_first es" "x \<in> set (take n es)" "\<not> le_IsDir x" "d \<in> set es" "le_IsDir d"
  shows "d \<in> set (take n es)"
proof (rule ccontr)
  assume n: "d \<notin> set (take n es)"
  have "set es = set (take n es) \<union> set (drop n es)" by (metis append_take_drop_id set_append)
  with n assms(4) have "d \<in> set (drop n es)" by blast
  moreover have "sorted_wrt (\<lambda>a b. le_IsDir b \<longrightarrow> le_IsDir a) (take n es @ drop n es)" using assms(1) unfolding dirs_first_def append_take_drop_id .
  ultimately have "le_IsDir x" using assms(2,5) unfolding sorted_wrt_append by blast
  with assms(3) show False by simp
qed

text \<open>
  C19. A listing is short and shows what a picker of directories needs: at most 500 entries, none
  hidden, every directory before every file; the entries are those of the directory, and one is
  left out only when there are 500 others, a directory only when all of these are directories.
\<close>

theorem listing_keeps_directories:
  assumes "handleListDir w rid path = r" "lr_Error r = []" "lw_entries w (lr_Path r) = Inr raw" "lr_Path r \<noteq> []"
    and "visible = map (list_entry w (lr_Path r)) (filter (\<lambda>e. \<not> HasPrefix (fst e) ''.'') raw)"
  shows "length (lr_Entries r) \<le> 500 \<and> dirs_first (lr_Entries r) \<and> set (lr_Entries r) \<subseteq> set visible \<and>
    (\<forall>e\<in>set (lr_Entries r). \<not> HasPrefix (le_Name e) ''.'') \<and>
    (\<forall>e\<in>set visible - set (lr_Entries r). lr_Truncated r \<and> length (lr_Entries r) = 500 \<and>
       (le_IsDir e \<longrightarrow> (\<forall>x\<in>set (lr_Entries r). le_IsDir x)))"
proof -
  obtain dir raw' where l: "r = listing w rid dir raw'" "lw_entries w dir = Inr raw'"
    using assms(1,2,4) by (auto simp: handleListDir_def no_listing_def Let_def split: sum.splits bool.splits)
  have p: "lr_Path r = dir" "raw' = raw" using l assms(3) by (simp_all add: listing_def Let_def)
  let ?es = "sort_listing (lw_lower w) visible"
  have r: "lr_Entries r = take 500 ?es" "lr_Truncated r \<longleftrightarrow> 500 < length ?es"
    using l p assms(5) by (simp_all add: listing_def no_listing_def listDirMaxEntries_def Let_def)
  have s: "set ?es = set visible" by (rule sort_listing_set)
  have d: "dirs_first ?es" by (rule sort_dirs_first)
  have sub: "set (lr_Entries r) \<subseteq> set visible" using r(1) s by (metis set_take_subset)
  have hid: "\<forall>e\<in>set visible. \<not> HasPrefix (le_Name e) ''.''" by (auto simp: assms(5) list_entry_def Let_def)
  have df: "dirs_first (lr_Entries r)" using d r(1) by (simp add: dirs_first_def sorted_wrt_take)
  have out: "lr_Truncated r \<and> length (lr_Entries r) = 500 \<and> (le_IsDir e \<longrightarrow> (\<forall>x\<in>set (lr_Entries r). le_IsDir x))"
    if "e \<in> set visible - set (lr_Entries r)" for e
  proof -
    have "500 < length ?es" using that r(1) s by (cases "length ?es \<le> 500") auto
    moreover have "le_IsDir x" if "le_IsDir e" "x \<in> set (lr_Entries r)" for x
    proof (rule ccontr)
      assume "\<not> le_IsDir x"
      moreover have "x \<in> set (take 500 ?es)" "e \<in> set ?es" using that(2) \<open>e \<in> set visible - set (lr_Entries r)\<close> r(1) s by auto
      ultimately have "e \<in> set (take 500 ?es)" using take_dirs_first[OF d] that(1) by blast
      then show False using \<open>e \<in> set visible - set (lr_Entries r)\<close> r(1) by simp
    qed
    ultimately show ?thesis using r by simp
  qed
  from r(1) df sub hid out show ?thesis by auto
qed

definition ex_list_world :: list_world where
  "ex_list_world = \<lparr>lw_home = Inr ''/h'', lw_cwd = ''/'', lw_stat = (\<lambda>_. Inr True), lw_entries = (\<lambda>_. Inr [(''f'', False, False), (''.git'', True, False), (''d'', True, False)]),
     lw_lower = (\<lambda>r. r)\<rparr>"

lemma ex_list_path: "lr_Path (handleListDir ex_list_world ''r'' []) = ''/h'' \<and> lr_Error (handleListDir ex_list_world ''r'' []) = []"
proof -
  have "Clean ''/h'' = ''/h''" by code_simp
  moreover have "TrimSpace [] = []" by (simp add: TrimSpace_def unsegs_def)
  ultimately show ?thesis
    by (simp add: handleListDir_def asked_path_def absolute_def IsAbs_def HasPrefix_def ex_list_world_def listing_def no_listing_def Let_def)
qed

theorem listing_keeps_directories_witness:
  "let r = handleListDir ex_list_world ''r'' [] in length (lr_Entries r) \<le> 500 \<and> dirs_first (lr_Entries r)"
proof -
  let ?r = "handleListDir ex_list_world ''r'' []"
  have p: "lr_Error ?r = []" "lr_Path ?r \<noteq> []" using ex_list_path by simp_all
  have e: "lw_entries ex_list_world (lr_Path ?r) = Inr [(''f'', False, False), (''.git'', True, False), (''d'', True, False)]"
    by (simp add: ex_list_world_def)
  from listing_keeps_directories[OF refl p(1) e p(2) refl] show ?thesis unfolding Let_def by blast
qed

end
