(* ===== verification/ShellEnv.thy ===== *)
theory ShellEnv
  imports ClaudeRecords GoPath
begin

section \<open>The environment of an agent\<close>

text \<open>
  The end of \<open>daemon/internal/control/control.go\<close>: a daemon that was not started from a shell lacks
  the variables the user exports in the shell's files, so the ones for the agents are read
  from there. The environment of the process (\<open>os.Environ\<close>) and the files are arguments. The
  second half is \<open>shellQuote\<close>, with which a command line for a shell is built.
\<close>

subsection \<open>Variables in a text\<close>

text \<open>\<open>os.Expand\<close>: the name after a dollar sign and the number of bytes it takes.\<close>

definition isShellSpecialVar :: "char \<Rightarrow> bool" where
  "isShellSpecialVar c \<longleftrightarrow> c \<in> set ''*#$@!?-0123456789''"

definition isAlphaNum :: "char \<Rightarrow> bool" where
  "isAlphaNum c \<longleftrightarrow> (let n = of_char c :: nat in c = CHR ''_'' \<or> 48 \<le> n \<and> n \<le> 57 \<or> 97 \<le> n \<and> n \<le> 122 \<or> 65 \<le> n \<and> n \<le> 90)"

definition getShellName :: "gostring \<Rightarrow> gostring \<times> nat" where
  "getShellName s =
     (case s of
        [] \<Rightarrow> ([], 0)
      | c # r \<Rightarrow>
          if c = CHR ''{''
          then (if length s > 2 \<and> isShellSpecialVar (s ! 1) \<and> s ! 2 = CHR ''}'' then ([s ! 1], 3)
                else let name = takeWhile (\<lambda>x. x \<noteq> CHR ''}'') r in
                  if length name = length r then ([], 1)
                  else if name = [] then ([], 2)
                  else (name, length name + 2))
          else if isShellSpecialVar c then ([c], 1)
          else let name = takeWhile isAlphaNum s in (name, length name))"

function Expand :: "(gostring \<Rightarrow> gostring) \<Rightarrow> gostring \<Rightarrow> gostring" where
  "Expand f [] = []"
| "Expand f (c # s) =
     (if c = CHR ''$'' \<and> s \<noteq> []
      then (case getShellName s of (name, w) \<Rightarrow>
        (if name = [] \<and> w > 0 then [] else if name = [] then [c] else f name) @ Expand f (drop w s))
      else c # Expand f s)"
  by pat_completeness auto
termination by (relation "measure (\<lambda>(f, s). length s)") auto

text \<open>A text without a dollar sign is its own expansion.\<close>

lemma Expand_plain: "CHR ''$'' \<notin> set s \<Longrightarrow> Expand f s = s"
  by (induction s) auto

subsection \<open>Export lines\<close>

type_synonym env_map = "(gostring \<times> gostring) list"

definition set_entry :: "gostring \<Rightarrow> env_map \<Rightarrow> env_map" where
  "set_entry e m = (case cut_at ''='' e of Some (k, v) \<Rightarrow> alist_put k v m | None \<Rightarrow> m)"

definition with_environ :: "gostring list \<Rightarrow> env_map \<Rightarrow> env_map" where
  "with_environ environ m = fold set_entry environ m"

text \<open>The default buffer of \<open>bufio.Scanner\<close> holds 65536 bytes; a longer line ends the scan.\<close>

definition scanned_lines :: "gostring \<Rightarrow> gostring list" where
  "scanned_lines content = map drop_cr (takeWhile (\<lambda>l. length l < 65536) (raw_lines content))"

text \<open>The name and the unexpanded value of a line.\<close>

definition export_of :: "gostring \<Rightarrow> (gostring \<times> gostring) option" where
  "export_of text0 =
     (let line = TrimSpace text0 in
      if line = [] \<or> HasPrefix line ''#'' \<or> \<not> HasPrefix line ''export '' then None
      else case cut_at ''='' (TrimSpace (TrimPrefix line ''export '')) of
        None \<Rightarrow> None
      | Some (k, raw) \<Rightarrow>
          if TrimSpace k = [] then None
          else Some (TrimSpace k, Trim (TrimSpace raw) [CHR 0x22, CHR 0x27]))"

definition value_in :: "env_map \<Rightarrow> gostring \<Rightarrow> gostring" where
  "value_in m name = (case alist_get m name of Some v \<Rightarrow> v | None \<Rightarrow> [])"

definition export_step :: "gostring \<Rightarrow> env_map \<Rightarrow> env_map" where
  "export_step line m =
     (case export_of line of None \<Rightarrow> m | Some (k, raw) \<Rightarrow> alist_put k (Expand (value_in m) raw) m)"

definition agent_name :: "gostring \<Rightarrow> bool" where
  "agent_name k \<longleftrightarrow> HasPrefix k ''ANTHROPIC_'' \<or> HasPrefix k ''CLAUDE_CODE_'' \<or> HasPrefix k ''OPENAI_'' \<or> HasPrefix k ''CODEX_''"

definition parseShellExports :: "gostring list \<Rightarrow> gostring \<Rightarrow> env_map \<Rightarrow> env_map" where
  "parseShellExports environ content base =
     filter (\<lambda>(k, v). alist_get base k \<noteq> None \<or> agent_name k)
       (fold export_step (scanned_lines content) (with_environ environ base))"

definition parseShellExportsFile :: "gostring list \<Rightarrow> gostring option \<Rightarrow> env_map \<Rightarrow> env_map" where
  "parseShellExportsFile environ file0 base = (case file0 of None \<Rightarrow> [] | Some content \<Rightarrow> parseShellExports environ content base)"

definition put_all :: "env_map \<Rightarrow> env_map \<Rightarrow> env_map" where
  "put_all new m = fold (\<lambda>(k, v). alist_put k v) new m"

definition shell_files :: "gostring \<Rightarrow> gostring list" where
  "shell_files home = map (\<lambda>n. PathJoin [home, n]) [''.zshrc'', ''.bashrc'', ''.bash_profile'', ''.profile'']"

definition read_exports :: "gostring list \<Rightarrow> gostring option list \<Rightarrow> env_map" where
  "read_exports environ contents = fold (\<lambda>c exports. put_all (parseShellExportsFile environ c exports) exports) contents []"

definition shellConfigExports :: "gostring list \<Rightarrow> gostring option \<Rightarrow> (gostring \<Rightarrow> gostring option) \<Rightarrow> env_map" where
  "shellConfigExports environ home read =
     (case home of
        None \<Rightarrow> []
      | Some h \<Rightarrow> if TrimSpace h = [] then [] else read_exports environ (map read (shell_files h)))"

text \<open>The environment of a new agent, as a map and as the list that is handed to the process.\<close>

definition merged_env :: "gostring list \<Rightarrow> gostring option \<Rightarrow> (gostring \<Rightarrow> gostring option) \<Rightarrow> env_map" where
  "merged_env environ home read = put_all (shellConfigExports environ home read) (with_environ environ [])"

definition mergedProcessEnv :: "gostring list \<Rightarrow> gostring option \<Rightarrow> (gostring \<Rightarrow> gostring option) \<Rightarrow> gostring list" where
  "mergedProcessEnv environ home read = map (\<lambda>(k, v). k @ ''='' @ v) (merged_env environ home read)"

subsection \<open>Quoting for a shell\<close>

definition quote_char :: char where "quote_char = CHR 0x27"

definition shellQuote :: "gostring \<Rightarrow> gostring" where
  "shellQuote s =
     (if s = [] then [quote_char, quote_char]
      else [quote_char] @ replace_byte quote_char [quote_char, CHR 0x5C, quote_char, quote_char] s @ [quote_char])"

end
