(* ===== verification/ShellProps.thy ===== *)
theory ShellProps
  imports ShellEnv
begin

section \<open>What the files of a shell change\<close>

text \<open>
  The variables that reach a new agent: only names of the agents' own are taken from the
  files of the shell; of several files the last one decides, even when it says nothing. And a
  quoted word is the word again to a shell that reads quotes the way POSIX says.
\<close>

subsection \<open>Maps of variables\<close>

lemma get_put_all: "distinct (keys new) \<Longrightarrow> alist_get (put_all new m) k = (case alist_get new k of Some v \<Rightarrow> Some v | None \<Rightarrow> alist_get m k)"
proof (induction new arbitrary: m)
  case (Cons p new)
  obtain a b where p: "p = (a, b)" by fastforce
  have "alist_get new a = None" using Cons.prems by (simp add: p alist_get_None_iff)
  with Cons.IH[of "alist_put a b m"] Cons.prems show ?case by (auto simp: put_all_def p split: option.splits)
qed (simp add: put_all_def)

lemma keys_put_all: "set (keys (put_all new m)) = set (keys new) \<union> set (keys m)"
proof (induction new arbitrary: m)
  case (Cons p new)
  then show ?case by (cases p) (auto simp: put_all_def)
qed (simp add: put_all_def)

lemma distinct_put_all: "distinct (keys m) \<Longrightarrow> distinct (keys (put_all new m))"
proof (induction new arbitrary: m)
  case (Cons p new)
  then show ?case by (cases p) (simp add: put_all_def)
qed (simp add: put_all_def)

lemma distinct_environ: "distinct (keys m) \<Longrightarrow> distinct (keys (with_environ environ m))"
  unfolding with_environ_def
  by (induction environ arbitrary: m) (auto simp: set_entry_def split: option.splits)

lemma distinct_steps: "distinct (keys m) \<Longrightarrow> distinct (keys (fold export_step ls m))"
  by (induction ls arbitrary: m) (auto simp: export_step_def split: option.splits)

lemma keys_filter: "set (keys (filter P m)) \<subseteq> set (keys m)" "distinct (keys m) \<Longrightarrow> distinct (keys (filter P m))"
  by (auto simp: keys_def distinct_map_filter)

lemma distinct_parse: "distinct (keys base) \<Longrightarrow> distinct (keys (parseShellExportsFile environ c base))"
  by (auto simp: parseShellExportsFile_def parseShellExports_def distinct_environ distinct_steps keys_filter split: option.splits)

lemma get_filter: "P k = (\<lambda>_. True) \<Longrightarrow> alist_get (filter (\<lambda>(k, v). P k v) m) k = alist_get m k"
  by (induction m) (auto simp: fun_eq_iff)

lemma parse_keys:
  "k \<in> set (keys (parseShellExportsFile environ c base)) \<Longrightarrow> k \<in> set (keys base) \<or> agent_name k"
  by (auto simp: parseShellExportsFile_def parseShellExports_def keys_def alist_get_None_iff[unfolded keys_def] image_iff split: option.splits)

lemma parse_get:
  assumes "agent_name k"
  shows "alist_get (parseShellExports environ content base) k = alist_get (fold export_step (scanned_lines content) (with_environ environ base)) k"
  unfolding parseShellExports_def
  by (rule get_filter[where P = "\<lambda>k v. alist_get base k \<noteq> None \<or> agent_name k"]) (simp add: assms)

lemma read_exports_snoc: "read_exports environ (cs @ [c]) = put_all (parseShellExportsFile environ c (read_exports environ cs)) (read_exports environ cs)"
  by (simp add: read_exports_def)

lemma read_exports_ok: "distinct (keys (read_exports environ cs)) \<and> (\<forall>k\<in>set (keys (read_exports environ cs)). agent_name k)"
proof (induction cs rule: rev_induct)
  case Nil
  then show ?case by (simp add: read_exports_def)
next
  case (snoc c cs)
  then show ?case by (auto simp: read_exports_snoc distinct_put_all keys_put_all dest: parse_keys)
qed

lemma shell_exports_ok:
  "distinct (keys (shellConfigExports environ home read))" "k \<in> set (keys (shellConfigExports environ home read)) \<Longrightarrow> agent_name k"
  using read_exports_ok by (auto simp: shellConfigExports_def Let_def split: option.splits if_splits)

text \<open>
  C20. The files of the shell change only the variables of the agents: for every name without one
  of the four prefixes, what a new agent gets is what the daemon itself has, whatever the files
  say, and a name the daemon does not have is not there.
\<close>

theorem shell_files_change_only_agent_names:
  assumes "\<not> agent_name k"
  shows "alist_get (merged_env environ home read) k = alist_get (with_environ environ []) k"
proof -
  have "alist_get (shellConfigExports environ home read) k = None"
    using shell_exports_ok(2)[of k environ home read] assms by (auto simp: alist_get_None_iff)
  then show ?thesis by (simp add: merged_env_def get_put_all[OF shell_exports_ok(1)])
qed

theorem shell_files_change_only_agent_names_witness:
  "alist_get (merged_env [''PATH=/bin''] (Some ''/h'') (\<lambda>_. Some ''export PATH=/evil'')) ''PATH'' = Some ''/bin''"
proof -
  have "\<not> agent_name ''PATH''" by (simp add: agent_name_def HasPrefix_def)
  from shell_files_change_only_agent_names[OF this, of "[''PATH=/bin'']" "Some ''/h''" "\<lambda>_. Some ''export PATH=/evil''"]
  show ?thesis by (simp add: with_environ_def set_entry_def HasPrefix_def)
qed

subsection \<open>The last file decides\<close>

definition exports_name :: "gostring \<Rightarrow> gostring \<Rightarrow> bool" where
  "exports_name content k \<longleftrightarrow> (\<exists>l\<in>set (scanned_lines content). \<exists>raw. export_of l = Some (k, raw))"

lemma steps_keep:
  "(\<And>l raw. l \<in> set ls \<Longrightarrow> export_of l \<noteq> Some (k, raw)) \<Longrightarrow> alist_get (fold export_step ls m) k = alist_get m k"
  by (induction ls arbitrary: m) (auto simp: export_step_def split: option.splits)

lemma environ_wins:
  "alist_get (with_environ environ []) k = Some u \<Longrightarrow> alist_get (with_environ environ m) k = Some u"
  unfolding with_environ_def
proof (induction environ arbitrary: u rule: rev_induct)
  case (snoc e es)
  then show ?case by (auto simp: set_entry_def split: option.splits if_splits)
qed simp

text \<open>
  C28. A later file undoes an earlier one: reading a file starts from the exports so far, puts the
  daemon's own environment over them and returns all of it. So when the last file of the four
  exists and does not mention an agent's variable that the daemon has, the agent gets the
  daemon's value, whatever the files before it export.
\<close>

theorem later_file_undoes_export:
  assumes "agent_name k" "alist_get (with_environ environ []) k = Some u"
    and "TrimSpace h \<noteq> []" "read (PathJoin [h, ''.profile'']) = Some content" "\<not> exports_name content k"
  shows "alist_get (merged_env environ (Some h) read) k = Some u"
proof -
  let ?cs = "map (\<lambda>n. read (PathJoin [h, n])) [''.zshrc'', ''.bashrc'', ''.bash_profile'']"
  have e: "shellConfigExports environ (Some h) read = read_exports environ (?cs @ [Some content])"
    using assms(3,4) by (simp add: shellConfigExports_def shell_files_def)
  have "alist_get (parseShellExports environ content (read_exports environ ?cs)) k = Some u"
    unfolding parse_get[OF assms(1)]
    using assms(5) environ_wins[OF assms(2)] by (subst steps_keep) (auto simp: exports_name_def)
  moreover have "distinct (keys (parseShellExportsFile environ (Some content) (read_exports environ ?cs)))"
    using distinct_parse read_exports_ok by blast
  ultimately have "alist_get (shellConfigExports environ (Some h) read) k = Some u"
    unfolding e read_exports_snoc by (simp add: get_put_all parseShellExportsFile_def)
  then show ?thesis by (simp add: merged_env_def get_put_all[OF shell_exports_ok(1)])
qed

lemma ex_exports: "export_of ''export CODEX_A=new'' = Some (''CODEX_A'', ''new'')"
proof -
  have t: "TrimSpace ''export CODEX_A=new'' = ''export CODEX_A=new''" "TrimSpace ''CODEX_A=new'' = ''CODEX_A=new''"
    "TrimSpace ''CODEX_A'' = ''CODEX_A''" "TrimSpace ''new'' = ''new''"
    by (simp_all add: TrimSpace_def unsegs_def rune_segs_ascii ascii_def is_space_def)
  show ?thesis by (simp add: export_of_def t HasPrefix_def TrimPrefix_def Trim_def TrimLeft_def TrimRight_def)
qed

text \<open>With the first file alone the agent gets the exported value; an empty last file takes it back.\<close>

theorem later_file_undoes_export_witness:
  "alist_get (parseShellExports [''CODEX_A=old''] ''export CODEX_A=new'' []) ''CODEX_A'' = Some ''new'' \<and>
   alist_get (merged_env [''CODEX_A=old''] (Some ''h'') (\<lambda>p. if p = PathJoin [''h'', ''.profile''] then Some [] else Some ''export CODEX_A=new'')) ''CODEX_A'' = Some ''old''"
proof
  have a: "agent_name ''CODEX_A''" by (simp add: agent_name_def HasPrefix_def)
  have e: "with_environ [''CODEX_A=old''] [] = [(''CODEX_A'', ''old'')]" by (simp add: with_environ_def set_entry_def HasPrefix_def)
  have l: "scanned_lines ''export CODEX_A=new'' = [''export CODEX_A=new'']" "scanned_lines [] = []"
    by (simp_all add: scanned_lines_def raw_lines_def drop_cr_def)
  show "alist_get (parseShellExports [''CODEX_A=old''] ''export CODEX_A=new'' []) ''CODEX_A'' = Some ''new''"
    unfolding parse_get[OF a] by (simp add: e l export_step_def ex_exports)
  have "TrimSpace ''h'' \<noteq> []" by (simp add: TrimSpace_def unsegs_def rune_segs_ascii ascii_def is_space_def)
  then show "alist_get (merged_env [''CODEX_A=old''] (Some ''h'') (\<lambda>p. if p = PathJoin [''h'', ''.profile''] then Some [] else Some ''export CODEX_A=new'')) ''CODEX_A'' = Some ''old''"
    by (intro later_file_undoes_export[OF a, where content = "[]"]) (simp_all add: e exports_name_def l)
qed

subsection \<open>Quoted words\<close>

lemma shellQuote_shape: "shellQuote s = [quote_char] @ replace_byte quote_char [quote_char, CHR 0x5C, quote_char, quote_char] s @ [quote_char]"
  by (simp add: shellQuote_def replace_byte_def)

text \<open>
  A quoted word is one word to a shell. \<open>word\<close> stands for the shell's removal of quotes, of which
  three documented rules are used: nothing has a meaning between two quote characters, a
  backslash outside of them takes the meaning from the next character, and nothing is left of
  nothing.
\<close>

lemma quoted_word_read_back:
  fixes word :: "gostring \<Rightarrow> gostring"
  assumes quoted: "\<And>a r. quote_char \<notin> set a \<Longrightarrow> word ([quote_char] @ a @ [quote_char] @ r) = a @ word r"
    and escaped: "\<And>c r. word (CHR 0x5C # c # r) = c # word r"
    and empty: "word [] = []"
  shows "word (shellQuote s) = s"
proof -
  have "word ([quote_char] @ a @ replace_byte quote_char [quote_char, CHR 0x5C, quote_char, quote_char] s @ [quote_char]) = a @ s"
    if "quote_char \<notin> set a" for a
    using that
  proof (induction s arbitrary: a)
    case Nil
    then show ?case using quoted[of a "[]"] by (simp add: replace_byte_def) (rule empty)
  next
    case (Cons c s)
    show ?case
    proof (cases "c = quote_char")
      case True
      have "word ([quote_char] @ a @ [quote_char] @ CHR 0x5C # quote_char # [quote_char] @ [] @
          replace_byte quote_char [quote_char, CHR 0x5C, quote_char, quote_char] s @ [quote_char]) = a @ quote_char # s"
        unfolding quoted[OF Cons.prems] escaped using Cons.IH[of "[]"] by simp
      with True show ?thesis by (simp add: replace_byte_def)
    next
      case False
      with Cons.IH[of "a @ [c]"] Cons.prems show ?thesis by (simp add: replace_byte_def)
    qed
  qed
  from this[of "[]"] show ?thesis by (simp add: shellQuote_shape)
qed

end
