(* ===== verification/Spec2Isabelle.thy ===== *)
theory Spec2Isabelle
  imports ManagerProps BatcherProps AnsiChunks ClaudeProps CodexProps SettingsProps PermissionBridge SdkProps CodexClientProps CodexTurns CodexApprovals
    IndexProps ControlProps SyncProps ConnProps ShellProps
begin

text \<open>
  Pockly: the daemon of \<open>src/daemon\<close>, a Go program that runs beside the coding agents (Claude
  Code and Codex) of a developer and connects them with a remote service, Nexus, through which a
  browser follows and steers the sessions.

  \<^bold>\<open>The program.\<close> The daemon reads the session files the agents keep on disk, keeps an index of
  them and uploads what changed. It keeps the terminals of running agents: processes on a
  pseudo terminal of its own, and external sessions that a wrapper process or a headless driver
  feeds. A message from the browser arrives on the control connection, is routed to the
  terminal bound to its session or, without one, to the agent's adapter, which starts or resumes a
  headless driver. What the terminals print goes back in batches. A tool an agent wants to run is
  asked for by an MCP server process (Claude) or by a request of the app server (Codex); the request
  is parked in the permission broker until the user decides in the browser.

  \<^bold>\<open>Conventions.\<close> (\<open>Prelude\<close>) A \<open>struct\<close> is a \<open>record\<close> with the prefix of its type on the fields,
  an interface or union a \<open>datatype\<close>, a function of the code a definition of the same name. A mutex
  makes an operation atomic: one definition takes the state before and gives the state after,
  with what it sends, in order. Code that can panic or fail returns a value of \<open>'a res\<close>, an option
  or a sum. A Go map is an association list whose order stands for one order of iteration.
  A string is the list of its bytes; runes are decoded from them the way Go does it.
  \<open>int\<close> of Go is \<open>int\<close> where no value can overflow, and a machine word or \<open>mod\<close> where one can.
  Times are nanoseconds in \<open>int\<close>. The clock, random bytes, the file system, processes and
  replies of other programs are arguments of the definitions, never fixed. Goroutines appear as
  step relations: one step is one critical section, and a goroutine between two of its sections is a
  pending item of the state. \<open>invariant_system\<close> and its extension \<open>monotone_system\<close> are the
  locales that turn a checked step into a fact about all reachable states; each is interpreted
  on a component.

  \<^bold>\<open>The language and its library.\<close>
    \<^item> \<open>GoStrings\<close>: bytes, UTF-8 both ways, \<open>strings\<close>, \<open>strconv\<close>, \<open>fmt\<close> verbs in use.
    \<^item> \<open>GoChan\<close>: buffered channels with their panics. \<open>GoPath\<close>: \<open>path/filepath\<close> on Unix.
    \<^item> \<open>GoBase64\<close>: standard and raw URL encoding, with the round trip.
    \<^item> \<open>GoJson\<close>, \<open>JsonWire\<close>: \<open>encoding/json\<close> as parser, printer and field access, and that
      the parser reads back what the printer wrote. The parser has fuel; \<open>2 * length + 2\<close> is given at
      the top and every call consumes input or one level, so it never ends for want of fuel.

  \<^bold>\<open>Terminals\<close> (\<open>internal/terminal\<close>, \<open>internal/control/terminal_batcher.go\<close>).
    \<^item> \<open>Terminal\<close>, \<open>Registry\<close>: shared types, the cleaning of output, subscribers.
    \<^item> \<open>External\<close> (external.go): emission by prepare, send and fan-out; inputs and
      their queue; rebinding; stop. Reachable states never panic, and events leave in the order of
      their numbers. \<open>ExternalProps\<close>: the history of session ids across rebinding.
    \<^item> \<open>TermSession\<close> (session.go): reader, timers, waiter, the line being typed.
    \<^item> \<open>SessionHandle\<close>: the Go interface of both as the locale \<open>session_handle\<close>, interpreted
      on both. \<open>Manager\<close>, \<open>ManagerProps\<close> (manager.go): the table, the index by session id, rebind
      listeners and clean-up goroutines in flight; the look-up never gives a session bound
      elsewhere, and two races that lose an entry.
    \<^item> \<open>Batcher\<close>, \<open>BatcherProps\<close>: collecting output, replay ring; the stream of a terminal
      is the concatenation of its events, whatever the batching; size and age limits.
    \<^item> \<open>AnsiStrip\<close>, \<open>AnsiChunks\<close> (cmd/pockly-claude-wrapper/ansi_strip.go): stripping chunk
      by chunk equals stripping at once, below the carry limit.

  \<^bold>\<open>Agents and their files\<close> (\<open>internal/agent\<close>, \<open>internal/index\<close>).
    \<^item> \<open>ClaudeRecords\<close>, \<open>ClaudeBlocks\<close>, \<open>ClaudeProps\<close>: records, titles, first messages and the
      blocks of a session; the kinds are well formed, blocks only grow with the file, and a
      sidechain block hangs under the nearest call of its ancestors (64 hops at most, as in the code).
      A line is at most 16 MiB, as the scanner's buffer.
    \<^item> \<open>CodexBlocks\<close>, \<open>CodexProps\<close>: rollouts; calls fused with their outputs by call id.
    \<^item> \<open>SessionIndex\<close>, \<open>IndexProps\<close> (index.go): the snapshot, its caches of first messages and
      turn counts, metadata patches, the watch loop with its debounce. A refresh keeps the
      catalog consistent (no session twice, none both live and deleted); the count
      continued from a file offset is the full count; only the first burst of changes fires.
    \<^item> \<open>Launch\<close> (agentexec, claudelauncher): finding an executable (at most 5 attempts)
      and the command line. \<open>AgentSettings\<close>, \<open>SettingsProps\<close> (agentsettings): model, mode and effort; the
      keys typed to reach a mode.

  \<^bold>\<open>Headless drivers\<close> (\<open>internal/agent/sdkdriver\<close>, \<open>internal/agent/codexapp\<close>).
    \<^item> \<open>SdkDriver\<close>, \<open>SdkManager\<close>, \<open>SdkProps\<close>: the Claude subprocess, the manager's
      entries, reuse, retries, reaping and shutdown.
    \<^item> \<open>CodexClient\<close>, \<open>CodexClientProps\<close>: JSON-RPC by lines (at most 128 MiB); every response
      reaches the request with its id or nobody.
    \<^item> \<open>CodexDriver\<close>, \<open>CodexTurns\<close>, \<open>CodexApprovals\<close>: one input after another as turns, the watchdog,
      notifications as events, approvals through the broker.

  \<^bold>\<open>Permissions\<close> (\<open>internal/permission\<close>, \<open>internal/api\<close>, \<open>mcp_permission.go\<close>).
    \<^item> \<open>Permission\<close>: the store; the locale \<open>permission_broker\<close> states what a client may rely on and
      is interpreted on it. \<open>PermissionApi\<close>: the HTTP handlers. \<open>McpPermission\<close>: the MCP server.
      \<open>PermissionBridge\<close>: the three composed on bytes; a call gets the first decision that was made.

  \<^bold>\<open>Control connection\<close> (\<open>internal/control/control.go\<close>, main.go).
    \<^item> \<open>ControlInject\<close>: routing a message, attachments, their names and paths. \<open>AgentAdapter\<close>: the
      adapter of main.go (messages, settings, stopping, resuming). \<open>ControlTask\<close>: \<open>handle\<close>, tasks
      and their acknowledgements, UUIDs. \<open>ControlProps\<close>: attachments stay below their directory,
      new ids are UUIDs of version 4.
    \<^item> \<open>ControlLoop\<close>: a connection (the runner, which outlives it, its batcher, the permission store and
      what was written), the reader by kinds of message, the delays between connections.
      \<open>ControlTerminal\<close>: followers, terminals of Claude and shells of the Codex app server, the search
      for a working directory. \<open>ControlSync\<close>: requests for the turns of one session. \<open>ListDir\<close>
      (listdir.go). \<open>ShellEnv\<close>: the variables that the files of the user's shell export to agents.
    \<^item> \<open>FollowProps\<close>: followers of a terminal miss nothing and get nothing twice, by a simulation
      that joins the batcher, the followers and the replay ring. \<open>ConnProps\<close>: bounded delays, answered
      requests, listings; what a broken connection does to followers. \<open>ShellProps\<close>: only variables of
      the agents change; a quoted word is read back.

  \<^bold>\<open>Upload\<close> (\<open>internal/relay/sync.go\<close>, \<open>internal/runner\<close>, \<open>internal/version\<close>, main.go).
    \<^item> \<open>RelaySync\<close>: profile, turns of a session, windows and their pages, catalog requests
      trimmed to 900000 bytes. \<open>SyncPolicy\<close>: intervals and caps from the environment, hints, the
      store of pushed hints, which sessions and windows to send. \<open>SyncLoop\<close>: signatures, one run and the loop.
    \<^item> \<open>SyncProps\<close>: paging back from the last window shows every turn once (the number of turns
      is enough fuel, since every page has a turn); a catalog that asks to delete the rest is whole;
      the body stays below the limit; no wanted session is left out; a turn that changed below the
      last one known is never sent again.

  \<^bold>\<open>Lemmas.\<close> The state machines have an invariant over the whole state, its preservation by every
  operation, and the safety facts that follow. Printers and parsers have round trips. Where the
  code does not do what it means to, the theorem shows the run: names that end in
  \<open>_never_sent\<close>, \<open>_forever\<close>, \<open>_collide\<close>, \<open>_bricked\<close>, \<open>_unsupervised\<close>, \<open>_once\<close>,
  \<open>_reconnect\<close>, \<open>_again\<close>, \<open>_undoes_export\<close>. A theorem with
  hypotheses is followed by \<open>_witness\<close>, an instance of it at concrete data.

  \<^bold>\<open>Not modelled.\<close> Sockets, HTTP transport, file locking and process control are the arguments and
  effects described above. Key files and signatures (\<open>internal/device\<close>, \<open>internal/pair\<close>) rest on
  libraries of cryptography. The local setup page, flag parsing, installation of files and
  hooks, self update, diagnosis, fake agents and test tools are not modelled, nor is
  the TypeScript side. Data races that break the language's memory model are outside the
  model: a critical section is one step.
\<close>

end
